(* ===== verification/Prelude.thy ===== *)
theory Prelude
  imports Main "HOL-Library.Monad_Syntax"
begin

section \<open>Shared vocabulary of the development\<close>

text \<open>
  What every component shares: the ways in which the compiler stops (\<open>err\<close>), the
  result type of a fallible function (\<open>'a res\<close>) with its sequencing \<open>bindr\<close>, the loop
  combinators that the visitors and the parser use, and the decimal rendering of
  \<open>std::to_string\<close>. The collections \<open>res_simps\<close> and \<open>ctx_simps\<close> gather the
  rewrite rules that carry the component proofs.
\<close>

named_theorems res_simps \<open>inversion of successful and failing computations\<close>
named_theorems ctx_simps \<open>rules about the token cursor\<close>

subsection \<open>Errors and results\<close>

text \<open>
  The compiler stops with a thrown \<open>std::string\<close> (\<open>Thrown\<close>), with a thrown C string
  (\<open>ThrownCStr\<close>, which no handler of \<open>main\<close> catches), with a \<open>std::runtime_error\<close>
  (\<open>RuntimeError\<close>) or with a failed \<open>assert\<close> (\<open>AssertFail\<close>). \<open>Undefined\<close> marks an
  operation to which C++ gives no meaning (a signed overflow, a null or out-of-range
  access), \<open>OutOfFuel\<close> a recursion that was cut off by its fuel.
\<close>

datatype err =
    Thrown string
  | ThrownCStr string
  | RuntimeError string
  | AssertFail
  | Undefined string
  | OutOfFuel

type_synonym 'a res = "err + 'a"

fun bindr :: "'a res \<Rightarrow> ('a \<Rightarrow> 'b res) \<Rightarrow> 'b res" where
  "bindr (Inl e) f = Inl e"
| "bindr (Inr x) f = f x"

definition guardr :: "bool \<Rightarrow> err \<Rightarrow> unit res" where
  "guardr b e = (if b then Inr () else Inl e)"

lemma bindr_cong [fundef_cong]:
  "m = m' \<Longrightarrow> (\<And>x. m' = Inr x \<Longrightarrow> f x = f' x) \<Longrightarrow> bindr m f = bindr m' f'"
  by (cases m') auto

lemma bindr_eq_Inr [res_simps]: "bindr m f = Inr y \<longleftrightarrow> (\<exists>x. m = Inr x \<and> f x = Inr y)"
  by (cases m) auto

lemma bindr_eq_Inl [res_simps]:
  "bindr m f = Inl e \<longleftrightarrow> m = Inl e \<or> (\<exists>x. m = Inr x \<and> f x = Inl e)"
  by (cases m) auto

lemma bindr_assoc: "bindr (bindr m f) g = bindr m (\<lambda>x. bindr (f x) g)"
  by (cases m) auto

lemma bindr_Inr_right [simp]: "bindr m Inr = m"
  by (cases m) auto

lemma guardr_eq_Inr [res_simps]: "guardr b e = Inr u \<longleftrightarrow> b"
  by (simp add: guardr_def)

lemma guardr_eq_Inl [res_simps]: "guardr b e = Inl e' \<longleftrightarrow> \<not> b \<and> e' = e"
  by (auto simp add: guardr_def)

lemma guardr_simps [simp]: "guardr True e = Inr ()" "guardr False e = Inl e"
  by (simp_all add: guardr_def)

text \<open>A range-based \<open>for\<close> loop whose body may throw, and the same with an accumulator.\<close>

fun mapr :: "('a \<Rightarrow> 'b res) \<Rightarrow> 'a list \<Rightarrow> 'b list res" where
  "mapr f [] = Inr []"
| "mapr f (x # xs) = bindr (f x) (\<lambda>y. bindr (mapr f xs) (\<lambda>ys. Inr (y # ys)))"

fun foldr_res :: "('a \<Rightarrow> 's \<Rightarrow> 's res) \<Rightarrow> 'a list \<Rightarrow> 's \<Rightarrow> 's res" where
  "foldr_res f [] s = Inr s"
| "foldr_res f (x # xs) s = bindr (f x s) (\<lambda>s'. foldr_res f xs s')"

lemma mapr_cong [fundef_cong]:
  "xs = ys \<Longrightarrow> (\<And>x. x \<in> set ys \<Longrightarrow> f x = g x) \<Longrightarrow> mapr f xs = mapr g ys"
proof (induction xs arbitrary: ys)
  case Nil
  then show ?case by simp
next
  case (Cons x xs)
  from Cons.prems Cons.IH [OF refl] show ?case by auto
qed

lemma foldr_res_cong [fundef_cong]:
  "xs = ys \<Longrightarrow> s = t \<Longrightarrow> (\<And>x u. x \<in> set ys \<Longrightarrow> f x u = g x u) \<Longrightarrow>
    foldr_res f xs s = foldr_res g ys t"
proof (induction xs arbitrary: ys s t)
  case Nil
  then show ?case by auto
next
  case (Cons x xs)
  have "foldr_res f xs = foldr_res g xs"
    using Cons.prems by (intro ext Cons.IH) auto
  with Cons.prems show ?case by auto
qed

lemma mapr_length: "mapr f xs = Inr ys \<Longrightarrow> length ys = length xs"
  by (induction xs arbitrary: ys) (auto simp: res_simps)

lemma mapr_Inr_iff:
  "mapr f xs = Inr ys \<longleftrightarrow> list_all2 (\<lambda>x y. f x = Inr y) xs ys"
  by (induction xs arbitrary: ys) (auto simp: res_simps list_all2_Cons1)

lemma foldr_res_append:
  "foldr_res f (xs @ ys) s = bindr (foldr_res f xs s) (foldr_res f ys)"
  by (induction xs arbitrary: s) (auto simp: bindr_assoc intro: bindr_cong)

lemma foldr_res_invariant:
  assumes "\<And>x s t. x \<in> set xs \<Longrightarrow> P s \<Longrightarrow> f x s = Inr t \<Longrightarrow> P t"
    and "P s" and "foldr_res f xs s = Inr t"
  shows "P t"
  using assms
proof (induction xs arbitrary: s)
  case Nil
  then show ?case by simp
next
  case (Cons x xs)
  from Cons.prems(3) obtain u where "f x s = Inr u" "foldr_res f xs u = Inr t"
    by (auto simp: res_simps)
  with Cons show ?case by (meson list.set_intros)
qed

subsection \<open>Lists\<close>

lemma drop_eq_ConsD: "drop n xs = y # ys \<Longrightarrow> n < length xs \<and> xs ! n = y \<and> drop (Suc n) xs = ys"
  by (metis Cons_nth_drop_Suc drop_all linorder_not_le list.distinct(1) list.inject)

lemma takeWhile_replicate_append:
  "\<not> P y \<Longrightarrow> P x \<Longrightarrow> takeWhile P (replicate n x @ y # ys) = replicate n x"
  by (induction n) auto

lemma map_of_eq_Some_iff_table:
  "distinct (map fst xs) \<Longrightarrow> map_of xs k = Some v \<longleftrightarrow> (k, v) \<in> set xs"
  by (rule map_of_eq_Some_iff)

subsection \<open>Decimal numerals\<close>

text \<open>\<open>std::to_string\<close> of an unsigned and of a signed integer.\<close>

definition digit_char :: "nat \<Rightarrow> char" where
  "digit_char d = char_of (48 + d)"

fun nat_to_string :: "nat \<Rightarrow> string" where
  "nat_to_string n =
     (if n < 10 then [digit_char n] else nat_to_string (n div 10) @ [digit_char (n mod 10)])"

declare nat_to_string.simps [simp del]

definition int_to_string :: "int \<Rightarrow> string" where
  "int_to_string i = (if i < 0 then CHR ''-'' # nat_to_string (nat (- i)) else nat_to_string (nat i))"

fun digits_value :: "string \<Rightarrow> nat" where
  "digits_value cs = foldl (\<lambda>a c. 10 * a + (of_char c - 48)) 0 cs"

declare digits_value.simps [simp del]

lemma digit_char_value: "d < 10 \<Longrightarrow> of_char (digit_char d) - 48 = d"
  by (simp add: digit_char_def)

lemma digit_char_range: "d < 10 \<Longrightarrow> 48 \<le> (of_char (digit_char d) :: nat) \<and> of_char (digit_char d) \<le> (57::nat)"
  by (simp add: digit_char_def)

lemma digits_value_nat_to_string [simp]: "digits_value (nat_to_string n) = n"
proof (induction n rule: nat_to_string.induct)
  case (1 n)
  show ?case
  proof (cases "n < 10")
    case True
    then show ?thesis
      by (simp add: nat_to_string.simps [of n] digits_value.simps digit_char_value)
  next
    case False
    then have "digits_value (nat_to_string (n div 10)) = n div 10"
      using "1.IH" by simp
    then have "foldl (\<lambda>a c. 10 * a + (of_char c - 48)) 0 (nat_to_string (n div 10)) = n div 10"
      by (simp add: digits_value.simps)
    with False show ?thesis
      by (simp add: nat_to_string.simps [of n] digits_value.simps digit_char_value)
  qed
qed

lemma nat_to_string_inj [simp]: "nat_to_string m = nat_to_string n \<longleftrightarrow> m = n"
  by (metis digits_value_nat_to_string)

lemma nat_to_string_digits: "c \<in> set (nat_to_string n) \<Longrightarrow> 48 \<le> (of_char c :: nat) \<and> of_char c \<le> (57::nat)"
proof (induction n rule: nat_to_string.induct)
  case (1 n)
  then show ?case
    by (cases "n < 10")
      (auto simp: nat_to_string.simps [of n] digit_char_range)
qed

lemma nat_to_string_nonempty [simp]: "nat_to_string n \<noteq> []"
  by (subst nat_to_string.simps) simp

lemma dot_not_in_nat_to_string [simp]: "CHR ''.'' \<notin> set (nat_to_string n)"
  by (auto dest: nat_to_string_digits)

text \<open>
  A name, a dot and a decimal number can be taken apart again: the number has no dot, so
  the last dot is the separator. This is what makes the generated labels unique.
\<close>

lemma split_last_dot:
  assumes "xs @ CHR ''.'' # ds = ys @ CHR ''.'' # es"
    and "CHR ''.'' \<notin> set ds" and "CHR ''.'' \<notin> set es"
  shows "xs = ys \<and> ds = es"
proof -
  have "takeWhile (\<lambda>c. c \<noteq> CHR ''.'') (rev (zs @ CHR ''.'' # fs)) = rev fs"
    if "CHR ''.'' \<notin> set fs" for zs fs :: string
    using that by (simp add: takeWhile_tail) (metis set_rev takeWhile_eq_all_conv)
  from this [OF assms(2), of xs] this [OF assms(3), of ys] assms(1)
  have "rev ds = rev es" by simp
  then have "ds = es" by simp
  with assms(1) show ?thesis by simp
qed

definition dotted :: "string \<Rightarrow> nat \<Rightarrow> string" where
  "dotted s n = s @ ''.'' @ nat_to_string n"

lemma dotted_inj [simp]: "dotted s m = dotted t n \<longleftrightarrow> s = t \<and> m = n"
proof
  assume "dotted s m = dotted t n"
  then have "s @ CHR ''.'' # nat_to_string m = t @ CHR ''.'' # nat_to_string n"
    by (simp add: dotted_def)
  from split_last_dot [OF this] show "s = t \<and> m = n" by simp
qed simp

end
