(* ===== verification/Ast.thy ===== *)
theory Ast
  imports Prelude
begin

section \<open>The syntax tree\<close>

text \<open>
  \<open>include/ast/ast.h\<close> and \<open>src/ast/ast.cpp\<close>: the node classes as one group of mutually
  recursive datatypes, a constructor per class, with the node's \<open>NodeId\<close> as its first
  argument. A \<open>shared_ptr\<close> that may be null is an \<open>option\<close>. Class hierarchies become
  types: \<open>expr\<close> for \<open>Expr_Node\<close>, \<open>stmt\<close> for \<open>Stmt_Node\<close>, \<open>item\<close> for \<open>Item_Node\<close>,
  \<open>type_node\<close> for \<open>Type_Node\<close> and \<open>pattern\<close> for \<open>Pattern_Node\<close>. A \<open>dynamic_cast\<close> is a
  case distinction on the constructor.
\<close>

datatype Mutibility = IMMUTABLE | MUTABLE

datatype ReferenceType = NO_REF | REF | REF_MUT

datatype LiteralType = LIT_NUMBER | LIT_STRING | LIT_CHAR | LIT_BOOL

datatype (plugins only: code size) Binary_Operator =
    BOP_ADD | BOP_SUB | BOP_MUL | BOP_DIV | BOP_MOD
  | BOP_AND | BOP_OR | BOP_XOR
  | BOP_AND_AND | BOP_OR_OR
  | BOP_EQ | BOP_NEQ | BOP_LT | BOP_GT | BOP_LEQ | BOP_GEQ
  | BOP_SHL | BOP_SHR
  | BOP_ASSIGN
  | BOP_ADD_ASSIGN | BOP_SUB_ASSIGN | BOP_MUL_ASSIGN | BOP_DIV_ASSIGN | BOP_MOD_ASSIGN
  | BOP_AND_ASSIGN | BOP_OR_ASSIGN | BOP_XOR_ASSIGN
  | BOP_SHL_ASSIGN | BOP_SHR_ASSIGN

datatype Unary_Operator = UOP_NEG | UOP_NOT | UOP_REF | UOP_REF_MUT | UOP_DEREF

datatype fn_reciever_type = NO_RECEIVER | RECV_SELF | RECV_SELF_REF | RECV_SELF_REF_MUT

datatype pattern = IdentifierPattern (pattern_id: nat) (pattern_name: string)
    (pattern_mut: Mutibility) (pattern_ref: ReferenceType)

datatype (plugins only: code size)
  type_node =
    PathType nat ReferenceType string
  | ArrayType nat ReferenceType type_node expr
  | UnitType nat ReferenceType
  | SelfType nat ReferenceType
and expr =
    LiteralExpr nat LiteralType string
  | IdentifierExpr nat string
  | BinaryExpr nat Binary_Operator expr expr
  | UnaryExpr nat Unary_Operator expr
  | CallExpr nat expr "expr list"
  | FieldExpr nat expr string
  | StructExpr nat type_node "(string \<times> expr) list"
  | IndexExpr nat expr expr
  | BlockExpr nat "stmt list" "stmt option" bool
  | IfExpr nat expr expr "expr option" bool
  | WhileExpr nat expr expr
  | LoopExpr nat expr bool
  | ReturnExpr nat "expr option"
  | BreakExpr nat "expr option"
  | ContinueExpr nat
  | CastExpr nat expr type_node
  | PathExpr nat type_node string
  | SelfExpr nat
  | UnitExpr nat
  | ArrayExpr nat "expr list"
  | RepeatArrayExpr nat expr expr
and stmt =
    LetStmt nat pattern type_node "expr option"
  | ExprStmt nat expr bool
  | ItemStmt nat item
and item =
    FnItem nat string fn_reciever_type "(pattern \<times> type_node) list" "type_node option" expr
  | StructItem nat string "(string \<times> type_node) list"
  | EnumItem nat string "string list"
  | ImplItem nat string "item list"
  | ConstItem nat string type_node expr

subsection \<open>Node ids\<close>

primrec type_id :: "type_node \<Rightarrow> nat" where
  "type_id (PathType k _ _) = k"
| "type_id (ArrayType k _ _ _) = k"
| "type_id (UnitType k _) = k"
| "type_id (SelfType k _) = k"

primrec expr_id :: "expr \<Rightarrow> nat" where
  "expr_id (LiteralExpr k _ _) = k"
| "expr_id (IdentifierExpr k _) = k"
| "expr_id (BinaryExpr k _ _ _) = k"
| "expr_id (UnaryExpr k _ _) = k"
| "expr_id (CallExpr k _ _) = k"
| "expr_id (FieldExpr k _ _) = k"
| "expr_id (StructExpr k _ _) = k"
| "expr_id (IndexExpr k _ _) = k"
| "expr_id (BlockExpr k _ _ _) = k"
| "expr_id (IfExpr k _ _ _ _) = k"
| "expr_id (WhileExpr k _ _) = k"
| "expr_id (LoopExpr k _ _) = k"
| "expr_id (ReturnExpr k _) = k"
| "expr_id (BreakExpr k _) = k"
| "expr_id (ContinueExpr k) = k"
| "expr_id (CastExpr k _ _) = k"
| "expr_id (PathExpr k _ _) = k"
| "expr_id (SelfExpr k) = k"
| "expr_id (UnitExpr k) = k"
| "expr_id (ArrayExpr k _) = k"
| "expr_id (RepeatArrayExpr k _ _) = k"

primrec stmt_id :: "stmt \<Rightarrow> nat" where
  "stmt_id (LetStmt k _ _ _) = k"
| "stmt_id (ExprStmt k _ _) = k"
| "stmt_id (ItemStmt k _) = k"

primrec item_id :: "item \<Rightarrow> nat" where
  "item_id (FnItem k _ _ _ _ _) = k"
| "item_id (StructItem k _ _) = k"
| "item_id (EnumItem k _ _) = k"
| "item_id (ImplItem k _ _) = k"
| "item_id (ConstItem k _ _ _) = k"

text \<open>The reference kind that every \<open>Type_Node\<close> carries.\<close>

primrec type_ref :: "type_node \<Rightarrow> ReferenceType" where
  "type_ref (PathType _ r _) = r"
| "type_ref (ArrayType _ r _ _) = r"
| "type_ref (UnitType _ r) = r"
| "type_ref (SelfType _ r) = r"

subsection \<open>Rendering of the enumerations\<close>

primrec literal_type_to_string :: "LiteralType \<Rightarrow> string" where
  "literal_type_to_string LIT_NUMBER = ''number''"
| "literal_type_to_string LIT_STRING = ''string''"
| "literal_type_to_string LIT_CHAR = ''char''"
| "literal_type_to_string LIT_BOOL = ''bool''"

primrec binary_operator_to_string :: "Binary_Operator \<Rightarrow> string" where
  "binary_operator_to_string BOP_ADD = ''+''"
| "binary_operator_to_string BOP_SUB = ''-''"
| "binary_operator_to_string BOP_MUL = ''*''"
| "binary_operator_to_string BOP_DIV = ''/''"
| "binary_operator_to_string BOP_MOD = ''%''"
| "binary_operator_to_string BOP_AND = ''&''"
| "binary_operator_to_string BOP_OR = ''|''"
| "binary_operator_to_string BOP_XOR = ''^''"
| "binary_operator_to_string BOP_AND_AND = ''&&''"
| "binary_operator_to_string BOP_OR_OR = ''||''"
| "binary_operator_to_string BOP_EQ = ''==''"
| "binary_operator_to_string BOP_NEQ = ''!=''"
| "binary_operator_to_string BOP_LT = ''<''"
| "binary_operator_to_string BOP_GT = ''>''"
| "binary_operator_to_string BOP_LEQ = ''<=''"
| "binary_operator_to_string BOP_GEQ = ''>=''"
| "binary_operator_to_string BOP_SHL = ''<<''"
| "binary_operator_to_string BOP_SHR = ''>>''"
| "binary_operator_to_string BOP_ASSIGN = ''=''"
| "binary_operator_to_string BOP_ADD_ASSIGN = ''+=''"
| "binary_operator_to_string BOP_SUB_ASSIGN = ''-=''"
| "binary_operator_to_string BOP_MUL_ASSIGN = ''*=''"
| "binary_operator_to_string BOP_DIV_ASSIGN = ''/=''"
| "binary_operator_to_string BOP_MOD_ASSIGN = ''%=''"
| "binary_operator_to_string BOP_AND_ASSIGN = ''&=''"
| "binary_operator_to_string BOP_OR_ASSIGN = ''|=''"
| "binary_operator_to_string BOP_XOR_ASSIGN = ''^=''"
| "binary_operator_to_string BOP_SHL_ASSIGN = ''<<=''"
| "binary_operator_to_string BOP_SHR_ASSIGN = ''>>=''"

primrec unary_operator_to_string :: "Unary_Operator \<Rightarrow> string" where
  "unary_operator_to_string UOP_NEG = ''-''"
| "unary_operator_to_string UOP_NOT = ''!''"
| "unary_operator_to_string UOP_REF = ''&''"
| "unary_operator_to_string UOP_REF_MUT = ''&mut''"
| "unary_operator_to_string UOP_DEREF = ''*''"

primrec fn_reciever_type_to_string :: "fn_reciever_type \<Rightarrow> string" where
  "fn_reciever_type_to_string NO_RECEIVER = ''no receiver''"
| "fn_reciever_type_to_string RECV_SELF = ''self''"
| "fn_reciever_type_to_string RECV_SELF_REF = ''&self''"
| "fn_reciever_type_to_string RECV_SELF_REF_MUT = ''&mut self''"

primrec mutibility_to_string :: "Mutibility \<Rightarrow> string" where
  "mutibility_to_string IMMUTABLE = ''immutable''"
| "mutibility_to_string MUTABLE = ''mutable''"

primrec reference_type_to_string :: "ReferenceType \<Rightarrow> string" where
  "reference_type_to_string NO_REF = ''no_ref''"
| "reference_type_to_string REF = ''ref''"
| "reference_type_to_string REF_MUT = ''ref_mut''"

end
