(* ===== verification/AstPrinter.thy ===== *)
theory AstPrinter
  imports Ast
begin

section \<open>Printing the tree\<close>

text \<open>
  The visitor \<open>AST_Printer\<close> of \<open>src/ast/visitor.cpp\<close>, which the tests use to dump the syntax tree.
  It writes one line for each node and each part of a node, indented by its \<open>depth\<close>; the lines that
  have been written are its state as well. A visit is a function of the state. That the lines form an
  outline at every depth is shown at the end.
\<close>

record AST_Printer =
  depth :: nat
  cout :: "string list"

type_synonym print_step = "AST_Printer \<Rightarrow> AST_Printer"

definition new_printer :: AST_Printer where
  "new_printer = \<lparr>depth = 0, cout = []\<rparr>"

definition tab_char :: char where
  "tab_char = CHR 0x09"

definition tab :: "AST_Printer \<Rightarrow> string" where
  "tab p = replicate (depth p) tab_char"

text \<open>\<open>cout << tab() << ... << endl\<close>.\<close>

definition say :: "string \<Rightarrow> print_step" where
  "say s p = p\<lparr>cout := cout p @ [tab p @ s]\<rparr>"

definition deeper :: print_step where
  "deeper p = p\<lparr>depth := depth p + 1\<rparr>"

definition shallower :: print_step where
  "shallower p = p\<lparr>depth := depth p - 1\<rparr>"

primrec run :: "print_step list \<Rightarrow> print_step" where
  "run [] p = p"
| "run (f # fs) p = run fs (f p)"

text \<open>The lines of a node, and its parts one step deeper.\<close>

definition visit_node :: "string list \<Rightarrow> print_step list \<Rightarrow> print_step" where
  "visit_node headers parts = run (map say headers @ [deeper] @ parts @ [shallower])"

definition with_id :: "string \<Rightarrow> nat \<Rightarrow> string" where
  "with_id s k = s @ '' , NodeId = '' @ nat_to_string k"

definition print_opt :: "string \<Rightarrow> print_step option \<Rightarrow> print_step" where
  "print_opt s f = (case f of None \<Rightarrow> run [] | Some f \<Rightarrow> run [say s, f])"

definition print_field :: "string \<Rightarrow> string \<Rightarrow> string \<times> print_step \<Rightarrow> print_step" where
  "print_field before after f = run [say (before @ fst f @ after), snd f]"

definition reference_line :: "ReferenceType \<Rightarrow> string" where
  "reference_line r = '', Reference Type = '' @ reference_type_to_string r"

definition unit_mark :: "bool \<Rightarrow> string list" where
  "unit_mark m = (if m then [''(must return unit)''] else [])"

primrec print_pattern :: "pattern \<Rightarrow> print_step" where
  "print_pattern (IdentifierPattern k name m r) =
     visit_node
       [with_id (''IdentifierPattern, name =  '' @ name) k,
        ''Mutibility = '' @ mutibility_to_string m @ reference_line r] []"

definition print_param :: "pattern \<times> print_step \<Rightarrow> print_step" where
  "print_param p = run [say ''Parameter name : '', print_pattern (fst p), say ''Parameter type : '', snd p]"

subsection \<open>The visitor\<close>

primrec print_type :: "type_node \<Rightarrow> print_step"
  and print_expr :: "expr \<Rightarrow> print_step"
  and print_stmt :: "stmt \<Rightarrow> print_step"
  and print_item :: "item \<Rightarrow> print_step"
where
  "print_type (PathType k r name) = visit_node [with_id (''PathType, name =  '' @ name) k, reference_line r] []"
| "print_type (ArrayType k r t e) =
     visit_node [with_id ''ArrayType'' k, reference_line r]
       [say ''Element Type : '', print_type t, say ''Size Expr : '', print_expr e]"
| "print_type (UnitType k r) = visit_node [with_id ''UnitType'' k, reference_line r] []"
| "print_type (SelfType k r) = visit_node [with_id ''SelfType'' k, reference_line r] []"
| "print_expr (LiteralExpr k t v) =
     visit_node [with_id (''LiteralExpr, type =  '' @ literal_type_to_string t @ '', value = '' @ v) k] []"
| "print_expr (IdentifierExpr k name) = visit_node [with_id (''IdentifierExpr, name =  '' @ name) k] []"
| "print_expr (BinaryExpr k OP l r) =
     visit_node [with_id (''BinaryExpr, op =  '' @ binary_operator_to_string OP) k]
       [say ''Left: '', print_expr l, say ''Right: '', print_expr r]"
| "print_expr (UnaryExpr k OP r) =
     visit_node [with_id (''UnaryExpr, op =  '' @ unary_operator_to_string OP) k] [say ''Right : '', print_expr r]"
| "print_expr (CallExpr k f args) =
     visit_node [with_id (''CallExpr, arguments size =  '' @ nat_to_string (length args)) k]
       [say ''Callee: '', print_expr f, say ''Arguments: '', run (map print_expr args)]"
| "print_expr (FieldExpr k b name) =
     visit_node [with_id (''FieldExpr, field name =  '' @ name) k] [say ''Base : '', print_expr b]"
| "print_expr (StructExpr k t fs) =
     visit_node [''StructExpr, NodeId = '' @ nat_to_string k]
       [say ''Struct Name : '', print_type t, say ''Fields : '',
        run (map (print_field ''name = '' '', value : '') (map (map_prod id print_expr) fs))]"
| "print_expr (IndexExpr k b i) =
     visit_node [with_id ''IndexExpr'' k] [say ''Base : '', print_expr b, say ''Index : '', print_expr i]"
| "print_expr (BlockExpr k ss t _) =
     visit_node [with_id (''BlockExpr, statements size =  '' @ nat_to_string (length ss)) k]
       [say ''Statements : '', run (map print_stmt ss), print_opt ''Tail Statement : '' (map_option print_stmt t)]"
| "print_expr (IfExpr k g a b m) =
     visit_node (with_id ''IfExpr'' k # unit_mark m)
       [say ''Condition : '', print_expr g, say ''Then Branch : '', print_expr a,
        print_opt ''Else Branch : '' (map_option print_expr b)]"
| "print_expr (WhileExpr k g b) =
     visit_node [with_id ''WhileExpr'' k] [say ''Condition : '', print_expr g, say ''Body : '', print_expr b]"
| "print_expr (LoopExpr k b m) = visit_node (with_id ''LoopExpr'' k # unit_mark m) [say ''Body : '', print_expr b]"
| "print_expr (ReturnExpr k v) =
     visit_node [with_id ''ReturnExpr'' k] [print_opt ''Return Value : '' (map_option print_expr v)]"
| "print_expr (BreakExpr k v) =
     visit_node [with_id ''BreakExpr'' k] [print_opt ''Break Value : '' (map_option print_expr v)]"
| "print_expr (ContinueExpr k) = visit_node [with_id ''ContinueExpr'' k] []"
| "print_expr (CastExpr k e t) =
     visit_node [with_id ''CastExpr'' k] [say ''Expr : '', print_expr e, say ''Target Type : '', print_type t]"
| "print_expr (PathExpr k t name) =
     visit_node [with_id (''PathExpr, name =  '' @ name) k] [say ''Base : '', print_type t]"
| "print_expr (SelfExpr k) = visit_node [with_id ''SelfExpr'' k] []"
| "print_expr (UnitExpr k) = visit_node [with_id ''UnitExpr'' k] []"
| "print_expr (ArrayExpr k es) =
     visit_node [with_id (''ArrayExpr, elements size =  '' @ nat_to_string (length es)) k]
       [say ''Elements : '', run (map print_expr es)]"
| "print_expr (RepeatArrayExpr k e s) =
     visit_node [with_id ''RepeatArrayExpr'' k] [say ''Element : '', print_expr e, say ''Size : '', print_expr s]"
| "print_stmt (LetStmt k p t e) =
     visit_node [with_id ''LetStmt'' k]
       [say ''Pattern : '', print_pattern p, say ''Type : '', print_type t,
        print_opt ''Initializer : '' (map_option print_expr e)]"
| "print_stmt (ExprStmt k e semi) =
     visit_node [with_id (''ExprStmt, is_semi =  '' @ (if semi then ''true'' else ''false'')) k]
       [say ''Expr : '', print_expr e]"
| "print_stmt (ItemStmt k i) = visit_node [with_id ''ItemStmt'' k] [say ''Item : '', print_item i]"
| "print_item (FnItem k name r ps t b) =
     visit_node [with_id (''FnItem, function name =  '' @ name @ '', receiver type = '' @ fn_reciever_type_to_string r) k]
       [say ''Parameters : '', run (map print_param (map (map_prod id print_type) ps)),
        print_opt ''Return Type : '' (map_option print_type t), say ''Body : '', print_expr b]"
| "print_item (StructItem k name fs) =
     visit_node [with_id (''StructItem, struct name =  '' @ name) k]
       [say ''Fields : '', run (map (print_field ''Field name = '' '', type : '') (map (map_prod id print_type) fs))]"
| "print_item (EnumItem k name vs) =
     visit_node [with_id (''EnumItem, enum name =  '' @ name) k]
       [say ''Variants : '', run (map (\<lambda>v. say (''Variant name = '' @ v)) vs)]"
| "print_item (ImplItem k name ms) =
     visit_node [with_id (''ImplItem, struct name =  '' @ name) k] [say ''Methods : '', run (map print_item ms)]"
| "print_item (ConstItem k name t v) =
     visit_node [with_id (''ConstItem, const name =  '' @ name) k]
       [say ''Const Type : '', print_type t, say ''Value : '', print_expr v]"

subsection \<open>Outlines\<close>

text \<open>
  Lines with their depth below the current one. Each line is at most one step deeper than the line
  before it, so that the depth of a line says under which line it belongs.
\<close>

definition starts :: "string \<Rightarrow> bool" where
  "starts s \<longleftrightarrow> s \<noteq> [] \<and> hd s \<noteq> tab_char"

definition outlined :: "(nat \<times> string) list \<Rightarrow> bool" where
  "outlined ls \<longleftrightarrow> (ls = [] \<or> fst (hd ls) = 0) \<and> successively (\<lambda>a b. fst b \<le> fst a + 1) ls
     \<and> list_all (\<lambda>l. starts (snd l)) ls"

definition emit :: "(nat \<times> string) list \<Rightarrow> print_step" where
  "emit ls p = p\<lparr>cout := cout p @ map (\<lambda>(n, s). replicate (depth p + n) tab_char @ s) ls\<rparr>"

definition writes :: "print_step \<Rightarrow> bool" where
  "writes f \<longleftrightarrow> (\<exists>ls. outlined ls \<and> f = emit ls)"

text \<open>A node writes one line at least.\<close>

definition outlines :: "print_step \<Rightarrow> bool" where
  "outlines f \<longleftrightarrow> (\<exists>ls. outlined ls \<and> ls \<noteq> [] \<and> f = emit ls)"

lemma outlines_writes: "outlines f \<Longrightarrow> writes f"
  by (auto simp: outlines_def writes_def)

named_theorems writes_intros \<open>steps that write an outline\<close>

lemma emit_append: "emit ms (emit ls p) = emit (ls @ ms) p"
  by (simp add: emit_def)

lemma outlined_append: "outlined ls \<Longrightarrow> outlined ms \<Longrightarrow> outlined (ls @ ms)"
  by (auto simp: outlined_def successively_append_iff hd_append)

lemma starts_simps [simp]: "starts (c # s) \<longleftrightarrow> c \<noteq> tab_char" "starts s \<Longrightarrow> starts (s @ t)"
    "starts s \<Longrightarrow> starts (with_id s k)" "starts (reference_line r)"
  by (auto simp: starts_def with_id_def reference_line_def tab_char_def)

lemma writes_say [writes_intros]: "starts s \<Longrightarrow> writes (say s)"
  unfolding writes_def by (rule exI [of _ "[(0, s)]"]) (auto simp: outlined_def emit_def say_def tab_def fun_eq_iff)

lemma writes_run: "(\<And>f. f \<in> set fs \<Longrightarrow> writes f) \<Longrightarrow> writes (run fs)"
proof (induction fs)
  case Nil
  show ?case unfolding writes_def by (rule exI [of _ "[]"]) (auto simp: outlined_def emit_def fun_eq_iff)
next
  case (Cons f fs)
  then have "writes f" "writes (run fs)" by simp_all
  then obtain ls ms where "outlined ls" "f = emit ls" "outlined ms" "run fs = emit ms" unfolding writes_def by blast
  then show ?case unfolding writes_def
    by (intro exI [of _ "ls @ ms"]) (simp add: outlined_append emit_append fun_eq_iff)
qed

lemma run_append: "run (fs @ gs) p = run gs (run fs p)"
  by (induction fs arbitrary: p) auto

lemma outlined_nested: "outlined ls \<Longrightarrow> outlined ms \<Longrightarrow> ls \<noteq> [] \<Longrightarrow> outlined (ls @ map (map_prod Suc id) ms)"
  by (cases "ms = []") (auto simp: outlined_def successively_append_iff successively_map hd_append hd_map list_all_iff)

lemma outlined_headers: "(\<And>s. s \<in> set hs \<Longrightarrow> starts s) \<Longrightarrow> outlined (map (Pair 0) hs)"
proof (induction hs)
  case (Cons h hs)
  then show ?case by (cases hs) (auto simp: outlined_def)
qed (simp add: outlined_def)

lemma outlines_node:
  assumes headers: "headers \<noteq> []" "\<And>s. s \<in> set headers \<Longrightarrow> starts s"
    and parts: "\<And>f. f \<in> set parts \<Longrightarrow> writes f"
  shows "outlines (visit_node headers parts)"
proof -
  obtain ms where ms: "outlined ms" "run parts = emit ms" using writes_run [of parts] parts by (auto simp: writes_def)
  let ?hs = "map (Pair 0) headers"
  have hs: "outlined ?hs" using headers(2) by (rule outlined_headers)
  have "run (map say hs) p = emit (map (Pair 0) hs) p" for hs p
    by (induction hs arbitrary: p) (simp_all add: emit_def say_def tab_def)
  then have "visit_node headers parts = emit (?hs @ map (map_prod Suc id) ms)"
    by (auto simp: visit_node_def run_append ms(2) fun_eq_iff emit_def deeper_def shallower_def split: prod.splits)
  moreover have "outlined (?hs @ map (map_prod Suc id) ms)" using outlined_nested hs ms(1) headers(1) by simp
  ultimately show ?thesis using headers(1) unfolding outlines_def by blast
qed

lemma writes_opt [writes_intros]:
  "starts s \<Longrightarrow> (\<And>f. x = Some f \<Longrightarrow> writes f) \<Longrightarrow> writes (print_opt s x)"
  unfolding print_opt_def by (cases x; simp only: option.case; rule writes_run) (auto intro: writes_say)

lemma writes_field [writes_intros]:
  "starts before \<Longrightarrow> writes (snd f) \<Longrightarrow> writes (print_field before after f)"
  unfolding print_field_def by (rule writes_run) (auto intro: writes_say)

lemma unit_mark_starts: "s \<in> set (unit_mark m) \<Longrightarrow> starts s"
  by (auto simp: unit_mark_def tab_char_def split: if_splits)

lemma writes_pattern [writes_intros]: "writes (print_pattern p)"
  by (cases p) (auto intro!: outlines_writes outlines_node simp: tab_char_def)

lemma writes_param [writes_intros]: "writes (snd p) \<Longrightarrow> writes (print_param p)"
  unfolding print_param_def by (rule writes_run) (auto intro: writes_intros simp: tab_char_def)

lemma visitor_outlines:
  shows "outlines (print_type t)"
  and "outlines (print_expr e)"
  and "outlines (print_stmt s)"
  and "outlines (print_item i)"
  by (induction t and e and s and i rule: type_node.induct expr.induct stmt.induct item.induct)
    (auto intro!: writes_intros writes_run outlines_node dest!: unit_mark_starts simp: tab_char_def, auto intro!: outlines_writes)

text \<open>The indentation of a line of text.\<close>

definition indent :: "string \<Rightarrow> nat" where
  "indent l = length (takeWhile ((=) tab_char) l)"

definition outline :: "string list \<Rightarrow> bool" where
  "outline ls \<longleftrightarrow> indent (hd ls) = 0 \<and> successively (\<lambda>a b. indent b \<le> indent a + 1) ls"

lemma indent_line: "starts s \<Longrightarrow> indent (replicate n tab_char @ s) = n"
  by (cases s) (simp_all add: starts_def indent_def takeWhile_append)

lemma outline_lines:
  assumes ls: "outlined ls" "ls \<noteq> []"
  shows "outline (cout (emit ls new_printer))"
proof -
  have starts: "\<forall>l \<in> set ls. starts (snd l)" using ls by (simp add: outlined_def list_all_iff)
  have "successively (\<lambda>a b. fst b \<le> fst a + 1) ls" using ls by (simp add: outlined_def)
  then have "successively (\<lambda>a b. indent (replicate (fst b) tab_char @ snd b) \<le> indent (replicate (fst a) tab_char @ snd a) + 1) ls"
    using starts by (auto simp: indent_line intro: successively_mono)
  moreover have "indent (hd (map (\<lambda>(n, s). replicate n tab_char @ s) ls)) = 0"
    using ls starts indent_line [of _ 0] by (cases ls) (auto simp: outlined_def split: prod.split)
  ultimately show ?thesis
    by (simp add: outline_def emit_def new_printer_def successively_map split_def)
qed

lemma outlines_outline:
  assumes "outlines f"
  shows "depth (f p) = depth p \<and> cout (f p) = cout p @ map (\<lambda>l. tab p @ l) (cout (f new_printer))
    \<and> outline (cout (f new_printer))"
proof -
  obtain ls where "outlined ls" "ls \<noteq> []" "f = emit ls" using assms by (auto simp: outlines_def)
  then show ?thesis using outline_lines [of ls]
    by (auto simp: emit_def new_printer_def tab_def replicate_add)
qed

section \<open>Properties\<close>


end
