(* ===== verification/Token.thy ===== *)
theory Token
  imports Prelude
begin

section \<open>Tokens\<close>

text \<open>
  The data model of \<open>include/lexer/lexer.h\<close>: the enumeration \<open>Token_type\<close>, the struct
  \<open>Token\<close>, the two tables that the constructor of \<open>Lexer\<close> fills and the rendering
  \<open>token_type_to_string\<close> used in error messages. \<open>Token_type\<close> is made an instance of
  \<open>enum\<close>, so that a statement about all token types can be evaluated.
\<close>

datatype (plugins only: code size) Token_type =
    TK_LEFT_PARENTHESIS
  | TK_RIGHT_PARENTHESIS
  | TK_LEFT_BRACE
  | TK_RIGHT_BRACE
  | TK_LEFT_BRACKET
  | TK_RIGHT_BRACKET
  | TK_SEMICOLON
  | TK_COMMA
  | TK_PLUS
  | TK_MINUS
  | TK_STAR
  | TK_SLASH
  | TK_PERCENT
  | TK_AMPERSAND
  | TK_PIPE
  | TK_CARET
  | TK_EQUAL_EQUAL
  | TK_PLUS_EQUAL
  | TK_MINUS_EQUAL
  | TK_STAR_EQUAL
  | TK_SLASH_EQUAL
  | TK_PERCENT_EQUAL
  | TK_AMPERSAND_EQUAL
  | TK_PIPE_EQUAL
  | TK_CARET_EQUAL
  | TK_LEFT_SHIFT
  | TK_RIGHT_SHIFT
  | TK_LEFT_SHIFT_EQUAL
  | TK_RIGHT_SHIFT_EQUAL
  | TK_DOT
  | TK_ARROW
  | TK_COLON
  | TK_COLON_COLON
  | TK_BANG
  | TK_EQUAL
  | TK_NOT_EQUAL
  | TK_LESS
  | TK_GREATER
  | TK_LESS_EQUAL
  | TK_GREATER_EQUAL
  | TK_AMPERSAND_AMPERSAND
  | TK_PIPE_PIPE
  | TK_IDENTIFIER
  | TK_NUMBER
  | TK_STRING
  | TK_CHAR
  | TK_TRUE
  | TK_FALSE
  | TK_LET
  | TK_MUT
  | TK_FN
  | TK_IF
  | TK_ELSE
  | TK_WHILE
  | TK_FOR
  | TK_IN
  | TK_RETURN
  | TK_BREAK
  | TK_CONTINUE
  | TK_STRUCT
  | TK_AS
  | TK_CONST
  | TK_ENUM
  | TK_IMPL
  | TK_LOOP
  | TK_REF
  | TK_USE
  | TK_SELF
  | TK_BIG_SELF

record token =
  tk_type :: Token_type
  tk_value :: string

definition mk_token :: "Token_type \<Rightarrow> string \<Rightarrow> token" where
  "mk_token ty v = \<lparr>tk_type = ty, tk_value = v\<rparr>"

lemma mk_token_simps [simp]: "tk_type (mk_token ty v) = ty" "tk_value (mk_token ty v) = v"
  by (simp_all add: mk_token_def)

lemma mk_token_eq [simp]: "mk_token ty v = mk_token ty' v' \<longleftrightarrow> ty = ty' \<and> v = v'"
  by (simp add: mk_token_def)

lemma mk_token_surj [simp]: "mk_token (tk_type t) (tk_value t) = t"
  by (simp add: mk_token_def)

subsection \<open>The tables of the lexer\<close>

definition keywords_table :: "(string \<times> Token_type) list" where
  "keywords_table =
    [(''let'', TK_LET),
     (''mut'', TK_MUT),
     (''fn'', TK_FN),
     (''if'', TK_IF),
     (''else'', TK_ELSE),
     (''while'', TK_WHILE),
     (''for'', TK_FOR),
     (''in'', TK_IN),
     (''return'', TK_RETURN),
     (''break'', TK_BREAK),
     (''continue'', TK_CONTINUE),
     (''struct'', TK_STRUCT),
     (''as'', TK_AS),
     (''const'', TK_CONST),
     (''enum'', TK_ENUM),
     (''impl'', TK_IMPL),
     (''loop'', TK_LOOP),
     (''ref'', TK_REF),
     (''use'', TK_USE),
     (''self'', TK_SELF),
     (''Self'', TK_BIG_SELF),
     (''true'', TK_TRUE),
     (''false'', TK_FALSE)]"

definition symbol_table :: "(string \<times> Token_type) list" where
  "symbol_table =
    [(''('', TK_LEFT_PARENTHESIS),
     ('')'', TK_RIGHT_PARENTHESIS),
     (''{'', TK_LEFT_BRACE),
     (''}'', TK_RIGHT_BRACE),
     (''['', TK_LEFT_BRACKET),
     ('']'', TK_RIGHT_BRACKET),
     ('';'', TK_SEMICOLON),
     ('','', TK_COMMA),
     (''+'', TK_PLUS),
     (''-'', TK_MINUS),
     (''*'', TK_STAR),
     (''/'', TK_SLASH),
     (''%'', TK_PERCENT),
     (''&'', TK_AMPERSAND),
     (''|'', TK_PIPE),
     (''^'', TK_CARET),
     (''=='', TK_EQUAL_EQUAL),
     (''+='', TK_PLUS_EQUAL),
     (''-='', TK_MINUS_EQUAL),
     (''*='', TK_STAR_EQUAL),
     (''/='', TK_SLASH_EQUAL),
     (''%='', TK_PERCENT_EQUAL),
     (''&='', TK_AMPERSAND_EQUAL),
     (''|='', TK_PIPE_EQUAL),
     (''^='', TK_CARET_EQUAL),
     (''<<'', TK_LEFT_SHIFT),
     (''>>'', TK_RIGHT_SHIFT),
     (''<<='', TK_LEFT_SHIFT_EQUAL),
     (''>>='', TK_RIGHT_SHIFT_EQUAL),
     (''.'', TK_DOT),
     (''->'', TK_ARROW),
     ('':'', TK_COLON),
     (''::'', TK_COLON_COLON),
     (''!'', TK_BANG),
     (''='', TK_EQUAL),
     (''!='', TK_NOT_EQUAL),
     (''<'', TK_LESS),
     (''>'', TK_GREATER),
     (''<='', TK_LESS_EQUAL),
     (''>='', TK_GREATER_EQUAL),
     (''&&'', TK_AMPERSAND_AMPERSAND),
     (''||'', TK_PIPE_PIPE)]"

definition keywords_map :: "string \<rightharpoonup> Token_type" where
  "keywords_map = map_of keywords_table"

definition symbol_map :: "string \<rightharpoonup> Token_type" where
  "symbol_map = map_of symbol_table"

subsection \<open>Rendering\<close>

text \<open>\<open>EQUAL_EQUAL\<close> has no case of its own in the switch, so it falls to the default.\<close>

primrec token_type_to_string :: "Token_type \<Rightarrow> string" where
  "token_type_to_string TK_LEFT_PARENTHESIS = ''LEFT_PARENTHESIS''"
| "token_type_to_string TK_RIGHT_PARENTHESIS = ''RIGHT_PARENTHESIS''"
| "token_type_to_string TK_LEFT_BRACE = ''LEFT_BRACE''"
| "token_type_to_string TK_RIGHT_BRACE = ''RIGHT_BRACE''"
| "token_type_to_string TK_LEFT_BRACKET = ''LEFT_BRACKET''"
| "token_type_to_string TK_RIGHT_BRACKET = ''RIGHT_BRACKET''"
| "token_type_to_string TK_SEMICOLON = ''SEMICOLON''"
| "token_type_to_string TK_COMMA = ''COMMA''"
| "token_type_to_string TK_PLUS = ''PLUS''"
| "token_type_to_string TK_MINUS = ''MINUS''"
| "token_type_to_string TK_STAR = ''STAR''"
| "token_type_to_string TK_SLASH = ''SLASH''"
| "token_type_to_string TK_PERCENT = ''PERCENT''"
| "token_type_to_string TK_AMPERSAND = ''AMPERSAND''"
| "token_type_to_string TK_PIPE = ''PIPE''"
| "token_type_to_string TK_CARET = ''CARET''"
| "token_type_to_string TK_PLUS_EQUAL = ''PLUS_EQUAL''"
| "token_type_to_string TK_MINUS_EQUAL = ''MINUS_EQUAL''"
| "token_type_to_string TK_STAR_EQUAL = ''STAR_EQUAL''"
| "token_type_to_string TK_SLASH_EQUAL = ''SLASH_EQUAL''"
| "token_type_to_string TK_PERCENT_EQUAL = ''PERCENT_EQUAL''"
| "token_type_to_string TK_AMPERSAND_EQUAL = ''AMPERSAND_EQUAL''"
| "token_type_to_string TK_PIPE_EQUAL = ''PIPE_EQUAL''"
| "token_type_to_string TK_CARET_EQUAL = ''CARET_EQUAL''"
| "token_type_to_string TK_LEFT_SHIFT = ''LEFT_SHIFT''"
| "token_type_to_string TK_RIGHT_SHIFT = ''RIGHT_SHIFT''"
| "token_type_to_string TK_LEFT_SHIFT_EQUAL = ''LEFT_SHIFT_EQUAL''"
| "token_type_to_string TK_RIGHT_SHIFT_EQUAL = ''RIGHT_SHIFT_EQUAL''"
| "token_type_to_string TK_DOT = ''DOT''"
| "token_type_to_string TK_ARROW = ''ARROW''"
| "token_type_to_string TK_COLON = ''COLON''"
| "token_type_to_string TK_COLON_COLON = ''COLON_COLON''"
| "token_type_to_string TK_BANG = ''BANG''"
| "token_type_to_string TK_EQUAL = ''EQUAL''"
| "token_type_to_string TK_NOT_EQUAL = ''NOT_EQUAL''"
| "token_type_to_string TK_LESS = ''LESS''"
| "token_type_to_string TK_GREATER = ''GREATER''"
| "token_type_to_string TK_LESS_EQUAL = ''LESS_EQUAL''"
| "token_type_to_string TK_GREATER_EQUAL = ''GREATER_EQUAL''"
| "token_type_to_string TK_AMPERSAND_AMPERSAND = ''AMPERSAND_AMPERSAND''"
| "token_type_to_string TK_PIPE_PIPE = ''PIPE_PIPE''"
| "token_type_to_string TK_IDENTIFIER = ''IDENTIFIER''"
| "token_type_to_string TK_NUMBER = ''NUMBER''"
| "token_type_to_string TK_STRING = ''STRING''"
| "token_type_to_string TK_CHAR = ''CHAR''"
| "token_type_to_string TK_TRUE = ''TRUE''"
| "token_type_to_string TK_FALSE = ''FALSE''"
| "token_type_to_string TK_LET = ''LET''"
| "token_type_to_string TK_MUT = ''MUT''"
| "token_type_to_string TK_FN = ''FN''"
| "token_type_to_string TK_IF = ''IF''"
| "token_type_to_string TK_ELSE = ''ELSE''"
| "token_type_to_string TK_WHILE = ''WHILE''"
| "token_type_to_string TK_FOR = ''FOR''"
| "token_type_to_string TK_IN = ''IN''"
| "token_type_to_string TK_RETURN = ''RETURN''"
| "token_type_to_string TK_BREAK = ''BREAK''"
| "token_type_to_string TK_CONTINUE = ''CONTINUE''"
| "token_type_to_string TK_STRUCT = ''STRUCT''"
| "token_type_to_string TK_AS = ''AS''"
| "token_type_to_string TK_CONST = ''CONST''"
| "token_type_to_string TK_ENUM = ''ENUM''"
| "token_type_to_string TK_IMPL = ''IMPL''"
| "token_type_to_string TK_LOOP = ''LOOP''"
| "token_type_to_string TK_REF = ''REF''"
| "token_type_to_string TK_USE = ''USE''"
| "token_type_to_string TK_SELF = ''SELF''"
| "token_type_to_string TK_BIG_SELF = ''BIG_SELF''"
| "token_type_to_string TK_EQUAL_EQUAL = ''UNKNOWN''"

definition show_token :: "token \<Rightarrow> string" where
  "show_token t = ''['' @ token_type_to_string (tk_type t) @ '', '' @ tk_value t @ '']''"

subsection \<open>The enumeration\<close>

definition all_token_types :: "Token_type list" where
  "all_token_types =
    [TK_LEFT_PARENTHESIS, TK_RIGHT_PARENTHESIS, TK_LEFT_BRACE, TK_RIGHT_BRACE,
     TK_LEFT_BRACKET, TK_RIGHT_BRACKET, TK_SEMICOLON, TK_COMMA,
     TK_PLUS, TK_MINUS, TK_STAR, TK_SLASH,
     TK_PERCENT, TK_AMPERSAND, TK_PIPE, TK_CARET,
     TK_EQUAL_EQUAL, TK_PLUS_EQUAL, TK_MINUS_EQUAL, TK_STAR_EQUAL,
     TK_SLASH_EQUAL, TK_PERCENT_EQUAL, TK_AMPERSAND_EQUAL, TK_PIPE_EQUAL,
     TK_CARET_EQUAL, TK_LEFT_SHIFT, TK_RIGHT_SHIFT, TK_LEFT_SHIFT_EQUAL,
     TK_RIGHT_SHIFT_EQUAL, TK_DOT, TK_ARROW, TK_COLON,
     TK_COLON_COLON, TK_BANG, TK_EQUAL, TK_NOT_EQUAL,
     TK_LESS, TK_GREATER, TK_LESS_EQUAL, TK_GREATER_EQUAL,
     TK_AMPERSAND_AMPERSAND, TK_PIPE_PIPE, TK_IDENTIFIER, TK_NUMBER,
     TK_STRING, TK_CHAR, TK_TRUE, TK_FALSE,
     TK_LET, TK_MUT, TK_FN, TK_IF,
     TK_ELSE, TK_WHILE, TK_FOR, TK_IN,
     TK_RETURN, TK_BREAK, TK_CONTINUE, TK_STRUCT,
     TK_AS, TK_CONST, TK_ENUM, TK_IMPL,
     TK_LOOP, TK_REF, TK_USE, TK_SELF,
     TK_BIG_SELF]"

instantiation Token_type :: enum
begin

definition enum_Token_type :: "Token_type list" where
  "enum_Token_type = all_token_types"

definition enum_all_Token_type :: "(Token_type \<Rightarrow> bool) \<Rightarrow> bool" where
  "enum_all_Token_type P = list_all P all_token_types"

definition enum_ex_Token_type :: "(Token_type \<Rightarrow> bool) \<Rightarrow> bool" where
  "enum_ex_Token_type P = list_ex P all_token_types"

instance
proof
  have all: "t \<in> set all_token_types" for t :: Token_type
    by (cases t) (simp_all add: all_token_types_def)
  show "(UNIV :: Token_type set) = set enum_class.enum"
    unfolding enum_Token_type_def using all by blast
  show "distinct (enum_class.enum :: Token_type list)"
    by (simp add: enum_Token_type_def all_token_types_def)
  show "enum_class.enum_all P \<longleftrightarrow> Ball (UNIV :: Token_type set) P" for P
    unfolding enum_all_Token_type_def list_all_iff using all by blast
  show "enum_class.enum_ex P \<longleftrightarrow> Bex (UNIV :: Token_type set) P" for P
    unfolding enum_ex_Token_type_def list_ex_iff using all by blast
qed

end

end
