(* ===== verification/Lexer.thy ===== *)
theory Lexer
  imports Token
begin

section \<open>The lexer\<close>

text \<open>
  \<open>src/lexer/lexer.cpp\<close>. \<open>Lexer::read_and_get_tokens\<close> joins the lines of standard
  input, appends three blanks and runs a hand-written state machine over the characters.
  \<open>lex_state\<close> holds its local flags and the token vector; \<open>lex_step\<close> is the body of the
  loop for the character at the current index, given the rest of the code from there on,
  and returns the new state with the extra amount by which the body advances the index.
  The token cursor (\<open>peek_token\<close>, \<open>consume_token\<close>, \<open>has_more_tokens\<close>,
  \<open>consume_expect_token\<close>) is the interface of the parser; its laws are the locale
  \<open>token_stream\<close>.
\<close>

record lex_state =
  in_block_comment :: bool
  in_line_comment :: bool
  in_common_string :: bool
  in_raw_string :: bool
  raw_string_level :: nat
  in_char :: bool
  in_number :: bool
  in_identifier :: bool
  now_str :: string
  out_tokens :: "token list"

definition init_lex :: lex_state where
  "init_lex = \<lparr>in_block_comment = False, in_line_comment = False, in_common_string = False,
     in_raw_string = False, raw_string_level = 0, in_char = False, in_number = False,
     in_identifier = False, now_str = [], out_tokens = []\<rparr>"

definition push_token :: "Token_type \<Rightarrow> string \<Rightarrow> lex_state \<Rightarrow> lex_state" where
  "push_token ty v st = st\<lparr>out_tokens := out_tokens st @ [mk_token ty v]\<rparr>"

subsection \<open>Characters\<close>

definition backslash :: char where "backslash = CHR 0x5C"
definition newline :: char where "newline = CHR 0x0A"
definition quote :: char where "quote = CHR 0x27"
definition dquote :: char where "dquote = CHR 0x22"

text \<open>The escape \<open>0\<close> is written \<open>"\0"\<close> in the source: an empty C string.\<close>

definition get_escape_character :: "char \<Rightarrow> string res" where
  "get_escape_character ch =
     (if ch = CHR ''n'' then Inr [newline]
      else if ch = CHR ''t'' then Inr [CHR 0x09]
      else if ch = CHR ''0'' then Inr []
      else if ch = backslash then Inr [backslash]
      else if ch = quote then Inr [quote]
      else if ch = dquote then Inr [dquote]
      else Inl (Thrown ''CE, no such escape character''))"

definition is_digit :: "char \<Rightarrow> bool" where
  "is_digit ch \<longleftrightarrow> of_char ch \<le> (57::nat) \<and> of_char ch \<ge> (48::nat)"

definition is_not_symbol :: "char \<Rightarrow> bool" where
  "is_not_symbol ch \<longleftrightarrow>
     is_digit ch
     \<or> of_char ch \<le> (122::nat) \<and> of_char ch \<ge> (97::nat)
     \<or> of_char ch \<le> (90::nat) \<and> of_char ch \<ge> (65::nat)
     \<or> ch = CHR ''_''"

definition is_blank :: "char \<Rightarrow> bool" where
  "is_blank ch \<longleftrightarrow> ch = CHR '' '' \<or> ch = CHR 0x09 \<or> ch = CHR 0x0D \<or> ch = newline"

subsection \<open>Words\<close>

definition word_token :: "string \<Rightarrow> token" where
  "word_token s = (case keywords_map s of
      Some ty \<Rightarrow> mk_token ty s
    | None \<Rightarrow> mk_token TK_IDENTIFIER s)"

definition add_identifier :: "lex_state \<Rightarrow> lex_state" where
  "add_identifier st =
     st\<lparr>out_tokens := out_tokens st @ [word_token (now_str st)], now_str := []\<rparr>"

text \<open>\<open>is_valid\<close> is a constant \<open>true\<close> in the source, so no number is ever rejected here.\<close>

definition add_number :: "lex_state \<Rightarrow> lex_state" where
  "add_number st =
     st\<lparr>out_tokens := out_tokens st @ [mk_token TK_NUMBER (now_str st)], now_str := []\<rparr>"

text \<open>The two statements by which the loop ends a number or an identifier.\<close>

definition flush_word :: "lex_state \<Rightarrow> lex_state" where
  "flush_word st =
     (let st1 = (if in_number st then (add_number st)\<lparr>in_number := False\<rparr> else st)
      in if in_identifier st1 then (add_identifier st1)\<lparr>in_identifier := False\<rparr> else st1)"

subsection \<open>One round of the loop\<close>

text \<open>
  Each branch of the loop body, in the order of the source. \<open>now\<close>, \<open>next\<close> and
  \<open>next2\<close> are \<open>all_code[i]\<close>, \<open>all_code[i + 1]\<close>, \<open>all_code[i + 2]\<close> and \<open>rest\<close> is
  what follows them; the number in the result is what the branch adds to \<open>i\<close> besides the
  increment of the loop.
\<close>

definition step_block_comment :: "lex_state \<Rightarrow> char \<Rightarrow> char \<Rightarrow> lex_state \<times> nat" where
  "step_block_comment st now next =
     (if now = CHR ''*'' \<and> next = CHR ''/'' then (st\<lparr>in_block_comment := False\<rparr>, 1) else (st, 0))"

definition step_line_comment :: "lex_state \<Rightarrow> char \<Rightarrow> lex_state \<times> nat" where
  "step_line_comment st now =
     (if now = newline then (st\<lparr>in_line_comment := False\<rparr>, 0) else (st, 0))"

definition step_char :: "lex_state \<Rightarrow> char \<Rightarrow> char \<Rightarrow> char \<Rightarrow> (lex_state \<times> nat) res" where
  "step_char st now next next2 =
     (if now = quote then Inl (Thrown (''CE, find '' @ [quote, quote] @ '' ''))
      else if now = backslash then
        (if next2 \<noteq> quote then Inl (Thrown (''CE, find no '' @ [quote]))
         else bindr (get_escape_character next) (\<lambda>v.
           Inr ((push_token TK_CHAR v st)\<lparr>in_char := False\<rparr>, 2)))
      else if next \<noteq> quote then Inl (Thrown (''CE, find no '' @ [quote]))
      else Inr ((push_token TK_CHAR [now] st)\<lparr>in_char := False\<rparr>, 1))"

definition step_common_string :: "lex_state \<Rightarrow> char \<Rightarrow> char \<Rightarrow> (lex_state \<times> nat) res" where
  "step_common_string st now next =
     (if now = dquote then
        Inr ((push_token TK_STRING (now_str st) st)\<lparr>in_common_string := False, now_str := []\<rparr>, 0)
      else if now = backslash then
        bindr (get_escape_character next) (\<lambda>v. Inr (st\<lparr>now_str := now_str st @ v\<rparr>, 1))
      else Inr (st\<lparr>now_str := now_str st @ [now]\<rparr>, 0))"

definition step_raw_string :: "lex_state \<Rightarrow> char \<Rightarrow> string \<Rightarrow> lex_state \<times> nat" where
  "step_raw_string st now following =
     (if now = dquote
         \<and> take (raw_string_level st) following = replicate (raw_string_level st) (CHR ''#'')
      then ((push_token TK_STRING (now_str st) st)\<lparr>in_raw_string := False, now_str := []\<rparr>,
            raw_string_level st)
      else (st\<lparr>now_str := now_str st @ [now]\<rparr>, 0))"

definition start_raw_string :: "lex_state \<Rightarrow> char \<Rightarrow> string \<Rightarrow> (lex_state \<times> nat) res" where
  "start_raw_string st next following =
     (let st1 = st\<lparr>in_raw_string := True\<rparr>
      in if next = CHR ''#'' then
           (let n = length (takeWhile (\<lambda>c. c = CHR ''#'') following)
            in if drop n following \<noteq> [] \<and> hd (drop n following) = dquote
               then Inr (flush_word (st1\<lparr>raw_string_level := Suc n\<rparr>), n + 2)
               else Inl (Thrown ''CE, no starting of raw string''))
         else Inr (flush_word (st1\<lparr>raw_string_level := 0\<rparr>), 1))"

definition step_word :: "lex_state \<Rightarrow> char \<Rightarrow> lex_state" where
  "step_word st now =
     (if in_number st \<or> in_identifier st then st\<lparr>now_str := now_str st @ [now]\<rparr>
      else if is_digit now then st\<lparr>now_str := [now], in_number := True\<rparr>
      else st\<lparr>now_str := [now], in_identifier := True\<rparr>)"

definition step_symbol :: "lex_state \<Rightarrow> char \<Rightarrow> char \<Rightarrow> char \<Rightarrow> (lex_state \<times> nat) res" where
  "step_symbol st now next next2 =
     (case symbol_map [now, next, next2] of
        Some ty \<Rightarrow> Inr (push_token ty [now, next, next2] st, 2)
      | None \<Rightarrow>
          (case symbol_map [now, next] of
             Some ty \<Rightarrow> Inr (push_token ty [now, next] st, 1)
           | None \<Rightarrow>
               (case symbol_map [now] of
                  Some ty \<Rightarrow> Inr (push_token ty [now] st, 0)
                | None \<Rightarrow>
                    (if now = dquote then Inr (st\<lparr>in_common_string := True\<rparr>, 0)
                     else if now = quote then Inr (st\<lparr>in_char := True\<rparr>, 0)
                     else Inl (Thrown ''CE, no such symbol'')))))"

definition lex_step ::
  "lex_state \<Rightarrow> char \<Rightarrow> char \<Rightarrow> char \<Rightarrow> string \<Rightarrow> (lex_state \<times> nat) res" where
  "lex_step st now next next2 rest =
     (if in_block_comment st then Inr (step_block_comment st now next)
      else if in_line_comment st then Inr (step_line_comment st now)
      else if in_char st then step_char st now next next2
      else if in_common_string st then step_common_string st now next
      else if in_raw_string st then Inr (step_raw_string st now (next # next2 # rest))
      else if now = CHR ''/'' \<and> next = CHR ''*'' then Inr (st\<lparr>in_block_comment := True\<rparr>, 1)
      else if now = CHR ''/'' \<and> next = CHR ''/'' then Inr (st\<lparr>in_line_comment := True\<rparr>, 1)
      else if is_not_symbol now then
        (if now = CHR ''r'' \<and> (next = dquote \<or> next = CHR ''#'')
         then start_raw_string st next (next2 # rest)
         else Inr (step_word st now, 0))
      else
        (let st1 = flush_word st
         in if is_blank now then Inr (st1, 0) else step_symbol st1 now next next2))"

text \<open>\<open>for (size_t i = 0; i + 2 < code_len; i++)\<close>\<close>

fun lex_loop :: "lex_state \<Rightarrow> string \<Rightarrow> lex_state res" where
  "lex_loop st (now # next # next2 # rest) =
     bindr (lex_step st now next next2 rest) (\<lambda>(st', k).
       lex_loop st' (drop k (next # next2 # rest)))"
| "lex_loop st _ = Inr st"

definition lex_finish :: "lex_state \<Rightarrow> token list res" where
  "lex_finish st =
     (if in_char st \<or> in_common_string st \<or> in_raw_string st
      then Inl (Thrown ''CE, find no end char or string'')
      else
        let st1 = (if in_number st then add_number st
                   else if in_identifier st then add_identifier st else st)
        in if in_block_comment st1 then Inl (Thrown ''CE, find no end of block comment'')
           else Inr (out_tokens st1))"

text \<open>
  \<open>while (getline(std::cin, line)) all_code += line + "\n"\<close>: the text is read back with a
  newline after the last line, whether or not the input ends with one.
\<close>

definition read_all_code :: "string \<Rightarrow> string" where
  "read_all_code input =
     (if input = [] \<or> last input = newline then input else input @ [newline])"

definition read_and_get_tokens :: "string \<Rightarrow> token list res" where
  "read_and_get_tokens input = bindr (lex_loop init_lex (read_all_code input @ ''   '')) lex_finish"

subsection \<open>The token cursor\<close>

record lexer =
  tokens :: "token list"
  current_token_index :: nat

definition mk_lexer :: "token list \<Rightarrow> lexer" where
  "mk_lexer ts = \<lparr>tokens = ts, current_token_index = 0\<rparr>"

definition peek_token :: "lexer \<Rightarrow> token res" where
  "peek_token lx =
     (if current_token_index lx < length (tokens lx)
      then Inr (tokens lx ! current_token_index lx)
      else Inl (Thrown ''CE, no more token to peek''))"

definition consume_token :: "lexer \<Rightarrow> (token \<times> lexer) res" where
  "consume_token lx =
     bindr (peek_token lx) (\<lambda>t. Inr (t, lx\<lparr>current_token_index := current_token_index lx + 1\<rparr>))"

definition has_more_tokens :: "lexer \<Rightarrow> bool" where
  "has_more_tokens lx \<longleftrightarrow> current_token_index lx < length (tokens lx)"

definition consume_expect_token :: "Token_type \<Rightarrow> lexer \<Rightarrow> (token \<times> lexer) res" where
  "consume_expect_token ty lx =
     bindr (consume_token lx) (\<lambda>(t, lx').
       if tk_type t \<noteq> ty
       then Inl (Thrown (''CE, expected '' @ token_type_to_string ty @ '' but got '' @ tk_value t))
       else Inr (t, lx'))"

end
