(* ===== verification/LexerProps.thy ===== *)
theory LexerProps
  imports Lexer
begin

section \<open>What the lexer guarantees\<close>

text \<open>
  Two groups of facts. First the invariant of the state machine: every token that the loop
  emits is well-formed (\<open>wf_token\<close>), whatever the input. Second the round trip: printing
  well-formed tokens with a blank after each (\<open>unlex\<close>) and scanning the text gives the
  tokens back. Together they say that scanning is a projection. The last part is the
  interface of the token cursor.
\<close>

subsection \<open>Well-formed tokens\<close>

definition word_chars :: "string \<Rightarrow> bool" where
  "word_chars s \<longleftrightarrow> s \<noteq> [] \<and> list_all is_not_symbol s"

definition wf_token :: "token \<Rightarrow> bool" where
  "wf_token t \<longleftrightarrow>
     keywords_map (tk_value t) = Some (tk_type t)
     \<or> symbol_map (tk_value t) = Some (tk_type t)
     \<or> tk_type t = TK_IDENTIFIER \<and> word_chars (tk_value t) \<and> \<not> is_digit (hd (tk_value t))
         \<and> keywords_map (tk_value t) = None
     \<or> tk_type t = TK_NUMBER \<and> word_chars (tk_value t) \<and> is_digit (hd (tk_value t))
     \<or> tk_type t = TK_STRING
     \<or> tk_type t = TK_CHAR \<and> length (tk_value t) \<le> 1"

definition lex_inv :: "lex_state \<Rightarrow> bool" where
  "lex_inv st \<longleftrightarrow>
     list_all wf_token (out_tokens st)
     \<and> (in_number st \<longrightarrow> \<not> in_identifier st \<and> word_chars (now_str st) \<and> is_digit (hd (now_str st)))
     \<and> (in_identifier st \<longrightarrow> word_chars (now_str st) \<and> \<not> is_digit (hd (now_str st)))
     \<and> (in_char st \<or> in_common_string st \<or> in_raw_string st \<longrightarrow>
          \<not> in_number st \<and> \<not> in_identifier st)"

lemma lex_inv_init: "lex_inv init_lex"
  by (simp add: lex_inv_def init_lex_def)

lemma word_token_wf:
  "word_chars s \<Longrightarrow> \<not> is_digit (hd s) \<Longrightarrow> wf_token (word_token s)"
  by (auto simp: word_token_def wf_token_def split: option.splits)

lemma flush_word_inv: "lex_inv st \<Longrightarrow> lex_inv (flush_word st)"
  by (auto simp: lex_inv_def flush_word_def Let_def add_number_def add_identifier_def word_token_wf)
    (auto simp: wf_token_def)

lemma flush_word_flags [simp]:
  "in_number (flush_word st) = False" "in_identifier (flush_word st) = False"
  "in_block_comment (flush_word st) = in_block_comment st"
  "in_line_comment (flush_word st) = in_line_comment st"
  "in_common_string (flush_word st) = in_common_string st"
  "in_raw_string (flush_word st) = in_raw_string st"
  "in_char (flush_word st) = in_char st"
  by (simp_all add: flush_word_def Let_def add_number_def add_identifier_def)

lemma get_escape_character_length:
  "get_escape_character c = Inr v \<Longrightarrow> length v \<le> 1"
  by (auto simp: get_escape_character_def split: if_splits)

lemma step_symbol_inv:
  assumes "lex_inv st" "\<not> in_number st" "\<not> in_identifier st"
    and "step_symbol st c c1 c2 = Inr (st', k)"
  shows "lex_inv st'"
  using assms
  by (auto simp: step_symbol_def lex_inv_def push_token_def wf_token_def
      split: option.splits if_splits)

lemma start_raw_string_inv:
  assumes "lex_inv st" and "start_raw_string st c cs = Inr (st', k)"
  shows "lex_inv st'"
proof -
  have "\<exists>n. st' = flush_word (st\<lparr>in_raw_string := True, raw_string_level := n\<rparr>)"
    using assms(2) by (auto simp: start_raw_string_def Let_def split: if_splits)
  then obtain n where "st' = flush_word (st\<lparr>in_raw_string := True, raw_string_level := n\<rparr>)" ..
  with assms(1) show ?thesis
    by (auto simp: lex_inv_def flush_word_def Let_def add_number_def add_identifier_def word_token_wf)
      (auto simp: wf_token_def)
qed

lemma step_word_inv:
  assumes "lex_inv st" "\<not> in_char st" "\<not> in_common_string st" "\<not> in_raw_string st"
    and "is_not_symbol c"
  shows "lex_inv (step_word st c)"
  using assms by (auto simp: lex_inv_def step_word_def word_chars_def)

lemma step_block_comment_inv: "lex_inv st \<Longrightarrow> lex_inv (fst (step_block_comment st c c1))"
  by (simp add: step_block_comment_def lex_inv_def)

lemma step_line_comment_inv: "lex_inv st \<Longrightarrow> lex_inv (fst (step_line_comment st c))"
  by (simp add: step_line_comment_def lex_inv_def)

lemma step_raw_string_inv:
  "lex_inv st \<Longrightarrow> in_raw_string st \<Longrightarrow> lex_inv (fst (step_raw_string st c cs))"
  by (simp add: step_raw_string_def lex_inv_def push_token_def wf_token_def)

lemma step_char_inv:
  "lex_inv st \<Longrightarrow> in_char st \<Longrightarrow> step_char st c c1 c2 = Inr (st', k) \<Longrightarrow> lex_inv st'"
  by (auto simp: step_char_def lex_inv_def push_token_def wf_token_def res_simps
      dest: get_escape_character_length split: if_split_asm)

lemma step_common_string_inv:
  "lex_inv st \<Longrightarrow> in_common_string st \<Longrightarrow> step_common_string st c c1 = Inr (st', k) \<Longrightarrow> lex_inv st'"
  by (auto simp: step_common_string_def lex_inv_def push_token_def wf_token_def res_simps
      split: if_split_asm)

lemma lex_step_inv:
  assumes inv: "lex_inv st" and step: "lex_step st c c1 c2 cs = Inr (st', k)"
  shows "lex_inv st'"
proof (cases "in_block_comment st \<or> in_line_comment st")
  case True
  with step have "st' = fst (step_block_comment st c c1) \<or> st' = fst (step_line_comment st c)"
    by (auto simp: lex_step_def split: if_split_asm)
  with step_block_comment_inv [OF inv] step_line_comment_inv [OF inv] show ?thesis by metis
next
  case comment: False
  show ?thesis
  proof (cases "in_char st \<or> in_common_string st \<or> in_raw_string st")
    case True
    with step comment inv show ?thesis
      using step_raw_string_inv [OF inv, of c "c1 # c2 # cs"]
      by (auto simp: lex_step_def split: if_split_asm
          dest: step_char_inv step_common_string_inv)
  next
    case code: False
    have more: "lex_inv (st\<lparr>in_block_comment := True\<rparr>)" "lex_inv (st\<lparr>in_line_comment := True\<rparr>)"
      using inv by (simp_all add: lex_inv_def)
    show ?thesis
    proof (cases "is_not_symbol c")
      case True
      with step comment code show ?thesis
        using more step_word_inv [OF inv, of c] start_raw_string_inv [OF inv, of c1 "c2 # cs" st' k]
        by (auto simp: lex_step_def split: if_split_asm)
    next
      case False
      with step comment code show ?thesis
        using more flush_word_inv [OF inv]
          step_symbol_inv [OF flush_word_inv [OF inv], of c c1 c2 st' k]
        by (auto simp: lex_step_def Let_def split: if_split_asm)
    qed
  qed
qed

lemma lex_loop_inv: "lex_loop st cs = Inr st' \<Longrightarrow> lex_inv st \<Longrightarrow> lex_inv st'"
proof (induction st cs rule: lex_loop.induct)
  case (1 st c c1 c2 cs)
  then show ?case by (auto simp: res_simps dest: lex_step_inv)
qed auto

declare lex_loop.simps(1) [simp del]

lemma lex_finish_wf: "lex_finish st = Inr ts \<Longrightarrow> lex_inv st \<Longrightarrow> list_all wf_token ts"
  by (auto simp: lex_finish_def lex_inv_def add_number_def add_identifier_def word_token_wf Let_def
      split: if_splits) (auto simp: wf_token_def)

lemma read_and_get_tokens_wf_aux:
  "read_and_get_tokens input = Inr ts \<Longrightarrow> list_all wf_token ts"
  unfolding read_and_get_tokens_def
  by (auto simp: res_simps intro: lex_finish_wf lex_loop_inv lex_inv_init)


subsection \<open>Printing tokens\<close>

definition escape_char :: "char \<Rightarrow> string" where
  "escape_char c = (if c = dquote \<or> c = backslash then [backslash, c] else [c])"

definition unlex_token :: "token \<Rightarrow> string" where
  "unlex_token t =
     (if tk_type t = TK_STRING then dquote # concat (map escape_char (tk_value t)) @ [dquote]
      else if tk_type t = TK_CHAR then
        (case tk_value t of
           [] \<Rightarrow> [quote, backslash, CHR ''0'', quote]
         | c # _ \<Rightarrow> if c = quote \<or> c = backslash then [quote, backslash, c, quote] else [quote, c, quote])
      else tk_value t)"

definition unlex :: "token list \<Rightarrow> string" where
  "unlex ts = concat (map (\<lambda>t. unlex_token t @ '' '') ts)"

lemma unlex_simps [simp]: "unlex [] = []" "unlex (t # ts) = unlex_token t @ CHR '' '' # unlex ts"
  by (simp_all add: unlex_def)

text \<open>The idle state of the loop: no mode is on, the tokens so far are \<open>ts\<close>.\<close>

definition idle :: "token list \<Rightarrow> lex_state" where
  "idle ts = init_lex\<lparr>out_tokens := ts\<rparr>"

lemma idle_simps [simp]:
  "in_block_comment (idle ts) = False" "in_line_comment (idle ts) = False"
  "in_common_string (idle ts) = False" "in_raw_string (idle ts) = False"
  "in_char (idle ts) = False" "in_number (idle ts) = False" "in_identifier (idle ts) = False"
  "out_tokens (idle ts) = ts" "now_str (idle ts) = []"
  by (simp_all add: idle_def init_lex_def)

lemma flush_word_idle [simp]: "flush_word (idle ts) = idle ts"
  by (simp add: flush_word_def Let_def)

lemma push_token_idle [simp]: "push_token ty v (idle ts) = idle (ts @ [mk_token ty v])"
  by (simp add: push_token_def idle_def)

text \<open>One round of the loop, for a text whose first characters need not be known.\<close>

lemma lex_loop_step:
  "length cs \<ge> 2 \<Longrightarrow>
    lex_loop st (c # cs) =
      bindr (lex_step st c (cs ! 0) (cs ! 1) (drop 2 cs)) (\<lambda>(st', k). lex_loop st' (drop k cs))"
  by (cases cs; cases "tl cs") (auto simp: lex_loop.simps)

lemma char_facts [simp]:
  "\<not> is_not_symbol (CHR '' '')" "\<not> is_not_symbol dquote" "\<not> is_not_symbol quote"
  "\<not> is_not_symbol backslash" "\<not> is_not_symbol (CHR ''#'')" "\<not> is_not_symbol newline"
  "\<not> is_not_symbol (CHR ''/'')"
  "is_blank (CHR '' '')" "is_blank newline" "\<not> is_blank dquote" "\<not> is_blank quote"
  "dquote \<noteq> quote" "quote \<noteq> dquote" "dquote \<noteq> backslash" "backslash \<noteq> dquote"
  "quote \<noteq> backslash" "backslash \<noteq> quote" "dquote \<noteq> CHR '' ''" "quote \<noteq> CHR '' ''"
  "CHR '' '' \<noteq> dquote" "CHR '' '' \<noteq> quote" "newline \<noteq> CHR '' ''" "newline \<noteq> CHR ''/''"
  "newline \<noteq> dquote" "newline \<noteq> CHR ''#''"
  "dquote \<noteq> CHR ''/''" "quote \<noteq> CHR ''/''"
  by (simp_all add: is_not_symbol_def is_digit_def is_blank_def dquote_def quote_def backslash_def
      newline_def)

lemma lex_loop_blank:
  assumes "is_blank c" "\<not> is_not_symbol c" "c \<noteq> CHR ''/''" and "length cs \<ge> 2"
    and "\<not> in_block_comment st" "\<not> in_line_comment st" "\<not> in_char st"
      "\<not> in_common_string st" "\<not> in_raw_string st"
  shows "lex_loop st (c # cs) = lex_loop (flush_word st) cs"
  using assms by (simp add: lex_loop_step lex_step_def Let_def)

subsection \<open>Words\<close>

lemma lex_loop_word_tail:
  assumes "list_all is_not_symbol w" and "in_number st \<or> in_identifier st"
    and "\<not> in_block_comment st" "\<not> in_line_comment st" "\<not> in_char st"
      "\<not> in_common_string st" "\<not> in_raw_string st" and "length rest \<ge> 2"
    and "d \<noteq> dquote" "d \<noteq> CHR ''#''"
  shows "lex_loop st (w @ d # rest) = lex_loop (st\<lparr>now_str := now_str st @ w\<rparr>) (d # rest)"
  using assms
proof (induction w arbitrary: st)
  case Nil
  then show ?case by simp
next
  case (Cons c w)
  let ?cs = "w @ d # rest"
  have nx: "?cs ! 0 \<noteq> dquote" "?cs ! 0 \<noteq> CHR ''#''"
    using Cons.prems(1,9,10) by (cases w; auto)+
  have "c \<noteq> CHR ''/''" using Cons.prems(1) by auto
  then have "lex_loop st (c # ?cs) = lex_loop (st\<lparr>now_str := now_str st @ [c]\<rparr>) ?cs"
    using Cons.prems nx by (simp add: lex_loop_step lex_step_def step_word_def)
  also have "\<dots> = lex_loop (st\<lparr>now_str := (now_str st @ [c]) @ w\<rparr>) (d # rest)"
    using Cons.prems by (subst Cons.IH) auto
  finally show ?case by simp
qed

text \<open>The state in which the loop has read \<open>w\<close> of a word.\<close>

definition in_word :: "token list \<Rightarrow> string \<Rightarrow> lex_state" where
  "in_word ts w = (idle ts)\<lparr>now_str := w, in_number := is_digit (hd w),
     in_identifier := \<not> is_digit (hd w)\<rparr>"

lemma in_word_simps [simp]:
  "in_block_comment (in_word ts w) = False" "in_line_comment (in_word ts w) = False"
  "in_common_string (in_word ts w) = False" "in_raw_string (in_word ts w) = False"
  "in_char (in_word ts w) = False" "in_number (in_word ts w) = is_digit (hd w)"
  "in_identifier (in_word ts w) = (\<not> is_digit (hd w))" "now_str (in_word ts w) = w"
  "w \<noteq> [] \<Longrightarrow> (in_word ts w)\<lparr>now_str := w @ v\<rparr> = in_word ts (w @ v)"
  by (simp_all add: in_word_def)

lemma flush_in_word:
  "flush_word (in_word ts w)
    = idle (ts @ [if is_digit (hd w) then mk_token TK_NUMBER w else word_token w])"
  by (simp add: flush_word_def Let_def add_number_def add_identifier_def in_word_def idle_def
      init_lex_def)

lemma lex_loop_word_start:
  assumes w: "word_chars w" and "length rest \<ge> 2" and d: "d \<noteq> dquote" "d \<noteq> CHR ''#''"
  shows "lex_loop (idle ts) (w @ d # rest) = lex_loop (in_word ts w) (d # rest)"
proof -
  obtain c v where w_eq: "w = c # v" and c: "is_not_symbol c" and v: "list_all is_not_symbol v"
    using w by (cases w) (auto simp: word_chars_def)
  let ?cs = "v @ d # rest"
  have nx: "?cs ! 0 \<noteq> dquote" "?cs ! 0 \<noteq> CHR ''#''"
    using v d by (cases v; auto)+
  have "c \<noteq> CHR ''/''" using c by auto
  then have "lex_loop (idle ts) (c # ?cs) = lex_loop (step_word (idle ts) c) ?cs"
    using assms(2) c nx by (simp add: lex_loop_step lex_step_def)
  also have "step_word (idle ts) c = in_word ts [c]"
    by (simp add: step_word_def idle_def init_lex_def in_word_def)
  also have "lex_loop (in_word ts [c]) ?cs = lex_loop (in_word ts (c # v)) (d # rest)"
    using v assms(2) d in_word_simps(9) [where w = "[c]" and ts = ts and v = v]
    by (subst lex_loop_word_tail) (auto simp del: in_word_simps(9))
  finally show ?thesis by (simp add: w_eq)
qed

lemma lex_loop_word:
  assumes w: "word_chars w" and "length rest \<ge> 2"
  shows "lex_loop (idle ts) (w @ CHR '' '' # rest) =
    lex_loop (idle (ts @ [if is_digit (hd w) then mk_token TK_NUMBER w else word_token w])) rest"
proof -
  have "lex_loop (idle ts) (w @ CHR '' '' # rest) = lex_loop (in_word ts w) (CHR '' '' # rest)"
    using assms by (intro lex_loop_word_start) auto
  also have "\<dots> = lex_loop (flush_word (in_word ts w)) rest"
    using assms(2) by (subst lex_loop_blank) auto
  finally show ?thesis by (simp only: flush_in_word)
qed

subsection \<open>Symbols\<close>

text \<open>
  What maximal munch needs of the table: a symbol has one to three characters, none of
  them a blank or a word character, and no symbol begins with an opener of a comment.
\<close>

definition symbol_ok :: "string \<Rightarrow> bool" where
  "symbol_ok s \<longleftrightarrow> s \<noteq> [] \<and> length s \<le> 3 \<and> CHR '' '' \<notin> set s \<and> \<not> is_not_symbol (hd s) \<and> \<not> is_blank (hd s)
     \<and> take 2 s \<noteq> ''/*'' \<and> take 2 s \<noteq> ''//''"

lemma symbol_table_ok: "list_all (\<lambda>(s, ty). symbol_ok s) symbol_table"
  by code_simp

lemma symbol_map_ok: "symbol_map s = Some ty \<Longrightarrow> symbol_ok s"
  using symbol_table_ok unfolding symbol_map_def list_all_iff
  by (fastforce dest: map_of_SomeD)

lemma symbol_map_blank: "CHR '' '' \<in> set s \<Longrightarrow> symbol_map s = None"
  using symbol_map_ok by (fastforce simp: symbol_ok_def)

lemma lex_loop_symbol:
  assumes sym: "symbol_map s = Some ty" and len: "length rest \<ge> 2"
  shows "lex_loop (idle ts) (s @ CHR '' '' # rest)
       = lex_loop (idle (ts @ [mk_token ty s])) rest"
proof -
  let ?st = "idle (ts @ [mk_token ty s])"
  have blank: "lex_loop ?st (CHR '' '' # rest) = lex_loop ?st rest"
    using len by (subst lex_loop_blank) auto
  from symbol_map_ok [OF sym] have ok: "symbol_ok s" .
  have step: "lex_step (idle ts) a b c cs = step_symbol (idle ts) a b c"
    if "\<not> is_not_symbol a" "\<not> is_blank a" "[a, b] \<noteq> ''/*''" "[a, b] \<noteq> ''//''" for a b c cs
    using that by (auto simp: lex_step_def)
  from ok consider a where "s = [a]" | a b where "s = [a, b]" | a b c where "s = [a, b, c]"
    by (cases s; cases "tl s"; cases "tl (tl s)") (auto simp: symbol_ok_def)
  then show ?thesis
  proof cases
    case (1 a)
    obtain r rs where rest: "rest = r # rs" using len by (cases rest) auto
    have "symbol_map [a, CHR '' '', r] = None" "symbol_map [a, CHR '' ''] = None"
      by (rule symbol_map_blank; simp)+
    with 1 ok sym len blank show ?thesis
      by (simp add: rest lex_loop_step step step_symbol_def symbol_ok_def)
  next
    case (2 a b)
    have "symbol_map [a, b, CHR '' ''] = None"
      by (rule symbol_map_blank; simp)
    with 2 ok sym len blank show ?thesis
      by (simp add: lex_loop_step step step_symbol_def symbol_ok_def)
  next
    case (3 a b c)
    with ok sym len blank show ?thesis
      by (simp add: lex_loop_step step step_symbol_def symbol_ok_def)
  qed
qed

subsection \<open>Strings and characters\<close>

lemma no_quote_symbol: "symbol_map (quote # s) = None" "symbol_map (dquote # s) = None"
proof -
  have *: "list_all (\<lambda>(s, ty). hd s \<noteq> quote \<and> hd s \<noteq> dquote) symbol_table"
    by code_simp
  have "hd t \<noteq> quote \<and> hd t \<noteq> dquote" if "symbol_map t = Some ty" for t ty
    using that * unfolding symbol_map_def list_all_iff by (fastforce dest: map_of_SomeD)
  then show "symbol_map (quote # s) = None" "symbol_map (dquote # s) = None"
    by (metis list.sel(1) not_Some_eq)+
qed

lemma lex_loop_string_body:
  assumes "in_common_string st" "\<not> in_block_comment st" "\<not> in_line_comment st" "\<not> in_char st"
    and "length rest \<ge> 2"
  shows "lex_loop st (concat (map escape_char v) @ dquote # rest)
       = lex_loop (st\<lparr>now_str := now_str st @ v\<rparr>) (dquote # rest)"
  using assms
proof (induction v arbitrary: st)
  case Nil
  then show ?case by simp
next
  case (Cons c v)
  let ?cs = "concat (map escape_char v) @ dquote # rest"
  let ?st = "st\<lparr>now_str := now_str st @ [c]\<rparr>"
  have len: "length ?cs \<ge> 3" using Cons.prems by simp
  have "lex_loop st (escape_char c @ ?cs) = lex_loop ?st ?cs"
  proof (cases "c = dquote \<or> c = backslash")
    case True
    then have "get_escape_character c = Inr [c]"
      by (auto simp: get_escape_character_def dquote_def backslash_def quote_def)
    with True Cons.prems len show ?thesis
      by (auto simp: escape_char_def lex_loop_step lex_step_def step_common_string_def)
  next
    case False
    with Cons.prems len show ?thesis
      by (simp add: escape_char_def lex_loop_step lex_step_def step_common_string_def)
  qed
  also have "\<dots> = lex_loop (?st\<lparr>now_str := now_str ?st @ v\<rparr>) (dquote # rest)"
    using Cons.prems by (subst Cons.IH) auto
  finally show ?case by simp
qed

lemma lex_loop_string:
  assumes "length rest \<ge> 2"
  shows "lex_loop (idle ts) (dquote # concat (map escape_char v) @ dquote # CHR '' '' # rest)
       = lex_loop (idle (ts @ [mk_token TK_STRING v])) rest"
proof -
  let ?st = "(idle ts)\<lparr>in_common_string := True\<rparr>"
  let ?cs = "concat (map escape_char v) @ dquote # CHR '' '' # rest"
  have "lex_loop (idle ts) (dquote # ?cs) = lex_loop ?st ?cs"
    using assms by (simp add: lex_loop_step lex_step_def Let_def step_symbol_def no_quote_symbol)
  also have "\<dots> = lex_loop (?st\<lparr>now_str := v\<rparr>) (dquote # CHR '' '' # rest)"
    using assms by (subst lex_loop_string_body) auto
  also have "\<dots> = lex_loop (idle (ts @ [mk_token TK_STRING v])) (CHR '' '' # rest)"
    using assms
    by (simp add: lex_loop_step [of "CHR '' '' # rest"] lex_step_def step_common_string_def
        push_token_def idle_def init_lex_def)
  also have "\<dots> = lex_loop (idle (ts @ [mk_token TK_STRING v])) rest"
    using assms by (subst lex_loop_blank) auto
  finally show ?thesis .
qed

lemma lex_loop_char:
  assumes len: "length rest \<ge> 2" and v: "length v \<le> 1"
  shows "lex_loop (idle ts) (unlex_token (mk_token TK_CHAR v) @ CHR '' '' # rest)
       = lex_loop (idle (ts @ [mk_token TK_CHAR v])) rest"
proof -
  let ?st = "idle (ts @ [mk_token TK_CHAR v])"
  have start: "lex_loop (idle ts) (quote # cs) = lex_loop ((idle ts)\<lparr>in_char := True\<rparr>) cs"
    if "length cs \<ge> 2" for cs
    using that by (simp add: lex_loop_step lex_step_def Let_def step_symbol_def no_quote_symbol)
  have stop: "(push_token TK_CHAR v ((idle ts)\<lparr>in_char := True\<rparr>))\<lparr>in_char := False\<rparr> = ?st"
    by (simp add: push_token_def idle_def init_lex_def)
  have blank: "lex_loop ?st (CHR '' '' # rest) = lex_loop ?st rest"
    using len by (subst lex_loop_blank) auto
  have escaped: "lex_loop ((idle ts)\<lparr>in_char := True\<rparr>) (backslash # c # quote # CHR '' '' # rest)
      = lex_loop ?st rest" if "get_escape_character c = Inr v" for c
    using that len stop blank by (simp add: lex_loop_step lex_step_def step_char_def)
  show ?thesis
  proof (cases v)
    case Nil
    then have "get_escape_character (CHR ''0'') = Inr v"
      by (simp add: get_escape_character_def)
    from escaped [OF this] Nil len show ?thesis by (simp add: unlex_token_def mk_token_def start)
  next
    case (Cons c w)
    with v have v_eq: "v = [c]" by simp
    show ?thesis
    proof (cases "c = quote \<or> c = backslash")
      case True
      then have "get_escape_character c = Inr v"
        by (auto simp: get_escape_character_def v_eq quote_def backslash_def dquote_def)
      from escaped [OF this] True v_eq len show ?thesis by (auto simp: unlex_token_def start)
    next
      case False
      with v_eq len stop blank show ?thesis
        by (simp add: unlex_token_def start) (simp add: lex_loop_step lex_step_def step_char_def)
    qed
  qed
qed

subsection \<open>The round trip\<close>

lemma keywords_ok: "list_all (\<lambda>(s, ty). word_chars s \<and> \<not> is_digit (hd s) \<and>
    ty \<noteq> TK_STRING \<and> ty \<noteq> TK_CHAR) keywords_table"
  by code_simp

lemma symbols_ok: "list_all (\<lambda>(s, ty). ty \<noteq> TK_STRING \<and> ty \<noteq> TK_CHAR) symbol_table"
  by code_simp

lemma keywords_map_ok:
  "keywords_map s = Some ty \<Longrightarrow>
    word_chars s \<and> \<not> is_digit (hd s) \<and> ty \<noteq> TK_STRING \<and> ty \<noteq> TK_CHAR"
  using keywords_ok unfolding keywords_map_def list_all_iff
  by (fastforce dest: map_of_SomeD)

lemma symbol_map_type_ok: "symbol_map s = Some ty \<Longrightarrow> ty \<noteq> TK_STRING \<and> ty \<noteq> TK_CHAR"
  using symbols_ok unfolding symbol_map_def list_all_iff
  by (fastforce dest: map_of_SomeD)

lemma mk_token_eta [simp]: "mk_token (tk_type t) (tk_value t) = t"
  by (simp add: mk_token_def)

lemma lex_loop_unlex_token:
  assumes "wf_token t" and len: "length rest \<ge> 2"
  shows "lex_loop (idle ts) (unlex_token t @ CHR '' '' # rest) = lex_loop (idle (ts @ [t])) rest"
proof -
  let ?v = "tk_value t"
  consider (keyword) "keywords_map ?v = Some (tk_type t)"
    | (symb) "symbol_map ?v = Some (tk_type t)"
    | (ident) "tk_type t = TK_IDENTIFIER" "word_chars ?v" "\<not> is_digit (hd ?v)"
        "keywords_map ?v = None"
    | (num) "tk_type t = TK_NUMBER" "word_chars ?v" "is_digit (hd ?v)"
    | (str) "tk_type t = TK_STRING" | (chr) "tk_type t = TK_CHAR" "length ?v \<le> 1"
    using assms(1) by (auto simp: wf_token_def)
  then show ?thesis
  proof cases
    case keyword
    with keywords_map_ok [OF this] len show ?thesis
      by (simp add: unlex_token_def lex_loop_word word_token_def)
  next
    case symb
    with symbol_map_type_ok [OF this] len show ?thesis
      by (simp add: unlex_token_def lex_loop_symbol)
  next
    case ident
    have "mk_token TK_IDENTIFIER ?v = t" by (simp flip: ident(1))
    moreover have "lex_loop (idle ts) (?v @ CHR '' '' # rest)
        = lex_loop (idle (ts @ [mk_token TK_IDENTIFIER ?v])) rest"
      using ident len by (simp add: lex_loop_word word_token_def)
    moreover have "unlex_token t = ?v" using ident by (simp add: unlex_token_def)
    ultimately show ?thesis using \<open>mk_token TK_IDENTIFIER ?v = t\<close> by metis
  next
    case num
    have "mk_token TK_NUMBER ?v = t" by (simp flip: num(1))
    moreover have "lex_loop (idle ts) (?v @ CHR '' '' # rest)
        = lex_loop (idle (ts @ [mk_token TK_NUMBER ?v])) rest"
      using num len by (simp add: lex_loop_word)
    moreover have "unlex_token t = ?v" using num by (simp add: unlex_token_def)
    ultimately show ?thesis using \<open>mk_token TK_NUMBER ?v = t\<close> by metis
  next
    case str
    then have "mk_token TK_STRING ?v = t" by (simp flip: str)
    with str lex_loop_string [OF len, of ts ?v] show ?thesis by (simp add: unlex_token_def)
  next
    case chr
    then have "mk_token TK_CHAR ?v = t" by (simp flip: chr(1))
    with chr lex_loop_char [OF len chr(2), of ts] show ?thesis by simp
  qed
qed

lemma lex_loop_unlex:
  "list_all wf_token toks \<Longrightarrow> length rest \<ge> 2 \<Longrightarrow>
    lex_loop (idle ts) (unlex toks @ rest) = lex_loop (idle (ts @ toks)) rest"
  by (induction toks arbitrary: ts) (simp_all add: lex_loop_unlex_token)

lemma init_lex_idle: "init_lex = idle []"
  by (simp add: idle_def init_lex_def)

lemma lex_finish_idle [simp]: "lex_finish (idle ts) = Inr ts"
  by (simp add: lex_finish_def)

lemma lex_loop_blanks: "lex_loop (idle ts) ''   '' = Inr (idle ts)"
  by (subst lex_loop_blank) auto

lemma lex_loop_newline_blanks: "lex_loop (idle ts) (newline # ''   '') = Inr (idle ts)"
  by (subst lex_loop_blank) (auto simp: lex_loop_blanks)

lemma unlex_last: "toks \<noteq> [] \<Longrightarrow> unlex toks \<noteq> [] \<and> last (unlex toks) = CHR '' ''"
  by (induction toks rule: rev_induct) (auto simp: unlex_def)

lemma lex_unlex_aux:
  assumes "list_all wf_token toks"
  shows "read_and_get_tokens (unlex toks) = Inr toks"
proof (cases "toks = []")
  case True
  then show ?thesis
    by (simp add: read_and_get_tokens_def read_all_code_def init_lex_idle lex_loop_blanks)
next
  case False
  then have "read_all_code (unlex toks) = unlex toks @ [newline]"
    using unlex_last [OF False] by (auto simp: read_all_code_def dest: sym)
  then show ?thesis
    using assms lex_loop_newline_blanks [of toks]
    by (simp add: read_and_get_tokens_def init_lex_idle lex_loop_unlex)
qed

subsection \<open>Comments\<close>

text \<open>\<open>has_close s\<close>: the end of a block comment stands somewhere in \<open>s\<close>.\<close>

fun has_close :: "string \<Rightarrow> bool" where
  "has_close (a # b # cs) \<longleftrightarrow> a = CHR ''*'' \<and> b = CHR ''/'' \<or> has_close (b # cs)"
| "has_close _ \<longleftrightarrow> False"

lemma lex_loop_comment_body:
  assumes "\<not> has_close (body @ ''*'')" and "length rest \<ge> 2" and "in_block_comment st"
  shows "lex_loop st (body @ ''*/'' @ rest) = lex_loop (st\<lparr>in_block_comment := False\<rparr>) rest"
  using assms(1)
proof (induction body)
  case Nil
  with assms(2,3) show ?case by (simp add: lex_loop_step lex_step_def step_block_comment_def)
next
  case (Cons c body)
  have "has_close (c # body @ ''*'') \<longleftrightarrow>
      c = CHR ''*'' \<and> (body @ ''*'') ! 0 = CHR ''/'' \<or> has_close (body @ ''*'')"
    by (cases body) auto
  moreover have "(body @ ''*/'' @ rest) ! 0 = (body @ ''*'') ! 0"
    by (cases body) auto
  ultimately have "lex_step st c ((body @ ''*/'' @ rest) ! 0) ((body @ ''*/'' @ rest) ! 1)
      (drop 2 (body @ ''*/'' @ rest)) = Inr (st, 0)" and "\<not> has_close (body @ ''*'')"
    using Cons.prems assms(3) by (auto simp: lex_step_def step_block_comment_def)
  then show ?case
    using Cons.IH by (simp add: lex_loop_step)
qed

lemma comment_inside_word_aux:
  assumes u: "word_chars u" and v: "word_chars v" and body: "\<not> has_close (body @ ''*'')"
  shows "read_and_get_tokens (u @ ''/*'' @ body @ ''*/'' @ v)
       = read_and_get_tokens (u @ v)"
proof -
  have ne: "u \<noteq> []" "v \<noteq> []"
    using u v by (auto simp: word_chars_def)
  have "is_not_symbol (last v)"
    using v by (auto simp: word_chars_def list_all_iff)
  then have last: "last v \<noteq> newline" by auto
  let ?tail = "v @ newline # ''   ''"
  have uv: "word_chars (u @ v)" and lv: "list_all is_not_symbol v"
    using u v by (simp_all add: word_chars_def)
  have "lex_loop (idle []) (u @ ''/*'' @ body @ ''*/'' @ ?tail)
      = lex_loop (in_word [] u) (''/*'' @ body @ ''*/'' @ ?tail)"
    using lex_loop_word_start [OF u, of "CHR ''*'' # body @ ''*/'' @ ?tail" "CHR ''/''" "[]"]
    by (simp add: dquote_def)
  also have "\<dots> = lex_loop ((in_word [] u)\<lparr>in_block_comment := True\<rparr>) (body @ ''*/'' @ ?tail)"
    by (simp add: lex_loop_step lex_step_def)
  also have "\<dots> = lex_loop (in_word [] u) ?tail"
    using body by (subst lex_loop_comment_body) (auto simp: in_word_def idle_def init_lex_def)
  also have "\<dots> = lex_loop (in_word [] (u @ v)) (newline # ''   '')"
    using lv ne by (subst lex_loop_word_tail) (auto simp: newline_def dquote_def)
  also have "\<dots> = lex_loop (idle []) ((u @ v) @ newline # ''   '')"
    using uv by (subst lex_loop_word_start) (auto simp: newline_def dquote_def)
  finally show ?thesis
    using ne last by (simp add: read_and_get_tokens_def read_all_code_def init_lex_idle)
qed

subsection \<open>The interface of the token cursor\<close>

text \<open>
  The parser sees the lexer as a stream of tokens: \<open>view\<close> is what is left to read.
  \<open>peek\<close> and \<open>consume\<close> fail exactly at the end of the stream; \<open>consume\<close> gives the head
  and leaves the tail.
\<close>

locale token_stream =
  fixes view :: "'s \<Rightarrow> token list"
    and peek :: "'s \<Rightarrow> token res"
    and consume :: "'s \<Rightarrow> (token \<times> 's) res"
    and more :: "'s \<Rightarrow> bool"
  assumes peek_head: "view s = t # ts \<Longrightarrow> peek s = Inr t"
    and peek_empty: "view s = [] \<Longrightarrow> \<exists>m. peek s = Inl (Thrown m)"
    and consume_head: "view s = t # ts \<Longrightarrow> \<exists>s'. consume s = Inr (t, s') \<and> view s' = ts"
    and consume_empty: "view s = [] \<Longrightarrow> \<exists>m. consume s = Inl (Thrown m)"
    and more_iff: "more s \<longleftrightarrow> view s \<noteq> []"
begin

lemma peek_InrD: "peek s = Inr t \<Longrightarrow> \<exists>ts. view s = t # ts"
  by (cases "view s") (auto dest: peek_head peek_empty)

lemma consume_InrD: "consume s = Inr (t, s') \<Longrightarrow> view s = t # view s'"
  by (cases "view s") (auto dest: consume_head consume_empty)

lemma consume_shrinks: "consume s = Inr (t, s') \<Longrightarrow> length (view s') < length (view s)"
  by (simp add: consume_InrD)

lemma consume_InlD: "consume s = Inl e \<Longrightarrow> view s = [] \<and> (\<exists>m. e = Thrown m)"
  using consume_empty [of s] by (cases "view s") (auto dest: consume_head)

lemma peek_InlD: "peek s = Inl e \<Longrightarrow> view s = [] \<and> (\<exists>m. e = Thrown m)"
  using peek_empty [of s] by (cases "view s") (auto dest: peek_head)

lemma peek_consume: "peek s = Inr t \<Longrightarrow> \<exists>s'. consume s = Inr (t, s')"
  using peek_InrD consume_head by blast

lemma more_peek: "more s \<Longrightarrow> \<exists>t. peek s = Inr t"
  using peek_head by (cases "view s") (auto simp: more_iff)

end

definition remaining :: "lexer \<Rightarrow> token list" where
  "remaining lx = drop (current_token_index lx) (tokens lx)"

interpretation cursor: token_stream remaining peek_token consume_token has_more_tokens
proof
  fix s t ts
  assume *: "remaining s = t # ts"
  then show "peek_token s = Inr t"
    by (auto simp: remaining_def peek_token_def dest: drop_eq_ConsD)
  with * show "\<exists>s'. consume_token s = Inr (t, s') \<and> remaining s' = ts"
    by (auto simp: remaining_def consume_token_def dest: drop_eq_ConsD)
next
  fix s
  assume *: "remaining s = []"
  then show "\<exists>m. peek_token s = Inl (Thrown m)"
    by (simp add: remaining_def peek_token_def)
  with * show "\<exists>m. consume_token s = Inl (Thrown m)"
    by (auto simp: consume_token_def)
next
  fix s
  show "has_more_tokens s \<longleftrightarrow> remaining s \<noteq> []"
    by (auto simp: remaining_def has_more_tokens_def)
qed

lemma remaining_mk_lexer [simp]: "remaining (mk_lexer ts) = ts"
  by (simp add: remaining_def mk_lexer_def)

lemma consume_tokens [simp]: "consume_token lx = Inr (t, lx') \<Longrightarrow> tokens lx' = tokens lx"
  by (auto simp: consume_token_def res_simps)

lemma consume_expect_InrD:
  "consume_expect_token ty lx = Inr (t, lx') \<Longrightarrow>
    remaining lx = t # remaining lx' \<and> tk_type t = ty \<and> consume_token lx = Inr (t, lx')"
  by (auto simp: consume_expect_token_def res_simps split: if_split_asm dest: cursor.consume_InrD)

lemma consume_expect_head:
  "remaining lx = t # ts \<Longrightarrow> tk_type t = ty \<Longrightarrow>
    \<exists>lx'. consume_expect_token ty lx = Inr (t, lx') \<and> remaining lx' = ts"
  using cursor.consume_head [of lx t ts] by (auto simp: consume_expect_token_def)

lemma consume_expect_InlD: "consume_expect_token ty lx = Inl e \<Longrightarrow> \<exists>m. e = Thrown m"
  by (auto simp: consume_expect_token_def res_simps split: if_split_asm dest: cursor.consume_InlD)

subsection \<open>How scanning fails\<close>

lemma get_escape_character_InlD: "get_escape_character c = Inl e \<Longrightarrow> \<exists>m. e = Thrown m"
  by (auto simp: get_escape_character_def split: if_split_asm)

lemma lex_step_InlD:
  assumes "lex_step st c c1 c2 cs = Inl e"
  shows "\<exists>m. e = Thrown m"
proof -
  have "\<exists>m. e = Thrown m" if "step_symbol st c c1 c2 = Inl e" for st
    using that by (auto simp: step_symbol_def split: option.splits if_split_asm)
  moreover have "\<exists>m. e = Thrown m" if "step_char st c c1 c2 = Inl e"
    using that by (auto simp: step_char_def res_simps split: if_split_asm
        dest: get_escape_character_InlD)
  moreover have "\<exists>m. e = Thrown m" if "step_common_string st c c1 = Inl e"
    using that by (auto simp: step_common_string_def res_simps split: if_split_asm
        dest: get_escape_character_InlD)
  moreover have "\<exists>m. e = Thrown m" if "start_raw_string st c1 (c2 # cs) = Inl e"
    using that by (auto simp: start_raw_string_def Let_def split: if_split_asm)
  ultimately show ?thesis
    using assms by (auto simp: lex_step_def Let_def split: if_split_asm)
qed

lemma lex_loop_InlD: "lex_loop st cs = Inl e \<Longrightarrow> \<exists>m. e = Thrown m"
proof (induction st cs rule: lex_loop.induct)
  case (1 st c c1 c2 cs)
  then show ?case by (auto simp: lex_loop.simps res_simps dest: lex_step_InlD)
qed auto

lemma read_and_get_tokens_InlD: "read_and_get_tokens input = Inl e \<Longrightarrow> \<exists>m. e = Thrown m"
  by (auto simp: read_and_get_tokens_def res_simps lex_finish_def Let_def split: if_split_asm
      dest: lex_loop_InlD)

section \<open>Properties\<close>

text \<open>
  C15. Scanning any input ends: with a vector of well-formed tokens (each is a keyword or
  a symbol of the tables with its own type, an identifier that is no keyword, a word that
  begins with a digit, a string, or a character literal of at most one character), or with
  a thrown string. No other failure is possible.
\<close>

theorem lex_result:
  "case read_and_get_tokens input of
     Inr ts \<Rightarrow> list_all wf_token ts
   | Inl e \<Rightarrow> (\<exists>m. e = Thrown m)"
  using read_and_get_tokens_wf_aux read_and_get_tokens_InlD
  by (auto split: sum.splits)

text \<open>
  C6. Round trip: printing well-formed tokens, a blank after each, and scanning the text
  gives the same tokens back; maximal munch, the keyword table and the escapes of string
  and character literals lose nothing.
\<close>

theorem lex_unlex_roundtrip:
  "list_all wf_token toks \<Longrightarrow> read_and_get_tokens (unlex toks) = Inr toks"
  by (rule lex_unlex_aux)

theorem lex_unlex_roundtrip_witness:
  "read_and_get_tokens (unlex [mk_token TK_LET ''let'', mk_token TK_IDENTIFIER ''x'',
     mk_token TK_EQUAL ''='', mk_token TK_STRING (backslash # dquote # ''q''),
     mk_token TK_NUMBER ''12u32'', mk_token TK_LEFT_SHIFT_EQUAL ''<<=''])
   = Inr [mk_token TK_LET ''let'', mk_token TK_IDENTIFIER ''x'',
     mk_token TK_EQUAL ''='', mk_token TK_STRING (backslash # dquote # ''q''),
     mk_token TK_NUMBER ''12u32'', mk_token TK_LEFT_SHIFT_EQUAL ''<<='']"
  by (rule lex_unlex_roundtrip) code_simp

text \<open>
  C38. Scanning is a projection: whatever the input, the tokens it yields, printed and
  scanned again, are the same.
\<close>

theorem lex_idempotent:
  "read_and_get_tokens input = Inr toks \<Longrightarrow> read_and_get_tokens (unlex toks) = Inr toks"
  using read_and_get_tokens_wf_aux by (rule lex_unlex_aux)

theorem lex_idempotent_witness:
  "read_and_get_tokens (unlex [mk_token TK_IDENTIFIER ''a'', mk_token TK_PLUS_EQUAL ''+='',
     mk_token TK_CHAR ''b'']) = Inr [mk_token TK_IDENTIFIER ''a'', mk_token TK_PLUS_EQUAL ''+='',
     mk_token TK_CHAR ''b'']"
  by (rule lex_idempotent [of "''a+='' @ [quote, CHR ''b'', quote]"]) code_simp

text \<open>
  A block comment does not end a word: a comment between two runs of word characters
  leaves one word, as if the comment were not there (in Rust it separates two tokens).
\<close>

theorem block_comment_glues_words:
  assumes "word_chars u" and "word_chars v" and "\<not> has_close (body @ ''*'')"
  shows "read_and_get_tokens (u @ ''/*'' @ body @ ''*/'' @ v) = read_and_get_tokens (u @ v)"
  using assms by (rule comment_inside_word_aux)

theorem block_comment_glues_words_witness:
  "read_and_get_tokens ''fo/* no */o'' = Inr [mk_token TK_IDENTIFIER ''foo'']"
proof -
  have "read_and_get_tokens (''fo'' @ ''/*'' @ '' no '' @ ''*/'' @ ''o'')
      = read_and_get_tokens (''fo'' @ ''o'')"
    by (rule block_comment_glues_words) code_simp+
  moreover have "read_and_get_tokens ''foo'' = Inr [mk_token TK_IDENTIFIER ''foo'']"
    by code_simp
  ultimately show ?thesis by simp
qed

text \<open>
  The cursor of the parser: \<open>consume_expect_token\<close> succeeds exactly when the next
  unread token has the expected type; it returns that token and leaves the others unread.
  Otherwise it throws a string, and the end of the input is one such case.
\<close>

theorem consume_expect_spec:
  "case consume_expect_token ty lx of
     Inr (t, lx') \<Rightarrow> remaining lx = t # remaining lx' \<and> tk_type t = ty \<and> tokens lx' = tokens lx
   | Inl e \<Rightarrow> (\<exists>m. e = Thrown m) \<and> (\<nexists>t ts. remaining lx = t # ts \<and> tk_type t = ty)"
proof (cases "consume_expect_token ty lx")
  case (Inl e)
  with consume_expect_head [of lx _ _ ty] show ?thesis by (auto dest: consume_expect_InlD)
next
  case (Inr r)
  with consume_expect_InrD [of ty lx "fst r" "snd r"] show ?thesis by (cases r) auto
qed

end
