(* ===== verification/NodeIds.thy ===== *)
theory NodeIds
  imports Ast
begin

section \<open>Numbering the nodes\<close>

text \<open>
  The visitor \<open>ASTIdGenerator\<close> of \<open>src/ast/visitor.cpp\<close> with the traversal of
  \<open>AST_Walker\<close> under it: each node takes the value of the counter before its children are
  visited. The counter \<open>current_id\<close> is passed along. The lemmas show that the ids of a
  numbered tree, read in preorder, are consecutive, and that nothing but the ids changes.
\<close>

subsection \<open>Passing the counter along\<close>

primrec thread :: "('s \<Rightarrow> 'a \<times> 's) list \<Rightarrow> 's \<Rightarrow> 'a list \<times> 's" where
  "thread [] k = ([], k)"
| "thread (f # fs) k = (let (x, k1) = f k; (xs, k2) = thread fs k1 in (x # xs, k2))"

primrec thread_opt :: "('s \<Rightarrow> 'a \<times> 's) option \<Rightarrow> 's \<Rightarrow> 'a option \<times> 's" where
  "thread_opt None k = (None, k)"
| "thread_opt (Some f) k = (let (x, k1) = f k in (Some x, k1))"

definition label :: "string \<times> ('s \<Rightarrow> 'a \<times> 's) \<Rightarrow> 's \<Rightarrow> (string \<times> 'a) \<times> 's" where
  "label p k = (let (x, k1) = snd p k in ((fst p, x), k1))"

primrec assign_pattern :: "pattern \<Rightarrow> nat \<Rightarrow> pattern \<times> nat" where
  "assign_pattern (IdentifierPattern _ n m r) k = (IdentifierPattern k n m r, Suc k)"

definition assign_param :: "pattern \<times> (nat \<Rightarrow> 'a \<times> nat) \<Rightarrow> nat \<Rightarrow> (pattern \<times> 'a) \<times> nat" where
  "assign_param p k =
     (let (pat, k1) = assign_pattern (fst p) k; (t, k2) = snd p k1 in ((pat, t), k2))"

subsection \<open>The visitor\<close>

primrec assign_type :: "type_node \<Rightarrow> nat \<Rightarrow> type_node \<times> nat"
  and assign_expr :: "expr \<Rightarrow> nat \<Rightarrow> expr \<times> nat"
  and assign_stmt :: "stmt \<Rightarrow> nat \<Rightarrow> stmt \<times> nat"
  and assign_item :: "item \<Rightarrow> nat \<Rightarrow> item \<times> nat"
where
  "assign_type (PathType _ r n) k = (PathType k r n, Suc k)"
| "assign_type (ArrayType _ r t e) k =
     (let (t', k1) = assign_type t (Suc k); (e', k2) = assign_expr e k1 in (ArrayType k r t' e', k2))"
| "assign_type (UnitType _ r) k = (UnitType k r, Suc k)"
| "assign_type (SelfType _ r) k = (SelfType k r, Suc k)"
| "assign_expr (LiteralExpr _ l v) k = (LiteralExpr k l v, Suc k)"
| "assign_expr (IdentifierExpr _ n) k = (IdentifierExpr k n, Suc k)"
| "assign_expr (BinaryExpr _ op l r) k =
     (let (l', k1) = assign_expr l (Suc k); (r', k2) = assign_expr r k1 in (BinaryExpr k op l' r', k2))"
| "assign_expr (UnaryExpr _ op r) k = (let (r', k1) = assign_expr r (Suc k) in (UnaryExpr k op r', k1))"
| "assign_expr (CallExpr _ c args) k =
     (let (c', k1) = assign_expr c (Suc k); (as, k2) = thread (map assign_expr args) k1
      in (CallExpr k c' as, k2))"
| "assign_expr (FieldExpr _ b n) k = (let (b', k1) = assign_expr b (Suc k) in (FieldExpr k b' n, k1))"
| "assign_expr (StructExpr _ t fs) k =
     (let (t', k1) = assign_type t (Suc k);
          (fs', k2) = thread (map label (map (map_prod id assign_expr) fs)) k1
      in (StructExpr k t' fs', k2))"
| "assign_expr (IndexExpr _ b i) k =
     (let (b', k1) = assign_expr b (Suc k); (i', k2) = assign_expr i k1 in (IndexExpr k b' i', k2))"
| "assign_expr (BlockExpr _ ss t u) k =
     (let (ss', k1) = thread (map assign_stmt ss) (Suc k);
          (t', k2) = thread_opt (map_option assign_stmt t) k1
      in (BlockExpr k ss' t' u, k2))"
| "assign_expr (IfExpr _ c a b u) k =
     (let (c', k1) = assign_expr c (Suc k); (a', k2) = assign_expr a k1;
          (b', k3) = thread_opt (map_option assign_expr b) k2
      in (IfExpr k c' a' b' u, k3))"
| "assign_expr (WhileExpr _ c b) k =
     (let (c', k1) = assign_expr c (Suc k); (b', k2) = assign_expr b k1 in (WhileExpr k c' b', k2))"
| "assign_expr (LoopExpr _ b u) k = (let (b', k1) = assign_expr b (Suc k) in (LoopExpr k b' u, k1))"
| "assign_expr (ReturnExpr _ v) k =
     (let (v', k1) = thread_opt (map_option assign_expr v) (Suc k) in (ReturnExpr k v', k1))"
| "assign_expr (BreakExpr _ v) k =
     (let (v', k1) = thread_opt (map_option assign_expr v) (Suc k) in (BreakExpr k v', k1))"
| "assign_expr (ContinueExpr _) k = (ContinueExpr k, Suc k)"
| "assign_expr (CastExpr _ e t) k =
     (let (e', k1) = assign_expr e (Suc k); (t', k2) = assign_type t k1 in (CastExpr k e' t', k2))"
| "assign_expr (PathExpr _ t n) k = (let (t', k1) = assign_type t (Suc k) in (PathExpr k t' n, k1))"
| "assign_expr (SelfExpr _) k = (SelfExpr k, Suc k)"
| "assign_expr (UnitExpr _) k = (UnitExpr k, Suc k)"
| "assign_expr (ArrayExpr _ es) k =
     (let (es', k1) = thread (map assign_expr es) (Suc k) in (ArrayExpr k es', k1))"
| "assign_expr (RepeatArrayExpr _ e s) k =
     (let (e', k1) = assign_expr e (Suc k); (s', k2) = assign_expr s k1 in (RepeatArrayExpr k e' s', k2))"
| "assign_stmt (LetStmt _ p t e) k =
     (let (p', k1) = assign_pattern p (Suc k); (t', k2) = assign_type t k1;
          (e', k3) = thread_opt (map_option assign_expr e) k2
      in (LetStmt k p' t' e', k3))"
| "assign_stmt (ExprStmt _ e s) k = (let (e', k1) = assign_expr e (Suc k) in (ExprStmt k e' s, k1))"
| "assign_stmt (ItemStmt _ i) k = (let (i', k1) = assign_item i (Suc k) in (ItemStmt k i', k1))"
| "assign_item (FnItem _ n rc ps rt b) k =
     (let (ps', k1) = thread (map assign_param (map (map_prod id assign_type) ps)) (Suc k);
          (rt', k2) = thread_opt (map_option assign_type rt) k1;
          (b', k3) = assign_expr b k2
      in (FnItem k n rc ps' rt' b', k3))"
| "assign_item (StructItem _ n fs) k =
     (let (fs', k1) = thread (map label (map (map_prod id assign_type) fs)) (Suc k)
      in (StructItem k n fs', k1))"
| "assign_item (EnumItem _ n vs) k = (EnumItem k n vs, Suc k)"
| "assign_item (ImplItem _ n ms) k =
     (let (ms', k1) = thread (map assign_item ms) (Suc k) in (ImplItem k n ms', k1))"
| "assign_item (ConstItem _ n t e) k =
     (let (t', k1) = assign_type t (Suc k); (e', k2) = assign_expr e k1 in (ConstItem k n t' e', k2))"

definition assign_ids :: "item list \<Rightarrow> item list" where
  "assign_ids items = fst (thread (map assign_item items) 0)"

subsection \<open>Ids in preorder, and the tree without them\<close>

primrec param_ids :: "pattern \<Rightarrow> nat list" where
  "param_ids (IdentifierPattern k _ _ _) = [k]"

primrec opt_list :: "'a list option \<Rightarrow> 'a list" where
  "opt_list None = []"
| "opt_list (Some xs) = xs"

primrec ids_type :: "type_node \<Rightarrow> nat list"
  and ids_expr :: "expr \<Rightarrow> nat list"
  and ids_stmt :: "stmt \<Rightarrow> nat list"
  and ids_item :: "item \<Rightarrow> nat list"
where
  "ids_type (PathType k _ _) = [k]"
| "ids_type (ArrayType k _ t e) = k # ids_type t @ ids_expr e"
| "ids_type (UnitType k _) = [k]"
| "ids_type (SelfType k _) = [k]"
| "ids_expr (LiteralExpr k _ _) = [k]"
| "ids_expr (IdentifierExpr k _) = [k]"
| "ids_expr (BinaryExpr k _ l r) = k # ids_expr l @ ids_expr r"
| "ids_expr (UnaryExpr k _ r) = k # ids_expr r"
| "ids_expr (CallExpr k c args) = k # ids_expr c @ concat (map ids_expr args)"
| "ids_expr (FieldExpr k b _) = k # ids_expr b"
| "ids_expr (StructExpr k t fs) = k # ids_type t @ concat (map snd (map (map_prod id ids_expr) fs))"
| "ids_expr (IndexExpr k b i) = k # ids_expr b @ ids_expr i"
| "ids_expr (BlockExpr k ss t _) =
     k # concat (map ids_stmt ss) @ opt_list (map_option ids_stmt t)"
| "ids_expr (IfExpr k c a b _) =
     k # ids_expr c @ ids_expr a @ opt_list (map_option ids_expr b)"
| "ids_expr (WhileExpr k c b) = k # ids_expr c @ ids_expr b"
| "ids_expr (LoopExpr k b _) = k # ids_expr b"
| "ids_expr (ReturnExpr k v) = k # opt_list (map_option ids_expr v)"
| "ids_expr (BreakExpr k v) = k # opt_list (map_option ids_expr v)"
| "ids_expr (ContinueExpr k) = [k]"
| "ids_expr (CastExpr k e t) = k # ids_expr e @ ids_type t"
| "ids_expr (PathExpr k t _) = k # ids_type t"
| "ids_expr (SelfExpr k) = [k]"
| "ids_expr (UnitExpr k) = [k]"
| "ids_expr (ArrayExpr k es) = k # concat (map ids_expr es)"
| "ids_expr (RepeatArrayExpr k e s) = k # ids_expr e @ ids_expr s"
| "ids_stmt (LetStmt k p t e) =
     k # param_ids p @ ids_type t @ opt_list (map_option ids_expr e)"
| "ids_stmt (ExprStmt k e _) = k # ids_expr e"
| "ids_stmt (ItemStmt k i) = k # ids_item i"
| "ids_item (FnItem k _ _ ps rt b) =
     k # concat (map (\<lambda>(p, x). param_ids p @ x) (map (map_prod id ids_type) ps))
       @ opt_list (map_option ids_type rt) @ ids_expr b"
| "ids_item (StructItem k _ fs) = k # concat (map snd (map (map_prod id ids_type) fs))"
| "ids_item (EnumItem k _ _) = [k]"
| "ids_item (ImplItem k _ ms) = k # concat (map ids_item ms)"
| "ids_item (ConstItem k _ t e) = k # ids_type t @ ids_expr e"

primrec strip_pattern :: "pattern \<Rightarrow> pattern" where
  "strip_pattern (IdentifierPattern _ n m r) = IdentifierPattern 0 n m r"

primrec strip_type :: "type_node \<Rightarrow> type_node"
  and strip_expr :: "expr \<Rightarrow> expr"
  and strip_stmt :: "stmt \<Rightarrow> stmt"
  and strip_item :: "item \<Rightarrow> item"
where
  "strip_type (PathType _ r n) = PathType 0 r n"
| "strip_type (ArrayType _ r t e) = ArrayType 0 r (strip_type t) (strip_expr e)"
| "strip_type (UnitType _ r) = UnitType 0 r"
| "strip_type (SelfType _ r) = SelfType 0 r"
| "strip_expr (LiteralExpr _ l v) = LiteralExpr 0 l v"
| "strip_expr (IdentifierExpr _ n) = IdentifierExpr 0 n"
| "strip_expr (BinaryExpr _ op l r) = BinaryExpr 0 op (strip_expr l) (strip_expr r)"
| "strip_expr (UnaryExpr _ op r) = UnaryExpr 0 op (strip_expr r)"
| "strip_expr (CallExpr _ c args) = CallExpr 0 (strip_expr c) (map strip_expr args)"
| "strip_expr (FieldExpr _ b n) = FieldExpr 0 (strip_expr b) n"
| "strip_expr (StructExpr _ t fs) = StructExpr 0 (strip_type t) (map (map_prod id strip_expr) fs)"
| "strip_expr (IndexExpr _ b i) = IndexExpr 0 (strip_expr b) (strip_expr i)"
| "strip_expr (BlockExpr _ ss t u) = BlockExpr 0 (map strip_stmt ss) (map_option strip_stmt t) u"
| "strip_expr (IfExpr _ c a b u) = IfExpr 0 (strip_expr c) (strip_expr a) (map_option strip_expr b) u"
| "strip_expr (WhileExpr _ c b) = WhileExpr 0 (strip_expr c) (strip_expr b)"
| "strip_expr (LoopExpr _ b u) = LoopExpr 0 (strip_expr b) u"
| "strip_expr (ReturnExpr _ v) = ReturnExpr 0 (map_option strip_expr v)"
| "strip_expr (BreakExpr _ v) = BreakExpr 0 (map_option strip_expr v)"
| "strip_expr (ContinueExpr _) = ContinueExpr 0"
| "strip_expr (CastExpr _ e t) = CastExpr 0 (strip_expr e) (strip_type t)"
| "strip_expr (PathExpr _ t n) = PathExpr 0 (strip_type t) n"
| "strip_expr (SelfExpr _) = SelfExpr 0"
| "strip_expr (UnitExpr _) = UnitExpr 0"
| "strip_expr (ArrayExpr _ es) = ArrayExpr 0 (map strip_expr es)"
| "strip_expr (RepeatArrayExpr _ e s) = RepeatArrayExpr 0 (strip_expr e) (strip_expr s)"
| "strip_stmt (LetStmt _ p t e) = LetStmt 0 (strip_pattern p) (strip_type t) (map_option strip_expr e)"
| "strip_stmt (ExprStmt _ e s) = ExprStmt 0 (strip_expr e) s"
| "strip_stmt (ItemStmt _ i) = ItemStmt 0 (strip_item i)"
| "strip_item (FnItem _ n rc ps rt b) =
     FnItem 0 n rc (map (map_prod strip_pattern id) (map (map_prod id strip_type) ps))
       (map_option strip_type rt) (strip_expr b)"
| "strip_item (StructItem _ n fs) = StructItem 0 n (map (map_prod id strip_type) fs)"
| "strip_item (EnumItem _ n vs) = EnumItem 0 n vs"
| "strip_item (ImplItem _ n ms) = ImplItem 0 n (map strip_item ms)"
| "strip_item (ConstItem _ n t e) = ConstItem 0 n (strip_type t) (strip_expr e)"

subsection \<open>Consecutive ids\<close>

text \<open>
  \<open>numbers ids s f x\<close>: from any counter value \<open>k\<close>, \<open>f\<close> gives a tree whose ids in preorder
  are \<open>k\<close>, \<open>k + 1\<close>, and so on up to the new counter value, and which is \<open>x\<close> otherwise.
\<close>

definition numbers :: "('a \<Rightarrow> nat list) \<Rightarrow> ('a \<Rightarrow> 'b) \<Rightarrow> (nat \<Rightarrow> 'a \<times> nat) \<Rightarrow> 'b \<Rightarrow> bool" where
  "numbers ids s f y \<longleftrightarrow>
     (\<forall>k. k \<le> snd (f k) \<and> ids (fst (f k)) = [k..<snd (f k)] \<and> s (fst (f k)) = y)"

lemma numbersD:
  assumes "numbers ids s f y" and "f k = (x, k')"
  shows "k \<le> k'" "ids x = [k..<k']" "s x = y"
  using assms unfolding numbers_def by (metis fst_conv snd_conv)+

lemma upt_append: "i \<le> j \<Longrightarrow> j \<le> k \<Longrightarrow> [i..<j] @ [j..<k] = [i..<k]"
  by (metis le_add_diff_inverse upt_add_eq_append)

lemma numbers_thread:
  assumes "list_all2 (numbers ids s) fs ys"
  shows "numbers (\<lambda>xs. concat (map ids xs)) (map s) (thread fs) ys"
  using assms
proof (induction fs ys rule: list_all2_induct)
  case Nil
  then show ?case by (simp add: numbers_def)
next
  case (Cons f fs y ys)
  show ?case unfolding numbers_def
  proof (intro allI)
    fix k
    obtain x k1 where 1: "f k = (x, k1)" by force
    obtain xs k2 where 2: "thread fs k1 = (xs, k2)" by force
    from numbersD [OF Cons.hyps(1) 1] numbersD [OF Cons.IH 2]
    show "k \<le> snd (thread (f # fs) k) \<and>
        concat (map ids (fst (thread (f # fs) k))) = [k..<snd (thread (f # fs) k)] \<and>
        map s (fst (thread (f # fs) k)) = y # ys"
      by (simp add: 1 2 upt_append)
  qed
qed

lemma numbers_thread_opt:
  assumes "rel_option (numbers ids s) f y"
  shows "numbers (\<lambda>x. opt_list (map_option ids x)) (map_option s) (thread_opt f) y"
  using assms by (cases f; cases y) (auto simp: numbers_def case_prod_beta)

lemma numbers_label:
  assumes "numbers ids s f y"
  shows "numbers (\<lambda>p. ids (snd p)) (map_prod id s) (label (n, f)) (n, y)"
  using assms by (simp add: numbers_def label_def case_prod_beta Let_def)

lemma numbers_assign_param:
  assumes "numbers ids s f y"
  shows "numbers (\<lambda>(p, x). param_ids p @ ids x) (map_prod strip_pattern s) (assign_param (p, f))
    (strip_pattern p, y)"
  unfolding numbers_def
proof (intro allI)
  fix k
  obtain x k1 where 1: "f (Suc k) = (x, k1)" by force
  from numbersD [OF assms 1]
  show "k \<le> snd (assign_param (p, f) k) \<and>
      (case fst (assign_param (p, f) k) of (p, x) \<Rightarrow> param_ids p @ ids x) =
        [k..<snd (assign_param (p, f) k)] \<and>
      map_prod strip_pattern s (fst (assign_param (p, f) k)) = (strip_pattern p, y)"
    by (cases p) (simp add: assign_param_def 1 upt_conv_Cons)
qed

lemma numbers_iff:
  "numbers ids s f y \<longleftrightarrow>
     (\<forall>k a. a \<le> k \<longrightarrow> a \<le> snd (f k)) \<and> (\<forall>k. ids (fst (f k)) = [k..<snd (f k)])
     \<and> (\<forall>k. s (fst (f k)) = y)"
  unfolding numbers_def by (meson order_refl order_trans)

lemma numbers_thread_map:
  assumes "\<And>x. x \<in> set xs \<Longrightarrow> numbers ids s (f x) (s x)"
  shows "numbers (\<lambda>xs. concat (map ids xs)) (map s) (thread (map f xs)) (map s xs)"
  by (rule numbers_thread) (simp add: list_all2_map1 list_all2_map2 list_all2_same assms)

lemma numbers_thread_label:
  assumes "\<And>p x. p \<in> set xs \<Longrightarrow> x \<in> Basic_BNFs.snds p \<Longrightarrow> numbers ids s (f x) (s x)"
  shows "numbers (\<lambda>xs. concat (map snd (map (map_prod id ids) xs))) (map (map_prod id s))
    (thread (map label (map (map_prod id f) xs))) (map (map_prod id s) xs)"
proof -
  have "numbers (\<lambda>xs. concat (map (\<lambda>p. ids (snd p)) xs)) (map (map_prod id s))
      (thread (map label (map (map_prod id f) xs))) (map (map_prod id s) xs)"
    using assms
    by (intro numbers_thread)
      (auto simp: list_all2_map1 list_all2_map2 list_all2_same intro!: numbers_label)
  then show ?thesis by (simp add: comp_def)
qed

lemma numbers_thread_param:
  assumes "\<And>p x. p \<in> set xs \<Longrightarrow> x \<in> Basic_BNFs.snds p \<Longrightarrow> numbers ids s (f x) (s x)"
  shows "numbers (\<lambda>xs. concat (map (\<lambda>(p, x). param_ids p @ x) (map (map_prod id ids) xs)))
    (\<lambda>xs. map (map_prod strip_pattern id) (map (map_prod id s) xs))
    (thread (map assign_param (map (map_prod id f) xs)))
    (map (map_prod strip_pattern id) (map (map_prod id s) xs))"
proof -
  have "numbers (\<lambda>xs. concat (map (\<lambda>(p, x). param_ids p @ ids x) xs)) (map (map_prod strip_pattern s))
      (thread (map assign_param (map (map_prod id f) xs))) (map (map_prod strip_pattern s) xs)"
    using assms
    by (intro numbers_thread)
      (auto simp: list_all2_map1 list_all2_map2 list_all2_same intro!: numbers_assign_param)
  then show ?thesis by (simp add: comp_def case_prod_unfold map_prod_def)
qed

lemma numbers_thread_opt_map:
  assumes "\<And>x. x \<in> set_option o1 \<Longrightarrow> numbers ids s (f x) (s x)"
  shows "numbers (\<lambda>x. opt_list (map_option ids x)) (map_option s)
    (thread_opt (map_option f o1)) (map_option s o1)"
  using assms by (intro numbers_thread_opt) (cases o1; auto)

lemma upt_glue:
  "Suc k \<le> m \<Longrightarrow> k # [Suc k..<m] = [k..<m]"
  "Suc k \<le> m \<Longrightarrow> k # [Suc k..<m] @ zs = [k..<m] @ zs"
  "i \<le> j \<Longrightarrow> j \<le> k \<Longrightarrow> [i..<j] @ [j..<k] = [i..<k]"
  "i \<le> j \<Longrightarrow> j \<le> k \<Longrightarrow> [i..<j] @ [j..<k] @ zs = [i..<k] @ zs"
  by (simp_all add: upt_append upt_conv_Cons flip: append_assoc)

lemma assign_numbers:
  "numbers ids_type strip_type (assign_type t) (strip_type t)"
  "numbers ids_expr strip_expr (assign_expr e) (strip_expr e)"
  "numbers ids_stmt strip_stmt (assign_stmt st) (strip_stmt st)"
  "numbers ids_item strip_item (assign_item i) (strip_item i)"
proof (induct t and e and st and i)
  case CallExpr
  show ?case
    using CallExpr(1) numbers_thread_map [OF CallExpr(2)]
    by (simp add: numbers_iff case_prod_beta Let_def upt_glue)
next
  case StructExpr
  show ?case
    using StructExpr(1) numbers_thread_label [OF StructExpr(2)]
    by (simp add: numbers_iff case_prod_beta Let_def upt_glue)
next
  case BlockExpr
  show ?case
    using numbers_thread_map [OF BlockExpr(1)] numbers_thread_opt_map [OF BlockExpr(2)]
    by (simp add: numbers_iff case_prod_beta Let_def upt_glue)
next
  case IfExpr
  show ?case
    using IfExpr(1,2) numbers_thread_opt_map [OF IfExpr(3)]
    by (simp add: numbers_iff case_prod_beta Let_def upt_glue)
next
  case ReturnExpr
  show ?case
    using numbers_thread_opt_map [OF ReturnExpr]
    by (simp add: numbers_iff case_prod_beta Let_def upt_glue)
next
  case BreakExpr
  show ?case
    using numbers_thread_opt_map [OF BreakExpr]
    by (simp add: numbers_iff case_prod_beta Let_def upt_glue)
next
  case ArrayExpr
  show ?case
    using numbers_thread_map [OF ArrayExpr]
    by (simp add: numbers_iff case_prod_beta Let_def upt_glue)
next
  case (LetStmt x1 p t e)
  show ?case
    using LetStmt(1) numbers_thread_opt_map [OF LetStmt(2)]
    by (cases p) (simp add: numbers_iff case_prod_beta Let_def upt_glue)
next
  case FnItem
  show ?case
    using numbers_thread_param [OF FnItem(1)] numbers_thread_opt_map [OF FnItem(2)] FnItem(3)
    by (simp add: numbers_iff case_prod_beta Let_def upt_glue)
next
  case StructItem
  show ?case
    using numbers_thread_label [OF StructItem]
    by (simp add: numbers_iff case_prod_beta Let_def upt_glue)
next
  case ImplItem
  show ?case
    using numbers_thread_map [OF ImplItem]
    by (simp add: numbers_iff case_prod_beta Let_def upt_glue)
qed (simp add: numbers_iff case_prod_beta Let_def upt_glue)+

lemma parse_ids_numbers:
  "numbers (\<lambda>xs. concat (map ids_item xs)) (map strip_item) (thread (map assign_item items))
    (map strip_item items)"
  by (rule numbers_thread_map) (rule assign_numbers)

section \<open>Properties\<close>

text \<open>
  C11. After numbering, the ids of all nodes of all items, read in preorder, are the numbers
  from 0 on without a gap: every node has an id of its own, as the passes that key their
  maps by \<open>NodeId\<close> need. Nothing else of the tree changes.
\<close>

theorem assign_ids_consecutive:
  "\<exists>n. concat (map ids_item (assign_ids items)) = [0..<n]
     \<and> map strip_item (assign_ids items) = map strip_item items"
  using parse_ids_numbers [of items] unfolding numbers_def assign_ids_def by blast

end
