(* ===== verification/Parser.thy ===== *)
theory Parser
  imports LexerProps NodeIds
begin

section \<open>The parser\<close>

text \<open>
  \<open>src/parser/parser.cpp\<close>: a recursive-descent parser for types, items and statements and a
  Pratt parser for expressions, over the token cursor. A parsing function takes the cursor
  and returns a node with the advanced cursor, or an error.

  The recursion of the source goes through four functions: \<open>parse_expression\<close>,
  \<open>parse_type\<close>, \<open>parse_block_expression\<close> and \<open>parse_if_expression\<close>. The record
  \<open>parsers\<close> holds them, each C++ function is a definition over such a record, and
  \<open>parsers_upto\<close> ties the knot with a number of levels as fuel. Every call through the
  record happens after a token has been consumed, so more levels than tokens left are
  enough (\<open>ParserProps\<close>).

  New nodes carry the id 0 until \<open>assign_ids\<close> numbers them at the end of \<open>parse\<close> (the
  constructors of the source leave \<open>NodeId\<close> unset).
\<close>

type_synonym 'a parser = "lexer \<Rightarrow> ('a \<times> lexer) res"

record parsers =
  p_expression :: "int \<Rightarrow> expr parser"
  p_type :: "type_node parser"
  p_block :: "expr parser"
  p_if :: "expr parser"

subsection \<open>Sequencing\<close>

definition pret :: "'a \<Rightarrow> 'a parser" where
  "pret x lx = Inr (x, lx)"

definition plift :: "'a res \<Rightarrow> 'a parser" where
  "plift r lx = bindr r (\<lambda>x. Inr (x, lx))"

definition pthrow :: "string \<Rightarrow> 'a parser" where
  "pthrow m lx = Inl (Thrown m)"

definition pbind :: "'a parser \<Rightarrow> ('a \<Rightarrow> 'b parser) \<Rightarrow> 'b parser" where
  "pbind p k lx = bindr (p lx) (\<lambda>(x, lx'). k x lx')"

definition ppeek :: "token parser" where
  "ppeek lx = bindr (peek_token lx) (\<lambda>t. Inr (t, lx))"

text \<open>
  A \<open>while\<close> loop that consumes tokens: the body returns \<open>Inl s\<close> to go on with the loop
  variables \<open>s\<close> and \<open>Inr b\<close> to leave. A round that goes on without consuming a token would
  loop forever; here it is \<open>OutOfFuel\<close> (which no loop of the parser reaches, see
  \<open>parse_total\<close>).
\<close>

function loop_tokens :: "('s \<Rightarrow> ('s + 'b) parser) \<Rightarrow> 's \<Rightarrow> 'b parser" where
  "loop_tokens body s lx =
     bindr (body s lx) (\<lambda>(r, lx').
       case r of
         Inr b \<Rightarrow> Inr (b, lx')
       | Inl s' \<Rightarrow>
           if length (remaining lx') < length (remaining lx)
           then loop_tokens body s' lx' else Inl OutOfFuel)"
  by pat_completeness auto
termination
  by (relation "measure (\<lambda>(body, s, lx). length (remaining lx))") auto

declare loop_tokens.simps [simp del]

text \<open>
  The loop over elements separated by commas, up to a closing token that is not consumed
  and with an optional comma after the last element.
\<close>

definition comma_step :: "Token_type \<Rightarrow> 'a parser \<Rightarrow> 'a list \<Rightarrow> ('a list + 'a list) parser" where
  "comma_step close elem acc =
     pbind ppeek (\<lambda>t.
       if tk_type t = close then pret (Inr acc)
       else pbind elem (\<lambda>x. pbind ppeek (\<lambda>t2.
         if tk_type t2 = TK_COMMA then pbind consume_token (\<lambda>_. pret (Inl (acc @ [x])))
         else pret (Inr (acc @ [x])))))"

definition comma_list :: "Token_type \<Rightarrow> 'a parser \<Rightarrow> 'a list parser" where
  "comma_list close elem = loop_tokens (comma_step close elem) []"

subsection \<open>Binding powers\<close>

definition get_binding_power :: "Token_type \<Rightarrow> int \<times> int \<times> int" where
  "get_binding_power ty = (case ty of
      TK_LEFT_PARENTHESIS \<Rightarrow> (-1, 100, 100)
    | TK_DOT \<Rightarrow> (-1, 100, 100)
    | TK_LEFT_BRACKET \<Rightarrow> (-1, 100, 100)
    | TK_LEFT_BRACE \<Rightarrow> (-1, 100, 100)
    | TK_COLON_COLON \<Rightarrow> (-1, 100, 100)
    | TK_STAR \<Rightarrow> (90, 80, 80)
    | TK_AS \<Rightarrow> (-1, 85, 85)
    | TK_MINUS \<Rightarrow> (90, 70, 70)
    | TK_AMPERSAND \<Rightarrow> (90, 60, 60)
    | TK_BANG \<Rightarrow> (90, -1, -1)
    | TK_SLASH \<Rightarrow> (-1, 80, 80)
    | TK_PERCENT \<Rightarrow> (-1, 80, 80)
    | TK_PLUS \<Rightarrow> (-1, 70, 70)
    | TK_LEFT_SHIFT \<Rightarrow> (-1, 50, 50)
    | TK_RIGHT_SHIFT \<Rightarrow> (-1, 50, 50)
    | TK_CARET \<Rightarrow> (-1, 45, 45)
    | TK_PIPE \<Rightarrow> (-1, 40, 40)
    | TK_EQUAL_EQUAL \<Rightarrow> (-1, 35, 35)
    | TK_NOT_EQUAL \<Rightarrow> (-1, 35, 35)
    | TK_LESS \<Rightarrow> (-1, 35, 35)
    | TK_LESS_EQUAL \<Rightarrow> (-1, 35, 35)
    | TK_GREATER \<Rightarrow> (-1, 35, 35)
    | TK_GREATER_EQUAL \<Rightarrow> (-1, 35, 35)
    | TK_AMPERSAND_AMPERSAND \<Rightarrow> (-1, 30, 30)
    | TK_PIPE_PIPE \<Rightarrow> (-1, 25, 25)
    | TK_EQUAL \<Rightarrow> (-1, 20, 19)
    | TK_PLUS_EQUAL \<Rightarrow> (-1, 20, 19)
    | TK_MINUS_EQUAL \<Rightarrow> (-1, 20, 19)
    | TK_STAR_EQUAL \<Rightarrow> (-1, 20, 19)
    | TK_SLASH_EQUAL \<Rightarrow> (-1, 20, 19)
    | TK_PERCENT_EQUAL \<Rightarrow> (-1, 20, 19)
    | TK_CARET_EQUAL \<Rightarrow> (-1, 20, 19)
    | TK_AMPERSAND_EQUAL \<Rightarrow> (-1, 20, 19)
    | TK_PIPE_EQUAL \<Rightarrow> (-1, 20, 19)
    | TK_LEFT_SHIFT_EQUAL \<Rightarrow> (-1, 20, 19)
    | TK_RIGHT_SHIFT_EQUAL \<Rightarrow> (-1, 20, 19)
    | TK_RIGHT_BRACE \<Rightarrow> (-1, 0, -1)
    | TK_RIGHT_PARENTHESIS \<Rightarrow> (-1, 0, -1)
    | TK_RIGHT_BRACKET \<Rightarrow> (-1, 0, -1)
    | TK_COMMA \<Rightarrow> (-1, 0, -1)
    | TK_SEMICOLON \<Rightarrow> (-1, 0, -1)
    | _ \<Rightarrow> (-1, -1, -1))"

definition get_lbp :: "Token_type \<Rightarrow> int res" where
  "get_lbp ty =
     (let r = fst (snd (get_binding_power ty))
      in if r = -1
         then Inl (Thrown (''CE, unexpected token in infix expression: '' @ token_type_to_string ty))
         else Inr r)"

definition get_rbp :: "Token_type \<Rightarrow> int res" where
  "get_rbp ty =
     (let r = snd (snd (get_binding_power ty))
      in if r = -1
         then Inl (Thrown (''CE, unexpected token in infix expression: '' @ token_type_to_string ty))
         else Inr r)"

definition get_nbp :: "Token_type \<Rightarrow> int res" where
  "get_nbp ty =
     (let r = fst (get_binding_power ty)
      in if r = -1
         then Inl (Thrown (''CE, unexpected token in prefix expression: '' @ token_type_to_string ty))
         else Inr r)"

subsection \<open>Patterns and types\<close>

definition parse_ref :: "ReferenceType parser" where
  "parse_ref = pbind ppeek (\<lambda>t.
     if tk_type t = TK_AMPERSAND
     then pbind (consume_expect_token TK_AMPERSAND) (\<lambda>_. pret REF) else pret NO_REF)"

definition parse_pattern :: "pattern parser" where
  "parse_pattern =
     pbind parse_ref (\<lambda>r.
     pbind (pbind ppeek (\<lambda>t.
       if tk_type t = TK_MUT then pbind (consume_expect_token TK_MUT) (\<lambda>_. pret MUTABLE)
       else pret IMMUTABLE)) (\<lambda>m.
     pbind (consume_expect_token TK_IDENTIFIER) (\<lambda>t.
     pret (IdentifierPattern 0 (tk_value t) m r))))"

definition parse_type :: "parsers \<Rightarrow> type_node parser" where
  "parse_type P =
     pbind parse_ref (\<lambda>r0.
     pbind (pbind ppeek (\<lambda>t.
       if tk_type t = TK_MUT then
         pbind (consume_expect_token TK_MUT) (\<lambda>_.
           if r0 = NO_REF then plift (Inl (ThrownCStr ''CE, cannot have mut without & in type''))
           else pret REF_MUT)
       else pret r0)) (\<lambda>r.
     pbind ppeek (\<lambda>t.
       if tk_type t = TK_LEFT_BRACKET then
         pbind (consume_expect_token TK_LEFT_BRACKET) (\<lambda>_.
         pbind (p_type P) (\<lambda>elem.
         pbind (consume_expect_token TK_SEMICOLON) (\<lambda>_.
         pbind (p_expression P 0) (\<lambda>size.
         pbind (consume_expect_token TK_RIGHT_BRACKET) (\<lambda>_.
         pret (ArrayType 0 r elem size))))))
       else if tk_type t = TK_LEFT_PARENTHESIS then
         pbind (consume_expect_token TK_LEFT_PARENTHESIS) (\<lambda>_.
         pbind (consume_expect_token TK_RIGHT_PARENTHESIS) (\<lambda>_.
         pret (UnitType 0 r)))
       else if tk_type t = TK_BIG_SELF then
         pbind (consume_expect_token TK_BIG_SELF) (\<lambda>_. pret (SelfType 0 r))
       else
         pbind (consume_expect_token TK_IDENTIFIER) (\<lambda>t. pret (PathType 0 r (tk_value t))))))"

subsection \<open>Conditionals and loops\<close>

definition parse_if_expression :: "parsers \<Rightarrow> expr parser" where
  "parse_if_expression P =
     pbind (consume_expect_token TK_IF) (\<lambda>_.
     pbind (consume_expect_token TK_LEFT_PARENTHESIS) (\<lambda>_.
     pbind (p_expression P 0) (\<lambda>condition.
     pbind (consume_expect_token TK_RIGHT_PARENTHESIS) (\<lambda>_.
     pbind (p_block P) (\<lambda>then_branch.
     pbind (pbind ppeek (\<lambda>t.
       if tk_type t = TK_ELSE then
         pbind (consume_expect_token TK_ELSE) (\<lambda>_.
         pbind ppeek (\<lambda>t2.
         pbind (if tk_type t2 = TK_IF then p_if P else p_block P) (\<lambda>e. pret (Some e))))
       else pret None)) (\<lambda>else_branch.
     pret (IfExpr 0 condition then_branch else_branch False)))))))"

definition parse_while_expression :: "parsers \<Rightarrow> expr parser" where
  "parse_while_expression P =
     pbind (consume_expect_token TK_WHILE) (\<lambda>_.
     pbind (consume_expect_token TK_LEFT_PARENTHESIS) (\<lambda>_.
     pbind (p_expression P 0) (\<lambda>condition.
     pbind (consume_expect_token TK_RIGHT_PARENTHESIS) (\<lambda>_.
     pbind (p_block P) (\<lambda>body.
     pret (WhileExpr 0 condition body))))))"

definition parse_loop_expression :: "parsers \<Rightarrow> expr parser" where
  "parse_loop_expression P =
     pbind (consume_expect_token TK_LOOP) (\<lambda>_.
     pbind (p_block P) (\<lambda>body.
     pret (LoopExpr 0 body False)))"

subsection \<open>Items\<close>

definition receiver_separator :: "fn_reciever_type \<Rightarrow> fn_reciever_type parser" where
  "receiver_separator rc =
     pbind (consume_expect_token TK_SELF) (\<lambda>_.
     pbind ppeek (\<lambda>t.
       if tk_type t = TK_COMMA then pbind (consume_expect_token TK_COMMA) (\<lambda>_. pret rc)
       else if tk_type t \<noteq> TK_RIGHT_PARENTHESIS
       then pthrow (''PE, expected , or ) after self but got '' @ tk_value t)
       else pret rc))"

definition parse_receiver :: "fn_reciever_type parser" where
  "parse_receiver = pbind ppeek (\<lambda>t.
     if tk_type t = TK_SELF then receiver_separator RECV_SELF
     else if tk_type t = TK_AMPERSAND then
       pbind (consume_expect_token TK_AMPERSAND) (\<lambda>_.
       pbind ppeek (\<lambda>t2.
         if tk_type t2 = TK_MUT
         then pbind (consume_expect_token TK_MUT) (\<lambda>_. receiver_separator RECV_SELF_REF_MUT)
         else receiver_separator RECV_SELF_REF))
     else pret NO_RECEIVER)"

definition parse_param :: "parsers \<Rightarrow> (pattern \<times> type_node) parser" where
  "parse_param P =
     pbind parse_pattern (\<lambda>p.
     pbind (consume_expect_token TK_COLON) (\<lambda>_.
     pbind (p_type P) (\<lambda>t.
     pret (p, t))))"

definition parse_fn_item :: "parsers \<Rightarrow> item parser" where
  "parse_fn_item P =
     pbind (consume_expect_token TK_FN) (\<lambda>_.
     pbind (consume_expect_token TK_IDENTIFIER) (\<lambda>name.
     pbind (consume_expect_token TK_LEFT_PARENTHESIS) (\<lambda>_.
     pbind parse_receiver (\<lambda>receiver_type.
     pbind (comma_list TK_RIGHT_PARENTHESIS (parse_param P)) (\<lambda>parameters.
     pbind (consume_expect_token TK_RIGHT_PARENTHESIS) (\<lambda>_.
     pbind (pbind ppeek (\<lambda>t.
       if tk_type t = TK_ARROW then
         pbind (consume_expect_token TK_ARROW) (\<lambda>_.
         pbind (p_type P) (\<lambda>ty. pret (Some ty)))
       else pret None)) (\<lambda>return_type.
     pbind (p_block P) (\<lambda>body.
     pret (FnItem 0 (tk_value name) receiver_type parameters return_type body)))))))))"

definition parse_field :: "parsers \<Rightarrow> (string \<times> type_node) parser" where
  "parse_field P =
     pbind (consume_expect_token TK_IDENTIFIER) (\<lambda>name.
     pbind (consume_expect_token TK_COLON) (\<lambda>_.
     pbind (p_type P) (\<lambda>ty.
     pret (tk_value name, ty))))"

definition parse_struct_item :: "parsers \<Rightarrow> item parser" where
  "parse_struct_item P =
     pbind (consume_expect_token TK_STRUCT) (\<lambda>_.
     pbind (consume_expect_token TK_IDENTIFIER) (\<lambda>name.
     pbind (consume_expect_token TK_LEFT_BRACE) (\<lambda>_.
     pbind (comma_list TK_RIGHT_BRACE (parse_field P)) (\<lambda>fields.
     pbind (consume_expect_token TK_RIGHT_BRACE) (\<lambda>_.
     pret (StructItem 0 (tk_value name) fields))))))"

definition parse_enum_item :: "item parser" where
  "parse_enum_item =
     pbind (consume_expect_token TK_ENUM) (\<lambda>_.
     pbind (consume_expect_token TK_IDENTIFIER) (\<lambda>name.
     pbind (consume_expect_token TK_LEFT_BRACE) (\<lambda>_.
     pbind (comma_list TK_RIGHT_BRACE
       (pbind (consume_expect_token TK_IDENTIFIER) (\<lambda>v. pret (tk_value v)))) (\<lambda>variants.
     pbind (consume_expect_token TK_RIGHT_BRACE) (\<lambda>_.
     pret (EnumItem 0 (tk_value name) variants))))))"

definition impl_step :: "parsers \<Rightarrow> item list \<Rightarrow> (item list + item list) parser" where
  "impl_step P methods = pbind ppeek (\<lambda>t.
     if tk_type t \<noteq> TK_RIGHT_BRACE
     then pbind (parse_fn_item P) (\<lambda>m. pret (Inl (methods @ [m])))
     else pret (Inr methods))"

definition parse_impl_item :: "parsers \<Rightarrow> item parser" where
  "parse_impl_item P =
     pbind (consume_expect_token TK_IMPL) (\<lambda>_.
     pbind (consume_expect_token TK_IDENTIFIER) (\<lambda>name.
     pbind (consume_expect_token TK_LEFT_BRACE) (\<lambda>_.
     pbind (loop_tokens (impl_step P) []) (\<lambda>methods.
     pbind (consume_expect_token TK_RIGHT_BRACE) (\<lambda>_.
     pret (ImplItem 0 (tk_value name) methods))))))"

definition parse_const_item :: "parsers \<Rightarrow> item parser" where
  "parse_const_item P =
     pbind (consume_expect_token TK_CONST) (\<lambda>_.
     pbind (consume_expect_token TK_IDENTIFIER) (\<lambda>name.
     pbind (consume_expect_token TK_COLON) (\<lambda>_.
     pbind (p_type P) (\<lambda>ty.
     pbind (consume_expect_token TK_EQUAL) (\<lambda>_.
     pbind (p_expression P 0) (\<lambda>value.
     pbind (consume_expect_token TK_SEMICOLON) (\<lambda>_.
     pret (ConstItem 0 (tk_value name) ty value))))))))"

definition parse_item :: "parsers \<Rightarrow> item parser" where
  "parse_item P = pbind ppeek (\<lambda>t.
     if tk_type t = TK_FN then parse_fn_item P
     else if tk_type t = TK_STRUCT then parse_struct_item P
     else if tk_type t = TK_ENUM then parse_enum_item
     else if tk_type t = TK_IMPL then parse_impl_item P
     else if tk_type t = TK_CONST then parse_const_item P
     else pthrow (''CE, expected item but got '' @ tk_value t))"

subsection \<open>Statements and blocks\<close>

definition parse_let_statement :: "parsers \<Rightarrow> stmt parser" where
  "parse_let_statement P =
     pbind (consume_expect_token TK_LET) (\<lambda>_.
     pbind parse_pattern (\<lambda>p.
     pbind (consume_expect_token TK_COLON) (\<lambda>_.
     pbind (p_type P) (\<lambda>ty.
     pbind (pbind ppeek (\<lambda>t.
       if tk_type t = TK_EQUAL then
         pbind (consume_expect_token TK_EQUAL) (\<lambda>_.
         pbind (p_expression P 0) (\<lambda>e. pret (Some e)))
       else pret None)) (\<lambda>initializer.
     pbind (consume_expect_token TK_SEMICOLON) (\<lambda>_.
     pret (LetStmt 0 p ty initializer)))))))"

definition optional_semicolon :: "expr \<Rightarrow> stmt parser" where
  "optional_semicolon e = pbind ppeek (\<lambda>t.
     if tk_type t = TK_SEMICOLON
     then pbind (consume_expect_token TK_SEMICOLON) (\<lambda>_. pret (ExprStmt 0 e True))
     else pret (ExprStmt 0 e False))"

definition parse_expr_statement :: "parsers \<Rightarrow> stmt parser" where
  "parse_expr_statement P = pbind (p_expression P 0) optional_semicolon"

definition parse_item_statement :: "parsers \<Rightarrow> stmt parser" where
  "parse_item_statement P = pbind (parse_item P) (\<lambda>i. pret (ItemStmt 0 i))"

definition parse_statement :: "parsers \<Rightarrow> stmt parser" where
  "parse_statement P = pbind ppeek (\<lambda>t.
     if tk_type t = TK_LET then parse_let_statement P
     else if tk_type t \<in> {TK_FN, TK_STRUCT, TK_ENUM, TK_IMPL, TK_CONST}
     then parse_item_statement P
     else if tk_type t = TK_IF then pbind (p_if P) optional_semicolon
     else if tk_type t = TK_WHILE then pbind (parse_while_expression P) optional_semicolon
     else if tk_type t = TK_LOOP then pbind (parse_loop_expression P) optional_semicolon
     else if tk_type t = TK_LEFT_BRACE then pbind (p_block P) optional_semicolon
     else parse_expr_statement P)"

text \<open>
  A statement that turns out not to be the last one of its block although it has no
  semicolon: an \<open>if\<close>, \<open>loop\<close> or block is marked \<open>must_return_unit\<close> (the source does so
  through the shared pointer to the expression), a \<open>while\<close> is left, anything else is an
  error.
\<close>

definition mark_must_return_unit :: "stmt \<Rightarrow> stmt res" where
  "mark_must_return_unit st = (case st of
      ExprStmt k (IfExpr i c a b _) s \<Rightarrow> Inr (ExprStmt k (IfExpr i c a b True) s)
    | ExprStmt k (LoopExpr i b _) s \<Rightarrow> Inr (ExprStmt k (LoopExpr i b True) s)
    | ExprStmt k (WhileExpr i c b) s \<Rightarrow> Inr (ExprStmt k (WhileExpr i c b) s)
    | ExprStmt k (BlockExpr i ss t _) s \<Rightarrow> Inr (ExprStmt k (BlockExpr i ss t True) s)
    | _ \<Rightarrow> Inl (Thrown ''CE, unexpected statement after expression without semicolon''))"

record block_state =
  statements :: "stmt list"
  tail_statement :: "stmt option"
  tail_statement_has_semi :: bool

definition has_semi :: "stmt \<Rightarrow> bool" where
  "has_semi st = (case st of ExprStmt _ _ s \<Rightarrow> s | _ \<Rightarrow> True)"

definition push_tail :: "block_state \<Rightarrow> stmt list res" where
  "push_tail b = (case tail_statement b of
      None \<Rightarrow> Inr (statements b)
    | Some st \<Rightarrow>
        if tail_statement_has_semi b then Inr (statements b @ [st])
        else bindr (mark_must_return_unit st) (\<lambda>st'. Inr (statements b @ [st'])))"

definition block_step :: "parsers \<Rightarrow> block_state \<Rightarrow> (block_state + block_state) parser" where
  "block_step P b = pbind ppeek (\<lambda>t.
     if tk_type t = TK_RIGHT_BRACE then pret (Inr b)
     else if tk_type t = TK_SEMICOLON
     then pbind (consume_expect_token TK_SEMICOLON) (\<lambda>_. pret (Inl b))
     else
       pbind (parse_statement P) (\<lambda>st.
       pbind (plift (push_tail b)) (\<lambda>ss.
       pret (Inl \<lparr>statements = ss, tail_statement = Some st,
                  tail_statement_has_semi = has_semi st\<rparr>))))"

definition finish_block :: "block_state \<Rightarrow> expr" where
  "finish_block b =
     (if tail_statement_has_semi b
      then (case tail_statement b of
              Some st \<Rightarrow> BlockExpr 0 (statements b @ [st]) None False
            | None \<Rightarrow> BlockExpr 0 (statements b) None False)
      else BlockExpr 0 (statements b) (tail_statement b) False)"

definition parse_block_expression :: "parsers \<Rightarrow> expr parser" where
  "parse_block_expression P =
     pbind (consume_expect_token TK_LEFT_BRACE) (\<lambda>_.
     pbind (loop_tokens (block_step P)
       \<lparr>statements = [], tail_statement = None, tail_statement_has_semi = True\<rparr>) (\<lambda>b.
     pbind (consume_expect_token TK_RIGHT_BRACE) (\<lambda>_.
     pret (finish_block b))))"

subsection \<open>Expressions\<close>

definition parse_struct_fields :: "parsers \<Rightarrow> type_node \<Rightarrow> expr parser" where
  "parse_struct_fields P ty =
     pbind (consume_expect_token TK_LEFT_BRACE) (\<lambda>_.
     pbind (comma_list TK_RIGHT_BRACE
       (pbind (consume_expect_token TK_IDENTIFIER) (\<lambda>name.
        pbind (consume_expect_token TK_COLON) (\<lambda>_.
        pbind (p_expression P 0) (\<lambda>value.
        pret (tk_value name, value)))))) (\<lambda>fields.
     pbind (consume_expect_token TK_RIGHT_BRACE) (\<lambda>_.
     pret (StructExpr 0 ty fields))))"

definition parse_path_tail :: "type_node \<Rightarrow> expr parser" where
  "parse_path_tail ty =
     pbind (consume_expect_token TK_COLON_COLON) (\<lambda>_.
     pbind (consume_expect_token TK_IDENTIFIER) (\<lambda>segment.
     pret (PathExpr 0 ty (tk_value segment))))"

definition array_step :: "parsers \<Rightarrow> expr list \<Rightarrow> (expr list + expr list) parser" where
  "array_step P elements = pbind ppeek (\<lambda>t.
     if tk_type t = TK_COMMA then
       pbind (consume_expect_token TK_COMMA) (\<lambda>_.
       pbind ppeek (\<lambda>t2.
         if tk_type t2 = TK_RIGHT_BRACKET then pret (Inr elements)
         else pbind (p_expression P 0) (\<lambda>e. pret (Inl (elements @ [e])))))
     else pret (Inr elements))"

definition parse_array :: "parsers \<Rightarrow> expr parser" where
  "parse_array P =
     pbind (consume_expect_token TK_LEFT_BRACKET) (\<lambda>_.
     pbind ppeek (\<lambda>t.
       if tk_type t = TK_RIGHT_BRACKET
       then pbind (consume_expect_token TK_RIGHT_BRACKET) (\<lambda>_. pret (ArrayExpr 0 []))
       else
         pbind (p_expression P 0) (\<lambda>first.
         pbind ppeek (\<lambda>t2.
           if tk_type t2 = TK_SEMICOLON then
             pbind (consume_expect_token TK_SEMICOLON) (\<lambda>_.
             pbind (p_expression P 0) (\<lambda>size.
             pbind (consume_expect_token TK_RIGHT_BRACKET) (\<lambda>_.
             pret (RepeatArrayExpr 0 first size))))
           else
             pbind (loop_tokens (array_step P) [first]) (\<lambda>elements.
             pbind (consume_expect_token TK_RIGHT_BRACKET) (\<lambda>_.
             pret (ArrayExpr 0 elements)))))))"

definition parse_prefix :: "parsers \<Rightarrow> Token_type \<Rightarrow> Unary_Operator \<Rightarrow> expr parser" where
  "parse_prefix P ty op =
     pbind (plift (get_nbp ty)) (\<lambda>bp.
     pbind (p_expression P bp) (\<lambda>right.
     pret (UnaryExpr 0 op right)))"

text \<open>The optional value of \<open>break\<close> and \<open>return\<close>.\<close>

definition parse_jump_value :: "parsers \<Rightarrow> expr option parser" where
  "parse_jump_value P = pbind ppeek (\<lambda>t.
     if tk_type t \<noteq> TK_SEMICOLON \<and> tk_type t \<noteq> TK_RIGHT_BRACE
     then pbind (p_expression P 0) (\<lambda>e. pret (Some e)) else pret None)"

definition nud :: "parsers \<Rightarrow> token \<Rightarrow> expr parser" where
  "nud P t =
     (if tk_type t = TK_IF then parse_if_expression P
      else if tk_type t = TK_WHILE then parse_while_expression P
      else if tk_type t = TK_LOOP then parse_loop_expression P
      else if tk_type t = TK_LEFT_BRACE then parse_block_expression P
      else if tk_type t = TK_LEFT_PARENTHESIS then
        pbind (consume_expect_token TK_LEFT_PARENTHESIS) (\<lambda>_.
        pbind ppeek (\<lambda>t2.
          if tk_type t2 = TK_RIGHT_PARENTHESIS
          then pbind (consume_expect_token TK_RIGHT_PARENTHESIS) (\<lambda>_. pret (UnitExpr 0))
          else
            pbind (p_expression P 0) (\<lambda>e.
            pbind (consume_expect_token TK_RIGHT_PARENTHESIS) (\<lambda>_. pret e))))
      else if tk_type t = TK_LEFT_BRACKET then parse_array P
      else if tk_type t = TK_IDENTIFIER then
        pbind (consume_expect_token TK_IDENTIFIER) (\<lambda>_.
        pbind ppeek (\<lambda>t2.
          if tk_type t2 = TK_COLON_COLON then parse_path_tail (PathType 0 NO_REF (tk_value t))
          else if tk_type t2 = TK_LEFT_BRACE
          then parse_struct_fields P (PathType 0 NO_REF (tk_value t))
          else pret (IdentifierExpr 0 (tk_value t))))
      else if tk_type t = TK_BIG_SELF then
        pbind (consume_expect_token TK_BIG_SELF) (\<lambda>_.
        pbind ppeek (\<lambda>t2.
          if tk_type t2 = TK_COLON_COLON then parse_path_tail (SelfType 0 NO_REF)
          else if tk_type t2 = TK_LEFT_BRACE then parse_struct_fields P (SelfType 0 NO_REF)
          else pthrow (''CE in parser nud !!! unexpected token after Self: '' @ tk_value t2)))
      else if tk_type t = TK_SELF then
        pbind (consume_expect_token TK_SELF) (\<lambda>_. pret (SelfExpr 0))
      else if tk_type t = TK_NUMBER then
        pbind (consume_expect_token TK_NUMBER) (\<lambda>_. pret (LiteralExpr 0 LIT_NUMBER (tk_value t)))
      else if tk_type t = TK_TRUE \<or> tk_type t = TK_FALSE then
        pbind consume_token (\<lambda>_. pret (LiteralExpr 0 LIT_BOOL (tk_value t)))
      else if tk_type t = TK_STRING then
        pbind (consume_expect_token TK_STRING) (\<lambda>_. pret (LiteralExpr 0 LIT_STRING (tk_value t)))
      else if tk_type t = TK_CHAR then
        pbind (consume_expect_token TK_CHAR) (\<lambda>_. pret (LiteralExpr 0 LIT_CHAR (tk_value t)))
      else if tk_type t = TK_MINUS then
        pbind (consume_expect_token TK_MINUS) (\<lambda>_. parse_prefix P TK_MINUS UOP_NEG)
      else if tk_type t = TK_BANG then
        pbind (consume_expect_token TK_BANG) (\<lambda>_. parse_prefix P TK_BANG UOP_NOT)
      else if tk_type t = TK_AMPERSAND then
        pbind (consume_expect_token TK_AMPERSAND) (\<lambda>_.
        pbind ppeek (\<lambda>t2.
          if tk_type t2 = TK_MUT
          then pbind (consume_expect_token TK_MUT) (\<lambda>_. parse_prefix P TK_AMPERSAND UOP_REF_MUT)
          else parse_prefix P TK_AMPERSAND UOP_REF))
      else if tk_type t = TK_STAR then
        pbind (consume_expect_token TK_STAR) (\<lambda>_. parse_prefix P TK_STAR UOP_DEREF)
      else if tk_type t = TK_BREAK then
        pbind (consume_expect_token TK_BREAK) (\<lambda>_.
        pbind (parse_jump_value P) (\<lambda>v. pret (BreakExpr 0 v)))
      else if tk_type t = TK_RETURN then
        pbind (consume_expect_token TK_RETURN) (\<lambda>_.
        pbind (parse_jump_value P) (\<lambda>v. pret (ReturnExpr 0 v)))
      else if tk_type t = TK_CONTINUE then
        pbind (consume_expect_token TK_CONTINUE) (\<lambda>_. pret (ContinueExpr 0))
      else pthrow (''CE in parser nud !!! unexpected token in expression: '' @ tk_value t))"

text \<open>The binary operator that an infix token stands for.\<close>

definition infix_op :: "Token_type \<Rightarrow> Binary_Operator option" where
  "infix_op ty = (case ty of
      TK_PLUS \<Rightarrow> Some BOP_ADD
    | TK_MINUS \<Rightarrow> Some BOP_SUB
    | TK_STAR \<Rightarrow> Some BOP_MUL
    | TK_SLASH \<Rightarrow> Some BOP_DIV
    | TK_PERCENT \<Rightarrow> Some BOP_MOD
    | TK_AMPERSAND \<Rightarrow> Some BOP_AND
    | TK_PIPE \<Rightarrow> Some BOP_OR
    | TK_CARET \<Rightarrow> Some BOP_XOR
    | TK_LEFT_SHIFT \<Rightarrow> Some BOP_SHL
    | TK_RIGHT_SHIFT \<Rightarrow> Some BOP_SHR
    | TK_EQUAL_EQUAL \<Rightarrow> Some BOP_EQ
    | TK_NOT_EQUAL \<Rightarrow> Some BOP_NEQ
    | TK_LESS \<Rightarrow> Some BOP_LT
    | TK_LESS_EQUAL \<Rightarrow> Some BOP_LEQ
    | TK_GREATER \<Rightarrow> Some BOP_GT
    | TK_GREATER_EQUAL \<Rightarrow> Some BOP_GEQ
    | TK_AMPERSAND_AMPERSAND \<Rightarrow> Some BOP_AND_AND
    | TK_PIPE_PIPE \<Rightarrow> Some BOP_OR_OR
    | TK_EQUAL \<Rightarrow> Some BOP_ASSIGN
    | TK_PLUS_EQUAL \<Rightarrow> Some BOP_ADD_ASSIGN
    | TK_MINUS_EQUAL \<Rightarrow> Some BOP_SUB_ASSIGN
    | TK_STAR_EQUAL \<Rightarrow> Some BOP_MUL_ASSIGN
    | TK_SLASH_EQUAL \<Rightarrow> Some BOP_DIV_ASSIGN
    | TK_PERCENT_EQUAL \<Rightarrow> Some BOP_MOD_ASSIGN
    | TK_CARET_EQUAL \<Rightarrow> Some BOP_XOR_ASSIGN
    | TK_AMPERSAND_EQUAL \<Rightarrow> Some BOP_AND_ASSIGN
    | TK_PIPE_EQUAL \<Rightarrow> Some BOP_OR_ASSIGN
    | TK_LEFT_SHIFT_EQUAL \<Rightarrow> Some BOP_SHL_ASSIGN
    | TK_RIGHT_SHIFT_EQUAL \<Rightarrow> Some BOP_SHR_ASSIGN
    | _ \<Rightarrow> None)"

definition led :: "parsers \<Rightarrow> token \<Rightarrow> expr \<Rightarrow> expr parser" where
  "led P t left =
     (case infix_op (tk_type t) of
        Some op \<Rightarrow>
          pbind (plift (get_rbp (tk_type t))) (\<lambda>bp.
          pbind (p_expression P bp) (\<lambda>right.
          pret (BinaryExpr 0 op left right)))
      | None \<Rightarrow>
          if tk_type t = TK_LEFT_PARENTHESIS then
            pbind (comma_list TK_RIGHT_PARENTHESIS (p_expression P 0)) (\<lambda>arguments.
            pbind (consume_expect_token TK_RIGHT_PARENTHESIS) (\<lambda>_.
            pret (CallExpr 0 left arguments)))
          else if tk_type t = TK_DOT then
            pbind (consume_expect_token TK_IDENTIFIER) (\<lambda>f. pret (FieldExpr 0 left (tk_value f)))
          else if tk_type t = TK_LEFT_BRACKET then
            pbind (p_expression P 0) (\<lambda>index.
            pbind (consume_expect_token TK_RIGHT_BRACKET) (\<lambda>_.
            pret (IndexExpr 0 left index)))
          else if tk_type t = TK_AS then
            pbind (p_type P) (\<lambda>ty. pret (CastExpr 0 left ty))
          else pthrow (''CE in parser led !!! unexpected token in expression: '' @ tk_value t))"

definition pratt_step :: "parsers \<Rightarrow> int \<Rightarrow> expr \<Rightarrow> (expr + expr) parser" where
  "pratt_step P rbp left lx =
     (if has_more_tokens lx then
        pbind ppeek (\<lambda>t.
        pbind (plift (get_lbp (tk_type t))) (\<lambda>lbp.
          if rbp < lbp then
            pbind consume_token (\<lambda>t.
            pbind (led P t left) (\<lambda>left'. pret (Inl left')))
          else pret (Inr left))) lx
      else pret (Inr left) lx)"

definition parse_expression :: "parsers \<Rightarrow> int \<Rightarrow> expr parser" where
  "parse_expression P rbp =
     pbind ppeek (\<lambda>t. pbind (nud P t) (\<lambda>left. loop_tokens (pratt_step P rbp) left))"

subsection \<open>The whole parser\<close>

primrec parsers_upto :: "nat \<Rightarrow> parsers" where
  "parsers_upto 0 =
     \<lparr>p_expression = \<lambda>_ _. Inl OutOfFuel, p_type = \<lambda>_. Inl OutOfFuel,
      p_block = \<lambda>_. Inl OutOfFuel, p_if = \<lambda>_. Inl OutOfFuel\<rparr>"
| "parsers_upto (Suc n) =
     \<lparr>p_expression = parse_expression (parsers_upto n), p_type = parse_type (parsers_upto n),
      p_block = parse_block_expression (parsers_upto n), p_if = parse_if_expression (parsers_upto n)\<rparr>"

text \<open>For evaluation: each level of parsers is computed once.\<close>

lemma parsers_upto_code [code]:
  "parsers_upto 0 =
     \<lparr>p_expression = \<lambda>_ _. Inl OutOfFuel, p_type = \<lambda>_. Inl OutOfFuel,
      p_block = \<lambda>_. Inl OutOfFuel, p_if = \<lambda>_. Inl OutOfFuel\<rparr>"
  "parsers_upto (Suc n) =
     (let P = parsers_upto n
      in \<lparr>p_expression = parse_expression P, p_type = parse_type P,
          p_block = parse_block_expression P, p_if = parse_if_expression P\<rparr>)"
  by (simp_all add: Let_def)

definition items_step :: "parsers \<Rightarrow> item list \<Rightarrow> (item list + item list) parser" where
  "items_step P items lx =
     (if has_more_tokens lx then pbind (parse_item P) (\<lambda>i. pret (Inl (items @ [i]))) lx
      else pret (Inr items) lx)"

definition parse :: "lexer \<Rightarrow> item list res" where
  "parse lx =
     bindr (loop_tokens (items_step (parsers_upto (Suc (length (remaining lx))))) [] lx)
       (\<lambda>(items, _). Inr (assign_ids items))"

end
