(* ===== verification/ParserProps.thy ===== *)
theory ParserProps
  imports Parser
begin

section \<open>The parser always ends\<close>

text \<open>
  \<open>eats n S p\<close>: on at most \<open>n\<close> tokens the parsing function \<open>p\<close> ends with a result or a
  compile error (never out of fuel), gives no token back, and has consumed at least one when
  its result satisfies \<open>S\<close>. The rules below follow the structure of the definitions, so that
  every component is one application of them; the theorem of this part is that \<open>parse\<close>
  returns for every token sequence.
\<close>

definition compile_error :: "err \<Rightarrow> bool" where
  "compile_error e \<longleftrightarrow> (\<exists>m. e = Thrown m) \<or> (\<exists>m. e = ThrownCStr m)"

lemma compile_error_simps [simp]: "compile_error (Thrown m)" "compile_error (ThrownCStr m)"
  "\<not> compile_error OutOfFuel"
  by (auto simp: compile_error_def)

definition eats :: "nat \<Rightarrow> ('a \<Rightarrow> bool) \<Rightarrow> 'a parser \<Rightarrow> bool" where
  "eats n S p \<longleftrightarrow>
     (\<forall>lx. length (remaining lx) \<le> n \<longrightarrow>
       (case p lx of
          Inl e \<Rightarrow> compile_error e
        | Inr (x, lx') \<Rightarrow> length (remaining lx') \<le> length (remaining lx)
            \<and> (S x \<longrightarrow> length (remaining lx') < length (remaining lx))))"

abbreviation always :: "'a \<Rightarrow> bool" where "always \<equiv> (\<lambda>_. True)"
abbreviation never :: "'a \<Rightarrow> bool" where "never \<equiv> (\<lambda>_. False)"

lemma eatsD:
  assumes "eats n S p" "length (remaining lx) \<le> n" "p lx = Inr (x, lx')"
  shows "length (remaining lx') \<le> length (remaining lx)"
    and "S x \<Longrightarrow> length (remaining lx') < length (remaining lx)"
  using assms unfolding eats_def by force+

lemma eats_errorD:
  "eats n S p \<Longrightarrow> length (remaining lx) \<le> n \<Longrightarrow> p lx = Inl e \<Longrightarrow> compile_error e"
  unfolding eats_def by force

lemma eatsI:
  assumes "\<And>lx e. length (remaining lx) \<le> n \<Longrightarrow> p lx = Inl e \<Longrightarrow> compile_error e"
    and "\<And>lx x lx'. length (remaining lx) \<le> n \<Longrightarrow> p lx = Inr (x, lx') \<Longrightarrow>
      length (remaining lx') \<le> length (remaining lx)
        \<and> (S x \<longrightarrow> length (remaining lx') < length (remaining lx))"
  shows "eats n S p"
  unfolding eats_def using assms by (auto split: sum.split)

lemma eats_weaken: "eats n always p \<Longrightarrow> eats n S p"
  by (rule eatsI) (auto dest: eats_errorD eatsD)

lemma eats_never: "eats n S p \<Longrightarrow> eats n never p"
  by (rule eatsI) (auto dest: eats_errorD eatsD)

lemma eats_pret: "\<not> S x \<Longrightarrow> eats n S (pret x)"
  by (rule eatsI) (auto simp: pret_def)

lemma eats_pthrow: "eats n S (pthrow m)"
  by (rule eatsI) (auto simp: pthrow_def)

lemma eats_plift: "(\<And>e. r = Inl e \<Longrightarrow> compile_error e) \<Longrightarrow> eats n never (plift r)"
  by (rule eatsI) (auto simp: plift_def res_simps)

lemma eats_consume: "eats n always consume_token"
  by (rule eatsI) (auto dest: cursor.consume_InlD cursor.consume_InrD)

lemma eats_expect: "eats n always (consume_expect_token ty)"
  by (rule eatsI) (auto dest: consume_expect_InlD consume_expect_InrD)

lemma eats_ppeek: "eats n never ppeek"
  by (rule eatsI) (auto simp: ppeek_def res_simps dest: cursor.peek_InlD)

text \<open>
  Sequencing. The second part runs on fewer tokens when the first has consumed one, and
  one of the two has to consume a token where the whole must.
\<close>

lemma eats_bind:
  assumes p: "eats n T p" and k: "\<And>x. eats m U (k x)"
    and bound: "n \<le> m \<or> n \<le> Suc m \<and> T = always" and strict: "T = always \<or> U = S"
  shows "eats n S (pbind p k)"
proof -
  have step: "length (remaining lx') \<le> m"
    if "length (remaining lx) \<le> n" "p lx = Inr (x, lx')" for lx lx' x
    using bound eatsD [OF p that] that(1) by auto
  show ?thesis
  proof (rule eatsI)
    fix lx e
    assume len: "length (remaining lx) \<le> n" and "pbind p k lx = Inl e"
    then show "compile_error e"
      using eats_errorD [OF p len] eats_errorD [OF k step [OF len]]
      by (auto simp: pbind_def res_simps)
  next
    fix lx y lx''
    assume len: "length (remaining lx) \<le> n" and "pbind p k lx = Inr (y, lx'')"
    then obtain x lx' where 1: "p lx = Inr (x, lx')" and 2: "k x lx' = Inr (y, lx'')"
      by (auto simp: pbind_def res_simps)
    from eatsD [OF p len 1] eatsD [OF k step [OF len 1] 2] strict
    show "length (remaining lx'') \<le> length (remaining lx)
        \<and> (S y \<longrightarrow> length (remaining lx'') < length (remaining lx))" by auto
  qed
qed

lemma eats_bind_strict:
  "eats (Suc n) always p \<Longrightarrow> (\<And>x. eats n never (k x)) \<Longrightarrow> eats (Suc n) S (pbind p k)"
  by (rule eats_bind) auto

lemma eats_bind_here:
  "eats n always p \<Longrightarrow> (\<And>x. eats n never (k x)) \<Longrightarrow> eats n S (pbind p k)"
  by (rule eats_bind) auto

lemma eats_bind_lazy:
  "eats n never p \<Longrightarrow> (\<And>x. eats n S (k x)) \<Longrightarrow> eats n S (pbind p k)"
  by (rule eats_bind) auto

lemma eats_if: "(b \<Longrightarrow> eats n S p) \<Longrightarrow> (\<not> b \<Longrightarrow> eats n S q) \<Longrightarrow> eats n S (if b then p else q)"
  by simp

lemma eats_loop_aux:
  assumes "\<And>s. eats n isl (body s)" and "length (remaining lx) \<le> n"
  shows "case loop_tokens body s lx of Inl e \<Rightarrow> compile_error e
      | Inr (x, lx') \<Rightarrow> length (remaining lx') \<le> length (remaining lx)"
  using assms
proof (induction body s lx rule: loop_tokens.induct)
  case (1 body s lx)
  show ?case
  proof (cases "body s lx")
    case (Inl e)
    with eats_errorD [OF "1.prems"] show ?thesis by (simp add: loop_tokens.simps)
  next
    case (Inr r)
    then obtain x lx' where r: "body s lx = Inr (x, lx')" by (cases r) auto
    note shrink = eatsD [OF "1.prems" r]
    show ?thesis
    proof (cases x)
      case (Inl s')
      with shrink have lt: "length (remaining lx') < length (remaining lx)" by simp
      from "1.IH" [OF r refl Inl lt "1.prems"(1)] lt "1.prems"(2) show ?thesis
        by (simp add: loop_tokens.simps [of body s lx] r Inl split: sum.splits prod.splits)
    next
      case (Inr y)
      with shrink show ?thesis by (simp add: loop_tokens.simps [of body s lx] r)
    qed
  qed
qed

lemma eats_loop:
  assumes "\<And>s. eats n isl (body s)"
  shows "eats n never (loop_tokens body s)"
proof -
  have "\<forall>lx. length (remaining lx) \<le> n \<longrightarrow>
      (case loop_tokens body s lx of Inl e \<Rightarrow> compile_error e
       | Inr (x, lx') \<Rightarrow> length (remaining lx') \<le> length (remaining lx))"
    by (intro allI impI eats_loop_aux [where n = n] assms)
  then show ?thesis by (simp add: eats_def cong: sum.case_cong prod.case_cong)
qed

text \<open>The rules for a part that may but need not consume tokens.\<close>

lemma eats_bind_never:
  "eats n never p \<Longrightarrow> (\<And>x. eats n never (k x)) \<Longrightarrow> eats n never (pbind p k)"
  by (rule eats_bind_lazy)

lemma eats_pret_never: "eats n never (pret x)"
  by (rule eats_pret) simp

lemmas eats_consume_never = eats_consume [THEN eats_never]
lemmas eats_expect_never = eats_expect [THEN eats_never]

lemmas eats_nevers = eats_bind_never eats_if eats_pret_never eats_pthrow eats_ppeek
  eats_consume_never eats_expect_never

text \<open>A part that begins by looking at the next token, or by consuming one.\<close>

lemma eats_peek_then: "(\<And>t. eats n S (k t)) \<Longrightarrow> eats n S (pbind ppeek k)"
  by (rule eats_bind_lazy [OF eats_ppeek])

lemma eats_expect_then:
  "(\<And>t. eats n never (k t)) \<Longrightarrow> eats (Suc n) S (pbind (consume_expect_token ty) k)"
  by (rule eats_bind_strict [OF eats_expect])

lemma eats_consume_then:
  "(\<And>t. eats n never (k t)) \<Longrightarrow> eats (Suc n) S (pbind consume_token k)"
  by (rule eats_bind_strict [OF eats_consume])

lemma eats_expect_here:
  "(\<And>t. eats n never (k t)) \<Longrightarrow> eats n S (pbind (consume_expect_token ty) k)"
  by (rule eats_bind_here [OF eats_expect])

lemma eats_comma_list:
  assumes "eats n always elem"
  shows "eats n never (comma_list close elem)"
  unfolding comma_list_def comma_step_def
  by (intro eats_loop eats_peek_then eats_if eats_bind_here [OF assms]) 
    (auto intro!: eats_pret eats_nevers)

subsection \<open>Binding powers\<close>

lemma binding_error [simp]:
  "get_lbp ty = Inl e \<Longrightarrow> compile_error e" "get_rbp ty = Inl e \<Longrightarrow> compile_error e"
  "get_nbp ty = Inl e \<Longrightarrow> compile_error e"
  by (auto simp: get_lbp_def get_rbp_def get_nbp_def Let_def split: if_split_asm)

lemma eats_binding:
  "eats n never (plift (get_lbp ty))" "eats n never (plift (get_rbp ty))"
  "eats n never (plift (get_nbp ty))"
  by (auto intro!: eats_plift)

subsection \<open>One level of the recursion\<close>

definition good :: "nat \<Rightarrow> parsers \<Rightarrow> bool" where
  "good n P \<longleftrightarrow>
     (\<forall>bp. eats n always (p_expression P bp)) \<and> eats n always (p_type P)
     \<and> eats n always (p_block P) \<and> eats n always (p_if P)"

lemma good_strict:
  assumes "good n P"
  shows "eats n always (p_expression P bp)" "eats n always (p_type P)"
    "eats n always (p_block P)" "eats n always (p_if P)"
  using assms by (simp_all add: good_def)

lemmas good_never = good_strict [THEN eats_never]

lemma eats_parse_ref: "eats n never parse_ref"
  unfolding parse_ref_def by (intro eats_nevers)

lemma eats_parse_pattern: "eats n always parse_pattern"
  unfolding parse_pattern_def
  by (intro eats_bind_lazy [OF eats_parse_ref] eats_bind_lazy [where p = "pbind ppeek _"]
      eats_expect_here eats_nevers)

lemma eats_parse_type:
  assumes "good n P"
  shows "eats (Suc n) always (parse_type P)"
  unfolding parse_type_def
  by (intro eats_bind_lazy [OF eats_parse_ref] eats_bind_lazy [where p = "pbind ppeek _"]
      eats_peek_then eats_expect_then eats_if eats_nevers eats_plift good_never [OF assms]) auto

lemma eats_parse_if:
  assumes "good n P"
  shows "eats (Suc n) always (parse_if_expression P)"
  unfolding parse_if_expression_def
  by (intro eats_expect_then eats_nevers good_never [OF assms])

lemma eats_parse_while:
  assumes "good n P"
  shows "eats (Suc n) always (parse_while_expression P)"
  unfolding parse_while_expression_def
  by (intro eats_expect_then eats_nevers good_never [OF assms])

lemma eats_parse_loop:
  assumes "good n P"
  shows "eats (Suc n) always (parse_loop_expression P)"
  unfolding parse_loop_expression_def
  by (intro eats_expect_then eats_nevers good_never [OF assms])

lemma eats_parse_receiver: "eats n never parse_receiver"
  unfolding parse_receiver_def receiver_separator_def
  by (intro eats_nevers)

lemma eats_parse_param:
  assumes "good n P"
  shows "eats n always (parse_param P)"
  unfolding parse_param_def
  by (intro eats_bind_here [OF eats_parse_pattern] eats_nevers good_never [OF assms])

lemma eats_parse_fn:
  assumes "good n P"
  shows "eats (Suc n) always (parse_fn_item P)"
  unfolding parse_fn_item_def
  by (intro eats_expect_then eats_nevers eats_parse_receiver
      eats_comma_list eats_parse_param good_never [OF assms] assms)

lemma eats_parse_field:
  assumes "good n P"
  shows "eats n always (parse_field P)"
  unfolding parse_field_def
  by (intro eats_expect_here eats_nevers good_never [OF assms])

lemma eats_parse_struct:
  assumes "good n P"
  shows "eats (Suc n) always (parse_struct_item P)"
  unfolding parse_struct_item_def
  by (intro eats_expect_then eats_nevers eats_comma_list eats_parse_field assms)

lemma eats_parse_enum: "eats (Suc n) always parse_enum_item"
  unfolding parse_enum_item_def
  by (intro eats_expect_then eats_nevers eats_comma_list eats_expect_here)

lemma eats_weaker_bound: "eats m S p \<Longrightarrow> n \<le> m \<Longrightarrow> eats n S p"
  unfolding eats_def by (meson order_trans)

lemma eats_impl_step:
  assumes "good n P"
  shows "eats n isl (impl_step P methods)"
  unfolding impl_step_def
  by (intro eats_peek_then eats_if
      eats_bind_here [OF eats_weaker_bound [OF eats_parse_fn [OF assms]]] eats_nevers eats_pret) auto

lemma eats_parse_impl:
  assumes "good n P"
  shows "eats (Suc n) always (parse_impl_item P)"
  unfolding parse_impl_item_def
  by (intro eats_expect_then eats_nevers eats_loop eats_impl_step assms)

lemma eats_parse_const:
  assumes "good n P"
  shows "eats (Suc n) always (parse_const_item P)"
  unfolding parse_const_item_def
  by (intro eats_expect_then eats_nevers good_never [OF assms])

lemma eats_parse_item:
  assumes "good n P"
  shows "eats (Suc n) always (parse_item P)"
  unfolding parse_item_def
  by (intro eats_peek_then eats_if eats_pthrow eats_parse_fn eats_parse_struct eats_parse_enum
      eats_parse_impl eats_parse_const assms)

lemma eats_optional_semicolon: "eats n never (optional_semicolon e)"
  unfolding optional_semicolon_def by (intro eats_nevers)

lemma eats_parse_let:
  assumes "good n P"
  shows "eats (Suc n) always (parse_let_statement P)"
  unfolding parse_let_statement_def
  by (intro eats_expect_then eats_nevers eats_never [OF eats_parse_pattern] good_never [OF assms])

lemma eats_parse_statement:
  assumes "good n P"
  shows "eats n always (parse_statement P)"
  unfolding parse_statement_def parse_item_statement_def parse_expr_statement_def
  by (intro eats_peek_then eats_if eats_bind_here eats_optional_semicolon eats_pret_never
      good_strict [OF assms]
      eats_weaker_bound [OF eats_parse_let [OF assms]]
      eats_weaker_bound [OF eats_parse_item [OF assms]]
      eats_weaker_bound [OF eats_parse_while [OF assms]]
      eats_weaker_bound [OF eats_parse_loop [OF assms]]) auto

lemma push_tail_error: "push_tail b = Inl e \<Longrightarrow> compile_error e"
  by (auto simp: push_tail_def mark_must_return_unit_def res_simps
      split: option.splits if_split_asm stmt.splits expr.splits)

lemma eats_block_step:
  assumes "good n P"
  shows "eats n isl (block_step P b)"
  unfolding block_step_def
  by (intro eats_peek_then eats_if eats_expect_here eats_bind_here [OF eats_parse_statement [OF assms]]
      eats_nevers eats_pret eats_plift push_tail_error) auto

lemma eats_parse_block:
  assumes "good n P"
  shows "eats (Suc n) always (parse_block_expression P)"
  unfolding parse_block_expression_def
  by (intro eats_expect_then eats_nevers eats_loop eats_block_step assms)

lemma eats_struct_fields:
  assumes "good n P"
  shows "eats n S (parse_struct_fields P ty)"
  unfolding parse_struct_fields_def
  by (intro eats_expect_here eats_nevers eats_comma_list good_never [OF assms])

lemma eats_path_tail: "eats n S (parse_path_tail ty)"
  unfolding parse_path_tail_def by (intro eats_expect_here eats_nevers)

lemma eats_array_step:
  assumes "good n P"
  shows "eats n isl (array_step P es)"
  unfolding array_step_def
  by (intro eats_peek_then eats_if eats_expect_here eats_nevers eats_pret good_never [OF assms]) auto

lemma eats_parse_array:
  assumes "good n P"
  shows "eats (Suc n) always (parse_array P)"
  unfolding parse_array_def
  by (intro eats_expect_then eats_nevers eats_loop eats_array_step good_never [OF assms] assms)

lemma eats_parse_prefix:
  assumes "good n P"
  shows "eats n never (parse_prefix P ty op)"
  unfolding parse_prefix_def
  by (intro eats_nevers eats_binding good_never [OF assms])

lemma eats_jump_value:
  assumes "good n P"
  shows "eats n never (parse_jump_value P)"
  unfolding parse_jump_value_def
  by (intro eats_nevers good_never [OF assms])

lemma eats_nud:
  assumes "good n P"
  shows "eats (Suc n) always (nud P t)"
  unfolding nud_def
  by (intro eats_if eats_parse_if eats_parse_while eats_parse_loop eats_parse_block eats_parse_array
      eats_expect_then eats_consume_then eats_nevers eats_struct_fields eats_path_tail
      eats_parse_prefix eats_jump_value good_never [OF assms] assms)

lemma eats_led:
  assumes "good n P"
  shows "eats n never (led P t left)"
  unfolding led_def
  by (cases "infix_op (tk_type t)")
    (auto intro!: eats_nevers eats_binding eats_comma_list good_strict [OF assms] good_never [OF assms])

lemma eats_when_more:
  "eats n S p \<Longrightarrow> eats n S q \<Longrightarrow> eats n S (\<lambda>lx. if has_more_tokens lx then p lx else q lx)"
  unfolding eats_def by auto

lemma eats_pratt_step:
  assumes "good n P"
  shows "eats (Suc n) isl (pratt_step P bp left)"
  unfolding pratt_step_def
  by (intro eats_when_more eats_peek_then eats_bind_lazy [OF eats_binding(1)] eats_if
      eats_consume_then eats_nevers eats_led assms eats_pret) auto

lemma eats_parse_expression:
  assumes "good n P"
  shows "eats (Suc n) always (parse_expression P bp)"
  unfolding parse_expression_def
  by (intro eats_peek_then eats_bind_here eats_nud eats_loop eats_pratt_step assms)

text \<open>Without tokens all four fail before they call another function.\<close>

lemma pbind_empty:
  "\<exists>m. p lx = Inl (Thrown m) \<Longrightarrow> \<exists>m. pbind p k lx = Inl (Thrown m)"
  by (auto simp: pbind_def)

lemma empty_fails:
  assumes "remaining lx = []"
  shows "\<exists>m. ppeek lx = Inl (Thrown m)" "\<exists>m. consume_expect_token ty lx = Inl (Thrown m)"
  using cursor.peek_empty [OF assms] cursor.consume_empty [OF assms]
  by (auto simp: ppeek_def consume_expect_token_def)

lemma eats_empty:
  assumes "\<And>lx. remaining lx = [] \<Longrightarrow> \<exists>m. p lx = Inl (Thrown m)"
  shows "eats 0 S p"
  by (rule eatsI) (use assms in force)+

lemma good_parsers: "good n (parsers_upto (Suc n))"
proof (induction n)
  case 0
  show ?case
    by (auto simp: good_def parse_expression_def parse_type_def parse_ref_def
        parse_block_expression_def parse_if_expression_def
        intro!: eats_empty pbind_empty empty_fails)
next
  case (Suc n)
  then show ?case
    unfolding good_def [of "Suc n"] parsers_upto.simps(2) [of "Suc n"]
    by (simp add: eats_parse_expression eats_parse_type eats_parse_block eats_parse_if)
qed

lemma eats_items:
  assumes "good n P"
  shows "eats n never (loop_tokens (items_step P) items)"
  unfolding items_step_def
  by (intro eats_loop eats_when_more eats_bind_here
      eats_weaker_bound [OF eats_parse_item [OF assms]] eats_pret_never eats_pret) auto

lemma parse_errors: "parse lx = Inl e \<Longrightarrow> compile_error e"
proof -
  assume "parse lx = Inl e"
  then have "loop_tokens (items_step (parsers_upto (Suc (length (remaining lx))))) [] lx = Inl e"
    by (auto simp: parse_def res_simps)
  from eats_errorD [OF eats_items [OF good_parsers] _ this] show ?thesis by simp
qed

section \<open>Properties\<close>

text \<open>
  C8. The parser is total: for every token sequence and every position of the cursor it
  returns the numbered items or throws a compile error. It never runs out of fuel, so the
  recursion of the source ends, and no other failure is possible.
\<close>

theorem parse_total:
  "(\<exists>items. parse lx = Inr items) \<or> (\<exists>m. parse lx = Inl (Thrown m))
     \<or> (\<exists>m. parse lx = Inl (ThrownCStr m))"
proof (cases "parse lx")
  case (Inl e)
  from parse_errors [OF this] Inl show ?thesis by (auto simp: compile_error_def)
qed auto

text \<open>
  C39. Each of the four recursive parsing functions, given as many levels as there are
  tokens left, ends without running out of fuel and, when it succeeds, has consumed at
  least one token.
\<close>

theorem parsing_functions_progress:
  "eats n always (parse_expression (parsers_upto n) bp)
     \<and> eats n always (parse_type (parsers_upto n))
     \<and> eats n always (parse_block_expression (parsers_upto n))
     \<and> eats n always (parse_if_expression (parsers_upto n))"
  using good_strict [OF good_parsers [of n]] by simp_all

end
