(* ===== verification/ExprPrint.thy ===== *)
theory ExprPrint
  imports ParserProps
begin

section \<open>Printing expressions with as few parentheses as the binding powers allow\<close>

text \<open>
  The specification that the Pratt parser is checked against: expressions and types are
  printed as tokens, an operand in parentheses only where the binding powers ask for it.
  \<open>level e\<close> is the left binding power that the outermost operator of \<open>e\<close> needs to be
  reached, \<open>edge e\<close> the power at which the right end of \<open>e\<close> is still open.
\<close>

primrec op_token :: "Binary_Operator \<Rightarrow> Token_type" where
  "op_token BOP_ADD = TK_PLUS"
| "op_token BOP_SUB = TK_MINUS"
| "op_token BOP_MUL = TK_STAR"
| "op_token BOP_DIV = TK_SLASH"
| "op_token BOP_MOD = TK_PERCENT"
| "op_token BOP_AND = TK_AMPERSAND"
| "op_token BOP_OR = TK_PIPE"
| "op_token BOP_XOR = TK_CARET"
| "op_token BOP_AND_AND = TK_AMPERSAND_AMPERSAND"
| "op_token BOP_OR_OR = TK_PIPE_PIPE"
| "op_token BOP_EQ = TK_EQUAL_EQUAL"
| "op_token BOP_NEQ = TK_NOT_EQUAL"
| "op_token BOP_LT = TK_LESS"
| "op_token BOP_GT = TK_GREATER"
| "op_token BOP_LEQ = TK_LESS_EQUAL"
| "op_token BOP_GEQ = TK_GREATER_EQUAL"
| "op_token BOP_SHL = TK_LEFT_SHIFT"
| "op_token BOP_SHR = TK_RIGHT_SHIFT"
| "op_token BOP_ASSIGN = TK_EQUAL"
| "op_token BOP_ADD_ASSIGN = TK_PLUS_EQUAL"
| "op_token BOP_SUB_ASSIGN = TK_MINUS_EQUAL"
| "op_token BOP_MUL_ASSIGN = TK_STAR_EQUAL"
| "op_token BOP_DIV_ASSIGN = TK_SLASH_EQUAL"
| "op_token BOP_MOD_ASSIGN = TK_PERCENT_EQUAL"
| "op_token BOP_AND_ASSIGN = TK_AMPERSAND_EQUAL"
| "op_token BOP_OR_ASSIGN = TK_PIPE_EQUAL"
| "op_token BOP_XOR_ASSIGN = TK_CARET_EQUAL"
| "op_token BOP_SHL_ASSIGN = TK_LEFT_SHIFT_EQUAL"
| "op_token BOP_SHR_ASSIGN = TK_RIGHT_SHIFT_EQUAL"

definition lbp_of :: "Binary_Operator \<Rightarrow> int" where
  "lbp_of op = fst (snd (get_binding_power (op_token op)))"

definition rbp_of :: "Binary_Operator \<Rightarrow> int" where
  "rbp_of op = snd (snd (get_binding_power (op_token op)))"

lemma infix_op_token [simp]: "infix_op (op_token op) = Some op"
  by (cases op) (simp_all add: infix_op_def)

lemma get_lbp_op [simp]: "get_lbp (op_token op) = Inr (lbp_of op)"
  by (cases op) (simp_all add: get_lbp_def lbp_of_def get_binding_power_def)

lemma get_rbp_op [simp]: "get_rbp (op_token op) = Inr (rbp_of op)"
  by (cases op) (simp_all add: get_rbp_def rbp_of_def get_binding_power_def)

lemma op_powers: "20 \<le> lbp_of op \<and> lbp_of op \<le> 80 \<and> 19 \<le> rbp_of op \<and> rbp_of op \<le> lbp_of op
    \<and> lbp_of op \<le> rbp_of op + 1"
  by (cases op) (simp_all add: lbp_of_def rbp_of_def get_binding_power_def)

lemma op_token_ordinary [simp]: "op_token op \<noteq> TK_COLON_COLON" "op_token op \<noteq> TK_LEFT_BRACE"
  by (cases op; simp)+

definition level :: "expr \<Rightarrow> int" where
  "level e = (case e of
      BinaryExpr _ op _ _ \<Rightarrow> lbp_of op
    | CallExpr _ _ _ \<Rightarrow> 100
    | FieldExpr _ _ _ \<Rightarrow> 100
    | IndexExpr _ _ _ \<Rightarrow> 100
    | CastExpr _ _ _ \<Rightarrow> 85
    | _ \<Rightarrow> 1000)"

definition edge :: "expr \<Rightarrow> int" where
  "edge e = (case e of
      BinaryExpr _ op _ _ \<Rightarrow> rbp_of op
    | UnaryExpr _ _ _ \<Rightarrow> 90
    | _ \<Rightarrow> 1000)"

abbreviation lparen :: token where "lparen \<equiv> mk_token TK_LEFT_PARENTHESIS ''(''"
abbreviation rparen :: token where "rparen \<equiv> mk_token TK_RIGHT_PARENTHESIS '')''"
abbreviation lbracket :: token where "lbracket \<equiv> mk_token TK_LEFT_BRACKET ''[''"
abbreviation rbracket :: token where "rbracket \<equiv> mk_token TK_RIGHT_BRACKET '']''"
abbreviation lbrace :: token where "lbrace \<equiv> mk_token TK_LEFT_BRACE ''{''"
abbreviation rbrace :: token where "rbrace \<equiv> mk_token TK_RIGHT_BRACE ''}''"
abbreviation comma :: token where "comma \<equiv> mk_token TK_COMMA '',''"
abbreviation semicolon :: token where "semicolon \<equiv> mk_token TK_SEMICOLON '';''"
abbreviation ident :: "string \<Rightarrow> token" where "ident n \<equiv> mk_token TK_IDENTIFIER n"

definition wrap :: "bool \<Rightarrow> token list \<Rightarrow> token list" where
  "wrap b ts = (if b then ts else lparen # ts @ [rparen])"

fun comma_sep :: "token list list \<Rightarrow> token list" where
  "comma_sep [] = []"
| "comma_sep [ts] = ts"
| "comma_sep (ts # tss) = ts @ comma # comma_sep tss"

primrec unary_tokens :: "Unary_Operator \<Rightarrow> token list" where
  "unary_tokens UOP_NEG = [mk_token TK_MINUS ''-'']"
| "unary_tokens UOP_NOT = [mk_token TK_BANG ''!'']"
| "unary_tokens UOP_REF = [mk_token TK_AMPERSAND ''&'']"
| "unary_tokens UOP_REF_MUT = [mk_token TK_AMPERSAND ''&'', mk_token TK_MUT ''mut'']"
| "unary_tokens UOP_DEREF = [mk_token TK_STAR ''*'']"

primrec ref_tokens :: "ReferenceType \<Rightarrow> token list" where
  "ref_tokens NO_REF = []"
| "ref_tokens REF = [mk_token TK_AMPERSAND ''&'']"
| "ref_tokens REF_MUT = [mk_token TK_AMPERSAND ''&'', mk_token TK_MUT ''mut'']"

primrec literal_token :: "LiteralType \<Rightarrow> string \<Rightarrow> token" where
  "literal_token LIT_NUMBER v = mk_token TK_NUMBER v"
| "literal_token LIT_STRING v = mk_token TK_STRING v"
| "literal_token LIT_CHAR v = mk_token TK_CHAR v"
| "literal_token LIT_BOOL v = mk_token (if v = ''true'' then TK_TRUE else TK_FALSE) v"

text \<open>Blocks, conditionals, loops and jumps are not printed (\<open>printable\<close> excludes them).\<close>

primrec type_tokens :: "type_node \<Rightarrow> token list"
  and expr_tokens :: "expr \<Rightarrow> token list"
  and stmt_tokens :: "stmt \<Rightarrow> token list"
  and item_tokens :: "item \<Rightarrow> token list"
where
  "type_tokens (PathType _ r n) = ref_tokens r @ [ident n]"
| "type_tokens (ArrayType _ r t e) =
     ref_tokens r @ lbracket # type_tokens t @ semicolon # expr_tokens e @ [rbracket]"
| "type_tokens (UnitType _ r) = ref_tokens r @ [lparen, rparen]"
| "type_tokens (SelfType _ r) = ref_tokens r @ [mk_token TK_BIG_SELF ''Self'']"
| "expr_tokens (LiteralExpr _ l v) = [literal_token l v]"
| "expr_tokens (IdentifierExpr _ n) = [ident n]"
| "expr_tokens (BinaryExpr _ op l r) =
     wrap (lbp_of op \<le> edge l \<and> lbp_of op \<le> level l) (expr_tokens l)
     @ mk_token (op_token op) (binary_operator_to_string op)
     # wrap (rbp_of op < level r) (expr_tokens r)"
| "expr_tokens (UnaryExpr _ op r) = unary_tokens op @ wrap (90 < level r) (expr_tokens r)"
| "expr_tokens (CallExpr _ c args) =
     wrap (100 \<le> edge c \<and> 100 \<le> level c) (expr_tokens c)
     @ lparen # comma_sep (map expr_tokens args) @ [rparen]"
| "expr_tokens (FieldExpr _ b n) =
     wrap (100 \<le> edge b \<and> 100 \<le> level b) (expr_tokens b) @ [mk_token TK_DOT ''.'', ident n]"
| "expr_tokens (StructExpr _ t fs) =
     type_tokens t @ lbrace
     # comma_sep (map (\<lambda>(n, ts). ident n # mk_token TK_COLON '':'' # ts) (map (map_prod id expr_tokens) fs))
     @ [rbrace]"
| "expr_tokens (IndexExpr _ b i) =
     wrap (100 \<le> edge b \<and> 100 \<le> level b) (expr_tokens b) @ lbracket # expr_tokens i @ [rbracket]"
| "expr_tokens (BlockExpr _ ss t u) = []"
| "expr_tokens (IfExpr _ c a b u) = []"
| "expr_tokens (WhileExpr _ c b) = []"
| "expr_tokens (LoopExpr _ b u) = []"
| "expr_tokens (ReturnExpr _ v) = []"
| "expr_tokens (BreakExpr _ v) = []"
| "expr_tokens (ContinueExpr _) = []"
| "expr_tokens (CastExpr _ e t) =
     wrap (85 \<le> edge e \<and> 85 \<le> level e) (expr_tokens e) @ mk_token TK_AS ''as'' # type_tokens t"
| "expr_tokens (PathExpr _ t n) = type_tokens t @ [mk_token TK_COLON_COLON ''::'', ident n]"
| "expr_tokens (SelfExpr _) = [mk_token TK_SELF ''self'']"
| "expr_tokens (UnitExpr _) = [lparen, rparen]"
| "expr_tokens (ArrayExpr _ es) = lbracket # comma_sep (map expr_tokens es) @ [rbracket]"
| "expr_tokens (RepeatArrayExpr _ e s) =
     lbracket # expr_tokens e @ semicolon # expr_tokens s @ [rbracket]"
| "stmt_tokens (LetStmt _ p t e) = []"
| "stmt_tokens (ExprStmt _ e s) = []"
| "stmt_tokens (ItemStmt _ i) = []"
| "item_tokens (FnItem _ n rc ps rt b) = []"
| "item_tokens (StructItem _ n fs) = []"
| "item_tokens (EnumItem _ n vs) = []"
| "item_tokens (ImplItem _ n ms) = []"
| "item_tokens (ConstItem _ n t e) = []"

text \<open>The type before \<open>::\<close> or a struct literal is a name or \<open>Self\<close>, without \<open>&\<close>.\<close>

definition path_base :: "type_node \<Rightarrow> bool" where
  "path_base t = (case t of
      PathType _ r _ \<Rightarrow> r = NO_REF
    | SelfType _ r \<Rightarrow> r = NO_REF
    | _ \<Rightarrow> False)"

primrec printable_type :: "type_node \<Rightarrow> bool"
  and printable :: "expr \<Rightarrow> bool"
  and printable_stmt :: "stmt \<Rightarrow> bool"
  and printable_item :: "item \<Rightarrow> bool"
where
  "printable_type (PathType _ r n) = True"
| "printable_type (ArrayType _ r t e) = (printable_type t \<and> printable e)"
| "printable_type (UnitType _ r) = True"
| "printable_type (SelfType _ r) = True"
| "printable (LiteralExpr _ l v) = True"
| "printable (IdentifierExpr _ n) = True"
| "printable (BinaryExpr _ op l r) = (printable l \<and> printable r)"
| "printable (UnaryExpr _ op r) = printable r"
| "printable (CallExpr _ c args) = (printable c \<and> list_all id (map printable args))"
| "printable (FieldExpr _ b n) = printable b"
| "printable (StructExpr _ t fs) = (path_base t \<and> list_all snd (map (map_prod id printable) fs))"
| "printable (IndexExpr _ b i) = (printable b \<and> printable i)"
| "printable (BlockExpr _ ss t u) = False"
| "printable (IfExpr _ c a b u) = False"
| "printable (WhileExpr _ c b) = False"
| "printable (LoopExpr _ b u) = False"
| "printable (ReturnExpr _ v) = False"
| "printable (BreakExpr _ v) = False"
| "printable (ContinueExpr _) = False"
| "printable (CastExpr _ e t) = (printable e \<and> printable_type t)"
| "printable (PathExpr _ t n) = path_base t"
| "printable (SelfExpr _) = True"
| "printable (UnitExpr _) = True"
| "printable (ArrayExpr _ es) = list_all id (map printable es)"
| "printable (RepeatArrayExpr _ e s) = (printable e \<and> printable s)"
| "printable_stmt (LetStmt _ p t e) = False"
| "printable_stmt (ExprStmt _ e s) = False"
| "printable_stmt (ItemStmt _ i) = False"
| "printable_item (FnItem _ n rc ps rt b) = False"
| "printable_item (StructItem _ n fs) = False"
| "printable_item (EnumItem _ n vs) = False"
| "printable_item (ImplItem _ n ms) = False"
| "printable_item (ConstItem _ n t e) = False"

subsection \<open>Reading a given token sequence\<close>

text \<open>\<open>parses p ts x rest\<close>: on the tokens \<open>ts\<close>, \<open>p\<close> returns \<open>x\<close> and leaves \<open>rest\<close>.\<close>

definition parses :: "'a parser \<Rightarrow> token list \<Rightarrow> 'a \<Rightarrow> token list \<Rightarrow> bool" where
  "parses p ts x rest \<longleftrightarrow>
     (\<forall>lx. remaining lx = ts \<longrightarrow> (\<exists>lx'. p lx = Inr (x, lx') \<and> remaining lx' = rest))"

named_theorems parse_steps \<open>what one parsing step does on a known token\<close>

lemma parses_pret [parse_steps]: "parses (pret x) ts x ts"
  by (simp add: parses_def pret_def)

lemma parses_plift: "r = Inr x \<Longrightarrow> parses (plift r) ts x ts"
  by (simp add: parses_def plift_def)

lemma parses_peek: "parses ppeek (t # ts) t (t # ts)"
  unfolding parses_def ppeek_def using cursor.peek_head by fastforce

lemma parses_consume: "parses consume_token (t # ts) t ts"
  by (auto simp: parses_def dest: cursor.consume_head)

lemma parses_expect: "tk_type t = ty \<Longrightarrow> parses (consume_expect_token ty) (t # ts) t ts"
  by (auto simp: parses_def dest: consume_expect_head)

lemma parses_bind: "parses p ts x mid \<Longrightarrow> parses (k x) mid y rest \<Longrightarrow> parses (pbind p k) ts y rest"
  by (fastforce simp: parses_def pbind_def)

text \<open>The same steps as the first part of a sequence.\<close>

lemma peek_first [parse_steps]: "parses (k t) (t # ts) y rest \<Longrightarrow> parses (pbind ppeek k) (t # ts) y rest"
  by (rule parses_bind [OF parses_peek])

lemma expect_first [parse_steps]:
  "tk_type t = ty \<Longrightarrow> parses (k t) ts y rest \<Longrightarrow> parses (pbind (consume_expect_token ty) k) (t # ts) y rest"
  by (rule parses_bind [OF parses_expect])

lemma consume_first [parse_steps]:
  "parses (k t) ts y rest \<Longrightarrow> parses (pbind consume_token k) (t # ts) y rest"
  by (rule parses_bind [OF parses_consume])

lemma plift_first [parse_steps]: "r = Inr x \<Longrightarrow> parses (k x) ts y rest \<Longrightarrow> parses (pbind (plift r) k) ts y rest"
  by (rule parses_bind [OF parses_plift])

lemma parses_loop_done: "parses (body s) ts (Inr x) rest \<Longrightarrow> parses (loop_tokens body s) ts x rest"
  unfolding parses_def by (subst loop_tokens.simps) fastforce

lemma parses_loop_more:
  assumes "parses (body s) ts (Inl s') mid" and "length mid < length ts"
    and "parses (loop_tokens body s') mid x rest"
  shows "parses (loop_tokens body s) ts x rest"
  unfolding parses_def
proof (intro allI impI)
  fix lx
  assume lx: "remaining lx = ts"
  with assms(1) obtain lx1 where 1: "body s lx = Inr (Inl s', lx1)" "remaining lx1 = mid"
    unfolding parses_def by blast
  with assms(3) obtain lx2 where "loop_tokens body s' lx1 = Inr (x, lx2)" "remaining lx2 = rest"
    unfolding parses_def by blast
  with 1 lx assms(2) show "\<exists>lx'. loop_tokens body s lx = Inr (x, lx') \<and> remaining lx' = rest"
    by (simp add: loop_tokens.simps [of body s lx])
qed

text \<open>A list of elements, each of which stops at a comma or at the closing token.\<close>

lemma parses_comma_list_aux:
  assumes "\<forall>p \<in> set es. \<forall>t rest. tk_type t = TK_COMMA \<or> tk_type t = close \<longrightarrow>
      parses elem (fst p @ t # rest) (snd p) (t # rest)"
    and "\<forall>p \<in> set es. fst p \<noteq> [] \<and> tk_type (hd (fst p)) \<noteq> close"
    and "close \<noteq> TK_COMMA" "tk_type c = close"
  shows "parses (loop_tokens (comma_step close elem) acc) (comma_sep (map fst es) @ c # rest)
    (acc @ map snd es) (c # rest)"
  using assms
proof (induction es arbitrary: acc)
  case Nil
  then show ?case
    by (intro parses_loop_done) (simp add: comma_step_def parse_steps)
next
  case (Cons e es)
  obtain ts x where e: "e = (ts, x)" by force
  have "ts \<noteq> [] \<and> tk_type (hd ts) \<noteq> close"
    using Cons.prems(2) by (simp add: e)
  then obtain t ts' where ts: "ts = t # ts'" "tk_type t \<noteq> close"
    by (cases ts) auto
  have el: "parses elem (t # ts' @ u # r) x (u # r)"
    if "tk_type u = TK_COMMA \<or> tk_type u = close" for u r
    using Cons.prems(1) that by (auto simp: e ts)
  show ?case
  proof (cases es)
    case Nil
    have "parses (comma_step close elem acc) (t # ts' @ c # rest) (Inr (acc @ [x])) (c # rest)"
      unfolding comma_step_def using ts Cons.prems(3,4)
      by (auto intro!: parse_steps parses_bind [OF el])
    with Nil show ?thesis by (simp add: e ts parses_loop_done)
  next
    case (Cons e' es')
    let ?mid = "comma_sep (map fst es) @ c # rest"
    have "parses (comma_step close elem acc) (t # ts' @ comma # ?mid) (Inl (acc @ [x])) ?mid"
      unfolding comma_step_def using ts Cons.prems(3,4)
      by (auto intro!: parse_steps parses_bind [OF el])
    moreover have "length ?mid < length (t # ts' @ comma # ?mid)" by simp
    moreover have "parses (loop_tokens (comma_step close elem) (acc @ [x])) ?mid
        ((acc @ [x]) @ map snd es) (c # rest)"
      by (rule Cons.IH) (use Cons.prems in simp_all)
    ultimately have "parses (loop_tokens (comma_step close elem) acc) (t # ts' @ comma # ?mid)
        ((acc @ [x]) @ map snd es) (c # rest)"
      by (rule parses_loop_more)
    with Cons show ?thesis by (simp add: e ts)
  qed
qed

end
