(* ===== verification/ExprRoundtrip.thy ===== *)
theory ExprRoundtrip
  imports ExprPrint
begin

section \<open>The Pratt parser inverts the printer\<close>

text \<open>
  For every printable expression: parsing its tokens gives the expression back, with the
  ids cleared. The induction carries two statements. For a type, \<open>type_ok\<close>: it is read
  whatever follows. For an expression, \<open>reads\<close>: on its tokens followed by a token \<open>t\<close>
  that its right end lets through, \<open>parse_expression\<close> comes to its loop with the
  expression as the left operand and \<open>t\<close> next.
\<close>

definition stop_ok :: "token \<Rightarrow> int \<Rightarrow> bool" where
  "stop_ok t l \<longleftrightarrow> get_lbp (tk_type t) = Inr l
     \<and> tk_type t \<noteq> TK_COLON_COLON \<and> tk_type t \<noteq> TK_LEFT_BRACE"

definition type_ok :: "type_node \<Rightarrow> bool" where
  "type_ok ty \<longleftrightarrow> (\<forall>n rest. length (type_tokens ty) \<le> n \<longrightarrow>
     parses (p_type (parsers_upto (Suc n))) (type_tokens ty @ rest) (strip_type ty) rest)"

definition reads :: "expr \<Rightarrow> bool" where
  "reads e \<longleftrightarrow> (\<forall>n lvl t l rest x r.
     length (expr_tokens e) \<le> n \<longrightarrow> lvl < level e \<longrightarrow> stop_ok t l \<longrightarrow> l \<le> edge e \<longrightarrow>
     parses (loop_tokens (pratt_step (parsers_upto n) lvl) (strip_expr e)) (t # rest) x r \<longrightarrow>
     parses (p_expression (parsers_upto (Suc n)) lvl) (expr_tokens e @ t # rest) x r)"

lemma readsD:
  assumes "reads e" "length (expr_tokens e) \<le> n" "lvl < level e" "stop_ok t l" "l \<le> edge e"
    and "parses (loop_tokens (pratt_step (parsers_upto n) lvl) (strip_expr e)) (t # rest) x r"
  shows "parses (p_expression (parsers_upto (Suc n)) lvl) (expr_tokens e @ t # rest) x r"
  using assms unfolding reads_def by blast

lemma stop_ok_closers [simp]:
  "stop_ok rparen 0" "stop_ok rbracket 0" "stop_ok rbrace 0" "stop_ok comma 0" "stop_ok semicolon 0"
  by (simp_all add: stop_ok_def get_lbp_def get_binding_power_def)

subsection \<open>The loop\<close>

lemma more_tokens: "remaining lx = t # ts \<Longrightarrow> has_more_tokens lx"
  by (simp add: cursor.more_iff)

lemma parses_when_more:
  "parses p (t # ts) x r \<Longrightarrow> parses (\<lambda>lx. if has_more_tokens lx then p lx else q lx) (t # ts) x r"
  by (simp add: parses_def more_tokens)

lemma loop_stops:
  assumes "stop_ok t l" "l \<le> lvl"
  shows "parses (loop_tokens (pratt_step P lvl) e) (t # rest) e (t # rest)"
proof (rule parses_loop_done)
  show "parses (pratt_step P lvl e) (t # rest) (Inr e) (t # rest)"
    unfolding pratt_step_def using assms
    by (auto simp: stop_ok_def intro!: parses_when_more parse_steps)
qed

lemma loop_continues:
  assumes "stop_ok t l" "lvl < l"
    and "parses (led P t e) ts e' mid" and "length mid \<le> length ts"
    and "parses (loop_tokens (pratt_step P lvl) e') mid x r"
  shows "parses (loop_tokens (pratt_step P lvl) e) (t # ts) x r"
proof (rule parses_loop_more)
  show "parses (pratt_step P lvl e) (t # ts) (Inl e') mid"
    unfolding pratt_step_def using assms(1,2)
    by (auto simp: stop_ok_def intro!: parses_when_more parse_steps parses_bind [OF assms(3)])
qed (use assms in simp_all)

text \<open>What the two ends of an expression allow.\<close>

lemma level_edge:
  assumes "lvl < level e" "lvl \<le> 90"
  shows "lvl \<le> edge e"
proof (cases e)
  case (BinaryExpr k op l r)
  with assms op_powers [of op] show ?thesis by (simp add: level_def edge_def)
qed (use assms in \<open>simp_all add: edge_def\<close>)

lemma level_ge: "20 \<le> level e"
proof (cases e)
  case (BinaryExpr k op l r)
  with op_powers [of op] show ?thesis by (simp add: level_def)
qed (simp_all add: level_def)

lemma strip_level [simp]: "level (strip_expr e) = level e" "edge (strip_expr e) = edge e"
  by (cases e; simp add: level_def edge_def)+

subsection \<open>The first token\<close>

lemma type_tokens_head:
  "path_base ty \<Longrightarrow> \<exists>t. type_tokens ty = [t] \<and> (tk_type t = TK_IDENTIFIER \<or> tk_type t = TK_BIG_SELF)"
  by (cases ty) (auto simp: path_base_def)

definition starter :: "Token_type \<Rightarrow> bool" where
  "starter ty \<longleftrightarrow> ty \<in> {TK_IDENTIFIER, TK_BIG_SELF, TK_SELF, TK_NUMBER, TK_STRING, TK_CHAR, TK_TRUE,
     TK_FALSE, TK_LEFT_PARENTHESIS, TK_LEFT_BRACKET, TK_MINUS, TK_BANG, TK_AMPERSAND, TK_STAR}"

definition starts :: "token list \<Rightarrow> bool" where
  "starts ts \<longleftrightarrow> ts \<noteq> [] \<and> starter (tk_type (hd ts))"

lemma starts_append [simp]: "starts ts \<Longrightarrow> starts (ts @ us)"
  by (simp add: starts_def)

lemma starts_wrap: "starts ts \<Longrightarrow> starts (wrap b ts)"
  by (simp add: wrap_def starts_def starter_def)

lemma starts_Cons: "starter (tk_type t) \<Longrightarrow> starts (t # ts)"
  by (simp add: starts_def)

lemma printable_starts:
  "ty = (ty :: type_node)" "printable e \<Longrightarrow> starts (expr_tokens e)" "st = (st :: stmt)" "i = (i :: item)"
proof (induct ty and e and st and i)
  case (LiteralExpr k l v)
  then show ?case by (cases l) (simp_all add: starts_def starter_def)
next
  case (UnaryExpr k op r)
  then show ?case by (cases op) (simp_all add: starts_def starter_def)
next
  case (StructExpr k ty fs)
  then show ?case using type_tokens_head [of ty] by (auto simp: starts_def starter_def)
next
  case (PathExpr k ty n)
  then show ?case using type_tokens_head [of ty] by (auto simp: starts_def starter_def)
qed (simp_all add: starts_wrap starts_Cons starter_def)

subsection \<open>Operands\<close>

lemma parses_expression:
  assumes "parses (nud P t) (t # ts) e mid"
    and "parses (loop_tokens (pratt_step P lvl) e) mid x r"
  shows "parses (parse_expression P lvl) (t # ts) x r"
  unfolding parse_expression_def by (rule peek_first parses_bind assms)+

text \<open>An expression in parentheses, and the operands of an operator on both sides.\<close>

lemma reads_zero:
  assumes "reads e" "length (expr_tokens e) < n" "stop_ok t 0"
  shows "parses (p_expression (parsers_upto n) 0) (expr_tokens e @ t # rest) (strip_expr e) (t # rest)"
proof -
  obtain m where n: "n = Suc m" using assms(2) by (cases n) auto
  have "0 < level e" using level_ge [of e] by simp
  moreover from level_edge [OF this] have "0 \<le> edge e" by simp
  ultimately show ?thesis
    unfolding n using assms n by (intro readsD loop_stops) auto
qed

lemma nud_paren:
  assumes "reads e" "starts (expr_tokens e)" "length (expr_tokens e) < n"
  shows "parses (nud (parsers_upto n) lparen) (lparen # expr_tokens e @ rparen # rest) (strip_expr e) rest"
proof -
  obtain t ts where e: "expr_tokens e = t # ts" and t: "tk_type t \<noteq> TK_RIGHT_PARENTHESIS"
    using assms(2) by (cases "expr_tokens e") (auto simp: starts_def starter_def)
  have "parses (p_expression (parsers_upto n) 0) (t # ts @ rparen # rest) (strip_expr e) (rparen # rest)"
    using reads_zero [OF assms(1,3), of rparen rest] by (simp add: e)
  then show ?thesis
    unfolding nud_def using t by (auto simp: e intro!: parse_steps elim!: parses_bind)
qed

lemma reads_left:
  assumes "reads e" "starts (expr_tokens e)"
    and "length (wrap (l \<le> edge e \<and> l \<le> level e) (expr_tokens e)) \<le> n"
    and "stop_ok t l" "lvl < l"
    and loop: "parses (loop_tokens (pratt_step (parsers_upto n) lvl) (strip_expr e)) (t # rest) x r"
  shows "parses (parse_expression (parsers_upto n) lvl)
    (wrap (l \<le> edge e \<and> l \<le> level e) (expr_tokens e) @ t # rest) x r"
proof (cases "l \<le> edge e \<and> l \<le> level e")
  case True
  with readsD [OF assms(1) _ _ assms(4) _ loop] assms(3,5) show ?thesis
    by (simp add: wrap_def)
next
  case False
  with assms(3) have "length (expr_tokens e) < n" by (simp add: wrap_def)
  from parses_expression [OF nud_paren [OF assms(1,2) this] loop] False show ?thesis
    by (auto simp: wrap_def)
qed

lemma reads_right:
  assumes "reads e" "starts (expr_tokens e)"
    and "length (wrap (lvl < level e) (expr_tokens e)) < n"
    and "stop_ok t l" "l \<le> lvl" "lvl \<le> 90"
  shows "parses (p_expression (parsers_upto n) lvl)
    (wrap (lvl < level e) (expr_tokens e) @ t # rest) (strip_expr e) (t # rest)"
proof -
  obtain m where n: "n = Suc m" using assms(3) by (cases n) auto
  note loop = loop_stops [OF assms(4,5), of "parsers_upto m" "strip_expr e" rest]
  show ?thesis
  proof (cases "lvl < level e")
    case True
    with readsD [OF assms(1) _ True assms(4) _ loop] level_edge [OF True assms(6)] assms(3,5) n
    show ?thesis by (simp add: wrap_def)
  next
    case False
    with assms(3) n have "length (expr_tokens e) < m" by (simp add: wrap_def)
    from parses_expression [OF nud_paren [OF assms(1,2) this] loop] False n show ?thesis
      by (simp add: wrap_def)
  qed
qed

lemma postfix_stops [simp]:
  "stop_ok lparen 100" "stop_ok lbracket 100" "stop_ok (mk_token TK_DOT v) 100"
  "stop_ok (mk_token TK_AS v) 85" "stop_ok (mk_token (op_token op) v) (lbp_of op)"
  by (simp_all add: stop_ok_def) (simp_all add: get_lbp_def get_binding_power_def)

lemma infix_op_none [simp]: "infix_op TK_LEFT_PARENTHESIS = None" "infix_op TK_LEFT_BRACKET = None"
  "infix_op TK_DOT = None" "infix_op TK_AS = None"
  by (simp_all add: infix_op_def)

lemma nbp_values [simp]: "get_nbp TK_MINUS = Inr 90" "get_nbp TK_BANG = Inr 90"
  "get_nbp TK_AMPERSAND = Inr 90" "get_nbp TK_STAR = Inr 90"
  by (simp_all add: get_nbp_def get_binding_power_def)

lemma starts_cases:
  assumes "starts ts"
  obtains t us where "ts = t # us" "tk_type t \<notin> {TK_RIGHT_PARENTHESIS, TK_RIGHT_BRACKET,
    TK_RIGHT_BRACE, TK_COMMA, TK_SEMICOLON, TK_MUT}"
  using assms by (cases ts) (auto simp: starts_def starter_def)

lemma parses_expr_list:
  assumes "\<And>e. e \<in> set es \<Longrightarrow> reads e \<and> starts (expr_tokens e) \<and> length (expr_tokens e) < n"
  shows "parses (comma_list TK_RIGHT_PARENTHESIS (p_expression (parsers_upto n) 0))
    (comma_sep (map expr_tokens es) @ rparen # rest) (map strip_expr es) (rparen # rest)"
proof -
  let ?es = "map (\<lambda>e. (expr_tokens e, strip_expr e)) es"
  have ok: "stop_ok t 0" if "tk_type t = TK_COMMA \<or> tk_type t = TK_RIGHT_PARENTHESIS" for t
    using that by (auto simp: stop_ok_def get_lbp_def get_binding_power_def)
  have "parses (loop_tokens (comma_step TK_RIGHT_PARENTHESIS (p_expression (parsers_upto n) 0)) [])
      (comma_sep (map fst ?es) @ rparen # rest) ([] @ map snd ?es) (rparen # rest)"
  proof (rule parses_comma_list_aux)
    show "\<forall>p \<in> set ?es. fst p \<noteq> [] \<and> tk_type (hd (fst p)) \<noteq> TK_RIGHT_PARENTHESIS"
      using assms by (fastforce elim: starts_cases)
  qed (use assms ok in \<open>auto intro!: reads_zero\<close>)
  then show ?thesis by (simp add: comma_list_def comp_def)
qed

lemma parses_field_list:
  assumes "\<And>e. e \<in> snd ` set fs \<Longrightarrow> reads e \<and> length (expr_tokens e) < n"
  shows "parses (comma_list TK_RIGHT_BRACE
      (pbind (consume_expect_token TK_IDENTIFIER) (\<lambda>name.
        pbind (consume_expect_token TK_COLON) (\<lambda>_.
        pbind (p_expression (parsers_upto n) 0) (\<lambda>value. pret (tk_value name, value))))))
    (comma_sep (map (\<lambda>(n, e). ident n # mk_token TK_COLON '':'' # expr_tokens e) fs) @ rbrace # rest)
    (map (map_prod id strip_expr) fs) (rbrace # rest)"
    (is "parses (comma_list _ ?elem) _ _ _")
proof -
  let ?fs = "map (\<lambda>(n, e). (ident n # mk_token TK_COLON '':'' # expr_tokens e, (n, strip_expr e))) fs"
  have ok: "stop_ok t 0" if "tk_type t = TK_COMMA \<or> tk_type t = TK_RIGHT_BRACE" for t
    using that by (auto simp: stop_ok_def get_lbp_def get_binding_power_def)
  have elem: "parses ?elem (ident m # mk_token TK_COLON '':'' # expr_tokens e @ t # r) (m, strip_expr e) (t # r)"
    if "(m, e) \<in> set fs" "tk_type t = TK_COMMA \<or> tk_type t = TK_RIGHT_BRACE" for m e t r
    using assms [OF image_eqI [OF _ that(1)], of e] ok [OF that(2)]
    by (auto intro!: expect_first parses_bind [OF reads_zero] simp: parses_pret)
  have "parses (loop_tokens (comma_step TK_RIGHT_BRACE ?elem) [])
      (comma_sep (map fst ?fs) @ rbrace # rest) ([] @ map snd ?fs) (rbrace # rest)"
    by (rule parses_comma_list_aux) (use elem in auto)
  then show ?thesis by (simp add: comma_list_def comp_def case_prod_unfold map_prod_def)
qed

lemma comma_sep_Cons: "comma_sep (f x # map f xs) = f x @ concat (map (\<lambda>y. comma # f y) xs)"
  by (induction xs arbitrary: x) auto

lemma parses_array_loop:
  assumes "\<And>e. e \<in> set es \<Longrightarrow> reads e \<and> starts (expr_tokens e) \<and> length (expr_tokens e) < n"
  shows "parses (loop_tokens (array_step (parsers_upto n)) acc)
    (concat (map (\<lambda>e. comma # expr_tokens e) es) @ rbracket # rest)
    (acc @ map strip_expr es) (rbracket # rest)"
  using assms
proof (induction es arbitrary: acc)
  case Nil
  show ?case by (rule parses_loop_done) (simp add: array_step_def parse_steps)
next
  case (Cons e es)
  let ?mid = "concat (map (\<lambda>e. comma # expr_tokens e) es) @ rbracket # rest"
  obtain t us where e: "expr_tokens e = t # us" "tk_type t \<noteq> TK_RIGHT_BRACKET"
    using Cons.prems [of e] by (auto elim: starts_cases)
  obtain u vs where mid: "?mid = u # vs" "stop_ok u 0"
    by (cases es) auto
  have "parses (p_expression (parsers_upto n) 0) (t # us @ u # vs) (strip_expr e) (u # vs)"
    using reads_zero [of e n u vs] Cons.prems [of e] mid(2) by (simp add: e)
  then have step: "parses (array_step (parsers_upto n) acc) (comma # t # us @ u # vs)
      (Inl (acc @ [strip_expr e])) (u # vs)"
    unfolding array_step_def using e(2)
    by (auto intro!: parse_steps elim!: parses_bind)
  have "parses (loop_tokens (array_step (parsers_upto n)) (acc @ [strip_expr e])) ?mid
      ((acc @ [strip_expr e]) @ map strip_expr es) (rbracket # rest)"
    by (rule Cons.IH) (use Cons.prems in auto)
  then have "parses (loop_tokens (array_step (parsers_upto n)) acc) (comma # t # us @ u # vs)
      ((acc @ [strip_expr e]) @ map strip_expr es) (rbracket # rest)"
    unfolding mid(1) by (rule parses_loop_more [where body = "array_step (parsers_upto n)", OF step, rotated]) simp
  then show ?case by (simp add: e flip: mid(1))
qed

text \<open>An expression that \<open>nud\<close> reads as a whole.\<close>

lemma readsI_nud:
  assumes "\<And>n t l rest. length (expr_tokens e) \<le> n \<Longrightarrow> stop_ok t l \<Longrightarrow> l \<le> edge e \<Longrightarrow>
      \<exists>u us. expr_tokens e = u # us
        \<and> parses (nud (parsers_upto n) u) (expr_tokens e @ t # rest) (strip_expr e) (t # rest)"
  shows "reads e"
  unfolding reads_def
proof (intro allI impI)
  fix n lvl t l rest x r
  assume "length (expr_tokens e) \<le> n" "stop_ok t l" "l \<le> edge e"
    and loop: "parses (loop_tokens (pratt_step (parsers_upto n) lvl) (strip_expr e)) (t # rest) x r"
  from assms [OF this(1-3), of rest] obtain u us where e: "expr_tokens e = u # us"
    and n: "parses (nud (parsers_upto n) u) (u # us @ t # rest) (strip_expr e) (t # rest)"
    by auto
  from parses_expression [OF n loop] show
    "parses (p_expression (parsers_upto (Suc n)) lvl) (expr_tokens e @ t # rest) x r"
    by (simp add: e)
qed

text \<open>An expression that \<open>led\<close> builds from a left operand and what follows.\<close>

lemma readsI_led:
  assumes left: "reads l" "starts (expr_tokens l)"
    and tokens: "expr_tokens e = wrap (b \<le> edge l \<and> b \<le> level l) (expr_tokens l) @ u # us"
    and u: "stop_ok u b" "level e \<le> b"
    and led: "\<And>n t k rest. length us < n \<Longrightarrow> stop_ok t k \<Longrightarrow> k \<le> edge e \<Longrightarrow>
      parses (led (parsers_upto n) u (strip_expr l)) (us @ t # rest) (strip_expr e) (t # rest)"
  shows "reads e"
  unfolding reads_def
proof (intro allI impI)
  fix n lvl t k rest x r
  assume n: "length (expr_tokens e) \<le> n" and lvl: "lvl < level e" and t: "stop_ok t k" "k \<le> edge e"
    and loop: "parses (loop_tokens (pratt_step (parsers_upto n) lvl) (strip_expr e)) (t # rest) x r"
  have us: "length us < n" and lvl': "lvl < b"
    and w: "length (wrap (b \<le> edge l \<and> b \<le> level l) (expr_tokens l)) \<le> n"
    using n lvl u(2) by (simp_all add: tokens)
  have "parses (loop_tokens (pratt_step (parsers_upto n) lvl) (strip_expr l)) (u # us @ t # rest) x r"
    by (rule loop_continues [OF u(1) lvl' led [OF us t]]) (simp_all add: loop)
  from reads_left [OF left w u(1) lvl' this] show
    "parses (p_expression (parsers_upto (Suc n)) lvl) (expr_tokens e @ t # rest) x r"
    by (simp add: tokens)
qed

lemma parses_ref:
  assumes "starts ts \<or> tk_type (hd ts) \<noteq> TK_AMPERSAND \<and> tk_type (hd ts) \<noteq> TK_MUT \<and> ts \<noteq> []"
    and "tk_type (hd ts) \<noteq> TK_AMPERSAND"
    and k: "parses (pbind ppeek (k r)) ts x rest"
  shows "parses (pbind parse_ref (\<lambda>r0. pbind (pbind ppeek (\<lambda>t.
       if tk_type t = TK_MUT then
         pbind (consume_expect_token TK_MUT) (\<lambda>_.
           if r0 = NO_REF then plift (Inl (ThrownCStr m)) else pret REF_MUT)
       else pret r0)) (\<lambda>r. pbind ppeek (k r)))) (ref_tokens r @ ts) x rest"
proof -
  obtain t us where ts: "ts = t # us" "tk_type t \<noteq> TK_MUT" "tk_type t \<noteq> TK_AMPERSAND"
    using assms(1,2) by (cases ts) (auto simp: starts_def starter_def)
  show ?thesis
    using k unfolding parse_ref_def ts(1)
    by (cases r) (auto simp: ts(2,3) intro!: parse_steps parses_bind [where p = "pbind ppeek _"])
qed

lemma type_okI:
  assumes "type_tokens ty = ref_tokens r @ ts" "tk_type (hd ts) \<notin> {TK_AMPERSAND, TK_MUT}" "ts \<noteq> []"
    and "\<And>n rest. length ts \<le> n \<Longrightarrow> parses (pbind ppeek (\<lambda>t.
       if tk_type t = TK_LEFT_BRACKET then
         pbind (consume_expect_token TK_LEFT_BRACKET) (\<lambda>_.
         pbind (p_type (parsers_upto n)) (\<lambda>elem.
         pbind (consume_expect_token TK_SEMICOLON) (\<lambda>_.
         pbind (p_expression (parsers_upto n) 0) (\<lambda>size.
         pbind (consume_expect_token TK_RIGHT_BRACKET) (\<lambda>_.
         pret (ArrayType 0 r elem size))))))
       else if tk_type t = TK_LEFT_PARENTHESIS then
         pbind (consume_expect_token TK_LEFT_PARENTHESIS) (\<lambda>_.
         pbind (consume_expect_token TK_RIGHT_PARENTHESIS) (\<lambda>_.
         pret (UnitType 0 r)))
       else if tk_type t = TK_BIG_SELF then
         pbind (consume_expect_token TK_BIG_SELF) (\<lambda>_. pret (SelfType 0 r))
       else
         pbind (consume_expect_token TK_IDENTIFIER) (\<lambda>t. pret (PathType 0 r (tk_value t)))))
       (ts @ rest) (strip_type ty) rest"
  shows "type_ok ty"
  unfolding type_ok_def
proof (intro allI impI)
  fix n rest
  assume n: "length (type_tokens ty) \<le> n"
  have "parses (parse_type (parsers_upto n)) (ref_tokens r @ (ts @ rest)) (strip_type ty) rest"
    unfolding parse_type_def
    by (rule parses_ref, use assms(2,3) in simp, use assms(2,3) in simp, rule assms(4))
      (use n assms(1) in simp)
  then show "parses (p_type (parsers_upto (Suc n))) (type_tokens ty @ rest) (strip_type ty) rest"
    by (simp add: assms(1))
qed

lemma type_okD:
  assumes "type_ok ty" "length (type_tokens ty) < n"
  shows "parses (p_type (parsers_upto n)) (type_tokens ty @ rest) (strip_type ty) rest"
  using assms unfolding type_ok_def by (cases n) auto

lemma type_read_path: "type_ok (PathType k r n)"
  by (rule type_okI [where r = r and ts = "[ident n]"]) (simp_all add: parse_steps)

lemma type_read_unit: "type_ok (UnitType k r)"
  by (rule type_okI [where r = r and ts = "[lparen, rparen]"]) (simp_all add: parse_steps)

lemma type_read_self: "type_ok (SelfType k r)"
  by (rule type_okI [where r = r and ts = "[mk_token TK_BIG_SELF ''Self'']"])
    (simp_all add: parse_steps)

lemma type_read_array:
  assumes "type_ok ty" "reads e"
  shows "type_ok (ArrayType k r ty e)"
  by (rule type_okI [where r = r and ts =
        "lbracket # type_tokens ty @ semicolon # expr_tokens e @ [rbracket]"])
    (auto intro!: parse_steps parses_bind [OF type_okD [OF assms(1)]]
      parses_bind [OF reads_zero [OF assms(2)]])

lemma nud_path_base:
  assumes "path_base ty" "tk_type u = TK_COLON_COLON \<or> tk_type u = TK_LEFT_BRACE"
    and "parses (if tk_type u = TK_COLON_COLON then parse_path_tail (strip_type ty)
      else parse_struct_fields P (strip_type ty)) (u # ts) x rest"
  shows "parses (nud P (hd (type_tokens ty))) (type_tokens ty @ u # ts) x rest"
  using assms
  by (cases ty) (auto simp: path_base_def nud_def intro!: parse_steps)

lemma expr_list_length:
  "e \<in> set es \<Longrightarrow> length (comma_sep (map f es)) < n \<Longrightarrow> length (f e) < n"
proof (induction es)
  case (Cons e' es)
  then show ?case by (cases es) auto
qed simp

lemma field_list_length:
  "(m, e) \<in> set fs \<Longrightarrow> length (comma_sep (map (\<lambda>(n, e). ident n # mk_token TK_COLON '':'' # f e) fs)) < n \<Longrightarrow>
    length (f e) < n"
  using expr_list_length [of "(m, e)" fs "\<lambda>(n, e). ident n # mk_token TK_COLON '':'' # f e" n] by simp

lemma reads_all:
  "printable_type ty \<Longrightarrow> type_ok ty" "printable e \<Longrightarrow> reads e" "st = (st :: stmt)" "i = (i :: item)"
proof (induct ty and e and st and i)
  case (PathType k r n)
  show ?case by (rule type_read_path)
next
  case (ArrayType k r ty e)
  then show ?case by (simp add: type_read_array)
next
  case (UnitType k r)
  show ?case by (rule type_read_unit)
next
  case (SelfType k r)
  show ?case by (rule type_read_self)
next
  case (LiteralExpr k l v)
  show ?case by (rule readsI_nud; cases l) (auto simp: nud_def intro!: parse_steps)
next
  case (IdentifierExpr k n)
  show ?case by (rule readsI_nud) (auto simp: nud_def stop_ok_def intro!: parse_steps)
next
  case (BinaryExpr k op l r)
  show ?case
  proof (rule readsI_led [where l = l and b = "lbp_of op"])
    show "expr_tokens (BinaryExpr k op l r) =
        wrap (lbp_of op \<le> edge l \<and> lbp_of op \<le> level l) (expr_tokens l)
        @ mk_token (op_token op) (binary_operator_to_string op) # wrap (rbp_of op < level r) (expr_tokens r)"
      by simp
  next
    fix n t k' rest
    assume "length (wrap (rbp_of op < level r) (expr_tokens r)) < n" "stop_ok t k'"
      "k' \<le> edge (BinaryExpr k op l r)"
    with reads_right [of r "rbp_of op" n t k' rest] BinaryExpr op_powers [of op] printable_starts(2) [of r]
    show "parses (led (parsers_upto n) (mk_token (op_token op) (binary_operator_to_string op)) (strip_expr l))
        (wrap (rbp_of op < level r) (expr_tokens r) @ t # rest) (strip_expr (BinaryExpr k op l r)) (t # rest)"
      by (auto simp: led_def edge_def intro!: parse_steps elim!: parses_bind)
  qed (use BinaryExpr printable_starts(2) [of l] in \<open>simp_all add: level_def\<close>)
next
  case (UnaryExpr k op r)
  show ?case
  proof (rule readsI_nud)
    fix n t l rest
    assume n: "length (expr_tokens (UnaryExpr k op r)) \<le> n" and t: "stop_ok t l"
      "l \<le> edge (UnaryExpr k op r)"
    have st: "starts (expr_tokens r)" using UnaryExpr printable_starts(2) [of r] by simp
    obtain u us where w: "wrap (90 < level r) (expr_tokens r) = u # us" "tk_type u \<noteq> TK_MUT"
      using starts_wrap [OF st, of "90 < level r"] by (rule starts_cases) auto
    have "length (u # us) < n" using n w(1) by (cases op) auto
    with reads_right [of r 90 n t l rest] t UnaryExpr st w(1)
    have "parses (p_expression (parsers_upto n) 90) (u # us @ t # rest) (strip_expr r) (t # rest)"
      by (simp add: edge_def)
    then show "\<exists>u us. expr_tokens (UnaryExpr k op r) = u # us
        \<and> parses (nud (parsers_upto n) u) (expr_tokens (UnaryExpr k op r) @ t # rest)
            (strip_expr (UnaryExpr k op r)) (t # rest)"
      using w by (cases op)
        (auto simp: nud_def parse_prefix_def intro!: parse_steps elim!: parses_bind)
  qed
next
  case (CallExpr k c args)
  show ?case
  proof (rule readsI_led [where l = c and b = 100 and u = lparen
        and us = "comma_sep (map expr_tokens args) @ [rparen]"])
    fix n t l rest
    assume n: "length (comma_sep (map expr_tokens args) @ [rparen]) < n"
    have "parses (comma_list TK_RIGHT_PARENTHESIS (p_expression (parsers_upto n) 0))
        (comma_sep (map expr_tokens args) @ rparen # t # rest) (map strip_expr args) (rparen # t # rest)"
      by (rule parses_expr_list)
        (use CallExpr n printable_starts(2) expr_list_length [of _ args expr_tokens n] in
          \<open>auto simp: list_all_iff\<close>)
    then show "parses (led (parsers_upto n) lparen (strip_expr c))
        ((comma_sep (map expr_tokens args) @ [rparen]) @ t # rest) (strip_expr (CallExpr k c args)) (t # rest)"
      by (auto simp: led_def intro!: parse_steps elim!: parses_bind)
  qed (use CallExpr printable_starts(2) [of c] in \<open>simp_all add: level_def\<close>)
next
  case (FieldExpr k b n)
  show ?case
    by (rule readsI_led [where l = b and b = 100 and u = "mk_token TK_DOT ''.''" and us = "[ident n]"])
      (use FieldExpr printable_starts(2) [of b] in
        \<open>auto simp: level_def led_def intro!: parse_steps\<close>)
next
  case (StructExpr k ty fs)
  show ?case
  proof (rule readsI_nud)
    fix n t l rest
    assume n: "length (expr_tokens (StructExpr k ty fs)) \<le> n"
    have base: "path_base ty" using StructExpr.prems by simp
    have fields: "map (\<lambda>(n, ts). ident n # mk_token TK_COLON '':'' # ts) (map (map_prod id expr_tokens) fs)
        = map (\<lambda>(n, e). ident n # mk_token TK_COLON '':'' # expr_tokens e) fs"
      by (simp add: case_prod_unfold map_prod_def)
    let ?ts = "comma_sep (map (\<lambda>(n, e). ident n # mk_token TK_COLON '':'' # expr_tokens e) fs)"
    have len: "length ?ts < n" using n unfolding expr_tokens.simps fields by simp
    have "reads e \<and> length (expr_tokens e) < n" if "e \<in> snd ` set fs" for e
      using that StructExpr.hyps(2) StructExpr.prems field_list_length [OF _ len]
      by (fastforce simp: list_all_iff)
    from parses_field_list [of fs n "t # rest", OF this]
    have "parses (parse_struct_fields (parsers_upto n) (strip_type ty)) (lbrace # ?ts @ rbrace # t # rest)
        (strip_expr (StructExpr k ty fs)) (t # rest)"
      by (auto simp: parse_struct_fields_def intro!: parse_steps elim!: parses_bind)
    then have "parses (nud (parsers_upto n) (hd (type_tokens ty)))
        (type_tokens ty @ lbrace # ?ts @ rbrace # t # rest) (strip_expr (StructExpr k ty fs)) (t # rest)"
      by (intro nud_path_base [OF base]) simp_all
    then show "\<exists>u us. expr_tokens (StructExpr k ty fs) = u # us
        \<and> parses (nud (parsers_upto n) u) (expr_tokens (StructExpr k ty fs) @ t # rest)
            (strip_expr (StructExpr k ty fs)) (t # rest)"
      unfolding expr_tokens.simps fields using type_tokens_head [OF base] by auto
  qed
next
  case (IndexExpr k b i)
  show ?case
  proof (rule readsI_led [where l = b and b = 100 and u = lbracket and us = "expr_tokens i @ [rbracket]"])
    fix n t l rest
    assume n: "length (expr_tokens i @ [rbracket]) < n"
    with reads_zero [of i n rbracket "t # rest"] IndexExpr
    have "parses (p_expression (parsers_upto n) 0) (expr_tokens i @ rbracket # t # rest) (strip_expr i)
        (rbracket # t # rest)" by simp
    then show "parses (led (parsers_upto n) lbracket (strip_expr b))
        ((expr_tokens i @ [rbracket]) @ t # rest) (strip_expr (IndexExpr k b i)) (t # rest)"
      by (auto simp: led_def intro!: parse_steps elim!: parses_bind)
  qed (use IndexExpr printable_starts(2) [of b] in \<open>simp_all add: level_def\<close>)
next
  case (CastExpr k e ty)
  show ?case
  proof (rule readsI_led [where l = e and b = 85 and u = "mk_token TK_AS ''as''" and us = "type_tokens ty"])
    fix n t l rest
    assume n: "length (type_tokens ty) < n"
    have "type_ok ty" using CastExpr by simp
    from type_okD [OF this n, of "t # rest"] show "parses (led (parsers_upto n) (mk_token TK_AS ''as'') (strip_expr e))
        (type_tokens ty @ t # rest) (strip_expr (CastExpr k e ty)) (t # rest)"
      by (auto simp: led_def intro!: parse_steps elim!: parses_bind)
  qed (use CastExpr printable_starts(2) [of e] in \<open>simp_all add: level_def\<close>)
next
  case (PathExpr k ty n)
  show ?case
  proof (rule readsI_nud)
    fix m t l rest
    have base: "path_base ty" using PathExpr.prems by simp
    have "parses (nud (parsers_upto m) (hd (type_tokens ty)))
        (type_tokens ty @ mk_token TK_COLON_COLON ''::'' # ident n # t # rest)
        (strip_expr (PathExpr k ty n)) (t # rest)"
      by (rule nud_path_base [OF base]) (auto simp: parse_path_tail_def intro!: parse_steps)
    then show "\<exists>u us. expr_tokens (PathExpr k ty n) = u # us
        \<and> parses (nud (parsers_upto m) u) (expr_tokens (PathExpr k ty n) @ t # rest)
            (strip_expr (PathExpr k ty n)) (t # rest)"
      using type_tokens_head [OF base] by auto
  qed
next
  case (SelfExpr k)
  show ?case by (rule readsI_nud) (auto simp: nud_def intro!: parse_steps)
next
  case (UnitExpr k)
  show ?case by (rule readsI_nud) (auto simp: nud_def intro!: parse_steps)
next
  case (ArrayExpr k es)
  show ?case
  proof (rule readsI_nud)
    fix n t l rest
    assume n: "length (expr_tokens (ArrayExpr k es)) \<le> n"
    have es: "reads e \<and> starts (expr_tokens e) \<and> length (expr_tokens e) < n" if "e \<in> set es" for e
      using that ArrayExpr n printable_starts(2) [of e] expr_list_length [of e es expr_tokens n]
      by (auto simp: list_all_iff)
    have "parses (parse_array (parsers_upto n)) (lbracket # comma_sep (map expr_tokens es) @ rbracket # t # rest)
        (strip_expr (ArrayExpr k es)) (t # rest)"
    proof (cases es)
      case Nil
      then show ?thesis by (auto simp: parse_array_def intro!: parse_steps)
    next
      case (Cons e es')
      let ?tl = "concat (map (\<lambda>e. comma # expr_tokens e) es') @ rbracket # t # rest"
      obtain u us where u: "expr_tokens e = u # us" "tk_type u \<noteq> TK_RIGHT_BRACKET"
        using es [of e] Cons by (auto elim: starts_cases)
      obtain v vs where tl: "?tl = v # vs" "stop_ok v 0" "tk_type v \<noteq> TK_SEMICOLON"
        by (cases es') auto
      have "parses (p_expression (parsers_upto n) 0) (u # us @ v # vs) (strip_expr e) (v # vs)"
        using reads_zero [of e n v vs] es [of e] Cons tl(2) by (simp add: u)
      moreover have "parses (loop_tokens (array_step (parsers_upto n)) [strip_expr e]) ?tl
          ([strip_expr e] @ map strip_expr es') (rbracket # t # rest)"
        by (rule parses_array_loop) (use es Cons in auto)
      then have "parses (loop_tokens (array_step (parsers_upto n)) [strip_expr e]) (v # vs)
          (map strip_expr es) (rbracket # t # rest)"
        unfolding tl(1) by (simp add: Cons)
      moreover have "comma_sep (map expr_tokens es) @ rbracket # t # rest = expr_tokens e @ ?tl"
        by (simp add: Cons comma_sep_Cons)
      ultimately show ?thesis
        unfolding tl(1) u(1) using u(2) tl(3)
        by (auto simp: parse_array_def intro!: parse_steps elim!: parses_bind)
    qed
    then show "\<exists>u us. expr_tokens (ArrayExpr k es) = u # us
        \<and> parses (nud (parsers_upto n) u) (expr_tokens (ArrayExpr k es) @ t # rest)
            (strip_expr (ArrayExpr k es)) (t # rest)"
      by (simp add: nud_def)
  qed
next
  case (RepeatArrayExpr k e s)
  show ?case
  proof (rule readsI_nud)
    fix n t l rest
    assume n: "length (expr_tokens (RepeatArrayExpr k e s)) \<le> n"
    obtain u us where u: "expr_tokens e = u # us" "tk_type u \<noteq> TK_RIGHT_BRACKET"
      using RepeatArrayExpr printable_starts(2) [of e] by (auto elim: starts_cases)
    have "parses (p_expression (parsers_upto n) 0) (u # us @ semicolon # expr_tokens s @ rbracket # t # rest)
        (strip_expr e) (semicolon # expr_tokens s @ rbracket # t # rest)"
      using reads_zero [of e n semicolon "expr_tokens s @ rbracket # t # rest"] RepeatArrayExpr n
      by (simp add: u)
    moreover have "parses (p_expression (parsers_upto n) 0) (expr_tokens s @ rbracket # t # rest)
        (strip_expr s) (rbracket # t # rest)"
      using reads_zero [of s n rbracket "t # rest"] RepeatArrayExpr n by simp
    ultimately show "\<exists>u us. expr_tokens (RepeatArrayExpr k e s) = u # us
        \<and> parses (nud (parsers_upto n) u) (expr_tokens (RepeatArrayExpr k e s) @ t # rest)
            (strip_expr (RepeatArrayExpr k e s)) (t # rest)"
      using u by (auto simp: nud_def parse_array_def intro!: parse_steps elim!: parses_bind)
  qed
qed simp_all

lemma parse_print_aux:
  assumes "printable e" "remaining lx = expr_tokens e @ t # rest" "stop_ok t 0" "length (expr_tokens e) \<le> n"
  shows "\<exists>lx'. parse_expression (parsers_upto n) 0 lx = Inr (strip_expr e, lx') \<and> remaining lx' = t # rest"
  using reads_zero [OF reads_all(2) [OF assms(1)], of "Suc n" t rest] assms(2-4)
  by (simp add: parses_def)

section \<open>Properties\<close>



text \<open>
  C10. From text to syntax tree: the printed tokens of an expression (if its names are names
  and its literals literals of the lexer), written out with a blank after each and followed
  by a semicolon, scan and parse to that expression.
\<close>

theorem scan_and_parse_expression:
  assumes "printable e" and "list_all wf_token (expr_tokens e)"
  shows "bindr (read_and_get_tokens (unlex (expr_tokens e @ [semicolon]))) (\<lambda>ts.
      bindr (parse_expression (parsers_upto (length ts)) 0 (mk_lexer ts)) (\<lambda>(x, _). Inr x))
    = Inr (strip_expr e)"
proof -
  have "wf_token semicolon" by code_simp
  with assms(2) have "read_and_get_tokens (unlex (expr_tokens e @ [semicolon])) = Inr (expr_tokens e @ [semicolon])"
    by (intro lex_unlex_aux) simp
  moreover have "\<exists>lx'. parse_expression (parsers_upto (length (expr_tokens e @ [semicolon]))) 0
      (mk_lexer (expr_tokens e @ [semicolon])) = Inr (strip_expr e, lx')"
    using parse_print_aux [OF assms(1), of "mk_lexer (expr_tokens e @ [semicolon])" semicolon "[]"
      "length (expr_tokens e @ [semicolon])"] by auto
  ultimately show ?thesis by auto
qed

theorem scan_and_parse_expression_witness:
  "bindr (read_and_get_tokens (unlex [ident ''x'', mk_token TK_EQUAL ''='', ident ''y'', mk_token TK_EQUAL ''='',
      mk_token TK_NUMBER ''1'', semicolon])) (\<lambda>ts.
      bindr (parse_expression (parsers_upto (length ts)) 0 (mk_lexer ts)) (\<lambda>(x, _). Inr x))
    = Inr (BinaryExpr 0 BOP_ASSIGN (IdentifierExpr 0 ''x'')
        (BinaryExpr 0 BOP_ASSIGN (IdentifierExpr 0 ''y'') (LiteralExpr 0 LIT_NUMBER ''1'')))"
proof -
  let ?e = "BinaryExpr 0 BOP_ASSIGN (IdentifierExpr 0 ''x'')
        (BinaryExpr 0 BOP_ASSIGN (IdentifierExpr 0 ''y'') (LiteralExpr 0 LIT_NUMBER ''1''))"
  have "expr_tokens ?e = [ident ''x'', mk_token TK_EQUAL ''='', ident ''y'', mk_token TK_EQUAL ''='',
      mk_token TK_NUMBER ''1'']"
    by (simp add: wrap_def level_def edge_def lbp_of_def rbp_of_def get_binding_power_def)
  moreover have "list_all wf_token [ident ''x'', mk_token TK_EQUAL ''='', ident ''y'', mk_token TK_EQUAL ''='',
      mk_token TK_NUMBER ''1'']" by code_simp
  ultimately show ?thesis using scan_and_parse_expression [of ?e] by simp
qed

end
