(* ===== verification/BlockProps.thy ===== *)
theory BlockProps
  imports ExprRoundtrip
begin

section \<open>The shape of a parsed block\<close>

text \<open>
  An invariant of the statement loop of \<open>parse_block_expression\<close>: which statements may stand
  before the tail, and that the flags about the tail agree with it.
\<close>

subsection \<open>Invariants of a token loop\<close>

lemma loop_tokens_invariant:
  assumes "loop_tokens body s lx = Inr (x, lx')" and "I s"
    and "\<And>s lx s' lx'. I s \<Longrightarrow> body s lx = Inr (Inl s', lx') \<Longrightarrow> I s'"
    and "\<And>s lx x lx'. I s \<Longrightarrow> body s lx = Inr (Inr x, lx') \<Longrightarrow> Q x"
  shows "Q x"
  using assms
proof (induction body s lx rule: loop_tokens.induct)
  case (1 body s lx)
  from "1.prems"(1) obtain r lx1 where r: "body s lx = Inr (r, lx1)"
    by (auto simp: loop_tokens.simps [of body s lx] res_simps)
  show ?case
  proof (cases r)
    case (Inl s')
    with "1.prems"(1) r have lt: "length (remaining lx1) < length (remaining lx)"
      and rec: "loop_tokens body s' lx1 = Inr (x, lx')"
      by (auto simp: loop_tokens.simps [of body s lx] split: if_split_asm)
    from "1.IH" [OF r refl Inl lt rec] "1.prems"(2-4) r Inl show ?thesis by blast
  next
    case (Inr y)
    with "1.prems" r show ?thesis by (auto simp: loop_tokens.simps [of body s lx])
  qed
qed

text \<open>
  The statements before the tail of a block: one without a semicolon is an \<open>if\<close>, \<open>loop\<close> or
  block that carries the mark, or a \<open>while\<close>.
\<close>

definition inner_ok :: "stmt \<Rightarrow> bool" where
  "inner_ok st = (case st of
      ExprStmt _ (IfExpr _ _ _ _ u) s \<Rightarrow> s \<or> u
    | ExprStmt _ (LoopExpr _ _ u) s \<Rightarrow> s \<or> u
    | ExprStmt _ (BlockExpr _ _ _ u) s \<Rightarrow> s \<or> u
    | ExprStmt _ (WhileExpr _ _ _) s \<Rightarrow> True
    | ExprStmt _ _ s \<Rightarrow> s
    | _ \<Rightarrow> True)"

definition block_inv :: "block_state \<Rightarrow> bool" where
  "block_inv b \<longleftrightarrow> list_all inner_ok (statements b)
     \<and> tail_statement_has_semi b = (case tail_statement b of None \<Rightarrow> True | Some st \<Rightarrow> has_semi st)"

lemma mark_ok: "mark_must_return_unit st = Inr st' \<Longrightarrow> inner_ok st'"
  by (auto simp: mark_must_return_unit_def inner_ok_def split: stmt.splits expr.splits)

lemma semi_ok: "has_semi st \<Longrightarrow> inner_ok st"
  by (auto simp: has_semi_def inner_ok_def split: stmt.splits expr.splits)

lemma push_tail_ok: "block_inv b \<Longrightarrow> push_tail b = Inr ss \<Longrightarrow> list_all inner_ok ss"
  by (auto simp: block_inv_def push_tail_def res_simps semi_ok mark_ok
      split: option.splits if_split_asm)

lemma block_step_inv:
  assumes "block_inv b" "block_step P b lx = Inr (Inl b', lx')"
  shows "block_inv b'"
  using assms push_tail_ok [OF assms(1)]
  by (auto simp: block_step_def pbind_def ppeek_def pret_def plift_def res_simps block_inv_def
      split: if_split_asm)

lemma block_step_done:
  assumes "block_inv b" "block_step P b lx = Inr (Inr b', lx')"
  shows "block_inv b'"
  using assms
  by (auto simp: block_step_def pbind_def ppeek_def pret_def plift_def res_simps
      split: if_split_asm)

subsection \<open>A block with a loop before its tail\<close>

lemma parses_empty_block:
  "parses (parse_block_expression P) (lbrace # rbrace # rest) (BlockExpr 0 [] None False) rest"
proof -
  let ?b = "\<lparr>statements = [], tail_statement = None, tail_statement_has_semi = True\<rparr>"
  have "parses (loop_tokens (block_step P) ?b) (rbrace # rest) ?b (rbrace # rest)"
    by (rule parses_loop_done) (auto simp: block_step_def intro!: parse_steps)
  then show ?thesis
    by (auto simp: parse_block_expression_def finish_block_def intro!: parse_steps elim!: parses_bind)
qed

lemma parses_no_semicolon:
  "parses (optional_semicolon e) (ident n # rest) (ExprStmt 0 e False) (ident n # rest)"
  "parses (optional_semicolon e) (rbrace # rest) (ExprStmt 0 e False) (rbrace # rest)"
  by (auto simp: optional_semicolon_def intro!: parse_steps)

lemma parses_name:
  "parses (parse_expression P 0) (ident n # rbrace # rest) (IdentifierExpr 0 n) (rbrace # rest)"
  by (auto simp: nud_def intro!: parses_expression [OF _ loop_stops [of _ 0]] parse_steps)

lemma parses_loop_block:
  "parses (parse_block_expression (parsers_upto (Suc n)))
    (lbrace # mk_token TK_LOOP ''loop'' # lbrace # rbrace # ident ''x'' # rbrace # rest)
    (BlockExpr 0 [ExprStmt 0 (LoopExpr 0 (BlockExpr 0 [] None False) True) False]
      (Some (ExprStmt 0 (IdentifierExpr 0 ''x'') False)) False) rest"
proof -
  let ?P = "parsers_upto (Suc n)"
  let ?loop = "ExprStmt 0 (LoopExpr 0 (BlockExpr 0 [] None False) False) False"
  let ?marked = "ExprStmt 0 (LoopExpr 0 (BlockExpr 0 [] None False) True) False"
  let ?x = "ExprStmt 0 (IdentifierExpr 0 ''x'') False"
  let ?b0 = "\<lparr>statements = [], tail_statement = None, tail_statement_has_semi = True\<rparr>"
  let ?b1 = "\<lparr>statements = [], tail_statement = Some ?loop, tail_statement_has_semi = False\<rparr>"
  let ?b2 = "\<lparr>statements = [?marked], tail_statement = Some ?x, tail_statement_has_semi = False\<rparr>"
  have "parses (parse_loop_expression ?P) (mk_token TK_LOOP ''loop'' # lbrace # rbrace # ident ''x'' # rbrace # rest)
      (LoopExpr 0 (BlockExpr 0 [] None False) False) (ident ''x'' # rbrace # rest)"
    using parses_empty_block [of "parsers_upto n" "ident ''x'' # rbrace # rest"]
    by (auto simp: parse_loop_expression_def intro!: parse_steps elim!: parses_bind)
  from parses_bind [OF this parses_no_semicolon(1)]
  have "parses (parse_statement ?P) (mk_token TK_LOOP ''loop'' # lbrace # rbrace # ident ''x'' # rbrace # rest)
      ?loop (ident ''x'' # rbrace # rest)"
    by (auto simp: parse_statement_def intro!: parse_steps)
  then have 1: "parses (block_step ?P ?b0) (mk_token TK_LOOP ''loop'' # lbrace # rbrace # ident ''x'' # rbrace # rest)
      (Inl ?b1) (ident ''x'' # rbrace # rest)"
    by (auto simp: block_step_def push_tail_def has_semi_def intro!: parse_steps elim!: parses_bind)
  from parses_bind [OF parses_name [of "parsers_upto n" "''x''" rest] parses_no_semicolon(2)]
  have "parses (parse_statement ?P) (ident ''x'' # rbrace # rest) ?x (rbrace # rest)"
    by (auto simp: parse_statement_def parse_expr_statement_def intro!: parse_steps)
  then have 2: "parses (block_step ?P ?b1) (ident ''x'' # rbrace # rest) (Inl ?b2) (rbrace # rest)"
    by (auto simp: block_step_def push_tail_def has_semi_def mark_must_return_unit_def
        intro!: parse_steps elim!: parses_bind)
  have 3: "parses (block_step ?P ?b2) (rbrace # rest) (Inr ?b2) (rbrace # rest)"
    by (auto simp: block_step_def intro!: parse_steps)
  have "parses (loop_tokens (block_step ?P) ?b0)
      (mk_token TK_LOOP ''loop'' # lbrace # rbrace # ident ''x'' # rbrace # rest) ?b2 (rbrace # rest)"
    by (rule parses_loop_more [where body = "block_step ?P", OF 1 _
          parses_loop_more [where body = "block_step ?P", OF 2 _
            parses_loop_done [where body = "block_step ?P", OF 3]]]) simp_all
  then show ?thesis
    by (auto simp: parse_block_expression_def finish_block_def intro!: parse_steps elim!: parses_bind)
qed

section \<open>Properties\<close>

text \<open>
  C9. The statements of a parsed block: the tail is an expression without a semicolon or
  absent, and every statement before it that has no semicolon is an \<open>if\<close>, \<open>loop\<close> or block
  marked \<open>must_return_unit\<close>, or a \<open>while\<close>. The block itself is not marked.
\<close>

theorem parsed_block_shape:
  assumes "parse_block_expression P lx = Inr (e, lx')"
  shows "\<exists>ss t. e = BlockExpr 0 ss t False \<and> list_all inner_ok ss
    \<and> (case t of None \<Rightarrow> True | Some st \<Rightarrow> \<not> has_semi st)"
proof -
  from assms obtain b lx1 lx2 where
    loop: "loop_tokens (block_step P)
      \<lparr>statements = [], tail_statement = None, tail_statement_has_semi = True\<rparr> lx1 = Inr (b, lx2)"
    and e: "e = finish_block b"
    by (auto simp: parse_block_expression_def pbind_def pret_def res_simps)
  have "block_inv b"
    by (rule loop_tokens_invariant [OF loop, where I = block_inv and Q = block_inv])
      (auto simp: block_inv_def [of "\<lparr>statements = [], tail_statement = None, tail_statement_has_semi = True\<rparr>"]
        intro: block_step_inv block_step_done)
  then show ?thesis
    by (auto simp: e finish_block_def block_inv_def semi_ok split: option.splits)
qed

theorem parsed_block_shape_witness:
  "\<exists>ss t. BlockExpr 0 [ExprStmt 0 (LoopExpr 0 (BlockExpr 0 [] None False) True) False]
      (Some (ExprStmt 0 (IdentifierExpr 0 ''x'') False)) False = BlockExpr 0 ss t False
    \<and> list_all inner_ok ss \<and> (case t of None \<Rightarrow> True | Some st \<Rightarrow> \<not> has_semi st)"
proof -
  obtain lx' where "parse_block_expression (parsers_upto (Suc 0))
      (mk_lexer [lbrace, mk_token TK_LOOP ''loop'', lbrace, rbrace, ident ''x'', rbrace])
    = Inr (BlockExpr 0 [ExprStmt 0 (LoopExpr 0 (BlockExpr 0 [] None False) True) False]
      (Some (ExprStmt 0 (IdentifierExpr 0 ''x'') False)) False, lx')"
    using parses_loop_block [of 0 "[]"] remaining_mk_lexer unfolding parses_def by blast
  then show ?thesis by (rule parsed_block_shape)
qed

end
