(* ===== verification/Controlflow.thy ===== *)
theory Controlflow
  imports NodeIds "HOL-Library.Word"
begin

section \<open>Control flow\<close>

text \<open>
  \<open>src/semantic/controlflow.cpp\<close>: the set of ways in which a node may complete, computed
  by the visitor \<open>ControlFlowVisitor\<close> into the map \<open>node_outcome_state_map\<close>, and the check
  that \<open>break\<close> and \<open>continue\<close> stand inside a loop.

  \<open>OutcomeState\<close> is \<open>std::bitset<4>\<close>, but \<open>DIVERGE\<close> has the index 4. Subscripts of a bitset
  are not checked; in libstdc++ the set is one \<open>unsigned long\<close> and the extra bit is kept, so
  the model has a word of 64 bits. A read \<open>m[k]\<close> of a missing key gives the empty set.
\<close>

unbundle bit_operations_syntax

datatype OutcomeType = NEXT | RETURN | BREAK | CONTINUE | DIVERGE

type_synonym OutcomeState = "64 word"

primrec outcome_index :: "OutcomeType \<Rightarrow> nat" where
  "outcome_index NEXT = 0"
| "outcome_index RETURN = 1"
| "outcome_index BREAK = 2"
| "outcome_index CONTINUE = 3"
| "outcome_index DIVERGE = 4"

definition get_outcome_state :: "OutcomeType list \<Rightarrow> OutcomeState" where
  "get_outcome_state states = foldl (\<lambda>r s. set_bit (outcome_index s) r) 0 states"

definition has_state :: "OutcomeState \<Rightarrow> OutcomeType \<Rightarrow> bool" where
  "has_state states s = bit states (outcome_index s)"

definition sequence_outcome_state :: "OutcomeState \<Rightarrow> OutcomeState \<Rightarrow> OutcomeState" where
  "sequence_outcome_state first second =
     (if has_state first NEXT
      then unset_bit (outcome_index NEXT) first OR second
      else first)"

definition ifelse_outcome_state :: "OutcomeState \<Rightarrow> OutcomeState \<Rightarrow> OutcomeState \<Rightarrow> OutcomeState" where
  "ifelse_outcome_state condition if_branch else_branch =
     (if \<not> has_state condition NEXT then condition
      else unset_bit (outcome_index NEXT) condition OR (if_branch OR else_branch))"

text \<open>The state \<open>r\<close> with the outcome \<open>s\<close> added when \<open>body\<close> has it.\<close>

definition add_from :: "OutcomeState \<Rightarrow> OutcomeType \<Rightarrow> OutcomeState \<Rightarrow> OutcomeState" where
  "add_from body s r = (if has_state body s then set_bit (outcome_index s) r else r)"

definition while_outcome_state :: "OutcomeState \<Rightarrow> OutcomeState \<Rightarrow> OutcomeState" where
  "while_outcome_state condition body =
     (if \<not> has_state condition NEXT then condition
      else add_from body RETURN (add_from body DIVERGE condition))"

definition loop_outcome_state :: "OutcomeState \<Rightarrow> OutcomeState" where
  "loop_outcome_state body =
     (if has_state body BREAK
      then add_from body RETURN (add_from body DIVERGE (get_outcome_state [NEXT]))
      else add_from body RETURN (get_outcome_state [DIVERGE]))"

subsection \<open>The visitor\<close>

record flow =
  loop_depth :: nat
  node_outcome_state_map :: "nat \<rightharpoonup> OutcomeState"

definition outcome_at :: "flow \<Rightarrow> nat \<Rightarrow> OutcomeState" where
  "outcome_at st k = (case node_outcome_state_map st k of Some s \<Rightarrow> s | None \<Rightarrow> 0)"

definition set_outcome :: "nat \<Rightarrow> OutcomeState \<Rightarrow> flow \<Rightarrow> flow" where
  "set_outcome k s st = st\<lparr>node_outcome_state_map := (node_outcome_state_map st)(k \<mapsto> s)\<rparr>"

abbreviation next_state :: OutcomeState where "next_state \<equiv> get_outcome_state [NEXT]"

text \<open>The children of a node in turn, and a child that may be absent.\<close>

primrec visit_all :: "('s \<Rightarrow> 's res) list \<Rightarrow> 's \<Rightarrow> 's res" where
  "visit_all [] st = Inr st"
| "visit_all (f # fs) st = bindr (f st) (visit_all fs)"

primrec visit_opt :: "('s \<Rightarrow> 's res) option \<Rightarrow> 's \<Rightarrow> 's res" where
  "visit_opt None st = Inr st"
| "visit_opt (Some f) st = f st"

primrec visit_pattern :: "pattern \<Rightarrow> flow \<Rightarrow> flow res" where
  "visit_pattern (IdentifierPattern k _ _ _) st = Inr (set_outcome k next_state st)"

definition visit_param :: "pattern \<times> (flow \<Rightarrow> flow res) \<Rightarrow> flow \<Rightarrow> flow res" where
  "visit_param p st = bindr (visit_pattern (fst p) st) (snd p)"

text \<open>The state after the children in order, as the loops over arguments and statements compute it.\<close>

definition sequence_at :: "flow \<Rightarrow> nat list \<Rightarrow> OutcomeState" where
  "sequence_at st ks = foldl (\<lambda>s k. sequence_outcome_state s (outcome_at st k)) next_state ks"

primrec visit_type :: "type_node \<Rightarrow> flow \<Rightarrow> flow res"
  and visit_expr :: "expr \<Rightarrow> flow \<Rightarrow> flow res"
  and visit_stmt :: "stmt \<Rightarrow> flow \<Rightarrow> flow res"
  and visit_item :: "item \<Rightarrow> flow \<Rightarrow> flow res"
where
  "visit_type (PathType k _ _) st = Inr (set_outcome k next_state st)"
| "visit_type (ArrayType k _ t e) st =
     bindr (visit_type t st) (\<lambda>st. bindr (visit_expr e st) (\<lambda>st. Inr (set_outcome k next_state st)))"
| "visit_type (UnitType k _) st = Inr (set_outcome k next_state st)"
| "visit_type (SelfType k _) st = Inr (set_outcome k next_state st)"
| "visit_expr (LiteralExpr k _ _) st = Inr (set_outcome k next_state st)"
| "visit_expr (IdentifierExpr k _) st = Inr (set_outcome k next_state st)"
| "visit_expr (BinaryExpr k _ l r) st =
     bindr (visit_expr l st) (\<lambda>st. bindr (visit_expr r st) (\<lambda>st.
       Inr (set_outcome k (sequence_outcome_state (outcome_at st (expr_id l)) (outcome_at st (expr_id r))) st)))"
| "visit_expr (UnaryExpr k _ r) st = bindr (visit_expr r st) (\<lambda>st. Inr (set_outcome k next_state st))"
| "visit_expr (CallExpr k c args) st =
     bindr (visit_expr c st) (\<lambda>st. bindr (visit_all (map visit_expr args) st) (\<lambda>st.
       Inr (set_outcome k (sequence_at st (map expr_id args)) st)))"
| "visit_expr (FieldExpr k b _) st =
     bindr (visit_expr b st) (\<lambda>st. Inr (set_outcome k (outcome_at st (expr_id b)) st))"
| "visit_expr (StructExpr k t fs) st =
     bindr (visit_type t st) (\<lambda>st. bindr (visit_all (map snd (map (map_prod id visit_expr) fs)) st) (\<lambda>st.
       Inr (set_outcome k (sequence_at st (map (\<lambda>f. expr_id (snd f)) fs)) st)))"
| "visit_expr (IndexExpr k b i) st =
     bindr (visit_expr b st) (\<lambda>st. bindr (visit_expr i st) (\<lambda>st.
       Inr (set_outcome k (sequence_outcome_state (outcome_at st (expr_id b)) (outcome_at st (expr_id i))) st)))"
| "visit_expr (BlockExpr k ss t _) st =
     bindr (visit_all (map visit_stmt ss) st) (\<lambda>st. bindr (visit_opt (map_option visit_stmt t) st) (\<lambda>st.
       let s = sequence_at st (map stmt_id ss);
           s = (case t of Some t \<Rightarrow> sequence_outcome_state s (outcome_at st (stmt_id t)) | None \<Rightarrow> s)
       in Inr (set_outcome k s st)))"
| "visit_expr (IfExpr k c a b _) st =
     bindr (visit_expr c st) (\<lambda>st. bindr (visit_expr a st) (\<lambda>st.
     bindr (visit_opt (map_option visit_expr b) st) (\<lambda>st.
       Inr (set_outcome k
         (ifelse_outcome_state (outcome_at st (expr_id c)) (outcome_at st (expr_id a))
           (case b of None \<Rightarrow> next_state | Some b \<Rightarrow> outcome_at st (expr_id b))) st))))"
| "visit_expr (WhileExpr k c b) st =
     bindr (visit_expr c (st\<lparr>loop_depth := loop_depth st + 1\<rparr>)) (\<lambda>st. bindr (visit_expr b st) (\<lambda>st.
       let st = st\<lparr>loop_depth := loop_depth st - 1\<rparr>
       in Inr (set_outcome k
            (while_outcome_state (outcome_at st (expr_id c)) (outcome_at st (expr_id b))) st)))"
| "visit_expr (LoopExpr k b _) st =
     bindr (visit_expr b (st\<lparr>loop_depth := loop_depth st + 1\<rparr>)) (\<lambda>st.
       let st = st\<lparr>loop_depth := loop_depth st - 1\<rparr>
       in Inr (set_outcome k (loop_outcome_state (outcome_at st (expr_id b))) st))"
| "visit_expr (ReturnExpr k v) st =
     bindr (visit_opt (map_option visit_expr v) st) (\<lambda>st.
       Inr (set_outcome k (get_outcome_state [RETURN]) st))"
| "visit_expr (BreakExpr k v) st =
     (if loop_depth st = 0 then Inl (Thrown ''CE, break statement not in loop'')
      else bindr (visit_opt (map_option visit_expr v) st) (\<lambda>st.
        Inr (set_outcome k (get_outcome_state [BREAK]) st)))"
| "visit_expr (ContinueExpr k) st =
     (if loop_depth st = 0 then Inl (Thrown ''CE, continue statement not in loop'')
      else Inr (set_outcome k (get_outcome_state [BREAK]) st))"
| "visit_expr (CastExpr k e t) st =
     bindr (visit_expr e st) (\<lambda>st. bindr (visit_type t st) (\<lambda>st.
       Inr (set_outcome k (outcome_at st (expr_id e)) st)))"
| "visit_expr (PathExpr k t _) st = bindr (visit_type t st) (\<lambda>st. Inr (set_outcome k next_state st))"
| "visit_expr (SelfExpr k) st = Inr (set_outcome k next_state st)"
| "visit_expr (UnitExpr k) st = Inr (set_outcome k next_state st)"
| "visit_expr (ArrayExpr k es) st =
     bindr (visit_all (map visit_expr es) st) (\<lambda>st.
       Inr (set_outcome k (sequence_at st (map expr_id es)) st))"
| "visit_expr (RepeatArrayExpr k e s) st =
     bindr (visit_expr e st) (\<lambda>st. bindr (visit_expr s st) (\<lambda>st.
       Inr (set_outcome k (outcome_at st (expr_id e)) st)))"
| "visit_stmt (LetStmt k p t e) st =
     bindr (visit_pattern p st) (\<lambda>st. bindr (visit_type t st) (\<lambda>st.
     bindr (visit_opt (map_option visit_expr e) st) (\<lambda>st.
       Inr (set_outcome k (case e of None \<Rightarrow> next_state | Some e \<Rightarrow> outcome_at st (expr_id e)) st))))"
| "visit_stmt (ExprStmt k e _) st =
     bindr (visit_expr e st) (\<lambda>st. Inr (set_outcome k (outcome_at st (expr_id e)) st))"
| "visit_stmt (ItemStmt k i) st = bindr (visit_item i st) (\<lambda>st. Inr (set_outcome k next_state st))"
| "visit_item (FnItem k _ _ ps rt b) st =
     bindr (visit_all (map visit_param (map (map_prod id visit_type) ps)) (st\<lparr>loop_depth := 0\<rparr>)) (\<lambda>st1.
     bindr (visit_opt (map_option visit_type rt) st1) (\<lambda>st2. bindr (visit_expr b st2) (\<lambda>st3.
       Inr (set_outcome k next_state (st3\<lparr>loop_depth := loop_depth st\<rparr>)))))"
| "visit_item (StructItem k _ fs) st =
     bindr (visit_all (map snd (map (map_prod id visit_type) fs)) st) (\<lambda>st.
       Inr (set_outcome k next_state st))"
| "visit_item (EnumItem k _ _) st = Inr (set_outcome k next_state st)"
| "visit_item (ImplItem k _ ms) st =
     bindr (visit_all (map visit_item ms) st) (\<lambda>st. Inr (set_outcome k next_state st))"
| "visit_item (ConstItem k _ t e) st =
     bindr (visit_type t st) (\<lambda>st. bindr (visit_expr e st) (\<lambda>st. Inr (set_outcome k next_state st)))"

text \<open>The pass over a program, as the semantic checker runs it.\<close>

definition control_flow :: "item list \<Rightarrow> (nat \<rightharpoonup> OutcomeState) res" where
  "control_flow items =
     bindr (visit_all (map visit_item items) \<lparr>loop_depth = 0, node_outcome_state_map = Map.empty\<rparr>)
       (\<lambda>st. Inr (node_outcome_state_map st))"

end
