(* ===== verification/ControlflowProps.thy ===== *)
theory ControlflowProps
  imports Controlflow
begin

section \<open>The outcome of a node as a function of the tree\<close>

text \<open>
  The visitor writes outcomes into a map keyed by node ids and reads those of the children
  back from it. \<open>outcome_expr\<close> computes the same set from the tree alone, \<open>outs_expr\<close> the
  part of the map that a visit writes, and \<open>jumps_expr\<close> the error that it throws, if any.
  When the ids are distinct, as after \<open>assign_ids\<close>, the visitor computes just that.
\<close>

definition seq_all :: "OutcomeState list \<Rightarrow> OutcomeState" where
  "seq_all ss = foldl sequence_outcome_state next_state ss"

primrec outcome_expr :: "expr \<Rightarrow> OutcomeState"
  and outcome_stmt :: "stmt \<Rightarrow> OutcomeState"
  and outcome_type :: "type_node \<Rightarrow> OutcomeState"
  and outcome_item :: "item \<Rightarrow> OutcomeState"
where
  "outcome_expr (LiteralExpr _ _ _) = next_state"
| "outcome_expr (IdentifierExpr _ _) = next_state"
| "outcome_expr (BinaryExpr _ _ l r) = sequence_outcome_state (outcome_expr l) (outcome_expr r)"
| "outcome_expr (UnaryExpr _ _ r) = next_state"
| "outcome_expr (CallExpr _ c args) = seq_all (map outcome_expr args)"
| "outcome_expr (FieldExpr _ b _) = outcome_expr b"
| "outcome_expr (StructExpr _ t fs) = seq_all (map snd (map (map_prod id outcome_expr) fs))"
| "outcome_expr (IndexExpr _ b i) = sequence_outcome_state (outcome_expr b) (outcome_expr i)"
| "outcome_expr (BlockExpr _ ss t _) =
     (let s = seq_all (map outcome_stmt ss)
      in case map_option outcome_stmt t of Some x \<Rightarrow> sequence_outcome_state s x | None \<Rightarrow> s)"
| "outcome_expr (IfExpr _ c a b _) =
     ifelse_outcome_state (outcome_expr c) (outcome_expr a)
       (case map_option outcome_expr b of None \<Rightarrow> next_state | Some x \<Rightarrow> x)"
| "outcome_expr (WhileExpr _ c b) = while_outcome_state (outcome_expr c) (outcome_expr b)"
| "outcome_expr (LoopExpr _ b _) = loop_outcome_state (outcome_expr b)"
| "outcome_expr (ReturnExpr _ _) = get_outcome_state [RETURN]"
| "outcome_expr (BreakExpr _ _) = get_outcome_state [BREAK]"
| "outcome_expr (ContinueExpr _) = get_outcome_state [BREAK]"
| "outcome_expr (CastExpr _ e _) = outcome_expr e"
| "outcome_expr (PathExpr _ _ _) = next_state"
| "outcome_expr (SelfExpr _) = next_state"
| "outcome_expr (UnitExpr _) = next_state"
| "outcome_expr (ArrayExpr _ es) = seq_all (map outcome_expr es)"
| "outcome_expr (RepeatArrayExpr _ e _) = outcome_expr e"
| "outcome_stmt (LetStmt _ _ _ e) = (case map_option outcome_expr e of None \<Rightarrow> next_state | Some x \<Rightarrow> x)"
| "outcome_stmt (ExprStmt _ e _) = outcome_expr e"
| "outcome_stmt (ItemStmt _ _) = next_state"
| "outcome_type (PathType _ _ _) = next_state"
| "outcome_type (ArrayType _ _ _ _) = next_state"
| "outcome_type (UnitType _ _) = next_state"
| "outcome_type (SelfType _ _) = next_state"
| "outcome_item (FnItem _ _ _ _ _ _) = next_state"
| "outcome_item (StructItem _ _ _) = next_state"
| "outcome_item (EnumItem _ _ _) = next_state"
| "outcome_item (ImplItem _ _ _) = next_state"
| "outcome_item (ConstItem _ _ _ _) = next_state"

definition maps_all :: "(nat \<rightharpoonup> OutcomeState) list \<Rightarrow> (nat \<rightharpoonup> OutcomeState)" where
  "maps_all ms = foldr (\<lambda>m r. m ++ r) ms Map.empty"

primrec map_opt :: "(nat \<rightharpoonup> OutcomeState) option \<Rightarrow> (nat \<rightharpoonup> OutcomeState)" where
  "map_opt None = Map.empty"
| "map_opt (Some m) = m"

definition out_param :: "pattern \<times> (nat \<rightharpoonup> OutcomeState) \<Rightarrow> (nat \<rightharpoonup> OutcomeState)" where
  "out_param p = [pattern_id (fst p) \<mapsto> next_state] ++ snd p"

primrec outs_type :: "type_node \<Rightarrow> (nat \<rightharpoonup> OutcomeState)"
  and outs_expr :: "expr \<Rightarrow> (nat \<rightharpoonup> OutcomeState)"
  and outs_stmt :: "stmt \<Rightarrow> (nat \<rightharpoonup> OutcomeState)"
  and outs_item :: "item \<Rightarrow> (nat \<rightharpoonup> OutcomeState)"
where
  "outs_type (PathType k r n) = [k \<mapsto> next_state]"
| "outs_type (ArrayType k r t e) = (outs_type t ++ outs_expr e)(k \<mapsto> next_state)"
| "outs_type (UnitType k r) = [k \<mapsto> next_state]"
| "outs_type (SelfType k r) = [k \<mapsto> next_state]"
| "outs_expr (LiteralExpr k l v) =
     (Map.empty)(k \<mapsto> outcome_expr (LiteralExpr k l v))"
| "outs_expr (IdentifierExpr k n) =
     (Map.empty)(k \<mapsto> outcome_expr (IdentifierExpr k n))"
| "outs_expr (BinaryExpr k op l r) =
     (outs_expr l ++ outs_expr r)(k \<mapsto> outcome_expr (BinaryExpr k op l r))"
| "outs_expr (UnaryExpr k op r) =
     (outs_expr r)(k \<mapsto> outcome_expr (UnaryExpr k op r))"
| "outs_expr (CallExpr k c args) =
     (outs_expr c ++ maps_all (map outs_expr args))(k \<mapsto> outcome_expr (CallExpr k c args))"
| "outs_expr (FieldExpr k b n) =
     (outs_expr b)(k \<mapsto> outcome_expr (FieldExpr k b n))"
| "outs_expr (StructExpr k t fs) =
     (outs_type t ++ maps_all (map snd (map (map_prod id outs_expr) fs)))(k \<mapsto> outcome_expr (StructExpr k t fs))"
| "outs_expr (IndexExpr k b i) =
     (outs_expr b ++ outs_expr i)(k \<mapsto> outcome_expr (IndexExpr k b i))"
| "outs_expr (BlockExpr k ss t u) =
     (maps_all (map outs_stmt ss) ++ map_opt (map_option outs_stmt t))(k \<mapsto> outcome_expr (BlockExpr k ss t u))"
| "outs_expr (IfExpr k c a b u) =
     (outs_expr c ++ outs_expr a ++ map_opt (map_option outs_expr b))(k \<mapsto> outcome_expr (IfExpr k c a b u))"
| "outs_expr (WhileExpr k c b) =
     (outs_expr c ++ outs_expr b)(k \<mapsto> outcome_expr (WhileExpr k c b))"
| "outs_expr (LoopExpr k b u) =
     (outs_expr b)(k \<mapsto> outcome_expr (LoopExpr k b u))"
| "outs_expr (ReturnExpr k v) =
     (map_opt (map_option outs_expr v))(k \<mapsto> outcome_expr (ReturnExpr k v))"
| "outs_expr (BreakExpr k v) =
     (map_opt (map_option outs_expr v))(k \<mapsto> outcome_expr (BreakExpr k v))"
| "outs_expr (ContinueExpr k) =
     (Map.empty)(k \<mapsto> outcome_expr (ContinueExpr k))"
| "outs_expr (CastExpr k e t) =
     (outs_expr e ++ outs_type t)(k \<mapsto> outcome_expr (CastExpr k e t))"
| "outs_expr (PathExpr k t n) =
     (outs_type t)(k \<mapsto> outcome_expr (PathExpr k t n))"
| "outs_expr (SelfExpr k) =
     (Map.empty)(k \<mapsto> outcome_expr (SelfExpr k))"
| "outs_expr (UnitExpr k) =
     (Map.empty)(k \<mapsto> outcome_expr (UnitExpr k))"
| "outs_expr (ArrayExpr k es) =
     (maps_all (map outs_expr es))(k \<mapsto> outcome_expr (ArrayExpr k es))"
| "outs_expr (RepeatArrayExpr k e s) =
     (outs_expr e ++ outs_expr s)(k \<mapsto> outcome_expr (RepeatArrayExpr k e s))"
| "outs_stmt (LetStmt k p t e) =
     ([pattern_id p \<mapsto> next_state] ++ outs_type t ++ map_opt (map_option outs_expr e))(k \<mapsto> outcome_stmt (LetStmt k p t e))"
| "outs_stmt (ExprStmt k e s) =
     (outs_expr e)(k \<mapsto> outcome_stmt (ExprStmt k e s))"
| "outs_stmt (ItemStmt k i) =
     (outs_item i)(k \<mapsto> outcome_stmt (ItemStmt k i))"
| "outs_item (FnItem k n rc ps rt b) =
     (maps_all (map out_param (map (map_prod id outs_type) ps)) ++ map_opt (map_option outs_type rt) ++ outs_expr b)(k \<mapsto> next_state)"
| "outs_item (StructItem k n fs) =
     (maps_all (map snd (map (map_prod id outs_type) fs)))(k \<mapsto> next_state)"
| "outs_item (EnumItem k n vs) =
     (Map.empty)(k \<mapsto> next_state)"
| "outs_item (ImplItem k n ms) =
     (maps_all (map outs_item ms))(k \<mapsto> next_state)"
| "outs_item (ConstItem k n t e) =
     (outs_type t ++ outs_expr e)(k \<mapsto> next_state)"

text \<open>The first error in the order of the visit; the argument is the loop depth.\<close>

definition or_else :: "err option \<Rightarrow> err option \<Rightarrow> err option" where
  "or_else a b = (case a of None \<Rightarrow> b | Some e \<Rightarrow> Some e)"

definition first_error :: "(nat \<Rightarrow> err option) list \<Rightarrow> nat \<Rightarrow> err option" where
  "first_error fs d = foldr (\<lambda>f r. or_else (f d) r) fs None"

primrec opt_error :: "(nat \<Rightarrow> err option) option \<Rightarrow> nat \<Rightarrow> err option" where
  "opt_error None d = None"
| "opt_error (Some f) d = f d"

primrec jumps_type :: "type_node \<Rightarrow> nat \<Rightarrow> err option"
  and jumps_expr :: "expr \<Rightarrow> nat \<Rightarrow> err option"
  and jumps_stmt :: "stmt \<Rightarrow> nat \<Rightarrow> err option"
  and jumps_item :: "item \<Rightarrow> nat \<Rightarrow> err option"
where
  "jumps_type (PathType k r n) d = None"
| "jumps_type (ArrayType k r t e) d = or_else (jumps_type t d) (jumps_expr e d)"
| "jumps_type (UnitType k r) d = None"
| "jumps_type (SelfType k r) d = None"
| "jumps_expr (LiteralExpr k l v) d =
     None"
| "jumps_expr (IdentifierExpr k n) d =
     None"
| "jumps_expr (BinaryExpr k op l r) d =
     or_else (jumps_expr l d) (jumps_expr r d)"
| "jumps_expr (UnaryExpr k op r) d =
     jumps_expr r d"
| "jumps_expr (CallExpr k c args) d =
     or_else (jumps_expr c d) (first_error (map jumps_expr args) d)"
| "jumps_expr (FieldExpr k b n) d =
     jumps_expr b d"
| "jumps_expr (StructExpr k t fs) d =
     or_else (jumps_type t d) (first_error (map snd (map (map_prod id jumps_expr) fs)) d)"
| "jumps_expr (IndexExpr k b i) d =
     or_else (jumps_expr b d) (jumps_expr i d)"
| "jumps_expr (BlockExpr k ss t u) d =
     or_else (first_error (map jumps_stmt ss) d) (opt_error (map_option jumps_stmt t) d)"
| "jumps_expr (IfExpr k c a b u) d =
     or_else (jumps_expr c d) (or_else (jumps_expr a d) (opt_error (map_option jumps_expr b) d))"
| "jumps_expr (WhileExpr k c b) d =
     or_else (jumps_expr c (d + 1)) (jumps_expr b (d + 1))"
| "jumps_expr (LoopExpr k b u) d =
     jumps_expr b (d + 1)"
| "jumps_expr (ReturnExpr k v) d =
     opt_error (map_option jumps_expr v) d"
| "jumps_expr (BreakExpr k v) d =
     (if d = 0 then Some (Thrown ''CE, break statement not in loop'')
      else opt_error (map_option jumps_expr v) d)"
| "jumps_expr (ContinueExpr k) d =
     (if d = 0 then Some (Thrown ''CE, continue statement not in loop'') else None)"
| "jumps_expr (CastExpr k e t) d =
     or_else (jumps_expr e d) (jumps_type t d)"
| "jumps_expr (PathExpr k t n) d =
     jumps_type t d"
| "jumps_expr (SelfExpr k) d =
     None"
| "jumps_expr (UnitExpr k) d =
     None"
| "jumps_expr (ArrayExpr k es) d =
     first_error (map jumps_expr es) d"
| "jumps_expr (RepeatArrayExpr k e s) d =
     or_else (jumps_expr e d) (jumps_expr s d)"
| "jumps_stmt (LetStmt k p t e) d =
     or_else (jumps_type t d) (opt_error (map_option jumps_expr e) d)"
| "jumps_stmt (ExprStmt k e s) d =
     jumps_expr e d"
| "jumps_stmt (ItemStmt k i) d =
     jumps_item i d"
| "jumps_item (FnItem k n rc ps rt b) d =
     or_else (first_error (map snd (map (map_prod id jumps_type) ps)) 0)
       (or_else (opt_error (map_option jumps_type rt) 0) (jumps_expr b 0))"
| "jumps_item (StructItem k n fs) d =
     first_error (map snd (map (map_prod id jumps_type) fs)) d"
| "jumps_item (EnumItem k n vs) d =
     None"
| "jumps_item (ImplItem k n ms) d =
     first_error (map jumps_item ms) d"
| "jumps_item (ConstItem k n t e) d =
     or_else (jumps_type t d) (jumps_expr e d)"

subsection \<open>The visitor computes it\<close>

definition visits :: "(flow \<Rightarrow> flow res) \<Rightarrow> (nat \<rightharpoonup> OutcomeState) \<Rightarrow> (nat \<Rightarrow> err option) \<Rightarrow> bool" where
  "visits f out je \<longleftrightarrow> (\<forall>st. f st = (case je (loop_depth st) of
      Some e \<Rightarrow> Inl e
    | None \<Rightarrow> Inr (st\<lparr>node_outcome_state_map := node_outcome_state_map st ++ out\<rparr>)))"

lemma visitsD:
  "visits f out je \<Longrightarrow> f st = (case je (loop_depth st) of
      Some e \<Rightarrow> Inl e
    | None \<Rightarrow> Inr (st\<lparr>node_outcome_state_map := node_outcome_state_map st ++ out\<rparr>))"
  by (simp add: visits_def)

lemma or_else_simps [simp]: "or_else None b = b" "or_else (Some e) b = Some e"
  by (simp_all add: or_else_def)

lemma first_error_simps [simp]:
  "first_error [] d = None" "first_error (f # fs) d = or_else (f d) (first_error fs d)"
  by (simp_all add: first_error_def)

lemma maps_all_simps [simp]: "maps_all [] = Map.empty" "maps_all (m # ms) = m ++ maps_all ms"
  by (simp_all add: maps_all_def)

lemma visits_all:
  assumes "\<forall>x \<in> set xs. visits (f x) (out x) (je x)"
  shows "visits (visit_all (map f xs)) (maps_all (map out xs)) (first_error (map je xs))"
  using assms
proof (induction xs)
  case Nil
  then show ?case by (simp add: visits_def)
next
  case (Cons x xs)
  from visitsD [OF Cons.IH] Cons.prems have xs: "visit_all (map f xs) st = (case first_error (map je xs) (loop_depth st) of
      Some e \<Rightarrow> Inl e
    | None \<Rightarrow> Inr (st\<lparr>node_outcome_state_map := node_outcome_state_map st ++ maps_all (map out xs)\<rparr>))" for st
    by simp
  from Cons.prems have x: "f x st = (case je x (loop_depth st) of
      Some e \<Rightarrow> Inl e
    | None \<Rightarrow> Inr (st\<lparr>node_outcome_state_map := node_outcome_state_map st ++ out x\<rparr>))" for st
    by (simp add: visitsD)
  show ?case unfolding visits_def by (simp add: x xs split: option.split)
qed

lemma visits_opt:
  "(\<And>x. x \<in> set_option v \<Longrightarrow> visits (f x) (out x) (je x)) \<Longrightarrow>
    visits (visit_opt (map_option f v)) (map_opt (map_option out v)) (opt_error (map_option je v))"
  by (cases v) (simp_all add: visits_def)

lemma visits_param:
  "visits f out je \<Longrightarrow> visits (visit_param (p, f)) (out_param (p, out)) je"
  by (cases p) (simp add: visits_def visit_param_def out_param_def set_outcome_def split: option.split)

text \<open>Where the written entries are.\<close>

lemma dom_maps_all: "dom (maps_all ms) = \<Union> (dom ` set ms)"
  by (induction ms) auto

lemma param_ids_pattern: "param_ids p = [pattern_id p]"
  by (cases p) simp

lemma dom_map_opt [simp]: "dom (map_opt (map_option out v)) = (case v of None \<Rightarrow> {} | Some x \<Rightarrow> dom (out x))"
  by (cases v) auto

lemma set_opt_list [simp]: "set (opt_list (map_option ids v)) = (case v of None \<Rightarrow> {} | Some x \<Rightarrow> set (ids x))"
  by (cases v) auto

lemma dom_maps_list:
  "(\<And>x. x \<in> set xs \<Longrightarrow> dom (out x) = set (ids x)) \<Longrightarrow>
    dom (maps_all (map out xs)) = set (concat (map ids xs))"
  by (induction xs) (simp_all add: Un_commute)

lemma dom_maps_fields:
  assumes "\<And>p x. p \<in> set xs \<Longrightarrow> x \<in> Basic_BNFs.snds p \<Longrightarrow> dom (out x) = set (ids x)"
  shows "dom (maps_all (map snd (map (map_prod id out) xs))) = set (concat (map snd (map (map_prod id ids) xs)))"
proof -
  have "dom (out (snd p)) = set (ids (snd p))" if "p \<in> set xs" for p
    using assms [OF that, of "snd p"] by (cases p) simp
  from dom_maps_list [of xs "\<lambda>p. out (snd p)" "\<lambda>p. ids (snd p)", OF this] show ?thesis
    by (simp add: comp_def)
qed

lemma dom_maps_params:
  assumes "\<And>p x. p \<in> set xs \<Longrightarrow> x \<in> Basic_BNFs.snds p \<Longrightarrow> dom (out x) = set (ids x)"
  shows "dom (maps_all (map out_param (map (map_prod id out) xs)))
    = set (concat (map (\<lambda>(p, x). param_ids p @ x) (map (map_prod id ids) xs)))"
proof -
  have "dom (out_param (fst p, out (snd p))) = set (param_ids (fst p) @ ids (snd p))" if "p \<in> set xs" for p
    using assms [OF that, of "snd p"] by (cases p) (simp add: out_param_def param_ids_pattern)
  from dom_maps_list [of xs "\<lambda>p. out_param (fst p, out (snd p))" "\<lambda>p. param_ids (fst p) @ ids (snd p)", OF this]
  show ?thesis by (simp add: comp_def case_prod_unfold map_prod_def)
qed

lemma dom_outs:
  "dom (outs_type t) = set (ids_type t)" "dom (outs_expr e) = set (ids_expr e)"
  "dom (outs_stmt st) = set (ids_stmt st)" "dom (outs_item i) = set (ids_item i)"
proof (induct t and e and st and i)
  case (CallExpr k c args)
  then show ?case using dom_maps_list [of args outs_expr ids_expr, OF CallExpr(2)]
    unfolding outs_expr.simps ids_expr.simps dom_fun_upd dom_map_add by auto
next
  case (StructExpr k t fs)
  then show ?case using dom_maps_fields [of fs outs_expr ids_expr, OF StructExpr(2)]
    unfolding outs_expr.simps ids_expr.simps dom_fun_upd dom_map_add by auto
next
  case (BlockExpr k ss t u)
  then show ?case using dom_maps_list [of ss outs_stmt ids_stmt, OF BlockExpr(1)]
    unfolding outs_expr.simps ids_expr.simps dom_fun_upd dom_map_add by (auto split: option.split)
next
  case (ArrayExpr k es)
  then show ?case using dom_maps_list [of es outs_expr ids_expr, OF ArrayExpr] unfolding outs_expr.simps ids_expr.simps dom_fun_upd by auto
next
  case (FnItem k n rc ps rt b)
  then show ?case using dom_maps_params [of ps outs_type ids_type, OF FnItem(1)]
    unfolding outs_item.simps ids_item.simps dom_fun_upd dom_map_add by (auto split: option.split)
next
  case (StructItem k n fs)
  then show ?case using dom_maps_fields [of fs outs_type ids_type, OF StructItem]
    unfolding outs_item.simps ids_item.simps dom_fun_upd by auto
next
  case (ImplItem k n ms)
  then show ?case using dom_maps_list [of ms outs_item ids_item, OF ImplItem]
    unfolding outs_item.simps ids_item.simps dom_fun_upd by auto
qed (simp_all only: outs_type.simps outs_expr.simps outs_stmt.simps outs_item.simps dom_fun_upd
      dom_map_add ids_type.simps ids_expr.simps ids_stmt.simps ids_item.simps,
    simp_all add: param_ids_pattern Un_ac insert_commute split: option.split)

lemma outs_root [simp]:
  "outs_expr e (expr_id e) = Some (outcome_expr e)" "outs_stmt st (stmt_id st) = Some (outcome_stmt st)"
  by (cases e; simp) (cases st; simp)

lemma id_in_ids [simp]: "expr_id e \<in> set (ids_expr e)" "stmt_id st \<in> set (ids_stmt st)"
  by (cases e; simp) (cases st; simp)

text \<open>An entry survives what is written after it when the ids are apart.\<close>

lemma map_add_apart: "k \<notin> dom n \<Longrightarrow> (m ++ n) k = m k"
  by (rule map_add_dom_app_simps(3))

lemma maps_all_at:
  assumes "x \<in> set xs" "distinct (concat (map ids xs))" "\<forall>x \<in> set xs. dom (out x) = set (ids x)"
    and "key x \<in> set (ids x)" "out x (key x) = Some v"
  shows "maps_all (map out xs) (key x) = Some v"
  using assms
proof (induction xs)
  case (Cons y ys)
  show ?case
  proof (cases "x \<in> set ys")
    case True
    then show ?thesis using Cons by (simp add: map_add_Some_iff)
  next
    case False
    with Cons.prems have "x = y" by simp
    with Cons.prems have "key x \<notin> \<Union> (set ` ids ` set ys)" by auto
    then have "key x \<notin> dom (maps_all (map out ys))"
      using Cons.prems(3) dom_maps_list [of ys out ids] by auto
    with \<open>x = y\<close> Cons.prems(5) show ?thesis by (simp add: map_add_apart)
  qed
qed simp

lemma sequence_at_maps:
  assumes "distinct (concat (map ids xs))" "\<forall>x \<in> set xs. dom (out x) = set (ids x)"
    and "\<forall>x \<in> set xs. key x \<in> set (ids x) \<and> out x (key x) = Some (v x)"
  shows "sequence_at (st\<lparr>node_outcome_state_map := m ++ maps_all (map out xs)\<rparr>) (map key xs) = seq_all (map v xs)"
proof -
  have at: "outcome_at (st\<lparr>node_outcome_state_map := m ++ maps_all (map out xs)\<rparr>) (key x) = v x"
    if "x \<in> set xs" for x
    using maps_all_at [OF that assms(1,2)] assms(3) that
    by (simp add: outcome_at_def map_add_def)
  have "foldl (\<lambda>s k. sequence_outcome_state s (outcome_at st' k)) r (map key ys)
      = foldl sequence_outcome_state r (map v ys)"
    if "\<forall>x \<in> set ys. outcome_at st' (key x) = v x" for st' r ys
    using that by (induction ys arbitrary: r) simp_all
  with at show ?thesis by (simp add: sequence_at_def seq_all_def)
qed

lemmas visit_simps = visits_def set_outcome_def outcome_at_def map_add_apart dom_outs disjoint_iff

lemma distinct_parts: "distinct (concat (map ids xs)) \<Longrightarrow> x \<in> set xs \<Longrightarrow> distinct (ids x)"
  by (induction xs) auto

lemma visits_list:
  assumes "\<And>x. x \<in> set xs \<Longrightarrow> distinct (ids x) \<Longrightarrow> visits (f x) (out x) (je x)"
    and "distinct (concat (map ids xs))"
  shows "visits (visit_all (map f xs)) (maps_all (map out xs)) (first_error (map je xs))"
  by (rule visits_all) (auto intro: assms(1) distinct_parts [OF assms(2)])

lemma visits_fields:
  assumes "\<And>p x. p \<in> set xs \<Longrightarrow> x \<in> Basic_BNFs.snds p \<Longrightarrow> distinct (ids x) \<Longrightarrow> visits (f x) (out x) (je x)"
    and "distinct (concat (map snd (map (map_prod id ids) xs)))"
  shows "visits (visit_all (map snd (map (map_prod id f) xs))) (maps_all (map snd (map (map_prod id out) xs)))
    (first_error (map snd (map (map_prod id je) xs)))"
proof -
  have "visits (f (snd p)) (out (snd p)) (je (snd p))" if "p \<in> set xs" "distinct (ids (snd p))" for p
    using assms(1) [OF that(1) _ that(2)] by (cases p) simp
  from visits_list [of xs "\<lambda>p. ids (snd p)" "\<lambda>p. f (snd p)" "\<lambda>p. out (snd p)" "\<lambda>p. je (snd p)", OF this] assms(2)
  show ?thesis by (simp add: comp_def)
qed

lemma visits_params:
  assumes "\<And>p x. p \<in> set xs \<Longrightarrow> x \<in> Basic_BNFs.snds p \<Longrightarrow> distinct (ids x) \<Longrightarrow> visits (f x) (out x) (je x)"
    and "distinct (concat (map (\<lambda>(p, x). param_ids p @ x) (map (map_prod id ids) xs)))"
  shows "visits (visit_all (map visit_param (map (map_prod id f) xs))) (maps_all (map out_param (map (map_prod id out) xs)))
    (first_error (map snd (map (map_prod id je) xs)))"
proof -
  have "visits (visit_param (fst p, f (snd p))) (out_param (fst p, out (snd p))) (je (snd p))"
    if "p \<in> set xs" "distinct (param_ids (fst p) @ ids (snd p))" for p
    using assms(1) [OF that(1), of "snd p"] that(2) by (cases p) (simp add: visits_param)
  from visits_list [of xs "\<lambda>p. param_ids (fst p) @ ids (snd p)" "\<lambda>p. visit_param (fst p, f (snd p))"
      "\<lambda>p. out_param (fst p, out (snd p))" "\<lambda>p. je (snd p)", OF this] assms(2)
  show ?thesis by (simp add: comp_def case_prod_unfold map_prod_def)
qed

lemma sequence_at_list:
  assumes "distinct (concat (map ids_expr es))"
  shows "sequence_at (st\<lparr>node_outcome_state_map := m ++ maps_all (map outs_expr es)\<rparr>) (map expr_id es)
    = seq_all (map outcome_expr es)"
  by (rule sequence_at_maps [where ids = ids_expr]) (use assms in \<open>simp_all add: dom_outs\<close>)

lemma sequence_at_stmts:
  assumes "distinct (concat (map ids_stmt ss))" "set (concat (map ids_stmt ss)) \<inter> dom n = {}"
  shows "sequence_at (st\<lparr>node_outcome_state_map := m ++ maps_all (map outs_stmt ss) ++ n\<rparr>) (map stmt_id ss)
    = seq_all (map outcome_stmt ss)"
proof -
  have "outcome_at (st\<lparr>node_outcome_state_map := m ++ maps_all (map outs_stmt ss) ++ n\<rparr>) k
      = outcome_at (st\<lparr>node_outcome_state_map := m ++ maps_all (map outs_stmt ss)\<rparr>) k"
    if "k \<in> set (map stmt_id ss)" for k
  proof -
    have "k \<in> set (concat (map ids_stmt ss))" using that by (auto intro: id_in_ids)
    with assms(2) have "k \<notin> dom n" by blast
    then show ?thesis by (simp add: outcome_at_def map_add_apart)
  qed
  then have "sequence_at (st\<lparr>node_outcome_state_map := m ++ maps_all (map outs_stmt ss) ++ n\<rparr>) (map stmt_id ss)
      = sequence_at (st\<lparr>node_outcome_state_map := m ++ maps_all (map outs_stmt ss)\<rparr>) (map stmt_id ss)"
    unfolding sequence_at_def by (intro foldl_cong) auto
  also have "\<dots> = seq_all (map outcome_stmt ss)"
    by (rule sequence_at_maps [where ids = ids_stmt]) (use assms(1) in \<open>simp_all add: dom_outs\<close>)
  finally show ?thesis .
qed

lemma sequence_at_fields:
  assumes "distinct (concat (map snd (map (map_prod id ids_expr) fs)))"
  shows "sequence_at (st\<lparr>node_outcome_state_map := m ++ maps_all (map snd (map (map_prod id outs_expr) fs))\<rparr>)
      (map (\<lambda>f. expr_id (snd f)) fs) = seq_all (map snd (map (map_prod id outcome_expr) fs))"
  using sequence_at_maps [of "\<lambda>f. ids_expr (snd f)" fs "\<lambda>f. outs_expr (snd f)" "\<lambda>f. expr_id (snd f)"
      "\<lambda>f. outcome_expr (snd f)"] assms
  by (simp add: comp_def dom_outs)

definition visited_type :: "type_node \<Rightarrow> bool" where
  "visited_type t \<longleftrightarrow> (distinct (ids_type t) \<longrightarrow> visits (visit_type t) (outs_type t) (jumps_type t))"

definition visited_expr :: "expr \<Rightarrow> bool" where
  "visited_expr e \<longleftrightarrow> (distinct (ids_expr e) \<longrightarrow> visits (visit_expr e) (outs_expr e) (jumps_expr e))"

definition visited_stmt :: "stmt \<Rightarrow> bool" where
  "visited_stmt s \<longleftrightarrow> (distinct (ids_stmt s) \<longrightarrow> visits (visit_stmt s) (outs_stmt s) (jumps_stmt s))"

definition visited_item :: "item \<Rightarrow> bool" where
  "visited_item i \<longleftrightarrow> (distinct (ids_item i) \<longrightarrow> visits (visit_item i) (outs_item i) (jumps_item i))"

lemmas visited_defs = visited_type_def visited_expr_def visited_stmt_def visited_item_def

lemma visit_correct: "visited_type t" "visited_expr e" "visited_stmt st" "visited_item i"
proof (induct t and e and st and i)
  case (BinaryExpr k op l r)
  then show ?case by (auto simp: visited_defs visit_simps simp del: map_map split: option.split)
next
  case (CallExpr k c args)
  show ?case unfolding visited_defs
  proof
    assume d: "distinct (ids_expr (CallExpr k c args))"
    have "visits (visit_all (map visit_expr args)) (maps_all (map outs_expr args)) (first_error (map jumps_expr args))"
      by (rule visits_list [where ids = ids_expr]) (use CallExpr d in \<open>simp_all add: visited_defs\<close>)
    with CallExpr d sequence_at_list [of args] show "visits (visit_expr (CallExpr k c args)) (outs_expr (CallExpr k c args)) (jumps_expr (CallExpr k c args))"
      by (auto simp: visited_defs visit_simps simp del: map_map split: option.split)
  qed
next
  case (StructExpr k t fs)
  show ?case unfolding visited_defs
  proof
    assume d: "distinct (ids_expr (StructExpr k t fs))"
    have "visits (visit_all (map snd (map (map_prod id visit_expr) fs)))
        (maps_all (map snd (map (map_prod id outs_expr) fs)))
        (first_error (map snd (map (map_prod id jumps_expr) fs)))"
      by (rule visits_fields [where ids = ids_expr]) (use StructExpr d in \<open>simp_all add: visited_defs\<close>)
    with StructExpr d sequence_at_fields [of fs] show "visits (visit_expr (StructExpr k t fs)) (outs_expr (StructExpr k t fs)) (jumps_expr (StructExpr k t fs))"
      by (auto simp: visited_defs visit_simps simp del: map_map split: option.split)
  qed
next
  case (BlockExpr k ss t u)
  show ?case unfolding visited_defs
  proof
    assume d: "distinct (ids_expr (BlockExpr k ss t u))"
    have ss: "visits (visit_all (map visit_stmt ss)) (maps_all (map outs_stmt ss)) (first_error (map jumps_stmt ss))"
      by (rule visits_list [where ids = ids_stmt]) (use BlockExpr d in \<open>simp_all add: visited_defs\<close>)
    show "visits (visit_expr (BlockExpr k ss t u)) (outs_expr (BlockExpr k ss t u)) (jumps_expr (BlockExpr k ss t u))"
    proof (cases t)
      case None
      with d ss sequence_at_stmts [of ss Map.empty] show ?thesis
        by (auto simp: visit_simps split: option.split)
    next
      case (Some st)
      with d have "set (concat (map ids_stmt ss)) \<inter> dom (outs_stmt st) = {}" by (auto simp: dom_outs)
      with Some BlockExpr(2) d ss sequence_at_stmts [of ss "outs_stmt st"] show ?thesis
        by (auto simp: visited_defs visit_simps split: option.split)
    qed
  qed
next
  case (IfExpr k c a b u)
  then show ?case by (cases b) (auto simp: visited_defs visit_simps split: option.split)
next
  case (ReturnExpr k v)
  then show ?case by (cases v) (auto simp: visited_defs visit_simps split: option.split)
next
  case (BreakExpr k v)
  then show ?case by (cases v) (auto simp: visited_defs visit_simps split: option.split)
next
  case (ArrayExpr k es)
  show ?case unfolding visited_defs
  proof
    assume d: "distinct (ids_expr (ArrayExpr k es))"
    have "visits (visit_all (map visit_expr es)) (maps_all (map outs_expr es)) (first_error (map jumps_expr es))"
      by (rule visits_list [where ids = ids_expr]) (use ArrayExpr d in \<open>simp_all add: visited_defs\<close>)
    with ArrayExpr d sequence_at_list [of es] show "visits (visit_expr (ArrayExpr k es)) (outs_expr (ArrayExpr k es)) (jumps_expr (ArrayExpr k es))"
      by (auto simp: visited_defs visit_simps simp del: map_map split: option.split)
  qed
next
  case (LetStmt k p t e)
  then show ?case
    by (cases p; cases e) (auto simp: visited_defs visit_simps split: option.split)
next
  case (FnItem k n rc ps rt b)
  show ?case unfolding visited_defs
  proof
    assume d: "distinct (ids_item (FnItem k n rc ps rt b))"
    have "visits (visit_all (map visit_param (map (map_prod id visit_type) ps)))
        (maps_all (map out_param (map (map_prod id outs_type) ps)))
        (first_error (map snd (map (map_prod id jumps_type) ps)))"
      by (rule visits_params [where ids = ids_type]) (use FnItem d in \<open>simp_all add: visited_defs\<close>)
    with FnItem d show "visits (visit_item (FnItem k n rc ps rt b)) (outs_item (FnItem k n rc ps rt b))
        (jumps_item (FnItem k n rc ps rt b))"
      by (cases rt) (auto simp: visited_defs visit_simps simp del: map_map split: option.split)
  qed
next
  case (StructItem k n fs)
  show ?case unfolding visited_defs
  proof
    assume d: "distinct (ids_item (StructItem k n fs))"
    have "visits (visit_all (map snd (map (map_prod id visit_type) fs)))
        (maps_all (map snd (map (map_prod id outs_type) fs)))
        (first_error (map snd (map (map_prod id jumps_type) fs)))"
      by (rule visits_fields [where ids = ids_type]) (use StructItem d in \<open>simp_all add: visited_defs\<close>)
    with StructItem d show "visits (visit_item (StructItem k n fs)) (outs_item (StructItem k n fs)) (jumps_item (StructItem k n fs))"
      by (auto simp: visited_defs visit_simps simp del: map_map split: option.split)
  qed
next
  case (ImplItem k n ms)
  show ?case unfolding visited_defs
  proof
    assume d: "distinct (ids_item (ImplItem k n ms))"
    have "visits (visit_all (map visit_item ms)) (maps_all (map outs_item ms)) (first_error (map jumps_item ms))"
      by (rule visits_list [where ids = ids_item]) (use ImplItem d in \<open>simp_all add: visited_defs\<close>)
    with ImplItem d show "visits (visit_item (ImplItem k n ms)) (outs_item (ImplItem k n ms)) (jumps_item (ImplItem k n ms))"
      by (auto simp: visited_defs visit_simps simp del: map_map split: option.split)
  qed
qed (auto simp: visited_defs visit_simps split: option.split)

lemma control_flow_aux:
  "control_flow (assign_ids items) = (case first_error (map jumps_item (assign_ids items)) 0 of
      Some e \<Rightarrow> Inl e
    | None \<Rightarrow> Inr (maps_all (map outs_item (assign_ids items))))"
proof -
  have "distinct (concat (map ids_item (assign_ids items)))"
    using parse_ids_numbers [of items] unfolding numbers_def assign_ids_def by simp
  then have "visits (visit_all (map visit_item (assign_ids items))) (maps_all (map outs_item (assign_ids items)))
      (first_error (map jumps_item (assign_ids items)))"
    by (intro visits_list [where ids = ids_item]) (use visit_correct(4) in \<open>auto simp: visited_item_def\<close>)
  then show ?thesis
    by (simp add: control_flow_def visits_def split: option.split)
qed

subsection \<open>The algebra of outcomes\<close>

named_theorems outcome_simps \<open>membership in computed outcome sets\<close>

lemma outcome_index_inj [simp]: "outcome_index s = outcome_index t \<longleftrightarrow> s = t"
  by (cases s; cases t) simp_all

lemma outcome_index_bound [simp]: "outcome_index s < 64"
  by (cases s) simp_all

lemma has_state_set_bit [outcome_simps]: "has_state (set_bit (outcome_index t) w) s \<longleftrightarrow> s = t \<or> has_state w s"
  by (auto simp: has_state_def bit_set_bit_iff)

lemma has_state_unset_bit [outcome_simps]: "has_state (unset_bit (outcome_index t) w) s \<longleftrightarrow> s \<noteq> t \<and> has_state w s"
  by (auto simp: has_state_def bit_unset_bit_iff)

lemma has_state_or [outcome_simps]: "has_state (v OR w) s \<longleftrightarrow> has_state v s \<or> has_state w s"
  by (simp add: has_state_def bit_or_iff)

lemma has_state_zero [outcome_simps]: "\<not> has_state 0 s"
  by (simp add: has_state_def)

lemma has_state_get [outcome_simps]: "has_state (get_outcome_state ss) s \<longleftrightarrow> s \<in> set ss"
proof -
  have "has_state (foldl (\<lambda>r s. set_bit (outcome_index s) r) r ss) s \<longleftrightarrow> has_state r s \<or> s \<in> set ss" for r
    by (induction ss arbitrary: r) (auto simp: outcome_simps)
  then show ?thesis by (simp add: get_outcome_state_def has_state_zero)
qed

lemma has_state_add_from [outcome_simps]:
  "has_state (add_from b t r) s \<longleftrightarrow> has_state r s \<or> s = t \<and> has_state b t"
  by (auto simp: add_from_def outcome_simps)

lemma has_state_sequence [outcome_simps]:
  "has_state (sequence_outcome_state v w) s \<longleftrightarrow>
     (if has_state v NEXT then s \<noteq> NEXT \<and> has_state v s \<or> has_state w s else has_state v s)"
  by (auto simp: sequence_outcome_state_def outcome_simps simp del: outcome_index.simps)

lemma has_state_ifelse [outcome_simps]:
  "has_state (ifelse_outcome_state c v w) s \<longleftrightarrow>
     (if has_state c NEXT then s \<noteq> NEXT \<and> has_state c s \<or> has_state v s \<or> has_state w s
      else has_state c s)"
  by (auto simp: ifelse_outcome_state_def outcome_simps simp del: outcome_index.simps)

lemma has_state_while [outcome_simps]:
  "has_state (while_outcome_state c b) s \<longleftrightarrow>
     has_state c s \<or> has_state c NEXT \<and> s \<in> {RETURN, DIVERGE} \<and> has_state b s"
  by (auto simp: while_outcome_state_def outcome_simps)

lemma has_state_loop [outcome_simps]:
  "has_state (loop_outcome_state b) s \<longleftrightarrow>
     s = NEXT \<and> has_state b BREAK \<or> s = RETURN \<and> has_state b RETURN
     \<or> s = DIVERGE \<and> (has_state b DIVERGE \<or> \<not> has_state b BREAK)"
  by (auto simp: loop_outcome_state_def outcome_simps)

text \<open>Sequences of parts with a neutral part: the order of bracketing does not matter.\<close>

locale sequencing =
  fixes seq :: "'o \<Rightarrow> 'o \<Rightarrow> 'o" and unit :: 'o
  assumes assoc: "seq (seq a b) c = seq a (seq b c)"
    and unit_left: "seq unit a = a"
    and unit_right: "seq a unit = a"
begin

lemma foldl_start: "foldl seq a xs = seq a (foldl seq unit xs)"
proof (induction xs arbitrary: a)
  case Nil
  show ?case by (simp add: unit_right)
next
  case (Cons x xs)
  show ?case by (simp add: Cons.IH [of "seq a x"] Cons.IH [of x] unit_left assoc)
qed

lemma foldl_Cons: "foldl seq unit (x # xs) = seq x (foldl seq unit xs)"
  using foldl_start [of x xs] by (simp add: unit_left)

lemma foldl_append: "foldl seq unit (xs @ ys) = seq (foldl seq unit xs) (foldl seq unit ys)"
  by (simp add: foldl_start [of "foldl seq unit xs"])

end

interpretation outcome: sequencing sequence_outcome_state next_state
proof
  fix a b c :: OutcomeState
  show "sequence_outcome_state (sequence_outcome_state a b) c
      = sequence_outcome_state a (sequence_outcome_state b c)"
    unfolding sequence_outcome_state_def has_state_def
    by (auto simp: bit_or_iff bit_unset_bit_iff intro!: bit_word_eqI)
  have next_bits: "bit next_state n \<longleftrightarrow> n = 0" for n
    by (auto simp: get_outcome_state_def bit_set_bit_iff bit_1_iff)
  show "sequence_outcome_state next_state a = a"
    unfolding sequence_outcome_state_def has_state_def
    by (auto simp: bit_or_iff bit_unset_bit_iff next_bits intro!: bit_word_eqI)
  show "sequence_outcome_state a next_state = a"
    unfolding sequence_outcome_state_def has_state_def
    by (auto simp: bit_or_iff bit_unset_bit_iff next_bits intro!: bit_word_eqI)
qed

lemma seq_all_simps [simp]:
  "seq_all [] = next_state" "seq_all (x # xs) = sequence_outcome_state x (seq_all xs)"
  by (simp add: seq_all_def) (simp add: seq_all_def outcome.foldl_Cons del: foldl.simps(2))

lemma seq_all_append: "seq_all (xs @ ys) = sequence_outcome_state (seq_all xs) (seq_all ys)"
  by (simp add: seq_all_def outcome.foldl_append del: foldl_append)

section \<open>How an expression may complete\<close>

text \<open>
  A reference semantics of completion, without values: a condition may be either, a call or
  an operator completes when its operands do, a loop repeats while its body ends normally or
  with \<open>continue\<close>. \<open>break\<close> and \<open>return\<close> evaluate their operand first, and the right operand
  of \<open>&&\<close> and \<open>||\<close> may be skipped.
\<close>

inductive completes :: "expr \<Rightarrow> OutcomeType \<Rightarrow> bool"
  and completes_all :: "expr list \<Rightarrow> OutcomeType \<Rightarrow> bool"
  and completes_stmt :: "stmt \<Rightarrow> OutcomeType \<Rightarrow> bool"
  and completes_stmts :: "stmt list \<Rightarrow> OutcomeType \<Rightarrow> bool"
where
  Literal: "completes (LiteralExpr k l v) NEXT"
| Identifier: "completes (IdentifierExpr k n) NEXT"
| Path: "completes (PathExpr k t n) NEXT"
| Self: "completes (SelfExpr k) NEXT"
| Unit: "completes (UnitExpr k) NEXT"
| Binary: "completes_all [l, r] s \<Longrightarrow> completes (BinaryExpr k op l r) s"
| Short: "op \<in> {BOP_AND_AND, BOP_OR_OR} \<Longrightarrow> completes l NEXT \<Longrightarrow> completes (BinaryExpr k op l r) NEXT"
| Unary: "completes r s \<Longrightarrow> completes (UnaryExpr k op r) s"
| Call: "completes_all (c # args) s \<Longrightarrow> completes (CallExpr k c args) s"
| Field: "completes b s \<Longrightarrow> completes (FieldExpr k b n) s"
| Struct: "completes_all (map snd fs) s \<Longrightarrow> completes (StructExpr k t fs) s"
| Index: "completes_all [b, i] s \<Longrightarrow> completes (IndexExpr k b i) s"
| Cast: "completes e s \<Longrightarrow> completes (CastExpr k e t) s"
| Array: "completes_all es s \<Longrightarrow> completes (ArrayExpr k es) s"
| Repeat: "completes_all [e, n] s \<Longrightarrow> completes (RepeatArrayExpr k e n) s"
| Block: "completes_stmts (case t of None \<Rightarrow> ss | Some st \<Rightarrow> ss @ [st]) s \<Longrightarrow> completes (BlockExpr k ss t u) s"
| IfCondition: "completes c s \<Longrightarrow> s \<noteq> NEXT \<Longrightarrow> completes (IfExpr k c a b u) s"
| IfThen: "completes c NEXT \<Longrightarrow> completes a s \<Longrightarrow> completes (IfExpr k c a b u) s"
| IfElse: "completes c NEXT \<Longrightarrow> completes e s \<Longrightarrow> completes (IfExpr k c a (Some e) u) s"
| IfNoElse: "completes c NEXT \<Longrightarrow> completes (IfExpr k c a None u) NEXT"
| WhileCondition: "completes c s \<Longrightarrow> s \<in> {RETURN, DIVERGE} \<Longrightarrow> completes (WhileExpr k c b) s"
| WhileLeft: "completes c s \<Longrightarrow> s \<in> {NEXT, BREAK} \<Longrightarrow> completes (WhileExpr k c b) NEXT"
| WhileBody: "completes c NEXT \<Longrightarrow> completes b s \<Longrightarrow> s \<in> {RETURN, DIVERGE} \<Longrightarrow> completes (WhileExpr k c b) s"
| WhileBreak: "completes c NEXT \<Longrightarrow> completes b BREAK \<Longrightarrow> completes (WhileExpr k c b) NEXT"
| WhileAgain: "completes c NEXT \<Longrightarrow> completes b s1 \<Longrightarrow> s1 \<in> {NEXT, CONTINUE} \<Longrightarrow>
    completes (WhileExpr k c b) s \<Longrightarrow> completes (WhileExpr k c b) s"
| LoopBody: "completes b s \<Longrightarrow> s \<in> {RETURN, DIVERGE} \<Longrightarrow> completes (LoopExpr k b u) s"
| LoopBreak: "completes b BREAK \<Longrightarrow> completes (LoopExpr k b u) NEXT"
| LoopAgain: "completes b s1 \<Longrightarrow> s1 \<in> {NEXT, CONTINUE} \<Longrightarrow> completes (LoopExpr k b u) s \<Longrightarrow>
    completes (LoopExpr k b u) s"
| Return: "completes (ReturnExpr k None) RETURN"
| ReturnValue: "completes v NEXT \<Longrightarrow> completes (ReturnExpr k (Some v)) RETURN"
| ReturnOther: "completes v s \<Longrightarrow> s \<noteq> NEXT \<Longrightarrow> completes (ReturnExpr k (Some v)) s"
| Break: "completes (BreakExpr k None) BREAK"
| BreakValue: "completes v NEXT \<Longrightarrow> completes (BreakExpr k (Some v)) BREAK"
| BreakOther: "completes v s \<Longrightarrow> s \<noteq> NEXT \<Longrightarrow> completes (BreakExpr k (Some v)) s"
| Continue: "completes (ContinueExpr k) CONTINUE"
| AllNil: "completes_all [] NEXT"
| AllStop: "completes e s \<Longrightarrow> s \<noteq> NEXT \<Longrightarrow> completes_all (e # es) s"
| AllCons: "completes e NEXT \<Longrightarrow> completes_all es s \<Longrightarrow> completes_all (e # es) s"
| LetDecl: "completes_stmt (LetStmt k p t None) NEXT"
| LetInit: "completes e s \<Longrightarrow> completes_stmt (LetStmt k p t (Some e)) s"
| Expr: "completes e s \<Longrightarrow> completes_stmt (ExprStmt k e semi) s"
| Item: "completes_stmt (ItemStmt k i) NEXT"
| StmtsNil: "completes_stmts [] NEXT"
| StmtsStop: "completes_stmt st s \<Longrightarrow> s \<noteq> NEXT \<Longrightarrow> completes_stmts (st # ss) s"
| StmtsCons: "completes_stmt st NEXT \<Longrightarrow> completes_stmts ss s \<Longrightarrow> completes_stmts (st # ss) s"

inductive_cases completes_identifierE: "completes (IdentifierExpr k n) s"
inductive_cases completes_continueE: "completes (ContinueExpr k) s"
inductive_cases completes_returnE: "completes (ReturnExpr k None) s"

text \<open>
  The subexpressions that the analysis does not follow: the operand of a unary operator, of
  \<open>return\<close> and \<open>break\<close>, the callee, the length of an array, a skippable right operand and
  a \<open>break\<close> in the condition of a \<open>while\<close>. \<open>regular e\<close> holds when nothing in these places
  jumps.
\<close>

definition straight :: "OutcomeState \<Rightarrow> bool" where
  "straight w \<longleftrightarrow> w = next_state"

primrec regular :: "expr \<Rightarrow> bool"
  and regular_stmt :: "stmt \<Rightarrow> bool"
  and regular_type :: "type_node \<Rightarrow> bool"
  and regular_item :: "item \<Rightarrow> bool"
where
  "regular (LiteralExpr _ _ _) = True"
| "regular (IdentifierExpr _ _) = True"
| "regular (BinaryExpr _ op l r) = (regular l \<and> regular r
     \<and> (op \<in> {BOP_AND_AND, BOP_OR_OR} \<longrightarrow> has_state (outcome_expr r) NEXT))"
| "regular (UnaryExpr _ _ r) = (regular r \<and> straight (outcome_expr r))"
| "regular (CallExpr _ c args) = (regular c \<and> straight (outcome_expr c) \<and> list_all id (map regular args))"
| "regular (FieldExpr _ b _) = regular b"
| "regular (StructExpr _ _ fs) = list_all snd (map (map_prod id regular) fs)"
| "regular (IndexExpr _ b i) = (regular b \<and> regular i)"
| "regular (BlockExpr _ ss t _) = (list_all id (map regular_stmt ss) \<and> pred_option id (map_option regular_stmt t))"
| "regular (IfExpr _ c a b _) = (regular c \<and> regular a \<and> pred_option id (map_option regular b))"
| "regular (WhileExpr _ c b) = (regular c \<and> regular b \<and> \<not> has_state (outcome_expr c) BREAK)"
| "regular (LoopExpr _ b _) = regular b"
| "regular (ReturnExpr _ v) =
     (pred_option id (map_option regular v) \<and> pred_option straight (map_option outcome_expr v))"
| "regular (BreakExpr _ v) =
     (pred_option id (map_option regular v) \<and> pred_option straight (map_option outcome_expr v))"
| "regular (ContinueExpr _) = True"
| "regular (CastExpr _ e _) = regular e"
| "regular (PathExpr _ _ _) = True"
| "regular (SelfExpr _) = True"
| "regular (UnitExpr _) = True"
| "regular (ArrayExpr _ es) = list_all id (map regular es)"
| "regular (RepeatArrayExpr _ e n) = (regular e \<and> regular n \<and> straight (outcome_expr n))"
| "regular_stmt (LetStmt _ _ _ e) = pred_option id (map_option regular e)"
| "regular_stmt (ExprStmt _ e _) = regular e"
| "regular_stmt (ItemStmt _ _) = True"
| "regular_type (PathType _ _ _) = True"
| "regular_type (ArrayType _ _ _ _) = True"
| "regular_type (UnitType _ _) = True"
| "regular_type (SelfType _ _) = True"
| "regular_item (FnItem _ _ _ _ _ _) = True"
| "regular_item (StructItem _ _ _) = True"
| "regular_item (EnumItem _ _ _) = True"
| "regular_item (ImplItem _ _ _) = True"
| "regular_item (ConstItem _ _ _ _) = True"

text \<open>The visitor records \<open>continue\<close> as \<open>BREAK\<close>.\<close>

definition recorded :: "OutcomeType \<Rightarrow> OutcomeType" where
  "recorded s = (if s = CONTINUE then BREAK else s)"

lemma recorded_NEXT [simp]: "recorded s = NEXT \<longleftrightarrow> s = NEXT" "recorded NEXT = NEXT" "recorded BREAK = BREAK"
  "recorded RETURN = RETURN" "recorded DIVERGE = DIVERGE" "recorded CONTINUE = BREAK"
  by (auto simp: recorded_def)

lemma straight_only: "straight w \<Longrightarrow> has_state w (recorded s) \<Longrightarrow> s = NEXT"
  by (auto simp: straight_def outcome_simps)

lemma straight_next: "straight w \<Longrightarrow> sequence_outcome_state w v = v"
  by (simp add: straight_def outcome.unit_left)

lemma completes_sound:
  "completes e s \<Longrightarrow> regular e \<Longrightarrow> has_state (outcome_expr e) (recorded s)"
  "completes_all es s \<Longrightarrow> list_all regular es \<Longrightarrow> has_state (seq_all (map outcome_expr es)) (recorded s)"
  "completes_stmt st s \<Longrightarrow> regular_stmt st \<Longrightarrow> has_state (outcome_stmt st) (recorded s)"
  "completes_stmts ss s \<Longrightarrow> list_all regular_stmt ss \<Longrightarrow> has_state (seq_all (map outcome_stmt ss)) (recorded s)"
proof (induct rule: completes_completes_all_completes_stmt_completes_stmts.inducts)
  case (Block t ss s k u)
  then show ?case
    by (cases t) (auto simp: list_all_iff seq_all_append outcome.unit_right comp_def)
next
  case (Call c args s k)
  then show ?case by (auto simp: straight_next list_all_iff)
next
  case (Repeat e n s k)
  then show ?case by (auto simp: straight_def outcome.unit_right)
qed (auto simp: outcome_simps list_all_iff straight_next outcome.unit_right comp_def
      dest: straight_only)

lemma opt_error_simps: "opt_error (map_option f v) d = None \<longleftrightarrow> (\<forall>x. v = Some x \<longrightarrow> f x d = None)"
  by (cases v) simp_all

lemma first_error_None: "first_error (map f xs) d = None \<longleftrightarrow> (\<forall>x \<in> set xs. f x d = None)"
  by (induction xs) (auto simp: or_else_def split: option.split)

lemma or_else_None: "or_else a b = None \<longleftrightarrow> a = None \<and> b = None"
  by (simp add: or_else_def split: option.split)

lemma jumps_stay_inside:
  "completes e s \<Longrightarrow> jumps_expr e d = None \<Longrightarrow> s \<in> {BREAK, CONTINUE} \<Longrightarrow> 0 < d"
  "completes_all es s \<Longrightarrow> \<forall>e \<in> set es. jumps_expr e d = None \<Longrightarrow> s \<in> {BREAK, CONTINUE} \<Longrightarrow> 0 < d"
  "completes_stmt st s \<Longrightarrow> jumps_stmt st d = None \<Longrightarrow> s \<in> {BREAK, CONTINUE} \<Longrightarrow> 0 < d"
  "completes_stmts ss s \<Longrightarrow> \<forall>st \<in> set ss. jumps_stmt st d = None \<Longrightarrow> s \<in> {BREAK, CONTINUE} \<Longrightarrow> 0 < d"
proof (induct arbitrary: d and d and d and d
    rule: completes_completes_all_completes_stmt_completes_stmts.inducts)
  case (Struct fs s k t)
  then show ?case by (simp add: or_else_None first_error_None del: map_map)
next
  case (Block t ss s k u)
  then show ?case by (cases t) (auto simp: or_else_None first_error_None)
qed (auto simp: or_else_None first_error_None opt_error_simps split: if_split_asm)

lemma loop_continue_stuck:
  "completes e s \<Longrightarrow> e \<noteq> LoopExpr k (ContinueExpr j) u"
  "completes_all es s \<Longrightarrow> es = es" "completes_stmt st s \<Longrightarrow> st = st" "completes_stmts ss s \<Longrightarrow> ss = ss"
  by (induct rule: completes_completes_all_completes_stmt_completes_stmts.inducts)
    (auto elim: completes_continueE)

section \<open>Properties\<close>

text \<open>
  C13. The control-flow pass computes a function of the tree: on a numbered program it fails
  with the first misplaced \<open>break\<close> or \<open>continue\<close> in the order of the visit, or its map holds
  for each node the outcome computed from that node alone, although the visitor passes all
  results through one shared map.
\<close>

theorem control_flow_refines:
  "control_flow (assign_ids items) = (case first_error (map jumps_item (assign_ids items)) 0 of
      Some e \<Rightarrow> Inl e
    | None \<Rightarrow> Inr (maps_all (map outs_item (assign_ids items))))"
  by (rule control_flow_aux)





text \<open>
  C14. Jumps stay in their loops: when the pass accepts a function body, visited at loop
  depth 0, the body completes neither with \<open>break\<close> nor with \<open>continue\<close>.
\<close>

theorem accepted_body_keeps_jumps:
  assumes "visit_expr e st = Inr st'" and "loop_depth st = 0" and "distinct (ids_expr e)"
  shows "\<not> completes e BREAK \<and> \<not> completes e CONTINUE"
proof -
  have "jumps_expr e 0 = None"
    using visit_correct(2) [of e] assms by (auto simp: visited_defs visits_def split: option.splits)
  then show ?thesis using jumps_stay_inside(1) [of e _ 0] by auto
qed

theorem accepted_body_keeps_jumps_witness:
  "\<not> completes (LoopExpr 0 (BreakExpr 1 None) False) BREAK
    \<and> \<not> completes (LoopExpr 0 (BreakExpr 1 None) False) CONTINUE"
  by (rule accepted_body_keeps_jumps [where st = "\<lparr>loop_depth = 0, node_outcome_state_map = Map.empty\<rparr>"])
    (simp_all add: set_outcome_def)

text \<open>
  Short circuits are missed: for \<open>a && return\<close> and \<open>a || return\<close> the pass computes a set
  without \<open>NEXT\<close>, as if the right operand were always evaluated, but the expression
  completes normally when the operand is skipped.
\<close>

theorem short_circuit_missed:
  "completes (BinaryExpr k BOP_AND_AND (IdentifierExpr i x) (ReturnExpr j None)) NEXT
     \<and> \<not> has_state (outcome_expr (BinaryExpr k BOP_AND_AND (IdentifierExpr i x) (ReturnExpr j None))) NEXT
     \<and> completes (BinaryExpr k BOP_OR_OR (IdentifierExpr i x) (ReturnExpr j None)) NEXT
     \<and> \<not> has_state (outcome_expr (BinaryExpr k BOP_OR_OR (IdentifierExpr i x) (ReturnExpr j None))) NEXT"
  by (auto intro!: Short Identifier simp: outcome_simps)

text \<open>
  \<open>continue\<close> counts as a way out: a \<open>loop\<close> whose body is \<open>continue\<close> never completes,
  but the pass computes that it may, and not that it diverges, since it records \<open>continue\<close>
  as \<open>BREAK\<close>.
\<close>

theorem continue_recorded_as_break:
  "\<not> completes (LoopExpr k (ContinueExpr j) u) s
     \<and> has_state (outcome_expr (LoopExpr k (ContinueExpr j) u)) NEXT
     \<and> \<not> has_state (outcome_expr (LoopExpr k (ContinueExpr j) u)) DIVERGE"
  using loop_continue_stuck(1) [of "LoopExpr k (ContinueExpr j) u" s] by (auto simp: outcome_simps)

end
