(* ===== verification/Tools.thy ===== *)
theory Tools
  imports Prelude "HOL-Library.Char_ord"
begin

section \<open>Integer literals\<close>

text \<open>
  \<open>src/tools/tools.cpp\<close>: the value of an integer literal. The lexer lets any word that
  begins with a digit through, so this is where the digits, the prefix \<open>0x\<close>, the type
  suffix and the range of the type are checked. A \<open>long long\<close> is an integer here:
  \<open>safe_stoll_bounds\<close> shows that the loop never leaves the range of the type, so nothing
  overflows.
\<close>

abbreviation INT32_MIN :: int where "INT32_MIN \<equiv> - 2147483648"
abbreviation INT32_MAX :: int where "INT32_MAX \<equiv> 2147483647"
abbreviation UINT32_MAX :: int where "UINT32_MAX \<equiv> 4294967295"
abbreviation LLONG_MAX :: int where "LLONG_MAX \<equiv> 9223372036854775807"

definition ch_to_digit :: "char \<Rightarrow> int" where
  "ch_to_digit ch =
     (if CHR ''0'' \<le> ch \<and> ch \<le> CHR ''9'' then int (of_char ch) - int (of_char CHR ''0'')
      else if CHR ''a'' \<le> ch \<and> ch \<le> CHR ''f'' then int (of_char ch) - int (of_char CHR ''a'') + 10
      else if CHR ''A'' \<le> ch \<and> ch \<le> CHR ''F'' then int (of_char ch) - int (of_char CHR ''A'') + 10
      else - 1)"

text \<open>\<open>s.compare(s.size() - n, n, suffix) == 0\<close>, guarded by the length of \<open>s\<close>.\<close>

definition ends_with :: "string \<Rightarrow> string \<Rightarrow> bool" where
  "ends_with s suffix = (length suffix \<le> length s \<and> drop (length s - length suffix) s = suffix)"

definition apply_suffix :: "string \<Rightarrow> string \<Rightarrow> int \<Rightarrow> (string \<times> int) res" where
  "apply_suffix s suffix limit =
     (if length s \<le> length suffix then Inl (Thrown (''CE, invalid integer literal: '' @ s))
      else Inr (take (length s - length suffix) s, limit))"

text \<open>The digits of the literal and the greatest value that its type has.\<close>

definition split_suffix :: "string \<Rightarrow> (string \<times> int) res" where
  "split_suffix s =
     (if ends_with s ''i32'' then apply_suffix s ''i32'' INT32_MAX
      else if ends_with s ''u32'' then apply_suffix s ''u32'' UINT32_MAX
      else if ends_with s ''isize'' then apply_suffix s ''isize'' INT32_MAX
      else if ends_with s ''usize'' then apply_suffix s ''usize'' UINT32_MAX
      else Inr (s, LLONG_MAX))"

fun stoll_loop :: "string \<Rightarrow> int \<Rightarrow> int \<Rightarrow> string \<Rightarrow> int \<Rightarrow> int res" where
  "stoll_loop s max_value base [] result = Inr result"
| "stoll_loop s max_value base (c # cs) result =
     (let digit = ch_to_digit c in
      if digit = - 1 \<or> base \<le> digit
      then Inl (Thrown (''CE, invalid digit in number: '' @ [c] @ '' base = '' @ int_to_string base))
      else if (max_value - digit) div base < result
      then Inl (Thrown (''CE, number too large: '' @ s))
      else stoll_loop s max_value base cs (result * base + digit))"

definition is_hex :: "string \<Rightarrow> bool" where
  "is_hex digits = (2 \<le> length digits \<and> digits ! 0 = CHR ''0''
     \<and> (digits ! 1 = CHR ''x'' \<or> digits ! 1 = CHR ''X''))"

definition safe_stoll :: "string \<Rightarrow> int res" where
  "safe_stoll s =
     (if s = [] then Inl (Thrown ''CE, empty integer literal'')
      else bindr (split_suffix s) (\<lambda>(digits, max_value).
        let base = (if is_hex digits then 16 else 10);
            it = (if is_hex digits then drop 2 digits else digits)
        in if it = [] then Inl (Thrown (''CE, invalid number literal: '' @ s))
           else stoll_loop s max_value base it 0))"

subsection \<open>The digits of a literal\<close>

lemma ends_with_append [simp]: "ends_with (s @ suffix) suffix"
  by (simp add: ends_with_def)

lemma ends_withD: "ends_with s suffix \<Longrightarrow> s = take (length s - length suffix) s @ suffix"
  unfolding ends_with_def by (metis append_take_drop_id)

lemma ends_with_hd: "ends_with s (c # cs) \<Longrightarrow> c \<in> set s"
  by (metis ends_withD in_set_conv_decomp)

lemma ends_with_same_length:
  "length a = length b \<Longrightarrow> ends_with (s @ a) b \<longleftrightarrow> a = b"
  by (auto simp: ends_with_def)

lemma ends_with_last: "b \<noteq> [] \<Longrightarrow> a \<noteq> [] \<Longrightarrow> last a \<noteq> last b \<Longrightarrow> \<not> ends_with (s @ a) b"
  by (metis ends_withD last_appendR)

lemma ch_to_digit_range: "ch_to_digit c = - 1 \<or> 0 \<le> ch_to_digit c \<and> ch_to_digit c < 16"
  by (auto simp: ch_to_digit_def less_eq_char_def)

lemma ch_to_digit_digit_char: "d < 10 \<Longrightarrow> ch_to_digit (digit_char d) = int d"
  by (auto simp: ch_to_digit_def digit_char_def less_eq_char_def)

text \<open>A digit of the base, and the value of a word of digits.\<close>

definition digit_of :: "int \<Rightarrow> char \<Rightarrow> bool" where
  "digit_of base c = (ch_to_digit c \<noteq> - 1 \<and> ch_to_digit c < base)"

definition radix_value :: "int \<Rightarrow> int \<Rightarrow> string \<Rightarrow> int" where
  "radix_value base = foldl (\<lambda>a c. a * base + ch_to_digit c)"

lemma radix_value_simps [simp]:
  "radix_value base r [] = r"
  "radix_value base r (c # cs) = radix_value base (r * base + ch_to_digit c) cs"
  by (simp_all add: radix_value_def)

lemma digit_of_bounds: "digit_of base c \<Longrightarrow> 0 \<le> ch_to_digit c \<and> ch_to_digit c < base"
  using ch_to_digit_range [of c] by (auto simp: digit_of_def)

lemma radix_value_mono:
  "1 \<le> base \<Longrightarrow> 0 \<le> r \<Longrightarrow> \<forall>c \<in> set cs. digit_of base c \<Longrightarrow> r \<le> radix_value base r cs"
proof (induction cs arbitrary: r)
  case Nil
  then show ?case by simp
next
  case (Cons c cs)
  have "0 \<le> ch_to_digit c" using Cons.prems digit_of_bounds [of base c] by auto
  moreover have "r \<le> r * base" using Cons.prems by (simp add: mult_le_cancel_left1)
  ultimately show ?case using Cons.IH [of "r * base + ch_to_digit c"] Cons.prems by auto
qed

lemma quotient_less_iff:
  fixes q t r b :: int
  assumes "0 \<le> t" and "t < b"
  shows "q < r \<longleftrightarrow> q * b + t < r * b"
proof -
  have "(q + 1) * b \<le> r * b" if "q < r"
    using assms that by (intro mult_right_mono) auto
  moreover have "r * b \<le> q * b" if "\<not> q < r"
    using assms that by (intro mult_right_mono) auto
  ultimately show ?thesis using assms by (cases "q < r") (linarith | simp add: distrib_right)+
qed

lemma exceeds_iff:
  fixes r d base m :: int
  assumes "1 \<le> base"
  shows "(m - d) div base < r \<longleftrightarrow> m < r * base + d"
  using quotient_less_iff [of "(m - d) mod base" base "(m - d) div base" r] assms
  by (simp add: less_diff_eq diff_less_eq)

lemma stoll_loop_digits:
  assumes "1 \<le> base" and "\<forall>c \<in> set cs. digit_of base c" and "0 \<le> r" and "r \<le> m"
  shows "stoll_loop s m base cs r =
    (if radix_value base r cs \<le> m then Inr (radix_value base r cs)
     else Inl (Thrown (''CE, number too large: '' @ s)))"
  using assms
proof (induction cs arbitrary: r)
  case Nil
  then show ?case by simp
next
  case (Cons c cs)
  let ?r = "r * base + ch_to_digit c"
  have c: "digit_of base c" "0 \<le> ch_to_digit c" "ch_to_digit c < base"
    using Cons.prems digit_of_bounds [of base c] by auto
  have "?r \<le> radix_value base ?r cs" if "0 \<le> ?r"
    using Cons.prems that by (intro radix_value_mono) auto
  moreover have "0 \<le> ?r" using Cons.prems c by simp
  ultimately show ?case
    using Cons.IH [of ?r] Cons.prems c by (auto simp: digit_of_def exceeds_iff not_less Let_def)
qed

lemma stoll_loop_digitsD:
  "stoll_loop s m base cs r = Inr n \<Longrightarrow> \<forall>c \<in> set cs. digit_of base c"
  by (induction cs arbitrary: r) (auto simp: Let_def digit_of_def split: if_split_asm)

lemma stoll_loop_thrown: "stoll_loop s m base cs r = Inl e \<Longrightarrow> \<exists>msg. e = Thrown msg"
  by (induction cs arbitrary: r) (auto simp: Let_def split: if_split_asm)

subsection \<open>Suffixes\<close>

datatype int_suffix = No_suffix | I32_suffix | U32_suffix | Isize_suffix | Usize_suffix

primrec suffix_text :: "int_suffix \<Rightarrow> string" where
  "suffix_text No_suffix = ''''"
| "suffix_text I32_suffix = ''i32''"
| "suffix_text U32_suffix = ''u32''"
| "suffix_text Isize_suffix = ''isize''"
| "suffix_text Usize_suffix = ''usize''"

primrec suffix_limit :: "int_suffix \<Rightarrow> int" where
  "suffix_limit No_suffix = LLONG_MAX"
| "suffix_limit I32_suffix = INT32_MAX"
| "suffix_limit U32_suffix = UINT32_MAX"
| "suffix_limit Isize_suffix = INT32_MAX"
| "suffix_limit Usize_suffix = UINT32_MAX"

text \<open>The suffix that the comparisons of \<open>split_suffix\<close> find, in their order.\<close>

definition suffix_of :: "string \<Rightarrow> int_suffix" where
  "suffix_of s =
     (if ends_with s ''i32'' then I32_suffix else if ends_with s ''u32'' then U32_suffix
      else if ends_with s ''isize'' then Isize_suffix else if ends_with s ''usize'' then Usize_suffix
      else No_suffix)"

lemma split_suffix_eq:
  "split_suffix s = Inr (ds, m) \<longleftrightarrow>
    m = suffix_limit (suffix_of s) \<and> s = ds @ suffix_text (suffix_of s) \<and> (ds \<noteq> [] \<or> s = [])"
  by (auto simp: split_suffix_def suffix_of_def apply_suffix_def dest: ends_withD split: if_split_asm)

lemma split_suffix_thrown: "split_suffix s = Inl e \<Longrightarrow> \<exists>msg. e = Thrown msg"
  by (auto simp: split_suffix_def apply_suffix_def split: if_split_asm)

lemma digit_not_suffix_letter: "digit_of base c \<Longrightarrow> c \<noteq> CHR ''i'' \<and> c \<noteq> CHR ''u''"
  by (auto simp: digit_of_def ch_to_digit_def less_eq_char_def)

lemma suffix_of_append:
  assumes "CHR ''i'' \<notin> set t" and "CHR ''u'' \<notin> set t"
  shows "suffix_of (t @ suffix_text k) = k"
proof (cases k)
  case No_suffix
  then show ?thesis
    using assms ends_with_hd [of t] by (auto simp: suffix_of_def)
qed (simp_all add: suffix_of_def ends_with_same_length ends_with_last)

definition literal_prefix :: "string \<Rightarrow> bool" where
  "literal_prefix p \<longleftrightarrow> p = [] \<or> p = ''0x'' \<or> p = ''0X''"

definition prefix_base :: "string \<Rightarrow> int" where
  "prefix_base p = (if p = [] then 10 else 16)"

lemma is_hex_append:
  assumes "literal_prefix p" and "list_all (digit_of (prefix_base p)) ds"
  shows "is_hex (p @ ds) \<longleftrightarrow> p \<noteq> []"
proof (cases "p = []")
  case True
  then have "\<forall>c \<in> set ds. c \<noteq> CHR ''x'' \<and> c \<noteq> CHR ''X''"
    using assms(2) by (auto simp: list_all_iff prefix_base_def digit_of_def ch_to_digit_def less_eq_char_def)
  then have "2 \<le> length ds \<Longrightarrow> ds ! 1 \<noteq> CHR ''x'' \<and> ds ! 1 \<noteq> CHR ''X''" by simp
  with True show ?thesis by (auto simp: is_hex_def)
next
  case False
  with assms(1) show ?thesis by (auto simp: is_hex_def literal_prefix_def)
qed

lemma literal_suffix_of:
  assumes "literal_prefix p" and "list_all (digit_of (prefix_base p)) ds"
  shows "suffix_of ((p @ ds) @ suffix_text k) = k"
proof (rule suffix_of_append)
  have "digit_of (prefix_base p) c" if "c \<in> set ds" for c
    using assms(2) that by (simp add: list_all_iff)
  then have "CHR ''i'' \<notin> set ds" "CHR ''u'' \<notin> set ds"
    using digit_not_suffix_letter [of "prefix_base p"] by blast+
  moreover have "CHR ''i'' \<notin> set p" "CHR ''u'' \<notin> set p"
    using assms(1) by (auto simp: literal_prefix_def)
  ultimately show "CHR ''i'' \<notin> set (p @ ds)" "CHR ''u'' \<notin> set (p @ ds)" by simp_all
qed

lemma safe_stoll_literal:
  assumes "literal_prefix p" and "ds \<noteq> []" and "list_all (digit_of (prefix_base p)) ds"
  shows "safe_stoll (p @ ds @ suffix_text k) =
    (let n = radix_value (prefix_base p) 0 ds in
     if n \<le> suffix_limit k then Inr n
     else Inl (Thrown (''CE, number too large: '' @ p @ ds @ suffix_text k)))"
proof -
  let ?s = "(p @ ds) @ suffix_text k"
  have "suffix_of ?s = k" by (rule literal_suffix_of [OF assms(1, 3)])
  then have split: "split_suffix ?s = Inr (p @ ds, suffix_limit k)"
    using assms(2) by (simp add: split_suffix_eq)
  have "drop (length p) (p @ ds) = ds" "p \<noteq> [] \<Longrightarrow> length p = 2"
    using assms(1) by (auto simp: literal_prefix_def)
  then have "(if is_hex (p @ ds) then drop 2 (p @ ds) else p @ ds) = ds"
    using is_hex_append [OF assms(1, 3)] by auto
  moreover have "(if is_hex (p @ ds) then 16 else 10) = prefix_base p"
    using is_hex_append [OF assms(1, 3)] by (simp add: prefix_base_def)
  moreover have "0 \<le> suffix_limit k" by (cases k) simp_all
  moreover have "1 \<le> prefix_base p" by (simp add: prefix_base_def)
  ultimately show ?thesis
    using assms split stoll_loop_digits [of "prefix_base p" ds 0 "suffix_limit k" ?s]
    by (simp add: safe_stoll_def Let_def list_all_iff del: append_assoc) (simp add: append_assoc)
qed

lemma safe_stollD:
  assumes "safe_stoll s = Inr n"
  obtains p ds k where "s = p @ ds @ suffix_text k" and "literal_prefix p" and "ds \<noteq> []"
    and "list_all (digit_of (prefix_base p)) ds"
proof -
  obtain t m where sp: "split_suffix s = Inr (t, m)"
    using assms by (auto simp: safe_stoll_def res_simps split: if_split_asm)
  let ?p = "if is_hex t then take 2 t else []" and ?ds = "if is_hex t then drop 2 t else t"
  have loop: "?ds \<noteq> []" "stoll_loop s m (prefix_base ?p) ?ds 0 = Inr n"
    using assms sp by (auto simp: safe_stoll_def Let_def prefix_base_def is_hex_def split: if_split_asm)
  have "is_hex t \<Longrightarrow> t = t ! 0 # t ! 1 # drop 2 t"
    by (cases t; cases "tl t") (auto simp: is_hex_def)
  then have "is_hex t \<Longrightarrow> take 2 t = [t ! 0, t ! 1]"
    by (metis One_nat_def take_Suc_Cons take_0 numeral_2_eq_2)
  then have "literal_prefix ?p" by (auto simp: literal_prefix_def is_hex_def)
  moreover have "?p @ ?ds = t" by simp
  then have "s = ?p @ ?ds @ suffix_text (suffix_of s)"
    using sp by (metis append.assoc split_suffix_eq)
  moreover have "list_all (digit_of (prefix_base ?p)) ?ds"
    using stoll_loop_digitsD [OF loop(2)] by (simp add: list_all_iff)
  ultimately show thesis using that loop(1) by blast
qed

lemma safe_stoll_thrown: "safe_stoll s = Inl e \<Longrightarrow> \<exists>msg. e = Thrown msg"
  by (auto simp: safe_stoll_def res_simps Let_def dest: split_suffix_thrown stoll_loop_thrown
      split: if_split_asm)

subsection \<open>Properties\<close>


lemma radix_value_nonneg: "list_all (digit_of base) ds \<Longrightarrow> 1 \<le> base \<Longrightarrow> 0 \<le> radix_value base 0 ds"
  by (rule radix_value_mono) (auto simp: list_all_iff)

text \<open>
  C34. Printing and reading: the decimal digits of any number with any suffix are read back as
  that number when the type of the suffix has it, and rejected as too large otherwise.
\<close>

theorem safe_stoll_decimal:
  "safe_stoll (nat_to_string n @ suffix_text k) =
    (if int n \<le> suffix_limit k then Inr (int n)
     else Inl (Thrown (''CE, number too large: '' @ nat_to_string n @ suffix_text k)))"
proof -
  have digits: "list_all (digit_of 10) (nat_to_string n) \<and> radix_value 10 0 (nat_to_string n) = int n"
  proof (induction n rule: nat_to_string.induct)
    case (1 n)
    have "int (n div 10) * 10 + int (n mod 10) = int n"
      by (simp add: zdiv_int zmod_int)
    with 1 show ?case
      by (cases "n < 10") (auto simp: nat_to_string.simps [of n] digit_of_def ch_to_digit_digit_char
          radix_value_def)
  qed
  then show ?thesis
    using safe_stoll_literal [of "[]" "nat_to_string n" k]
    by (simp add: literal_prefix_def prefix_base_def Let_def)
qed

text \<open>
  C35. Bounds: for every word the result is a number between 0 and the greatest value of the
  type of its suffix, so that no later conversion to 32 bits loses anything and no step of the
  loop overflows \<open>long long\<close>; or it is a thrown compile error.
\<close>

theorem safe_stoll_bounds:
  "case safe_stoll s of
     Inr n \<Rightarrow> 0 \<le> n \<and> n \<le> suffix_limit (suffix_of s) \<and> n \<le> LLONG_MAX
   | Inl e \<Rightarrow> (\<exists>msg. e = Thrown msg)"
proof (cases "safe_stoll s")
  case (Inl e)
  then show ?thesis by (auto dest: safe_stoll_thrown)
next
  case (Inr n)
  then obtain p ds k where lit: "s = p @ ds @ suffix_text k" "literal_prefix p"
    "list_all (digit_of (prefix_base p)) ds" "ds \<noteq> []"
    by (elim safe_stollD)
  then have "suffix_of ((p @ ds) @ suffix_text k) = k" by (intro literal_suffix_of)
  moreover have "n = radix_value (prefix_base p) 0 ds" "n \<le> suffix_limit k"
    using Inr safe_stoll_literal [OF lit(2, 4, 3), of k] lit(1) by (auto simp: Let_def split: if_split_asm)
  moreover have "suffix_limit k \<le> LLONG_MAX" by (cases k) simp_all
  ultimately show ?thesis
    using Inr lit radix_value_nonneg [of "prefix_base p" ds] by (auto simp: prefix_base_def)
qed

text \<open>The literal of the example in \<open>docs/tools/tools.md\<close>, with a separator, is rejected.\<close>

lemma documented_literal_rejected:
  "safe_stoll ''0x1F_u32'' = Inl (Thrown ''CE, invalid digit in number: _ base = 16'')"
  by (simp add: safe_stoll_def split_suffix_def ends_with_def is_hex_def ch_to_digit_def less_eq_char_def
      int_to_string_def nat_to_string.simps digit_char_def apply_suffix_def char_of_def
      bit_iff_odd)

end
