(* ===== verification/Types.thy ===== *)
theory Types
  imports Ast Tools
begin

section \<open>Types of expressions\<close>

text \<open>
  \<open>include/semantic/type.h\<close>, \<open>src/semantic/type.cpp\<close> and the functions on types of
  \<open>src/semantic/typecheck.cpp\<close>: the class \<open>RealType\<close> with its subclasses, how types are
  printed, copied and merged, the type of a literal and the checks of casts and of
  initialisers.

  Every type carries its reference kind \<open>is_ref\<close>, here the first argument of each constructor.
  A \<open>weak_ptr\<close> to a declaration is the address of the declaration, or \<open>None\<close> when it is null.
  Types are values: the code changes a type object only just after it has made it
  (\<open>copy\<close> and then \<open>is_ref = ...\<close>), apart from the size of an array type, which the visitor
  \<open>ArrayTypeVisitor\<close> fills in later.
\<close>

datatype RealTypeKind =
    RTK_UNIT | RTK_NEVER | RTK_ARRAY | RTK_STRUCT | RTK_ENUM | RTK_BOOL
  | RTK_I32 | RTK_ISIZE | RTK_U32 | RTK_USIZE | RTK_ANYINT
  | RTK_CHAR | RTK_STR | RTK_STRING | RTK_FUNCTION

primrec real_type_kind_to_string :: "RealTypeKind \<Rightarrow> string" where
  "real_type_kind_to_string RTK_UNIT = ''UNIT''"
| "real_type_kind_to_string RTK_NEVER = ''NEVER''"
| "real_type_kind_to_string RTK_ARRAY = ''ARRAY''"
| "real_type_kind_to_string RTK_STRUCT = ''STRUCT''"
| "real_type_kind_to_string RTK_ENUM = ''ENUM''"
| "real_type_kind_to_string RTK_BOOL = ''BOOL''"
| "real_type_kind_to_string RTK_I32 = ''I32''"
| "real_type_kind_to_string RTK_ISIZE = ''ISIZE''"
| "real_type_kind_to_string RTK_U32 = ''U32''"
| "real_type_kind_to_string RTK_USIZE = ''USIZE''"
| "real_type_kind_to_string RTK_ANYINT = ''ANYINT''"
| "real_type_kind_to_string RTK_CHAR = ''CHAR''"
| "real_type_kind_to_string RTK_STR = ''STR''"
| "real_type_kind_to_string RTK_STRING = ''UNKNOWN''"
| "real_type_kind_to_string RTK_FUNCTION = ''UNKNOWN''"

type_synonym address = nat

datatype (plugins only: code size) RealType =
    UnitRealType ReferenceType
  | NeverRealType ReferenceType
  | ArrayRealType ReferenceType RealType "expr option" nat
  | StructRealType ReferenceType string "address option"
  | EnumRealType ReferenceType string "address option"
  | BoolRealType ReferenceType
  | I32RealType ReferenceType
  | IsizeRealType ReferenceType
  | U32RealType ReferenceType
  | UsizeRealType ReferenceType
  | AnyIntRealType ReferenceType
  | CharRealType ReferenceType
  | StrRealType ReferenceType
  | StringRealType ReferenceType
  | FunctionRealType ReferenceType "address option"

primrec kind :: "RealType \<Rightarrow> RealTypeKind" where
  "kind (UnitRealType _) = RTK_UNIT"
| "kind (NeverRealType _) = RTK_NEVER"
| "kind (ArrayRealType _ _ _ _) = RTK_ARRAY"
| "kind (StructRealType _ _ _) = RTK_STRUCT"
| "kind (EnumRealType _ _ _) = RTK_ENUM"
| "kind (BoolRealType _) = RTK_BOOL"
| "kind (I32RealType _) = RTK_I32"
| "kind (IsizeRealType _) = RTK_ISIZE"
| "kind (U32RealType _) = RTK_U32"
| "kind (UsizeRealType _) = RTK_USIZE"
| "kind (AnyIntRealType _) = RTK_ANYINT"
| "kind (CharRealType _) = RTK_CHAR"
| "kind (StrRealType _) = RTK_STR"
| "kind (StringRealType _) = RTK_STRING"
| "kind (FunctionRealType _ _) = RTK_FUNCTION"

primrec is_ref :: "RealType \<Rightarrow> ReferenceType" where
  "is_ref (UnitRealType r) = r"
| "is_ref (NeverRealType r) = r"
| "is_ref (ArrayRealType r _ _ _) = r"
| "is_ref (StructRealType r _ _) = r"
| "is_ref (EnumRealType r _ _) = r"
| "is_ref (BoolRealType r) = r"
| "is_ref (I32RealType r) = r"
| "is_ref (IsizeRealType r) = r"
| "is_ref (U32RealType r) = r"
| "is_ref (UsizeRealType r) = r"
| "is_ref (AnyIntRealType r) = r"
| "is_ref (CharRealType r) = r"
| "is_ref (StrRealType r) = r"
| "is_ref (StringRealType r) = r"
| "is_ref (FunctionRealType r _) = r"

text \<open>The assignment \<open>t->is_ref = r\<close>.\<close>

primrec with_ref :: "ReferenceType \<Rightarrow> RealType \<Rightarrow> RealType" where
  "with_ref r (UnitRealType _) = UnitRealType r"
| "with_ref r (NeverRealType _) = NeverRealType r"
| "with_ref r (ArrayRealType _ t e n) = ArrayRealType r t e n"
| "with_ref r (StructRealType _ n d) = StructRealType r n d"
| "with_ref r (EnumRealType _ n d) = EnumRealType r n d"
| "with_ref r (BoolRealType _) = BoolRealType r"
| "with_ref r (I32RealType _) = I32RealType r"
| "with_ref r (IsizeRealType _) = IsizeRealType r"
| "with_ref r (U32RealType _) = U32RealType r"
| "with_ref r (UsizeRealType _) = UsizeRealType r"
| "with_ref r (AnyIntRealType _) = AnyIntRealType r"
| "with_ref r (CharRealType _) = CharRealType r"
| "with_ref r (StrRealType _) = StrRealType r"
| "with_ref r (StringRealType _) = StringRealType r"
| "with_ref r (FunctionRealType _ d) = FunctionRealType r d"

primrec show_real_type_info :: "RealType \<Rightarrow> string" where
  "show_real_type_info (UnitRealType r) = reference_type_to_string r @ '' UNIT''"
| "show_real_type_info (NeverRealType r) = reference_type_to_string r @ '' NEVER''"
| "show_real_type_info (ArrayRealType r t _ n) =
     reference_type_to_string r @ '' ARRAY['' @ nat_to_string n @ ''] of '' @ show_real_type_info t"
| "show_real_type_info (StructRealType r name _) = reference_type_to_string r @ '' STRUCT '' @ name"
| "show_real_type_info (EnumRealType r name _) = reference_type_to_string r @ '' ENUM '' @ name"
| "show_real_type_info (BoolRealType r) = reference_type_to_string r @ '' BOOL''"
| "show_real_type_info (I32RealType r) = reference_type_to_string r @ '' I32''"
| "show_real_type_info (IsizeRealType r) = reference_type_to_string r @ '' ISIZE''"
| "show_real_type_info (U32RealType r) = reference_type_to_string r @ '' U32''"
| "show_real_type_info (UsizeRealType r) = reference_type_to_string r @ '' USIZE''"
| "show_real_type_info (AnyIntRealType r) = reference_type_to_string r @ '' ANYINT''"
| "show_real_type_info (CharRealType r) = reference_type_to_string r @ '' CHAR''"
| "show_real_type_info (StrRealType r) = reference_type_to_string r @ '' STR''"
| "show_real_type_info (StringRealType r) = reference_type_to_string r @ '' STRING''"
| "show_real_type_info (FunctionRealType r _) = reference_type_to_string r @ '' FUNCTION''"

text \<open>A copy drops the size expression of an array type: its size is known by then.\<close>

primrec copy :: "RealType \<Rightarrow> RealType" where
  "copy (ArrayRealType r t _ n) = ArrayRealType r (copy t) None n"
| "copy (FunctionRealType r d) = FunctionRealType r d"
| "copy (StructRealType r n d) = StructRealType r n d"
| "copy (EnumRealType r n d) = EnumRealType r n d"
| "copy (StrRealType r) = StrRealType r"
| "copy (StringRealType r) = StringRealType r"
| "copy (I32RealType r) = I32RealType r"
| "copy (U32RealType r) = U32RealType r"
| "copy (IsizeRealType r) = IsizeRealType r"
| "copy (UsizeRealType r) = UsizeRealType r"
| "copy (AnyIntRealType r) = AnyIntRealType r"
| "copy (BoolRealType r) = BoolRealType r"
| "copy (CharRealType r) = CharRealType r"
| "copy (UnitRealType r) = UnitRealType r"
| "copy (NeverRealType r) = NeverRealType r"

definition type_is_number :: "RealType \<Rightarrow> bool" where
  "type_is_number t = (kind t \<in> {RTK_NEVER, RTK_ANYINT, RTK_I32, RTK_ISIZE, RTK_U32, RTK_USIZE})"

subsection \<open>Merging two types\<close>

definition merge_error :: "string \<Rightarrow> RealType \<Rightarrow> RealType \<Rightarrow> err" where
  "merge_error msg left right =
     Thrown (msg @ [CHR 0x0A] @ '' type info:'' @ show_real_type_info left @ '' and '' @ show_real_type_info right)"

definition merge_refs :: "bool \<Rightarrow> RealType \<Rightarrow> RealType \<Rightarrow> ReferenceType res" where
  "merge_refs is_assignment left right =
     (if is_ref left = is_ref right then Inr (is_ref left)
      else if is_ref left = REF_MUT \<and> is_ref right = REF
      then (if is_assignment then Inl (merge_error ''CE, cannot assign &T to &mut T'' left right)
            else Inr REF)
      else if is_ref left = REF \<and> is_ref right = REF_MUT then Inr REF
      else Inl (merge_error ''CE, cannot merge two different reference types'' left right))"

text \<open>The declaration of a structure or an enumeration type (\<open>decl.lock()\<close>).\<close>

primrec decl_of :: "RealType \<Rightarrow> address option" where
  "decl_of (StructRealType _ _ d) = d"
| "decl_of (EnumRealType _ _ d) = d"
| "decl_of (FunctionRealType _ d) = d"
| "decl_of (UnitRealType _) = None"
| "decl_of (NeverRealType _) = None"
| "decl_of (ArrayRealType _ _ _ _) = None"
| "decl_of (BoolRealType _) = None"
| "decl_of (I32RealType _) = None"
| "decl_of (IsizeRealType _) = None"
| "decl_of (U32RealType _) = None"
| "decl_of (UsizeRealType _) = None"
| "decl_of (AnyIntRealType _) = None"
| "decl_of (CharRealType _) = None"
| "decl_of (StrRealType _) = None"
| "decl_of (StringRealType _) = None"

text \<open>The part of \<open>type_merge\<close> for two types that are not arrays.\<close>

definition merge_kinds :: "RealType \<Rightarrow> RealType \<Rightarrow> RealType res" where
  "merge_kinds left right =
     (if kind left = RTK_ANYINT
      then (if type_is_number right then Inr (copy right)
            else Inl (merge_error ''CE, cannot merge AnyInt with non-number type'' left right))
      else if kind right = RTK_ANYINT
      then (if type_is_number left then Inr (copy left)
            else Inl (merge_error ''CE, cannot merge AnyInt with non-number type'' left right))
      else if kind left \<noteq> kind right
      then Inl (merge_error ''CE, cannot merge two different types'' left right)
      else if kind left = RTK_STRUCT \<and> decl_of left \<noteq> decl_of right
      then Inl (merge_error ''CE, cannot merge two different struct types'' left right)
      else if kind left = RTK_ENUM \<and> decl_of left \<noteq> decl_of right
      then Inl (merge_error ''CE, cannot merge two different enum types'' left right)
      else Inr (copy left))"

fun type_merge :: "bool \<Rightarrow> RealType \<Rightarrow> RealType \<Rightarrow> RealType res" where
  "type_merge is_assignment left right =
     (if kind left = RTK_NEVER then Inr right
      else if kind right = RTK_NEVER then Inr left
      else bindr (merge_refs is_assignment left right) (\<lambda>result_ref.
        bindr
          (case (left, right) of
             (ArrayRealType r t _ m, ArrayRealType _ u _ n) \<Rightarrow>
               if m \<noteq> n
               then Inl (merge_error ''CE, cannot merge two different array types with size'' left right)
               else bindr (type_merge is_assignment t u) (\<lambda>t'. Inr (ArrayRealType r t' None m))
           | _ \<Rightarrow> merge_kinds left right)
          (\<lambda>result_type. Inr (with_ref result_ref result_type))))"

declare type_merge.simps [simp del]

subsection \<open>Literals, casts and initialisers\<close>

definition type_of_literal :: "LiteralType \<Rightarrow> string \<Rightarrow> RealType res" where
  "type_of_literal type value =
     (case type of
        LIT_STRING \<Rightarrow> Inr (StrRealType REF)
      | LIT_CHAR \<Rightarrow> Inr (CharRealType NO_REF)
      | LIT_BOOL \<Rightarrow> Inr (BoolRealType NO_REF)
      | LIT_NUMBER \<Rightarrow> bindr (safe_stoll value) (\<lambda>_. Inr
          (if ends_with value ''i32'' then I32RealType NO_REF
           else if ends_with value ''u32'' then U32RealType NO_REF
           else if ends_with value ''isize'' then IsizeRealType NO_REF
           else if ends_with value ''usize'' then UsizeRealType NO_REF
           else AnyIntRealType NO_REF)))"

definition check_cast_refs :: "ReferenceType \<Rightarrow> ReferenceType \<Rightarrow> unit res" where
  "check_cast_refs from to =
     (case from of
        NO_REF \<Rightarrow> guardr (to = NO_REF) (Thrown ''CE, cannot cast non-reference type to reference type'')
      | REF \<Rightarrow> guardr (to \<noteq> REF_MUT) (Thrown ''CE, cannot cast &T to &mut T'')
      | REF_MUT \<Rightarrow> guardr (to \<noteq> NO_REF) (Thrown ''CE, cannot cast &mut T to T''))"

definition cannot_cast :: "RealType \<Rightarrow> string \<Rightarrow> err" where
  "cannot_cast t target = Thrown (''CE, cannot cast type '' @ real_type_kind_to_string (kind t) @ target)"

fun check_cast :: "RealType \<Rightarrow> RealType \<Rightarrow> unit res" where
  "check_cast expr_type target_type =
     bindr (check_cast_refs (is_ref expr_type) (is_ref target_type)) (\<lambda>_.
       if type_is_number target_type
       then guardr (type_is_number expr_type \<or> kind expr_type \<in> {RTK_CHAR, RTK_BOOL, RTK_ENUM})
              (cannot_cast expr_type ('' to number type '' @ real_type_kind_to_string (kind target_type)))
       else if kind target_type = RTK_CHAR
       then guardr (type_is_number expr_type \<or> kind expr_type = RTK_CHAR)
              (cannot_cast expr_type '' to char type'')
       else (case target_type of
           ArrayRealType _ u _ n \<Rightarrow>
             (case expr_type of
                ArrayRealType _ t _ m \<Rightarrow>
                  if m \<noteq> n then Inl (Thrown ''CE, cannot cast array type with different size'')
                  else check_cast t u
              | _ \<Rightarrow> Inl (cannot_cast expr_type '' to array type''))
         | _ \<Rightarrow> bindr (type_merge False expr_type target_type) (\<lambda>_. Inr ())))"

declare check_cast.simps [simp del]

text \<open>
  The check that a literal without suffix fits its target, made when an initialiser or an
  argument is a literal.
\<close>

definition check_literal_range :: "RealType \<Rightarrow> expr \<Rightarrow> unit res" where
  "check_literal_range target_type initializer =
     (case initializer of
        LiteralExpr _ literal_type v \<Rightarrow>
          bindr (type_of_literal literal_type v) (\<lambda>t.
            if kind t = RTK_ANYINT
            then bindr (safe_stoll v) (\<lambda>literal_value.
              if kind target_type = RTK_USIZE \<or> kind target_type = RTK_U32
              then guardr (literal_value \<le> UINT32_MAX)
                     (Thrown ''CE, anyint literal too large for unsigned 32-bit type'')
              else if kind target_type = RTK_ISIZE \<or> kind target_type = RTK_I32
              then guardr (literal_value \<le> INT32_MAX)
                     (Thrown ''CE, anyint literal too large for signed 32-bit type'')
              else Inl (Thrown ''CE, cannot assign anyint literal to non-integer type''))
            else Inr ())
      | _ \<Rightarrow> Inr ())"

definition check_let_stmt :: "pattern \<Rightarrow> RealType \<Rightarrow> RealType \<Rightarrow> expr \<Rightarrow> unit res" where
  "check_let_stmt let_pattern target_type expr_type initializer =
     bindr (check_literal_range target_type initializer) (\<lambda>_.
       case (pattern_mut let_pattern, pattern_ref let_pattern) of
         (_, NO_REF) \<Rightarrow> bindr (type_merge True target_type expr_type) (\<lambda>_. Inr ())
       | (IMMUTABLE, REF) \<Rightarrow>
           if is_ref expr_type = NO_REF
           then Inl (Thrown ''CE, let & requires a reference type initializer'')
           else bindr (type_merge True target_type (with_ref NO_REF (copy expr_type))) (\<lambda>_. Inr ())
       | (MUTABLE, REF) \<Rightarrow>
           if is_ref expr_type \<noteq> REF_MUT
           then Inl (Thrown ''CE, let &mut requires a mutable reference type initializer'')
           else bindr (type_merge True target_type (with_ref NO_REF (copy expr_type))) (\<lambda>_. Inr ())
       | _ \<Rightarrow> Inl (Thrown ''Error, unknown pattern mutibility and reference type''))"

end
