(* ===== verification/ConstValues.thy ===== *)
theory ConstValues
  imports Types "HOL-Library.Word" "HOL-Library.Signed_Division"
begin

section \<open>Constant values\<close>

text \<open>
  \<open>include/semantic/consteval.h\<close> and the functions on values of \<open>src/semantic/consteval.cpp\<close>.
  An \<open>int\<close>, an \<open>unsigned int\<close> and a \<open>long long\<close> are words of 32 and 64 bits. Operations on
  unsigned words wrap around; a signed operation whose result is outside its type has no
  meaning in C++ and gives \<open>Undefined\<close>. The shifts are those of C++20.
\<close>

unbundle bit_operations_syntax

datatype ConstValueKind =
  CVK_ANYINT | CVK_I32 | CVK_U32 | CVK_ISIZE | CVK_USIZE | CVK_BOOL | CVK_CHAR | CVK_UNIT | CVK_ARRAY

primrec const_value_kind_to_string :: "ConstValueKind \<Rightarrow> string" where
  "const_value_kind_to_string CVK_ANYINT = ''ANYINT''"
| "const_value_kind_to_string CVK_I32 = ''I32''"
| "const_value_kind_to_string CVK_U32 = ''U32''"
| "const_value_kind_to_string CVK_ISIZE = ''ISIZE''"
| "const_value_kind_to_string CVK_USIZE = ''USIZE''"
| "const_value_kind_to_string CVK_BOOL = ''BOOL''"
| "const_value_kind_to_string CVK_CHAR = ''CHAR''"
| "const_value_kind_to_string CVK_UNIT = ''UNIT''"
| "const_value_kind_to_string CVK_ARRAY = ''ARRAY''"

datatype ConstValue =
    AnyInt_ConstValue "64 word"
  | I32_ConstValue "32 word"
  | U32_ConstValue "32 word"
  | Isize_ConstValue "32 word"
  | Usize_ConstValue "32 word"
  | Bool_ConstValue bool
  | Char_ConstValue char
  | Unit_ConstValue
  | Array_ConstValue "ConstValue list"

primrec const_kind :: "ConstValue \<Rightarrow> ConstValueKind" where
  "const_kind (AnyInt_ConstValue _) = CVK_ANYINT"
| "const_kind (I32_ConstValue _) = CVK_I32"
| "const_kind (U32_ConstValue _) = CVK_U32"
| "const_kind (Isize_ConstValue _) = CVK_ISIZE"
| "const_kind (Usize_ConstValue _) = CVK_USIZE"
| "const_kind (Bool_ConstValue _) = CVK_BOOL"
| "const_kind (Char_ConstValue _) = CVK_CHAR"
| "const_kind Unit_ConstValue = CVK_UNIT"
| "const_kind (Array_ConstValue _) = CVK_ARRAY"

subsection \<open>Literals\<close>

definition parse_literal_token_to_const_value :: "LiteralType \<Rightarrow> string \<Rightarrow> ConstValue res" where
  "parse_literal_token_to_const_value type v =
     (case type of
        LIT_NUMBER \<Rightarrow> bindr (safe_stoll v) (\<lambda>n. Inr
          (if ends_with v ''i32'' then I32_ConstValue (word_of_int n)
           else if ends_with v ''u32'' then U32_ConstValue (word_of_int n)
           else if ends_with v ''isize'' then Isize_ConstValue (word_of_int n)
           else if ends_with v ''usize'' then Usize_ConstValue (word_of_int n)
           else AnyInt_ConstValue (word_of_int n)))
      | LIT_BOOL \<Rightarrow>
          if v = ''true'' then Inr (Bool_ConstValue True)
          else if v = ''false'' then Inr (Bool_ConstValue False)
          else Inl (Thrown (''CE, invalid boolean literal: '' @ v))
      | LIT_CHAR \<Rightarrow>
          if length v \<noteq> 1 then Inl (Thrown ''CE, char literal must be a single character'')
          else Inr (Char_ConstValue (v ! 0))
      | LIT_STRING \<Rightarrow>
          Inl (Thrown (''CE, unexpected token type for literal type: '' @ literal_type_to_string type)))"

subsection \<open>Arithmetic\<close>

text \<open>The result of an operation on a signed type: the number, when the type has it.\<close>

definition fits_signed :: "'a::len itself \<Rightarrow> int \<Rightarrow> bool" where
  "fits_signed t i = (- (2 ^ (LENGTH('a) - 1)) \<le> i \<and> i < 2 ^ (LENGTH('a) - 1))"

definition signed_word :: "int \<Rightarrow> 'a::len word res" where
  "signed_word i =
     (if fits_signed TYPE('a) i then Inr (word_of_int i) else Inl (Undefined ''signed integer overflow''))"

definition calc_const_unary_expr :: "Unary_Operator \<Rightarrow> ConstValue \<Rightarrow> ConstValue res" where
  "calc_const_unary_expr OP right =
     (if OP = UOP_NEG then
        (case right of
           AnyInt_ConstValue v \<Rightarrow> bindr (signed_word (- sint v)) (\<lambda>r. Inr (AnyInt_ConstValue r))
         | I32_ConstValue v \<Rightarrow> bindr (signed_word (- sint v)) (\<lambda>r. Inr (I32_ConstValue r))
         | U32_ConstValue _ \<Rightarrow> Inl (Thrown ''CE, unary - operator cannot be applied to u32 type'')
         | Isize_ConstValue v \<Rightarrow> bindr (signed_word (- sint v)) (\<lambda>r. Inr (Isize_ConstValue r))
         | Usize_ConstValue _ \<Rightarrow> Inl (Thrown ''CE, unary - operator cannot be applied to usize type'')
         | _ \<Rightarrow> Inl (Thrown ''CE, unary - operator requires integer type''))
      else if OP = UOP_NOT then
        (case right of
           Bool_ConstValue b \<Rightarrow> Inr (Bool_ConstValue (\<not> b))
         | AnyInt_ConstValue v \<Rightarrow> Inr (AnyInt_ConstValue (NOT v))
         | I32_ConstValue v \<Rightarrow> Inr (I32_ConstValue (NOT v))
         | U32_ConstValue v \<Rightarrow> Inr (U32_ConstValue (NOT v))
         | Isize_ConstValue v \<Rightarrow> Inr (Isize_ConstValue (NOT v))
         | Usize_ConstValue v \<Rightarrow> Inr (Usize_ConstValue (NOT v))
         | _ \<Rightarrow> Inl (Thrown ''CE, unary ! operator requires bool or integer type''))
      else Inl (Thrown (''CE, unexpected unary operator, type: '' @ unary_operator_to_string OP)))"

definition div_by_zero :: err where
  "div_by_zero = Thrown ''CE, division by zero in constant expression''"

definition mod_by_zero :: err where
  "mod_by_zero = Thrown ''CE, modulo by zero in constant expression''"

text \<open>The local function \<open>calc_result\<close>, on a signed and on an unsigned type.\<close>

definition calc_signed :: "Binary_Operator \<Rightarrow> 'a::len word \<Rightarrow> 'a word \<Rightarrow> 'a word res" where
  "calc_signed OP L R =
     (case OP of
        BOP_ADD \<Rightarrow> signed_word (sint L + sint R)
      | BOP_SUB \<Rightarrow> signed_word (sint L - sint R)
      | BOP_MUL \<Rightarrow> signed_word (sint L * sint R)
      | BOP_DIV \<Rightarrow> if R = 0 then Inl div_by_zero else signed_word (sint L sdiv sint R)
      | BOP_MOD \<Rightarrow>
          if R = 0 then Inl mod_by_zero
          else bindr (signed_word (sint L sdiv sint R) :: 'a word res) (\<lambda>_. Inr (word_of_int (sint L smod sint R)))
      | BOP_XOR \<Rightarrow> Inr (L XOR R)
      | BOP_OR \<Rightarrow> Inr (L OR R)
      | BOP_AND \<Rightarrow> Inr (L AND R)
      | _ \<Rightarrow> Inl (Thrown ''CE, unknown binary operator''))"

definition calc_unsigned :: "Binary_Operator \<Rightarrow> 'a::len word \<Rightarrow> 'a word \<Rightarrow> 'a word res" where
  "calc_unsigned OP L R =
     (case OP of
        BOP_ADD \<Rightarrow> Inr (L + R)
      | BOP_SUB \<Rightarrow> Inr (L - R)
      | BOP_MUL \<Rightarrow> Inr (L * R)
      | BOP_DIV \<Rightarrow> if R = 0 then Inl div_by_zero else Inr (L div R)
      | BOP_MOD \<Rightarrow> if R = 0 then Inl mod_by_zero else Inr (L mod R)
      | BOP_XOR \<Rightarrow> Inr (L XOR R)
      | BOP_OR \<Rightarrow> Inr (L OR R)
      | BOP_AND \<Rightarrow> Inr (L AND R)
      | _ \<Rightarrow> Inl (Thrown ''CE, unknown binary operator''))"

definition calc_bool :: "Binary_Operator \<Rightarrow> bool \<Rightarrow> bool \<Rightarrow> bool res" where
  "calc_bool OP L R =
     (case OP of
        BOP_XOR \<Rightarrow> Inr (L \<noteq> R)
      | BOP_OR \<Rightarrow> Inr (L \<or> R)
      | BOP_AND \<Rightarrow> Inr (L \<and> R)
      | _ \<Rightarrow> Inl (Thrown ''CE, unknown binary operator''))"

definition cmp_result :: "Binary_Operator \<Rightarrow> int \<Rightarrow> int \<Rightarrow> bool res" where
  "cmp_result OP L R =
     (case OP of
        BOP_EQ \<Rightarrow> Inr (L = R)
      | BOP_NEQ \<Rightarrow> Inr (L \<noteq> R)
      | BOP_LT \<Rightarrow> Inr (L < R)
      | BOP_GT \<Rightarrow> Inr (L > R)
      | BOP_LEQ \<Rightarrow> Inr (L \<le> R)
      | BOP_GEQ \<Rightarrow> Inr (L \<ge> R)
      | _ \<Rightarrow> Inl (Thrown ''CE, unknown binary operator''))"

definition cast_anyint_const_to_target_type :: "64 word \<Rightarrow> ConstValueKind \<Rightarrow> ConstValue res" where
  "cast_anyint_const_to_target_type v target_kind =
     (let n = sint v in
      if target_kind = CVK_I32 then
        if n < INT32_MIN \<or> INT32_MAX < n then Inl (Thrown ''CE, value out of range for i32'')
        else Inr (I32_ConstValue (word_of_int n))
      else if target_kind = CVK_U32 then
        if n < 0 \<or> UINT32_MAX < n then Inl (Thrown ''CE, value out of range for u32'')
        else Inr (U32_ConstValue (word_of_int n))
      else if target_kind = CVK_ISIZE then
        if n < INT32_MIN \<or> INT32_MAX < n then Inl (Thrown ''CE, value out of range for isize'')
        else Inr (Isize_ConstValue (word_of_int n))
      else if target_kind = CVK_USIZE then
        if n < 0 \<or> UINT32_MAX < n then Inl (Thrown ''CE, value out of range for usize'')
        else Inr (Usize_ConstValue (word_of_int n))
      else Inl (Thrown (''CE, cannot cast ANYINT to '' @ const_value_kind_to_string target_kind)))"

text \<open>When just one operand is a literal, it takes the kind of the other one.\<close>

definition unify_operands :: "ConstValue \<Rightarrow> ConstValue \<Rightarrow> (ConstValue \<times> ConstValue) res" where
  "unify_operands left right =
     (case (left, right) of
        (AnyInt_ConstValue _, AnyInt_ConstValue _) \<Rightarrow> Inr (left, right)
      | (AnyInt_ConstValue v, _) \<Rightarrow>
          bindr (cast_anyint_const_to_target_type v (const_kind right)) (\<lambda>l. Inr (l, right))
      | (_, AnyInt_ConstValue v) \<Rightarrow>
          bindr (cast_anyint_const_to_target_type v (const_kind left)) (\<lambda>r. Inr (left, r))
      | _ \<Rightarrow> Inr (left, right))"

definition same_kinds :: "ConstValue \<times> ConstValue \<Rightarrow> (ConstValue \<times> ConstValue) res" where
  "same_kinds p =
     (if const_kind (fst p) \<noteq> const_kind (snd p)
      then Inl (Thrown ''CE, binary operator requires both operands to be of the same type'')
      else Inr p)"

definition unsupported :: "Binary_Operator \<Rightarrow> ConstValue \<Rightarrow> err" where
  "unsupported OP left =
     Thrown (''CE, '' @ binary_operator_to_string OP @ '' operator don't support operands of type ''
       @ const_value_kind_to_string (const_kind left))"

definition calc_arith :: "Binary_Operator \<Rightarrow> ConstValue \<Rightarrow> ConstValue \<Rightarrow> ConstValue res" where
  "calc_arith OP left right =
     bindr (bindr (unify_operands left right) same_kinds) (\<lambda>p.
       case p of
         (AnyInt_ConstValue L, AnyInt_ConstValue R) \<Rightarrow> bindr (calc_signed OP L R) (\<lambda>r. Inr (AnyInt_ConstValue r))
       | (I32_ConstValue L, I32_ConstValue R) \<Rightarrow> bindr (calc_signed OP L R) (\<lambda>r. Inr (I32_ConstValue r))
       | (U32_ConstValue L, U32_ConstValue R) \<Rightarrow> bindr (calc_unsigned OP L R) (\<lambda>r. Inr (U32_ConstValue r))
       | (Isize_ConstValue L, Isize_ConstValue R) \<Rightarrow> bindr (calc_signed OP L R) (\<lambda>r. Inr (Isize_ConstValue r))
       | (Usize_ConstValue L, Usize_ConstValue R) \<Rightarrow> bindr (calc_unsigned OP L R) (\<lambda>r. Inr (Usize_ConstValue r))
       | (Bool_ConstValue L, Bool_ConstValue R) \<Rightarrow>
           if OP \<in> {BOP_AND, BOP_OR, BOP_XOR} then bindr (calc_bool OP L R) (\<lambda>r. Inr (Bool_ConstValue r))
           else Inl (unsupported OP (fst p))
       | _ \<Rightarrow> Inl (unsupported OP (fst p)))"

definition calc_compare :: "Binary_Operator \<Rightarrow> ConstValue \<Rightarrow> ConstValue \<Rightarrow> ConstValue res" where
  "calc_compare OP left right =
     bindr (bindr (unify_operands left right) same_kinds) (\<lambda>p.
       case p of
         (AnyInt_ConstValue L, AnyInt_ConstValue R) \<Rightarrow> bindr (cmp_result OP (sint L) (sint R)) (\<lambda>b. Inr (Bool_ConstValue b))
       | (I32_ConstValue L, I32_ConstValue R) \<Rightarrow> bindr (cmp_result OP (sint L) (sint R)) (\<lambda>b. Inr (Bool_ConstValue b))
       | (U32_ConstValue L, U32_ConstValue R) \<Rightarrow> bindr (cmp_result OP (uint L) (uint R)) (\<lambda>b. Inr (Bool_ConstValue b))
       | (Isize_ConstValue L, Isize_ConstValue R) \<Rightarrow> bindr (cmp_result OP (sint L) (sint R)) (\<lambda>b. Inr (Bool_ConstValue b))
       | (Usize_ConstValue L, Usize_ConstValue R) \<Rightarrow> bindr (cmp_result OP (uint L) (uint R)) (\<lambda>b. Inr (Bool_ConstValue b))
       | (Bool_ConstValue L, Bool_ConstValue R) \<Rightarrow>
           bindr (cmp_result OP (of_bool L) (of_bool R)) (\<lambda>b. Inr (Bool_ConstValue b))
       | _ \<Rightarrow> Inl (unsupported OP (fst p)))"

subsection \<open>Shifts\<close>

definition negative_shift :: err where
  "negative_shift = Thrown ''CE, shift count cannot be negative''"

text \<open>The shift count as a \<open>size_t\<close>.\<close>

definition shift_count :: "ConstValue \<Rightarrow> nat res" where
  "shift_count right =
     (case right of
        AnyInt_ConstValue v \<Rightarrow> if sint v < 0 then Inl negative_shift else Inr (nat (sint v))
      | I32_ConstValue v \<Rightarrow> if sint v < 0 then Inl negative_shift else Inr (nat (sint v))
      | U32_ConstValue v \<Rightarrow> Inr (unat v)
      | Isize_ConstValue v \<Rightarrow> if sint v < 0 then Inl negative_shift else Inr (nat (sint v))
      | Usize_ConstValue v \<Rightarrow> Inr (unat v)
      | _ \<Rightarrow> Inl (Thrown ''CE, shift count must be an integer type''))"

text \<open>
  The local function \<open>shift_result\<close>. Only \<open><<\<close> checks the count; a \<open>>>\<close> by the width of the
  type or more has no meaning in C++.
\<close>

definition shift_result :: "('a::len word \<Rightarrow> nat \<Rightarrow> 'a word) \<Rightarrow> Binary_Operator \<Rightarrow> 'a word \<Rightarrow> nat \<Rightarrow> 'a word res" where
  "shift_result shift_right OP L R =
     (case OP of
        BOP_SHL \<Rightarrow> if 32 \<le> R then Inl (Thrown ''CE, shift count too large'') else Inr (push_bit R L)
      | BOP_SHR \<Rightarrow>
          if LENGTH('a) \<le> R then Inl (Undefined ''shift count too large for the type'')
          else Inr (shift_right L R)
      | _ \<Rightarrow> Inl (Thrown ''CE, unknown binary operator''))"

abbreviation shift_signed :: "Binary_Operator \<Rightarrow> 'a::len word \<Rightarrow> nat \<Rightarrow> 'a word res" where
  "shift_signed \<equiv> shift_result (\<lambda>v n. signed_drop_bit n v)"

abbreviation shift_unsigned :: "Binary_Operator \<Rightarrow> 'a::len word \<Rightarrow> nat \<Rightarrow> 'a word res" where
  "shift_unsigned \<equiv> shift_result (\<lambda>v n. drop_bit n v)"

definition calc_shift :: "Binary_Operator \<Rightarrow> ConstValue \<Rightarrow> ConstValue \<Rightarrow> ConstValue res" where
  "calc_shift OP left right =
     bindr (shift_count right) (\<lambda>R.
       case left of
         AnyInt_ConstValue L \<Rightarrow> bindr (shift_signed OP L R) (\<lambda>r. Inr (AnyInt_ConstValue r))
       | I32_ConstValue L \<Rightarrow> bindr (shift_signed OP L R) (\<lambda>r. Inr (I32_ConstValue r))
       | U32_ConstValue L \<Rightarrow> bindr (shift_unsigned OP L R) (\<lambda>r. Inr (U32_ConstValue r))
       | Isize_ConstValue L \<Rightarrow> bindr (shift_signed OP L R) (\<lambda>r. Inr (Isize_ConstValue r))
       | Usize_ConstValue L \<Rightarrow> bindr (shift_unsigned OP L R) (\<lambda>r. Inr (Usize_ConstValue r))
       | _ \<Rightarrow> Inl (Thrown ''CE, shift operator requires left operand to be an integer type''))"

definition calc_const_binary_expr :: "Binary_Operator \<Rightarrow> ConstValue \<Rightarrow> ConstValue \<Rightarrow> ConstValue res" where
  "calc_const_binary_expr OP left right =
     (if OP \<in> {BOP_ADD, BOP_SUB, BOP_MUL, BOP_DIV, BOP_MOD, BOP_XOR, BOP_OR, BOP_AND}
      then calc_arith OP left right
      else if OP \<in> {BOP_EQ, BOP_NEQ, BOP_LT, BOP_GT, BOP_LEQ, BOP_GEQ}
      then calc_compare OP left right
      else if OP \<in> {BOP_AND_AND, BOP_OR_OR}
      then (case (left, right) of
              (Bool_ConstValue L, Bool_ConstValue R) \<Rightarrow>
                Inr (Bool_ConstValue (if OP = BOP_AND_AND then L \<and> R else L \<or> R))
            | _ \<Rightarrow> Inl (Thrown ''CE, logical operator requires both operands to be BOOL type''))
      else if OP \<in> {BOP_SHL, BOP_SHR}
      then calc_shift OP left right
      else Inl (Thrown (''CE, unexpected binary operator in const expr, type: '' @ binary_operator_to_string OP)))"

subsection \<open>Conversion to a declared type\<close>

text \<open>The number that a value denotes as a \<open>long long\<close>; a \<open>char\<close> is signed.\<close>

definition const_number :: "RealType \<Rightarrow> ConstValue \<Rightarrow> int res" where
  "const_number target_type v =
     (case v of
        AnyInt_ConstValue n \<Rightarrow> Inr (sint n)
      | I32_ConstValue n \<Rightarrow> Inr (sint n)
      | U32_ConstValue n \<Rightarrow> Inr (uint n)
      | Isize_ConstValue n \<Rightarrow> Inr (sint n)
      | Usize_ConstValue n \<Rightarrow> Inr (uint n)
      | Char_ConstValue c \<Rightarrow> Inr (if of_char c < (128 :: int) then of_char c else of_char c - 256)
      | Bool_ConstValue b \<Rightarrow> Inr (if b then 1 else 0)
      | _ \<Rightarrow> Inl (Thrown (''CE, can't convert '' @ const_value_kind_to_string (const_kind v)
                 @ '' to '' @ real_type_kind_to_string (kind target_type))))"

definition number_to_const :: "RealType \<Rightarrow> int \<Rightarrow> ConstValue res" where
  "number_to_const target_type num =
     (if kind target_type = RTK_I32 then
        if num < INT32_MIN \<or> INT32_MAX < num then Inl (Thrown ''CE, value out of range for i32'')
        else Inr (I32_ConstValue (word_of_int num))
      else if kind target_type = RTK_U32 then
        if num < 0 \<or> UINT32_MAX < num then Inl (Thrown ''CE, value out of range for u32'')
        else Inr (U32_ConstValue (word_of_int num))
      else if kind target_type = RTK_ISIZE then
        if num < INT32_MIN \<or> INT32_MAX < num then Inl (Thrown ''CE, value out of range for isize'')
        else Inr (Isize_ConstValue (word_of_int num))
      else if kind target_type = RTK_USIZE then
        if num < 0 \<or> UINT32_MAX < num then Inl (Thrown ''CE, value out of range for usize'')
        else Inr (Usize_ConstValue (word_of_int num))
      else Inl (Thrown ''CE, can't convert number to unknown type ''))"

text \<open>
  \<open>const_cast_to_realtype\<close>, with the map \<open>const_expr_to_size_map\<close> passed along: the subscript
  \<open>m[k]\<close> adds an entry 0 for a missing key.
\<close>

type_synonym size_map = "nat \<rightharpoonup> nat"

definition size_at :: "nat \<Rightarrow> size_map \<Rightarrow> nat \<times> size_map" where
  "size_at k m = (case m k of Some n \<Rightarrow> (n, m) | None \<Rightarrow> (0, m(k \<mapsto> 0)))"

primrec cast_all :: "(size_map \<Rightarrow> (ConstValue \<times> size_map) res) list \<Rightarrow> size_map \<Rightarrow> (ConstValue list \<times> size_map) res" where
  "cast_all [] m = Inr ([], m)"
| "cast_all (f # fs) m =
     bindr (f m) (\<lambda>(v, m). bindr (cast_all fs m) (\<lambda>(vs, m). Inr (v # vs, m)))"

definition cast_scalar :: "RealType \<Rightarrow> ConstValue \<Rightarrow> size_map \<Rightarrow> (ConstValue \<times> size_map) res" where
  "cast_scalar target_type v m =
     (case kind target_type of
        RTK_BOOL \<Rightarrow>
          if const_kind v \<noteq> CVK_BOOL then Inl (Thrown ''CE, cannot cast non-bool type to bool'') else Inr (v, m)
      | RTK_CHAR \<Rightarrow>
          if const_kind v \<noteq> CVK_CHAR then Inl (Thrown ''CE, cannot cast non-char type to char'') else Inr (v, m)
      | RTK_UNIT \<Rightarrow>
          if const_kind v \<noteq> CVK_UNIT then Inl (Thrown ''CE, cannot cast non-unit type to unit'') else Inr (v, m)
      | k \<Rightarrow>
          if k \<in> {RTK_I32, RTK_U32, RTK_ISIZE, RTK_USIZE}
          then bindr (bindr (const_number target_type v) (number_to_const target_type)) (\<lambda>r. Inr (r, m))
          else Inl (Thrown (''CE, unsupported target type for const cast: '' @ real_type_kind_to_string k)))"

fun const_cast_to_realtype :: "RealType \<Rightarrow> ConstValue \<Rightarrow> size_map \<Rightarrow> (ConstValue \<times> size_map) res" where
  "const_cast_to_realtype (ArrayRealType r t se n) v m =
     (case v of
        Array_ConstValue elements \<Rightarrow>
          (case se of
             None \<Rightarrow> Inl (Undefined ''null size expression'')
           | Some e \<Rightarrow>
               (let (target_size, m) = size_at (expr_id e) m in
                if length elements \<noteq> target_size then Inl (Thrown ''CE, array size mismatch in const cast'')
                else bindr (cast_all (map (const_cast_to_realtype t) elements) m)
                       (\<lambda>(vs, m). Inr (Array_ConstValue vs, m))))
      | _ \<Rightarrow> Inl (Thrown ''CE, cannot cast non-array type to array''))"
| "const_cast_to_realtype target_type v m = cast_scalar target_type v m"

definition calc_const_array_size :: "ConstValue \<Rightarrow> nat res" where
  "calc_const_array_size size_value =
     (case size_value of
        AnyInt_ConstValue v \<Rightarrow>
          if sint v < 0 then Inl (Thrown ''CE, array size cannot be negative'') else Inr (nat (sint v))
      | Usize_ConstValue v \<Rightarrow> Inr (unat v)
      | _ \<Rightarrow> Inl (Thrown ''CE, array size must be usize or anyint type''))"

end
