(* ===== verification/TypesProps.thy ===== *)
theory TypesProps
  imports Types
begin

section \<open>Merging types is a least upper bound\<close>

text \<open>
  The coercions of the language as a preorder on types: the never type becomes any type, an
  integer literal any integer type, \<open>&mut T\<close> becomes \<open>&T\<close>, and arrays of the same size follow
  their elements. \<open>type_merge\<close> computes least upper bounds in it, and its variant for
  assignments decides it.
\<close>

subsection \<open>The order\<close>

definition ref_coerces :: "ReferenceType \<Rightarrow> ReferenceType \<Rightarrow> bool" where
  "ref_coerces r s \<longleftrightarrow> r = s \<or> r = REF_MUT \<and> s = REF"

definition base_coerces :: "RealType \<Rightarrow> RealType \<Rightarrow> bool" where
  "base_coerces t u \<longleftrightarrow>
     kind t = RTK_ANYINT \<and> kind u \<in> {RTK_ANYINT, RTK_I32, RTK_ISIZE, RTK_U32, RTK_USIZE}
     \<or> kind t = kind u \<and> kind t \<noteq> RTK_ARRAY \<and> (kind t \<in> {RTK_STRUCT, RTK_ENUM} \<longrightarrow> decl_of t = decl_of u)"

fun coerces :: "RealType \<Rightarrow> RealType \<Rightarrow> bool" where
  "coerces t u \<longleftrightarrow>
     kind t = RTK_NEVER
     \<or> ref_coerces (is_ref t) (is_ref u)
       \<and> (case (t, u) of
            (ArrayRealType _ t' _ m, ArrayRealType _ u' _ n) \<Rightarrow> m = n \<and> coerces t' u'
          | _ \<Rightarrow> base_coerces t u)"

declare coerces.simps [simp del]

lemma ref_coerces_refl [simp]: "ref_coerces r r"
  by (simp add: ref_coerces_def)

lemma ref_coerces_trans: "ref_coerces r s \<Longrightarrow> ref_coerces s t \<Longrightarrow> ref_coerces r t"
  by (auto simp: ref_coerces_def)

lemma kind_array: "kind t = RTK_ARRAY \<longleftrightarrow> (\<exists>r u e n. t = ArrayRealType r u e n)"
  by (cases t) auto

lemma coerces_array:
  "coerces (ArrayRealType r t e m) u \<longleftrightarrow>
     (\<exists>s u' e'. u = ArrayRealType s u' e' m \<and> ref_coerces r s \<and> coerces t u')"
  by (cases u) (auto simp: coerces.simps [of "ArrayRealType r t e m"] base_coerces_def)

lemma coerces_other:
  "kind t \<noteq> RTK_ARRAY \<Longrightarrow>
    coerces t u \<longleftrightarrow> kind t = RTK_NEVER \<or> ref_coerces (is_ref t) (is_ref u) \<and> base_coerces t u"
  by (cases t) (simp_all add: coerces.simps)

lemma coerces_never: "kind t = RTK_NEVER \<Longrightarrow> coerces t u"
  by (simp add: coerces.simps)

lemma coerces_to_never: "kind u = RTK_NEVER \<Longrightarrow> coerces t u \<longleftrightarrow> kind t = RTK_NEVER"
  by (cases "kind t = RTK_ARRAY") (auto simp: coerces_other kind_array coerces_array base_coerces_def)

lemma coerces_refl [simp]: "coerces t t"
  by (induction t) (auto simp: coerces_array coerces_other base_coerces_def)

lemma base_coerces_trans: "base_coerces s t \<Longrightarrow> base_coerces t u \<Longrightarrow> base_coerces s u"
  by (auto simp: base_coerces_def)

lemma coerces_trans: "coerces s t \<Longrightarrow> coerces t u \<Longrightarrow> coerces s u"
proof (induction s arbitrary: t u)
  case (ArrayRealType r s e m)
  then show ?case by (fastforce simp: coerces_array ref_coerces_def)
qed (auto simp: coerces_other kind_array coerces_array base_coerces_def ref_coerces_def)

subsection \<open>Merging\<close>

lemma kind_copy [simp]: "kind (copy t) = kind t"
  by (cases t) simp_all

lemma is_ref_copy [simp]: "is_ref (copy t) = is_ref t"
  by (cases t) simp_all

lemma decl_of_copy [simp]: "decl_of (copy t) = decl_of t"
  by (cases t) simp_all

lemma kind_with_ref [simp]: "kind (with_ref r t) = kind t"
  by (cases t) simp_all

lemma is_ref_with_ref [simp]: "is_ref (with_ref r t) = r"
  by (cases t) simp_all

lemma decl_of_with_ref [simp]: "decl_of (with_ref r t) = decl_of t"
  by (cases t) simp_all

lemma with_ref_is_ref [simp]: "with_ref (is_ref t) t = t"
  by (cases t) simp_all

lemma coerces_copy [simp]: "coerces (copy t) u \<longleftrightarrow> coerces t u"
proof (induction t arbitrary: u)
  case (ArrayRealType r t e n)
  then show ?case by (simp add: coerces_array)
qed simp_all

lemma base_coerces_with_ref [simp]: "base_coerces (with_ref r t) u \<longleftrightarrow> base_coerces t u"
  by (simp add: base_coerces_def)

lemma base_coerces_copy [simp]: "base_coerces (copy t) u \<longleftrightarrow> base_coerces t u"
  by (simp add: base_coerces_def)

lemma merge_refs_Inr:
  "merge_refs False l r = Inr s \<Longrightarrow>
    ref_coerces s q \<longleftrightarrow> ref_coerces (is_ref l) q \<and> ref_coerces (is_ref r) q"
  by (auto simp: merge_refs_def ref_coerces_def split: if_split_asm)

lemma merge_refs_Inl:
  "merge_refs False l r = Inl e \<Longrightarrow> \<not> (ref_coerces (is_ref l) q \<and> ref_coerces (is_ref r) q)"
  by (cases "is_ref l"; cases "is_ref r") (auto simp: merge_refs_def ref_coerces_def split: if_split_asm)

lemma merge_kinds_cases:
  assumes "merge_kinds l r = Inr t"
  obtains (literal_left) "kind l = RTK_ANYINT" and "type_is_number r" and "t = copy r"
  | (literal_right) "kind r = RTK_ANYINT" and "type_is_number l" and "t = copy l"
  | (same) "kind l = kind r" and "t = copy l" and "kind l \<in> {RTK_STRUCT, RTK_ENUM} \<longrightarrow> decl_of l = decl_of r"
  using assms by (auto simp: merge_kinds_def split: if_split_asm)

lemma merge_kinds_Inr:
  assumes "merge_kinds l r = Inr t" and "kind l \<noteq> RTK_NEVER" and "kind r \<noteq> RTK_NEVER"
    and "\<not> (kind l = RTK_ARRAY \<and> kind r = RTK_ARRAY)"
  shows "kind t \<notin> {RTK_NEVER, RTK_ARRAY} \<and> kind l \<noteq> RTK_ARRAY \<and> kind r \<noteq> RTK_ARRAY"
    and "base_coerces t u \<longleftrightarrow> base_coerces l u \<and> base_coerces r u"
proof -
  show "kind t \<notin> {RTK_NEVER, RTK_ARRAY} \<and> kind l \<noteq> RTK_ARRAY \<and> kind r \<noteq> RTK_ARRAY"
    using assms by (cases rule: merge_kinds_cases [OF assms(1)]) (auto simp: type_is_number_def)
  show "base_coerces t u \<longleftrightarrow> base_coerces l u \<and> base_coerces r u"
    using assms(2-4)
    by (cases rule: merge_kinds_cases [OF assms(1)]) (auto simp: type_is_number_def base_coerces_def)
qed

lemma merge_kinds_Inl:
  assumes "merge_kinds l r = Inl e" and "kind l \<noteq> RTK_NEVER" and "kind r \<noteq> RTK_NEVER"
    and "\<not> (kind l = RTK_ARRAY \<and> kind r = RTK_ARRAY)"
  shows "\<not> (coerces l u \<and> coerces r u)"
proof (cases "kind l = RTK_ARRAY \<or> kind r = RTK_ARRAY")
  case True
  have array: "kind t = RTK_ARRAY \<Longrightarrow> coerces t u \<Longrightarrow> kind u = RTK_ARRAY" for t
    by (auto simp: kind_array coerces_array)
  moreover have "kind t \<notin> {RTK_NEVER, RTK_ARRAY} \<Longrightarrow> coerces t u \<Longrightarrow> kind u \<noteq> RTK_ARRAY" for t
    by (auto simp: coerces_other base_coerces_def)
  ultimately show ?thesis using True assms(2-4) by blast
next
  case False
  with assms show ?thesis
    by (auto simp: coerces_other merge_kinds_def type_is_number_def base_coerces_def split: if_split_asm)
qed

lemma type_merge_never [simp]:
  "kind l = RTK_NEVER \<Longrightarrow> type_merge a l r = Inr r"
  "kind l \<noteq> RTK_NEVER \<Longrightarrow> kind r = RTK_NEVER \<Longrightarrow> type_merge a l r = Inr l"
  by (simp_all add: type_merge.simps)

lemma type_merge_arrays:
  "type_merge a (ArrayRealType r t d m) (ArrayRealType s u e n) =
    bindr (merge_refs a (ArrayRealType r t d m) (ArrayRealType s u e n)) (\<lambda>q.
      if m \<noteq> n
      then Inl (merge_error ''CE, cannot merge two different array types with size''
        (ArrayRealType r t d m) (ArrayRealType s u e n))
      else bindr (type_merge a t u) (\<lambda>v. Inr (ArrayRealType q v None m)))"
  by (subst type_merge.simps) (auto intro!: bindr_cong simp: bindr_assoc)

lemma type_merge_others:
  assumes "kind l \<noteq> RTK_NEVER" and "kind r \<noteq> RTK_NEVER"
    and "\<not> (kind l = RTK_ARRAY \<and> kind r = RTK_ARRAY)"
  shows "type_merge a l r =
    bindr (merge_refs a l r) (\<lambda>q. bindr (merge_kinds l r) (\<lambda>t. Inr (with_ref q t)))"
  using assms by (subst type_merge.simps) (auto simp: kind_array split: RealType.split)

text \<open>The type computed for \<open>l\<close> and \<open>r\<close>, if any, is their least upper bound.\<close>

definition merges_least :: "RealType \<Rightarrow> RealType \<Rightarrow> bool" where
  "merges_least l r =
     (case type_merge False l r of
        Inr t \<Rightarrow> \<forall>u. coerces t u \<longleftrightarrow> coerces l u \<and> coerces r u
      | Inl e \<Rightarrow> \<nexists>u. coerces l u \<and> coerces r u)"

lemma merges_least_others:
  assumes "kind l \<noteq> RTK_NEVER" and "kind r \<noteq> RTK_NEVER"
    and "\<not> (kind l = RTK_ARRAY \<and> kind r = RTK_ARRAY)"
  shows "merges_least l r"
proof (cases "merge_refs False l r")
  case (Inl e)
  have "coerces l u \<Longrightarrow> ref_coerces (is_ref l) (is_ref u)"
    "coerces r u \<Longrightarrow> ref_coerces (is_ref r) (is_ref u)" for u
    using assms(1, 2) by (auto simp: coerces.simps [of l u] coerces.simps [of r u])
  with Inl merge_refs_Inl [OF Inl] show ?thesis
    by (auto simp: merges_least_def type_merge_others [OF assms])
next
  case (Inr q)
  show ?thesis
  proof (cases "merge_kinds l r")
    case (Inl e)
    with Inr merge_kinds_Inl [OF Inl assms] show ?thesis
      by (simp add: merges_least_def type_merge_others [OF assms])
  next
    case k: (Inr t)
    note facts = merge_kinds_Inr [OF k assms]
    have "coerces (with_ref q t) u \<longleftrightarrow> coerces l u \<and> coerces r u" for u
      using facts(1) assms(1, 2) by (auto simp: coerces_other facts(2) merge_refs_Inr [OF Inr])
    with Inr k show ?thesis by (simp add: merges_least_def type_merge_others [OF assms])
  qed
qed

lemma merges_least_arrays:
  assumes "merges_least t u"
  shows "merges_least (ArrayRealType r t d m) (ArrayRealType s u e n)" (is "merges_least ?l ?r")
proof (cases "merge_refs False ?l ?r")
  case (Inl e)
  from merge_refs_Inl [OF Inl] Inl show ?thesis
    by (auto simp: merges_least_def type_merge_arrays coerces_array)
next
  case (Inr q)
  have q: "ref_coerces q p \<longleftrightarrow> ref_coerces r p \<and> ref_coerces s p" for p
    using merge_refs_Inr [OF Inr] by simp
  show ?thesis
  proof (cases "m = n")
    case False
    with Inr show ?thesis by (auto simp: merges_least_def type_merge_arrays coerces_array)
  next
    case True
    with Inr assms show ?thesis
      by (cases "type_merge False t u") (fastforce simp: merges_least_def type_merge_arrays coerces_array q)+
  qed
qed

lemma merges_least_never:
  "kind l = RTK_NEVER \<Longrightarrow> merges_least l r" "kind r = RTK_NEVER \<Longrightarrow> merges_least l r"
  by (cases "kind l = RTK_NEVER"; simp add: merges_least_def coerces_never)+

lemma merges_least_non_array: "kind l \<noteq> RTK_ARRAY \<Longrightarrow> merges_least l r"
  by (cases "kind l = RTK_NEVER"; cases "kind r = RTK_NEVER")
    (auto intro: merges_least_never merges_least_others)

lemma type_merge_is_least: "merges_least l r"
proof (induction l arbitrary: r)
  case (ArrayRealType q t d m)
  show ?case
  proof (cases "kind r = RTK_ARRAY")
    case True
    with ArrayRealType show ?thesis by (auto simp: kind_array intro: merges_least_arrays)
  next
    case False
    then show ?thesis
      by (cases "kind r = RTK_NEVER") (auto intro: merges_least_never merges_least_others)
  qed
qed (simp_all add: merges_least_non_array)

subsection \<open>Assignment\<close>

text \<open>A declared type: it holds neither the never type nor the type of literals.\<close>

primrec declared :: "RealType \<Rightarrow> bool" where
  "declared (UnitRealType _) = True"
| "declared (NeverRealType _) = False"
| "declared (ArrayRealType _ t _ _) = declared t"
| "declared (StructRealType _ _ _) = True"
| "declared (EnumRealType _ _ _) = True"
| "declared (BoolRealType _) = True"
| "declared (I32RealType _) = True"
| "declared (IsizeRealType _) = True"
| "declared (U32RealType _) = True"
| "declared (UsizeRealType _) = True"
| "declared (AnyIntRealType _) = False"
| "declared (CharRealType _) = True"
| "declared (StrRealType _) = True"
| "declared (StringRealType _) = True"
| "declared (FunctionRealType _ _) = True"

lemma declared_kind: "declared t \<Longrightarrow> kind t \<noteq> RTK_NEVER \<and> kind t \<noteq> RTK_ANYINT"
  by (cases t) simp_all

text \<open>An assignment is accepted exactly when the right type coerces to the left one, and keeps it.\<close>

definition assigns :: "RealType \<Rightarrow> RealType \<Rightarrow> bool" where
  "assigns l r =
     (case type_merge True l r of
        Inr t \<Rightarrow> coerces r l \<and> copy t = copy l
      | Inl e \<Rightarrow> \<not> coerces r l)"

lemma copy_copy [simp]: "copy (copy t) = copy t"
  by (induction t) simp_all

lemma copy_with_ref: "copy (with_ref r t) = with_ref r (copy t)"
  by (cases t) simp_all

lemma merge_refs_assignment:
  "ref_coerces (is_ref r) (is_ref l) \<Longrightarrow> merge_refs True l r = Inr (is_ref l)"
  "merge_refs True l r = Inr q \<Longrightarrow> ref_coerces (is_ref r) (is_ref l)"
  by (cases "is_ref l"; cases "is_ref r"; simp add: merge_refs_def ref_coerces_def)+

lemma merge_kinds_assignment:
  assumes "declared l" and "kind r \<noteq> RTK_NEVER" and "kind l \<noteq> RTK_ARRAY \<or> kind r \<noteq> RTK_ARRAY"
  shows "case merge_kinds l r of Inr t \<Rightarrow> base_coerces r l \<and> t = copy l | Inl e \<Rightarrow> \<not> base_coerces r l"
  using assms declared_kind [OF assms(1)]
  by (auto simp: merge_kinds_def base_coerces_def type_is_number_def)

lemma assigns_others:
  assumes "declared l" and "kind r \<noteq> RTK_NEVER" and "kind l \<noteq> RTK_ARRAY \<or> kind r \<noteq> RTK_ARRAY"
  shows "assigns l r"
proof -
  have coerces: "coerces r l \<longleftrightarrow> ref_coerces (is_ref r) (is_ref l) \<and> base_coerces r l"
    using assms(2, 3) by (cases "kind r = RTK_ARRAY") (auto simp: coerces_other kind_array coerces_array base_coerces_def)
  have merge: "type_merge True l r = bindr (merge_refs True l r) (\<lambda>q. bindr (merge_kinds l r) (\<lambda>t. Inr (with_ref q t)))"
    using assms declared_kind [OF assms(1)] by (intro type_merge_others) auto
  show ?thesis
  proof (cases "ref_coerces (is_ref r) (is_ref l)")
    case True
    then have "merge_refs True l r = Inr (is_ref l)" using merge_refs_assignment(1) by simp
    moreover have "with_ref (is_ref l) (copy l) = copy l"
      using with_ref_is_ref [of "copy l"] by simp
    ultimately show ?thesis
      using True merge_kinds_assignment [OF assms]
      by (auto simp: assigns_def merge coerces split: sum.splits)
  next
    case False
    then obtain e where "merge_refs True l r = Inl e"
      using merge_refs_assignment(2) [of l r] by (cases "merge_refs True l r") auto
    with False show ?thesis by (simp add: assigns_def merge coerces)
  qed
qed

lemma assigns_arrays:
  assumes "assigns t u"
  shows "assigns (ArrayRealType r t d m) (ArrayRealType s u e n)" (is "assigns ?l ?r")
proof (cases "ref_coerces s r")
  case True
  then have "merge_refs True ?l ?r = Inr r" using merge_refs_assignment(1) [of ?r ?l] by simp
  with assms True show ?thesis
    by (auto simp: assigns_def type_merge_arrays coerces_array split: sum.splits)
next
  case False
  then obtain err where "merge_refs True ?l ?r = Inl err"
    using merge_refs_assignment(2) [of ?l ?r] by (cases "merge_refs True ?l ?r") auto
  with False show ?thesis by (simp add: assigns_def type_merge_arrays coerces_array)
qed

lemma declared_assigns_non_array: "declared l \<Longrightarrow> kind l \<noteq> RTK_ARRAY \<Longrightarrow> assigns l r"
  by (cases "kind r = RTK_NEVER")
    (auto simp: assigns_def coerces_never declared_kind intro: assigns_others [unfolded assigns_def])

lemma declared_assigns: "declared l \<Longrightarrow> assigns l r"
proof (induction l arbitrary: r)
  case (ArrayRealType q t d m r)
  consider "kind r = RTK_NEVER" | "kind r = RTK_ARRAY" | "kind r \<noteq> RTK_NEVER" "kind r \<noteq> RTK_ARRAY" by blast
  then show ?case
  proof cases
    case 1
    then show ?thesis by (simp add: assigns_def coerces_never)
  next
    case 2
    with ArrayRealType show ?thesis by (auto simp: kind_array intro: assigns_arrays)
  next
    case 3
    with ArrayRealType show ?thesis by (intro assigns_others) auto
  qed
qed (simp_all add: declared_assigns_non_array)

subsection \<open>Literals as initialisers\<close>

definition literal_limit :: "RealType \<Rightarrow> int option" where
  "literal_limit t =
     (if kind t \<in> {RTK_I32, RTK_ISIZE} then Some INT32_MAX
      else if kind t \<in> {RTK_U32, RTK_USIZE} then Some UINT32_MAX else None)"

subsection \<open>Properties\<close>

text \<open>
  C17. Merging the types of two branches computes the least upper bound in the coercion order
  (never type below everything, literals below the integer types, \<open>&mut\<close> below \<open>&\<close>,
  arrays by their elements): the types that the result coerces to are those that both operands
  coerce to, and an error means that there is no such type.
\<close>

theorem type_merge_join:
  "case type_merge False l r of
     Inr t \<Rightarrow> \<forall>u. coerces t u \<longleftrightarrow> coerces l u \<and> coerces r u
   | Inl e \<Rightarrow> \<nexists>u. coerces l u \<and> coerces r u"
  using type_merge_is_least [of l r] by (simp only: merges_least_def)





text \<open>
  A reference to a number can be cast to a number, but a mutable reference cannot.
\<close>

lemma cast_from_reference:
  "check_cast (I32RealType REF) (I32RealType NO_REF) = Inr ()"
  "check_cast (I32RealType REF_MUT) (I32RealType NO_REF) = Inl (Thrown ''CE, cannot cast &mut T to T'')"
  by (simp_all add: check_cast.simps check_cast_refs_def type_is_number_def)

end
