(* ===== verification/ConstProps.thy ===== *)
theory ConstProps
  imports ConstValues TypesProps
begin

section \<open>Constant arithmetic is arithmetic\<close>

text \<open>
  The numbers that integer constants denote, and what the operators do to them: signed
  operations give the exact number or nothing, unsigned ones the number modulo \<open>2 ^ 32\<close>.
  Converting a constant to its declared type keeps the number and gives a value of that type.
\<close>

primrec number :: "ConstValue \<Rightarrow> int option" where
  "number (AnyInt_ConstValue v) = Some (sint v)"
| "number (I32_ConstValue v) = Some (sint v)"
| "number (U32_ConstValue v) = Some (uint v)"
| "number (Isize_ConstValue v) = Some (sint v)"
| "number (Usize_ConstValue v) = Some (uint v)"
| "number (Bool_ConstValue _) = None"
| "number (Char_ConstValue _) = None"
| "number Unit_ConstValue = None"
| "number (Array_ConstValue _) = None"

definition math_binary :: "Binary_Operator \<Rightarrow> int \<Rightarrow> int \<Rightarrow> int" where
  "math_binary OP a b =
     (case OP of
        BOP_ADD \<Rightarrow> a + b | BOP_SUB \<Rightarrow> a - b | BOP_MUL \<Rightarrow> a * b
      | BOP_DIV \<Rightarrow> a sdiv b | BOP_MOD \<Rightarrow> a smod b
      | BOP_XOR \<Rightarrow> a XOR b | BOP_OR \<Rightarrow> a OR b | BOP_AND \<Rightarrow> a AND b
      | BOP_SHL \<Rightarrow> a * 2 ^ nat b | BOP_SHR \<Rightarrow> a div 2 ^ nat b
      | _ \<Rightarrow> 0)"

definition math_compare :: "Binary_Operator \<Rightarrow> int \<Rightarrow> int \<Rightarrow> bool" where
  "math_compare OP a b =
     (case OP of
        BOP_EQ \<Rightarrow> a = b | BOP_NEQ \<Rightarrow> a \<noteq> b | BOP_LT \<Rightarrow> a < b | BOP_GT \<Rightarrow> a > b
      | BOP_LEQ \<Rightarrow> a \<le> b | BOP_GEQ \<Rightarrow> a \<ge> b | _ \<Rightarrow> False)"

definition signed_kind :: "ConstValueKind \<Rightarrow> bool" where
  "signed_kind k \<longleftrightarrow> k \<in> {CVK_ANYINT, CVK_I32, CVK_ISIZE}"

text \<open>The number of the kind that is congruent to a given one.\<close>

definition wrap :: "ConstValueKind \<Rightarrow> int \<Rightarrow> int" where
  "wrap k n =
     (if k = CVK_ANYINT then signed_take_bit 63 n
      else if k \<in> {CVK_I32, CVK_ISIZE} then signed_take_bit 31 n
      else take_bit 32 n)"

subsection \<open>Signed and unsigned operations\<close>

lemma fits_signed_sint: "fits_signed TYPE('a::len) (sint (w :: 'a word))"
  using sint_range_size [of w] by (simp add: fits_signed_def word_size)

lemma sint_of_fits: "fits_signed TYPE('a::len) i \<Longrightarrow> sint (word_of_int i :: 'a word) = i"
  by (simp add: fits_signed_def sint_sbintrunc' signed_take_bit_int_eq_self)

lemma signed_word_Inr:
  "signed_word i = Inr (w :: 'a::len word) \<longleftrightarrow> fits_signed TYPE('a) i \<and> w = word_of_int i"
  by (auto simp: signed_word_def)

lemma smod_between:
  fixes a b :: int
  shows "0 \<le> a \<Longrightarrow> 0 \<le> a smod b \<and> a smod b \<le> a" and "a \<le> 0 \<Longrightarrow> a \<le> a smod b \<and> a smod b \<le> 0"
proof -
  have "0 \<le> \<bar>a\<bar> mod \<bar>b\<bar>" "\<bar>a\<bar> mod \<bar>b\<bar> \<le> \<bar>a\<bar>"
    by (cases "b = 0"; simp add: zmod_le_nonneg_dividend)+
  then show "0 \<le> a \<Longrightarrow> 0 \<le> a smod b \<and> a smod b \<le> a" "a \<le> 0 \<Longrightarrow> a \<le> a smod b \<and> a smod b \<le> 0"
    by (auto simp: signed_modulo_int_def sgn_if)
qed

lemma fits_signed_smod: "fits_signed TYPE('a::len) a \<Longrightarrow> fits_signed TYPE('a) (a smod b)"
  using smod_between [of a b] by (cases "0 \<le> a") (auto simp: fits_signed_def)

lemma sint_arith:
  fixes L R :: "'a::len word"
  shows "fits_signed TYPE('a) (sint L + sint R) \<Longrightarrow> sint (L + R) = sint L + sint R"
    and "fits_signed TYPE('a) (sint L - sint R) \<Longrightarrow> sint (L - R) = sint L - sint R"
    and "fits_signed TYPE('a) (sint L * sint R) \<Longrightarrow> sint (L * R) = sint L * sint R"
    and "fits_signed TYPE('a) (- sint L) \<Longrightarrow> sint (- L) = - sint L"
  using sint_of_fits [of "sint L + sint R", where 'a = 'a] sint_of_fits [of "sint L - sint R", where 'a = 'a]
    sint_of_fits [of "sint L * sint R", where 'a = 'a] sint_of_fits [of "- sint L", where 'a = 'a]
  by simp_all

lemma calc_signed_correct:
  fixes L R w :: "'a::len word"
  assumes "calc_signed OP L R = Inr w"
  shows "sint w = math_binary OP (sint L) (sint R)"
  using assms
  by (cases OP) (auto simp: calc_signed_def math_binary_def res_simps signed_word_Inr sint_of_fits sint_arith
      signed_xor_eq signed_or_eq signed_and_eq fits_signed_smod fits_signed_sint split: if_split_asm)

lemma uint_take_bit: "take_bit LENGTH('a) (uint (w :: 'a::len word)) = uint w"
  by (simp add: take_bit_int_eq_self)

lemma sdiv_smod_nonneg:
  fixes a b :: int
  shows "0 \<le> a \<Longrightarrow> 0 \<le> b \<Longrightarrow> a sdiv b = a div b" and "0 \<le> a \<Longrightarrow> 0 \<le> b \<Longrightarrow> a smod b = a mod b"
  by (auto simp: signed_divide_int_def signed_modulo_int_def sgn_if)

lemma calc_unsigned_correct:
  fixes L R w :: "'a::len word"
  assumes "calc_unsigned OP L R = Inr w"
  shows "uint w = take_bit LENGTH('a) (math_binary OP (uint L) (uint R))"
proof -
  have "uint (L + R) = take_bit LENGTH('a) (uint L + uint R)"
    "uint (L - R) = take_bit LENGTH('a) (uint L - uint R)"
    "uint (L * R) = take_bit LENGTH('a) (uint L * uint R)"
    "uint (L div R) = take_bit LENGTH('a) (uint L div uint R)"
    "uint (L mod R) = take_bit LENGTH('a) (uint L mod uint R)"
    by (transfer, simp add: take_bit_add take_bit_diff take_bit_mult)+
  with assms show ?thesis
    by (cases OP) (auto simp: calc_unsigned_def math_binary_def res_simps sdiv_smod_nonneg uint_take_bit
        unsigned_xor_eq unsigned_or_eq unsigned_and_eq split: if_split_asm)
qed

subsection \<open>Operands\<close>

lemma int32_of_int:
  "INT32_MIN \<le> n \<Longrightarrow> n \<le> INT32_MAX \<Longrightarrow> sint (word_of_int n :: 32 word) = n"
  "0 \<le> n \<Longrightarrow> n \<le> UINT32_MAX \<Longrightarrow> uint (word_of_int n :: 32 word) = n"
  by (rule sint_of_fits; simp add: fits_signed_def) (simp add: unsigned_of_int take_bit_int_eq_self)

lemma cast_anyint_number:
  "cast_anyint_const_to_target_type v k = Inr w \<Longrightarrow> const_kind w = k \<and> number w = Some (sint v)"
  using int32_of_int [of "sint v"]
  by (auto simp: cast_anyint_const_to_target_type_def Let_def split: if_split_asm)

lemma unify_operands_number:
  assumes "bindr (unify_operands l r) same_kinds = Inr (l', r')"
  shows "const_kind l' = const_kind r'"
    and "number l \<noteq> None \<Longrightarrow> number l' = number l" and "number r \<noteq> None \<Longrightarrow> number r' = number r"
  using assms
  by (cases l; cases r; auto simp: unify_operands_def same_kinds_def res_simps dest: cast_anyint_number split: if_split_asm)+

lemma wrap_sint:
  "signed_take_bit 63 (sint (x :: 64 word)) = sint x" "signed_take_bit 31 (sint (y :: 32 word)) = sint y"
  using sint_range_size [of x] sint_range_size [of y]
  by (simp_all add: word_size signed_take_bit_int_eq_self)

lemma calc_arith_number:
  assumes "calc_arith OP l r = Inr v" and "number l = Some a" and "number r = Some b"
  shows "number v = Some (wrap (const_kind v) (math_binary OP a b))
    \<and> (signed_kind (const_kind v) \<longrightarrow> number v = Some (math_binary OP a b))"
proof -
  obtain l' r' where p: "bindr (unify_operands l r) same_kinds = Inr (l', r')"
    using assms(1) by (auto simp: calc_arith_def res_simps)
  from unify_operands_number [OF p] assms(2, 3)
  have "const_kind l' = const_kind r'" "number l' = Some a" "number r' = Some b" by simp_all
  then show ?thesis
    using assms(1)
    by (cases l'; cases r') (auto simp: calc_arith_def p res_simps wrap_def signed_kind_def wrap_sint
        dest!: calc_signed_correct [symmetric] calc_unsigned_correct)
qed

lemma calc_compare_number:
  assumes "calc_compare OP l r = Inr v" and "number l = Some a" and "number r = Some b"
  shows "v = Bool_ConstValue (math_compare OP a b)"
proof -
  obtain l' r' where p: "bindr (unify_operands l r) same_kinds = Inr (l', r')"
    using assms(1) by (auto simp: calc_compare_def res_simps)
  from unify_operands_number [OF p] assms(2, 3)
  have eqs: "const_kind l' = const_kind r'" "number l' = Some a" "number r' = Some b" by simp_all
  have "cmp_result OP m n = Inr c \<Longrightarrow> c = math_compare OP m n" for m n c
    by (cases OP) (auto simp: cmp_result_def math_compare_def)
  with eqs assms(1) show ?thesis
    by (cases l'; cases r') (auto simp: calc_compare_def p res_simps)
qed

lemma shift_left_number:
  fixes L w :: "'a::len word"
  assumes "shift_result f BOP_SHL L n = Inr w"
  shows "sint w = signed_take_bit (LENGTH('a) - 1) (sint L * 2 ^ n)"
    and "uint w = take_bit LENGTH('a) (uint L * 2 ^ n)"
proof -
  have w: "w = push_bit n L" using assms by (simp add: shift_result_def split: if_split_asm)
  show "sint w = signed_take_bit (LENGTH('a) - 1) (sint L * 2 ^ n)"
    unfolding w signed_push_bit_eq push_bit_eq_mult [of n "sint L", symmetric] by simp
  show "uint w = take_bit LENGTH('a) (uint L * 2 ^ n)"
    unfolding w unsigned_push_bit_eq push_bit_eq_mult [of n "uint L", symmetric] by simp
qed

lemma shift_right_number:
  fixes L w :: "'a::len word"
  shows "shift_signed BOP_SHR L n = Inr w \<Longrightarrow> sint w = sint L div 2 ^ n"
    and "shift_unsigned BOP_SHR L n = Inr w \<Longrightarrow> uint w = uint L div 2 ^ n"
proof -
  show "shift_signed BOP_SHR L n = Inr w \<Longrightarrow> sint w = sint L div 2 ^ n"
    by (auto simp: shift_result_def sint_signed_drop_bit_eq drop_bit_eq_div split: if_split_asm)
  have "uint (drop_bit n L) = uint L div 2 ^ n"
    unfolding unsigned_drop_bit_eq uint_take_bit drop_bit_eq_div [of n "uint L", symmetric] ..
  moreover assume "shift_unsigned BOP_SHR L n = Inr w"
  then have "w = drop_bit n L" by (simp add: shift_result_def split: if_split_asm)
  ultimately show "uint w = uint L div 2 ^ n" by simp
qed

lemma shift_count_number: "shift_count r = Inr n \<Longrightarrow> number r = Some b \<Longrightarrow> b = int n"
  by (cases r) (auto simp: shift_count_def split: if_split_asm)

lemma calc_shift_number:
  assumes "calc_shift OP l r = Inr v" and "OP \<in> {BOP_SHL, BOP_SHR}" and "number l = Some a" and "number r = Some b"
  shows "number v = Some (wrap (const_kind v) (math_binary OP a b))
    \<and> (OP = BOP_SHR \<longrightarrow> number v = Some (math_binary OP a b))"
proof -
  obtain n where n: "shift_count r = Inr n" using assms(1) by (auto simp: calc_shift_def res_simps)
  with shift_count_number [OF n assms(4)] have "b = int n" by simp
  consider "OP = BOP_SHL" | "OP = BOP_SHR" using assms(2) by auto
  then show ?thesis
  proof cases
    case 1
    with assms(1, 3) \<open>b = int n\<close> show ?thesis
      by (cases l) (auto simp: calc_shift_def n res_simps math_binary_def wrap_def
          dest: shift_left_number(1) shift_left_number(2))
  next
    case 2
    then have "number v = Some (math_binary OP a b)"
      using assms(1, 3) \<open>b = int n\<close>
      by (cases l) (auto simp: calc_shift_def n res_simps math_binary_def dest!: shift_right_number)
    moreover have "number w = Some c \<Longrightarrow> wrap (const_kind w) c = c" for w c
      using uint_take_bit [where 'a = 32] by (cases w) (auto simp: wrap_def wrap_sint)
    ultimately show ?thesis by simp
  qed
qed

subsection \<open>Conversion\<close>

text \<open>A value of a type, where the sizes of arrays are those of the map.\<close>

primrec const_has_type :: "RealType \<Rightarrow> size_map \<Rightarrow> ConstValue \<Rightarrow> bool" where
  "const_has_type (ArrayRealType r t se n) m v =
     (case (v, se) of
        (Array_ConstValue vs, Some e) \<Rightarrow> m (expr_id e) = Some (length vs) \<and> list_all (const_has_type t m) vs
      | _ \<Rightarrow> False)"
| "const_has_type (BoolRealType _) m v = (const_kind v = CVK_BOOL)"
| "const_has_type (CharRealType _) m v = (const_kind v = CVK_CHAR)"
| "const_has_type (UnitRealType _) m v = (const_kind v = CVK_UNIT)"
| "const_has_type (I32RealType _) m v = (const_kind v = CVK_I32)"
| "const_has_type (U32RealType _) m v = (const_kind v = CVK_U32)"
| "const_has_type (IsizeRealType _) m v = (const_kind v = CVK_ISIZE)"
| "const_has_type (UsizeRealType _) m v = (const_kind v = CVK_USIZE)"
| "const_has_type (NeverRealType _) m v = False"
| "const_has_type (StructRealType _ _ _) m v = False"
| "const_has_type (EnumRealType _ _ _) m v = False"
| "const_has_type (AnyIntRealType _) m v = False"
| "const_has_type (StrRealType _) m v = False"
| "const_has_type (StringRealType _) m v = False"
| "const_has_type (FunctionRealType _ _) m v = False"

lemma number_to_const_number:
  "number_to_const t n = Inr w \<Longrightarrow> number w = Some n"
  using int32_of_int [of n] by (auto simp: number_to_const_def split: if_split_asm)

lemma const_number_number: "number v = Some n \<Longrightarrow> const_number t v = Inr n"
  by (cases v) (simp_all add: const_number_def)

lemma const_has_type_mono: "m \<subseteq>\<^sub>m m' \<Longrightarrow> const_has_type t m v \<Longrightarrow> const_has_type t m' v"
proof (induction t arbitrary: v)
  case (ArrayRealType r t se n)
  then show ?case
    by (auto simp: list_all_iff map_le_def dom_def split: ConstValue.splits option.splits)
qed simp_all

lemma size_at_mono: "size_at k m = (n, m') \<Longrightarrow> m \<subseteq>\<^sub>m m' \<and> m' k = Some n"
  by (auto simp: size_at_def map_le_def split: option.splits)

lemma cast_all_typed:
  assumes "\<And>v m w m'. v \<in> set vs \<Longrightarrow> f v m = Inr (w, m') \<Longrightarrow> m \<subseteq>\<^sub>m m' \<and> const_has_type t m' w"
    and "cast_all (map f vs) m = Inr (ws, m')"
  shows "length ws = length vs \<and> m \<subseteq>\<^sub>m m' \<and> list_all (const_has_type t m') ws"
  using assms
proof (induction vs arbitrary: m ws)
  case Nil
  then show ?case by simp
next
  case (Cons v vs)
  then obtain w m1 us where step: "f v m = Inr (w, m1)" "cast_all (map f vs) m1 = Inr (us, m')" "ws = w # us"
    by (auto simp: res_simps)
  have "m \<subseteq>\<^sub>m m1 \<and> const_has_type t m1 w" using Cons.prems(1) [OF _ step(1)] by simp
  moreover have "length us = length vs \<and> m1 \<subseteq>\<^sub>m m' \<and> list_all (const_has_type t m') us"
    using Cons.IH [OF _ step(2)] Cons.prems(1) by (metis list.set_intros(2))
  ultimately show ?case using step(3) by (auto intro: const_has_type_mono map_le_trans)
qed

lemma cast_scalar_typed:
  "cast_scalar t v m = Inr (w, m') \<Longrightarrow> kind t \<noteq> RTK_ARRAY \<Longrightarrow> m' = m \<and> const_has_type t m w"
  by (cases t) (auto simp: cast_scalar_def number_to_const_def res_simps split: if_split_asm)

lemma const_cast_typed:
  "const_cast_to_realtype t v m = Inr (w, m') \<Longrightarrow> m \<subseteq>\<^sub>m m' \<and> const_has_type t m' w"
proof (induction t arbitrary: v m w m')
  case (ArrayRealType r t se n)
  obtain vs e k m1 ws where parts: "v = Array_ConstValue vs" "se = Some e" "size_at (expr_id e) m = (k, m1)"
    "length vs = k" "cast_all (map (const_cast_to_realtype t) vs) m1 = Inr (ws, m')" "w = Array_ConstValue ws"
    using ArrayRealType.prems by (auto simp: res_simps split: ConstValue.splits option.splits prod.splits if_split_asm)
  have "length ws = length vs \<and> m1 \<subseteq>\<^sub>m m' \<and> list_all (const_has_type t m') ws"
    using cast_all_typed [OF ArrayRealType.IH parts(5)] by simp
  moreover have "m \<subseteq>\<^sub>m m1" "m1 (expr_id e) = Some k" using size_at_mono [OF parts(3)] by simp_all
  ultimately show ?case
    using parts by (auto simp: map_le_def dom_def)
qed (auto dest: cast_scalar_typed)

subsection \<open>Properties\<close>



text \<open>
  C21. A constant has its declared type: converting any value to a type gives a value of exactly
  that type, with arrays of the length that the size expression has been evaluated to and
  elements of the element type, or an error; sizes already known are kept.
\<close>

theorem const_cast_well_typed:
  "case const_cast_to_realtype t v m of
     Inr (w, m') \<Rightarrow> const_has_type t m' w \<and> m \<subseteq>\<^sub>m m'
   | Inl e \<Rightarrow> True"
  using const_cast_typed [of t v m] by (auto split: sum.split)

text \<open>
  C36. Converting an integer constant to an integer type keeps the number, or fails when the
  type does not have it.
\<close>

theorem const_cast_number:
  assumes "number v = Some n" and "literal_limit t = Some limit"
  shows "case const_cast_to_realtype t v m of
     Inr (w, m') \<Rightarrow> number w = Some n \<and> n \<le> limit \<and> m' = m
   | Inl e \<Rightarrow> limit < n \<or> (if limit = INT32_MAX then n < INT32_MIN else n < 0)"
proof -
  have "kind t \<in> {RTK_I32, RTK_ISIZE, RTK_U32, RTK_USIZE}"
    using assms(2) by (auto simp: literal_limit_def split: if_split_asm)
  then have "const_cast_to_realtype t v m = bindr (number_to_const t n) (\<lambda>r. Inr (r, m))"
    using const_number_number [OF assms(1)] by (cases t) (auto simp: cast_scalar_def)
  with assms(2) show ?thesis
    by (auto simp: literal_limit_def number_to_const_def int32_of_int split: if_split_asm)
qed

theorem const_cast_number_witness:
  "case const_cast_to_realtype (U32RealType NO_REF) (AnyInt_ConstValue 7) Map.empty of
     Inr (w, m') \<Rightarrow> number w = Some 7 \<and> (7 :: int) \<le> UINT32_MAX \<and> m' = Map.empty
   | Inl e \<Rightarrow> UINT32_MAX < 7 \<or> (if UINT32_MAX = INT32_MAX then (7 :: int) < INT32_MIN else (7 :: int) < 0)"
  by (rule const_cast_number) (simp_all add: literal_limit_def)


end
