(* ===== verification/Smap.thy ===== *)
theory Smap
  imports Prelude "HOL-Library.Char_ord" "HOL-Library.List_Lexorder"
begin

section \<open>Maps with string keys\<close>

text \<open>
  \<open>std::map<string, T>\<close>: the passes iterate over their maps in the order of the keys, so a map
  is the list of its entries, sorted by key. Strings are compared as \<open>std::string\<close> compares
  them, lexicographically by unsigned characters. Lookup is \<open>map_of\<close>.
\<close>

type_synonym 'v smap = "(string \<times> 'v) list"

fun smap_insert :: "string \<Rightarrow> 'v \<Rightarrow> 'v smap \<Rightarrow> 'v smap" where
  "smap_insert k v [] = [(k, v)]"
| "smap_insert k v ((k', v') # m) =
     (if k < k' then (k, v) # (k', v') # m
      else if k = k' then (k, v) # m
      else (k', v') # smap_insert k v m)"

definition sorted_keys :: "'v smap \<Rightarrow> bool" where
  "sorted_keys m = sorted_wrt (<) (map fst m)"

lemma sorted_keys_simps [simp]:
  "sorted_keys []"
  "sorted_keys (p # m) \<longleftrightarrow> (\<forall>q \<in> set m. fst p < fst q) \<and> sorted_keys m"
  by (auto simp: sorted_keys_def)

lemma map_of_smap_insert [simp]: "map_of (smap_insert k v m) = (map_of m)(k \<mapsto> v)"
  by (induction k v m rule: smap_insert.induct) auto

lemma keys_smap_insert [simp]: "fst ` set (smap_insert k v m) = insert k (fst ` set m)"
  by (induction k v m rule: smap_insert.induct) auto

lemma sorted_smap_insert [simp]: "sorted_keys m \<Longrightarrow> sorted_keys (smap_insert k v m)"
proof (induction k v m rule: smap_insert.induct)
  case (2 k v k' v' m)
  have "fst q \<in> insert k (fst ` set m)" if "q \<in> set (smap_insert k v m)" for q
    using that keys_smap_insert [of k v m] by blast
  with 2 show ?case by fastforce
qed simp

lemma sorted_keys_distinct: "sorted_keys m \<Longrightarrow> distinct (map fst m)"
  by (induction m) auto

text \<open>\<open>if (m.find(k) != m.end()) throw e; else m[k] = v;\<close>\<close>

definition define_name :: "err \<Rightarrow> string \<Rightarrow> 'v \<Rightarrow> 'v smap \<Rightarrow> 'v smap res" where
  "define_name e k v m = (if map_of m k \<noteq> None then Inl e else Inr (smap_insert k v m))"

text \<open>
  What the passes rely on when they fill a name space: a definition fails exactly when the
  name has one already, and adds just this entry. Then a sequence of definitions succeeds
  exactly when no name occurs twice.
\<close>

locale name_table =
  fixes lookup :: "'m \<Rightarrow> string \<Rightarrow> 'v option"
    and def_name :: "err \<Rightarrow> string \<Rightarrow> 'v \<Rightarrow> 'm \<Rightarrow> 'm res"
  assumes def_fails: "lookup m k \<noteq> None \<Longrightarrow> def_name e k v m = Inl e"
    and def_works: "lookup m k = None \<Longrightarrow> \<exists>m'. def_name e k v m = Inr m' \<and> lookup m' = (lookup m)(k \<mapsto> v)"
begin

lemma def_InrD: "def_name e k v m = Inr m' \<Longrightarrow> lookup m k = None \<and> lookup m' = (lookup m)(k \<mapsto> v)"
  using def_fails [of m k e v] def_works [of m k e v] by (cases "lookup m k") auto

lemma define_all:
  "case foldr_res (\<lambda>p. def_name (err (fst p)) (fst p) (snd p)) ps m of
     Inr m' \<Rightarrow> distinct (map fst ps) \<and> (\<forall>k \<in> fst ` set ps. lookup m k = None) \<and> lookup m' = lookup m ++ map_of ps
   | Inl e \<Rightarrow> \<not> (distinct (map fst ps) \<and> (\<forall>k \<in> fst ` set ps. lookup m k = None))"
proof (induction ps arbitrary: m)
  case Nil
  then show ?case by simp
next
  case (Cons p ps)
  show ?case
  proof (cases "def_name (err (fst p)) (fst p) (snd p) m")
    case (Inl e)
    then have "lookup m (fst p) \<noteq> None" using def_works [of m "fst p" "err (fst p)" "snd p"] by auto
    with Inl show ?thesis by auto
  next
    case (Inr m')
    note upd = def_InrD [OF Inr]
    let ?free = "\<lambda>m ps. distinct (map fst ps) \<and> (\<forall>k \<in> fst ` set ps. lookup m k = None)"
    have free: "?free m (p # ps) \<longleftrightarrow> ?free m' ps"
      using upd by (auto simp: image_iff)
    have look: "lookup m' ++ map_of ps = lookup m ++ map_of (p # ps)" if "?free m (p # ps)"
      using that upd by (auto simp: fun_eq_iff map_add_def map_of_eq_None_iff image_iff split: option.splits)
    show ?thesis
    proof (cases "foldr_res (\<lambda>p. def_name (err (fst p)) (fst p) (snd p)) ps m'")
      case (Inl e)
      with Cons.IH [of m'] have "\<not> ?free m' ps" by simp
      with free have "\<not> ?free m (p # ps)" by blast
      with Inr Inl show ?thesis by simp
    next
      case loop: (Inr m'')
      with Cons.IH [of m'] have "?free m' ps" "lookup m'' = lookup m' ++ map_of ps" by simp_all
      with free look have "?free m (p # ps)" "lookup m'' = lookup m ++ map_of (p # ps)" by simp_all
      with Inr loop show ?thesis by simp
    qed
  qed
qed

end

interpretation smap: name_table map_of define_name
  by unfold_locales (simp_all add: define_name_def)

end
