(* ===== verification/Decls.thy ===== *)
theory Decls
  imports Smap ConstValues Controlflow
begin

section \<open>Scopes and declarations\<close>

text \<open>
  \<open>include/semantic/scope.h\<close>, \<open>include/semantic/decl.h\<close>, \<open>src/semantic/decl.cpp\<close> and the
  members of \<open>Semantic_Checker\<close> in \<open>include/semantic/semantic_checker.h\<close>. The passes share and
  change scopes and declarations through pointers, so these live in a store: an object has an
  address, \<open>make_shared\<close> takes the next one, and a \<open>shared_ptr\<close> or \<open>weak_ptr\<close> is an address,
  or \<open>None\<close> when it may be null. A pointer to a declaration carries its class, which is what
  \<open>kind\<close> and \<open>dynamic_pointer_cast\<close> read.
\<close>

datatype ScopeKind = Root_scope | Block_scope | Function_scope | Impl_scope

datatype TypeDecl = Struct_decl address | Enum_decl address

datatype ValueDecl = Function_decl address | Constant_decl address | LetStmt_decl address

record Scope =
  parent :: "address option"
  scope_kind :: ScopeKind
  children :: "address list"
  type_namespace :: "TypeDecl smap"
  value_namespace :: "ValueDecl smap"
  impl_struct :: string
  self_struct :: "RealType option"
  is_main_scope :: bool
  has_exit :: bool

record StructDecl =
  struct_name :: string
  field_order :: "string list"
  struct_fields_ast :: "(string \<times> type_node) list"
  struct_fields :: "RealType smap"
  methods :: "address smap"
  associated_func :: "address smap"
  associated_const :: "address smap"

record EnumDecl =
  enum_name :: string
  enum_variants_ast :: "string list"
  variants :: "nat smap"

record FnDecl =
  fn_name :: string
  fn_ast :: "item option"
  function_scope :: "address option"
  parameters :: "(pattern \<times> RealType) list"
  parameter_let_decls :: "address list"
  return_type :: "RealType option"
  receiver_type :: fn_reciever_type
  fn_self_struct :: "address option"
  is_main :: bool
  is_exit :: bool
  is_builtin :: bool
  builtin_method_self_type :: "RealType option"
  is_array_len :: bool

record ConstDecl =
  const_name :: string
  const_type_ast :: type_node
  const_type :: "RealType option"

record LetDecl =
  let_name :: string
  let_type :: RealType
  let_is_mut :: Mutibility

datatype PlaceKind = NotPlace | ReadOnlyPlace | ReadWritePlace

subsection \<open>The semantic checker\<close>

record Semantic_Checker =
  next_address :: address
  root_scope :: address
  scopes :: "address \<rightharpoonup> Scope"
  struct_decls :: "address \<rightharpoonup> StructDecl"
  enum_decls :: "address \<rightharpoonup> EnumDecl"
  fn_decls :: "address \<rightharpoonup> FnDecl"
  const_decls :: "address \<rightharpoonup> ConstDecl"
  let_decls :: "address \<rightharpoonup> LetDecl"
  node_scope_map :: "nat \<rightharpoonup> address"
  type_map :: "nat \<rightharpoonup> RealType"
  fn_item_to_decl_map :: "nat \<rightharpoonup> address"
  call_expr_to_decl_map :: "nat \<rightharpoonup> address"
  identifier_expr_to_decl_map :: "nat \<rightharpoonup> ValueDecl"
  let_stmt_to_decl_map :: "nat \<rightharpoonup> address"
  const_expr_queue :: "expr list"
  const_expr_to_size_map :: size_map
  const_value_map :: "address \<rightharpoonup> ConstValue"
  checker_outcome_map :: "nat \<rightharpoonup> OutcomeState"
  node_type_and_place_kind_map :: "nat \<rightharpoonup> RealType \<times> PlaceKind"
  scope_local_variable_map :: "address \<rightharpoonup> address smap"
  builtin_method_funcs :: "(RealTypeKind \<times> string \<times> address) list"
  builtin_associated_funcs :: "(RealTypeKind \<times> string \<times> address) list"

definition new_scope :: "address option \<Rightarrow> ScopeKind \<Rightarrow> string \<Rightarrow> Scope" where
  "new_scope p k impl =
     \<lparr>parent = p, scope_kind = k, children = [], type_namespace = [], value_namespace = [],
      impl_struct = impl, self_struct = None, is_main_scope = False, has_exit = False\<rparr>"

definition new_fn_decl :: "item option \<Rightarrow> address option \<Rightarrow> fn_reciever_type \<Rightarrow> string \<Rightarrow> FnDecl" where
  "new_fn_decl ast sc receiver name =
     \<lparr>fn_name = name, fn_ast = ast, function_scope = sc, parameters = [], parameter_let_decls = [],
      return_type = None, receiver_type = receiver, fn_self_struct = None, is_main = False,
      is_exit = False, is_builtin = False, builtin_method_self_type = None, is_array_len = False\<rparr>"

text \<open>The constructor: a root scope and empty maps.\<close>

definition new_checker :: Semantic_Checker where
  "new_checker =
     \<lparr>next_address = 1, root_scope = 0, scopes = [0 \<mapsto> new_scope None Root_scope []],
      struct_decls = Map.empty, enum_decls = Map.empty, fn_decls = Map.empty, const_decls = Map.empty, let_decls = Map.empty,
      node_scope_map = Map.empty, type_map = Map.empty, fn_item_to_decl_map = Map.empty,
      call_expr_to_decl_map = Map.empty, identifier_expr_to_decl_map = Map.empty,
      let_stmt_to_decl_map = Map.empty, const_expr_queue = [], const_expr_to_size_map = Map.empty,
      const_value_map = Map.empty, checker_outcome_map = Map.empty,
      node_type_and_place_kind_map = Map.empty, scope_local_variable_map = Map.empty,
      builtin_method_funcs = [], builtin_associated_funcs = []\<rparr>"

subsection \<open>Access to the store\<close>

text \<open>Following a pointer to an object that is not there has no meaning in C++.\<close>

definition deref :: "('a \<rightharpoonup> 'b) \<Rightarrow> 'a \<Rightarrow> 'b res" where
  "deref m k = (case m k of Some x \<Rightarrow> Inr x | None \<Rightarrow> Inl (Undefined ''null pointer''))"

definition the_ptr :: "'a option \<Rightarrow> 'a res" where
  "the_ptr p = (case p of Some x \<Rightarrow> Inr x | None \<Rightarrow> Inl (Undefined ''null pointer''))"

lemma deref_eq [res_simps]:
  "deref m k = Inr x \<longleftrightarrow> m k = Some x" "deref m k = Inl e \<longleftrightarrow> m k = None \<and> e = Undefined ''null pointer''"
  by (auto simp: deref_def split: option.splits)

lemma the_ptr_eq [res_simps]:
  "the_ptr p = Inr x \<longleftrightarrow> p = Some x" "the_ptr p = Inl e \<longleftrightarrow> p = None \<and> e = Undefined ''null pointer''"
  by (auto simp: the_ptr_def split: option.splits)

lemma deref_Some [simp]: "m k = Some x \<Longrightarrow> deref m k = Inr x"
  by (simp add: deref_def)

lemma the_ptr_Some [simp]: "the_ptr (Some x) = Inr x"
  by (simp add: the_ptr_def)

definition put_scope :: "address \<Rightarrow> Scope \<Rightarrow> Semantic_Checker \<Rightarrow> Semantic_Checker" where
  "put_scope a s c = c\<lparr>scopes := (scopes c)(a \<mapsto> s)\<rparr>"

definition put_struct :: "address \<Rightarrow> StructDecl \<Rightarrow> Semantic_Checker \<Rightarrow> Semantic_Checker" where
  "put_struct a d c = c\<lparr>struct_decls := (struct_decls c)(a \<mapsto> d)\<rparr>"

definition put_fn :: "address \<Rightarrow> FnDecl \<Rightarrow> Semantic_Checker \<Rightarrow> Semantic_Checker" where
  "put_fn a d c = c\<lparr>fn_decls := (fn_decls c)(a \<mapsto> d)\<rparr>"

text \<open>\<open>make_shared\<close>: the address of the new object and the state with the next one free.\<close>

definition alloc :: "Semantic_Checker \<Rightarrow> address \<times> Semantic_Checker" where
  "alloc c = (next_address c, c\<lparr>next_address := next_address c + 1\<rparr>)"

subsection \<open>Lookup along the scopes\<close>

text \<open>
  The loops \<open>while (scope != nullptr) ... scope = scope->parent.lock()\<close>: the first scope of the
  chain at which \<open>f\<close> gives a value. A parent is older than its child, so as many steps as
  there are addresses are enough (\<open>search_ends\<close> in \<open>ScopeProps\<close>).
\<close>

fun search_scopes :: "nat \<Rightarrow> (address \<rightharpoonup> Scope) \<Rightarrow> (address \<Rightarrow> Scope \<Rightarrow> 'a option) \<Rightarrow> address option \<Rightarrow> 'a option res" where
  "search_scopes n sc f None = Inr None"
| "search_scopes 0 sc f (Some a) = Inl OutOfFuel"
| "search_scopes (Suc n) sc f (Some a) =
     bindr (deref sc a) (\<lambda>s.
       case f a s of
         Some x \<Rightarrow> Inr (Some x)
       | None \<Rightarrow> search_scopes n sc f (parent s))"

definition search :: "Semantic_Checker \<Rightarrow> (address \<Rightarrow> Scope \<Rightarrow> 'a option) \<Rightarrow> address option \<Rightarrow> 'a option res" where
  "search c = search_scopes (next_address c) (scopes c)"

definition find_const_decl :: "Semantic_Checker \<Rightarrow> address option \<Rightarrow> string \<Rightarrow> address option res" where
  "find_const_decl c now name =
     bindr (search c (\<lambda>_ s. map_of (value_namespace s) name) now) (\<lambda>d.
       Inr (case d of Some (Constant_decl k) \<Rightarrow> Some k | _ \<Rightarrow> None))"

end
