(* ===== verification/ScopeBuilder.thy ===== *)
theory ScopeBuilder
  imports Decls
begin

section \<open>Building the scopes\<close>

text \<open>
  \<open>src/semantic/scope.cpp\<close>, the visitor \<open>ScopeBuilder_Visitor\<close>: a scope for every function,
  block and \<open>impl\<close>, the scope of every node in \<open>node_scope_map\<close>, and the declared items in the
  name spaces of their scopes. The flag \<open>block_is_in_function\<close> says that the next block is the
  body of a function, which shares the function's scope.
\<close>

record scope_builder =
  scope_stack :: "address list"
  block_is_in_function :: bool
  checker :: Semantic_Checker

text \<open>\<open>scope_stack.back()\<close>; the top of the stack is the head of the list.\<close>

definition current_scope :: "scope_builder \<Rightarrow> address res" where
  "current_scope st = (case scope_stack st of a # _ \<Rightarrow> Inr a | [] \<Rightarrow> Inl (Undefined ''empty scope stack''))"

definition enter :: "nat \<Rightarrow> scope_builder \<Rightarrow> scope_builder res" where
  "enter k st =
     bindr (current_scope st) (\<lambda>a.
       Inr (st\<lparr>checker := (checker st)\<lparr>node_scope_map := (node_scope_map (checker st))(k \<mapsto> a)\<rparr>\<rparr>))"

text \<open>A new scope below the current one: \<open>make_shared<Scope>(current_scope(), kind, impl)\<close>.\<close>

definition make_scope :: "ScopeKind \<Rightarrow> string \<Rightarrow> scope_builder \<Rightarrow> (address \<times> scope_builder) res" where
  "make_scope k impl st =
     bindr (current_scope st) (\<lambda>p.
       let (a, c) = alloc (checker st)
       in Inr (a, st\<lparr>checker := put_scope a (new_scope (Some p) k impl) c\<rparr>))"

text \<open>\<open>current_scope()->children.push_back(a); scope_stack.push_back(a);\<close>\<close>

definition push_scope :: "address \<Rightarrow> scope_builder \<Rightarrow> scope_builder res" where
  "push_scope a st =
     bindr (current_scope st) (\<lambda>p.
     bindr (deref (scopes (checker st)) p) (\<lambda>s.
       Inr (st\<lparr>checker := put_scope p (s\<lparr>children := children s @ [a]\<rparr>) (checker st),
               scope_stack := a # scope_stack st\<rparr>)))"

definition pop_scope :: "scope_builder \<Rightarrow> scope_builder" where
  "pop_scope st = st\<lparr>scope_stack := tl (scope_stack st)\<rparr>"

text \<open>An entry in a name space of the current scope, where a name must be new.\<close>

definition define_value :: "err \<Rightarrow> string \<Rightarrow> ValueDecl \<Rightarrow> scope_builder \<Rightarrow> scope_builder res" where
  "define_value e name d st =
     bindr (current_scope st) (\<lambda>a.
     bindr (deref (scopes (checker st)) a) (\<lambda>s.
     bindr (define_name e name d (value_namespace s)) (\<lambda>ns.
       Inr (st\<lparr>checker := put_scope a (s\<lparr>value_namespace := ns\<rparr>) (checker st)\<rparr>))))"

definition define_type :: "err \<Rightarrow> string \<Rightarrow> TypeDecl \<Rightarrow> scope_builder \<Rightarrow> scope_builder res" where
  "define_type e name d st =
     bindr (current_scope st) (\<lambda>a.
     bindr (deref (scopes (checker st)) a) (\<lambda>s.
     bindr (define_name e name d (type_namespace s)) (\<lambda>ns.
       Inr (st\<lparr>checker := put_scope a (s\<lparr>type_namespace := ns\<rparr>) (checker st)\<rparr>))))"

text \<open>The scope of a block: a new one, unless the block is the body of a function.\<close>

definition open_block :: "scope_builder \<Rightarrow> (bool \<times> scope_builder) res" where
  "open_block st =
     (if block_is_in_function st then Inr (False, st\<lparr>block_is_in_function := False\<rparr>)
      else bindr (make_scope Block_scope [] st) (\<lambda>(a, st).
        bindr (push_scope a st) (\<lambda>st. Inr (True, st))))"

definition in_block :: "(scope_builder \<Rightarrow> scope_builder res) \<Rightarrow> scope_builder \<Rightarrow> scope_builder res" where
  "in_block body st =
     bindr (open_block st) (\<lambda>(build_new_scope, st).
     bindr (body st) (\<lambda>st. Inr (if build_new_scope then pop_scope st else st)))"

text \<open>The children of a node that has opened a scope.\<close>

definition in_scope :: "(scope_builder \<Rightarrow> scope_builder res) \<Rightarrow> scope_builder \<Rightarrow> scope_builder res" where
  "in_scope body st = bindr (body st) (\<lambda>st. Inr (pop_scope st))"

text \<open>
  The declarations: a new object for the declaration, and its name in the current scope. The
  function's scope joins the tree only after the name has been defined.
\<close>

definition new_function :: "item \<Rightarrow> fn_reciever_type \<Rightarrow> string \<Rightarrow> address \<Rightarrow> scope_builder \<Rightarrow> scope_builder res" where
  "new_function node receiver name a st =
     (let (d, c) = alloc (checker st)
      in define_value (Thrown (''CE, function name '' @ name @ '' redefined'')) name (Function_decl d)
           (st\<lparr>checker := put_fn d (new_fn_decl (Some node) (Some a) receiver name) c\<rparr>))"

definition declare_fn :: "nat \<Rightarrow> item \<Rightarrow> fn_reciever_type \<Rightarrow> string \<Rightarrow> scope_builder \<Rightarrow> scope_builder res" where
  "declare_fn k node receiver name st =
     bindr (enter k st) (\<lambda>st.
     bindr (make_scope Function_scope [] st) (\<lambda>(a, st).
     bindr (new_function node receiver name a st) (\<lambda>st.
     bindr (push_scope a st) (\<lambda>st. Inr (st\<lparr>block_is_in_function := True\<rparr>)))))"

definition new_struct :: "string \<Rightarrow> (string \<times> type_node) list \<Rightarrow> scope_builder \<Rightarrow> scope_builder res" where
  "new_struct name fs st =
     (let (d, c) = alloc (checker st);
          decl = \<lparr>struct_name = name, field_order = map fst fs, struct_fields_ast = fs, struct_fields = [],
                  methods = [], associated_func = [], associated_const = []\<rparr>
      in define_type (Thrown (''CE, struct name '' @ name @ '' redefined'')) name (Struct_decl d)
           (st\<lparr>checker := put_struct d decl c\<rparr>))"

definition new_enum :: "string \<Rightarrow> string list \<Rightarrow> scope_builder \<Rightarrow> scope_builder res" where
  "new_enum name vs st =
     (let (d, c) = alloc (checker st);
          decl = \<lparr>enum_name = name, enum_variants_ast = vs, variants = []\<rparr>
      in define_type (Thrown (''CE, enum name '' @ name @ '' redefined'')) name (Enum_decl d)
           (st\<lparr>checker := c\<lparr>enum_decls := (enum_decls c)(d \<mapsto> decl)\<rparr>\<rparr>))"

definition new_const :: "string \<Rightarrow> type_node \<Rightarrow> scope_builder \<Rightarrow> scope_builder res" where
  "new_const name t st =
     (let (d, c) = alloc (checker st);
          decl = \<lparr>const_name = name, const_type_ast = t, const_type = None\<rparr>
      in define_value (Thrown (''CE, const name '' @ name @ '' redefined'')) name (Constant_decl d)
           (st\<lparr>checker := c\<lparr>const_decls := (const_decls c)(d \<mapsto> decl)\<rparr>\<rparr>))"

definition declare_impl :: "nat \<Rightarrow> string \<Rightarrow> scope_builder \<Rightarrow> scope_builder res" where
  "declare_impl k name st =
     bindr (enter k st) (\<lambda>st.
     bindr (make_scope Impl_scope name st) (\<lambda>(a, st). push_scope a st))"

definition build_pattern :: "pattern \<Rightarrow> scope_builder \<Rightarrow> scope_builder res" where
  "build_pattern p = enter (pattern_id p)"

definition build_param :: "pattern \<times> (scope_builder \<Rightarrow> scope_builder res) \<Rightarrow> scope_builder \<Rightarrow> scope_builder res" where
  "build_param p st = bindr (build_pattern (fst p) st) (snd p)"

subsection \<open>The visitor\<close>

primrec build_type :: "type_node \<Rightarrow> scope_builder \<Rightarrow> scope_builder res"
  and build_expr :: "expr \<Rightarrow> scope_builder \<Rightarrow> scope_builder res"
  and build_stmt :: "stmt \<Rightarrow> scope_builder \<Rightarrow> scope_builder res"
  and build_item :: "item \<Rightarrow> scope_builder \<Rightarrow> scope_builder res"
where
  "build_type (PathType k _ _) st = enter k st"
| "build_type (ArrayType k _ t e) st = bindr (enter k st) (\<lambda>st. bindr (build_type t st) (build_expr e))"
| "build_type (UnitType k _) st = enter k st"
| "build_type (SelfType k _) st = enter k st"
| "build_expr (LiteralExpr k _ _) st = enter k st"
| "build_expr (IdentifierExpr k _) st = enter k st"
| "build_expr (BinaryExpr k _ l r) st = bindr (enter k st) (\<lambda>st. bindr (build_expr l st) (build_expr r))"
| "build_expr (UnaryExpr k _ r) st = bindr (enter k st) (build_expr r)"
| "build_expr (CallExpr k c args) st =
     bindr (enter k st) (\<lambda>st. bindr (build_expr c st) (visit_all (map build_expr args)))"
| "build_expr (FieldExpr k b _) st = bindr (enter k st) (build_expr b)"
| "build_expr (StructExpr k t fs) st =
     bindr (enter k st) (\<lambda>st. bindr (build_type t st)
       (visit_all (map snd (map (map_prod id build_expr) fs))))"
| "build_expr (IndexExpr k b i) st = bindr (enter k st) (\<lambda>st. bindr (build_expr b st) (build_expr i))"
| "build_expr (BlockExpr k ss t _) st =
     in_block (\<lambda>st. bindr (enter k st) (\<lambda>st.
       bindr (visit_all (map build_stmt ss) st) (visit_opt (map_option build_stmt t)))) st"
| "build_expr (IfExpr k c a b _) st =
     bindr (enter k st) (\<lambda>st. bindr (build_expr c st) (\<lambda>st. bindr (build_expr a st)
       (visit_opt (map_option build_expr b))))"
| "build_expr (WhileExpr k c b) st = bindr (enter k st) (\<lambda>st. bindr (build_expr c st) (build_expr b))"
| "build_expr (LoopExpr k b _) st = bindr (enter k st) (build_expr b)"
| "build_expr (ReturnExpr k v) st = bindr (enter k st) (visit_opt (map_option build_expr v))"
| "build_expr (BreakExpr k v) st = bindr (enter k st) (visit_opt (map_option build_expr v))"
| "build_expr (ContinueExpr k) st = enter k st"
| "build_expr (CastExpr k e t) st = bindr (enter k st) (\<lambda>st. bindr (build_expr e st) (build_type t))"
| "build_expr (PathExpr k t _) st = bindr (enter k st) (build_type t)"
| "build_expr (SelfExpr k) st = enter k st"
| "build_expr (UnitExpr k) st = enter k st"
| "build_expr (ArrayExpr k es) st = bindr (enter k st) (visit_all (map build_expr es))"
| "build_expr (RepeatArrayExpr k e s) st = bindr (enter k st) (\<lambda>st. bindr (build_expr e st) (build_expr s))"
| "build_stmt (LetStmt k p t e) st =
     bindr (enter k st) (\<lambda>st. bindr (build_pattern p st) (\<lambda>st. bindr (build_type t st)
       (visit_opt (map_option build_expr e))))"
| "build_stmt (ExprStmt k e _) st = bindr (enter k st) (build_expr e)"
| "build_stmt (ItemStmt k i) st = bindr (enter k st) (build_item i)"
| "build_item (FnItem k n r ps rt b) st =
     bindr (declare_fn k (FnItem k n r ps rt b) r n st) (in_scope (\<lambda>st.
     bindr (visit_all (map build_param (map (map_prod id build_type) ps)) st) (\<lambda>st.
     bindr (visit_opt (map_option build_type rt) st) (build_expr b))))"
| "build_item (StructItem k n fs) st =
     bindr (bindr (enter k st) (new_struct n fs)) (visit_all (map snd (map (map_prod id build_type) fs)))"
| "build_item (EnumItem k n vs) st = bindr (enter k st) (new_enum n vs)"
| "build_item (ImplItem k n ms) st =
     bindr (declare_impl k n st) (in_scope (visit_all (map build_item ms)))"
| "build_item (ConstItem k n t e) st =
     bindr (bindr (enter k st) (new_const n t)) (\<lambda>st. bindr (build_type t st) (build_expr e))"

text \<open>The first step of the checker.\<close>

definition step1_build_scopes_and_collect_symbols :: "item list \<Rightarrow> Semantic_Checker \<Rightarrow> Semantic_Checker res" where
  "step1_build_scopes_and_collect_symbols items c =
     bindr (visit_all (map build_item items)
         \<lparr>scope_stack = [root_scope c], block_is_in_function = False, checker = c\<rparr>)
       (\<lambda>st. Inr (checker st))"

end
