(* ===== verification/Traversal.thy ===== *)
theory Traversal
  imports Controlflow
begin

section \<open>Traversals that keep an invariant\<close>

text \<open>
  The interface of the visitors that walk the tree with the traversal of \<open>AST_Walker\<close>: an
  invariant \<open>inv\<close> of the visitor's state, a relation \<open>step\<close> that says what a visit may change,
  the nodes (or other facts) \<open>seen\<close> so far, and the errors with which a visit may end. A visit
  that \<open>walks\<close> a set of nodes keeps the invariant, changes no more than \<open>step\<close> allows and has
  seen those nodes when it returns. The rules follow the loops and optional children of the
  traversal, so that a visitor has only to show what its own work at a node does.
\<close>

lemma param_ids_simp [simp]: "param_ids p = [pattern_id p]"
  by (cases p) simp

lemma visit_all_foldr: "visit_all (map f xs) = foldr_res f xs"
  by (induction xs) (auto simp: fun_eq_iff intro: bindr_cong)

locale walker =
  fixes inv :: "'s \<Rightarrow> bool"
    and step :: "'s \<Rightarrow> 's \<Rightarrow> bool"
    and seen :: "'s \<Rightarrow> 'k set"
    and fails :: "err \<Rightarrow> bool"
  assumes step_refl: "inv s \<Longrightarrow> step s s"
    and step_trans: "step s t \<Longrightarrow> step t u \<Longrightarrow> step s u"
    and step_seen: "step s t \<Longrightarrow> seen s \<subseteq> seen t"
begin

definition walks :: "'k set \<Rightarrow> ('s \<Rightarrow> 's res) \<Rightarrow> bool" where
  "walks A f \<longleftrightarrow> (\<forall>s. inv s \<longrightarrow>
     (case f s of Inr t \<Rightarrow> inv t \<and> step s t \<and> A \<subseteq> seen t | Inl e \<Rightarrow> fails e))"

lemma walksI:
  "(\<And>s t. inv s \<Longrightarrow> f s = Inr t \<Longrightarrow> inv t \<and> step s t \<and> A \<subseteq> seen t) \<Longrightarrow>
    (\<And>s e. inv s \<Longrightarrow> f s = Inl e \<Longrightarrow> fails e) \<Longrightarrow> walks A f"
  by (auto simp: walks_def split: sum.split)

lemma walksD: "walks A f \<Longrightarrow> inv s \<Longrightarrow> f s = Inr t \<Longrightarrow> inv t \<and> step s t \<and> A \<subseteq> seen t"
  unfolding walks_def by (drule spec [of _ s]) simp

lemma walks_failD: "walks A f \<Longrightarrow> inv s \<Longrightarrow> f s = Inl e \<Longrightarrow> fails e"
  unfolding walks_def by (drule spec [of _ s]) simp

lemma walks_mono: "walks B f \<Longrightarrow> A \<subseteq> B \<Longrightarrow> walks A f"
  by (rule walksI) (blast dest: walksD walks_failD)+

lemma walks_eq: "(\<And>s. f s = g s) \<Longrightarrow> walks B g \<Longrightarrow> A \<subseteq> B \<Longrightarrow> walks A f"
  using walks_mono by (metis ext)

lemma walks_id: "walks {} Inr"
  by (simp add: walks_def step_refl)

lemma walks_bind:
  assumes "walks A f" and "walks B g"
  shows "walks (A \<union> B) (\<lambda>s. bindr (f s) g)"
proof (rule walksI)
  fix s t assume "inv s" and "bindr (f s) g = Inr t"
  then obtain u where "f s = Inr u" "g u = Inr t" by (auto simp: res_simps)
  with walksD [OF assms(1) \<open>inv s\<close>] walksD [OF assms(2), of u t]
  show "inv t \<and> step s t \<and> A \<union> B \<subseteq> seen t"
    using step_seen [of u t] step_trans [of s u t] by blast
next
  fix s e assume "inv s" and "bindr (f s) g = Inl e"
  then show "fails e"
    using walksD [OF assms(1)] walks_failD [OF assms(1)] walks_failD [OF assms(2)]
    by (simp add: res_simps) blast
qed

lemma walks_all:
  assumes "\<And>x. x \<in> set xs \<Longrightarrow> walks (I x) (f x)"
  shows "walks (\<Union> (I ` set xs)) (visit_all (map f xs))"
  using assms
proof (induction xs)
  case Nil
  then show ?case using walks_id by (auto intro: walks_eq)
next
  case (Cons x xs)
  have "walks (I x \<union> \<Union> (I ` set xs)) (\<lambda>s. bindr (f x s) (visit_all (map f xs)))"
    using Cons by (intro walks_bind) auto
  then show ?case by (rule walks_eq [rotated]) auto
qed

lemma walks_opt:
  assumes "\<And>x. x \<in> set_option v \<Longrightarrow> walks (I x) (f x)"
  shows "walks (\<Union> (I ` set_option v)) (visit_opt (map_option f v))"
  using assms walks_id by (cases v) (auto intro: walks_eq)

lemma walks_foldr:
  "(\<And>x. x \<in> set xs \<Longrightarrow> walks (I x) (f x)) \<Longrightarrow> walks (\<Union> (I ` set xs)) (foldr_res f xs)"
  using walks_all [of xs I f] visit_all_foldr [of f xs] by simp

end

text \<open>When what has been seen are nodes: the rules with the ids below the children.\<close>

locale node_walker = walker inv step seen fails
  for inv :: "'s \<Rightarrow> bool" and step :: "'s \<Rightarrow> 's \<Rightarrow> bool" and seen :: "'s \<Rightarrow> nat set" and fails :: "err \<Rightarrow> bool"
begin

lemma walks_list:
  "(\<And>x. x \<in> set xs \<Longrightarrow> walks (set (I x)) (f x)) \<Longrightarrow>
    walks (set (concat (map I xs))) (visit_all (map f xs))"
  using walks_all [of xs "\<lambda>x. set (I x)" f] by simp

lemma walks_option:
  "(\<And>x. x \<in> set_option v \<Longrightarrow> walks (set (I x)) (f x)) \<Longrightarrow>
    walks (set (opt_list (map_option I v))) (visit_opt (map_option f v))"
  using walks_opt [of v "\<lambda>x. set (I x)" f] by (cases v) simp_all

lemma walks_fields:
  assumes "\<And>p x. p \<in> set xs \<Longrightarrow> x \<in> Basic_BNFs.snds p \<Longrightarrow> walks (set (I x)) (f x)"
  shows "walks (set (concat (map snd (map (map_prod id I) xs))))
    (visit_all (map snd (map (map_prod id f) xs)))"
proof -
  have "walks (set (I (snd p))) (f (snd p))" if "p \<in> set xs" for p
    using assms [OF that, of "snd p"] by (cases p) simp
  from walks_list [OF this] show ?thesis by (simp add: comp_def)
qed

lemma walks_params:
  assumes "\<And>p x. p \<in> set xs \<Longrightarrow> x \<in> Basic_BNFs.snds p \<Longrightarrow> walks (set (I x)) (f x)"
    and "\<And>p g A. walks A g \<Longrightarrow> walks (insert (pattern_id p) A) (v (p, g))"
  shows "walks (set (concat (map (\<lambda>(p, x). param_ids p @ x) (map (map_prod id I) xs))))
    (visit_all (map v (map (map_prod id f) xs)))"
proof -
  have "walks (set (pattern_id (fst p) # I (snd p))) (v (fst p, f (snd p)))" if "p \<in> set xs" for p
    using assms(2) [OF assms(1) [OF that, of "snd p"]] by (cases p) simp
  from walks_list [OF this] show ?thesis by (simp add: comp_def case_prod_beta map_prod_def)
qed

end

end
