(* ===== verification/ScopeProps.thy ===== *)
theory ScopeProps
  imports ScopeBuilder Traversal
begin

section \<open>The scopes form a tree\<close>

text \<open>
  The invariant of the store that the first step sets up and the later steps rely on: a parent
  is older than its children and present, every node is in a scope that is present, and the
  name spaces are sorted maps that refer to declarations of the right class.
\<close>

definition type_decl_ok :: "Semantic_Checker \<Rightarrow> TypeDecl \<Rightarrow> bool" where
  "type_decl_ok c d = (case d of Struct_decl a \<Rightarrow> a \<in> dom (struct_decls c) | Enum_decl a \<Rightarrow> a \<in> dom (enum_decls c))"

definition value_decl_ok :: "Semantic_Checker \<Rightarrow> ValueDecl \<Rightarrow> bool" where
  "value_decl_ok c d =
     (case d of Function_decl a \<Rightarrow> a \<in> dom (fn_decls c) | Constant_decl a \<Rightarrow> a \<in> dom (const_decls c)
      | LetStmt_decl a \<Rightarrow> a \<in> dom (let_decls c))"

text \<open>A scope that is listed by its parent.\<close>

definition child_of :: "Semantic_Checker \<Rightarrow> address \<Rightarrow> address \<Rightarrow> bool" where
  "child_of c p a \<longleftrightarrow> map_option parent (scopes c a) = Some (Some p)"

text \<open>The declaration of a function of the program: its item and its scope are there.\<close>

definition user_fn :: "Semantic_Checker \<Rightarrow> FnDecl \<Rightarrow> bool" where
  "user_fn c fd \<longleftrightarrow>
     (\<exists>k n r ps rt b. fn_ast fd = Some (FnItem k n r ps rt b))
     \<and> (\<exists>a. function_scope fd = Some a \<and> a \<in> dom (scopes c))"

lemma user_fn_same: "scopes d = scopes c \<Longrightarrow> user_fn d fd = user_fn c fd"
  by (simp add: user_fn_def)

definition scope_ok :: "Semantic_Checker \<Rightarrow> address \<Rightarrow> Scope \<Rightarrow> bool" where
  "scope_ok c a s \<longleftrightarrow>
     a < next_address c
     \<and> (\<forall>p. parent s = Some p \<longrightarrow> p < a \<and> p \<in> dom (scopes c))
     \<and> (\<forall>b \<in> set (children s). child_of c a b)
     \<and> sorted_keys (type_namespace s) \<and> sorted_keys (value_namespace s)
     \<and> (\<forall>d \<in> snd ` set (type_namespace s). type_decl_ok c d)
     \<and> (\<forall>d \<in> snd ` set (value_namespace s). value_decl_ok c d)"

definition store_ok :: "Semantic_Checker \<Rightarrow> bool" where
  "store_ok c \<longleftrightarrow>
     root_scope c \<in> dom (scopes c)
     \<and> (\<forall>a s. scopes c a = Some s \<longrightarrow> scope_ok c a s)
     \<and> ran (node_scope_map c) \<subseteq> dom (scopes c)
     \<and> (\<forall>d fd. fn_decls c d = Some fd \<longrightarrow> user_fn c fd)
     \<and> dom (fn_decls c) \<union> dom (struct_decls c) \<union> dom (enum_decls c) \<union> dom (const_decls c) \<subseteq> {..<next_address c}"

text \<open>
  What the steps may change: objects are added, never removed, and no scope gets another parent
  or another kind.
\<close>

definition scope_head :: "Scope \<Rightarrow> address option \<times> ScopeKind" where
  [simp]: "scope_head s = (parent s, scope_kind s)"

definition store_grows :: "Semantic_Checker \<Rightarrow> Semantic_Checker \<Rightarrow> bool" where
  "store_grows c d \<longleftrightarrow>
     next_address c \<le> next_address d \<and> root_scope d = root_scope c
     \<and> map_option scope_head \<circ> scopes c \<subseteq>\<^sub>m map_option scope_head \<circ> scopes d
     \<and> dom (struct_decls c) \<subseteq> dom (struct_decls d) \<and> dom (enum_decls c) \<subseteq> dom (enum_decls d)
     \<and> dom (fn_decls c) \<subseteq> dom (fn_decls d) \<and> dom (const_decls c) \<subseteq> dom (const_decls d)
     \<and> dom (node_scope_map c) \<subseteq> dom (node_scope_map d)"

lemma store_grows_refl [simp]: "store_grows c c"
  by (simp add: store_grows_def)

lemma store_grows_trans: "store_grows b c \<Longrightarrow> store_grows c d \<Longrightarrow> store_grows b d"
  unfolding store_grows_def
  by (elim conjE, intro conjI; (erule (1) map_le_trans | erule (1) order_trans | simp))

lemma store_grows_scopes: "store_grows c d \<Longrightarrow> dom (scopes c) \<subseteq> dom (scopes d)"
proof -
  assume "store_grows c d"
  then have "map_option scope_head \<circ> scopes c \<subseteq>\<^sub>m map_option scope_head \<circ> scopes d"
    by (simp add: store_grows_def)
  from map_le_implies_dom_le [OF this] show ?thesis by (simp add: dom_def)
qed

lemma child_of_mono: "store_grows c d \<Longrightarrow> child_of c p a \<Longrightarrow> child_of d p a"
  unfolding store_grows_def child_of_def map_le_def
  by (elim conjE, drule bspec [of _ _ a]) (auto simp: eq_commute [of "Some (Some p, _)"])

lemma child_of_dom: "child_of c p a \<Longrightarrow> a \<in> dom (scopes c)"
  by (auto simp: child_of_def)

lemma user_fn_mono: "store_grows c d \<Longrightarrow> user_fn c fd \<Longrightarrow> user_fn d fd"
  using store_grows_scopes [of c d]
  unfolding user_fn_def by (elim conjE exE, intro conjI exI) (assumption | blast)+

lemma decl_ok_mono:
  "store_grows c d \<Longrightarrow> type_decl_ok c t \<Longrightarrow> type_decl_ok d t"
  "store_grows c d \<Longrightarrow> let_decls d = let_decls c \<Longrightarrow> value_decl_ok c v \<Longrightarrow> value_decl_ok d v"
  by (auto simp: type_decl_ok_def value_decl_ok_def store_grows_def split: TypeDecl.splits ValueDecl.splits)

lemma scope_ok_mono:
  assumes "store_grows c d" and "let_decls d = let_decls c" and "scope_ok c a s"
  shows "scope_ok d a s"
proof -
  have "next_address c \<le> next_address d" using assms(1) by (simp add: store_grows_def)
  moreover have "dom (scopes c) \<subseteq> dom (scopes d)" by (rule store_grows_scopes [OF assms(1)])
  ultimately show ?thesis
    using assms(3) decl_ok_mono(1) [OF assms(1)] decl_ok_mono(2) [OF assms(1, 2)] child_of_mono [OF assms(1)]
    unfolding scope_ok_def by (meson order_less_le_trans subsetD)
qed

subsection \<open>Every lookup ends\<close>

lemma search_scopes_ends:
  assumes "\<And>a s. sc a = Some s \<Longrightarrow> (\<forall>p. parent s = Some p \<longrightarrow> p < a \<and> p \<in> dom sc)"
    and "a \<in> dom sc" and "a < n"
  shows "\<exists>r. search_scopes n sc f (Some a) = Inr r"
  using assms(2, 3)
proof (induction n arbitrary: a)
  case 0
  then show ?case by simp
next
  case (Suc n)
  then obtain s where s: "sc a = Some s" by auto
  show ?case
  proof (cases "parent s")
    case None
    with s show ?thesis by (auto split: option.split)
  next
    case (Some p)
    with assms(1) [OF s] Suc.prems have "p < n" "p \<in> dom sc" by auto
    with Suc.IH [of p] Some s show ?thesis by (auto split: option.split)
  qed
qed

lemma search_ends: "store_ok c \<Longrightarrow> a \<in> dom (scopes c) \<Longrightarrow> \<exists>r. search c f (Some a) = Inr r"
  unfolding search_def
  by (rule search_scopes_ends) (auto simp: store_ok_def scope_ok_def)

subsection \<open>Changes of the store\<close>

lemma put_scope_keeps:
  assumes "store_ok c" and "scope_ok c a s" and "\<And>old. scopes c a = Some old \<Longrightarrow> scope_head s = scope_head old"
  shows "store_ok (put_scope a s c)" and "store_grows c (put_scope a s c)"
proof -
  show grows: "store_grows c (put_scope a s c)"
    using assms(3) by (auto simp: store_grows_def put_scope_def map_le_def)
  have "let_decls (put_scope a s c) = let_decls c" by (simp add: put_scope_def)
  note mono = scope_ok_mono [OF grows this]
  show "store_ok (put_scope a s c)"
    using assms(1, 2) mono user_fn_mono [OF grows] by (auto simp: store_ok_def put_scope_def)
qed

lemma alloc_keeps:
  assumes "alloc c = (a, d)" and "store_ok c"
  shows "store_ok d" and "store_grows c d" and "scopes c a = None" and "a < next_address d"
    and "next_address c \<le> a" and "let_decls d = let_decls c" and "scopes d = scopes c"
proof -
  have d: "d = c\<lparr>next_address := next_address c + 1\<rparr>" and a: "a = next_address c"
    using assms(1) by (auto simp: alloc_def)
  show grows: "store_grows c d" by (simp add: store_grows_def d)
  show lets: "let_decls d = let_decls c" by (simp add: d)
  note mono = scope_ok_mono [OF grows lets]
  have "dom (fn_decls c) \<union> dom (struct_decls c) \<union> dom (enum_decls c) \<union> dom (const_decls c) \<subseteq> {..<next_address c}"
    using assms(2) by (simp add: store_ok_def)
  then have "dom (fn_decls d) \<union> dom (struct_decls d) \<union> dom (enum_decls d) \<union> dom (const_decls d) \<subseteq> {..<next_address d}"
    by (auto simp: d)
  moreover have "\<forall>b s. scopes d b = Some s \<longrightarrow> scope_ok d b s"
    using assms(2) mono by (simp add: store_ok_def d)
  moreover have "\<forall>a fd. fn_decls d a = Some fd \<longrightarrow> user_fn d fd"
    using assms(2) user_fn_mono [OF grows] by (simp add: store_ok_def d)
  ultimately show "store_ok d" using assms(2) by (simp add: store_ok_def d)
  show "scopes c a = None"
    using assms(2) by (metis a less_irrefl not_Some_eq scope_ok_def store_ok_def)
  show "a < next_address d" "next_address c \<le> a" "scopes d = scopes c" by (simp_all add: a d)
qed

lemma store_ok_grows:
  assumes "store_ok c" and "store_grows c d" and "let_decls d = let_decls c" and "scopes d = scopes c"
    and "node_scope_map d = node_scope_map c"
    and "dom (fn_decls d) \<union> dom (struct_decls d) \<union> dom (enum_decls d) \<union> dom (const_decls d) \<subseteq> {..<next_address d}"
    and "\<And>a fd. fn_decls d a = Some fd \<Longrightarrow> user_fn d fd"
  shows "store_ok d"
  using assms scope_ok_mono [OF assms(2, 3)] by (auto simp: store_ok_def store_grows_def)

lemma put_decl_keeps:
  assumes "store_ok c" and "a < next_address c"
  shows "user_fn c f \<Longrightarrow> store_ok (put_fn a f c) \<and> store_grows c (put_fn a f c)"
    and "store_ok (put_struct a s c) \<and> store_grows c (put_struct a s c)"
    and "store_ok (c\<lparr>enum_decls := (enum_decls c)(a \<mapsto> e)\<rparr>) \<and> store_grows c (c\<lparr>enum_decls := (enum_decls c)(a \<mapsto> e)\<rparr>)"
    and "store_ok (c\<lparr>const_decls := (const_decls c)(a \<mapsto> k)\<rparr>) \<and> store_grows c (c\<lparr>const_decls := (const_decls c)(a \<mapsto> k)\<rparr>)"
proof -
  have same: "user_fn (put_fn a f c) = user_fn c" "user_fn (put_struct a s c) = user_fn c"
    "user_fn (c\<lparr>enum_decls := (enum_decls c)(a \<mapsto> e)\<rparr>) = user_fn c"
    "user_fn (c\<lparr>const_decls := (const_decls c)(a \<mapsto> k)\<rparr>) = user_fn c"
    by (intro ext user_fn_same, simp add: put_fn_def put_struct_def)+
  have fns: "user_fn c fd" if "fn_decls c b = Some fd" for b fd
    using assms(1) that by (simp add: store_ok_def)
  have doms: "dom (fn_decls c) \<union> dom (struct_decls c) \<union> dom (enum_decls c) \<union> dom (const_decls c) \<subseteq> {..<next_address c}"
    using assms(1) by (simp add: store_ok_def)
  have grows: "store_grows c (put_fn a f c)" "store_grows c (put_struct a s c)"
    "store_grows c (c\<lparr>enum_decls := (enum_decls c)(a \<mapsto> e)\<rparr>)"
    "store_grows c (c\<lparr>const_decls := (const_decls c)(a \<mapsto> k)\<rparr>)"
    by (simp_all add: store_grows_def put_fn_def put_struct_def subset_insertI)
  show "store_ok (put_fn a f c) \<and> store_grows c (put_fn a f c)" if "user_fn c f"
    by (rule conjI [OF store_ok_grows [OF assms(1) grows(1)] grows(1)])
      (use doms assms(2) fns that in \<open>auto simp: same [unfolded put_fn_def] put_fn_def split: if_splits\<close>)
  show "store_ok (put_struct a s c) \<and> store_grows c (put_struct a s c)"
    by (rule conjI [OF store_ok_grows [OF assms(1) grows(2)] grows(2)])
      (use doms assms(2) fns in \<open>auto simp: same [unfolded put_struct_def] put_struct_def\<close>)
  show "store_ok (c\<lparr>enum_decls := (enum_decls c)(a \<mapsto> e)\<rparr>) \<and> store_grows c (c\<lparr>enum_decls := (enum_decls c)(a \<mapsto> e)\<rparr>)"
    by (rule conjI [OF store_ok_grows [OF assms(1) grows(3)] grows(3)])
      (use doms assms(2) fns in \<open>auto simp: same\<close>)
  show "store_ok (c\<lparr>const_decls := (const_decls c)(a \<mapsto> k)\<rparr>) \<and> store_grows c (c\<lparr>const_decls := (const_decls c)(a \<mapsto> k)\<rparr>)"
    by (rule conjI [OF store_ok_grows [OF assms(1) grows(4)] grows(4)])
      (use doms assms(2) fns in \<open>auto simp: same\<close>)
qed

subsection \<open>The visitor keeps the invariant\<close>

definition builder_ok :: "scope_builder \<Rightarrow> bool" where
  "builder_ok st \<longleftrightarrow> store_ok (checker st) \<and> scope_stack st \<noteq> []
     \<and> set (scope_stack st) \<subseteq> dom (scopes (checker st))"

definition builder_step :: "scope_builder \<Rightarrow> scope_builder \<Rightarrow> bool" where
  "builder_step s t \<longleftrightarrow> scope_stack t = scope_stack s \<and> store_grows (checker s) (checker t)"

definition nodes_seen :: "scope_builder \<Rightarrow> nat set" where
  "nodes_seen st = dom (node_scope_map (checker st))"

definition thrown :: "err \<Rightarrow> bool" where
  "thrown e \<longleftrightarrow> (\<exists>msg. e = Thrown msg)"

interpretation scoping: node_walker builder_ok builder_step nodes_seen thrown
proof unfold_locales
  fix s t u
  show "builder_step s s" by (simp add: builder_step_def)
  show "builder_step s t \<Longrightarrow> builder_step t u \<Longrightarrow> builder_step s u"
    by (auto simp: builder_step_def intro: store_grows_trans)
  show "builder_step s t \<Longrightarrow> nodes_seen s \<subseteq> nodes_seen t"
    by (simp add: builder_step_def nodes_seen_def store_grows_def)
qed

lemma grows_seen: "store_grows (checker s) (checker t) \<Longrightarrow> nodes_seen s \<subseteq> nodes_seen t"
  by (simp add: nodes_seen_def store_grows_def)

lemma current_scope_ok: "builder_ok st \<Longrightarrow> \<exists>a s. current_scope st = Inr a \<and> scopes (checker st) a = Some s \<and> a = hd (scope_stack st)"
  by (cases "scope_stack st") (auto simp: builder_ok_def current_scope_def)

lemma walks_enter: "scoping.walks {k} (enter k)"
proof (rule scoping.walksI)
  fix s t assume ok: "builder_ok s" and t: "enter k s = Inr t"
  obtain a where a: "current_scope s = Inr a" "a \<in> dom (scopes (checker s))"
    using current_scope_ok [OF ok] by auto
  let ?d = "(checker s)\<lparr>node_scope_map := (node_scope_map (checker s))(k \<mapsto> a)\<rparr>"
  have t: "t = s\<lparr>checker := ?d\<rparr>" using t a by (simp add: enter_def)
  have grows: "store_grows (checker s) ?d" by (auto simp: store_grows_def)
  have "let_decls ?d = let_decls (checker s)" by simp
  note mono = scope_ok_mono [OF grows this]
  have "store_ok ?d"
    using ok a(2) mono user_fn_mono [OF grows] by (auto simp: builder_ok_def store_ok_def ran_def)
  with ok grows show "builder_ok t \<and> builder_step s t \<and> {k} \<subseteq> nodes_seen t"
    by (simp add: t builder_ok_def builder_step_def nodes_seen_def)
next
  fix s e assume "builder_ok s" and "enter k s = Inl e"
  then show "thrown e" using current_scope_ok [of s] by (auto simp: enter_def)
qed

lemma set_smap_insert: "set (smap_insert k v m) \<subseteq> insert (k, v) (set m)"
  by (induction k v m rule: smap_insert.induct) auto

lemma put_scope_builder:
  assumes "builder_ok st" and "scope_ok (checker st) a s"
    and "\<And>old. scopes (checker st) a = Some old \<Longrightarrow> scope_head s = scope_head old"
  shows "builder_ok (st\<lparr>checker := put_scope a s (checker st)\<rparr>)"
    and "builder_step st (st\<lparr>checker := put_scope a s (checker st)\<rparr>)"
proof -
  have "store_ok (checker st)" using assms(1) by (simp add: builder_ok_def)
  note put = put_scope_keeps [OF this assms(2, 3)]
  then show "builder_step st (st\<lparr>checker := put_scope a s (checker st)\<rparr>)"
    by (simp add: builder_step_def)
  show "builder_ok (st\<lparr>checker := put_scope a s (checker st)\<rparr>)"
    using assms(1) put store_grows_scopes [OF put(2)] by (simp add: builder_ok_def) blast
qed

lemma builder_scope_ok: "builder_ok st \<Longrightarrow> scopes (checker st) a = Some s \<Longrightarrow> scope_ok (checker st) a s"
  by (simp add: builder_ok_def store_ok_def)

lemma make_scope_ok:
  assumes "builder_ok st"
  obtains a t where "make_scope k impl st = Inr (a, t)" and "builder_ok t" and "builder_step st t"
    and "child_of (checker t) (hd (scope_stack t)) a"
proof -
  obtain p s where p: "current_scope st = Inr p" "scopes (checker st) p = Some s"
    "p = hd (scope_stack st)"
    using current_scope_ok [OF assms] by auto
  obtain a c where a: "alloc (checker st) = (a, c)" by (cases "alloc (checker st)")
  have ok: "store_ok (checker st)" using assms by (simp add: builder_ok_def)
  note al = alloc_keeps [OF a ok]
  have "p < a"
    using builder_scope_ok [OF assms p(2)] al(5) by (simp add: scope_ok_def)
  then have "scope_ok c a (new_scope (Some p) k impl)"
    using al(4, 7) p(2) by (auto simp: scope_ok_def new_scope_def)
  moreover have "builder_ok (st\<lparr>checker := c\<rparr>)" using assms al by (simp add: builder_ok_def)
  ultimately have put: "builder_ok (st\<lparr>checker := put_scope a (new_scope (Some p) k impl) c\<rparr>)"
      "builder_step (st\<lparr>checker := c\<rparr>) (st\<lparr>checker := put_scope a (new_scope (Some p) k impl) c\<rparr>)"
    using put_scope_builder [of "st\<lparr>checker := c\<rparr>" a "new_scope (Some p) k impl"] al(3, 7) by simp_all
  have "builder_step st (st\<lparr>checker := put_scope a (new_scope (Some p) k impl) c\<rparr>)"
    using put(2) al(2) by (auto simp: builder_step_def intro: store_grows_trans)
  with put(1) show thesis
    using that [of a "st\<lparr>checker := put_scope a (new_scope (Some p) k impl) c\<rparr>"] p a
    by (simp add: make_scope_def put_scope_def child_of_def new_scope_def)
qed

text \<open>An operation that opens a scope below the current one and has seen some nodes.\<close>

definition opens :: "nat set \<Rightarrow> (scope_builder \<Rightarrow> scope_builder res) \<Rightarrow> bool" where
  "opens A f \<longleftrightarrow> (\<forall>s. builder_ok s \<longrightarrow>
     (case f s of
        Inr t \<Rightarrow> builder_ok t \<and> store_grows (checker s) (checker t)
          \<and> tl (scope_stack t) = scope_stack s \<and> A \<subseteq> nodes_seen t
      | Inl e \<Rightarrow> thrown e))"

lemma opensD:
  "opens A f \<Longrightarrow> builder_ok s \<Longrightarrow> f s = Inr t \<Longrightarrow>
    builder_ok t \<and> store_grows (checker s) (checker t) \<and> tl (scope_stack t) = scope_stack s \<and> A \<subseteq> nodes_seen t"
  "opens A f \<Longrightarrow> builder_ok s \<Longrightarrow> f s = Inl e \<Longrightarrow> thrown e"
  by (auto simp: opens_def dest!: spec [of _ s])

lemma opensI:
  "(\<And>s t. builder_ok s \<Longrightarrow> f s = Inr t \<Longrightarrow>
      builder_ok t \<and> store_grows (checker s) (checker t) \<and> tl (scope_stack t) = scope_stack s \<and> A \<subseteq> nodes_seen t) \<Longrightarrow>
    (\<And>s e. builder_ok s \<Longrightarrow> f s = Inl e \<Longrightarrow> thrown e) \<Longrightarrow> opens A f"
  by (auto simp: opens_def split: sum.split)

lemma push_scope_ok:
  assumes "builder_ok st" and "child_of (checker st) (hd (scope_stack st)) a"
  obtains t where "push_scope a st = Inr t" and "builder_ok t" and "store_grows (checker st) (checker t)"
    and "scope_stack t = a # scope_stack st"
proof -
  obtain p s where p: "current_scope st = Inr p" "scopes (checker st) p = Some s"
    "p = hd (scope_stack st)"
    using current_scope_ok [OF assms(1)] by auto
  let ?s = "s\<lparr>children := children s @ [a]\<rparr>"
  have "scope_ok (checker st) p ?s"
    using builder_scope_ok [OF assms(1) p(2)] assms(2) p(3) by (simp add: scope_ok_def)
  note put = put_scope_builder [OF assms(1) this]
  have grows: "store_grows (checker st) (put_scope p ?s (checker st))"
    using put(2) p(2) by (simp add: builder_step_def)
  show thesis
    using that [of "st\<lparr>checker := put_scope p ?s (checker st), scope_stack := a # scope_stack st\<rparr>"]
      put(1) p grows child_of_dom [OF assms(2)] store_grows_scopes [OF grows]
    by (auto simp: push_scope_def builder_ok_def)
qed

lemma define_value_ok:
  assumes "builder_ok st" and "value_decl_ok (checker st) d"
  shows "case define_value (Thrown m) name d st of
     Inr t \<Rightarrow> builder_ok t \<and> builder_step st t | Inl e \<Rightarrow> thrown e"
proof -
  obtain p s where p: "current_scope st = Inr p" "scopes (checker st) p = Some s"
    using current_scope_ok [OF assms(1)] by auto
  let ?s = "s\<lparr>value_namespace := smap_insert name d (value_namespace s)\<rparr>"
  have "scope_ok (checker st) p ?s"
    using builder_scope_ok [OF assms(1) p(2)] set_smap_insert [of name d "value_namespace s"] assms(2)
    by (fastforce simp: scope_ok_def)
  note put = put_scope_builder [OF assms(1) this]
  show ?thesis
    using put p by (simp add: define_value_def define_name_def thrown_def)
qed

lemma define_type_ok:
  assumes "builder_ok st" and "type_decl_ok (checker st) d"
  shows "case define_type (Thrown m) name d st of
     Inr t \<Rightarrow> builder_ok t \<and> builder_step st t | Inl e \<Rightarrow> thrown e"
proof -
  obtain p s where p: "current_scope st = Inr p" "scopes (checker st) p = Some s"
    using current_scope_ok [OF assms(1)] by auto
  let ?s = "s\<lparr>type_namespace := smap_insert name d (type_namespace s)\<rparr>"
  have "scope_ok (checker st) p ?s"
    using builder_scope_ok [OF assms(1) p(2)] set_smap_insert [of name d "type_namespace s"] assms(2)
    by (fastforce simp: scope_ok_def)
  note put = put_scope_builder [OF assms(1) this]
  show ?thesis
    using put p by (simp add: define_type_def define_name_def thrown_def)
qed

lemma walks_in_scope:
  assumes "opens A f" and "scoping.walks B body"
  shows "scoping.walks (A \<union> B) (\<lambda>st. bindr (f st) (in_scope body))"
proof (rule scoping.walksI)
  fix s t assume s: "builder_ok s" and "bindr (f s) (in_scope body) = Inr t"
  then obtain u v where uv: "f s = Inr u" "body u = Inr v" "t = pop_scope v"
    by (auto simp: in_scope_def res_simps)
  note u = opensD(1) [OF assms(1) s uv(1)]
  note v = scoping.walksD [OF assms(2) _ uv(2)]
  have "builder_ok v" "scope_stack v = scope_stack u" "store_grows (checker u) (checker v)"
    and seen: "B \<subseteq> nodes_seen v" "nodes_seen u \<subseteq> nodes_seen v"
    using u v scoping.step_seen [of u v] by (auto simp: builder_step_def)
  moreover have "scope_stack s \<noteq> []" using s by (simp add: builder_ok_def)
  ultimately have "scope_stack t = scope_stack s" "checker t = checker v" "builder_ok v" "store_grows (checker s) (checker v)"
    "scope_stack s \<noteq> []" "tl (scope_stack v) = scope_stack s"
    using u uv(3) by (auto simp: pop_scope_def intro: store_grows_trans)
  moreover have "set (tl (scope_stack v)) \<subseteq> set (scope_stack v)" by (cases "scope_stack v") auto
  ultimately have "builder_ok t" "builder_step s t"
    unfolding builder_ok_def builder_step_def by (simp_all, blast)
  with u seen uv(3) show "builder_ok t \<and> builder_step s t \<and> A \<union> B \<subseteq> nodes_seen t"
    by (simp add: nodes_seen_def pop_scope_def) blast
next
  fix s e assume s: "builder_ok s" and "bindr (f s) (in_scope body) = Inl e"
  then show "thrown e"
    using opensD [OF assms(1) s] scoping.walks_failD [OF assms(2)]
    by (auto simp: in_scope_def res_simps)
qed

lemma opens_new_scope:
  "opens {} (\<lambda>st. bindr (make_scope k impl st) (\<lambda>(a, st). push_scope a st))"
proof (rule opensI)
  fix s t assume s: "builder_ok s" and t: "bindr (make_scope k impl s) (\<lambda>(a, st). push_scope a st) = Inr t"
  obtain a u where u: "make_scope k impl s = Inr (a, u)" "builder_ok u" "builder_step s u" "child_of (checker u) (hd (scope_stack u)) a"
    by (rule make_scope_ok [OF s])
  obtain v where v: "push_scope a u = Inr v" "builder_ok v" "store_grows (checker u) (checker v)" "scope_stack v = a # scope_stack u"
    by (rule push_scope_ok [OF u(2, 4)])
  with t u show "builder_ok t \<and> store_grows (checker s) (checker t) \<and> tl (scope_stack t) = scope_stack s \<and> {} \<subseteq> nodes_seen t"
    by (auto simp: builder_step_def intro: store_grows_trans)
next
  fix s e assume s: "builder_ok s" and t: "bindr (make_scope k impl s) (\<lambda>(a, st). push_scope a st) = Inl e"
  obtain a u where u: "make_scope k impl s = Inr (a, u)" "builder_ok u" "child_of (checker u) (hd (scope_stack u)) a"
    by (rule make_scope_ok [OF s])
  obtain v where "push_scope a u = Inr v" by (rule push_scope_ok [OF u(2, 3)])
  with t u show "thrown e" by simp
qed

lemma opens_after_walk:
  assumes "scoping.walks A f" and "opens B g"
  shows "opens (A \<union> B) (\<lambda>st. bindr (f st) g)"
proof (rule opensI)
  fix s t assume s: "builder_ok s" and "bindr (f s) g = Inr t"
  then obtain u where u: "f s = Inr u" "g u = Inr t" by (auto simp: res_simps)
  from scoping.walksD [OF assms(1) s u(1)] opensD(1) [OF assms(2) _ u(2)]
  show "builder_ok t \<and> store_grows (checker s) (checker t) \<and> tl (scope_stack t) = scope_stack s \<and> A \<union> B \<subseteq> nodes_seen t"
    using grows_seen [of u t] store_grows_trans [of "checker s" "checker u" "checker t"]
    by (auto simp: builder_step_def)
next
  fix s e assume s: "builder_ok s" and "bindr (f s) g = Inl e"
  then show "thrown e"
    using scoping.walksD [OF assms(1) s] scoping.walks_failD [OF assms(1) s] opensD(2) [OF assms(2)]
    by (auto simp: res_simps)
qed

lemma walks_in_block:
  assumes "scoping.walks B body"
  shows "scoping.walks B (in_block body)"
proof -
  let ?new = "\<lambda>st. bindr (make_scope Block_scope [] st) (\<lambda>(a, st). push_scope a st)"
  have walk: "scoping.walks B (\<lambda>st. bindr (?new st) (in_scope body))"
    using walks_in_scope [OF opens_new_scope assms] by simp
  have reuse: "scoping.walks B (\<lambda>st. body (st\<lparr>block_is_in_function := False\<rparr>))"
  proof (rule scoping.walksI)
    fix s t assume "builder_ok s" and t: "body (s\<lparr>block_is_in_function := False\<rparr>) = Inr t"
    then have "builder_ok (s\<lparr>block_is_in_function := False\<rparr>)" by (simp add: builder_ok_def)
    from scoping.walksD [OF assms this t] show "builder_ok t \<and> builder_step s t \<and> B \<subseteq> nodes_seen t"
      by (simp add: builder_step_def)
  next
    fix s e assume "builder_ok s" and e: "body (s\<lparr>block_is_in_function := False\<rparr>) = Inl e"
    then have "builder_ok (s\<lparr>block_is_in_function := False\<rparr>)" by (simp add: builder_ok_def)
    from scoping.walks_failD [OF assms this e] show "thrown e" .
  qed
  have "in_block body s =
      (if block_is_in_function s then body (s\<lparr>block_is_in_function := False\<rparr>) else bindr (?new s) (in_scope body))" for s
    by (simp add: in_block_def open_block_def bindr_assoc in_scope_def [abs_def] case_prod_beta)
  with walk reuse show ?thesis unfolding scoping.walks_def by auto
qed

lemma opens_declare_impl: "opens {k} (declare_impl k name)"
proof -
  have "opens ({k} \<union> {}) (\<lambda>st. bindr (enter k st) (\<lambda>st. bindr (make_scope Impl_scope name st) (\<lambda>(a, st). push_scope a st)))"
    by (rule opens_after_walk [OF walks_enter opens_new_scope])
  then show ?thesis by (simp add: declare_impl_def [abs_def])
qed

lemma checker_builder:
  assumes "builder_ok st" and "store_ok c" and "store_grows (checker st) c"
  shows "builder_ok (st\<lparr>checker := c\<rparr>) \<and> builder_step st (st\<lparr>checker := c\<rparr>)"
  using assms store_grows_scopes [OF assms(3)] unfolding builder_ok_def builder_step_def by (simp, blast)

text \<open>A new declaration: its address is free and the store may hold it.\<close>

lemma new_decl_ok:
  assumes "builder_ok st" and "alloc (checker st) = (d, c)"
  shows "user_fn c f \<Longrightarrow> builder_ok (st\<lparr>checker := put_fn d f c\<rparr>) \<and> builder_step st (st\<lparr>checker := put_fn d f c\<rparr>)"
    and "builder_ok (st\<lparr>checker := put_struct d s c\<rparr>) \<and> builder_step st (st\<lparr>checker := put_struct d s c\<rparr>)"
    and "builder_ok (st\<lparr>checker := c\<lparr>enum_decls := (enum_decls c)(d \<mapsto> e)\<rparr>\<rparr>)
      \<and> builder_step st (st\<lparr>checker := c\<lparr>enum_decls := (enum_decls c)(d \<mapsto> e)\<rparr>\<rparr>)"
    and "builder_ok (st\<lparr>checker := c\<lparr>const_decls := (const_decls c)(d \<mapsto> k)\<rparr>\<rparr>)
      \<and> builder_step st (st\<lparr>checker := c\<lparr>const_decls := (const_decls c)(d \<mapsto> k)\<rparr>\<rparr>)"
proof -
  have "store_ok (checker st)" using assms(1) by (simp add: builder_ok_def)
  note al = alloc_keeps [OF assms(2) this]
  note put = put_decl_keeps [OF al(1, 4)]
  note keep = checker_builder [OF assms(1)]
  show "builder_ok (st\<lparr>checker := put_fn d f c\<rparr>) \<and> builder_step st (st\<lparr>checker := put_fn d f c\<rparr>)"
    if "user_fn c f"
    using put(1) [of f] that store_grows_trans [OF al(2)] by (intro keep) blast+
  show "builder_ok (st\<lparr>checker := put_struct d s c\<rparr>) \<and> builder_step st (st\<lparr>checker := put_struct d s c\<rparr>)"
    using put(2) [of s] store_grows_trans [OF al(2)] by (intro keep) blast+
  show "builder_ok (st\<lparr>checker := c\<lparr>enum_decls := (enum_decls c)(d \<mapsto> e)\<rparr>\<rparr>)
      \<and> builder_step st (st\<lparr>checker := c\<lparr>enum_decls := (enum_decls c)(d \<mapsto> e)\<rparr>\<rparr>)"
    using put(3) [of e] store_grows_trans [OF al(2)] by (intro keep) blast+
  show "builder_ok (st\<lparr>checker := c\<lparr>const_decls := (const_decls c)(d \<mapsto> k)\<rparr>\<rparr>)
      \<and> builder_step st (st\<lparr>checker := c\<lparr>const_decls := (const_decls c)(d \<mapsto> k)\<rparr>\<rparr>)"
    using put(4) [of k] store_grows_trans [OF al(2)] by (intro keep) blast+
qed

lemma define_after:
  assumes "builder_ok t \<and> builder_step s t"
    and "case r of Inr u \<Rightarrow> builder_ok u \<and> builder_step t u | Inl e \<Rightarrow> thrown e"
  shows "case r of Inr u \<Rightarrow> builder_ok u \<and> builder_step s u \<and> {} \<subseteq> nodes_seen u | Inl e \<Rightarrow> thrown e"
  using assms scoping.step_trans by (auto split: sum.splits)

lemma res_weaken:
  "case r of Inr u \<Rightarrow> P u \<and> Q u \<and> R u | Inl e \<Rightarrow> S e \<Longrightarrow> case r of Inr u \<Rightarrow> P u \<and> Q u | Inl e \<Rightarrow> S e"
  by (cases r) auto

lemma new_function_ok:
  assumes "builder_ok st" and "a \<in> dom (scopes (checker st))"
  shows "case new_function (FnItem k n r ps rt b) receiver name a st of
     Inr t \<Rightarrow> builder_ok t \<and> builder_step st t | Inl e \<Rightarrow> thrown e"
proof -
  obtain d c where d: "alloc (checker st) = (d, c)" by (cases "alloc (checker st)")
  let ?f = "new_fn_decl (Some (FnItem k n r ps rt b)) (Some a) receiver name"
  have "store_ok (checker st)" using assms(1) by (simp add: builder_ok_def)
  from alloc_keeps(7) [OF d this] assms(2) have "user_fn c ?f"
    by (simp add: user_fn_def new_fn_decl_def)
  note new = new_decl_ok(1) [OF assms(1) d this]
  show ?thesis
    unfolding new_function_def d Let_def prod.case
    by (rule define_after [OF new define_value_ok, THEN res_weaken])
      (use new in \<open>auto simp: value_decl_ok_def put_fn_def\<close>)
qed

lemma walks_new_decl:
  "scoping.walks {} (new_struct name fs)"
  "scoping.walks {} (new_enum name vs)"
  "scoping.walks {} (new_const name t)"
  unfolding scoping.walks_def
proof (safe)
  fix s assume s: "builder_ok s"
  obtain d c where d: "alloc (checker s) = (d, c)" by (cases "alloc (checker s)")
  note new = new_decl_ok [OF s d]
  show "case new_struct name fs s of
      Inr t \<Rightarrow> builder_ok t \<and> builder_step s t \<and> {} \<subseteq> nodes_seen t | Inl e \<Rightarrow> thrown e"
    unfolding new_struct_def d Let_def prod.case
    by (rule define_after [OF new(2) define_type_ok]) (use new(2) in \<open>auto simp: type_decl_ok_def put_struct_def\<close>)
  show "case new_enum name vs s of
      Inr t \<Rightarrow> builder_ok t \<and> builder_step s t \<and> {} \<subseteq> nodes_seen t | Inl e \<Rightarrow> thrown e"
    unfolding new_enum_def d Let_def prod.case
    by (rule define_after [OF new(3) define_type_ok]) (use new(3) in \<open>auto simp: type_decl_ok_def\<close>)
  show "case new_const name t s of
      Inr t \<Rightarrow> builder_ok t \<and> builder_step s t \<and> {} \<subseteq> nodes_seen t | Inl e \<Rightarrow> thrown e"
    unfolding new_const_def d Let_def prod.case
    by (rule define_after [OF new(4) define_value_ok]) (use new(4) in \<open>auto simp: value_decl_ok_def\<close>)
qed

lemma opens_declare_fn: "opens {k} (declare_fn k (FnItem j n r ps rt b) receiver name)"
proof -
  let ?node = "FnItem j n r ps rt b"
  let ?rest = "\<lambda>st. bindr (make_scope Function_scope [] st) (\<lambda>(a, st).
     bindr (new_function ?node receiver name a st) (\<lambda>st.
     bindr (push_scope a st) (\<lambda>st. Inr (st\<lparr>block_is_in_function := True\<rparr>))))"
  have "opens {} ?rest"
    unfolding opens_def
  proof (intro allI impI)
    fix s assume s: "builder_ok s"
    obtain a u where u: "make_scope Function_scope [] s = Inr (a, u)" "builder_ok u" "builder_step s u"
        "child_of (checker u) (hd (scope_stack u)) a"
      by (rule make_scope_ok [OF s])
    note new = new_function_ok [OF u(2) child_of_dom [OF u(4)], of j n r ps rt b receiver name]
    show "case ?rest s of
        Inr t \<Rightarrow> builder_ok t \<and> store_grows (checker s) (checker t)
          \<and> tl (scope_stack t) = scope_stack s \<and> {} \<subseteq> nodes_seen t
      | Inl e \<Rightarrow> thrown e"
    proof (cases "new_function ?node receiver name a u")
      case (Inl e)
      with new u(1) show ?thesis by simp
    next
      case (Inr v)
      with new have v: "builder_ok v" "store_grows (checker u) (checker v)" "scope_stack v = scope_stack u"
        by (auto simp: builder_step_def)
      with u(4) have "child_of (checker v) (hd (scope_stack v)) a" by (auto intro: child_of_mono)
      from push_scope_ok [OF v(1) this] obtain w where
        w: "push_scope a v = Inr w" "builder_ok w" "store_grows (checker v) (checker w)" "scope_stack w = a # scope_stack v"
        by metis
      have "store_grows (checker s) (checker w)"
        using u(3) v(2) w(3) store_grows_trans by (metis builder_step_def)
      with u(1, 3) Inr v(3) w show ?thesis by (simp add: builder_step_def builder_ok_def)
    qed
  qed
  from opens_after_walk [OF walks_enter [of k] this] show ?thesis
    by (simp add: declare_fn_def [abs_def])
qed

lemma walks_build_param:
  "scoping.walks A g \<Longrightarrow> scoping.walks (insert (pattern_id p) A) (build_param (p, g))"
  using scoping.walks_bind [OF walks_enter [of "pattern_id p"], of A g]
  by (simp add: build_param_def [abs_def] build_pattern_def)

lemma walks_build_pattern: "scoping.walks {pattern_id p} (build_pattern p)"
  by (simp add: build_pattern_def walks_enter)

lemmas build_walks_intros =
  scoping.walks_bind walks_enter walks_in_block walks_in_scope opens_declare_fn opens_declare_impl
  walks_new_decl walks_build_pattern scoping.walks_list scoping.walks_option scoping.walks_fields
  scoping.walks_params walks_build_param

lemma build_walks:
  "scoping.walks (set (ids_type t)) (build_type t)"
  "scoping.walks (set (ids_expr e)) (build_expr e)"
  "scoping.walks (set (ids_stmt st)) (build_stmt st)"
  "scoping.walks (set (ids_item i)) (build_item i)"
proof (induction t and e and st and i)
  case (PathType k r n)
  show ?case
    by (rule scoping.walks_eq, rule build_type.simps, (rule build_walks_intros | assumption)+) auto
next
  case (ArrayType k r t e)
  show ?case
    by (rule scoping.walks_eq, rule build_type.simps, (rule build_walks_intros ArrayType | assumption)+) auto
next
  case (UnitType k r)
  show ?case
    by (rule scoping.walks_eq, rule build_type.simps, (rule build_walks_intros | assumption)+) auto
next
  case (SelfType k r)
  show ?case
    by (rule scoping.walks_eq, rule build_type.simps, (rule build_walks_intros | assumption)+) auto
next
  case (LiteralExpr k l v)
  show ?case
    by (rule scoping.walks_eq, rule build_expr.simps, (rule build_walks_intros | assumption)+) auto
next
  case (IdentifierExpr k n)
  show ?case
    by (rule scoping.walks_eq, rule build_expr.simps, (rule build_walks_intros | assumption)+) auto
next
  case (BinaryExpr k op l r)
  show ?case
    by (rule scoping.walks_eq, rule build_expr.simps, (rule build_walks_intros BinaryExpr | assumption)+) auto
next
  case (UnaryExpr k op r)
  show ?case
    by (rule scoping.walks_eq, rule build_expr.simps, (rule build_walks_intros UnaryExpr | assumption)+) auto
next
  case (CallExpr k c args)
  show ?case
    by (rule scoping.walks_eq, rule build_expr.simps, (rule build_walks_intros CallExpr | assumption)+) auto
next
  case (FieldExpr k b n)
  show ?case
    by (rule scoping.walks_eq, rule build_expr.simps, (rule build_walks_intros FieldExpr | assumption)+) auto
next
  case (StructExpr k t fs)
  show ?case
    by (rule scoping.walks_eq, rule build_expr.simps, (rule build_walks_intros StructExpr | assumption)+) auto
next
  case (IndexExpr k b i)
  show ?case
    by (rule scoping.walks_eq, rule build_expr.simps, (rule build_walks_intros IndexExpr | assumption)+) auto
next
  case (BlockExpr k ss t u)
  show ?case
    by (rule scoping.walks_eq, rule build_expr.simps, (rule build_walks_intros BlockExpr | assumption)+) auto
next
  case (IfExpr k c a b u)
  show ?case
    by (rule scoping.walks_eq, rule build_expr.simps, (rule build_walks_intros IfExpr | assumption)+) auto
next
  case (WhileExpr k c b)
  show ?case
    by (rule scoping.walks_eq, rule build_expr.simps, (rule build_walks_intros WhileExpr | assumption)+) auto
next
  case (LoopExpr k b u)
  show ?case
    by (rule scoping.walks_eq, rule build_expr.simps, (rule build_walks_intros LoopExpr | assumption)+) auto
next
  case (ReturnExpr k v)
  show ?case
    by (rule scoping.walks_eq, rule build_expr.simps, (rule build_walks_intros ReturnExpr | assumption)+) auto
next
  case (BreakExpr k v)
  show ?case
    by (rule scoping.walks_eq, rule build_expr.simps, (rule build_walks_intros BreakExpr | assumption)+) auto
next
  case (ContinueExpr k)
  show ?case
    by (rule scoping.walks_eq, rule build_expr.simps, (rule build_walks_intros | assumption)+) auto
next
  case (CastExpr k e t)
  show ?case
    by (rule scoping.walks_eq, rule build_expr.simps, (rule build_walks_intros CastExpr | assumption)+) auto
next
  case (PathExpr k t n)
  show ?case
    by (rule scoping.walks_eq, rule build_expr.simps, (rule build_walks_intros PathExpr | assumption)+) auto
next
  case (SelfExpr k)
  show ?case
    by (rule scoping.walks_eq, rule build_expr.simps, (rule build_walks_intros | assumption)+) auto
next
  case (UnitExpr k)
  show ?case
    by (rule scoping.walks_eq, rule build_expr.simps, (rule build_walks_intros | assumption)+) auto
next
  case (ArrayExpr k es)
  show ?case
    by (rule scoping.walks_eq, rule build_expr.simps, (rule build_walks_intros ArrayExpr | assumption)+) auto
next
  case (RepeatArrayExpr k e n)
  show ?case
    by (rule scoping.walks_eq, rule build_expr.simps, (rule build_walks_intros RepeatArrayExpr | assumption)+) auto
next
  case (LetStmt k p t e)
  show ?case
    by (rule scoping.walks_eq, rule build_stmt.simps, (rule build_walks_intros LetStmt | assumption)+) auto
next
  case (ExprStmt k e u)
  show ?case
    by (rule scoping.walks_eq, rule build_stmt.simps, (rule build_walks_intros ExprStmt | assumption)+) auto
next
  case (ItemStmt k i)
  show ?case
    by (rule scoping.walks_eq, rule build_stmt.simps, (rule build_walks_intros ItemStmt | assumption)+) auto
next
  case (FnItem k n r ps rt b)
  show ?case
    by (rule scoping.walks_eq, rule build_item.simps, (rule build_walks_intros FnItem | assumption)+) auto
next
  case (StructItem k n fs)
  show ?case
    by (rule scoping.walks_eq, rule build_item.simps, (rule build_walks_intros StructItem | assumption)+) auto
next
  case (EnumItem k n vs)
  show ?case
    by (rule scoping.walks_eq, rule build_item.simps, (rule build_walks_intros | assumption)+) auto
next
  case (ImplItem k n ms)
  show ?case
    by (rule scoping.walks_eq, rule build_item.simps, (rule build_walks_intros ImplItem | assumption)+) auto
next
  case (ConstItem k n t e)
  show ?case
    by (rule scoping.walks_eq, rule build_item.simps, (rule build_walks_intros ConstItem | assumption)+) auto
qed

subsection \<open>The first step\<close>

lemma new_checker_ok:
  "builder_ok \<lparr>scope_stack = [root_scope new_checker], block_is_in_function = False, checker = new_checker\<rparr>"
  by (simp add: builder_ok_def store_ok_def scope_ok_def new_checker_def new_scope_def)

definition items_ids :: "item list \<Rightarrow> nat list" where
  "items_ids items = concat (map ids_item items)"

lemma walks_items: "scoping.walks (set (items_ids items)) (visit_all (map build_item items))"
  unfolding items_ids_def by (rule scoping.walks_list) (rule build_walks)

lemma step1_cases:
  "case step1_build_scopes_and_collect_symbols items new_checker of
     Inr c \<Rightarrow> store_ok c \<and> set (items_ids items) \<subseteq> dom (node_scope_map c)
       \<and> ran (node_scope_map c) \<subseteq> dom (scopes c)
   | Inl e \<Rightarrow> thrown e"
proof (cases "step1_build_scopes_and_collect_symbols items new_checker")
  case (Inl e)
  then show ?thesis
    using scoping.walks_failD [OF walks_items new_checker_ok]
    by (simp add: step1_build_scopes_and_collect_symbols_def res_simps)
next
  case (Inr c)
  then obtain st where st: "visit_all (map build_item items)
      \<lparr>scope_stack = [root_scope new_checker], block_is_in_function = False, checker = new_checker\<rparr> = Inr st"
      "checker st = c"
    by (auto simp: step1_build_scopes_and_collect_symbols_def res_simps)
  from scoping.walksD [OF walks_items new_checker_ok st(1)] st(2)
  have "store_ok c" "set (items_ids items) \<subseteq> dom (node_scope_map c)"
    by (auto simp: builder_ok_def nodes_seen_def)
  with Inr show ?thesis by (simp add: store_ok_def)
qed

lemma step1_root:
  assumes "step1_build_scopes_and_collect_symbols items new_checker = Inr c"
  shows "map_option scope_head (scopes c (root_scope c)) = Some (None, Root_scope)"
proof -
  let ?init = "\<lparr>scope_stack = [root_scope new_checker], block_is_in_function = False, checker = new_checker\<rparr>"
  from assms obtain st where st: "visit_all (map build_item items) ?init = Inr st" "checker st = c"
    by (auto simp: step1_build_scopes_and_collect_symbols_def res_simps)
  from scoping.walksD [OF walks_items new_checker_ok st(1)] st(2) have "store_grows new_checker c"
    by (simp add: builder_step_def)
  then have "map_option scope_head \<circ> scopes new_checker \<subseteq>\<^sub>m map_option scope_head \<circ> scopes c"
    and "root_scope c = 0"
    by (simp_all add: store_grows_def new_checker_def)
  then show ?thesis
    by (auto simp: map_le_def new_checker_def new_scope_def eq_commute [of "Some (_, _)"])
qed

lemma scopes_tree:
  assumes "step1_build_scopes_and_collect_symbols items new_checker = Inr c"
  shows "store_ok c" and "set (items_ids items) \<subseteq> dom (node_scope_map c)"
    and "ran (node_scope_map c) \<subseteq> dom (scopes c)"
  using step1_cases [of items] assms by simp_all


text \<open>
  C24. After the first step every lookup of a name ends: from the scope of any node of the
  program, the loop that walks from a scope to its parent finds the declaration that it looks
  for or reaches the root, for every test \<open>f\<close> that the passes apply at a scope.
\<close>

theorem lookups_end:
  "case step1_build_scopes_and_collect_symbols items new_checker of
     Inr c \<Rightarrow> list_all (\<lambda>k. case node_scope_map c k of
         Some a \<Rightarrow> (case search c f (Some a) of Inr _ \<Rightarrow> True | Inl _ \<Rightarrow> False)
       | None \<Rightarrow> False) (items_ids items)
   | Inl _ \<Rightarrow> True"
proof (cases "step1_build_scopes_and_collect_symbols items new_checker")
  case (Inl e)
  then show ?thesis by simp
next
  case (Inr c)
  note built = scopes_tree [OF Inr]
  have "case node_scope_map c k of
         Some a \<Rightarrow> (case search c f (Some a) of Inr _ \<Rightarrow> True | Inl _ \<Rightarrow> False)
       | None \<Rightarrow> False" if "k \<in> set (items_ids items)" for k
  proof -
    from that built(2) have "k \<in> dom (node_scope_map c)" by blast
    then obtain a where a: "node_scope_map c k = Some a" by blast
    then have "a \<in> dom (scopes c)" using built(3) by (auto intro: ranI)
    from search_ends [OF built(1) this, of f] a show ?thesis by (auto split: sum.split)
  qed
  with Inr show ?thesis by (simp add: list_all_iff)
qed

end
