(* ===== verification/Resolve.thy ===== *)
theory Resolve
  imports ScopeBuilder
begin

section \<open>Resolving types\<close>

text \<open>
  \<open>find_real_type\<close> and the visitor \<open>OtherTypeAndRepeatArrayVisitor\<close> of
  \<open>src/semantic/type.cpp\<close>, and the second step of the checker in
  \<open>src/semantic/semantic_checker.cpp\<close>: the types of fields, parameters, results and constants,
  the values of enumeration variants, and the functions and constants of an \<open>impl\<close>.
\<close>

definition builtin_type :: "ReferenceType \<Rightarrow> string \<Rightarrow> RealType res" where
  "builtin_type r name =
     (if name = ''i32'' then Inr (I32RealType r)
      else if name = ''isize'' then Inr (IsizeRealType r)
      else if name = ''u32'' then Inr (U32RealType r)
      else if name = ''usize'' then Inr (UsizeRealType r)
      else if name = ''bool'' then Inr (BoolRealType r)
      else if name = ''char'' then Inr (CharRealType r)
      else if name = ''str'' then Inr (StrRealType r)
      else if name = ''String'' then Inr (StringRealType r)
      else Inl (Thrown (''CE, type name '' @ name @ '' not found'')))"

text \<open>A declared name first, and a built-in one when no scope declares it.\<close>

definition find_path_type :: "Semantic_Checker \<Rightarrow> address option \<Rightarrow> ReferenceType \<Rightarrow> string \<Rightarrow> RealType res" where
  "find_path_type c sc r name =
     bindr (search c (\<lambda>_ s. map_of (type_namespace s) name) sc) (\<lambda>d.
       case d of
         Some (Struct_decl a) \<Rightarrow> Inr (StructRealType r name (Some a))
       | Some (Enum_decl a) \<Rightarrow> Inr (EnumRealType r name (Some a))
       | None \<Rightarrow> builtin_type r name)"

definition find_self_type :: "Semantic_Checker \<Rightarrow> address option \<Rightarrow> RealType res" where
  "find_self_type c sc =
     bindr (search c (\<lambda>_ s. if scope_kind s = Impl_scope then Some s else None) sc) (\<lambda>s.
       case s of
         None \<Rightarrow> Inl (Thrown ''CE, self type used outside of impl'')
       | Some s \<Rightarrow> (case self_struct s of None \<Rightarrow> Inl AssertFail | Some t \<Rightarrow> Inr t))"

definition set_type :: "nat \<Rightarrow> RealType \<Rightarrow> Semantic_Checker \<Rightarrow> Semantic_Checker" where
  "set_type k t c = c\<lparr>type_map := (type_map c)(k \<mapsto> t)\<rparr>"

definition queue_expr :: "expr \<Rightarrow> Semantic_Checker \<Rightarrow> Semantic_Checker" where
  "queue_expr e c = c\<lparr>const_expr_queue := const_expr_queue c @ [e]\<rparr>"

text \<open>A type that has been resolved before is not resolved again.\<close>

definition memo_type :: "nat \<Rightarrow> (Semantic_Checker \<Rightarrow> (RealType \<times> Semantic_Checker) res) \<Rightarrow>
    Semantic_Checker \<Rightarrow> (RealType \<times> Semantic_Checker) res" where
  "memo_type k f c =
     (case type_map c k of
        Some t \<Rightarrow> Inr (t, c)
      | None \<Rightarrow> bindr (f c) (\<lambda>(t, c). Inr (t, set_type k t c)))"

fun find_real_type :: "address option \<Rightarrow> type_node \<Rightarrow> Semantic_Checker \<Rightarrow> (RealType \<times> Semantic_Checker) res" where
  "find_real_type sc (PathType k r name) =
     memo_type k (\<lambda>c. bindr (find_path_type c sc r name) (\<lambda>t. Inr (t, c)))"
| "find_real_type sc (ArrayType k r t e) =
     memo_type k (\<lambda>c. bindr (find_real_type sc t c) (\<lambda>(t, c).
       Inr (ArrayRealType r t (Some e) 0, queue_expr e c)))"
| "find_real_type sc (UnitType k r) = memo_type k (\<lambda>c. Inr (UnitRealType r, c))"
| "find_real_type sc (SelfType k r) =
     memo_type k (\<lambda>c. bindr (find_self_type c sc) (\<lambda>t. Inr (t, c)))"

subsection \<open>The declarations of a scope\<close>

definition find_impl_struct :: "Semantic_Checker \<Rightarrow> address \<Rightarrow> string \<Rightarrow> address res" where
  "find_impl_struct c a name =
     bindr (search c (\<lambda>_ s. map_of (type_namespace s) name) (Some a)) (\<lambda>d.
       case d of
         Some (Struct_decl d) \<Rightarrow> Inr d
       | Some (Enum_decl _) \<Rightarrow> Inl (Thrown (''CE, impl struct name '' @ name @ '' is not a struct''))
       | None \<Rightarrow> Inl (Thrown (''CE, impl struct name '' @ name @ '' not found'')))"

text \<open>For an \<open>impl\<close> scope, the structure that it belongs to and the type \<open>Self\<close>.\<close>

definition resolve_impl :: "address \<Rightarrow> Semantic_Checker \<Rightarrow> (address option \<times> Semantic_Checker) res" where
  "resolve_impl a c =
     bindr (deref (scopes c) a) (\<lambda>s.
       if scope_kind s = Impl_scope
       then bindr (find_impl_struct c a (impl_struct s)) (\<lambda>d.
         Inr (Some d, put_scope a (s\<lparr>self_struct := Some (StructRealType NO_REF (impl_struct s) (Some d))\<rparr>) c))
       else Inr (None, c))"

definition resolve_field :: "address \<Rightarrow> address \<Rightarrow> string \<times> type_node \<Rightarrow> Semantic_Checker \<Rightarrow> Semantic_Checker res" where
  "resolve_field a d f c =
     bindr (deref (struct_decls c) d) (\<lambda>sd.
       if map_of (struct_fields sd) (fst f) \<noteq> None
       then Inl (Thrown (''CE, field name '' @ fst f @ '' redefined in struct '' @ struct_name sd))
       else bindr (find_real_type (Some a) (snd f) c) (\<lambda>(t, c).
         Inr (put_struct d (sd\<lparr>struct_fields := smap_insert (fst f) t (struct_fields sd)\<rparr>) c)))"

definition resolve_variant :: "address \<Rightarrow> nat \<times> string \<Rightarrow> Semantic_Checker \<Rightarrow> Semantic_Checker res" where
  "resolve_variant d v c =
     bindr (deref (enum_decls c) d) (\<lambda>ed.
       bindr (define_name (Thrown (''CE, variant name '' @ snd v @ '' redefined in enum '' @ enum_name ed))
           (snd v) (fst v) (variants ed)) (\<lambda>vs.
         Inr (c\<lparr>enum_decls := (enum_decls c)(d \<mapsto> ed\<lparr>variants := vs\<rparr>)\<rparr>)))"

definition resolve_type_decl :: "address \<Rightarrow> string \<times> TypeDecl \<Rightarrow> Semantic_Checker \<Rightarrow> Semantic_Checker res" where
  "resolve_type_decl a p c =
     (case snd p of
        Struct_decl d \<Rightarrow> bindr (deref (struct_decls c) d) (\<lambda>sd. foldr_res (resolve_field a d) (struct_fields_ast sd) c)
      | Enum_decl d \<Rightarrow> bindr (deref (enum_decls c) d) (\<lambda>ed.
          foldr_res (resolve_variant d) (enumerate 0 (enum_variants_ast ed)) c))"

text \<open>\<open>fn_decl->parameters.push_back({pattern, type})\<close>\<close>

definition resolve_param :: "address \<Rightarrow> address \<Rightarrow> pattern \<times> type_node \<Rightarrow> Semantic_Checker \<Rightarrow> Semantic_Checker res" where
  "resolve_param a d p c =
     bindr (find_real_type (Some a) (snd p) c) (\<lambda>(t, c).
     bindr (deref (fn_decls c) d) (\<lambda>fd.
       Inr (put_fn d (fd\<lparr>parameters := parameters fd @ [(fst p, t)]\<rparr>) c)))"

definition resolve_return :: "address \<Rightarrow> address \<Rightarrow> type_node option \<Rightarrow> Semantic_Checker \<Rightarrow> Semantic_Checker res" where
  "resolve_return a d rt c =
     bindr (case rt of Some t \<Rightarrow> find_real_type (Some a) t c | None \<Rightarrow> Inr (UnitRealType NO_REF, c)) (\<lambda>(t, c).
     bindr (deref (fn_decls c) d) (\<lambda>fd. Inr (put_fn d (fd\<lparr>return_type := Some t\<rparr>) c)))"

definition resolve_fn :: "address \<Rightarrow> address \<Rightarrow> Semantic_Checker \<Rightarrow> Semantic_Checker res" where
  "resolve_fn a d c =
     bindr (deref (fn_decls c) d) (\<lambda>fd.
       case fn_ast fd of
         Some (FnItem k _ _ ps rt _) \<Rightarrow>
           bindr (foldr_res (resolve_param a d) ps c) (\<lambda>c.
           bindr (resolve_return a d rt c) (\<lambda>c.
             Inr (c\<lparr>fn_item_to_decl_map := (fn_item_to_decl_map c)(k \<mapsto> d)\<rparr>)))
       | _ \<Rightarrow> Inl (Undefined ''null pointer''))"

definition resolve_value_decl :: "address \<Rightarrow> string \<times> ValueDecl \<Rightarrow> Semantic_Checker \<Rightarrow> Semantic_Checker res" where
  "resolve_value_decl a p c =
     (case snd p of
        Function_decl d \<Rightarrow> resolve_fn a d c
      | Constant_decl d \<Rightarrow> bindr (deref (const_decls c) d) (\<lambda>cd.
          bindr (find_real_type (Some a) (const_type_ast cd) c) (\<lambda>(t, c).
            Inr (c\<lparr>const_decls := (const_decls c)(d \<mapsto> cd\<lparr>const_type := Some t\<rparr>)\<rparr>)))
      | LetStmt_decl _ \<Rightarrow> Inr c)"

subsection \<open>Members of an impl, and functions elsewhere\<close>

text \<open>
  A function without receiver becomes an associated function, and every function becomes a
  method as well.
\<close>

definition add_member :: "address \<Rightarrow> string \<times> ValueDecl \<Rightarrow> Semantic_Checker \<Rightarrow> Semantic_Checker res" where
  "add_member sa p c =
     bindr (deref (struct_decls c) sa) (\<lambda>sd.
       let name = fst p in
       if map_of (associated_const sd) name \<noteq> None \<or> map_of (methods sd) name \<noteq> None
          \<or> map_of (associated_func sd) name \<noteq> None
       then Inl (Thrown (''CE, name '' @ name @ '' redefined in impl for struct '' @ struct_name sd))
       else (case snd p of
           Function_decl d \<Rightarrow>
             bindr (deref (fn_decls c) d) (\<lambda>fd.
               let sd = (if receiver_type fd \<noteq> NO_RECEIVER then sd\<lparr>methods := smap_insert name d (methods sd)\<rparr>
                         else sd\<lparr>associated_func := smap_insert name d (associated_func sd)\<rparr>);
                   sd = sd\<lparr>methods := smap_insert name d (methods sd)\<rparr>
               in Inr (put_struct sa sd (put_fn d (fd\<lparr>fn_self_struct := Some sa\<rparr>) c)))
         | Constant_decl d \<Rightarrow> Inr (put_struct sa (sd\<lparr>associated_const := smap_insert name d (associated_const sd)\<rparr>) c)
         | LetStmt_decl _ \<Rightarrow> Inr c))"

definition mark_main :: "address \<Rightarrow> Semantic_Checker \<Rightarrow> Semantic_Checker res" where
  "mark_main d c =
     bindr (deref (fn_decls c) d) (\<lambda>fd.
     bindr (the_ptr (function_scope fd)) (\<lambda>fs.
     bindr (deref (scopes c) fs) (\<lambda>s.
       Inr (put_scope fs (s\<lparr>is_main_scope := True\<rparr>) (put_fn d (fd\<lparr>is_main := True\<rparr>) c)))))"

definition check_free_fn :: "ScopeKind \<Rightarrow> string \<times> ValueDecl \<Rightarrow> bool \<times> Semantic_Checker \<Rightarrow> (bool \<times> Semantic_Checker) res" where
  "check_free_fn k p = (\<lambda>(find_main, c).
     case snd p of
       Function_decl d \<Rightarrow> bindr (deref (fn_decls c) d) (\<lambda>fd.
         if receiver_type fd \<noteq> NO_RECEIVER
         then Inl (Thrown (''CE, function '' @ fst p @ '' has receiver but not in impl''))
         else if fst p = ''main'' \<and> k = Root_scope
         then bindr (mark_main d c) (\<lambda>c. Inr (True, c))
         else Inr (find_main, c))
     | _ \<Rightarrow> Inr (find_main, c))"

definition check_members :: "address \<Rightarrow> address option \<Rightarrow> Semantic_Checker \<Rightarrow> Semantic_Checker res" where
  "check_members a impl c =
     bindr (deref (scopes c) a) (\<lambda>s.
       if scope_kind s = Impl_scope
       then bindr (the_ptr impl) (\<lambda>d. foldr_res (add_member d) (value_namespace s) c)
       else bindr (foldr_res (check_free_fn (scope_kind s)) (value_namespace s) (False, c)) (\<lambda>(find_main, c).
         if scope_kind s = Root_scope \<and> \<not> find_main
         then Inl (Thrown ''CE, main function not found'')
         else Inr c))"

text \<open>
  \<open>Scope_dfs_and_build_type\<close> on one scope, and then on its children. A child is newer than its
  parent, so the number of addresses bounds the depth of the recursion.
\<close>

definition resolve_scope :: "address \<Rightarrow> Semantic_Checker \<Rightarrow> Semantic_Checker res" where
  "resolve_scope a c =
     bindr (resolve_impl a c) (\<lambda>(impl, c).
     bindr (deref (scopes c) a) (\<lambda>s.
     bindr (foldr_res (resolve_type_decl a) (type_namespace s) c) (\<lambda>c.
     bindr (foldr_res (resolve_value_decl a) (value_namespace s) c) (\<lambda>c.
       check_members a impl c))))"

fun Scope_dfs_and_build_type :: "nat \<Rightarrow> address \<Rightarrow> Semantic_Checker \<Rightarrow> Semantic_Checker res" where
  "Scope_dfs_and_build_type 0 a c = Inl OutOfFuel"
| "Scope_dfs_and_build_type (Suc n) a c =
     bindr (resolve_scope a c) (\<lambda>c.
     bindr (deref (scopes c) a) (\<lambda>s.
       foldr_res (Scope_dfs_and_build_type n) (children s) c))"

definition step2_resolve_types_and_check :: "Semantic_Checker \<Rightarrow> Semantic_Checker res" where
  "step2_resolve_types_and_check c = Scope_dfs_and_build_type (next_address c) (root_scope c) c"

subsection \<open>Types and repeat sizes inside functions\<close>

text \<open>
  \<open>OtherTypeAndRepeatArrayVisitor\<close>: the types of \<open>let\<close> statements, casts, paths and structure
  expressions, and the sizes of repeat arrays for the queue of constant expressions.
\<close>

definition resolve_node :: "nat \<Rightarrow> type_node \<Rightarrow> Semantic_Checker \<Rightarrow> Semantic_Checker res" where
  "resolve_node k t c = bindr (find_real_type (node_scope_map c k) t c) (\<lambda>(_, c). Inr c)"

primrec other_type :: "type_node \<Rightarrow> Semantic_Checker \<Rightarrow> Semantic_Checker res"
  and other_expr :: "expr \<Rightarrow> Semantic_Checker \<Rightarrow> Semantic_Checker res"
  and other_stmt :: "stmt \<Rightarrow> Semantic_Checker \<Rightarrow> Semantic_Checker res"
  and other_item :: "item \<Rightarrow> Semantic_Checker \<Rightarrow> Semantic_Checker res"
where
  "other_type (PathType _ _ _) c = Inr c"
| "other_type (ArrayType _ _ t e) c = bindr (other_type t c) (other_expr e)"
| "other_type (UnitType _ _) c = Inr c"
| "other_type (SelfType _ _) c = Inr c"
| "other_expr (LiteralExpr _ _ _) c = Inr c"
| "other_expr (IdentifierExpr _ _) c = Inr c"
| "other_expr (BinaryExpr _ _ l r) c = bindr (other_expr l c) (other_expr r)"
| "other_expr (UnaryExpr _ _ r) c = other_expr r c"
| "other_expr (CallExpr _ f args) c = bindr (other_expr f c) (visit_all (map other_expr args))"
| "other_expr (FieldExpr _ b _) c = other_expr b c"
| "other_expr (StructExpr _ t fs) c =
     bindr (bindr (other_type t c) (visit_all (map snd (map (map_prod id other_expr) fs))))
       (resolve_node (type_id t) t)"
| "other_expr (IndexExpr _ b i) c = bindr (other_expr b c) (other_expr i)"
| "other_expr (BlockExpr _ ss t _) c =
     bindr (visit_all (map other_stmt ss) c) (visit_opt (map_option other_stmt t))"
| "other_expr (IfExpr _ g a b _) c =
     bindr (other_expr g c) (\<lambda>c. bindr (other_expr a c) (visit_opt (map_option other_expr b)))"
| "other_expr (WhileExpr _ g b) c = bindr (other_expr g c) (other_expr b)"
| "other_expr (LoopExpr _ b _) c = other_expr b c"
| "other_expr (ReturnExpr _ v) c = visit_opt (map_option other_expr v) c"
| "other_expr (BreakExpr _ v) c = visit_opt (map_option other_expr v) c"
| "other_expr (ContinueExpr _) c = Inr c"
| "other_expr (CastExpr _ e t) c =
     bindr (bindr (other_expr e c) (other_type t)) (resolve_node (type_id t) t)"
| "other_expr (PathExpr _ t _) c = bindr (other_type t c) (resolve_node (type_id t) t)"
| "other_expr (SelfExpr _) c = Inr c"
| "other_expr (UnitExpr _) c = Inr c"
| "other_expr (ArrayExpr _ es) c = visit_all (map other_expr es) c"
| "other_expr (RepeatArrayExpr _ e s) c = bindr (other_expr e (queue_expr s c)) (other_expr s)"
| "other_stmt (LetStmt k _ t e) c =
     bindr (resolve_node k t c) (\<lambda>c. bindr (other_type t c) (visit_opt (map_option other_expr e)))"
| "other_stmt (ExprStmt _ e _) c = other_expr e c"
| "other_stmt (ItemStmt _ i) c = other_item i c"
| "other_item (FnItem _ _ _ ps rt b) c =
     bindr (visit_all (map snd (map (map_prod id other_type) ps)) c) (\<lambda>c.
     bindr (visit_opt (map_option other_type rt) c) (other_expr b))"
| "other_item (StructItem _ _ fs) c = visit_all (map snd (map (map_prod id other_type) fs)) c"
| "other_item (EnumItem _ _ _) c = Inr c"
| "other_item (ImplItem _ _ ms) c = visit_all (map other_item ms) c"
| "other_item (ConstItem _ _ t e) c = bindr (other_type t c) (other_expr e)"

end
