(* ===== verification/ResolveProps.thy ===== *)
theory ResolveProps
  imports Resolve ScopeProps
begin

section \<open>The second step ends and resolves every declaration\<close>

text \<open>
  What the second step may change is a relation between its states: the tree of scopes, the
  declarations and their items stay, and what has been resolved stays resolved. With this
  relation and the facts established so far the traversal is another instance of \<open>walker\<close>.
\<close>

text \<open>The part of a scope and of a function that the second step only reads.\<close>

definition scope_frame :: "Scope \<Rightarrow> Scope" where
  "scope_frame s = s\<lparr>self_struct := None, is_main_scope := False\<rparr>"

definition fn_frame :: "FnDecl \<Rightarrow> FnDecl" where
  "fn_frame f = f\<lparr>parameters := [], return_type := None, fn_self_struct := None, is_main := False\<rparr>"

text \<open>What it establishes.\<close>

datatype fact =
    Return_known address
  | Const_known address
  | Self_known address
  | Main_fn address
  | Main_scope address

definition holds :: "Semantic_Checker \<Rightarrow> fact \<Rightarrow> bool" where
  "holds c f =
     (case f of
        Return_known a \<Rightarrow> (\<exists>d. fn_decls c a = Some d \<and> return_type d \<noteq> None)
      | Const_known a \<Rightarrow> (\<exists>d. const_decls c a = Some d \<and> const_type d \<noteq> None)
      | Self_known a \<Rightarrow> (\<exists>s. scopes c a = Some s \<and> self_struct s \<noteq> None)
      | Main_fn a \<Rightarrow> (\<exists>d. fn_decls c a = Some d \<and> is_main d)
      | Main_scope a \<Rightarrow> (\<exists>s. scopes c a = Some s \<and> is_main_scope s))"

definition known :: "Semantic_Checker \<Rightarrow> fact set" where
  "known c = Collect (holds c)"

definition resolve_step :: "Semantic_Checker \<Rightarrow> Semantic_Checker \<Rightarrow> bool" where
  "resolve_step c d \<longleftrightarrow>
     next_address d = next_address c \<and> root_scope d = root_scope c
     \<and> map_option scope_frame \<circ> scopes d = map_option scope_frame \<circ> scopes c
     \<and> map_option fn_frame \<circ> fn_decls d = map_option fn_frame \<circ> fn_decls c
     \<and> dom (struct_decls d) = dom (struct_decls c) \<and> dom (enum_decls d) = dom (enum_decls c)
     \<and> dom (const_decls d) = dom (const_decls c)
     \<and> let_decls d = let_decls c \<and> node_scope_map d = node_scope_map c
     \<and> known c \<subseteq> known d"

lemma resolve_step_refl: "resolve_step c c"
  by (simp add: resolve_step_def)

lemma resolve_step_trans: "resolve_step b c \<Longrightarrow> resolve_step c d \<Longrightarrow> resolve_step b d"
  unfolding resolve_step_def by (elim conjE, intro conjI) (simp | rule subset_trans, assumption+)+

lemma resolve_step_known: "resolve_step c d \<Longrightarrow> known c \<subseteq> known d"
  by (simp add: resolve_step_def)

lemma map_option_frame_eq:
  "map_option f \<circ> m = map_option f \<circ> m' \<Longrightarrow> m a = Some x \<Longrightarrow> \<exists>y. m' a = Some y \<and> f y = f x"
  by (drule fun_cong [of _ _ a], cases "m' a") auto

lemma step_scope:
  assumes "resolve_step c d" and "scopes c a = Some s"
  obtains t where "scopes d a = Some t" and "scope_frame t = scope_frame s"
  using assms map_option_frame_eq [of scope_frame "scopes c" "scopes d" a s]
  by (auto simp: resolve_step_def)

lemma step_scope_back:
  assumes "resolve_step c d" and "scopes d a = Some t"
  obtains s where "scopes c a = Some s" and "scope_frame t = scope_frame s"
  using assms map_option_frame_eq [of scope_frame "scopes d" "scopes c" a t]
  by (auto simp: resolve_step_def)

lemma scope_frame_fields:
  "scope_frame t = scope_frame s \<Longrightarrow>
    parent t = parent s \<and> scope_kind t = scope_kind s \<and> children t = children s
    \<and> type_namespace t = type_namespace s \<and> value_namespace t = value_namespace s
    \<and> impl_struct t = impl_struct s"
  by (cases s; cases t) (simp add: scope_frame_def)

lemma fn_frame_fields:
  "fn_frame f = fn_frame g \<Longrightarrow>
    fn_ast f = fn_ast g \<and> function_scope f = function_scope g \<and> receiver_type f = receiver_type g"
  by (cases f; cases g) (simp add: fn_frame_def)

lemma dom_frame: "map_option f \<circ> m = map_option f \<circ> m' \<Longrightarrow> dom m = dom m'"
  by (metis dom_map_option_comp)

lemma step_doms:
  "resolve_step c d \<Longrightarrow> dom (scopes d) = dom (scopes c) \<and> dom (fn_decls d) = dom (fn_decls c)"
  unfolding resolve_step_def using dom_frame by metis

lemma step_child_of:
  assumes "resolve_step c d" and "child_of c p a"
  shows "child_of d p a"
proof -
  obtain s where s: "scopes c a = Some s" "parent s = Some p" using assms(2) by (auto simp: child_of_def)
  obtain t where "scopes d a = Some t" "scope_frame t = scope_frame s" by (rule step_scope [OF assms(1) s(1)])
  with s(2) scope_frame_fields [of t s] show ?thesis by (simp add: child_of_def)
qed

lemma step_user_fn:
  assumes "resolve_step c d" and "\<forall>a f. fn_decls c a = Some f \<longrightarrow> user_fn c f" and "fn_decls d a = Some g"
  shows "user_fn d g"
proof -
  obtain f where f: "fn_decls c a = Some f" "fn_frame f = fn_frame g"
    using assms(1, 3) map_option_frame_eq [of fn_frame "fn_decls d" "fn_decls c" a g]
    by (auto simp: resolve_step_def)
  with assms(2) have "user_fn c f" by blast
  with fn_frame_fields [OF f(2)] step_doms [OF assms(1)] show ?thesis
    unfolding user_fn_def by metis
qed

lemma step_decl_ok:
  assumes "resolve_step c d"
  shows "type_decl_ok d x \<longleftrightarrow> type_decl_ok c x" and "value_decl_ok d y \<longleftrightarrow> value_decl_ok c y"
  using assms step_doms [OF assms]
  by (auto simp: resolve_step_def type_decl_ok_def value_decl_ok_def split: TypeDecl.splits ValueDecl.splits)

lemma step_scope_ok:
  assumes "resolve_step c d" and "scope_ok c a s" and "scope_frame t = scope_frame s"
  shows "scope_ok d a t"
proof -
  note fs = scope_frame_fields [OF assms(3)]
  show ?thesis
    using assms(1, 2) fs step_doms [OF assms(1)] step_child_of [OF assms(1)]
    by (simp add: scope_ok_def step_decl_ok [OF assms(1)] resolve_step_def)
qed

lemma step_store_ok:
  assumes "resolve_step c d" and "store_ok c"
  shows "store_ok d"
proof -
  have "scope_ok d a t" if t: "scopes d a = Some t" for a t
  proof -
    obtain s where s: "scopes c a = Some s" "scope_frame t = scope_frame s" by (rule step_scope_back [OF assms(1) t])
    with assms(2) have "scope_ok c a s" by (simp add: store_ok_def)
    from step_scope_ok [OF assms(1) this s(2)] show ?thesis .
  qed
  moreover have "user_fn d g" if "fn_decls d a = Some g" for a g
    using step_user_fn [OF assms(1) _ that] assms(2) by (simp add: store_ok_def)
  moreover have "dom (scopes d) = dom (scopes c)" "dom (fn_decls d) = dom (fn_decls c)"
    using step_doms [OF assms(1)] by simp_all
  ultimately show ?thesis using assms by (simp add: store_ok_def resolve_step_def)
qed

subsection \<open>Impl scopes above a scope\<close>

definition above :: "Semantic_Checker \<Rightarrow> (address \<times> address) set" where
  "above c = {(a, p). \<exists>s. scopes c a = Some s \<and> parent s = Some p}"

text \<open>The type \<open>Self\<close> is known in every \<open>impl\<close> that a scope is in.\<close>

definition impls_ready :: "Semantic_Checker \<Rightarrow> address \<Rightarrow> bool" where
  "impls_ready c a \<longleftrightarrow>
     (\<forall>b s. (a, b) \<in> (above c)\<^sup>* \<longrightarrow> scopes c b = Some s \<longrightarrow> scope_kind s = Impl_scope \<longrightarrow> self_struct s \<noteq> None)"

lemma step_above:
  assumes "resolve_step c d"
  shows "above d = above c"
proof (intro set_eqI iffI; clarify)
  fix a p assume "(a, p) \<in> above d"
  then obtain t where t: "scopes d a = Some t" "parent t = Some p" by (auto simp: above_def)
  obtain s where "scopes c a = Some s" "scope_frame t = scope_frame s" by (rule step_scope_back [OF assms t(1)])
  with t(2) scope_frame_fields [of t s] show "(a, p) \<in> above c" by (simp add: above_def)
next
  fix a p assume "(a, p) \<in> above c"
  then obtain s where s: "scopes c a = Some s" "parent s = Some p" by (auto simp: above_def)
  obtain t where "scopes d a = Some t" "scope_frame t = scope_frame s" by (rule step_scope [OF assms s(1)])
  with s(2) scope_frame_fields [of t s] show "(a, p) \<in> above d" by (simp add: above_def)
qed

lemma impls_ready_step:
  assumes "resolve_step c d" and "impls_ready c a"
  shows "impls_ready d a"
  unfolding impls_ready_def step_above [OF assms(1)]
proof (intro allI impI)
  fix b t assume b: "(a, b) \<in> (above c)\<^sup>*" "scopes d b = Some t" "scope_kind t = Impl_scope"
  obtain s where s: "scopes c b = Some s" "scope_frame t = scope_frame s"
    by (rule step_scope_back [OF assms(1) b(2)])
  with b assms(2) scope_frame_fields [OF s(2)] have "self_struct s \<noteq> None"
    by (simp add: impls_ready_def)
  with s(1) have "Self_known b \<in> known c" by (simp add: known_def holds_def)
  then have "Self_known b \<in> known d" using resolve_step_known [OF assms(1)] by blast
  with b(2) show "self_struct t \<noteq> None" by (simp add: known_def holds_def)
qed

lemma search_scopes_found:
  "search_scopes n sc f (Some a) = Inr (Some x) \<Longrightarrow>
    \<exists>b s. (a, b) \<in> {(a, p). \<exists>s. sc a = Some s \<and> parent s = Some p}\<^sup>* \<and> sc b = Some s \<and> f b s = Some x"
proof (induction n arbitrary: a)
  case 0
  then show ?case by simp
next
  case (Suc n)
  then obtain s where s: "sc a = Some s" by (auto simp: res_simps)
  show ?case
  proof (cases "f a s")
    case (Some y)
    with Suc.prems s show ?thesis by auto
  next
    case None
    with Suc.prems s obtain p where p: "parent s = Some p" "search_scopes n sc f (Some p) = Inr (Some x)"
      by (cases "parent s") auto
    from Suc.IH [OF p(2)] p(1) s show ?thesis
      by (blast intro: converse_rtrancl_into_rtrancl)
  qed
qed

lemma search_found:
  "search c f (Some a) = Inr (Some x) \<Longrightarrow> \<exists>b s. (a, b) \<in> (above c)\<^sup>* \<and> scopes c b = Some s \<and> f b s = Some x"
  unfolding search_def above_def by (rule search_scopes_found)

subsection \<open>The steps at a scope\<close>

text \<open>The state while scope \<open>a\<close> is processed, which began in state \<open>c0\<close>.\<close>

definition resolve_inv :: "Semantic_Checker \<Rightarrow> address \<Rightarrow> Semantic_Checker \<Rightarrow> bool" where
  "resolve_inv c0 a c \<longleftrightarrow> store_ok c \<and> a \<in> dom (scopes c) \<and> impls_ready c a \<and> resolve_step c0 c"

interpretation resolving: walker "resolve_inv c0 a" resolve_step known thrown for c0 a
proof unfold_locales
  fix s t u
  show "resolve_inv c0 a s \<Longrightarrow> resolve_step s s" by (rule resolve_step_refl)
  show "resolve_step s t \<Longrightarrow> resolve_step t u \<Longrightarrow> resolve_step s u" by (rule resolve_step_trans)
  show "resolve_step s t \<Longrightarrow> known s \<subseteq> known t" by (rule resolve_step_known)
qed

lemma resolve_inv_step: "resolve_inv c0 a c \<Longrightarrow> resolve_step c d \<Longrightarrow> resolve_inv c0 a d"
  unfolding resolve_inv_def
  by (elim conjE, intro conjI)
    (rule step_store_ok impls_ready_step resolve_step_trans, assumption+ | simp add: step_doms)+

lemma resolving_walksI:
  "(\<And>c. resolve_inv c0 a c \<Longrightarrow>
      case f c of Inr d \<Rightarrow> resolve_step c d \<and> A \<subseteq> known d | Inl e \<Rightarrow> thrown e) \<Longrightarrow> resolving.walks c0 a A f"
  unfolding resolving.walks_def using resolve_inv_step by (fastforce split: sum.splits)

text \<open>A computation with a value besides the state.\<close>

definition gives :: "Semantic_Checker \<Rightarrow> address \<Rightarrow> (Semantic_Checker \<Rightarrow> ('a \<times> Semantic_Checker) res) \<Rightarrow> bool" where
  "gives c0 a f \<longleftrightarrow> (\<forall>c. resolve_inv c0 a c \<longrightarrow>
     (case f c of Inr (_, d) \<Rightarrow> resolve_step c d | Inl e \<Rightarrow> thrown e))"

lemma gives_bind:
  assumes "gives c0 a f" and "\<And>x. gives c0 a (g x)"
  shows "gives c0 a (\<lambda>c. bindr (f c) (\<lambda>(x, c). g x c))"
  unfolding gives_def
proof (intro allI impI)
  fix c assume c: "resolve_inv c0 a c"
  show "case bindr (f c) (\<lambda>(x, c). g x c) of Inr (_, d) \<Rightarrow> resolve_step c d | Inl e \<Rightarrow> thrown e"
  proof (cases "f c")
    case (Inl e)
    with assms(1) c show ?thesis by (auto simp: gives_def split: sum.splits)
  next
    case (Inr p)
    obtain x d where p: "p = (x, d)" by (cases p)
    with Inr assms(1) c have d: "resolve_step c d" by (force simp: gives_def)
    from resolve_inv_step [OF c this] assms(2) [of x]
    have "case g x d of Inr (_, e) \<Rightarrow> resolve_step d e | Inl e \<Rightarrow> thrown e" by (simp add: gives_def)
    with Inr p d show ?thesis by (auto split: sum.splits intro: resolve_step_trans)
  qed
qed

subsection \<open>Changes that the step relation allows\<close>

lemma step_maps [simp]:
  "resolve_step c (c\<lparr>type_map := m\<rparr>)" "resolve_step c (c\<lparr>const_expr_queue := q\<rparr>)"
  "resolve_step c (c\<lparr>fn_item_to_decl_map := f\<rparr>)"
  by (auto simp: resolve_step_def known_def holds_def split: fact.splits)

lemma knownD:
  assumes "holds c f" and "\<And>a s. scopes c a = Some s \<Longrightarrow> \<exists>t. scopes d a = Some t
      \<and> (self_struct s \<noteq> None \<longrightarrow> self_struct t \<noteq> None) \<and> (is_main_scope s \<longrightarrow> is_main_scope t)"
    and "\<And>a f. fn_decls c a = Some f \<Longrightarrow> \<exists>g. fn_decls d a = Some g
      \<and> (return_type f \<noteq> None \<longrightarrow> return_type g \<noteq> None) \<and> (is_main f \<longrightarrow> is_main g)"
    and "\<And>a k. const_decls c a = Some k \<Longrightarrow> \<exists>l. const_decls d a = Some l
      \<and> (const_type k \<noteq> None \<longrightarrow> const_type l \<noteq> None)"
  shows "holds d f"
proof (cases f)
  case (Return_known a)
  with assms(1, 3) show ?thesis by (fastforce simp: holds_def)
next
  case (Const_known a)
  with assms(1, 4) show ?thesis by (fastforce simp: holds_def)
next
  case (Self_known a)
  with assms(1, 2) show ?thesis by (fastforce simp: holds_def)
next
  case (Main_fn a)
  with assms(1, 3) show ?thesis by (fastforce simp: holds_def)
next
  case (Main_scope a)
  with assms(1, 2) show ?thesis by (fastforce simp: holds_def)
qed

lemma frame_update: "m a = Some x \<Longrightarrow> f y = f x \<Longrightarrow> map_option f \<circ> m(a \<mapsto> y) = map_option f \<circ> m"
  by (auto simp: fun_eq_iff)

lemma step_put_scope:
  assumes "scopes c a = Some s" and "scope_frame t = scope_frame s"
    and "self_struct s \<noteq> None \<Longrightarrow> self_struct t \<noteq> None" and "is_main_scope s \<Longrightarrow> is_main_scope t"
  shows "resolve_step c (put_scope a t c)"
proof -
  have "holds (put_scope a t c) f" if "holds c f" for f
    using that by (rule knownD) (use assms in \<open>auto simp: put_scope_def\<close>)
  with frame_update [of "scopes c" a s scope_frame t] assms(1, 2) show ?thesis
    by (auto simp: resolve_step_def put_scope_def known_def)
qed

lemma step_put_fn:
  assumes "fn_decls c a = Some f" and "fn_frame g = fn_frame f"
    and "return_type f \<noteq> None \<Longrightarrow> return_type g \<noteq> None" and "is_main f \<Longrightarrow> is_main g"
  shows "resolve_step c (put_fn a g c)"
proof -
  have "holds (put_fn a g c) h" if "holds c h" for h
    using that by (rule knownD) (use assms in \<open>auto simp: put_fn_def\<close>)
  with frame_update [of "fn_decls c" a f fn_frame g] assms(1, 2) show ?thesis
    by (auto simp: resolve_step_def put_fn_def known_def)
qed

lemma step_put_struct: "struct_decls c a = Some x \<Longrightarrow> resolve_step c (put_struct a y c)"
  by (auto simp: resolve_step_def put_struct_def known_def elim!: knownD)

lemma step_put_enum: "enum_decls c a = Some x \<Longrightarrow> resolve_step c (c\<lparr>enum_decls := (enum_decls c)(a \<mapsto> y)\<rparr>)"
  by (auto simp: resolve_step_def known_def elim!: knownD)

lemma step_put_const:
  assumes "const_decls c a = Some x" and "const_type y \<noteq> None"
  shows "resolve_step c (c\<lparr>const_decls := (const_decls c)(a \<mapsto> y)\<rparr>)"
proof -
  have "holds (c\<lparr>const_decls := (const_decls c)(a \<mapsto> y)\<rparr>) h" if "holds c h" for h
    using that by (rule knownD) (use assms in auto)
  with assms show ?thesis by (auto simp: resolve_step_def known_def)
qed

subsection \<open>Types\<close>

lemma thrown_simp [simp]: "thrown (Thrown m)"
  by (simp add: thrown_def)

lemma builtin_type_thrown: "case builtin_type r name of Inr t \<Rightarrow> True | Inl e \<Rightarrow> thrown e"
  by (simp add: builtin_type_def)

lemma find_path_type_thrown:
  assumes "resolve_inv c0 a c"
  shows "case find_path_type c (Some a) r name of Inr t \<Rightarrow> True | Inl e \<Rightarrow> thrown e"
proof -
  obtain d where "search c (\<lambda>_ s. map_of (type_namespace s) name) (Some a) = Inr d"
    using search_ends assms unfolding resolve_inv_def by blast
  then show ?thesis
    using builtin_type_thrown [of r name]
    by (simp add: find_path_type_def split: option.split TypeDecl.split)
qed

lemma find_self_type_thrown:
  assumes "resolve_inv c0 a c"
  shows "case find_self_type c (Some a) of Inr t \<Rightarrow> True | Inl e \<Rightarrow> thrown e"
proof -
  let ?f = "\<lambda>_ s. if scope_kind s = Impl_scope then Some s else None"
  obtain d where d: "search c ?f (Some a) = Inr d"
    using search_ends assms unfolding resolve_inv_def by blast
  show ?thesis
  proof (cases d)
    case None
    with d show ?thesis by (simp add: find_self_type_def)
  next
    case (Some s)
    with search_found [of c ?f a s] d obtain b where
      "(a, b) \<in> (above c)\<^sup>*" "scopes c b = Some s" "scope_kind s = Impl_scope"
      by (auto split: if_splits)
    with assms have "self_struct s \<noteq> None" by (auto simp: resolve_inv_def impls_ready_def)
    with d Some show ?thesis by (auto simp: find_self_type_def)
  qed
qed

lemma gives_memo: "gives c0 a f \<Longrightarrow> gives c0 a (memo_type k f)"
proof -
  assume f: "gives c0 a f"
  have "gives c0 a (\<lambda>c. Inr (t, set_type k t c))" for t
    by (simp add: gives_def set_type_def)
  from gives_bind [OF f this] show ?thesis
    unfolding gives_def memo_type_def by (simp add: resolve_step_refl split: option.split)
qed

lemma gives_pure:
  "(\<And>c. resolve_inv c0 a c \<Longrightarrow> case f c of Inr t \<Rightarrow> True | Inl e \<Rightarrow> thrown e) \<Longrightarrow>
    gives c0 a (\<lambda>c. bindr (f c) (\<lambda>t. Inr (t, c)))"
  unfolding gives_def by (fastforce simp: resolve_step_refl res_simps split: sum.splits)

lemma gives_find_real_type: "gives c0 a (find_real_type (Some a) t)"
proof (induction "Some a" t rule: find_real_type.induct)
  case (1 k r name)
  show ?case
    unfolding find_real_type.simps by (intro gives_memo gives_pure find_path_type_thrown)
next
  case (2 k r t e)
  have push: "gives c0 a (\<lambda>c. Inr (ArrayRealType r t' (Some e) 0, queue_expr e c))" for t'
    by (simp add: gives_def queue_expr_def)
  show ?case
    unfolding find_real_type.simps using gives_bind [OF 2 push] by (rule gives_memo)
next
  case (3 k r)
  have "gives c0 a (\<lambda>c. Inr (UnitRealType r, c))" by (simp add: gives_def resolve_step_refl)
  then show ?case unfolding find_real_type.simps by (rule gives_memo)
next
  case (4 k r)
  show ?case
    unfolding find_real_type.simps by (intro gives_memo gives_pure find_self_type_thrown)
qed

subsection \<open>The declarations of a scope\<close>

lemma walks_gives:
  assumes "gives c0 a f" and "\<And>x. resolving.walks c0 a A (g x)"
  shows "resolving.walks c0 a A (\<lambda>c. bindr (f c) (\<lambda>(x, c). g x c))"
proof (rule resolving_walksI)
  fix c assume c: "resolve_inv c0 a c"
  show "case bindr (f c) (\<lambda>(x, c). g x c) of Inr d \<Rightarrow> resolve_step c d \<and> A \<subseteq> known d | Inl e \<Rightarrow> thrown e"
  proof (cases "f c")
    case (Inl e)
    with assms(1) c show ?thesis by (auto simp: gives_def split: sum.splits)
  next
    case (Inr p)
    obtain x d where p: "p = (x, d)" by (cases p)
    with Inr assms(1) c have d: "resolve_step c d" by (force simp: gives_def)
    note inv = resolve_inv_step [OF c d]
    show ?thesis
    proof (cases "g x d")
      case (Inl e)
      with Inr p resolving.walks_failD [OF assms(2) inv Inl] show ?thesis by simp
    next
      case g: (Inr e)
      with Inr p d resolving.walksD [OF assms(2) inv g] show ?thesis
        by (auto intro: resolve_step_trans)
    qed
  qed
qed

lemma walks_foldr_none:
  "(\<And>x. x \<in> set xs \<Longrightarrow> resolving.walks c0 a {} (f x)) \<Longrightarrow> resolving.walks c0 a {} (foldr_res f xs)"
  using resolving.walks_foldr [of xs c0 a "\<lambda>_. {}" f] resolving.walks_mono by blast

text \<open>The declarations that were there when the scope was entered are there.\<close>

lemma inv_struct: "resolve_inv c0 a c \<Longrightarrow> d \<in> dom (struct_decls c0) \<Longrightarrow> \<exists>x. struct_decls c d = Some x"
  and inv_enum: "resolve_inv c0 a c \<Longrightarrow> d \<in> dom (enum_decls c0) \<Longrightarrow> \<exists>x. enum_decls c d = Some x"
  and inv_const: "resolve_inv c0 a c \<Longrightarrow> d \<in> dom (const_decls c0) \<Longrightarrow> \<exists>x. const_decls c d = Some x"
  unfolding resolve_inv_def resolve_step_def by blast+

lemma inv_fn:
  assumes "resolve_inv c0 a c" and "d \<in> dom (fn_decls c0)"
  obtains f where "fn_decls c d = Some f" and "user_fn c f"
proof -
  have "resolve_step c0 c" using assms(1) by (simp add: resolve_inv_def)
  from step_doms [OF this] assms(2) have "d \<in> dom (fn_decls c)" by simp
  then obtain f where "fn_decls c d = Some f" by blast
  moreover from this assms(1) have "user_fn c f" by (simp add: resolve_inv_def store_ok_def)
  ultimately show thesis by (rule that)
qed

lemma walks_put:
  "(\<And>c. resolve_inv c0 a c \<Longrightarrow> resolve_step c (g c) \<and> A \<subseteq> known (g c)) \<Longrightarrow>
    resolving.walks c0 a A (\<lambda>c. Inr (g c))"
  by (rule resolving_walksI) simp

lemma walks_resolve_field:
  assumes "d \<in> dom (struct_decls c0)"
  shows "resolving.walks c0 a {} (resolve_field a d f)"
proof (rule resolving_walksI)
  fix c assume c: "resolve_inv c0 a c"
  obtain sd where sd: "struct_decls c d = Some sd" using inv_struct [OF c assms] by blast
  have put: "resolving.walks c0 a {} (\<lambda>c. Inr (put_struct d (sd\<lparr>struct_fields := smap_insert (fst f) t (struct_fields sd)\<rparr>) c))" for t
    by (rule walks_put) (use inv_struct assms step_put_struct in blast)
  note walk = walks_gives [OF gives_find_real_type put]
  show "case resolve_field a d f c of Inr e \<Rightarrow> resolve_step c e \<and> {} \<subseteq> known e | Inl e \<Rightarrow> thrown e"
    using sd resolving.walksD [OF walk c] resolving.walks_failD [OF walk c]
    by (auto simp: resolve_field_def split: sum.split)
qed

lemma walks_resolve_variant:
  assumes "d \<in> dom (enum_decls c0)"
  shows "resolving.walks c0 a {} (resolve_variant d v)"
proof (rule resolving_walksI)
  fix c assume c: "resolve_inv c0 a c"
  obtain ed where "enum_decls c d = Some ed" using inv_enum [OF c assms] by blast
  then show "case resolve_variant d v c of Inr e \<Rightarrow> resolve_step c e \<and> {} \<subseteq> known e | Inl e \<Rightarrow> thrown e"
    by (auto simp: resolve_variant_def define_name_def intro: step_put_enum)
qed

lemma walks_resolve_type_decl:
  assumes "type_decl_ok c0 (snd p)"
  shows "resolving.walks c0 a {} (resolve_type_decl a p)"
proof (cases "snd p")
  case (Struct_decl d)
  with assms have d: "d \<in> dom (struct_decls c0)" by (simp add: type_decl_ok_def)
  have "resolving.walks c0 a {} (foldr_res (resolve_field a d) fs)" for fs
    by (rule walks_foldr_none) (rule walks_resolve_field [OF d])
  with Struct_decl inv_struct [OF _ d] show ?thesis
    by (fastforce simp: resolve_type_decl_def resolving.walks_def)
next
  case (Enum_decl d)
  with assms have d: "d \<in> dom (enum_decls c0)" by (simp add: type_decl_ok_def)
  have "resolving.walks c0 a {} (foldr_res (resolve_variant d) vs)" for vs
    by (rule walks_foldr_none) (rule walks_resolve_variant [OF d])
  with Enum_decl inv_enum [OF _ d] show ?thesis
    by (fastforce simp: resolve_type_decl_def resolving.walks_def)
qed

lemma walks_put_fn:
  assumes "d \<in> dom (fn_decls c0)"
    and "\<And>(c :: Semantic_Checker) f. fn_decls c d = Some f \<Longrightarrow> fn_frame (g f) = fn_frame f
      \<and> (return_type f \<noteq> None \<longrightarrow> return_type (g f) \<noteq> None) \<and> (is_main f \<longrightarrow> is_main (g f))"
    and "\<And>c f. fn_decls c d = Some f \<Longrightarrow> A \<subseteq> known (put_fn d (g f) c)"
  shows "resolving.walks c0 a A (\<lambda>c. bindr (deref (fn_decls c) d) (\<lambda>f. Inr (put_fn d (g f) c)))"
proof (rule resolving_walksI)
  fix c assume c: "resolve_inv c0 a c"
  obtain f where f: "fn_decls c d = Some f" by (rule inv_fn [OF c assms(1)])
  note g = assms(2) [OF f]
  have "resolve_step c (put_fn d (g f) c)" by (rule step_put_fn [OF f]) (use g in auto)
  with f assms(3) [OF f]
  show "case bindr (deref (fn_decls c) d) (\<lambda>f. Inr (put_fn d (g f) c)) of
      Inr e \<Rightarrow> resolve_step c e \<and> A \<subseteq> known e | Inl e \<Rightarrow> thrown e" by simp
qed

lemma walks_resolve_param:
  assumes "d \<in> dom (fn_decls c0)"
  shows "resolving.walks c0 a {} (resolve_param a d p)"
  unfolding resolve_param_def [abs_def]
  by (rule walks_gives [OF gives_find_real_type]) (rule walks_put_fn [OF assms]; simp add: fn_frame_def)

lemma walks_resolve_return:
  assumes "d \<in> dom (fn_decls c0)"
  shows "resolving.walks c0 a {Return_known d} (resolve_return a d rt)"
proof -
  have "gives c0 a (\<lambda>c. case rt of Some t \<Rightarrow> find_real_type (Some a) t c | None \<Rightarrow> Inr (UnitRealType NO_REF, c))"
    using gives_find_real_type by (cases rt) (simp_all add: gives_def resolve_step_refl)
  then show ?thesis
    unfolding resolve_return_def [abs_def]
    by (rule walks_gives)
      (rule walks_put_fn [OF assms]; simp add: fn_frame_def known_def holds_def put_fn_def)
qed

lemma walks_resolve_fn:
  assumes "d \<in> dom (fn_decls c0)"
  shows "resolving.walks c0 a {Return_known d} (resolve_fn a d)"
proof (rule resolving_walksI)
  fix c assume c: "resolve_inv c0 a c"
  obtain f where f: "fn_decls c d = Some f" "user_fn c f" by (rule inv_fn [OF c assms])
  then obtain k n r ps rt b where fn: "fn_ast f = Some (FnItem k n r ps rt b)" by (auto simp: user_fn_def)
  have note_item: "resolving.walks c0 a {} (\<lambda>c. Inr (c\<lparr>fn_item_to_decl_map := (fn_item_to_decl_map c)(k \<mapsto> d)\<rparr>))"
    by (rule walks_put) simp
  have ps: "resolving.walks c0 a {} (foldr_res (resolve_param a d) ps)"
    by (rule walks_foldr_none) (rule walks_resolve_param [OF assms])
  note walk = resolving.walks_bind [OF ps resolving.walks_bind [OF walks_resolve_return [OF assms] note_item]]
  show "case resolve_fn a d c of Inr e \<Rightarrow> resolve_step c e \<and> {Return_known d} \<subseteq> known e | Inl e \<Rightarrow> thrown e"
    using f fn resolving.walksD [OF walk c] resolving.walks_failD [OF walk c]
    by (auto simp: resolve_fn_def split: sum.split)
qed

definition value_facts :: "ValueDecl \<Rightarrow> fact set" where
  "value_facts d =
     (case d of Function_decl a \<Rightarrow> {Return_known a} | Constant_decl a \<Rightarrow> {Const_known a} | LetStmt_decl _ \<Rightarrow> {})"

lemma walks_resolve_value_decl:
  assumes "value_decl_ok c0 (snd p)"
  shows "resolving.walks c0 a (value_facts (snd p)) (resolve_value_decl a p)"
proof (cases "snd p")
  case (Function_decl d)
  with assms walks_resolve_fn [of d c0 a] show ?thesis
    by (simp add: resolve_value_decl_def [abs_def] value_decl_ok_def value_facts_def)
next
  case (Constant_decl d)
  with assms have d: "d \<in> dom (const_decls c0)" by (simp add: value_decl_ok_def)
  have put: "resolving.walks c0 a {Const_known d} (\<lambda>c. Inr (c\<lparr>const_decls := (const_decls c)(d \<mapsto> k\<lparr>const_type := Some t\<rparr>)\<rparr>))" for t k
    by (rule walks_put) (use inv_const d step_put_const in \<open>fastforce simp: known_def holds_def\<close>)
  have walk: "resolving.walks c0 a {Const_known d} (\<lambda>c. bindr (find_real_type (Some a) (const_type_ast k) c)
      (\<lambda>(t, c). Inr (c\<lparr>const_decls := (const_decls c)(d \<mapsto> k\<lparr>const_type := Some t\<rparr>)\<rparr>)))" for k
    by (rule walks_gives [OF gives_find_real_type put])
  show ?thesis
  proof (rule resolving_walksI)
    fix c assume c: "resolve_inv c0 a c"
    obtain k where "const_decls c d = Some k" using inv_const [OF c d] by blast
    then show "case resolve_value_decl a p c of Inr e \<Rightarrow> resolve_step c e \<and> value_facts (snd p) \<subseteq> known e | Inl e \<Rightarrow> thrown e"
      using Constant_decl resolving.walksD [OF walk c] resolving.walks_failD [OF walk c]
      by (auto simp: resolve_value_decl_def value_facts_def split: sum.split)
  qed
next
  case (LetStmt_decl d)
  then show ?thesis
    using resolving.walks_id by (simp add: resolve_value_decl_def [abs_def] value_facts_def)
qed

end
