(* ===== verification/ResolveTree.thy ===== *)
theory ResolveTree
  imports ResolveProps
begin

section \<open>The second step along the tree of scopes\<close>

text \<open>
  The members of an \<open>impl\<close>, the function \<open>main\<close>, one scope, and the recursion over the tree: what
  holds of the program after the second step.
\<close>

lemma walks_add_member:
  assumes "sa \<in> dom (struct_decls c0)" and "value_decl_ok c0 (snd p)"
  shows "resolving.walks c0 a {} (add_member sa p)"
proof (rule resolving_walksI)
  fix c assume c: "resolve_inv c0 a c"
  obtain sd where sd: "struct_decls c sa = Some sd" using inv_struct [OF c assms(1)] by blast
  have put: "resolve_step c (put_struct sa x c)" for x by (rule step_put_struct [OF sd])
  have fn: "\<exists>f. fn_decls c d = Some f \<and> (\<forall>x. resolve_step c (put_struct sa x (put_fn d (f\<lparr>fn_self_struct := Some sa\<rparr>) c)))"
    if "d \<in> dom (fn_decls c0)" for d
  proof -
    from c that obtain f where f: "fn_decls c d = Some f" by (rule inv_fn)
    have "resolve_step c (put_fn d (f\<lparr>fn_self_struct := Some sa\<rparr>) c)"
      by (rule step_put_fn [OF f]) (simp_all add: fn_frame_def)
    moreover have "resolve_step (put_fn d (f\<lparr>fn_self_struct := Some sa\<rparr>) c)
        (put_struct sa x (put_fn d (f\<lparr>fn_self_struct := Some sa\<rparr>) c))" for x
      by (rule step_put_struct [of _ _ sd]) (simp add: put_fn_def sd)
    ultimately show ?thesis using f resolve_step_trans by blast
  qed
  show "case add_member sa p c of Inr e \<Rightarrow> resolve_step c e \<and> {} \<subseteq> known e | Inl e \<Rightarrow> thrown e"
  proof (cases "snd p")
    case (Function_decl d)
    with assms(2) have "d \<in> dom (fn_decls c0)" by (simp add: value_decl_ok_def)
    from fn [OF this] obtain f where
      "fn_decls c d = Some f" "\<And>x. resolve_step c (put_struct sa x (put_fn d (f\<lparr>fn_self_struct := Some sa\<rparr>) c))"
      by blast
    with Function_decl sd show ?thesis by (simp add: add_member_def Let_def)
  next
    case (Constant_decl d)
    with sd put show ?thesis by (simp add: add_member_def Let_def)
  next
    case (LetStmt_decl d)
    with sd resolve_step_refl show ?thesis by (simp add: add_member_def Let_def)
  qed
qed

subsection \<open>The function main\<close>

definition main_known :: "Semantic_Checker \<Rightarrow> address \<Rightarrow> bool" where
  "main_known c m \<longleftrightarrow>
     (\<exists>f b s. fn_decls c m = Some f \<and> is_main f \<and> function_scope f = Some b \<and> scopes c b = Some s \<and> is_main_scope s)"

lemma main_known_step:
  assumes "resolve_step c d" and "main_known c m"
  shows "main_known d m"
proof -
  obtain f b s where f: "fn_decls c m = Some f" "is_main f" "function_scope f = Some b"
      "scopes c b = Some s" "is_main_scope s"
    using assms(2) by (auto simp: main_known_def)
  then have "{Main_fn m, Main_scope b} \<subseteq> known c" by (simp add: known_def holds_def)
  then have "{Main_fn m, Main_scope b} \<subseteq> known d" using resolve_step_known [OF assms(1)] by blast
  then obtain g t where "fn_decls d m = Some g" "is_main g" "scopes d b = Some t" "is_main_scope t"
    by (auto simp: known_def holds_def)
  moreover have "fn_frame g = fn_frame f"
    using assms(1) map_option_frame_eq [of fn_frame "fn_decls d" "fn_decls c" m g] f(1) \<open>fn_decls d m = Some g\<close>
    by (simp add: resolve_step_def)
  ultimately have "function_scope g = Some b" using f(3) fn_frame_fields [of g f] by simp
  with \<open>fn_decls d m = Some g\<close> \<open>is_main g\<close> \<open>scopes d b = Some t\<close> \<open>is_main_scope t\<close> show ?thesis
    unfolding main_known_def by blast
qed

lemma mark_main_ok:
  assumes "resolve_inv c0 a c" and "d \<in> dom (fn_decls c0)"
  obtains e where "mark_main d c = Inr e" and "resolve_step c e" and "main_known e d"
proof -
  obtain f where f: "fn_decls c d = Some f" "user_fn c f" by (rule inv_fn [OF assms])
  then obtain b s where b: "function_scope f = Some b" "scopes c b = Some s" by (auto simp: user_fn_def)
  let ?c = "put_fn d (f\<lparr>is_main := True\<rparr>) c"
  have "resolve_step c ?c" by (rule step_put_fn [OF f(1)]) (simp_all add: fn_frame_def)
  moreover have "resolve_step ?c (put_scope b (s\<lparr>is_main_scope := True\<rparr>) ?c)"
    by (rule step_put_scope [of _ _ s]) (simp_all add: put_fn_def b scope_frame_def)
  ultimately have "resolve_step c (put_scope b (s\<lparr>is_main_scope := True\<rparr>) ?c)" by (rule resolve_step_trans)
  moreover have "main_known (put_scope b (s\<lparr>is_main_scope := True\<rparr>) ?c) d"
    using b by (simp add: main_known_def put_scope_def put_fn_def)
  ultimately show thesis using that f(1) b by (simp add: mark_main_def)
qed

lemma check_free_fns:
  assumes "\<forall>p \<in> set ns. value_decl_ok c0 (snd p)" and "resolve_inv c0 a c"
  shows "case foldr_res (check_free_fn k) ns (b, c) of
     Inr (b', d) \<Rightarrow> resolve_step c d
       \<and> (b' \<longrightarrow> b \<or> (\<exists>m. (''main'', Function_decl m) \<in> set ns \<and> main_known d m))
   | Inl e \<Rightarrow> thrown e"
  using assms
proof (induction ns arbitrary: b c)
  case Nil
  then show ?case by (simp add: resolve_step_refl)
next
  case (Cons p ns)
  have one: "case check_free_fn k p (b, c) of
     Inr (b', d) \<Rightarrow> resolve_step c d \<and> (b' \<longrightarrow> b \<or> (\<exists>m. p = (''main'', Function_decl m) \<and> main_known d m))
   | Inl e \<Rightarrow> thrown e"
  proof (cases "snd p")
    case (Function_decl d)
    with Cons.prems(1) have d: "d \<in> dom (fn_decls c0)" by (simp add: value_decl_ok_def)
    obtain f where f: "fn_decls c d = Some f" by (rule inv_fn [OF Cons.prems(2) d])
    obtain e where "mark_main d c = Inr e" "resolve_step c e" "main_known e d"
      by (rule mark_main_ok [OF Cons.prems(2) d])
    with Function_decl f show ?thesis
      by (cases p) (auto simp: check_free_fn_def resolve_step_refl)
  qed (simp_all add: check_free_fn_def resolve_step_refl)
  show ?case
  proof (cases "check_free_fn k p (b, c)")
    case (Inl e)
    with one show ?thesis by simp
  next
    case (Inr q)
    obtain b' d where q: "q = (b', d)" by (cases q)
    with one Inr have d: "resolve_step c d" "b' \<longrightarrow> b \<or> (\<exists>m. p = (''main'', Function_decl m) \<and> main_known d m)"
      by simp_all
    have "case foldr_res (check_free_fn k) ns (b', d) of
        Inr (b'', e) \<Rightarrow> resolve_step d e
          \<and> (b'' \<longrightarrow> b' \<or> (\<exists>m. (''main'', Function_decl m) \<in> set ns \<and> main_known e m))
      | Inl e \<Rightarrow> thrown e"
      using Cons.prems resolve_inv_step [OF Cons.prems(2) d(1)] by (intro Cons.IH) auto
    with Inr q d show ?thesis
      by (auto split: sum.splits intro: resolve_step_trans main_known_step)
  qed
qed

subsection \<open>One scope\<close>

definition member_facts :: "Scope \<Rightarrow> fact set" where
  "member_facts s = \<Union> (value_facts ` snd ` set (value_namespace s))"

text \<open>What holds of a scope that has been processed.\<close>

definition scope_resolved :: "Semantic_Checker \<Rightarrow> address \<Rightarrow> bool" where
  "scope_resolved c a \<longleftrightarrow>
     (\<exists>s. scopes c a = Some s \<and> member_facts s \<subseteq> known c
       \<and> (scope_kind s = Impl_scope \<longrightarrow> Self_known a \<in> known c)
       \<and> (scope_kind s = Root_scope \<longrightarrow>
            (\<exists>m. map_of (value_namespace s) ''main'' = Some (Function_decl m) \<and> main_known c m)))"

lemma scope_resolved_step:
  assumes "resolve_step c d" and "scope_resolved c a"
  shows "scope_resolved d a"
proof -
  obtain s where s: "scopes c a = Some s" "member_facts s \<subseteq> known c"
      "scope_kind s = Impl_scope \<longrightarrow> Self_known a \<in> known c"
      "scope_kind s = Root_scope \<longrightarrow> (\<exists>m. map_of (value_namespace s) ''main'' = Some (Function_decl m) \<and> main_known c m)"
    using assms(2) by (auto simp: scope_resolved_def)
  obtain t where t: "scopes d a = Some t" "scope_frame t = scope_frame s" by (rule step_scope [OF assms(1) s(1)])
  note fs = scope_frame_fields [OF t(2)]
  have "member_facts t = member_facts s" using fs by (simp add: member_facts_def)
  with s t(1) fs resolve_step_known [OF assms(1)] main_known_step [OF assms(1)] show ?thesis
    unfolding scope_resolved_def by (intro exI [of _ t]) auto
qed

lemma inv_scope:
  assumes "resolve_inv c0 a c"
  obtains s where "scopes c a = Some s" and "\<And>p. p \<in> set (type_namespace s) \<Longrightarrow> type_decl_ok c0 (snd p)"
    and "\<And>p. p \<in> set (value_namespace s) \<Longrightarrow> value_decl_ok c0 (snd p)" and "sorted_keys (value_namespace s)"
proof -
  obtain s where s: "scopes c a = Some s" using assms by (auto simp: resolve_inv_def)
  have "scope_ok c a s" using assms s by (simp add: resolve_inv_def store_ok_def)
  moreover have "resolve_step c0 c" using assms by (simp add: resolve_inv_def)
  ultimately show thesis
    using that s step_decl_ok [of c0 c] by (auto simp: scope_ok_def)
qed

text \<open>The \<open>impl\<close> scopes above the parents of a scope are known before it is entered.\<close>

definition parents_ready :: "Semantic_Checker \<Rightarrow> address \<Rightarrow> bool" where
  "parents_ready c a \<longleftrightarrow> (\<forall>p. (a, p) \<in> above c \<longrightarrow> impls_ready c p)"

lemma impls_ready_iff:
  assumes "scopes c a = Some s"
  shows "impls_ready c a \<longleftrightarrow>
    (scope_kind s = Impl_scope \<longrightarrow> self_struct s \<noteq> None) \<and> parents_ready c a"
proof -
  have "(a, b) \<in> (above c)\<^sup>* \<longleftrightarrow> b = a \<or> (\<exists>p. (a, p) \<in> above c \<and> (p, b) \<in> (above c)\<^sup>*)" for b
    by (metis converse_rtranclE converse_rtrancl_into_rtrancl rtrancl.rtrancl_refl)
  with assms show ?thesis unfolding impls_ready_def parents_ready_def by (auto; blast)
qed

lemma parents_ready_step: "resolve_step c d \<Longrightarrow> parents_ready c a \<Longrightarrow> parents_ready d a"
  using step_above impls_ready_step by (auto simp: parents_ready_def)

lemma find_impl_struct_ok:
  assumes "store_ok c" and "a \<in> dom (scopes c)"
  shows "case find_impl_struct c a name of Inr d \<Rightarrow> d \<in> dom (struct_decls c) | Inl e \<Rightarrow> thrown e"
proof -
  let ?f = "\<lambda>_ s. map_of (type_namespace s) name"
  obtain r where r: "search c ?f (Some a) = Inr r" using search_ends [OF assms, of ?f] by blast
  have "d \<in> dom (struct_decls c)" if r': "r = Some (Struct_decl d)" for d
  proof -
    have "search c ?f (Some a) = Inr (Some (Struct_decl d))" using r r' by simp
    from search_found [OF this] obtain b s where
      s: "scopes c b = Some s" "map_of (type_namespace s) name = Some (Struct_decl d)" by blast
    then have "scope_ok c b s" using assms(1) by (simp add: store_ok_def)
    with map_of_SomeD [OF s(2)] have "type_decl_ok c (snd (name, Struct_decl d))"
      unfolding scope_ok_def by (metis image_eqI)
    then have "type_decl_ok c (Struct_decl d)" by simp
    then show ?thesis by (simp add: type_decl_ok_def)
  qed
  with r show ?thesis by (auto simp: find_impl_struct_def split: option.split TypeDecl.split)
qed

lemma resolve_impl_ok:
  assumes "store_ok c" and "scopes c a = Some s" and "parents_ready c a"
  shows "case resolve_impl a c of
     Inr (impl, d) \<Rightarrow> resolve_inv c a d
       \<and> (scope_kind s = Impl_scope \<longrightarrow> (\<exists>x. impl = Some x \<and> x \<in> dom (struct_decls c)) \<and> Self_known a \<in> known d)
   | Inl e \<Rightarrow> thrown e"
proof (cases "scope_kind s = Impl_scope")
  case False
  with assms impls_ready_iff [OF assms(2)] show ?thesis
    by (auto simp: resolve_impl_def resolve_inv_def resolve_step_refl)
next
  case True
  have dom: "a \<in> dom (scopes c)" using assms(2) by blast
  note found = find_impl_struct_ok [OF assms(1) dom, of "impl_struct s"]
  show ?thesis
  proof (cases "find_impl_struct c a (impl_struct s)")
    case (Inl e)
    with True found assms(2) show ?thesis by (simp add: resolve_impl_def)
  next
    case (Inr x)
    let ?s = "s\<lparr>self_struct := Some (StructRealType NO_REF (impl_struct s) (Some x))\<rparr>"
    let ?d = "put_scope a ?s c"
    have step: "resolve_step c ?d"
      by (rule step_put_scope [OF assms(2)]) (simp_all add: scope_frame_def)
    have d: "scopes ?d a = Some ?s" by (simp add: put_scope_def)
    have "impls_ready ?d a"
      using impls_ready_iff [OF d] parents_ready_step [OF step assms(3)] by simp
    then have "resolve_inv c a ?d"
      using step d step_store_ok [OF step assms(1)] by (auto simp: resolve_inv_def)
    moreover have "Self_known a \<in> known ?d" using d by (simp add: known_def holds_def)
    ultimately show ?thesis using True Inr found assms(2) by (simp add: resolve_impl_def)
  qed
qed

lemma check_members_ok:
  assumes "resolve_inv c0 a c" and "scopes c a = Some s"
    and "scope_kind s = Impl_scope \<Longrightarrow> \<exists>x. impl = Some x \<and> x \<in> dom (struct_decls c0)"
  shows "case check_members a impl c of
     Inr d \<Rightarrow> resolve_step c d
       \<and> (scope_kind s = Root_scope \<longrightarrow>
            (\<exists>m. map_of (value_namespace s) ''main'' = Some (Function_decl m) \<and> main_known d m))
   | Inl e \<Rightarrow> thrown e"
proof -
  obtain s' where "scopes c a = Some s'" and s': "\<And>p. p \<in> set (value_namespace s') \<Longrightarrow> value_decl_ok c0 (snd p)"
      "sorted_keys (value_namespace s')"
    by (rule inv_scope [OF assms(1)]) blast
  with assms(2) have decls: "\<And>p. p \<in> set (value_namespace s) \<Longrightarrow> value_decl_ok c0 (snd p)"
      and sorted: "sorted_keys (value_namespace s)" by simp_all
  show ?thesis
  proof (cases "scope_kind s = Impl_scope")
    case True
    with assms(3) obtain x where x: "impl = Some x" "x \<in> dom (struct_decls c0)" by blast
    have walk: "resolving.walks c0 a {} (foldr_res (add_member x) (value_namespace s))"
      by (rule walks_foldr_none) (rule walks_add_member [OF x(2) decls])
    with True x assms(2) resolving.walksD [OF walk assms(1)] resolving.walks_failD [OF walk assms(1)] show ?thesis
      by (auto simp: check_members_def split: sum.split)
  next
    case False
    have main: "map_of (value_namespace s) ''main'' = Some (Function_decl m)"
      if "(''main'', Function_decl m) \<in> set (value_namespace s)" for m
      using that sorted_keys_distinct [OF sorted] by simp
    have "case foldr_res (check_free_fn (scope_kind s)) (value_namespace s) (False, c) of
        Inr (b', d) \<Rightarrow> resolve_step c d
          \<and> (b' \<longrightarrow> False \<or> (\<exists>m. (''main'', Function_decl m) \<in> set (value_namespace s) \<and> main_known d m))
      | Inl e \<Rightarrow> thrown e"
      using check_free_fns [of "value_namespace s" c0 a c, where k = "scope_kind s" and b = False] decls assms(1) by blast
    with False assms(2) main show ?thesis
      by (auto simp: check_members_def res_simps split: sum.splits)
  qed
qed

lemma resolve_scope_ok:
  assumes "store_ok c" and "a \<in> dom (scopes c)" and "parents_ready c a"
  shows "case resolve_scope a c of
     Inr d \<Rightarrow> resolve_inv c a d \<and> scope_resolved d a
   | Inl e \<Rightarrow> thrown e"
proof -
  obtain s0 where s0: "scopes c a = Some s0" using assms(2) by blast
  note impl = resolve_impl_ok [OF assms(1) s0 assms(3)]
  show ?thesis
  proof (cases "resolve_impl a c")
    case (Inl e)
    with impl show ?thesis by (simp add: resolve_scope_def)
  next
    case (Inr q)
    obtain im d where q: "q = (im, d)" by (cases q)
    from impl Inr q have d: "resolve_inv c a d"
        and im: "scope_kind s0 = Impl_scope \<Longrightarrow> (\<exists>x. im = Some x \<and> x \<in> dom (struct_decls c)) \<and> Self_known a \<in> known d"
      by simp_all
    obtain s where s: "scopes d a = Some s" and tys: "\<And>p. p \<in> set (type_namespace s) \<Longrightarrow> type_decl_ok c (snd p)"
        and vals: "\<And>p. p \<in> set (value_namespace s) \<Longrightarrow> value_decl_ok c (snd p)"
      by (rule inv_scope [OF d]) blast
    have type_part: "resolving.walks c a {} (foldr_res (resolve_type_decl a) (type_namespace s))"
      by (rule walks_foldr_none) (rule walks_resolve_type_decl [OF tys])
    have "resolving.walks c a (\<Union> ((\<lambda>p. value_facts (snd p)) ` set (value_namespace s)))
        (foldr_res (resolve_value_decl a) (value_namespace s))"
      by (rule resolving.walks_foldr) (rule walks_resolve_value_decl [OF vals])
    then have value_part: "resolving.walks c a (member_facts s) (foldr_res (resolve_value_decl a) (value_namespace s))"
      by (simp add: member_facts_def image_image)
    let ?body = "\<lambda>d. bindr (foldr_res (resolve_type_decl a) (type_namespace s) d)
      (foldr_res (resolve_value_decl a) (value_namespace s))"
    note body = resolving.walks_bind [OF type_part value_part]
    have run: "resolve_scope a c = bindr (?body d) (check_members a im)"
      using Inr q s by (simp add: resolve_scope_def bindr_assoc)
    show ?thesis
    proof (cases "?body d")
      case (Inl e)
      with run resolving.walks_failD [OF body d] show ?thesis by simp
    next
      case (Inr e)
      from resolving.walksD [OF body d Inr] have e: "resolve_inv c a e" "resolve_step d e" "member_facts s \<subseteq> known e"
        by simp_all
      obtain s' where s': "scopes e a = Some s'" "scope_frame s' = scope_frame s" by (rule step_scope [OF e(2) s])
      obtain t where "scopes d a = Some t" "scope_frame t = scope_frame s0"
        using d step_scope [OF _ s0] unfolding resolve_inv_def by metis
      with s scope_frame_fields [OF s'(2)] scope_frame_fields [of s s0]
      have same: "scope_kind s' = scope_kind s0" "value_namespace s' = value_namespace s" by simp_all
      have "case check_members a im e of
         Inr f \<Rightarrow> resolve_step e f
           \<and> (scope_kind s' = Root_scope \<longrightarrow>
                (\<exists>m. map_of (value_namespace s') ''main'' = Some (Function_decl m) \<and> main_known f m))
       | Inl e \<Rightarrow> thrown e"
        by (rule check_members_ok [OF e(1) s'(1)]) (use im same in simp)
      moreover have "scope_resolved f a"
        if f: "resolve_step e f" and main: "scope_kind s' = Root_scope \<longrightarrow>
                (\<exists>m. map_of (value_namespace s') ''main'' = Some (Function_decl m) \<and> main_known f m)" for f
      proof -
        obtain t where t: "scopes f a = Some t" "scope_frame t = scope_frame s'" by (rule step_scope [OF f s'(1)])
        note ft = scope_frame_fields [OF t(2)]
        have "member_facts t \<subseteq> known f"
          using e(3) same(2) ft resolve_step_known [OF f] by (auto simp: member_facts_def)
        moreover have "Self_known a \<in> known f" if "scope_kind t = Impl_scope"
          using im that ft same(1) resolve_step_known [OF f] resolve_step_known [OF e(2)] by auto
        ultimately show ?thesis using t(1) ft main by (auto simp: scope_resolved_def)
      qed
      ultimately show ?thesis
        using run Inr e(1) by (auto split: sum.splits intro: resolve_inv_step)
    qed
  qed
qed

subsection \<open>The recursion\<close>

definition below :: "Semantic_Checker \<Rightarrow> (address \<times> address) set" where
  "below c = {(a, b). \<exists>s. scopes c a = Some s \<and> b \<in> set (children s)}"

lemma step_below:
  assumes "resolve_step c d"
  shows "below d = below c"
proof (intro set_eqI iffI; clarify)
  fix a b assume "(a, b) \<in> below d"
  then obtain t where t: "scopes d a = Some t" "b \<in> set (children t)" by (auto simp: below_def)
  obtain s where "scopes c a = Some s" "scope_frame t = scope_frame s" by (rule step_scope_back [OF assms t(1)])
  with t(2) scope_frame_fields [of t s] show "(a, b) \<in> below c" by (simp add: below_def)
next
  fix a b assume "(a, b) \<in> below c"
  then obtain s where s: "scopes c a = Some s" "b \<in> set (children s)" by (auto simp: below_def)
  obtain t where "scopes d a = Some t" "scope_frame t = scope_frame s" by (rule step_scope [OF assms s(1)])
  with s(2) scope_frame_fields [of t s] show "(a, b) \<in> below d" by (simp add: below_def)
qed

lemma below_child: "store_ok c \<Longrightarrow> (a, b) \<in> below c \<Longrightarrow> child_of c a b"
  by (auto simp: below_def store_ok_def scope_ok_def)

lemma child_ready:
  assumes "store_ok c" and "child_of c a b" and "impls_ready c a"
  shows "b \<in> dom (scopes c)" and "a < b" and "parents_ready c b"
proof -
  obtain s where s: "scopes c b = Some s" "parent s = Some a" using assms(2) by (auto simp: child_of_def)
  then have "scope_ok c b s" using assms(1) by (simp add: store_ok_def)
  with s show "b \<in> dom (scopes c)" "a < b" by (auto simp: scope_ok_def)
  have "p = a" if "(b, p) \<in> above c" for p using that s by (auto simp: above_def)
  with assms(3) show "parents_ready c b" by (auto simp: parents_ready_def)
qed

definition subtree_resolved :: "Semantic_Checker \<Rightarrow> address \<Rightarrow> bool" where
  "subtree_resolved c a \<longleftrightarrow> (\<forall>b. (a, b) \<in> (below c)\<^sup>* \<longrightarrow> scope_resolved c b)"

lemma subtree_resolved_step:
  assumes "resolve_step c d" and "subtree_resolved c a"
  shows "subtree_resolved d a"
  using assms scope_resolved_step [OF assms(1)] by (simp add: subtree_resolved_def step_below [OF assms(1)])

lemma resolve_children:
  assumes visit: "\<And>b c. \<lbrakk>store_ok c; b \<in> dom (scopes c); parents_ready c b; next_address c \<le> b + n\<rbrakk> \<Longrightarrow>
      case f b c of Inr d \<Rightarrow> resolve_step c d \<and> subtree_resolved d b | Inl e \<Rightarrow> thrown e"
    and "store_ok c" and "impls_ready c a" and "\<forall>b \<in> set bs. (a, b) \<in> below c" and "next_address c \<le> Suc (a + n)"
  shows "case foldr_res f bs c of
     Inr d \<Rightarrow> resolve_step c d \<and> (\<forall>b \<in> set bs. subtree_resolved d b)
   | Inl e \<Rightarrow> thrown e"
  using assms(2-)
proof (induction bs arbitrary: c)
  case Nil
  then show ?case by (simp add: resolve_step_refl)
next
  case (Cons b bs)
  have b: "child_of c a b" using below_child [OF Cons.prems(1)] Cons.prems(3) by simp
  note ready = child_ready [OF Cons.prems(1) b Cons.prems(2)]
  have one: "case f b c of Inr d \<Rightarrow> resolve_step c d \<and> subtree_resolved d b | Inl e \<Rightarrow> thrown e"
    using ready Cons.prems(4) by (intro visit Cons.prems(1)) auto
  show ?case
  proof (cases "f b c")
    case (Inl e)
    with one show ?thesis by simp
  next
    case (Inr d)
    with one have d: "resolve_step c d" "subtree_resolved d b" by simp_all
    have rest: "case foldr_res f bs d of
        Inr e \<Rightarrow> resolve_step d e \<and> (\<forall>b \<in> set bs. subtree_resolved e b)
      | Inl e \<Rightarrow> thrown e"
    proof (rule Cons.IH)
      show "store_ok d" by (rule step_store_ok [OF d(1) Cons.prems(1)])
      show "impls_ready d a" by (rule impls_ready_step [OF d(1) Cons.prems(2)])
      show "\<forall>b \<in> set bs. (a, b) \<in> below d" using Cons.prems(3) by (simp add: step_below [OF d(1)])
      show "next_address d \<le> Suc (a + n)" using Cons.prems(4) d(1) by (simp add: resolve_step_def)
    qed
    show ?thesis
    proof (cases "foldr_res f bs d")
      case (Inl e)
      with rest Inr show ?thesis by simp
    next
      case e: (Inr e)
      with rest have "resolve_step d e" "\<forall>b \<in> set bs. subtree_resolved e b" by simp_all
      moreover have "subtree_resolved e b" by (rule subtree_resolved_step [OF \<open>resolve_step d e\<close> d(2)])
      moreover have "resolve_step c e" using d(1) \<open>resolve_step d e\<close> by (rule resolve_step_trans)
      ultimately show ?thesis using Inr e by simp
    qed
  qed
qed

lemma dfs_resolves:
  "store_ok c \<Longrightarrow> a \<in> dom (scopes c) \<Longrightarrow> parents_ready c a \<Longrightarrow> next_address c \<le> a + n \<Longrightarrow>
    case Scope_dfs_and_build_type n a c of
      Inr d \<Rightarrow> resolve_step c d \<and> subtree_resolved d a
    | Inl e \<Rightarrow> thrown e"
proof (induction n arbitrary: a c)
  case 0
  then obtain s where "scopes c a = Some s" by blast
  with 0 have "a < next_address c" by (auto simp: store_ok_def scope_ok_def)
  with 0 show ?case by simp
next
  case (Suc n)
  note here = resolve_scope_ok [OF Suc.prems(1-3)]
  show ?case
  proof (cases "resolve_scope a c")
    case (Inl e)
    with here show ?thesis by simp
  next
    case (Inr d)
    with here have d: "store_ok d" "impls_ready d a" "resolve_step c d" "scope_resolved d a"
      by (simp_all add: resolve_inv_def)
    then obtain s where s: "scopes d a = Some s" by (auto simp: scope_resolved_def)
    have kids: "\<forall>b \<in> set (children s). (a, b) \<in> below d" using s by (simp add: below_def)
    have "next_address d \<le> Suc (a + n)" using Suc.prems(4) d(3) by (simp add: resolve_step_def)
    from resolve_children [where f = "Scope_dfs_and_build_type n" and n = n, OF Suc.IH d(1,2) kids this]
    have loop: "case foldr_res (Scope_dfs_and_build_type n) (children s) d of
        Inr e \<Rightarrow> resolve_step d e \<and> (\<forall>b \<in> set (children s). subtree_resolved e b)
      | Inl e \<Rightarrow> thrown e" by blast
    show ?thesis
    proof (cases "foldr_res (Scope_dfs_and_build_type n) (children s) d")
      case (Inl e)
      with loop Inr s show ?thesis by simp
    next
      case e: (Inr e)
      with loop have step: "resolve_step d e" and sub: "\<forall>b \<in> set (children s). subtree_resolved e b" by simp_all
      have "scope_resolved e b" if "(a, b) \<in> (below e)\<^sup>*" for b
        using that
      proof (cases rule: converse_rtranclE)
        case base
        with scope_resolved_step [OF step d(4)] show ?thesis by simp
      next
        case (step x)
        then have "x \<in> set (children s)" using s by (simp add: below_def step_below [OF \<open>resolve_step d e\<close>, unfolded below_def])
        with sub step(2) show ?thesis by (simp add: subtree_resolved_def)
      qed
      with Inr s e d(3) step show ?thesis
        by (auto simp: subtree_resolved_def intro: resolve_step_trans)
    qed
  qed
qed

subsection \<open>The second step\<close>

definition program_resolved :: "Semantic_Checker \<Rightarrow> bool" where
  "program_resolved c \<longleftrightarrow> subtree_resolved c (root_scope c)
     \<and> map_option scope_kind (scopes c (root_scope c)) = Some Root_scope"

lemma step2_cases:
  assumes "step1_build_scopes_and_collect_symbols items new_checker = Inr c"
  shows "case step2_resolve_types_and_check c of
     Inr d \<Rightarrow> resolve_step c d \<and> store_ok d \<and> program_resolved d
   | Inl e \<Rightarrow> thrown e"
proof -
  have ok: "store_ok c" by (rule scopes_tree [OF assms])
  obtain s where s: "scopes c (root_scope c) = Some s" "parent s = None" "scope_kind s = Root_scope"
    using step1_root [OF assms] by auto
  then have "parents_ready c (root_scope c)" by (auto simp: parents_ready_def above_def)
  from dfs_resolves [OF ok _ this, of "next_address c"] s(1)
  have "case step2_resolve_types_and_check c of
      Inr d \<Rightarrow> resolve_step c d \<and> subtree_resolved d (root_scope c)
    | Inl e \<Rightarrow> thrown e"
    by (auto simp: step2_resolve_types_and_check_def)
  moreover have "program_resolved d" if res: "resolve_step c d" and sub: "subtree_resolved d (root_scope c)" for d
  proof -
    obtain t where "scopes d (root_scope c) = Some t" "scope_frame t = scope_frame s"
      by (rule step_scope [OF res s(1)])
    moreover have "root_scope d = root_scope c" using res by (simp add: resolve_step_def)
    ultimately show ?thesis
      using sub s(3) scope_frame_fields [of t s] by (simp add: program_resolved_def)
  qed
  ultimately show ?thesis
    using step_store_ok [OF _ ok] by (cases "step2_resolve_types_and_check c") simp_all
qed


end
