(* ===== verification/ConstVisitor.thy ===== *)
theory ConstVisitor
  imports Resolve
begin

section \<open>Evaluating constants\<close>

text \<open>
  The visitor \<open>ConstItemVisitor\<close> of \<open>src/semantic/consteval.cpp\<close> and the third step of the
  checker. One visitor does two jobs, told apart by \<open>is_need_to_calculate\<close>: with the flag set,
  the visit of an expression leaves its value in \<open>const_value\<close> and clears the flag; without it,
  the visit only looks for constant items below.
\<close>

record const_visitor =
  is_need_to_calculate :: bool
  const_value :: "ConstValue option"
  sem :: Semantic_Checker

definition need :: "const_visitor \<Rightarrow> const_visitor" where
  "need st = st\<lparr>is_need_to_calculate := True\<rparr>"

definition give :: "ConstValue \<Rightarrow> const_visitor \<Rightarrow> const_visitor res" where
  "give v st = Inr (st\<lparr>const_value := Some v, is_need_to_calculate := False\<rparr>)"

text \<open>\<open>is_need_to_calculate = true; e->accept(*this); v = const_value; const_value = nullptr;\<close>\<close>

definition calc :: "(const_visitor \<Rightarrow> const_visitor res) \<Rightarrow> const_visitor \<Rightarrow> (ConstValue \<times> const_visitor) res" where
  "calc f st =
     bindr (f (need st)) (\<lambda>st. bindr (the_ptr (const_value st)) (\<lambda>v. Inr (v, st\<lparr>const_value := None\<rparr>)))"

primrec calc_all :: "(const_visitor \<Rightarrow> const_visitor res) list \<Rightarrow> const_visitor \<Rightarrow> (ConstValue list \<times> const_visitor) res" where
  "calc_all [] st = Inr ([], st)"
| "calc_all (f # fs) st =
     bindr (calc f st) (\<lambda>(v, st). bindr (calc_all fs st) (\<lambda>(vs, st). Inr (v # vs, st)))"

text \<open>A node that no constant expression may have.\<close>

definition forbid :: "string \<Rightarrow> (const_visitor \<Rightarrow> const_visitor res) \<Rightarrow> const_visitor \<Rightarrow> const_visitor res" where
  "forbid what f st =
     (if is_need_to_calculate st then Inl (Thrown (''CE, '' @ what @ '' not allowed in constant expression''))
      else f st)"

definition set_size_of :: "nat \<Rightarrow> nat \<Rightarrow> Semantic_Checker \<Rightarrow> Semantic_Checker" where
  "set_size_of k n c = c\<lparr>const_expr_to_size_map := (const_expr_to_size_map c)(k \<mapsto> n)\<rparr>"

definition const_of_name :: "Semantic_Checker \<Rightarrow> nat \<Rightarrow> string \<Rightarrow> ConstValue res" where
  "const_of_name c k name =
     bindr (find_const_decl c (node_scope_map c k) name) (\<lambda>d.
       case d of
         None \<Rightarrow> Inl (Thrown (''CE, undefined constant: '' @ name))
       | Some d \<Rightarrow> (case const_value_map c d of
             None \<Rightarrow> Inl (Thrown (''CE, constant not evaluated yet: '' @ name))
           | Some v \<Rightarrow> Inr v))"

definition index_const :: "ConstValue \<Rightarrow> ConstValue \<Rightarrow> ConstValue res" where
  "index_const base i =
     bindr (calc_const_array_size i) (\<lambda>n.
       case base of
         Array_ConstValue elements \<Rightarrow>
           if length elements \<le> n then Inl (Thrown ''CE, array index out of bounds in constant expression'')
           else Inr (elements ! n)
       | _ \<Rightarrow> Inl (Thrown ''CE, base of index expression must be an array in constant expression''))"

definition repeat_const :: "ConstValue \<Rightarrow> ConstValue \<Rightarrow> ConstValue res" where
  "repeat_const v size_value =
     bindr (calc_const_array_size size_value) (\<lambda>n. Inr (Array_ConstValue (replicate n v)))"

text \<open>\<open>const_cast_to_realtype(value, type_map[id])\<close>, which reads the type and the sizes.\<close>

definition cast_to_type_of :: "nat \<Rightarrow> ConstValue \<Rightarrow> Semantic_Checker \<Rightarrow> (ConstValue \<times> Semantic_Checker) res" where
  "cast_to_type_of k v c =
     bindr (the_ptr (type_map c k)) (\<lambda>t.
     bindr (const_cast_to_realtype t v (const_expr_to_size_map c)) (\<lambda>(v, m).
       Inr (v, c\<lparr>const_expr_to_size_map := m\<rparr>)))"

subsection \<open>Constant items\<close>

definition store_const :: "string \<Rightarrow> nat \<Rightarrow> address \<Rightarrow> const_visitor \<Rightarrow> const_visitor res" where
  "store_const name k d st =
     (case const_value st of
        None \<Rightarrow> Inl (Thrown (''CE, failed to evaluate constant: '' @ name))
      | Some v \<Rightarrow> bindr (cast_to_type_of k v (sem st)) (\<lambda>(v, c).
          Inr (st\<lparr>sem := c\<lparr>const_value_map := (const_value_map c)(d \<mapsto> v)\<rparr>,
                  const_value := None, is_need_to_calculate := False\<rparr>)))"

definition const_item :: "nat \<Rightarrow> string \<Rightarrow> nat \<Rightarrow> (const_visitor \<Rightarrow> const_visitor res) \<Rightarrow>
    (const_visitor \<Rightarrow> const_visitor res) \<Rightarrow> const_visitor \<Rightarrow> const_visitor res" where
  "const_item k name type_k ftype fvalue st =
     bindr (ftype (need st)) (\<lambda>st.
     bindr (find_const_decl (sem st) (node_scope_map (sem st) k) name) (\<lambda>d.
       case d of
         None \<Rightarrow> Inl (Thrown (''CE, undefined constant: '' @ name))
       | Some d \<Rightarrow> bindr (fvalue (need st)) (store_const name type_k d)))"

definition const_pattern :: "pattern \<Rightarrow> const_visitor \<Rightarrow> const_visitor res" where
  "const_pattern p = forbid ''pattern'' Inr"

definition const_param :: "pattern \<times> (const_visitor \<Rightarrow> const_visitor res) \<Rightarrow> const_visitor \<Rightarrow> const_visitor res" where
  "const_param p st = bindr (const_pattern (fst p) st) (snd p)"

subsection \<open>The visitor\<close>

primrec const_visit_type :: "type_node \<Rightarrow> const_visitor \<Rightarrow> const_visitor res"
  and const_visit_expr :: "expr \<Rightarrow> const_visitor \<Rightarrow> const_visitor res"
  and const_visit_stmt :: "stmt \<Rightarrow> const_visitor \<Rightarrow> const_visitor res"
  and const_visit_item :: "item \<Rightarrow> const_visitor \<Rightarrow> const_visitor res"
where
  "const_visit_type (PathType _ _ _) st = Inr (st\<lparr>is_need_to_calculate := False\<rparr>)"
| "const_visit_type (ArrayType _ _ t e) st =
     (if is_need_to_calculate st
      then bindr (const_visit_type t st) (\<lambda>st.
        bindr (calc (const_visit_expr e) st) (\<lambda>(v, st).
        bindr (calc_const_array_size v) (\<lambda>n.
          Inr (st\<lparr>is_need_to_calculate := False, sem := set_size_of (expr_id e) n (sem st)\<rparr>))))
      else bindr (const_visit_type t st) (const_visit_expr e))"
| "const_visit_type (UnitType _ _) st = Inr (st\<lparr>is_need_to_calculate := False\<rparr>)"
| "const_visit_type (SelfType _ _) st = forbid ''self type'' Inr st"
| "const_visit_expr (LiteralExpr _ t v) st =
     (if is_need_to_calculate st
      then bindr (parse_literal_token_to_const_value t v) (\<lambda>v. give v st)
      else Inr st)"
| "const_visit_expr (IdentifierExpr k name) st =
     (if is_need_to_calculate st
      then bindr (const_of_name (sem st) k name) (\<lambda>v. give v st)
      else Inr st)"
| "const_visit_expr (BinaryExpr _ OP l r) st =
     (if is_need_to_calculate st
      then bindr (calc (const_visit_expr l) st) (\<lambda>(a, st).
        bindr (calc (const_visit_expr r) st) (\<lambda>(b, st).
        bindr (calc_const_binary_expr OP a b) (\<lambda>v. give v st)))
      else bindr (const_visit_expr l st) (const_visit_expr r))"
| "const_visit_expr (UnaryExpr _ OP r) st =
     (if is_need_to_calculate st
      then bindr (calc (const_visit_expr r) st) (\<lambda>(a, st).
        bindr (calc_const_unary_expr OP a) (\<lambda>v. give v st))
      else const_visit_expr r st)"
| "const_visit_expr (CallExpr _ f args) st =
     forbid ''function call'' (\<lambda>st. bindr (const_visit_expr f st) (visit_all (map const_visit_expr args))) st"
| "const_visit_expr (FieldExpr _ b _) st = forbid ''field access'' (const_visit_expr b) st"
| "const_visit_expr (StructExpr _ t fs) st =
     forbid ''struct construction'' (\<lambda>st. bindr (const_visit_type t st)
       (visit_all (map snd (map (map_prod id const_visit_expr) fs)))) st"
| "const_visit_expr (IndexExpr _ b i) st =
     (if is_need_to_calculate st
      then bindr (calc (const_visit_expr b) st) (\<lambda>(a, st).
        bindr (calc (const_visit_expr i) st) (\<lambda>(n, st).
        bindr (index_const a n) (\<lambda>v. give v st)))
      else bindr (const_visit_expr b st) (const_visit_expr i))"
| "const_visit_expr (BlockExpr _ ss t _) st =
     forbid ''block'' (\<lambda>st. bindr (visit_all (map const_visit_stmt ss) st)
       (visit_opt (map_option const_visit_stmt t))) st"
| "const_visit_expr (IfExpr _ g a b _) st =
     forbid ''if expression'' (\<lambda>st. bindr (const_visit_expr g st) (\<lambda>st. bindr (const_visit_expr a st)
       (visit_opt (map_option const_visit_expr b)))) st"
| "const_visit_expr (WhileExpr _ g b) st =
     forbid ''while loop'' (\<lambda>st. bindr (const_visit_expr g st) (const_visit_expr b)) st"
| "const_visit_expr (LoopExpr _ b _) st = forbid ''loop'' (const_visit_expr b) st"
| "const_visit_expr (ReturnExpr _ v) st = forbid ''return'' (visit_opt (map_option const_visit_expr v)) st"
| "const_visit_expr (BreakExpr _ v) st = forbid ''break'' (visit_opt (map_option const_visit_expr v)) st"
| "const_visit_expr (ContinueExpr _) st = forbid ''continue'' Inr st"
| "const_visit_expr (CastExpr _ e t) st =
     (if is_need_to_calculate st
      then bindr (calc (const_visit_expr e) st) (\<lambda>(a, st).
        bindr (cast_to_type_of (type_id t) a (sem st)) (\<lambda>(v, c). give v (st\<lparr>sem := c\<rparr>)))
      else bindr (const_visit_expr e st) (const_visit_type t))"
| "const_visit_expr (PathExpr _ t _) st = forbid ''path expression'' (const_visit_type t) st"
| "const_visit_expr (SelfExpr _) st = forbid ''self expression'' Inr st"
| "const_visit_expr (UnitExpr _) st = (if is_need_to_calculate st then give Unit_ConstValue st else Inr st)"
| "const_visit_expr (ArrayExpr _ es) st =
     (if is_need_to_calculate st
      then bindr (calc_all (map const_visit_expr es) st) (\<lambda>(vs, st). give (Array_ConstValue vs) st)
      else visit_all (map const_visit_expr es) st)"
| "const_visit_expr (RepeatArrayExpr _ e s) st =
     (if is_need_to_calculate st
      then bindr (calc (const_visit_expr e) st) (\<lambda>(a, st).
        bindr (calc (const_visit_expr s) st) (\<lambda>(n, st).
        bindr (repeat_const a n) (\<lambda>v. give v st)))
      else bindr (const_visit_expr e st) (const_visit_expr s))"
| "const_visit_stmt (LetStmt _ p t e) st =
     forbid ''let statement'' (\<lambda>st. bindr (const_pattern p st) (\<lambda>st. bindr (const_visit_type t st)
       (visit_opt (map_option const_visit_expr e)))) st"
| "const_visit_stmt (ExprStmt _ e _) st = forbid ''expression statement'' (const_visit_expr e) st"
| "const_visit_stmt (ItemStmt _ i) st = forbid ''item statement'' (const_visit_item i) st"
| "const_visit_item (FnItem _ _ _ ps rt b) st =
     forbid ''function definition'' (\<lambda>st.
       bindr (visit_all (map const_param (map (map_prod id const_visit_type) ps)) st) (\<lambda>st.
       bindr (visit_opt (map_option const_visit_type rt) st) (const_visit_expr b))) st"
| "const_visit_item (StructItem _ _ fs) st =
     forbid ''struct definition'' (visit_all (map snd (map (map_prod id const_visit_type) fs))) st"
| "const_visit_item (EnumItem _ _ _) st = forbid ''enum definition'' Inr st"
| "const_visit_item (ImplItem _ _ ms) st = forbid ''impl definition'' (visit_all (map const_visit_item ms)) st"
| "const_visit_item (ConstItem k name t e) st =
     forbid ''const definition'' (const_item k name (type_id t) (const_visit_type t) (const_visit_expr e)) st"

subsection \<open>The third step\<close>

text \<open>The sizes that are still missing are evaluated from the queue.\<close>

definition eval_queued :: "expr \<Rightarrow> Semantic_Checker \<Rightarrow> Semantic_Checker res" where
  "eval_queued e c =
     (if const_expr_to_size_map c (expr_id e) = None
      then bindr (const_visit_expr e \<lparr>is_need_to_calculate = True, const_value = None, sem = c\<rparr>) (\<lambda>st.
        bindr (the_ptr (const_value st)) (\<lambda>v.
        bindr (calc_const_array_size v) (\<lambda>n. Inr (set_size_of (expr_id e) n (sem st)))))
      else Inr c)"

definition eval_consts :: "item list \<Rightarrow> Semantic_Checker \<Rightarrow> Semantic_Checker res" where
  "eval_consts items c =
     bindr (visit_all (map const_visit_item items) \<lparr>is_need_to_calculate = False, const_value = None, sem = c\<rparr>)
       (\<lambda>st. Inr (sem st))"

definition step3_constant_evaluation_and_control_flow_analysis :: "item list \<Rightarrow> Semantic_Checker \<Rightarrow> Semantic_Checker res" where
  "step3_constant_evaluation_and_control_flow_analysis items c =
     bindr (visit_all (map other_item items) c) (\<lambda>c.
     bindr (eval_consts items c) (\<lambda>c.
     bindr (foldr_res eval_queued (const_expr_queue c) c) (\<lambda>c.
     bindr (control_flow items) (\<lambda>outcomes. Inr (c\<lparr>checker_outcome_map := outcomes\<rparr>)))))"

end
