(* ===== verification/ConstVisitorProps.thy ===== *)
theory ConstVisitorProps
  imports ConstVisitor ConstProps
begin

section \<open>The constant visitor as an evaluator\<close>

text \<open>
  The visitor \<open>ConstItemVisitor\<close> passes results through \<open>const_value\<close> and its mode through
  \<open>is_need_to_calculate\<close>. Here is what it computes, without this protocol: a recursive
  evaluator of constant expressions, and a pass over the list of constant items.
\<close>

definition sizes :: "Semantic_Checker \<Rightarrow> size_map" where
  "sizes c = const_expr_to_size_map c"

definition with_sizes :: "size_map \<Rightarrow> Semantic_Checker \<Rightarrow> Semantic_Checker" where
  "with_sizes m c = c\<lparr>const_expr_to_size_map := m\<rparr>"

lemma with_sizes_simps [simp]:
  "with_sizes m (with_sizes m' c) = with_sizes m c" "sizes (with_sizes m c) = m"
  "with_sizes (sizes c) c = c" "const_expr_to_size_map (with_sizes m c) = m"
  "node_scope_map (with_sizes m c) = node_scope_map c" "type_map (with_sizes m c) = type_map c"
  "const_value_map (with_sizes m c) = const_value_map c"
  "find_const_decl (with_sizes m c) = find_const_decl c"
  "const_of_name (with_sizes m c) = const_of_name c"
  "set_size_of k n (with_sizes m c) = with_sizes (m(k \<mapsto> n)) c"
  by (simp_all add: with_sizes_def sizes_def find_const_decl_def [abs_def] const_of_name_def [abs_def]
      search_def [abs_def] set_size_of_def)

definition not_const :: "string \<Rightarrow> err" where
  "not_const what = Thrown (''CE, '' @ what @ '' not allowed in constant expression'')"

primrec const_eval :: "Semantic_Checker \<Rightarrow> expr \<Rightarrow> size_map \<Rightarrow> (ConstValue \<times> size_map) res" where
  "const_eval c (LiteralExpr _ t v) m = bindr (parse_literal_token_to_const_value t v) (\<lambda>v. Inr (v, m))"
| "const_eval c (IdentifierExpr k name) m = bindr (const_of_name c k name) (\<lambda>v. Inr (v, m))"
| "const_eval c (BinaryExpr _ OP l r) m =
     bindr (const_eval c l m) (\<lambda>(a, m). bindr (const_eval c r m) (\<lambda>(b, m).
     bindr (calc_const_binary_expr OP a b) (\<lambda>v. Inr (v, m))))"
| "const_eval c (UnaryExpr _ OP r) m =
     bindr (const_eval c r m) (\<lambda>(a, m). bindr (calc_const_unary_expr OP a) (\<lambda>v. Inr (v, m)))"
| "const_eval c (CallExpr _ _ _) m = Inl (not_const ''function call'')"
| "const_eval c (FieldExpr _ _ _) m = Inl (not_const ''field access'')"
| "const_eval c (StructExpr _ _ _) m = Inl (not_const ''struct construction'')"
| "const_eval c (IndexExpr _ b i) m =
     bindr (const_eval c b m) (\<lambda>(a, m). bindr (const_eval c i m) (\<lambda>(n, m).
     bindr (index_const a n) (\<lambda>v. Inr (v, m))))"
| "const_eval c (BlockExpr _ _ _ _) m = Inl (not_const ''block'')"
| "const_eval c (IfExpr _ _ _ _ _) m = Inl (not_const ''if expression'')"
| "const_eval c (WhileExpr _ _ _) m = Inl (not_const ''while loop'')"
| "const_eval c (LoopExpr _ _ _) m = Inl (not_const ''loop'')"
| "const_eval c (ReturnExpr _ _) m = Inl (not_const ''return'')"
| "const_eval c (BreakExpr _ _) m = Inl (not_const ''break'')"
| "const_eval c (ContinueExpr _) m = Inl (not_const ''continue'')"
| "const_eval c (CastExpr _ e t) m =
     bindr (const_eval c e m) (\<lambda>(a, m).
     bindr (the_ptr (type_map c (type_id t))) (\<lambda>ty. const_cast_to_realtype ty a m))"
| "const_eval c (PathExpr _ _ _) m = Inl (not_const ''path expression'')"
| "const_eval c (SelfExpr _) m = Inl (not_const ''self expression'')"
| "const_eval c (UnitExpr _) m = Inr (Unit_ConstValue, m)"
| "const_eval c (ArrayExpr _ es) m =
     bindr (cast_all (map (const_eval c) es) m) (\<lambda>(vs, m). Inr (Array_ConstValue vs, m))"
| "const_eval c (RepeatArrayExpr _ e s) m =
     bindr (const_eval c e m) (\<lambda>(a, m). bindr (const_eval c s m) (\<lambda>(n, m).
     bindr (repeat_const a n) (\<lambda>v. Inr (v, m))))"

text \<open>The sizes of an array type.\<close>

fun type_sizes :: "Semantic_Checker \<Rightarrow> type_node \<Rightarrow> size_map \<Rightarrow> size_map res" where
  "type_sizes c (PathType _ _ _) m = Inr m"
| "type_sizes c (UnitType _ _) m = Inr m"
| "type_sizes c (SelfType _ _) m = Inl (not_const ''self type'')"
| "type_sizes c (ArrayType _ _ t e) m =
     bindr (type_sizes c t m) (\<lambda>m. bindr (const_eval c e m) (\<lambda>(v, m).
     bindr (calc_const_array_size v) (\<lambda>n. Inr (m(expr_id e \<mapsto> n)))))"

definition visitor :: "bool \<Rightarrow> ConstValue option \<Rightarrow> Semantic_Checker \<Rightarrow> const_visitor" where
  "visitor b v c = \<lparr>is_need_to_calculate = b, const_value = v, sem = c\<rparr>"

lemma visitor_simps [simp]:
  "is_need_to_calculate (visitor b v c) = b" "const_value (visitor b v c) = v" "sem (visitor b v c) = c"
  "need (visitor b v c) = visitor True v c" "give w (visitor b v c) = Inr (visitor False (Some w) c)"
  "(visitor b v c)\<lparr>sem := d\<rparr> = visitor b v d" "(visitor b v c)\<lparr>const_value := v'\<rparr> = visitor b v' c"
  "(visitor b v c)\<lparr>is_need_to_calculate := b'\<rparr> = visitor b' v c"
  by (simp_all add: visitor_def need_def give_def)

lemma visitor_cases: obtains b v c where "st = visitor b v c"
  by (cases st) (auto simp: visitor_def)

definition evaluates :: "Semantic_Checker \<Rightarrow> (const_visitor \<Rightarrow> const_visitor res) \<Rightarrow> (size_map \<Rightarrow> (ConstValue \<times> size_map) res) \<Rightarrow> bool" where
  "evaluates c f g \<longleftrightarrow> (\<forall>v m. f (visitor True v (with_sizes m c)) =
     bindr (g m) (\<lambda>(w, m). Inr (visitor False (Some w) (with_sizes m c))))"

lemma evaluatesI:
  "(\<And>v m. f (visitor True v (with_sizes m c)) =
      bindr (g m) (\<lambda>(w, m). Inr (visitor False (Some w) (with_sizes m c)))) \<Longrightarrow> evaluates c f g"
  by (simp add: evaluates_def)

lemma evaluatesD:
  "evaluates c f g \<Longrightarrow> calc f (visitor b v (with_sizes m c)) = bindr (g m) (\<lambda>(w, m). Inr (w, visitor False None (with_sizes m c)))"
  by (auto simp: evaluates_def calc_def bindr_assoc case_prod_beta intro!: bindr_cong)

lemma calc_all_evaluates:
  assumes "\<And>x. x \<in> set xs \<Longrightarrow> evaluates c (f x) (g x)"
  shows "calc_all (map f xs) (visitor b v (with_sizes m c)) =
    bindr (cast_all (map g xs) m) (\<lambda>(ws, m). Inr (ws, visitor (b \<and> xs = []) (if xs = [] then v else None) (with_sizes m c)))"
  using assms
proof (induction xs arbitrary: b v m)
  case Nil
  then show ?case by simp
next
  case (Cons x xs)
  have "evaluates c (f x) (g x)" using Cons.prems by simp
  moreover have "calc_all (map f xs) (visitor b v (with_sizes m c)) =
      bindr (cast_all (map g xs) m) (\<lambda>(ws, m). Inr (ws, visitor (b \<and> xs = []) (if xs = [] then v else None) (with_sizes m c)))" for b v m
    by (rule Cons.IH) (simp add: Cons.prems)
  ultimately show ?case
    by (simp add: evaluatesD bindr_assoc case_prod_beta)
qed

lemma visit_evaluates: "evaluates c (const_visit_expr e) (const_eval c e)"
proof (induction e rule: expr.induct [of "\<lambda>_. True" _ "\<lambda>_. True" "\<lambda>_. True"])
  case (ArrayExpr k es)
  have "evaluates c (const_visit_expr x) (const_eval c x)" if "x \<in> set es" for x
    using ArrayExpr that by blast
  from calc_all_evaluates [of es c const_visit_expr "const_eval c", OF this] show ?case
    by (intro evaluatesI) (simp add: bindr_assoc case_prod_beta)
qed ((rule evaluatesI)?, simp add: evaluatesD bindr_assoc case_prod_unfold forbid_def
      not_const_def cast_to_type_of_def with_sizes_def [symmetric])+

subsection \<open>The constant items of a program\<close>

text \<open>The constant items in the order in which the visitor comes to them.\<close>

type_synonym const_def = "nat \<times> string \<times> type_node \<times> expr"

primrec consts_type :: "type_node \<Rightarrow> const_def list"
  and consts_expr :: "expr \<Rightarrow> const_def list"
  and consts_stmt :: "stmt \<Rightarrow> const_def list"
  and consts_item :: "item \<Rightarrow> const_def list"
where
  "consts_type (PathType _ _ _) = []"
| "consts_type (ArrayType _ _ t e) = consts_type t @ consts_expr e"
| "consts_type (UnitType _ _) = []"
| "consts_type (SelfType _ _) = []"
| "consts_expr (LiteralExpr _ _ _) = []"
| "consts_expr (IdentifierExpr _ _) = []"
| "consts_expr (BinaryExpr _ _ l r) = consts_expr l @ consts_expr r"
| "consts_expr (UnaryExpr _ _ r) = consts_expr r"
| "consts_expr (CallExpr _ f args) = consts_expr f @ concat (map consts_expr args)"
| "consts_expr (FieldExpr _ b _) = consts_expr b"
| "consts_expr (StructExpr _ t fs) = consts_type t @ concat (map snd (map (map_prod id consts_expr) fs))"
| "consts_expr (IndexExpr _ b i) = consts_expr b @ consts_expr i"
| "consts_expr (BlockExpr _ ss t _) = concat (map consts_stmt ss) @ opt_list (map_option consts_stmt t)"
| "consts_expr (IfExpr _ g a b _) = consts_expr g @ consts_expr a @ opt_list (map_option consts_expr b)"
| "consts_expr (WhileExpr _ g b) = consts_expr g @ consts_expr b"
| "consts_expr (LoopExpr _ b _) = consts_expr b"
| "consts_expr (ReturnExpr _ v) = opt_list (map_option consts_expr v)"
| "consts_expr (BreakExpr _ v) = opt_list (map_option consts_expr v)"
| "consts_expr (ContinueExpr _) = []"
| "consts_expr (CastExpr _ e t) = consts_expr e @ consts_type t"
| "consts_expr (PathExpr _ t _) = consts_type t"
| "consts_expr (SelfExpr _) = []"
| "consts_expr (UnitExpr _) = []"
| "consts_expr (ArrayExpr _ es) = concat (map consts_expr es)"
| "consts_expr (RepeatArrayExpr _ e s) = consts_expr e @ consts_expr s"
| "consts_stmt (LetStmt _ _ t e) = consts_type t @ opt_list (map_option consts_expr e)"
| "consts_stmt (ExprStmt _ e _) = consts_expr e"
| "consts_stmt (ItemStmt _ i) = consts_item i"
| "consts_item (FnItem _ _ _ ps rt b) =
     concat (map snd (map (map_prod id consts_type) ps)) @ opt_list (map_option consts_type rt) @ consts_expr b"
| "consts_item (StructItem _ _ fs) = concat (map snd (map (map_prod id consts_type) fs))"
| "consts_item (EnumItem _ _ _) = []"
| "consts_item (ImplItem _ _ ms) = concat (map consts_item ms)"
| "consts_item (ConstItem k n t e) = [(k, n, t, e)]"

text \<open>What becomes of one of them: the sizes in its type, its value, and the conversion to its type.\<close>

definition eval_const :: "const_def \<Rightarrow> Semantic_Checker \<Rightarrow> Semantic_Checker res" where
  "eval_const = (\<lambda>(k, name, t, e) c.
     bindr (type_sizes c t (sizes c)) (\<lambda>m.
     bindr (find_const_decl c (node_scope_map c k) name) (\<lambda>d.
       case d of
         None \<Rightarrow> Inl (Thrown (''CE, undefined constant: '' @ name))
       | Some d \<Rightarrow>
           bindr (const_eval c e m) (\<lambda>(v, m).
           bindr (the_ptr (type_map c (type_id t))) (\<lambda>ty.
           bindr (const_cast_to_realtype ty v m) (\<lambda>(v, m).
             Inr ((with_sizes m c)\<lparr>const_value_map := (const_value_map c)(d \<mapsto> v)\<rparr>)))))))"

lemma const_type_sizes:
  "const_visit_type t (visitor True None (with_sizes m c)) =
     bindr (type_sizes c t m) (\<lambda>m. Inr (visitor False None (with_sizes m c)))"
proof (induction c t m rule: type_sizes.induct)
  case (4 c k r t e m)
  then show ?case
    by (simp add: bindr_assoc case_prod_unfold evaluatesD [OF visit_evaluates])
qed (simp_all add: forbid_def not_const_def)

definition passes :: "(const_visitor \<Rightarrow> const_visitor res) \<Rightarrow> const_def list \<Rightarrow> bool" where
  "passes f ds \<longleftrightarrow> (\<forall>c. f (visitor False None c) = bindr (foldr_res eval_const ds c) (\<lambda>c. Inr (visitor False None c)))"

lemma passesI:
  "(\<And>c. f (visitor False None c) = g (visitor False None c)) \<Longrightarrow> passes g ds \<Longrightarrow> passes f ds"
  by (simp add: passes_def)

lemma passes_nil: "passes Inr []"
  by (simp add: passes_def)

lemma passes_bind:
  "passes f ds \<Longrightarrow> passes g es \<Longrightarrow> passes (\<lambda>st. bindr (f st) g) (ds @ es)"
  by (simp add: passes_def foldr_res_append bindr_assoc)

lemma passes_all:
  "(\<And>x. x \<in> set xs \<Longrightarrow> passes (f x) (ds x)) \<Longrightarrow> passes (visit_all (map f xs)) (concat (map ds xs))"
proof (induction xs)
  case Nil
  then show ?case by (simp add: passes_def)
next
  case (Cons x xs)
  then have "passes (f x) (ds x)" "passes (visit_all (map f xs)) (concat (map ds xs))" by simp_all
  from passes_bind [OF this] show ?case by (simp add: passes_def)
qed

lemma passes_opt:
  "(\<And>x. x \<in> set_option v \<Longrightarrow> passes (f x) (ds x)) \<Longrightarrow>
    passes (visit_opt (map_option f v)) (opt_list (map_option ds v))"
  by (cases v) (simp_all add: passes_def)

lemma passes_fields:
  assumes "\<And>p x. p \<in> set xs \<Longrightarrow> x \<in> Basic_BNFs.snds p \<Longrightarrow> passes (f x) (ds x)"
  shows "passes (visit_all (map snd (map (map_prod id f) xs))) (concat (map snd (map (map_prod id ds) xs)))"
proof -
  have "passes (f (snd p)) (ds (snd p))" if "p \<in> set xs" for p
    using assms [OF that, of "snd p"] by (cases p) simp
  from passes_all [of xs "\<lambda>p. f (snd p)" "\<lambda>p. ds (snd p)", OF this] show ?thesis by (simp add: comp_def)
qed

lemma passes_params:
  assumes "\<And>p x. p \<in> set xs \<Longrightarrow> x \<in> Basic_BNFs.snds p \<Longrightarrow> passes (f x) (ds x)"
  shows "passes (visit_all (map const_param (map (map_prod id f) xs))) (concat (map snd (map (map_prod id ds) xs)))"
proof -
  have "passes (const_param (fst p, f (snd p))) (ds (snd p))" if "p \<in> set xs" for p
    using assms [OF that, of "snd p"]
    by (cases p) (simp add: passes_def const_param_def const_pattern_def forbid_def)
  from passes_all [of xs "\<lambda>p. const_param (fst p, f (snd p))" "\<lambda>p. ds (snd p)", OF this]
  show ?thesis by (simp add: comp_def map_prod_def case_prod_unfold)
qed

lemma passes_const:
  "passes (const_item k name (type_id t) (const_visit_type t) (const_visit_expr e)) [(k, name, t, e)]"
  unfolding passes_def
proof
  fix c
  have ty: "const_visit_type t (visitor True None c) =
      bindr (type_sizes c t (sizes c)) (\<lambda>m. Inr (visitor False None (with_sizes m c)))"
    using const_type_sizes [of t "sizes c" c] by simp
  have ev: "const_visit_expr e (visitor True None (with_sizes m c)) =
      bindr (const_eval c e m) (\<lambda>(w, m). Inr (visitor False (Some w) (with_sizes m c)))" for m
    using visit_evaluates by (simp add: evaluates_def)
  have store: "store_const name (type_id t) d (visitor False (Some v) (with_sizes m c)) =
      bindr (the_ptr (type_map c (type_id t))) (\<lambda>ty. bindr (const_cast_to_realtype ty v m) (\<lambda>(v, m).
        Inr (visitor False None ((with_sizes m c)\<lparr>const_value_map := (const_value_map c)(d \<mapsto> v)\<rparr>))))" for d v m
    by (simp add: store_const_def cast_to_type_of_def bindr_assoc case_prod_unfold with_sizes_def [symmetric])
  show "const_item k name (type_id t) (const_visit_type t) (const_visit_expr e) (visitor False None c) =
      bindr (foldr_res eval_const [(k, name, t, e)] c) (\<lambda>c. Inr (visitor False None c))"
    by (simp add: const_item_def eval_const_def ty bindr_assoc)
      (auto simp: ev store bindr_assoc case_prod_unfold split: option.split intro!: bindr_cong)
qed

lemmas passes_rules =
  passes_nil passes_bind passes_all passes_opt passes_const

lemma visits_pass:
  "passes (const_visit_type t) (consts_type t)"
  "passes (const_visit_expr e) (consts_expr e)"
  "passes (const_visit_stmt s) (consts_stmt s)"
  "passes (const_visit_item i) (consts_item i)"
proof (induction t and e and s and i)
  case (ArrayType k r t e)
  show ?case
    unfolding consts_type.simps
    by (rule passesI [rotated], (rule passes_fields passes_rules ArrayType | assumption)+)
      (simp add: forbid_def const_pattern_def)
next
  case (BinaryExpr k op l r)
  show ?case
    unfolding consts_expr.simps
    by (rule passesI [rotated], (rule passes_fields passes_rules BinaryExpr | assumption)+)
      (simp add: forbid_def const_pattern_def)
next
  case (UnaryExpr k op r)
  show ?case
    unfolding consts_expr.simps
    by (rule passesI [rotated], (rule passes_fields passes_rules UnaryExpr | assumption)+)
      (simp add: forbid_def const_pattern_def)
next
  case (CallExpr k c args)
  show ?case
    unfolding consts_expr.simps
    by (rule passesI [rotated], (rule passes_fields passes_rules CallExpr | assumption)+)
      (simp add: forbid_def const_pattern_def)
next
  case (FieldExpr k b n)
  show ?case
    unfolding consts_expr.simps
    by (rule passesI [rotated], (rule passes_fields passes_rules FieldExpr | assumption)+)
      (simp add: forbid_def const_pattern_def)
next
  case (StructExpr k t fs)
  show ?case
    unfolding consts_expr.simps
    by (rule passesI [rotated], (rule passes_fields passes_rules StructExpr | assumption)+)
      (simp add: forbid_def const_pattern_def)
next
  case (IndexExpr k b i)
  show ?case
    unfolding consts_expr.simps
    by (rule passesI [rotated], (rule passes_fields passes_rules IndexExpr | assumption)+)
      (simp add: forbid_def const_pattern_def)
next
  case (BlockExpr k ss t u)
  show ?case
    unfolding consts_expr.simps
    by (rule passesI [rotated], (rule passes_fields passes_rules BlockExpr | assumption)+)
      (simp add: forbid_def const_pattern_def)
next
  case (IfExpr k c a b u)
  show ?case
    unfolding consts_expr.simps
    by (rule passesI [rotated], (rule passes_fields passes_rules IfExpr | assumption)+)
      (simp add: forbid_def const_pattern_def)
next
  case (WhileExpr k c b)
  show ?case
    unfolding consts_expr.simps
    by (rule passesI [rotated], (rule passes_fields passes_rules WhileExpr | assumption)+)
      (simp add: forbid_def const_pattern_def)
next
  case (LoopExpr k b u)
  show ?case
    unfolding consts_expr.simps
    by (rule passesI [rotated], (rule passes_fields passes_rules LoopExpr | assumption)+)
      (simp add: forbid_def const_pattern_def)
next
  case (ReturnExpr k v)
  show ?case
    unfolding consts_expr.simps
    by (rule passesI [rotated], (rule passes_fields passes_rules ReturnExpr | assumption)+)
      (simp add: forbid_def const_pattern_def)
next
  case (BreakExpr k v)
  show ?case
    unfolding consts_expr.simps
    by (rule passesI [rotated], (rule passes_fields passes_rules BreakExpr | assumption)+)
      (simp add: forbid_def const_pattern_def)
next
  case (CastExpr k e t)
  show ?case
    unfolding consts_expr.simps
    by (rule passesI [rotated], (rule passes_fields passes_rules CastExpr | assumption)+)
      (simp add: forbid_def const_pattern_def)
next
  case (PathExpr k t n)
  show ?case
    unfolding consts_expr.simps
    by (rule passesI [rotated], (rule passes_fields passes_rules PathExpr | assumption)+)
      (simp add: forbid_def const_pattern_def)
next
  case (ArrayExpr k es)
  show ?case
    unfolding consts_expr.simps
    by (rule passesI [rotated], (rule passes_fields passes_rules ArrayExpr | assumption)+)
      (simp add: forbid_def const_pattern_def)
next
  case (RepeatArrayExpr k e n)
  show ?case
    unfolding consts_expr.simps
    by (rule passesI [rotated], (rule passes_fields passes_rules RepeatArrayExpr | assumption)+)
      (simp add: forbid_def const_pattern_def)
next
  case (LetStmt k p t e)
  show ?case
    unfolding consts_stmt.simps
    by (rule passesI [rotated], (rule passes_fields passes_rules LetStmt | assumption)+)
      (simp add: forbid_def const_pattern_def)
next
  case (ExprStmt k e u)
  show ?case
    unfolding consts_stmt.simps
    by (rule passesI [rotated], (rule passes_fields passes_rules ExprStmt | assumption)+)
      (simp add: forbid_def const_pattern_def)
next
  case (ItemStmt k i)
  show ?case
    unfolding consts_stmt.simps
    by (rule passesI [rotated], (rule passes_fields passes_rules ItemStmt | assumption)+)
      (simp add: forbid_def const_pattern_def)
next
  case (FnItem k n r ps rt b)
  show ?case
    unfolding consts_item.simps
    by (rule passesI [rotated], (rule passes_params passes_rules FnItem | assumption)+)
      (simp add: forbid_def const_pattern_def)
next
  case (StructItem k n fs)
  show ?case
    unfolding consts_item.simps
    by (rule passesI [rotated], (rule passes_fields passes_rules StructItem | assumption)+)
      (simp add: forbid_def const_pattern_def)
next
  case (ImplItem k n ms)
  show ?case
    unfolding consts_item.simps
    by (rule passesI [rotated], (rule passes_fields passes_rules ImplItem | assumption)+)
      (simp add: forbid_def const_pattern_def)
next
  case (ConstItem k n t e)
  show ?case
    unfolding consts_item.simps
    by (rule passesI [rotated], (rule passes_fields passes_rules | assumption)+)
      (simp add: forbid_def const_pattern_def)
qed (simp_all add: passes_def forbid_def)

lemma const_pass: "eval_consts items c = foldr_res eval_const (concat (map consts_item items)) c"
proof -
  have "passes (visit_all (map const_visit_item items)) (concat (map consts_item items))"
    by (rule passes_all) (rule visits_pass)
  then show ?thesis
    by (simp add: eval_consts_def passes_def visitor_def bindr_assoc)
qed

lemma const_pass_steps: "eval_consts [ConstItem k name t e] c = eval_const (k, name, t, e) c"
  by (cases "eval_const (k, name, t, e) c") (simp_all add: const_pass)

section \<open>Properties\<close>

text \<open>
  C25. Visiting an expression with \<open>is_need_to_calculate\<close> set is evaluating it: from any state
  of the visitor the visit ends with the value, or the error, that the recursive evaluator
  \<open>const_eval\<close> gives, with the flag cleared, the value in \<open>const_value\<close>, and nothing else
  of the checker changed than the sizes that the conversions have looked up.
\<close>

theorem const_visit_evaluates:
  "const_visit_expr e \<lparr>is_need_to_calculate = True, const_value = v, sem = c\<rparr> =
     bindr (const_eval c e (const_expr_to_size_map c)) (\<lambda>(w, m).
       Inr \<lparr>is_need_to_calculate = False, const_value = Some w, sem = c\<lparr>const_expr_to_size_map := m\<rparr>\<rparr>)"
proof -
  have "const_visit_expr e (visitor True v (with_sizes (sizes c) c)) =
      bindr (const_eval c e (sizes c)) (\<lambda>(w, m). Inr (visitor False (Some w) (with_sizes m c)))"
    using visit_evaluates [of c e] unfolding evaluates_def by blast
  then show ?thesis by (simp add: visitor_def with_sizes_def) (simp add: sizes_def)
qed

text \<open>
  C26. The visitor finds the constant items wherever they are nested, in functions, blocks,
  types and arguments, and evaluates them one after the other in the order of the program text:
  the pass over a program is the loop over this list.
\<close>

theorem const_pass_in_order:
  "eval_consts items c = foldr_res eval_const (concat (map consts_item items)) c"
  by (rule const_pass)

text \<open>
  C27. When the visitor accepts a constant item, the declaration that its name resolves to has a
  value of the declared type, and no other constant has changed.
\<close>

theorem const_item_typed:
  "case eval_consts [ConstItem k name t e] c of
     Inr d \<Rightarrow>
       (case (find_const_decl c (node_scope_map c k) name, type_map c (type_id t)) of
          (Inr (Some a), Some ty) \<Rightarrow>
            (case const_value_map d a of
               Some v \<Rightarrow> const_has_type ty (const_expr_to_size_map d) v
                 \<and> const_value_map d = (const_value_map c)(a \<mapsto> v)
             | None \<Rightarrow> False)
        | _ \<Rightarrow> False)
   | Inl _ \<Rightarrow> True"
proof (cases "eval_const (k, name, t, e) c")
  case (Inl err)
  then show ?thesis unfolding const_pass_steps by simp
next
  case (Inr d)
  then obtain m a w m1 ty v m2 where run: "find_const_decl c (node_scope_map c k) name = Inr (Some a)"
      "const_eval c e m = Inr (w, m1)" "type_map c (type_id t) = Some ty"
      "const_cast_to_realtype ty w m1 = Inr (v, m2)"
      "d = (with_sizes m2 c)\<lparr>const_value_map := (const_value_map c)(a \<mapsto> v)\<rparr>"
    by (auto simp: eval_const_def res_simps split: option.splits)
  from const_cast_typed [of ty w m1] run(4) have "const_has_type ty m2 v" by simp
  with Inr run show ?thesis unfolding const_pass_steps by (simp add: with_sizes_def)
qed

end
