(* ===== verification/TypeCheck.thy ===== *)
theory TypeCheck
  imports ConstVisitor
begin

section \<open>Checking the types of expressions\<close>

text \<open>
  The visitors \<open>ArrayTypeVisitor\<close> and \<open>ExprTypeAndLetStmtVisitor\<close> of
  \<open>src/semantic/typecheck.cpp\<close>. The first writes the sizes into the array types; the second
  gives every expression its type and place kind, resolves names and calls, introduces the
  local variables and checks assignments, casts, loops, returns and the use of \<open>exit\<close>.
\<close>

subsection \<open>The sizes of array types\<close>

text \<open>
  The types are shared objects in the code, and the size that \<open>ArrayTypeVisitor\<close> writes is seen
  through every pointer to the array type. A node of the syntax has one array type, which is
  the one with its size expression, so that the write changes all types with this expression.
\<close>

primrec fill_size :: "nat \<Rightarrow> nat \<Rightarrow> RealType \<Rightarrow> RealType" where
  "fill_size k n (ArrayRealType r t e m) =
     ArrayRealType r (fill_size k n t) e (if map_option expr_id e = Some k then n else m)"
| "fill_size k n (UnitRealType r) = UnitRealType r"
| "fill_size k n (NeverRealType r) = NeverRealType r"
| "fill_size k n (StructRealType r s d) = StructRealType r s d"
| "fill_size k n (EnumRealType r s d) = EnumRealType r s d"
| "fill_size k n (BoolRealType r) = BoolRealType r"
| "fill_size k n (I32RealType r) = I32RealType r"
| "fill_size k n (IsizeRealType r) = IsizeRealType r"
| "fill_size k n (U32RealType r) = U32RealType r"
| "fill_size k n (UsizeRealType r) = UsizeRealType r"
| "fill_size k n (AnyIntRealType r) = AnyIntRealType r"
| "fill_size k n (CharRealType r) = CharRealType r"
| "fill_size k n (StrRealType r) = StrRealType r"
| "fill_size k n (StringRealType r) = StringRealType r"
| "fill_size k n (FunctionRealType r d) = FunctionRealType r d"

definition fill_sizes :: "nat \<Rightarrow> nat \<Rightarrow> Semantic_Checker \<Rightarrow> Semantic_Checker" where
  "fill_sizes k n c =
     (let fill = fill_size k n
      in c\<lparr>type_map := map_option fill \<circ> type_map c,
           struct_decls := map_option (\<lambda>d. d\<lparr>struct_fields := map (apsnd fill) (struct_fields d)\<rparr>) \<circ> struct_decls c,
           fn_decls := map_option (\<lambda>d. d\<lparr>parameters := map (apsnd fill) (parameters d),
                                         return_type := map_option fill (return_type d)\<rparr>) \<circ> fn_decls c,
           const_decls := map_option (\<lambda>d. d\<lparr>const_type := map_option fill (const_type d)\<rparr>) \<circ> const_decls c\<rparr>)"

definition set_array_size :: "nat \<Rightarrow> nat \<Rightarrow> Semantic_Checker \<Rightarrow> Semantic_Checker res" where
  "set_array_size k e c =
     (case type_map c k of
        Some (ArrayRealType _ _ _ _) \<Rightarrow>
          (case const_expr_to_size_map c e of
             Some n \<Rightarrow> Inr (fill_sizes e n c)
           | None \<Rightarrow> Inl (Thrown ''Error, cannot find array size''))
      | _ \<Rightarrow> Inl AssertFail)"

primrec array_type :: "type_node \<Rightarrow> Semantic_Checker \<Rightarrow> Semantic_Checker res"
  and array_expr :: "expr \<Rightarrow> Semantic_Checker \<Rightarrow> Semantic_Checker res"
  and array_stmt :: "stmt \<Rightarrow> Semantic_Checker \<Rightarrow> Semantic_Checker res"
  and array_item :: "item \<Rightarrow> Semantic_Checker \<Rightarrow> Semantic_Checker res"
where
  "array_type (PathType _ _ _) c = Inr c"
| "array_type (ArrayType k _ t e) c =
     bindr (set_array_size k (expr_id e) c) (\<lambda>c. bindr (array_type t c) (array_expr e))"
| "array_type (UnitType _ _) c = Inr c"
| "array_type (SelfType _ _) c = Inr c"
| "array_expr (LiteralExpr _ _ _) c = Inr c"
| "array_expr (IdentifierExpr _ _) c = Inr c"
| "array_expr (BinaryExpr _ _ l r) c = bindr (array_expr l c) (array_expr r)"
| "array_expr (UnaryExpr _ _ r) c = array_expr r c"
| "array_expr (CallExpr _ f args) c = bindr (array_expr f c) (visit_all (map array_expr args))"
| "array_expr (FieldExpr _ b _) c = array_expr b c"
| "array_expr (StructExpr _ t fs) c =
     bindr (array_type t c) (visit_all (map snd (map (map_prod id array_expr) fs)))"
| "array_expr (IndexExpr _ b i) c = bindr (array_expr b c) (array_expr i)"
| "array_expr (BlockExpr _ ss t _) c =
     bindr (visit_all (map array_stmt ss) c) (visit_opt (map_option array_stmt t))"
| "array_expr (IfExpr _ g a b _) c =
     bindr (array_expr g c) (\<lambda>c. bindr (array_expr a c) (visit_opt (map_option array_expr b)))"
| "array_expr (WhileExpr _ g b) c = bindr (array_expr g c) (array_expr b)"
| "array_expr (LoopExpr _ b _) c = array_expr b c"
| "array_expr (ReturnExpr _ v) c = visit_opt (map_option array_expr v) c"
| "array_expr (BreakExpr _ v) c = visit_opt (map_option array_expr v) c"
| "array_expr (ContinueExpr _) c = Inr c"
| "array_expr (CastExpr _ e t) c = bindr (array_expr e c) (array_type t)"
| "array_expr (PathExpr _ t _) c = array_type t c"
| "array_expr (SelfExpr _) c = Inr c"
| "array_expr (UnitExpr _) c = Inr c"
| "array_expr (ArrayExpr _ es) c = visit_all (map array_expr es) c"
| "array_expr (RepeatArrayExpr _ e s) c = bindr (array_expr e c) (array_expr s)"
| "array_stmt (LetStmt _ _ t e) c = bindr (array_type t c) (visit_opt (map_option array_expr e))"
| "array_stmt (ExprStmt _ e _) c = array_expr e c"
| "array_stmt (ItemStmt _ i) c = array_item i c"
| "array_item (FnItem _ _ _ ps rt b) c =
     bindr (visit_all (map snd (map (map_prod id array_type) ps)) c) (\<lambda>c.
     bindr (visit_opt (map_option array_type rt) c) (array_expr b))"
| "array_item (StructItem _ _ fs) c = visit_all (map snd (map (map_prod id array_type) fs)) c"
| "array_item (EnumItem _ _ _) c = Inr c"
| "array_item (ImplItem _ _ ms) c = visit_all (map array_item ms) c"
| "array_item (ConstItem _ _ t e) c = bindr (array_type t c) (array_expr e)"

subsection \<open>The state of the visitor\<close>

record type_checker =
  require_function :: bool
  now_func_decl :: "address option"
  loop_type_stack :: "RealType list"
  ck :: Semantic_Checker

text \<open>
  The type of a node. The subscript of \<open>std::map\<close> gives a null type for a node that has none,
  and following it is undefined.
\<close>

definition type_at :: "type_checker \<Rightarrow> nat \<Rightarrow> (RealType \<times> PlaceKind) res" where
  "type_at st k = deref (node_type_and_place_kind_map (ck st)) k"

definition typed_as :: "nat \<Rightarrow> RealType \<Rightarrow> PlaceKind \<Rightarrow> type_checker \<Rightarrow> type_checker" where
  "typed_as k t p st =
     st\<lparr>ck := (ck st)\<lparr>node_type_and_place_kind_map := (node_type_and_place_kind_map (ck st))(k \<mapsto> (t, p))\<rparr>\<rparr>"

text \<open>Only names, fields and paths can stand for a function.\<close>

definition no_function :: "string \<Rightarrow> (type_checker \<Rightarrow> type_checker res) \<Rightarrow> type_checker \<Rightarrow> type_checker res" where
  "no_function what f st =
     (if require_function st then Inl (Thrown (''CE, '' @ what @ '' is not function'')) else f st)"

definition outcome_of :: "Semantic_Checker \<Rightarrow> nat \<Rightarrow> OutcomeState" where
  "outcome_of c k = (case checker_outcome_map c k of Some s \<Rightarrow> s | None \<Rightarrow> 0)"

subsection \<open>Names\<close>

text \<open>The local variables of a scope hide its items.\<close>

definition find_value_decl :: "Semantic_Checker \<Rightarrow> address option \<Rightarrow> string \<Rightarrow> ValueDecl option res" where
  "find_value_decl c now_scope name =
     search c (\<lambda>a s.
       case map_of (case scope_local_variable_map c a of Some m \<Rightarrow> m | None \<Rightarrow> []) name of
         Some d \<Rightarrow> Some (LetStmt_decl d)
       | None \<Rightarrow> map_of (value_namespace s) name) now_scope"

definition identifier_type :: "bool \<Rightarrow> Semantic_Checker \<Rightarrow> string \<Rightarrow> ValueDecl \<Rightarrow> (RealType \<times> PlaceKind) res" where
  "identifier_type fn_wanted c name d =
     (if fn_wanted then
        (case d of
           Function_decl f \<Rightarrow> Inr (FunctionRealType NO_REF (Some f), NotPlace)
         | _ \<Rightarrow> Inl (Thrown (''CE, identifier is not function: '' @ name)))
      else
        (case d of
           Constant_decl a \<Rightarrow> bindr (deref (const_decls c) a) (\<lambda>cd.
             case const_type cd of None \<Rightarrow> Inl AssertFail | Some t \<Rightarrow> Inr (t, NotPlace))
         | LetStmt_decl a \<Rightarrow> bindr (deref (let_decls c) a) (\<lambda>ld.
             Inr (let_type ld, if let_is_mut ld = MUTABLE then ReadWritePlace else ReadOnlyPlace))
         | Function_decl _ \<Rightarrow> Inl (Thrown (''CE, identifier is not variable or constant : '' @ name))))"

definition check_identifier :: "nat \<Rightarrow> string \<Rightarrow> type_checker \<Rightarrow> type_checker res" where
  "check_identifier k name st =
     bindr (find_value_decl (ck st) (node_scope_map (ck st) k) name) (\<lambda>d.
       case d of
         None \<Rightarrow> Inl (Thrown (''CE, cannot find identifier declaration: '' @ name))
       | Some d \<Rightarrow>
           bindr (identifier_type (require_function st) (ck st) name d) (\<lambda>(t, p).
             Inr (typed_as k t p
               (st\<lparr>ck := (ck st)\<lparr>identifier_expr_to_decl_map := (identifier_expr_to_decl_map (ck st))(k \<mapsto> d)\<rparr>\<rparr>))))"

subsection \<open>Operators\<close>

definition op_requires :: "Binary_Operator \<Rightarrow> string \<Rightarrow> err" where
  "op_requires OP what =
     Thrown (''CE, binary operator '' @ binary_operator_to_string OP @ '' requires '' @ what)"

abbreviation number_or_bool :: "RealType \<Rightarrow> bool" where
  "number_or_bool t \<equiv> type_is_number t \<or> kind t = RTK_BOOL"

definition mutable_place :: "PlaceKind \<Rightarrow> unit res" where
  "mutable_place p = guardr (p = ReadWritePlace) (Thrown ''CE, left side of assignment must be a mutable place'')"

definition binary_type :: "Binary_Operator \<Rightarrow> RealType \<Rightarrow> PlaceKind \<Rightarrow> RealType \<Rightarrow> RealType res" where
  "binary_type OP left left_place right =
     bindr (guardr (is_ref left = NO_REF \<and> is_ref right = NO_REF)
              (Thrown ''CE, binary operator cannot have reference type operands'')) (\<lambda>_.
       if OP \<in> {BOP_ADD, BOP_SUB, BOP_MUL, BOP_DIV, BOP_MOD} then
         bindr (guardr (type_is_number left \<and> type_is_number right) (op_requires OP ''number types'')) (\<lambda>_.
           type_merge False left right)
       else if OP \<in> {BOP_AND, BOP_OR, BOP_XOR} then
         bindr (guardr (number_or_bool left \<and> number_or_bool right) (op_requires OP ''number or bool types'')) (\<lambda>_.
           type_merge False left right)
       else if OP \<in> {BOP_AND_AND, BOP_OR_OR} then
         bindr (guardr (kind left = RTK_BOOL \<and> kind right = RTK_BOOL) (op_requires OP ''bool types'')) (\<lambda>_.
           type_merge False left right)
       else if OP \<in> {BOP_EQ, BOP_NEQ, BOP_LT, BOP_GT, BOP_LEQ, BOP_GEQ} then
         bindr (type_merge False left right) (\<lambda>_. Inr (BoolRealType NO_REF))
       else if OP \<in> {BOP_SHL, BOP_SHR} then
         bindr (guardr (type_is_number left \<and> type_is_number right) (op_requires OP ''number types'')) (\<lambda>_.
           Inr left)
       else if OP = BOP_ASSIGN then
         bindr (mutable_place left_place) (\<lambda>_.
         bindr (type_merge True left right) (\<lambda>_. Inr (UnitRealType NO_REF)))
       else if OP \<in> {BOP_ADD_ASSIGN, BOP_SUB_ASSIGN, BOP_MUL_ASSIGN, BOP_DIV_ASSIGN, BOP_MOD_ASSIGN} then
         bindr (mutable_place left_place) (\<lambda>_.
         bindr (guardr (type_is_number left \<and> type_is_number right) (op_requires OP ''number types'')) (\<lambda>_.
         bindr (type_merge True left right) (\<lambda>_. Inr (UnitRealType NO_REF))))
       else if OP \<in> {BOP_AND_ASSIGN, BOP_OR_ASSIGN, BOP_XOR_ASSIGN} then
         bindr (mutable_place left_place) (\<lambda>_.
         bindr (guardr (number_or_bool left \<and> number_or_bool right) (op_requires OP ''number or bool types'')) (\<lambda>_.
         bindr (type_merge True left right) (\<lambda>_. Inr (UnitRealType NO_REF))))
       else
         bindr (mutable_place left_place) (\<lambda>_.
         bindr (guardr (type_is_number left \<and> type_is_number right) (op_requires OP ''number types'')) (\<lambda>_.
           Inr (UnitRealType NO_REF))))"

definition unary_type :: "Unary_Operator \<Rightarrow> RealType \<Rightarrow> PlaceKind \<Rightarrow> (RealType \<times> PlaceKind) res" where
  "unary_type OP right right_place =
     (case OP of
        UOP_NEG \<Rightarrow>
          if is_ref right \<noteq> NO_REF then Inl (Thrown ''CE, unary operator - cannot have reference type operand'')
          else if type_is_number right then Inr (right, NotPlace)
          else Inl (Thrown ''CE, unary operator - requires number type'')
      | UOP_NOT \<Rightarrow>
          if is_ref right \<noteq> NO_REF then Inl (Thrown ''CE, unary operator ! cannot have reference type operand'')
          else if number_or_bool right then Inr (right, NotPlace)
          else Inl (Thrown ''CE, unary operator ! requires bool type'')
      | UOP_REF \<Rightarrow>
          if is_ref right \<noteq> NO_REF then Inl (Thrown ''CE, cannot take reference of a reference type'')
          else Inr (with_ref REF (copy right), NotPlace)
      | UOP_REF_MUT \<Rightarrow>
          if right_place = ReadOnlyPlace then Inl (Thrown ''CE, unary operator &mut requires a mutable place operand'')
          else if is_ref right \<noteq> NO_REF then Inl (Thrown ''CE, cannot take reference of a reference type'')
          else Inr (with_ref REF_MUT (copy right), NotPlace)
      | UOP_DEREF \<Rightarrow>
          if is_ref right = NO_REF then Inl (Thrown ''CE, unary operator * requires a reference type operand'')
          else Inr (with_ref NO_REF (copy right), if is_ref right = REF then ReadOnlyPlace else ReadWritePlace))"

definition finish_binary :: "nat \<Rightarrow> Binary_Operator \<Rightarrow> nat \<Rightarrow> nat \<Rightarrow> type_checker \<Rightarrow> type_checker res" where
  "finish_binary k OP l r st =
     bindr (type_at st l) (\<lambda>(left, left_place). bindr (type_at st r) (\<lambda>(right, _).
     bindr (binary_type OP left left_place right) (\<lambda>t. Inr (typed_as k t NotPlace st))))"

definition finish_unary :: "nat \<Rightarrow> Unary_Operator \<Rightarrow> nat \<Rightarrow> type_checker \<Rightarrow> type_checker res" where
  "finish_unary k OP r st =
     bindr (type_at st r) (\<lambda>(right, right_place).
     bindr (unary_type OP right right_place) (\<lambda>(t, p). Inr (typed_as k t p st)))"

subsection \<open>Calls, methods and paths\<close>

text \<open>The first entry of a table of built-in functions with this kind and name.\<close>

definition find_builtin :: "(RealTypeKind \<times> string \<times> address) list \<Rightarrow> RealTypeKind \<Rightarrow> string \<Rightarrow> address option" where
  "find_builtin funcs k name = map_option (snd \<circ> snd) (List.find (\<lambda>(k', n, _). k' = k \<and> n = name) funcs)"

definition check_receiver :: "fn_reciever_type \<Rightarrow> RealType \<Rightarrow> PlaceKind \<Rightarrow> string \<Rightarrow> unit res" where
  "check_receiver receiver base place name =
     (case receiver of
        RECV_SELF \<Rightarrow> Inr ()
      | RECV_SELF_REF \<Rightarrow> Inr ()
      | RECV_SELF_REF_MUT \<Rightarrow>
          guardr (is_ref base = REF_MUT \<or> is_ref base = NO_REF \<and> place \<noteq> ReadOnlyPlace)
            (Thrown (''CE, method '' @ name @ '' requires a mutable self receiver''))
      | NO_RECEIVER \<Rightarrow> Inl (Thrown ''Error, unknown self receiver type''))"

definition get_method_func :: "Semantic_Checker \<Rightarrow> RealType \<Rightarrow> PlaceKind \<Rightarrow> string \<Rightarrow> RealType res" where
  "get_method_func c base place name =
     bindr
       (if kind base = RTK_STRUCT
        then bindr (the_ptr (decl_of base)) (\<lambda>a. bindr (deref (struct_decls c) a) (\<lambda>sd.
          case map_of (methods sd) name of
            None \<Rightarrow> Inl (Thrown (''CE, struct has no method named '' @ name))
          | Some d \<Rightarrow> Inr d))
        else (case find_builtin (builtin_method_funcs c) (kind base) name of
            None \<Rightarrow> Inl (Thrown (''CE, type '' @ real_type_kind_to_string (kind base) @ '' has no method named '' @ name))
          | Some d \<Rightarrow> Inr d))
       (\<lambda>d. bindr (deref (fn_decls c) d) (\<lambda>fd.
         bindr (check_receiver (receiver_type fd) base place name) (\<lambda>_.
           Inr (FunctionRealType NO_REF (Some d)))))"

definition get_associated_func :: "Semantic_Checker \<Rightarrow> RealType \<Rightarrow> string \<Rightarrow> RealType res" where
  "get_associated_func c base name =
     bindr
       (if kind base = RTK_STRUCT
        then bindr (the_ptr (decl_of base)) (\<lambda>a. bindr (deref (struct_decls c) a) (\<lambda>sd.
          case map_of (associated_func sd) name of
            None \<Rightarrow> Inl (Thrown (''CE, struct has no associated function named '' @ name))
          | Some d \<Rightarrow> Inr d))
        else (case find_builtin (builtin_associated_funcs c) (kind base) name of
            None \<Rightarrow> Inl (Thrown (''CE, type '' @ real_type_kind_to_string (kind base)
                         @ '' has no associated function named '' @ name))
          | Some d \<Rightarrow> Inr d))
       (\<lambda>d. Inr (FunctionRealType NO_REF (Some d)))"

text \<open>The arguments in turn, each with its type once it has been visited.\<close>

primrec visit_args :: "(nat \<times> (type_checker \<Rightarrow> type_checker res)) list \<Rightarrow> type_checker \<Rightarrow>
    ((RealType \<times> PlaceKind) list \<times> type_checker) res" where
  "visit_args [] st = Inr ([], st)"
| "visit_args (f # fs) st =
     bindr (snd f st) (\<lambda>st. bindr (type_at st (fst f)) (\<lambda>t.
     bindr (visit_args fs st) (\<lambda>(ts, st). Inr (t # ts, st))))"

definition check_args :: "(pattern \<times> RealType) list \<Rightarrow> (RealType \<times> PlaceKind) list \<Rightarrow> expr list \<Rightarrow> unit res" where
  "check_args ps ts args =
     (if length ps \<noteq> length ts then Inl (Thrown ''CE, function call argument number mismatch'')
      else foldr_res (\<lambda>((p, target), (t, _), arg) _. check_let_stmt p target t arg) (zip ps (zip ts args)) ())"

text \<open>\<open>exit\<close> only in \<open>main\<close>; a call of it is recorded in the scope of \<open>main\<close>.\<close>

definition note_exit :: "type_checker \<Rightarrow> type_checker res" where
  "note_exit st =
     (case now_func_decl st of
        None \<Rightarrow> Inl (Thrown ''CE, exit function can only be called inside main'')
      | Some f \<Rightarrow> bindr (deref (fn_decls (ck st)) f) (\<lambda>fd.
          if \<not> is_main fd then Inl (Thrown ''CE, exit function can only be called inside main'')
          else bindr (the_ptr (function_scope fd)) (\<lambda>a. bindr (deref (scopes (ck st)) a) (\<lambda>s.
            Inr (st\<lparr>ck := put_scope a (s\<lparr>has_exit := True\<rparr>) (ck st)\<rparr>)))))"

definition finish_call :: "nat \<Rightarrow> expr list \<Rightarrow> RealType \<Rightarrow> (RealType \<times> PlaceKind) list \<Rightarrow> type_checker \<Rightarrow> type_checker res" where
  "finish_call k args callee ts st =
     (case decl_of callee of
        None \<Rightarrow> Inl (Thrown ''Error, function declaration is null'')
      | Some d \<Rightarrow> bindr (deref (fn_decls (ck st)) d) (\<lambda>fd.
          bindr (check_args (parameters fd) ts args) (\<lambda>_.
          bindr (if is_exit fd then note_exit st else Inr st) (\<lambda>st.
          bindr (the_ptr (return_type fd)) (\<lambda>t.
            Inr (typed_as k t NotPlace
              (st\<lparr>ck := (ck st)\<lparr>call_expr_to_decl_map := (call_expr_to_decl_map (ck st))(k \<mapsto> d)\<rparr>\<rparr>)))))))"

definition check_call :: "nat \<Rightarrow> nat \<Rightarrow> expr list \<Rightarrow> (type_checker \<Rightarrow> type_checker res) \<Rightarrow>
    (type_checker \<Rightarrow> type_checker res) list \<Rightarrow> type_checker \<Rightarrow> type_checker res" where
  "check_call k callee args f fs st =
     bindr (f (st\<lparr>require_function := True\<rparr>)) (\<lambda>st.
     let st = st\<lparr>require_function := False\<rparr> in
     bindr (type_at st callee) (\<lambda>(t, _).
       if kind t \<noteq> RTK_FUNCTION then Inl (Thrown ''CE, call expression requires a function type callee'')
       else bindr (visit_args (zip (map expr_id args) fs) st) (\<lambda>(ts, st). finish_call k args t ts st)))"

definition through_ref :: "RealType \<Rightarrow> PlaceKind \<Rightarrow> PlaceKind" where
  "through_ref base place =
     (case is_ref base of NO_REF \<Rightarrow> place | REF \<Rightarrow> ReadOnlyPlace | REF_MUT \<Rightarrow> ReadWritePlace)"

definition field_type :: "Semantic_Checker \<Rightarrow> RealType \<Rightarrow> string \<Rightarrow> RealType res" where
  "field_type c base name =
     (if kind base \<noteq> RTK_STRUCT then Inl (Thrown ''CE, field access requires a struct type base'')
      else (case decl_of base of
          None \<Rightarrow> Inl AssertFail
        | Some a \<Rightarrow> bindr (deref (struct_decls c) a) (\<lambda>sd.
            case map_of (struct_fields sd) name of
              None \<Rightarrow> Inl (Thrown (''CE, struct  has no field named '' @ name))
            | Some t \<Rightarrow> Inr t)))"

definition check_field :: "nat \<Rightarrow> nat \<Rightarrow> string \<Rightarrow> (type_checker \<Rightarrow> type_checker res) \<Rightarrow> type_checker \<Rightarrow> type_checker res" where
  "check_field k b name f st =
     bindr (f (st\<lparr>require_function := False\<rparr>)) (\<lambda>st'.
     bindr (type_at st' b) (\<lambda>(base, place).
       if require_function st
       then bindr (get_method_func (ck st') base place name) (\<lambda>t. Inr (typed_as k t NotPlace st'))
       else bindr (field_type (ck st') base name) (\<lambda>t. Inr (typed_as k t (through_ref base place) st'))))"

definition path_type :: "Semantic_Checker \<Rightarrow> RealType \<Rightarrow> string \<Rightarrow> RealType res" where
  "path_type c base name =
     (case base of
        StructRealType _ _ d \<Rightarrow>
          (case d of
             None \<Rightarrow> Inl AssertFail
           | Some a \<Rightarrow> bindr (deref (struct_decls c) a) (\<lambda>sd.
               case map_of (associated_const sd) name of
                 None \<Rightarrow> Inl (Thrown (''CE, struct has no associated constant named '' @ name))
               | Some k \<Rightarrow> bindr (deref (const_decls c) k) (\<lambda>cd. the_ptr (const_type cd))))
      | EnumRealType _ _ d \<Rightarrow>
          (case d of
             None \<Rightarrow> Inl AssertFail
           | Some a \<Rightarrow> bindr (deref (enum_decls c) a) (\<lambda>ed.
               if map_of (variants ed) name = None
               then Inl (Thrown (''CE, enum has no variant named '' @ name))
               else Inr base))
      | _ \<Rightarrow> Inl (Thrown ''CE, path expression requires a struct or enum type base''))"

definition check_path :: "nat \<Rightarrow> nat \<Rightarrow> string \<Rightarrow> type_checker \<Rightarrow> type_checker res" where
  "check_path k b name st =
     bindr (the_ptr (type_map (ck st) b)) (\<lambda>base.
       bindr (if require_function st then get_associated_func (ck st) base name else path_type (ck st) base name) (\<lambda>t.
         Inr (typed_as k t NotPlace (st\<lparr>require_function := False\<rparr>))))"

subsection \<open>Structures, arrays and indices\<close>

definition check_struct_field :: "Semantic_Checker \<Rightarrow> string \<Rightarrow> RealType smap \<Rightarrow> string \<times> nat \<Rightarrow> unit res" where
  "check_struct_field c name fs f =
     (case map_of fs (fst f) of
        None \<Rightarrow> Inl (Thrown (''CE, struct '' @ name @ '' has no field named '' @ fst f))
      | Some t \<Rightarrow> bindr (deref (node_type_and_place_kind_map c) (snd f)) (\<lambda>(u, _).
          bindr (type_merge True t u) (\<lambda>_. Inr ())))"

definition finish_struct :: "nat \<Rightarrow> nat \<Rightarrow> (string \<times> nat) list \<Rightarrow> type_checker \<Rightarrow> type_checker res" where
  "finish_struct k t fs st =
     (case type_map (ck st) t of
        None \<Rightarrow> Inl (Thrown (''Error, cannot find struct type, NodeId = '' @ nat_to_string t))
      | Some (StructRealType _ name d) \<Rightarrow>
          (case d of
             None \<Rightarrow> Inl AssertFail
           | Some a \<Rightarrow> bindr (deref (struct_decls (ck st)) a) (\<lambda>sd.
               if length (struct_fields sd) \<noteq> length fs
               then Inl (Thrown ''CE, struct expression field number mismatch'')
               else bindr (foldr_res (\<lambda>f _. check_struct_field (ck st) name (struct_fields sd) f) fs ()) (\<lambda>_.
                 Inr (typed_as k (StructRealType NO_REF name (Some a)) NotPlace st))))
      | Some _ \<Rightarrow> Inl (Thrown ''CE, struct expression requires a struct type''))"

text \<open>The check of a literal index; the literal is a \<open>long long\<close> that becomes a \<open>size_t\<close>.\<close>

definition check_literal_index :: "expr \<Rightarrow> nat \<Rightarrow> unit res" where
  "check_literal_index i len =
     (case i of
        LiteralExpr _ LIT_NUMBER v \<Rightarrow> bindr (safe_stoll v) (\<lambda>n.
          guardr (unat (word_of_int n :: 64 word) < len) (Thrown ''CE, index out of bounds''))
      | _ \<Rightarrow> Inr ())"

definition index_place :: "RealType \<Rightarrow> PlaceKind \<Rightarrow> PlaceKind" where
  "index_place base place =
     (case is_ref base of
        NO_REF \<Rightarrow> if place = ReadOnlyPlace then ReadOnlyPlace else ReadWritePlace
      | REF \<Rightarrow> ReadOnlyPlace
      | REF_MUT \<Rightarrow> ReadWritePlace)"

definition finish_index :: "nat \<Rightarrow> nat \<Rightarrow> expr \<Rightarrow> type_checker \<Rightarrow> type_checker res" where
  "finish_index k b i st =
     bindr (type_at st b) (\<lambda>(base, place). bindr (type_at st (expr_id i)) (\<lambda>(index, _).
       if is_ref index \<noteq> NO_REF \<or> kind index \<noteq> RTK_USIZE \<and> kind index \<noteq> RTK_ANYINT
       then Inl (Thrown ''CE, index expression requires usize type index'')
       else (case base of
           ArrayRealType _ t _ n \<Rightarrow>
             bindr (check_literal_index i n) (\<lambda>_. Inr (typed_as k t (index_place base place) st))
         | _ \<Rightarrow> Inl (Thrown ''CE, index expression requires array type base''))))"

definition finish_array :: "nat \<Rightarrow> nat list \<Rightarrow> type_checker \<Rightarrow> type_checker res" where
  "finish_array k es st =
     bindr (foldr_res (\<lambda>e t. bindr (type_at st e) (\<lambda>(u, _). type_merge False t u)) es (NeverRealType NO_REF)) (\<lambda>t.
       Inr (typed_as k (ArrayRealType NO_REF t None (length es)) NotPlace st))"

definition finish_repeat :: "nat \<Rightarrow> nat \<Rightarrow> nat \<Rightarrow> type_checker \<Rightarrow> type_checker res" where
  "finish_repeat k e s st =
     bindr (type_at st e) (\<lambda>(t, _).
       let (n, m) = size_at s (const_expr_to_size_map (ck st))
       in Inr (typed_as k (ArrayRealType NO_REF t None n) NotPlace
            (st\<lparr>ck := (ck st)\<lparr>const_expr_to_size_map := m\<rparr>\<rparr>)))"

subsection \<open>Blocks, branches and jumps\<close>

definition before_exit :: "address \<Rightarrow> (type_checker \<Rightarrow> type_checker res) \<Rightarrow> type_checker \<Rightarrow> type_checker res" where
  "before_exit a f st =
     bindr (deref (scopes (ck st)) a) (\<lambda>s.
       if is_main_scope s \<and> has_exit s
       then Inl (Thrown ''CE, unreachable statement after exit in main function'')
       else f st)"

definition block_type :: "nat \<Rightarrow> nat option \<Rightarrow> type_checker \<Rightarrow> RealType res" where
  "block_type k tail st =
     (if \<not> has_state (outcome_of (ck st) k) NEXT then Inr (NeverRealType NO_REF)
      else (case tail of
          Some t \<Rightarrow> bindr (type_at st t) (\<lambda>(t, _). Inr t)
        | None \<Rightarrow> Inr (UnitRealType NO_REF)))"

definition check_block_type :: "nat \<Rightarrow> address \<Rightarrow> nat option \<Rightarrow> bool \<Rightarrow> type_checker \<Rightarrow> type_checker res" where
  "check_block_type k a tail must_return_unit st =
     bindr (deref (scopes (ck st)) a) (\<lambda>s.
       if is_main_scope s \<and> \<not> has_exit s
       then Inl (Thrown ''CE, main function must have an exit call'')
       else bindr (block_type k tail st) (\<lambda>t.
         if must_return_unit \<and> kind t \<noteq> RTK_UNIT \<and> kind t \<noteq> RTK_NEVER
         then Inl (Thrown ''CE, block expression must return unit type'')
         else Inr (typed_as k t NotPlace st)))"

definition check_block :: "nat \<Rightarrow> (type_checker \<Rightarrow> type_checker res) list \<Rightarrow> nat option \<Rightarrow>
    (type_checker \<Rightarrow> type_checker res) option \<Rightarrow> bool \<Rightarrow> type_checker \<Rightarrow> type_checker res" where
  "check_block k fs tail g must_return_unit st =
     bindr (the_ptr (node_scope_map (ck st) k)) (\<lambda>a.
     bindr (visit_all (map (before_exit a) fs) st) (\<lambda>st.
     bindr (visit_opt (map_option (before_exit a) g) st) (check_block_type k a tail must_return_unit)))"

definition bool_condition :: "string \<Rightarrow> nat \<Rightarrow> type_checker \<Rightarrow> unit res" where
  "bool_condition what g st =
     bindr (type_at st g) (\<lambda>(t, _).
       guardr (is_ref t = NO_REF \<and> kind t = RTK_BOOL)
         (Thrown (''CE, '' @ what @ '' expression requires bool type condition'')))"

definition finish_if :: "nat \<Rightarrow> nat \<Rightarrow> nat \<Rightarrow> nat option \<Rightarrow> type_checker \<Rightarrow> type_checker res" where
  "finish_if k g a b st =
     (if \<not> has_state (outcome_of (ck st) k) NEXT then Inr (typed_as k (NeverRealType NO_REF) NotPlace st)
      else bindr (bool_condition ''if'' g st) (\<lambda>_.
        bindr (type_at st a) (\<lambda>(then_type, _).
        bindr (case b of Some b \<Rightarrow> bindr (type_at st b) (\<lambda>(t, _). Inr t) | None \<Rightarrow> Inr (UnitRealType NO_REF)) (\<lambda>else_type.
        bindr (type_merge False then_type else_type) (\<lambda>t. Inr (typed_as k t NotPlace st))))))"

definition push_loop :: "RealType \<Rightarrow> type_checker \<Rightarrow> type_checker" where
  "push_loop t st = st\<lparr>loop_type_stack := t # loop_type_stack st\<rparr>"

definition finish_loop :: "nat \<Rightarrow> type_checker \<Rightarrow> type_checker res" where
  "finish_loop k st =
     (case loop_type_stack st of
        t # ts \<Rightarrow> Inr (typed_as k t NotPlace (st\<lparr>loop_type_stack := ts\<rparr>))
      | [] \<Rightarrow> Inl (Undefined ''empty loop stack''))"

definition finish_while :: "nat \<Rightarrow> nat \<Rightarrow> type_checker \<Rightarrow> type_checker res" where
  "finish_while k g st = bindr (bool_condition ''while'' g st) (\<lambda>_. finish_loop k st)"

text \<open>The type of the operand of a \<open>return\<close> or \<open>break\<close>.\<close>

definition jump_type :: "nat option \<Rightarrow> type_checker \<Rightarrow> RealType res" where
  "jump_type v st =
     (case v of Some k \<Rightarrow> bindr (type_at st k) (\<lambda>(t, _). Inr t) | None \<Rightarrow> Inr (UnitRealType NO_REF))"

definition check_return :: "nat \<Rightarrow> nat option \<Rightarrow> (type_checker \<Rightarrow> type_checker res) option \<Rightarrow> type_checker \<Rightarrow> type_checker res" where
  "check_return k v f st =
     (if now_func_decl st = None then Inl (Thrown ''CE, return expression is not in a function'')
      else bindr (visit_opt f st) (\<lambda>st.
        bindr (jump_type v st) (\<lambda>t.
        bindr (the_ptr (now_func_decl st)) (\<lambda>d. bindr (deref (fn_decls (ck st)) d) (\<lambda>fd.
        bindr (the_ptr (return_type fd)) (\<lambda>rt.
        bindr (type_merge False rt t) (\<lambda>_. Inr (typed_as k (NeverRealType NO_REF) NotPlace st))))))))"

definition check_break :: "nat \<Rightarrow> nat option \<Rightarrow> (type_checker \<Rightarrow> type_checker res) option \<Rightarrow> type_checker \<Rightarrow> type_checker res" where
  "check_break k v f st =
     (if loop_type_stack st = [] then Inl (Thrown ''CE, break expression is not in a loop'')
      else bindr (visit_opt f st) (\<lambda>st.
        bindr (jump_type v st) (\<lambda>t.
          case loop_type_stack st of
            [] \<Rightarrow> Inl (Undefined ''empty loop stack'')
          | l # ls \<Rightarrow> bindr (type_merge False l t) (\<lambda>l.
              Inr (typed_as k (NeverRealType NO_REF) NotPlace (st\<lparr>loop_type_stack := l # ls\<rparr>))))))"

definition check_continue :: "nat \<Rightarrow> type_checker \<Rightarrow> type_checker res" where
  "check_continue k st =
     (if loop_type_stack st = [] then Inl (Thrown ''CE, continue expression is not in a loop'')
      else Inr (typed_as k (NeverRealType NO_REF) NotPlace st))"

definition finish_cast :: "nat \<Rightarrow> nat \<Rightarrow> nat \<Rightarrow> type_checker \<Rightarrow> type_checker res" where
  "finish_cast k e t st =
     (case type_map (ck st) t of
        None \<Rightarrow> Inl AssertFail
      | Some target \<Rightarrow> bindr (type_at st e) (\<lambda>(u, _). bindr (check_cast u target) (\<lambda>_.
          Inr (typed_as k target NotPlace st))))"

definition check_self :: "nat \<Rightarrow> type_checker \<Rightarrow> type_checker res" where
  "check_self k st =
     (case now_func_decl st of
        None \<Rightarrow> Inl (Thrown ''CE, self expression is not in a function'')
      | Some d \<Rightarrow> bindr (deref (fn_decls (ck st)) d) (\<lambda>fd.
          case receiver_type fd of
            NO_RECEIVER \<Rightarrow> Inl (Thrown ''CE, self expression is in a function without self receiver'')
          | RECV_SELF \<Rightarrow> Inr (typed_as k (StructRealType NO_REF ''Self'' (fn_self_struct fd)) ReadWritePlace st)
          | RECV_SELF_REF \<Rightarrow> Inr (typed_as k (StructRealType REF ''Self'' (fn_self_struct fd)) NotPlace st)
          | RECV_SELF_REF_MUT \<Rightarrow> Inr (typed_as k (StructRealType REF_MUT ''Self'' (fn_self_struct fd)) NotPlace st)))"

subsection \<open>Local variables and functions\<close>

definition intro_let_stmt :: "address \<Rightarrow> pattern \<Rightarrow> RealType \<Rightarrow> Semantic_Checker \<Rightarrow> address \<times> Semantic_Checker" where
  "intro_let_stmt a p t c =
     (let (d, c) = alloc c;
          decl = \<lparr>let_name = pattern_name p, let_type = t, let_is_mut = pattern_mut p\<rparr>;
          locals = (case scope_local_variable_map c a of Some m \<Rightarrow> m | None \<Rightarrow> [])
      in (d, c\<lparr>let_decls := (let_decls c)(d \<mapsto> decl),
               scope_local_variable_map := (scope_local_variable_map c)(a \<mapsto> smap_insert (pattern_name p) d locals)\<rparr>))"

definition finish_let :: "nat \<Rightarrow> pattern \<Rightarrow> nat \<Rightarrow> expr \<Rightarrow> type_checker \<Rightarrow> type_checker res" where
  "finish_let k p t e st =
     bindr (type_at st (expr_id e)) (\<lambda>(u, _).
     bindr (the_ptr (type_map (ck st) t)) (\<lambda>target.
     bindr (check_let_stmt p target u e) (\<lambda>_.
     bindr (the_ptr (node_scope_map (ck st) k)) (\<lambda>a.
       let (d, c) = intro_let_stmt a p target (ck st)
       in Inr (st\<lparr>ck := c\<lparr>let_stmt_to_decl_map := (let_stmt_to_decl_map c)(k \<mapsto> d)\<rparr>\<rparr>)))))"

definition check_let :: "nat \<Rightarrow> pattern \<Rightarrow> nat \<Rightarrow> expr option \<Rightarrow> (type_checker \<Rightarrow> type_checker res) option \<Rightarrow>
    type_checker \<Rightarrow> type_checker res" where
  "check_let k p t e f st =
     (case e of
        None \<Rightarrow> Inl (Thrown ''CE, let statement must have an initializer'')
      | Some e \<Rightarrow> bindr (visit_opt f st) (finish_let k p t e))"

definition intro_param :: "address \<Rightarrow> address \<Rightarrow> pattern \<times> RealType \<Rightarrow> Semantic_Checker \<Rightarrow> Semantic_Checker res" where
  "intro_param d a p c =
     (let (l, c) = intro_let_stmt a (fst p) (snd p) c
      in bindr (deref (fn_decls c) d) (\<lambda>fd.
           Inr (put_fn d (fd\<lparr>parameter_let_decls := parameter_let_decls fd @ [l]\<rparr>) c)))"

definition find_fn_decl :: "nat \<Rightarrow> string \<Rightarrow> Semantic_Checker \<Rightarrow> address res" where
  "find_fn_decl k name c =
     bindr (the_ptr (node_scope_map c k)) (\<lambda>a. bindr (deref (scopes c) a) (\<lambda>s.
       case map_of (value_namespace s) name of
         None \<Rightarrow> Inl (Thrown ''Error, function declaration not found in scope'')
       | Some (Function_decl d) \<Rightarrow> Inr d
       | Some _ \<Rightarrow> Inl (Thrown ''Error, function declaration is not a function'')))"

text \<open>The parameters are local variables of the function's scope.\<close>

definition intro_params :: "address \<Rightarrow> Semantic_Checker \<Rightarrow> Semantic_Checker res" where
  "intro_params d c =
     bindr (deref (fn_decls c) d) (\<lambda>fd.
       if parameters fd = [] then Inr c
       else bindr (the_ptr (function_scope fd)) (\<lambda>a. foldr_res (intro_param d a) (parameters fd) c))"

definition check_fn :: "nat \<Rightarrow> string \<Rightarrow> nat \<Rightarrow> (type_checker \<Rightarrow> type_checker res) \<Rightarrow> type_checker \<Rightarrow> type_checker res" where
  "check_fn k name body f st =
     bindr (find_fn_decl k name (ck st)) (\<lambda>d.
     bindr (intro_params d (ck st)) (\<lambda>c.
     bindr (f (st\<lparr>now_func_decl := Some d, ck := c\<rparr>)) (\<lambda>st'.
     bindr (type_at st' body) (\<lambda>(t, _).
     bindr (deref (fn_decls (ck st')) d) (\<lambda>fd. bindr (the_ptr (return_type fd)) (\<lambda>rt.
     bindr (type_merge False t rt) (\<lambda>_.
       Inr (st'\<lparr>now_func_decl := now_func_decl st\<rparr>))))))))"

subsection \<open>The visitor\<close>

primrec check_expr :: "expr \<Rightarrow> type_checker \<Rightarrow> type_checker res"
  and check_stmt :: "stmt \<Rightarrow> type_checker \<Rightarrow> type_checker res"
  and check_item :: "item \<Rightarrow> type_checker \<Rightarrow> type_checker res"
where
  "check_expr (LiteralExpr k t v) st =
     no_function ''literal'' (\<lambda>st. bindr (type_of_literal t v) (\<lambda>t. Inr (typed_as k t NotPlace st))) st"
| "check_expr (IdentifierExpr k name) st = check_identifier k name st"
| "check_expr (BinaryExpr k OP l r) st =
     no_function ''binary expression'' (\<lambda>st. bindr (check_expr l st) (\<lambda>st.
       bindr (check_expr r st) (finish_binary k OP (expr_id l) (expr_id r)))) st"
| "check_expr (UnaryExpr k OP r) st =
     no_function ''unary expression'' (\<lambda>st. bindr (check_expr r st) (finish_unary k OP (expr_id r))) st"
| "check_expr (CallExpr k f args) st =
     no_function ''call expression'' (check_call k (expr_id f) args (check_expr f) (map check_expr args)) st"
| "check_expr (FieldExpr k b name) st = check_field k (expr_id b) name (check_expr b) st"
| "check_expr (StructExpr k t fs) st =
     no_function ''struct expression'' (\<lambda>st.
       bindr (visit_all (map snd (map (map_prod id check_expr) fs)) st)
         (finish_struct k (type_id t) (map (map_prod id expr_id) fs))) st"
| "check_expr (IndexExpr k b i) st =
     no_function ''index expression'' (\<lambda>st. bindr (check_expr b st) (\<lambda>st.
       bindr (check_expr i st) (finish_index k (expr_id b) i))) st"
| "check_expr (BlockExpr k ss t must_return_unit) st =
     no_function ''block expression''
       (check_block k (map check_stmt ss) (map_option stmt_id t) (map_option check_stmt t) must_return_unit) st"
| "check_expr (IfExpr k g a b _) st =
     no_function ''if expression'' (\<lambda>st. bindr (check_expr g st) (\<lambda>st. bindr (check_expr a st) (\<lambda>st.
       bindr (visit_opt (map_option check_expr b) st)
         (finish_if k (expr_id g) (expr_id a) (map_option expr_id b))))) st"
| "check_expr (WhileExpr k g b) st =
     no_function ''while expression'' (\<lambda>st. bindr (check_expr g (push_loop (UnitRealType NO_REF) st)) (\<lambda>st.
       bindr (check_expr b st) (finish_while k (expr_id g)))) st"
| "check_expr (LoopExpr k b _) st =
     no_function ''loop expression'' (\<lambda>st.
       bindr (check_expr b (push_loop (NeverRealType NO_REF) st)) (finish_loop k)) st"
| "check_expr (ReturnExpr k v) st =
     no_function ''return expression'' (check_return k (map_option expr_id v) (map_option check_expr v)) st"
| "check_expr (BreakExpr k v) st =
     no_function ''break expression'' (check_break k (map_option expr_id v) (map_option check_expr v)) st"
| "check_expr (ContinueExpr k) st = no_function ''continue expression'' (check_continue k) st"
| "check_expr (CastExpr k e t) st =
     no_function ''cast expression'' (\<lambda>st. bindr (check_expr e st) (finish_cast k (expr_id e) (type_id t))) st"
| "check_expr (PathExpr k t name) st = check_path k (type_id t) name st"
| "check_expr (SelfExpr k) st = no_function ''self expression'' (check_self k) st"
| "check_expr (UnitExpr k) st =
     no_function ''unit expression'' (\<lambda>st. Inr (typed_as k (UnitRealType NO_REF) NotPlace st)) st"
| "check_expr (ArrayExpr k es) st =
     no_function ''array expression'' (\<lambda>st.
       bindr (visit_all (map check_expr es) st) (finish_array k (map expr_id es))) st"
| "check_expr (RepeatArrayExpr k e s) st =
     no_function ''repeat array expression'' (\<lambda>st.
       bindr (check_expr e st) (finish_repeat k (expr_id e) (expr_id s))) st"
| "check_stmt (LetStmt k p t e) st =
     no_function ''let statement'' (check_let k p (type_id t) e (map_option check_expr e)) st"
| "check_stmt (ExprStmt k e _) st =
     bindr (check_expr e st) (\<lambda>st. bindr (type_at st (expr_id e)) (\<lambda>(t, p). Inr (typed_as k t p st)))"
| "check_stmt (ItemStmt _ i) st = check_item i st"
| "check_item (FnItem k name _ _ _ b) st =
     no_function ''function item'' (check_fn k name (expr_id b) (check_expr b)) st"
| "check_item (StructItem _ _ _) st = no_function ''struct item'' Inr st"
| "check_item (EnumItem _ _ _) st = no_function ''enum item'' Inr st"
| "check_item (ImplItem _ _ ms) st = no_function ''impl item'' (visit_all (map check_item ms)) st"
| "check_item (ConstItem _ _ _ _) st = no_function ''const item'' Inr st"

end
