(* ===== verification/Checker.thy ===== *)
theory Checker
  imports TypeCheck
begin

section \<open>The semantic checker\<close>

text \<open>
  The built-in functions and the four steps of \<open>Semantic_Checker::checker\<close> in
  \<open>src/semantic/semantic_checker.cpp\<close>.
\<close>

subsection \<open>Built-in functions\<close>

definition str_param :: "string \<Rightarrow> RealType \<Rightarrow> pattern \<times> RealType" where
  "str_param name t = (IdentifierPattern 0 name IMMUTABLE NO_REF, t)"

definition builtin_fn :: "string \<Rightarrow> fn_reciever_type \<Rightarrow> (string \<times> RealType) list \<Rightarrow> RealType \<Rightarrow> FnDecl" where
  "builtin_fn name receiver ps t =
     (new_fn_decl None None receiver name)\<lparr>
       is_builtin := True, parameters := map (\<lambda>(n, t). str_param n t) ps, return_type := Some t\<rparr>"

text \<open>A built-in function in the root scope, whose name must be free there.\<close>

definition add_root_fn :: "FnDecl \<Rightarrow> Semantic_Checker \<Rightarrow> Semantic_Checker res" where
  "add_root_fn fd c =
     (let (d, c) = alloc c; c = put_fn d fd c; name = fn_name fd
      in bindr (deref (scopes c) (root_scope c)) (\<lambda>s.
         bindr (define_name (Thrown (''CE, builtin function name conflict: '' @ name)) name (Function_decl d)
                  (value_namespace s)) (\<lambda>ns.
           Inr (put_scope (root_scope c) (s\<lparr>value_namespace := ns\<rparr>) c))))"

definition add_method :: "RealTypeKind \<Rightarrow> string \<Rightarrow> RealType \<Rightarrow> FnDecl \<Rightarrow> Semantic_Checker \<Rightarrow> Semantic_Checker" where
  "add_method k name self fd c =
     (let (d, c) = alloc c; c = put_fn d (fd\<lparr>builtin_method_self_type := Some self\<rparr>) c
      in c\<lparr>builtin_method_funcs := builtin_method_funcs c @ [(k, name, d)]\<rparr>)"

definition add_associated :: "RealTypeKind \<Rightarrow> string \<Rightarrow> FnDecl \<Rightarrow> Semantic_Checker \<Rightarrow> Semantic_Checker" where
  "add_associated k name fd c =
     (let (d, c) = alloc c; c = put_fn d fd c
      in c\<lparr>builtin_associated_funcs := builtin_associated_funcs c @ [(k, name, d)]\<rparr>)"

definition root_fns :: "FnDecl list" where
  "root_fns =
     [builtin_fn ''print'' NO_RECEIVER [(''s'', StrRealType REF)] (UnitRealType NO_REF),
      builtin_fn ''println'' NO_RECEIVER [(''s'', StrRealType REF)] (UnitRealType NO_REF),
      builtin_fn ''printInt'' NO_RECEIVER [(''n'', I32RealType NO_REF)] (UnitRealType NO_REF),
      builtin_fn ''printlnInt'' NO_RECEIVER [(''n'', I32RealType NO_REF)] (UnitRealType NO_REF),
      builtin_fn ''getString'' NO_RECEIVER [] (StringRealType NO_REF),
      builtin_fn ''getInt'' NO_RECEIVER [] (I32RealType NO_REF),
      (builtin_fn ''exit'' NO_RECEIVER [(''code'', I32RealType NO_REF)] (UnitRealType NO_REF))\<lparr>is_exit := True\<rparr>]"

definition to_string_fn :: FnDecl where
  "to_string_fn = builtin_fn ''to_string'' RECV_SELF_REF [] (StringRealType NO_REF)"

definition add_builtin_methods :: "Semantic_Checker \<Rightarrow> Semantic_Checker" where
  "add_builtin_methods c =
     (let c = add_method RTK_U32 ''to_string'' (U32RealType NO_REF) to_string_fn c;
          c = add_method RTK_USIZE ''to_string'' (UsizeRealType NO_REF) to_string_fn c;
          c = add_method RTK_ANYINT ''to_string'' (U32RealType NO_REF) to_string_fn c;
          c = add_method RTK_STRING ''as_str'' (StringRealType NO_REF)
                (builtin_fn ''as_str'' RECV_SELF_REF [] (StrRealType REF)) c;
          c = add_method RTK_STRING ''as_mut_str'' (StringRealType NO_REF)
                (builtin_fn ''as_mut_str'' RECV_SELF_REF_MUT [] (StrRealType REF_MUT)) c;
          c = add_method RTK_ARRAY ''len'' (ArrayRealType NO_REF (AnyIntRealType NO_REF) None 0)
                ((builtin_fn ''array_len'' RECV_SELF_REF [] (UsizeRealType NO_REF))\<lparr>is_array_len := True\<rparr>) c;
          c = add_method RTK_STRING ''len'' (StringRealType NO_REF)
                (builtin_fn ''string_len'' RECV_SELF_REF [] (UsizeRealType NO_REF)) c;
          c = add_method RTK_STR ''len'' (StrRealType NO_REF)
                (builtin_fn ''str_len'' RECV_SELF_REF [] (UsizeRealType NO_REF)) c;
          c = add_associated RTK_STRING ''from''
                (builtin_fn ''from'' NO_RECEIVER [(''s'', StrRealType REF)] (StringRealType NO_REF)) c;
          c = add_associated RTK_STRING ''from''
                (builtin_fn ''from'' NO_RECEIVER [(''s'', StrRealType REF_MUT)] (StringRealType NO_REF)) c
      in add_method RTK_STRING ''append'' (StringRealType NO_REF)
           (builtin_fn ''append'' RECV_SELF_REF_MUT [(''s'', StrRealType REF)] (UnitRealType NO_REF)) c)"

definition add_builtin_methods_and_associated_funcs :: "Semantic_Checker \<Rightarrow> Semantic_Checker res" where
  "add_builtin_methods_and_associated_funcs c =
     bindr (foldr_res add_root_fn root_fns c) (\<lambda>c. Inr (add_builtin_methods c))"

subsection \<open>The steps\<close>

definition step4_expr_type_and_let_stmt_analysis :: "item list \<Rightarrow> Semantic_Checker \<Rightarrow> Semantic_Checker res" where
  "step4_expr_type_and_let_stmt_analysis items c =
     bindr (visit_all (map array_item items) c) (\<lambda>c.
     bindr (visit_all (map check_item items)
         \<lparr>require_function = False, now_func_decl = None, loop_type_stack = [], ck = c\<rparr>) (\<lambda>st.
       Inr (ck st)))"

definition run_checker :: "item list \<Rightarrow> Semantic_Checker res" where
  "run_checker items =
     bindr (step1_build_scopes_and_collect_symbols items new_checker) (\<lambda>c.
     bindr (step2_resolve_types_and_check c) (\<lambda>c.
     bindr (add_builtin_methods_and_associated_funcs c) (\<lambda>c.
     bindr (step3_constant_evaluation_and_control_flow_analysis items c)
       (step4_expr_type_and_let_stmt_analysis items))))"

end
