(* ===== verification/TypeCheckProps.thy ===== *)
theory TypeCheckProps
  imports Checker TypesProps Traversal
begin

section \<open>What a visit of the type checker changes\<close>

text \<open>
  The visitor with its flag, its stack of loops and the maps that it fills. A visit leaves the
  stack as it found it, up to what its \<open>break\<close>s merge into the innermost loop, stays in the same
  function, and gives a type to every expression that it comes to. It only adds to the maps, and
  marks \<open>exit\<close> only in scopes of \<open>main\<close>.
\<close>

text \<open>The type of a loop after a number of \<open>break\<close>s.\<close>

inductive merges :: "RealType \<Rightarrow> RealType \<Rightarrow> bool" where
  merges_none: "merges t t"
| merges_break: "merges t u \<Longrightarrow> type_merge False u v = Inr w \<Longrightarrow> merges t w"

lemma merges_trans: "merges t u \<Longrightarrow> merges s t \<Longrightarrow> merges s u"
  by (induction rule: merges.induct) (auto intro: merges_break)

definition stack_step :: "RealType list \<Rightarrow> RealType list \<Rightarrow> bool" where
  "stack_step ts us \<longleftrightarrow>
     (case ts of
        [] \<Rightarrow> us = []
      | t # ts' \<Rightarrow> (case us of [] \<Rightarrow> False | u # us' \<Rightarrow> us' = ts' \<and> merges t u))"

lemma stack_step_refl: "stack_step ts ts"
  by (auto simp: stack_step_def merges_none split: list.split)

lemma stack_step_trans: "stack_step ts us \<Longrightarrow> stack_step us vs \<Longrightarrow> stack_step ts vs"
  by (auto simp: stack_step_def merges_trans split: list.splits)

definition typed_nodes :: "type_checker \<Rightarrow> nat set" where
  "typed_nodes st = dom (node_type_and_place_kind_map (ck st))"

definition check_step :: "type_checker \<Rightarrow> type_checker \<Rightarrow> bool" where
  "check_step s t \<longleftrightarrow>
     (\<not> require_function s \<longrightarrow> \<not> require_function t)
     \<and> now_func_decl t = now_func_decl s
     \<and> stack_step (loop_type_stack s) (loop_type_stack t)
     \<and> typed_nodes s \<subseteq> typed_nodes t
     \<and> type_map (ck t) = type_map (ck s) \<and> node_scope_map (ck t) = node_scope_map (ck s)
     \<and> const_expr_to_size_map (ck s) \<subseteq>\<^sub>m const_expr_to_size_map (ck t)
     \<and> dom (let_decls (ck s)) \<subseteq> dom (let_decls (ck t))"

lemma check_step_refl: "check_step s s"
  by (simp add: check_step_def stack_step_refl)

lemma check_step_trans: "check_step s t \<Longrightarrow> check_step t u \<Longrightarrow> check_step s u"
  unfolding check_step_def
  by (elim conjE, intro conjI) (blast | simp | erule (1) stack_step_trans | erule (1) map_le_trans)+

interpretation typing: node_walker "\<lambda>_. True" check_step typed_nodes "\<lambda>_. True"
proof unfold_locales
  fix s t u
  show "check_step s s" by (rule check_step_refl)
  show "check_step s t \<Longrightarrow> check_step t u \<Longrightarrow> check_step s u" by (rule check_step_trans)
  show "check_step s t \<Longrightarrow> typed_nodes s \<subseteq> typed_nodes t" by (simp add: check_step_def)
qed

lemma typingI: "(\<And>s t. f s = Inr t \<Longrightarrow> check_step s t \<and> A \<subseteq> typed_nodes t) \<Longrightarrow> typing.walks A f"
  by (rule typing.walksI) auto

lemma typingD: "typing.walks A f \<Longrightarrow> f s = Inr t \<Longrightarrow> check_step s t \<and> A \<subseteq> typed_nodes t"
  using typing.walksD by blast

lemma typed_as_simps [simp]:
  "require_function (typed_as k t p st) = require_function st" "now_func_decl (typed_as k t p st) = now_func_decl st"
  "loop_type_stack (typed_as k t p st) = loop_type_stack st"
  "typed_nodes (typed_as k t p st) = insert k (typed_nodes st)"
  "type_map (ck (typed_as k t p st)) = type_map (ck st)" "node_scope_map (ck (typed_as k t p st)) = node_scope_map (ck st)"
  "const_expr_to_size_map (ck (typed_as k t p st)) = const_expr_to_size_map (ck st)"
  "let_decls (ck (typed_as k t p st)) = let_decls (ck st)"
  by (auto simp: typed_as_def typed_nodes_def)

text \<open>The end of a visit: a type for the node, and otherwise a permitted change.\<close>

lemma step_typed [simp]: "check_step s u \<Longrightarrow> check_step s (typed_as k ty p u)"
  by (auto simp: check_step_def)

lemma step_ck [simp]:
  "check_step s (s\<lparr>ck := (ck s)\<lparr>identifier_expr_to_decl_map := m\<rparr>\<rparr>)"
  "check_step s (s\<lparr>ck := (ck s)\<lparr>call_expr_to_decl_map := n\<rparr>\<rparr>)"
  "check_step s (s\<lparr>ck := put_scope a sc (ck s)\<rparr>)"
  "check_step s (s\<lparr>require_function := False\<rparr>)"
  by (simp_all add: check_step_def stack_step_refl typed_nodes_def put_scope_def)

lemma walks_no_function: "typing.walks A f \<Longrightarrow> typing.walks A (no_function what f)"
  unfolding no_function_def typing.walks_def by simp

lemma walks_identifier: "typing.walks {k} (check_identifier k name)"
  by (rule typingI) (auto simp: check_identifier_def res_simps split: option.splits)

lemma walks_finish:
  "typing.walks {k} (finish_binary k OP l r)"
  "typing.walks {k} (finish_unary k UOP r)"
  "typing.walks {k} (finish_struct k ty fs)"
  "typing.walks {k} (finish_array k es)"
  "typing.walks {k} (finish_if k g a el)"
  "typing.walks {k} (finish_cast k e ty)"
  "typing.walks {k} (check_block_type k sc tail must)"
  "typing.walks {k} (check_continue k)"
  "typing.walks {k} (check_path k b name)"
  by (rule typingI; auto simp: finish_binary_def finish_unary_def finish_struct_def
        finish_array_def finish_if_def finish_cast_def check_block_type_def check_continue_def
        check_path_def res_simps check_step_refl
      split: option.splits RealType.split_asm if_splits)+

lemma check_self_typed: "check_self k s = Inr t \<Longrightarrow> \<exists>ty p. t = typed_as k ty p s"
proof -
  assume t: "check_self k s = Inr t"
  then obtain d where d: "now_func_decl s = Some d"
    by (cases "now_func_decl s") (simp_all add: check_self_def)
  with t obtain fd where "deref (fn_decls (ck s)) d = Inr fd"
    by (cases "deref (fn_decls (ck s)) d") (simp_all add: check_self_def)
  with d t show ?thesis by (cases "receiver_type fd") (auto simp: check_self_def)
qed

lemma finish_index_typed: "finish_index k b i s = Inr t \<Longrightarrow> \<exists>ty p. t = typed_as k ty p s"
proof -
  assume t: "finish_index k b i s = Inr t"
  then obtain base place u p where types: "type_at s b = Inr (base, place)" "type_at s (expr_id i) = Inr (u, p)"
    by (auto simp: finish_index_def res_simps)
  with t have "kind base = RTK_ARRAY" by (cases base) (auto simp: finish_index_def split: if_splits)
  then obtain r el e n where "base = ArrayRealType r el e n" by (cases base) auto
  with t types show ?thesis by (auto simp: finish_index_def res_simps split: if_splits)
qed

lemma walks_self: "typing.walks {k} (check_self k)"
  by (rule typingI) (use check_self_typed check_step_refl in fastforce)

lemma walks_index: "typing.walks {k} (finish_index k b i)"
  by (rule typingI) (use finish_index_typed check_step_refl in fastforce)

lemma walks_seq: "typing.walks A f \<Longrightarrow> typing.walks {k} g \<Longrightarrow> typing.walks (insert k A) (\<lambda>st. bindr (f st) g)"
  using typing.walks_bind [of A f "{k}" g] by simp

lemma walks_repeat: "typing.walks {k} (finish_repeat k e n)"
proof (rule typingI)
  fix s t assume t: "finish_repeat k e n s = Inr t"
  let ?m = "const_expr_to_size_map (ck s)"
  have "?m \<subseteq>\<^sub>m snd (size_at n ?m)" by (auto simp: size_at_def map_le_def split: option.split)
  then have "check_step s (s\<lparr>ck := (ck s)\<lparr>const_expr_to_size_map := snd (size_at n ?m)\<rparr>\<rparr>)"
    by (simp add: check_step_def stack_step_refl typed_nodes_def)
  with t show "check_step s t \<and> {k} \<subseteq> typed_nodes t"
    by (auto simp: finish_repeat_def res_simps case_prod_unfold Let_def)
qed

subsection \<open>Calls, fields and jumps\<close>

lemma step_require: "check_step (s\<lparr>require_function := b\<rparr>) t \<Longrightarrow> check_step s (t\<lparr>require_function := False\<rparr>)"
  by (simp add: check_step_def typed_nodes_def)

lemma typed_nodes_same [simp]:
  "typed_nodes (s\<lparr>require_function := b\<rparr>) = typed_nodes s"
  "typed_nodes (s\<lparr>loop_type_stack := ts\<rparr>) = typed_nodes s"
  "typed_nodes (s\<lparr>now_func_decl := d\<rparr>) = typed_nodes s"
  "node_type_and_place_kind_map (ck (typed_as k t p s)) k = Some (t, p)"
  by (simp_all add: typed_nodes_def typed_as_def)

lemma note_exit_step: "note_exit s = Inr t \<Longrightarrow> check_step s t"
  by (auto simp: note_exit_def res_simps split: option.splits if_splits)

lemma finish_call_steps:
  assumes run: "finish_call k args callee ts s = Inr t"
  shows "\<exists>b u d ty. (if b then note_exit s else Inr s) = Inr u
    \<and> t = typed_as k ty NotPlace (u\<lparr>ck := (ck u)\<lparr>call_expr_to_decl_map := (call_expr_to_decl_map (ck u))(k \<mapsto> d)\<rparr>\<rparr>)"
proof -
  from run obtain d where d: "decl_of callee = Some d"
    by (cases "decl_of callee") (simp_all add: finish_call_def)
  with run obtain fd u ty where "(if is_exit (fd :: FnDecl) then note_exit s else Inr s) = Inr u"
      "t = typed_as k ty NotPlace (u\<lparr>ck := (ck u)\<lparr>call_expr_to_decl_map := (call_expr_to_decl_map (ck u))(k \<mapsto> d)\<rparr>\<rparr>)"
    by (simp add: finish_call_def res_simps) blast
  then show ?thesis by (intro exI conjI)
qed

lemma walks_finish_call: "typing.walks {k} (finish_call k args callee ts)"
proof (rule typingI)
  fix s t assume "finish_call k args callee ts s = Inr t"
  from finish_call_steps [OF this] obtain b u d ty where u: "(if b then note_exit s else Inr s) = Inr u"
      and t: "t = typed_as k ty NotPlace (u\<lparr>ck := (ck u)\<lparr>call_expr_to_decl_map := (call_expr_to_decl_map (ck u))(k \<mapsto> d)\<rparr>\<rparr>)"
    by blast
  have "check_step s u" using u note_exit_step check_step_refl by (auto split: if_splits)
  with t show "check_step s t \<and> {k} \<subseteq> typed_nodes t"
    using check_step_trans [OF _ step_ck(2)] by auto
qed

lemma visit_args_step:
  assumes "\<And>x. x \<in> set xs \<Longrightarrow> typing.walks (set (I x)) (f x)"
    and "visit_args (zip (map g xs) (map f xs)) s = Inr (ts, t)"
  shows "check_step s t \<and> set (concat (map I xs)) \<subseteq> typed_nodes t"
  using assms
proof (induction xs arbitrary: s ts)
  case Nil
  then show ?case by (simp add: check_step_refl)
next
  case (Cons x xs)
  then obtain u us where u: "f x s = Inr u" "visit_args (zip (map g xs) (map f xs)) u = Inr (us, t)"
    by (auto simp: res_simps)
  have "check_step u t \<and> set (concat (map I xs)) \<subseteq> typed_nodes t" using Cons u(2) by (intro Cons.IH) auto
  moreover have "check_step s u \<and> set (I x) \<subseteq> typed_nodes u" 
    by (rule typingD [OF Cons.prems(1) u(1)]) simp
  ultimately show ?case using check_step_trans typing.step_seen [of u t] by auto
qed

lemma walks_call:
  assumes "typing.walks A f" and "\<And>x. x \<in> set args \<Longrightarrow> typing.walks (set (I x)) (h x)"
  shows "typing.walks (insert k (A \<union> set (concat (map I args)))) (check_call k callee args f (map h args))"
proof (rule typingI)
  fix s t assume "check_call k callee args f (map h args) s = Inr t"
  then obtain u ty p ts v where u: "f (s\<lparr>require_function := True\<rparr>) = Inr u"
      and v: "visit_args (zip (map expr_id args) (map h args)) (u\<lparr>require_function := False\<rparr>) = Inr (ts, v)"
      and t: "finish_call k args ty ts v = Inr t"
    by (auto simp: check_call_def res_simps Let_def split: if_splits)
  have "check_step s (u\<lparr>require_function := False\<rparr>)" "A \<subseteq> typed_nodes (u\<lparr>require_function := False\<rparr>)"
    using typingD [OF assms(1) u] step_require by auto
  moreover have "check_step (u\<lparr>require_function := False\<rparr>) v" "set (concat (map I args)) \<subseteq> typed_nodes v"
    using visit_args_step [OF assms(2) v] by simp_all
  moreover have "check_step v t" "k \<in> typed_nodes t" using typingD [OF walks_finish_call t] by simp_all
  ultimately show "check_step s t \<and> insert k (A \<union> set (concat (map I args))) \<subseteq> typed_nodes t"
    using check_step_trans typing.step_seen by (metis (no_types, lifting) Un_subset_iff insert_subset subset_trans)
qed

lemma walks_field:
  assumes "typing.walks A f"
  shows "typing.walks (insert k A) (check_field k b name f)"
proof (rule typingI)
  fix s t assume "check_field k b name f s = Inr t"
  then obtain u ty p where u: "f (s\<lparr>require_function := False\<rparr>) = Inr u" and t: "t = typed_as k ty p u"
    by (auto simp: check_field_def res_simps split: if_splits)
  from typingD [OF assms u] have "check_step s u" "A \<subseteq> typed_nodes u"
    using check_step_trans [OF step_ck(4)] by simp_all
  with t show "check_step s t \<and> insert k A \<subseteq> typed_nodes t" by auto
qed

lemma walks_return:
  "typing.walks A (visit_opt f) \<Longrightarrow> typing.walks (insert k A) (check_return k v f)"
  by (rule typingI) (auto simp: check_return_def res_simps split: if_splits dest!: typingD)

lemma check_break_steps:
  assumes "check_break k v f s = Inr t"
  shows "\<exists>u ty l ls m. visit_opt f s = Inr u \<and> loop_type_stack u = l # ls \<and> type_merge False l ty = Inr m
    \<and> t = typed_as k (NeverRealType NO_REF) NotPlace (u\<lparr>loop_type_stack := m # ls\<rparr>)"
proof -
  from assms obtain u ty where u: "visit_opt f s = Inr u"
      and rest: "(case loop_type_stack u of [] \<Rightarrow> Inl (Undefined ''empty loop stack'')
        | l # ls \<Rightarrow> bindr (type_merge False l ty) (\<lambda>l.
            Inr (typed_as k (NeverRealType NO_REF) NotPlace (u\<lparr>loop_type_stack := l # ls\<rparr>)))) = Inr t"
    by (auto simp: check_break_def res_simps split: if_splits)
  then show ?thesis by (cases "loop_type_stack u") (auto simp: res_simps)
qed

lemma walks_break:
  assumes "typing.walks A (visit_opt f)"
  shows "typing.walks (insert k A) (check_break k v f)"
proof (rule typingI)
  fix s t assume "check_break k v f s = Inr t"
  from check_break_steps [OF this] obtain u ty l ls m
    where u: "visit_opt f s = Inr u" and l: "loop_type_stack u = l # ls" "type_merge False l ty = Inr m"
      and t: "t = typed_as k (NeverRealType NO_REF) NotPlace (u\<lparr>loop_type_stack := m # ls\<rparr>)"
    by blast
  have "check_step u (u\<lparr>loop_type_stack := m # ls\<rparr>)"
    using l merges_break [OF merges_none] by (simp add: check_step_def stack_step_def typed_nodes_def)
  with typingD [OF assms u] have "check_step s (u\<lparr>loop_type_stack := m # ls\<rparr>)" "A \<subseteq> typed_nodes u"
    using check_step_trans by blast+
  with t show "check_step s t \<and> insert k A \<subseteq> typed_nodes t" by auto
qed

lemma finish_loop_steps:
  "finish_loop k u = Inr t \<Longrightarrow>
    \<exists>m ls. loop_type_stack u = m # ls \<and> t = typed_as k m NotPlace (u\<lparr>loop_type_stack := ls\<rparr>)"
  by (cases "loop_type_stack u") (simp_all add: finish_loop_def)

text \<open>What a loop leaves as its type is what its \<open>break\<close>s have merged.\<close>

lemma walks_loop:
  assumes "typing.walks A body" and "\<And>u t. fin u = Inr t \<Longrightarrow> finish_loop k u = Inr t"
  shows "typing.walks (insert k A) (\<lambda>st. bindr (body (push_loop l st)) fin)"
    and "bindr (body (push_loop l s)) fin = Inr t \<Longrightarrow>
      \<exists>m. merges l m \<and> node_type_and_place_kind_map (ck t) k = Some (m, NotPlace)"
proof -
  have *: "check_step s t \<and> insert k A \<subseteq> typed_nodes t
      \<and> (\<exists>m. merges l m \<and> node_type_and_place_kind_map (ck t) k = Some (m, NotPlace))"
    if run: "bindr (body (push_loop l s)) fin = Inr t" for s t
  proof -
    obtain u where u: "body (push_loop l s) = Inr u" "finish_loop k u = Inr t"
      using run assms(2) by (auto simp: res_simps)
    note body = typingD [OF assms(1) u(1)]
    then obtain m where m: "loop_type_stack u = m # loop_type_stack s" "merges l m"
      by (auto simp: check_step_def push_loop_def stack_step_def split: list.splits)
    with u(2) have t: "t = typed_as k m NotPlace (u\<lparr>loop_type_stack := loop_type_stack s\<rparr>)"
      by (simp add: finish_loop_def)
    have "check_step s (u\<lparr>loop_type_stack := loop_type_stack s\<rparr>)"
      using body by (simp add: check_step_def push_loop_def stack_step_refl typed_nodes_def)
    with body t m(2) show ?thesis by auto
  qed
  show "typing.walks (insert k A) (\<lambda>st. bindr (body (push_loop l st)) fin)"
    by (rule typingI) (use * in blast)
  show "bindr (body (push_loop l s)) fin = Inr t \<Longrightarrow>
      \<exists>m. merges l m \<and> node_type_and_place_kind_map (ck t) k = Some (m, NotPlace)"
    using * by blast
qed

lemma finish_while_loop: "finish_while k g u = Inr t \<Longrightarrow> finish_loop k u = Inr t"
  by (auto simp: finish_while_def res_simps)

subsection \<open>Blocks, local variables and functions\<close>

lemma walks_before_exit: "typing.walks A f \<Longrightarrow> typing.walks A (before_exit a f)"
  by (rule typingI) (auto simp: before_exit_def res_simps dest: typingD split: if_splits)

lemma walks_check_block:
  assumes "\<And>x. x \<in> set ss \<Longrightarrow> typing.walks (set (I x)) (f x)"
    and "\<And>x. x \<in> set_option v \<Longrightarrow> typing.walks (set (I x)) (f x)"
  shows "typing.walks (insert k (set (concat (map I ss)) \<union> set (opt_list (map_option I v))))
    (check_block k (map f ss) tail (map_option f v) must)"
proof (rule typingI)
  fix s t assume "check_block k (map f ss) tail (map_option f v) must s = Inr t"
  then obtain a where run: "bindr (visit_all (map (before_exit a \<circ> f) ss) s) (\<lambda>st.
      bindr (visit_opt (map_option (before_exit a \<circ> f) v) st) (check_block_type k a tail must)) = Inr t"
    by (auto simp: check_block_def res_simps option.map_comp)
  have "typing.walks (set (concat (map I ss)) \<union> (set (opt_list (map_option I v)) \<union> {k}))
    (\<lambda>st. bindr (visit_all (map (before_exit a \<circ> f) ss) st) (\<lambda>st.
      bindr (visit_opt (map_option (before_exit a \<circ> f) v) st) (check_block_type k a tail must)))"
    by (intro typing.walks_bind typing.walks_list typing.walks_option walks_finish)
      (simp_all add: comp_def walks_before_exit assms)
  from typingD [OF this run]
  show "check_step s t \<and> insert k (set (concat (map I ss)) \<union> set (opt_list (map_option I v))) \<subseteq> typed_nodes t"
    by auto
qed

lemma intro_let_frame:
  "intro_let_stmt a p t c = (d, c') \<Longrightarrow>
     type_map c' = type_map c \<and> node_scope_map c' = node_scope_map c
     \<and> const_expr_to_size_map c' = const_expr_to_size_map c
     \<and> node_type_and_place_kind_map c' = node_type_and_place_kind_map c
     \<and> dom (let_decls c) \<subseteq> dom (let_decls c') \<and> fn_decls c' = fn_decls c"
  by (auto simp: intro_let_stmt_def alloc_def Let_def split: prod.splits)

text \<open>A change of the maps alone.\<close>

definition same_front :: "Semantic_Checker \<Rightarrow> Semantic_Checker \<Rightarrow> bool" where
  "same_front c c' \<longleftrightarrow>
     type_map c' = type_map c \<and> node_scope_map c' = node_scope_map c
     \<and> const_expr_to_size_map c' = const_expr_to_size_map c
     \<and> node_type_and_place_kind_map c' = node_type_and_place_kind_map c
     \<and> dom (let_decls c) \<subseteq> dom (let_decls c')"

lemma same_front_step: "same_front (ck s) c \<Longrightarrow> check_step s (s\<lparr>ck := c\<rparr>)"
  by (simp add: same_front_def check_step_def stack_step_refl typed_nodes_def)

lemma same_front_refl: "same_front c c"
  by (simp add: same_front_def)

lemma same_front_trans: "same_front a b \<Longrightarrow> same_front b c \<Longrightarrow> same_front a c"
  by (auto simp: same_front_def)

lemma finish_let_front:
  assumes "finish_let k p t e s = Inr u"
  shows "\<exists>c. same_front (ck s) c \<and> u = s\<lparr>ck := c\<rparr>"
proof -
  let ?c = "\<lambda>a target. snd (intro_let_stmt a p target (ck s))"
  from assms obtain target a m where u: "u = s\<lparr>ck := (?c a target)\<lparr>let_stmt_to_decl_map := m\<rparr>\<rparr>"
    by (auto simp: finish_let_def res_simps case_prod_unfold Let_def)
  have "same_front (ck s) (?c a target)"
    using intro_let_frame [OF prod.collapse [symmetric]] by (simp add: same_front_def)
  then have "same_front (ck s) ((?c a target)\<lparr>let_stmt_to_decl_map := m\<rparr>)" by (simp add: same_front_def)
  with u show ?thesis by blast
qed

lemma walks_finish_let: "typing.walks {} (finish_let k p t e)"
  by (rule typingI) (use finish_let_front same_front_step in fastforce)

lemma walks_let:
  assumes "\<And>x. x \<in> set_option v \<Longrightarrow> typing.walks (set (I x)) (f x)"
  shows "typing.walks (set (opt_list (map_option I v))) (check_let k p t v (map_option f v))"
proof (cases v)
  case None
  then show ?thesis by (auto simp: check_let_def intro: typingI)
next
  case (Some e)
  have "typing.walks (set (opt_list (map_option I v)) \<union> {})
    (\<lambda>st. bindr (visit_opt (map_option f v) st) (finish_let k p t e))"
    by (intro typing.walks_bind typing.walks_option walks_finish_let assms)
  then show ?thesis using Some by (simp add: check_let_def [abs_def])
qed

lemma intro_param_front: "intro_param d a p c = Inr c' \<Longrightarrow> same_front c c'"
  using intro_let_frame [of a "fst p" "snd p" c]
  by (auto simp: intro_param_def res_simps same_front_def put_fn_def split: prod.splits)

lemma foldr_front:
  "(\<And>x c c'. f x c = Inr c' \<Longrightarrow> same_front c c') \<Longrightarrow> foldr_res f xs c = Inr c' \<Longrightarrow> same_front c c'"
proof (induction xs arbitrary: c)
  case Nil
  then show ?case by (simp add: same_front_def)
next
  case (Cons x xs)
  then obtain u where "f x c = Inr u" "foldr_res f xs u = Inr c'" by (auto simp: res_simps)
  with Cons show ?case using same_front_trans by blast
qed

lemma intro_params_front: "intro_params d c = Inr c' \<Longrightarrow> same_front c c'"
proof -
  assume run: "intro_params d c = Inr c'"
  then obtain fd where "deref (fn_decls c) d = Inr fd" by (auto simp: intro_params_def res_simps)
  with run have "c' = c \<or> (\<exists>a. foldr_res (intro_param d a) (parameters fd) c = Inr c')"
    by (cases "parameters fd = []") (auto simp: intro_params_def res_simps)
  then show "same_front c c'"
  proof
    assume "\<exists>a. foldr_res (intro_param d a) (parameters fd) c = Inr c'"
    then obtain a where "foldr_res (intro_param d a) (parameters fd) c = Inr c'" ..
    from foldr_front [OF _ this] show ?thesis using intro_param_front by blast
  qed (simp add: same_front_refl)
qed

lemma check_fn_steps:
  assumes "check_fn k name body f s = Inr t"
  shows "\<exists>d c u. same_front (ck s) c \<and> f (s\<lparr>now_func_decl := Some d, ck := c\<rparr>) = Inr u
    \<and> t = u\<lparr>now_func_decl := now_func_decl s\<rparr>"
proof -
  from assms obtain d c u where "intro_params d (ck s) = Inr c" "f (s\<lparr>now_func_decl := Some d, ck := c\<rparr>) = Inr u"
      "t = u\<lparr>now_func_decl := now_func_decl s\<rparr>"
    by (auto simp: check_fn_def res_simps)
  then show ?thesis using intro_params_front by blast
qed

lemma walks_fn:
  assumes "typing.walks A f"
  shows "typing.walks A (check_fn k name body f)"
proof (rule typingI)
  fix s t assume "check_fn k name body f s = Inr t"
  from check_fn_steps [OF this] obtain d c u where front: "same_front (ck s) c"
      and u: "f (s\<lparr>now_func_decl := Some d, ck := c\<rparr>) = Inr u" and t: "t = u\<lparr>now_func_decl := now_func_decl s\<rparr>"
    by blast
  from typingD [OF assms u] have "dom (let_decls c) \<subseteq> dom (let_decls (ck u))" by (simp add: check_step_def)
  moreover have "dom (let_decls (ck s)) \<subseteq> dom (let_decls c)" using front by (simp add: same_front_def)
  ultimately have "dom (let_decls (ck s)) \<subseteq> dom (let_decls (ck u))" by (rule subset_trans [rotated])
  with typingD [OF assms u] front show "check_step s t \<and> A \<subseteq> typed_nodes t"
    unfolding t check_step_def same_front_def typed_nodes_def by simp
qed

subsection \<open>Every expression gets a type\<close>

text \<open>
  The nodes that get a type: the expressions and expression statements that the visitor comes
  to. It does not go into the size of a repeated array, into types, and into constants.
\<close>

primrec typed_ids_type :: "type_node \<Rightarrow> nat list"
  and typed_ids :: "expr \<Rightarrow> nat list"
  and typed_ids_stmt :: "stmt \<Rightarrow> nat list"
  and typed_ids_item :: "item \<Rightarrow> nat list"
where
  "typed_ids_type (PathType _ _ _) = []"
| "typed_ids_type (ArrayType _ _ _ _) = []"
| "typed_ids_type (UnitType _ _) = []"
| "typed_ids_type (SelfType _ _) = []"
| "typed_ids (LiteralExpr k _ _) = [k]"
| "typed_ids (IdentifierExpr k _) = [k]"
| "typed_ids (BinaryExpr k _ l r) = k # typed_ids l @ typed_ids r"
| "typed_ids (UnaryExpr k _ r) = k # typed_ids r"
| "typed_ids (CallExpr k c args) = k # typed_ids c @ concat (map typed_ids args)"
| "typed_ids (FieldExpr k b _) = k # typed_ids b"
| "typed_ids (StructExpr k t fs) = k # concat (map snd (map (map_prod id typed_ids) fs))"
| "typed_ids (IndexExpr k b i) = k # typed_ids b @ typed_ids i"
| "typed_ids (BlockExpr k ss t _) =
     k # concat (map typed_ids_stmt ss) @ opt_list (map_option typed_ids_stmt t)"
| "typed_ids (IfExpr k c a b _) =
     k # typed_ids c @ typed_ids a @ opt_list (map_option typed_ids b)"
| "typed_ids (WhileExpr k c b) = k # typed_ids c @ typed_ids b"
| "typed_ids (LoopExpr k b _) = k # typed_ids b"
| "typed_ids (ReturnExpr k v) = k # opt_list (map_option typed_ids v)"
| "typed_ids (BreakExpr k v) = k # opt_list (map_option typed_ids v)"
| "typed_ids (ContinueExpr k) = [k]"
| "typed_ids (CastExpr k e t) = k # typed_ids e"
| "typed_ids (PathExpr k t _) = [k]"
| "typed_ids (SelfExpr k) = [k]"
| "typed_ids (UnitExpr k) = [k]"
| "typed_ids (ArrayExpr k es) = k # concat (map typed_ids es)"
| "typed_ids (RepeatArrayExpr k e s) = k # typed_ids e"
| "typed_ids_stmt (LetStmt k p t e) = opt_list (map_option typed_ids e)"
| "typed_ids_stmt (ExprStmt k e _) = k # typed_ids e"
| "typed_ids_stmt (ItemStmt k i) = typed_ids_item i"
| "typed_ids_item (FnItem k _ _ ps rt b) = typed_ids b"
| "typed_ids_item (StructItem k _ fs) = []"
| "typed_ids_item (EnumItem k _ _) = []"
| "typed_ids_item (ImplItem k _ ms) = concat (map typed_ids_item ms)"
| "typed_ids_item (ConstItem k _ t e) = []"

lemma walks_literal:
  "typing.walks {k} (\<lambda>st. bindr (type_of_literal t v) (\<lambda>t. Inr (typed_as k t NotPlace st)))"
  by (rule typingI) (auto simp: res_simps check_step_refl)

lemma walks_unit: "typing.walks {k} (\<lambda>st. Inr (typed_as k t p st))"
  by (rule typingI) (auto simp: check_step_refl)

lemma walks_copy: "typing.walks {k} (\<lambda>st. bindr (type_at st j) (\<lambda>(t, p). Inr (typed_as k t p st)))"
  by (rule typingI) (auto simp: res_simps check_step_refl)

lemma walks_while:
  assumes "typing.walks A f" and "typing.walks B g"
  shows "typing.walks (insert k (A \<union> B))
    (\<lambda>st. bindr (f (push_loop l st)) (\<lambda>st. bindr (g st) (finish_while k c)))"
  using walks_loop(1) [OF typing.walks_bind [OF assms] finish_while_loop] by (simp add: bindr_assoc)

lemma walks_loop_expr: "typing.walks A f \<Longrightarrow> typing.walks (insert k A) (\<lambda>st. bindr (f (push_loop l st)) (finish_loop k))"
  using walks_loop(1) [of A f "finish_loop k" k l] by simp

lemmas check_intros =
  walks_no_function walks_literal walks_unit walks_copy walks_identifier walks_self walks_index walks_repeat
  walks_finish walks_call walks_field walks_return walks_break walks_while walks_loop_expr walks_check_block
  walks_let walks_fn typing.walks_id typing.walks_bind typing.walks_list typing.walks_option typing.walks_fields

lemmas check_simps = check_expr.simps check_stmt.simps check_item.simps

lemma check_walks:
  shows "typed_ids_type t = []"
  and "typing.walks (set (typed_ids e)) (check_expr e)"
  and "typing.walks (set (typed_ids_stmt s)) (check_stmt s)"
  and "typing.walks (set (typed_ids_item i)) (check_item i)"
proof (induction t and e and s and i rule: type_node.induct expr.induct stmt.induct item.induct)
qed (((rule typing.walks_eq, rule check_simps, (rule check_intros | assumption | blast)+) [1]) | (simp) [1])+

subsection \<open>Types are not overwritten\<close>

text \<open>
  A visit writes types only at the nodes of what it visits, so that the types of the operands of
  an operator are still those of their own visits when the operator is checked.
\<close>

definition entry :: "nat \<Rightarrow> type_checker \<Rightarrow> (RealType \<times> PlaceKind) option" where
  "entry i st = node_type_and_place_kind_map (ck st) i"

interpretation keeping: node_walker "\<lambda>_. True" "\<lambda>s t. entry i t = entry i s" "\<lambda>_. {}" "\<lambda>_. True" for i
  by unfold_locales simp_all

abbreviation keeps :: "nat \<Rightarrow> (type_checker \<Rightarrow> type_checker res) \<Rightarrow> bool" where
  "keeps i \<equiv> keeping.walks i {}"

lemma keepsI: "(\<And>s t. f s = Inr t \<Longrightarrow> entry i t = entry i s) \<Longrightarrow> keeps i f"
  by (rule keeping.walksI) auto

lemma keepsD: "keeps i f \<Longrightarrow> f s = Inr t \<Longrightarrow> entry i t = entry i s"
  using keeping.walksD by blast

lemma keeps_eq: "(\<And>s. f s = g s) \<Longrightarrow> keeps i g \<Longrightarrow> keeps i f"
  using keeping.walks_eq by blast

lemma keeps_bind: "keeps i f \<Longrightarrow> keeps i g \<Longrightarrow> keeps i (\<lambda>s. bindr (f s) g)"
  using keeping.walks_bind [of i "{}" f "{}" g] by simp

lemma keeps_all: "(\<And>x. x \<in> set xs \<Longrightarrow> keeps i (f x)) \<Longrightarrow> keeps i (visit_all (map f xs))"
  using keeping.walks_all [of xs i "\<lambda>_. {}" f] by simp

lemma keeps_opt: "(\<And>x. x \<in> set_option v \<Longrightarrow> keeps i (f x)) \<Longrightarrow> keeps i (visit_opt (map_option f v))"
  using keeping.walks_opt [of v i "\<lambda>_. {}" f] by simp

lemma keeps_fields:
  assumes "\<And>p x. p \<in> set xs \<Longrightarrow> x \<in> Basic_BNFs.snds p \<Longrightarrow> keeps i (f x)"
  shows "keeps i (visit_all (map snd (map (map_prod id f) xs)))"
proof -
  have "keeps i (f (snd p))" if "p \<in> set xs" for p using assms [OF that, of "snd p"] by (cases p) simp
  from keeps_all [OF this] show ?thesis by (simp add: comp_def)
qed

lemma entry_simps [simp]:
  "entry i (typed_as k t p s) = (if i = k then Some (t, p) else entry i s)"
  "entry i (s\<lparr>require_function := b\<rparr>) = entry i s" "entry i (s\<lparr>loop_type_stack := ts\<rparr>) = entry i s"
  "entry i (s\<lparr>now_func_decl := d\<rparr>) = entry i s" "entry i (push_loop l s) = entry i s"
  "entry i (s\<lparr>ck := (ck s)\<lparr>identifier_expr_to_decl_map := m\<rparr>\<rparr>) = entry i s"
  "entry i (s\<lparr>ck := (ck s)\<lparr>call_expr_to_decl_map := n\<rparr>\<rparr>) = entry i s"
  "entry i (s\<lparr>ck := (ck s)\<lparr>const_expr_to_size_map := sm\<rparr>\<rparr>) = entry i s"
  "entry i (s\<lparr>ck := put_scope a sc (ck s)\<rparr>) = entry i s"
  by (simp_all add: entry_def typed_as_def push_loop_def put_scope_def)

lemma entry_front: "same_front (ck s) c \<Longrightarrow> entry i (s\<lparr>ck := c\<rparr>) = entry i s"
  by (simp add: same_front_def entry_def)

text \<open>What a visit does at the end is to write at its own node.\<close>

lemma keeps_identifier: "i \<noteq> k \<Longrightarrow> keeps i (check_identifier k name)"
  by (rule keepsI) (auto simp: check_identifier_def res_simps split: option.splits)

lemma keeps_finish:
  assumes "i \<noteq> k"
  shows "keeps i (finish_binary k OP l r)" "keeps i (finish_unary k UOP r)" "keeps i (finish_struct k ty fs)"
    "keeps i (finish_array k es)" "keeps i (finish_if k g a el)" "keeps i (finish_cast k e ty)"
    "keeps i (check_block_type k sc tail must)" "keeps i (check_continue k)" "keeps i (check_path k b name)"
    "keeps i (finish_repeat k e n)"
  by (rule keepsI; use assms in \<open>auto simp: finish_binary_def finish_unary_def finish_struct_def
        finish_array_def finish_if_def finish_cast_def check_block_type_def check_continue_def
        check_path_def finish_repeat_def Let_def case_prod_unfold res_simps
      split: option.splits RealType.split_asm if_splits\<close>)+

lemma keeps_self: "i \<noteq> k \<Longrightarrow> keeps i (check_self k)"
  by (rule keepsI) (use check_self_typed in fastforce)

lemma keeps_index: "i \<noteq> k \<Longrightarrow> keeps i (finish_index k b j)"
  by (rule keepsI) (use finish_index_typed in fastforce)

lemma keeps_no_function: "keeps i f \<Longrightarrow> keeps i (no_function what f)"
  unfolding no_function_def keeping.walks_def by simp

lemma keeps_literal: "i \<noteq> k \<Longrightarrow> keeps i (\<lambda>st. bindr (type_of_literal t v) (\<lambda>t. Inr (typed_as k t NotPlace st)))"
  by (rule keepsI) (auto simp: res_simps)

lemma keeps_unit: "i \<noteq> k \<Longrightarrow> keeps i (\<lambda>st. Inr (typed_as k t p st))"
  by (rule keepsI) auto

lemma keeps_copy: "i \<noteq> k \<Longrightarrow> keeps i (\<lambda>st. bindr (type_at st j) (\<lambda>(t, p). Inr (typed_as k t p st)))"
  by (rule keepsI) (auto simp: res_simps)

lemma note_exit_entry: "note_exit s = Inr t \<Longrightarrow> entry i t = entry i s"
  by (auto simp: note_exit_def res_simps split: option.splits if_splits)

lemma keeps_finish_call: "i \<noteq> k \<Longrightarrow> finish_call k args callee ts s = Inr t \<Longrightarrow> entry i t = entry i s"
  using finish_call_steps [of k args callee ts s t] note_exit_entry [of s _ i] by (auto split: if_splits)

lemma keeps_args:
  assumes "\<And>x. x \<in> set xs \<Longrightarrow> keeps i (f x)" and "visit_args (zip (map g xs) (map f xs)) s = Inr (ts, t)"
  shows "entry i t = entry i s"
  using assms
proof (induction xs arbitrary: s ts)
  case (Cons x xs)
  then obtain u us where u: "f x s = Inr u" "visit_args (zip (map g xs) (map f xs)) u = Inr (us, t)"
    by (auto simp: res_simps)
  have "entry i t = entry i u" using Cons u(2) by (intro Cons.IH) auto
  moreover have "entry i u = entry i s" by (rule keepsD [OF Cons.prems(1) u(1)]) simp
  ultimately show ?case by simp
qed simp

lemma keeps_call:
  assumes "i \<noteq> k" and "keeps i f" and "\<And>x. x \<in> set args \<Longrightarrow> keeps i (h x)"
  shows "keeps i (check_call k callee args f (map h args))"
proof (rule keepsI)
  fix s t assume "check_call k callee args f (map h args) s = Inr t"
  then obtain u ty p ts v where u: "f (s\<lparr>require_function := True\<rparr>) = Inr u"
      and v: "visit_args (zip (map expr_id args) (map h args)) (u\<lparr>require_function := False\<rparr>) = Inr (ts, v)"
      and t: "finish_call k args ty ts v = Inr t"
    by (auto simp: check_call_def res_simps Let_def split: if_splits)
  from keepsD [OF assms(2) u] keeps_args [OF assms(3) v] keeps_finish_call [OF assms(1) t]
  show "entry i t = entry i s" by simp
qed

lemma keeps_field:
  assumes "i \<noteq> k" and "keeps i f"
  shows "keeps i (check_field k b name f)"
proof (rule keepsI)
  fix s t assume "check_field k b name f s = Inr t"
  then obtain u ty p where u: "f (s\<lparr>require_function := False\<rparr>) = Inr u" and t: "t = typed_as k ty p u"
    by (auto simp: check_field_def res_simps split: if_splits)
  from keepsD [OF assms(2) u] t assms(1) show "entry i t = entry i s" by simp
qed

lemma keeps_return: "i \<noteq> k \<Longrightarrow> keeps i (visit_opt f) \<Longrightarrow> keeps i (check_return k v f)"
  by (rule keepsI) (auto simp: check_return_def res_simps split: if_splits dest!: keepsD)

lemma keeps_break: "i \<noteq> k \<Longrightarrow> keeps i (visit_opt f) \<Longrightarrow> keeps i (check_break k v f)"
  by (rule keepsI) (auto dest!: check_break_steps dest: keepsD)

lemma keeps_loop: "i \<noteq> k \<Longrightarrow> keeps i f \<Longrightarrow> keeps i (\<lambda>st. bindr (f (push_loop l st)) (finish_loop k))"
  by (rule keepsI) (auto simp: res_simps dest!: finish_loop_steps dest: keepsD)

lemma keeps_while:
  "i \<noteq> k \<Longrightarrow> keeps i f \<Longrightarrow> keeps i g \<Longrightarrow>
    keeps i (\<lambda>st. bindr (f (push_loop l st)) (\<lambda>st. bindr (g st) (finish_while k c)))"
  by (rule keepsI) (auto simp: res_simps dest!: finish_while_loop finish_loop_steps dest!: keepsD)

lemma keeps_check_block:
  assumes "i \<noteq> k" and "\<And>x. x \<in> set ss \<Longrightarrow> keeps i (f x)" and "\<And>x. x \<in> set_option v \<Longrightarrow> keeps i (f x)"
  shows "keeps i (check_block k (map f ss) tail (map_option f v) must)"
proof (rule keepsI)
  fix s t assume "check_block k (map f ss) tail (map_option f v) must s = Inr t"
  then obtain a where run: "bindr (visit_all (map (before_exit a \<circ> f) ss) s) (\<lambda>st.
      bindr (visit_opt (map_option (before_exit a \<circ> f) v) st) (check_block_type k a tail must)) = Inr t"
    by (auto simp: check_block_def res_simps option.map_comp)
  have before: "keeps i (before_exit a g)" if "keeps i g" for g
    by (rule keepsI) (use that in \<open>auto simp: before_exit_def res_simps dest: keepsD split: if_splits\<close>)
  have "keeps i (\<lambda>st. bindr (visit_all (map (before_exit a \<circ> f) ss) st) (\<lambda>st.
      bindr (visit_opt (map_option (before_exit a \<circ> f) v) st) (check_block_type k a tail must)))"
    by (intro keeps_bind keeps_all keeps_opt keeps_finish) (simp_all add: before assms)
  from keepsD [OF this run] show "entry i t = entry i s" .
qed

lemma keeps_let:
  assumes "\<And>x. x \<in> set_option v \<Longrightarrow> keeps i (f x)"
  shows "keeps i (check_let k p t v (map_option f v))"
proof (rule keepsI)
  fix s u assume "check_let k p t v (map_option f v) s = Inr u"
  then obtain e w where w: "visit_opt (map_option f v) s = Inr w" and u: "finish_let k p t e w = Inr u"
    by (cases v) (auto simp: check_let_def res_simps)
  from keepsD [OF keeps_opt [OF assms] w] finish_let_front [OF u] entry_front
  show "entry i u = entry i s" by auto
qed

lemma keeps_fn: "keeps i f \<Longrightarrow> keeps i (check_fn k name body f)"
proof (rule keepsI)
  fix s t assume f: "keeps i f" and "check_fn k name body f s = Inr t"
  then obtain d c u where "same_front (ck s) c" "f (s\<lparr>now_func_decl := Some d, ck := c\<rparr>) = Inr u"
      "t = u\<lparr>now_func_decl := now_func_decl s\<rparr>"
    using check_fn_steps by blast
  with keepsD [OF f] show "entry i t = entry i s" by (fastforce simp: entry_def same_front_def)
qed

lemmas keeps_intros =
  keeps_no_function keeps_literal keeps_unit keeps_copy keeps_identifier keeps_self keeps_index keeps_finish
  keeps_call keeps_field keeps_return keeps_break keeps_while keeps_loop keeps_check_block keeps_let keeps_fn
  keeps_bind keeps_all keeps_opt keeps_fields

lemma check_keeps:
  shows "typed_ids_type t = []"
  and "i \<notin> set (typed_ids e) \<Longrightarrow> keeps i (check_expr e)"
  and "i \<notin> set (typed_ids_stmt s) \<Longrightarrow> keeps i (check_stmt s)"
  and "i \<notin> set (typed_ids_item it) \<Longrightarrow> keeps i (check_item it)"
proof (induction t and e and s and it rule: type_node.induct expr.induct stmt.induct item.induct)
  case (StructExpr k t fs)
  have "keeps i (check_expr x)" if "p \<in> set fs" "x \<in> Basic_BNFs.snds p" for p x
    using StructExpr that by (cases p) force
  from keeps_fields [of fs i check_expr, OF this] StructExpr.prems show ?case
    by (intro keeps_eq [OF check_simps(7)] keeps_no_function keeps_bind keeps_finish) simp_all
qed (((rule keeps_eq, rule check_simps, (rule keeps_intros keeping.walks_id | (simp; fail))+) [1]) | (simp) [1])+

section \<open>Properties\<close>

definition start_of :: "Semantic_Checker \<Rightarrow> type_checker" where
  "start_of c = \<lparr>require_function = False, now_func_decl = None, loop_type_stack = [], ck = c\<rparr>"

lemma step4_items:
  assumes "step4_expr_type_and_let_stmt_analysis items c = Inr c'"
  shows "\<exists>c1 st. visit_all (map check_item items) (start_of c1) = Inr st \<and> ck st = c'"
  using assms by (auto simp: step4_expr_type_and_let_stmt_analysis_def start_of_def res_simps)

text \<open>
  C29. When the fourth step accepts a program, every expression and expression statement that
  its functions contain has a type and a place kind (the size of a repeated array apart, which
  the constant evaluation has handled).
\<close>

theorem program_typed:
  "case step4_expr_type_and_let_stmt_analysis items c of
     Inr c' \<Rightarrow> list_all (\<lambda>k. k \<in> dom (node_type_and_place_kind_map c')) (concat (map typed_ids_item items))
   | Inl _ \<Rightarrow> True"
proof (cases "step4_expr_type_and_let_stmt_analysis items c")
  case (Inr c')
  then obtain c1 st where st: "visit_all (map check_item items) (start_of c1) = Inr st" "ck st = c'"
    using step4_items by blast
  from typingD [OF typing.walks_list [OF check_walks(4)] st(1)] st(2) Inr show ?thesis
    by (auto simp: typed_nodes_def list_all_iff)
qed simp


lemma merge_unit: "type_merge a (UnitRealType NO_REF) v = Inr w \<Longrightarrow> w = UnitRealType NO_REF"
  by (cases "kind v = RTK_NEVER")
    (auto simp: type_merge_others merge_refs_def merge_kinds_def res_simps split: if_splits ReferenceType.splits)

lemma merges_unit: "merges t u \<Longrightarrow> t = UnitRealType NO_REF \<Longrightarrow> u = t"
  by (induction rule: merges.induct) (auto dest: merge_unit)

lemma loop_merges:
  "check_expr (LoopExpr k b u) s = Inr t \<Longrightarrow> \<exists>m. merges (NeverRealType NO_REF) m \<and> entry k t = Some (m, NotPlace)"
  using walks_loop(2) [OF check_walks(2) [of b], of "finish_loop k" k "NeverRealType NO_REF" s t]
  by (auto simp: no_function_def entry_def split: if_splits)

text \<open>
  C31. A \<open>while\<close> loop that is accepted has the unit type, whatever \<open>break\<close>s it contains, and a
  condition of type \<open>bool\<close>.
\<close>

theorem while_unit:
  "case check_expr (WhileExpr k g b) s of
     Inr t \<Rightarrow> entry k t = Some (UnitRealType NO_REF, NotPlace) \<and> (k = expr_id g \<or>
       map_option (\<lambda>(u, _). (is_ref u, kind u)) (entry (expr_id g) t) = Some (NO_REF, RTK_BOOL))
   | Inl _ \<Rightarrow> True"
proof (cases "check_expr (WhileExpr k g b) s")
  case (Inr t)
  then obtain u where run: "bindr (check_expr g (push_loop (UnitRealType NO_REF) s)) (check_expr b) = Inr u"
      and fin: "finish_while k (expr_id g) u = Inr t"
    by (auto simp: no_function_def res_simps split: if_splits)
  have "bindr (bindr (check_expr g (push_loop (UnitRealType NO_REF) s)) (check_expr b)) (finish_loop k) = Inr t"
    using run finish_while_loop [OF fin] by simp
  from walks_loop(2) [OF typing.walks_bind [OF check_walks(2) check_walks(2)] _ this]
  have "entry k t = Some (UnitRealType NO_REF, NotPlace)" by (auto simp: entry_def dest: merges_unit)
  moreover have "map_option (\<lambda>(u, _). (is_ref u, kind u)) (entry (expr_id g) u) = Some (NO_REF, RTK_BOOL)"
    using fin by (auto simp: finish_while_def bool_condition_def res_simps type_at_def entry_def)
  moreover have "k \<noteq> expr_id g \<Longrightarrow> entry (expr_id g) t = entry (expr_id g) u"
    using finish_loop_steps [OF finish_while_loop [OF fin]] by auto
  ultimately show ?thesis using Inr by auto
qed simp

text \<open>A name that stands for a local variable without \<open>mut\<close>, and the operators that assign.\<close>

definition immutable_local :: "type_checker \<Rightarrow> nat \<Rightarrow> string \<Rightarrow> bool" where
  "immutable_local s i x \<longleftrightarrow> \<not> require_function s \<and>
     (case find_value_decl (ck s) (node_scope_map (ck s) i) x of
        Inr (Some (LetStmt_decl a)) \<Rightarrow> map_option let_is_mut (let_decls (ck s) a) = Some IMMUTABLE
      | _ \<Rightarrow> False)"

definition assigns :: "Binary_Operator \<Rightarrow> bool" where
  "assigns OP \<longleftrightarrow> OP \<in> {BOP_ASSIGN, BOP_ADD_ASSIGN, BOP_SUB_ASSIGN, BOP_MUL_ASSIGN, BOP_DIV_ASSIGN,
     BOP_MOD_ASSIGN, BOP_AND_ASSIGN, BOP_OR_ASSIGN, BOP_XOR_ASSIGN, BOP_SHL_ASSIGN, BOP_SHR_ASSIGN}"

lemma immutable_entry:
  assumes "immutable_local s i x" and "check_expr (IdentifierExpr i x) s = Inr t"
  shows "\<exists>ty. entry i t = Some (ty, ReadOnlyPlace)"
  using assms
  by (auto simp: immutable_local_def check_identifier_def identifier_type_def res_simps
      split: sum.splits option.splits ValueDecl.splits)

lemma binary_immutable: "assigns OP \<Longrightarrow> binary_type OP l ReadOnlyPlace r \<noteq> Inr t"
  by (auto simp: assigns_def binary_type_def mutable_place_def res_simps)

text \<open>
  C28. Assignments respect \<open>mut\<close>: when a name stands for a local variable that was declared
  without \<open>mut\<close>, an assignment to it with any of the assignment operators is rejected, and so
  is taking \<open>&mut\<close> of it. Nothing in the right side, be it a block with its own variables of
  this name, changes this.
\<close>

theorem immutable_not_assigned:
  assumes "immutable_local s i x" and "i \<notin> set (typed_ids r)" and "assigns OP"
  shows "isl (check_expr (BinaryExpr k OP (IdentifierExpr i x) r) s)
    \<and> isl (check_expr (UnaryExpr k UOP_REF_MUT (IdentifierExpr i x)) s)"
proof -
  have False if run: "check_expr (BinaryExpr k OP (IdentifierExpr i x) r) s = Inr t" for t
  proof -
    from run obtain u v where u: "check_expr (IdentifierExpr i x) s = Inr u" and v: "check_expr r u = Inr v"
        and t: "finish_binary k OP i (expr_id r) v = Inr t"
      by (auto simp: no_function_def res_simps simp del: check_expr.simps(2) split: if_splits)
    from immutable_entry [OF assms(1) u] keepsD [OF check_keeps(2) [OF assms(2)] v]
    obtain ty where "type_at v i = Inr (ty, ReadOnlyPlace)" by (auto simp: entry_def type_at_def)
    with t binary_immutable [OF assms(3)] show False by (auto simp: finish_binary_def res_simps)
  qed
  moreover have False if run: "check_expr (UnaryExpr k UOP_REF_MUT (IdentifierExpr i x)) s = Inr t" for t
  proof -
    from run obtain u where u: "check_expr (IdentifierExpr i x) s = Inr u" and t: "finish_unary k UOP_REF_MUT i u = Inr t"
      by (auto simp: no_function_def res_simps simp del: check_expr.simps(2) split: if_splits)
    from immutable_entry [OF assms(1) u] t show False
      by (auto simp: entry_def type_at_def finish_unary_def unary_type_def res_simps)
  qed
  ultimately show ?thesis by (metis isl_def sum.exhaust)
qed

text \<open>Here \<open>x\<close> is an immutable \<open>i32\<close> in the root scope.\<close>

definition x_declared :: type_checker where
  "x_declared = start_of (new_checker\<lparr>let_decls := [1 \<mapsto> \<lparr>let_name = ''x'', let_type = I32RealType NO_REF, let_is_mut = IMMUTABLE\<rparr>],
     scope_local_variable_map := [0 \<mapsto> [(''x'', 1)]], node_scope_map := [7 \<mapsto> 0]\<rparr>)"

lemma immutable_not_assigned_witness:
  "immutable_local x_declared 7 ''x'' \<and> isl (check_expr (BinaryExpr 6 BOP_ASSIGN (IdentifierExpr 7 ''x'') (LiteralExpr 8 LIT_NUMBER ''1'')) x_declared)"
proof -
  have "immutable_local x_declared 7 ''x''"
    by (simp add: immutable_local_def x_declared_def start_of_def new_checker_def find_value_decl_def
        search_def new_scope_def)
  moreover from this have "isl (check_expr (BinaryExpr 6 BOP_ASSIGN (IdentifierExpr 7 ''x'') (LiteralExpr 8 LIT_NUMBER ''1'')) x_declared)"
    using immutable_not_assigned [of x_declared 7 "''x''" "LiteralExpr 8 LIT_NUMBER ''1''" BOP_ASSIGN 6]
    by (simp add: assigns_def)
  ultimately show ?thesis ..
qed

end
