(* ===== verification/Effects.thy ===== *)
theory Effects
  imports Prelude
begin

section \<open>Actions with a state, a value and errors\<close>

text \<open>
  The operations of the back end read and change an object and return a value, or throw. An
  action is a function of the state to an error or a value with the new state; \<open>bind_act\<close> is
  the semicolon of the code.
\<close>

type_synonym ('s, 'a) act = "'s \<Rightarrow> ('a \<times> 's) res"

definition ret_act :: "'a \<Rightarrow> ('s, 'a) act" where
  "ret_act x s = Inr (x, s)"

definition throw_act :: "err \<Rightarrow> ('s, 'a) act" where
  "throw_act e s = Inl e"

definition lift_act :: "'a res \<Rightarrow> ('s, 'a) act" where
  "lift_act m s = bindr m (\<lambda>x. Inr (x, s))"

definition get_act :: "('s \<Rightarrow> 'a) \<Rightarrow> ('s, 'a) act" where
  "get_act f s = Inr (f s, s)"

definition put_act :: "('s \<Rightarrow> 's) \<Rightarrow> ('s, unit) act" where
  "put_act f s = Inr ((), f s)"

definition bind_act :: "('s, 'a) act \<Rightarrow> ('a \<Rightarrow> ('s, 'b) act) \<Rightarrow> ('s, 'b) act" where
  "bind_act m k s = bindr (m s) (\<lambda>(x, t). k x t)"

definition then_act :: "('s, 'a) act \<Rightarrow> ('s, 'b) act \<Rightarrow> ('s, 'b) act" where
  "then_act m k = bind_act m (\<lambda>_. k)"

definition guard_act :: "bool \<Rightarrow> err \<Rightarrow> ('s, unit) act" where
  "guard_act b e s = (if b then Inr ((), s) else Inl e)"

definition when_act :: "bool \<Rightarrow> ('s, unit) act \<Rightarrow> ('s, unit) act" where
  "when_act b m = (if b then m else ret_act ())"

primrec each_act :: "('s, 'a) act list \<Rightarrow> ('s, 'a list) act" where
  "each_act [] = ret_act []"
| "each_act (m # ms) = bind_act m (\<lambda>x. bind_act (each_act ms) (\<lambda>xs. ret_act (x # xs)))"

primrec seq_act :: "('s, unit) act list \<Rightarrow> ('s, unit) act" where
  "seq_act [] = ret_act ()"
| "seq_act (m # ms) = then_act m (seq_act ms)"

lemma bind_act_cong [fundef_cong]:
  "m s = m' s' \<Longrightarrow> (\<And>x t. m' s' = Inr (x, t) \<Longrightarrow> k x t = k' x t) \<Longrightarrow> bind_act m k s = bind_act m' k' s'"
  by (cases "m' s'") (auto simp: bind_act_def)

lemma act_simps [res_simps]:
  "ret_act x s = Inr (y, t) \<longleftrightarrow> y = x \<and> t = s"
  "throw_act e s = Inr z \<longleftrightarrow> False"
  "lift_act r s = Inr (y, t) \<longleftrightarrow> r = Inr y \<and> t = s"
  "get_act f s = Inr (y, t) \<longleftrightarrow> y = f s \<and> t = s"
  "put_act g s = Inr (u, t) \<longleftrightarrow> t = g s"
  "guard_act b e s = Inr (u, t) \<longleftrightarrow> b \<and> t = s"
  by (auto simp: ret_act_def throw_act_def lift_act_def get_act_def put_act_def guard_act_def bindr_eq_Inr)

lemma bind_act_Inr [res_simps]:
  "bind_act m k s = Inr z \<longleftrightarrow> (\<exists>x t. m s = Inr (x, t) \<and> k x t = Inr z)"
  by (auto simp: bind_act_def bindr_eq_Inr)

lemma then_act_Inr [res_simps]:
  "then_act m k s = Inr z \<longleftrightarrow> (\<exists>x t. m s = Inr (x, t) \<and> k t = Inr z)"
  by (simp add: then_act_def bind_act_Inr)

subsection \<open>What actions keep\<close>

text \<open>
  The interface of a component that changes its state only through certain steps: an invariant
  \<open>inv\<close> and a preorder \<open>step\<close> between the states before and after. An action that \<open>acts\<close>
  from \<open>pre\<close> to \<open>post\<close> keeps the invariant, changes the state by a step, and returns a value
  that satisfies \<open>post\<close>. The rules follow the actions above.
\<close>

locale stepping =
  fixes inv :: "'s \<Rightarrow> bool" and step :: "'s \<Rightarrow> 's \<Rightarrow> bool"
  assumes step_refl: "inv s \<Longrightarrow> step s s"
    and step_trans: "step s t \<Longrightarrow> step t u \<Longrightarrow> step s u"
begin

definition acts :: "('s \<Rightarrow> bool) \<Rightarrow> ('s, 'a) act \<Rightarrow> ('a \<Rightarrow> 's \<Rightarrow> bool) \<Rightarrow> bool" where
  "acts pre m post \<longleftrightarrow>
     (\<forall>s x t. inv s \<longrightarrow> pre s \<longrightarrow> m s = Inr (x, t) \<longrightarrow> inv t \<and> step s t \<and> post x t)"

lemma actsI:
  "(\<And>s x t. inv s \<Longrightarrow> pre s \<Longrightarrow> m s = Inr (x, t) \<Longrightarrow> inv t \<and> step s t \<and> post x t) \<Longrightarrow> acts pre m post"
  unfolding acts_def by blast

lemma actsD: "acts pre m post \<Longrightarrow> inv s \<Longrightarrow> pre s \<Longrightarrow> m s = Inr (x, t) \<Longrightarrow> inv t \<and> step s t \<and> post x t"
  unfolding acts_def by blast

lemma acts_weaken:
  "acts pre m post \<Longrightarrow> (\<And>s. inv s \<Longrightarrow> pre' s \<Longrightarrow> pre s) \<Longrightarrow> (\<And>x s. inv s \<Longrightarrow> post x s \<Longrightarrow> post' x s) \<Longrightarrow> acts pre' m post'"
  unfolding acts_def by blast

lemma acts_bind:
  assumes "acts pre m mid" and "\<And>x. acts (mid x) (k x) post"
  shows "acts pre (bind_act m k) post"
proof (rule actsI)
  fix s y u assume s: "inv s" "pre s" and run: "bind_act m k s = Inr (y, u)"
  then obtain x t where m: "m s = Inr (x, t)" and k: "k x t = Inr (y, u)" by (auto simp: res_simps)
  from actsD [OF assms(1) s m] have t: "inv t" "step s t" "mid x t" by auto
  from actsD [OF assms(2) t(1, 3) k] step_trans [OF t(2)] show "inv u \<and> step s u \<and> post y u" by auto
qed

lemma acts_then: "acts pre m (\<lambda>_. mid) \<Longrightarrow> acts mid k post \<Longrightarrow> acts pre (then_act m k) post"
  unfolding then_act_def by (rule acts_bind)

text \<open>
  The rules for what is kept all along: \<open>holds K m\<close> when \<open>K\<close> is true before and after. They
  follow the text of an action and are applied from the outside in.
\<close>

definition holds :: "('s \<Rightarrow> bool) \<Rightarrow> ('s, 'a) act \<Rightarrow> bool" where
  "holds K m \<longleftrightarrow> acts K m (\<lambda>_. K)"

lemma holdsI:
  "(\<And>s x t. inv s \<Longrightarrow> K s \<Longrightarrow> m s = Inr (x, t) \<Longrightarrow> inv t \<and> step s t \<and> K t) \<Longrightarrow> holds K m"
  unfolding holds_def acts_def by blast

lemma holdsD: "holds K m \<Longrightarrow> inv s \<Longrightarrow> K s \<Longrightarrow> m s = Inr (x, t) \<Longrightarrow> inv t \<and> step s t \<and> K t"
  unfolding holds_def acts_def by blast

lemma holds_ret: "holds K (ret_act x)"
  by (rule holdsI) (auto simp: res_simps step_refl)

lemma holds_throw: "holds K (throw_act e)"
  by (rule holdsI) (simp add: res_simps)

lemma holds_lift: "holds K (lift_act r)"
  by (rule holdsI) (auto simp: res_simps step_refl)

lemma holds_get: "holds K (get_act f)"
  by (rule holdsI) (auto simp: res_simps step_refl)

lemma holds_bind: "holds K m \<Longrightarrow> (\<And>x. holds K (k x)) \<Longrightarrow> holds K (bind_act m k)"
  unfolding holds_def by (rule acts_bind)

lemma holds_then: "holds K m \<Longrightarrow> holds K k \<Longrightarrow> holds K (then_act m k)"
  unfolding holds_def by (rule acts_then)

lemma holds_when: "(b \<Longrightarrow> holds K m) \<Longrightarrow> holds K (when_act b m)"
  by (simp add: when_act_def holds_ret)

lemma holds_if: "(b \<Longrightarrow> holds K m) \<Longrightarrow> (\<not> b \<Longrightarrow> holds K n) \<Longrightarrow> holds K (if b then m else n)"
  by simp

lemma holds_option:
  "(x = None \<Longrightarrow> holds K m) \<Longrightarrow> (\<And>y. x = Some y \<Longrightarrow> holds K (n y)) \<Longrightarrow> holds K (case x of None \<Rightarrow> m | Some y \<Rightarrow> n y)"
  by (simp split: option.split)

lemma holds_pair: "(\<And>y z. x = (y, z) \<Longrightarrow> holds K (m y z)) \<Longrightarrow> holds K (case x of (y, z) \<Rightarrow> m y z)"
  by (cases x) simp

lemma holds_list:
  "(x = [] \<Longrightarrow> holds K m) \<Longrightarrow> (\<And>y ys. x = y # ys \<Longrightarrow> holds K (n y ys)) \<Longrightarrow> holds K (case x of [] \<Rightarrow> m | y # ys \<Rightarrow> n y ys)"
  by (simp split: list.split)

lemma holds_each: "(\<And>m. m \<in> set ms \<Longrightarrow> holds K m) \<Longrightarrow> holds K (each_act ms)"
  by (induction ms) (auto intro!: holds_ret holds_bind)

lemma holds_seq: "(\<And>m. m \<in> set ms \<Longrightarrow> holds K m) \<Longrightarrow> holds K (seq_act ms)"
  by (induction ms) (auto intro!: holds_ret holds_then)

lemmas holds_rules = holds_ret holds_throw holds_lift holds_get holds_when holds_if holds_option holds_pair holds_list
  holds_bind holds_then

text \<open>What an action does to states of which more is known.\<close>

lemma holds_frame:
  "holds (\<lambda>_. True) m \<Longrightarrow> (\<And>s t. step s t \<Longrightarrow> K s \<Longrightarrow> K t) \<Longrightarrow> holds K m"
  unfolding holds_def acts_def by blast

end

end
