(* ===== verification/IR.thy ===== *)
theory IR
  imports Effects
begin

section \<open>The intermediate representation\<close>

text \<open>
  The classes of \<open>include/ir/IRBuilder.h\<close> and \<open>src/ir/IRBuilder.cpp\<close> up to \<open>IRModule\<close>: types,
  values, instructions, basic blocks, functions and the module, with their printed form. The
  basic blocks and functions are shared objects; the module owns them here as lists, in the
  order of their creation, and a pointer is a position in the list.
\<close>

subsection \<open>Types\<close>

text \<open>
  A structure type is shared and gets its fields after its creation. There is one for each name
  (\<open>TypeLowering\<close> keeps them in a table), so that a type refers to it by its name and the
  module keeps the fields.
\<close>

datatype IRType =
    VoidType
  | IntegerType nat
  | PointerType IRType
  | IRArrayType IRType nat
  | IRStructType string
  | FunctionType IRType "IRType list"

definition is_integer :: "IRType \<Rightarrow> int \<Rightarrow> bool" where
  "is_integer t bits = (case t of IntegerType n \<Rightarrow> bits < 0 \<or> int n = bits | _ \<Rightarrow> False)"

definition is_pointer :: "IRType \<Rightarrow> bool" where
  "is_pointer t = (case t of PointerType _ \<Rightarrow> True | _ \<Rightarrow> False)"

definition is_void :: "IRType \<Rightarrow> bool" where
  "is_void t = (case t of VoidType \<Rightarrow> True | _ \<Rightarrow> False)"

text \<open>The loops that print a list with \<open>, \<close> between the elements.\<close>

fun join_commas :: "string list \<Rightarrow> string" where
  "join_commas [] = ''''"
| "join_commas [s] = s"
| "join_commas (s # ss) = s @ '', '' @ join_commas ss"

primrec type_string :: "IRType \<Rightarrow> string" where
  "type_string VoidType = ''void''"
| "type_string (IntegerType n) = ''i'' @ nat_to_string n"
| "type_string (PointerType _) = ''ptr''"
| "type_string (IRArrayType t n) = ''['' @ nat_to_string n @ '' x '' @ type_string t @ '']''"
| "type_string (IRStructType name) = ''%'' @ name"
| "type_string (FunctionType r ps) = type_string r @ '' ('' @ join_commas (map type_string ps) @ '')''"

subsection \<open>Values\<close>

text \<open>The literal of a constant is an \<open>int64_t\<close>.\<close>

datatype IRValue =
    RegisterValue string IRType
  | ConstantValue IRType int
  | GlobalValue string IRType string bool string

primrec value_type :: "IRValue \<Rightarrow> IRType" where
  "value_type (RegisterValue _ t) = t"
| "value_type (ConstantValue t _) = t"
| "value_type (GlobalValue _ t _ _ _) = PointerType t"

primrec repr :: "IRValue \<Rightarrow> string" where
  "repr (RegisterValue name _) = ''%'' @ name"
| "repr (ConstantValue t n) =
     (if t = IntegerType 1 then (if n \<noteq> 0 then ''true'' else ''false'') else int_to_string n)"
| "repr (GlobalValue name _ _ _ _) = ''@'' @ name"

primrec typed_repr :: "IRValue \<Rightarrow> string" where
  "typed_repr (RegisterValue name t) = type_string t @ '' '' @ repr (RegisterValue name t)"
| "typed_repr (ConstantValue t n) = type_string t @ '' '' @ repr (ConstantValue t n)"
| "typed_repr (GlobalValue name _ _ _ _) = ''ptr @'' @ name"

primrec global_name :: "IRValue \<Rightarrow> string" where
  "global_name (GlobalValue name _ _ _ _) = name"
| "global_name (RegisterValue _ _) = []"
| "global_name (ConstantValue _ _) = []"

primrec definition_string :: "IRValue \<Rightarrow> string" where
  "definition_string (GlobalValue name t init c linkage) =
     ''@'' @ name @ '' = '' @ linkage @ '' '' @ (if c then ''constant '' else ''global '') @ type_string t
       @ '' '' @ init"
| "definition_string (RegisterValue _ _) = []"
| "definition_string (ConstantValue _ _) = []"

subsection \<open>Instructions\<close>

datatype ICmpPredicate = ICMP_EQ | ICMP_NE | ICMP_SLT | ICMP_SLE | ICMP_SGT | ICMP_SGE | ICMP_ULT | ICMP_ULE
  | ICMP_UGT | ICMP_UGE

datatype Opcode = Op_Add | Op_Sub | Op_Mul | Op_SDiv | Op_UDiv | Op_SRem | Op_URem | Op_And | Op_Or | Op_Xor
  | Op_Shl | Op_AShr | Op_LShr | Op_ZExt | Op_SExt | Op_Trunc | Op_ICmp | Op_Call | Op_Alloca | Op_Load
  | Op_Store | Op_GEP | Op_Br | Op_CondBr | Op_Ret

primrec predicate_to_string :: "ICmpPredicate \<Rightarrow> string" where
  "predicate_to_string ICMP_EQ = ''eq''"
| "predicate_to_string ICMP_NE = ''ne''"
| "predicate_to_string ICMP_SLT = ''slt''"
| "predicate_to_string ICMP_SLE = ''sle''"
| "predicate_to_string ICMP_SGT = ''sgt''"
| "predicate_to_string ICMP_SGE = ''sge''"
| "predicate_to_string ICMP_ULT = ''ult''"
| "predicate_to_string ICMP_ULE = ''ule''"
| "predicate_to_string ICMP_UGT = ''ugt''"
| "predicate_to_string ICMP_UGE = ''uge''"

fun opcode_to_string :: "Opcode \<Rightarrow> string" where
  "opcode_to_string Op_Add = ''add''"
| "opcode_to_string Op_Sub = ''sub''"
| "opcode_to_string Op_Mul = ''mul''"
| "opcode_to_string Op_SDiv = ''sdiv''"
| "opcode_to_string Op_UDiv = ''udiv''"
| "opcode_to_string Op_SRem = ''srem''"
| "opcode_to_string Op_URem = ''urem''"
| "opcode_to_string Op_And = ''and''"
| "opcode_to_string Op_Or = ''or''"
| "opcode_to_string Op_Xor = ''xor''"
| "opcode_to_string Op_Shl = ''shl''"
| "opcode_to_string Op_AShr = ''ashr''"
| "opcode_to_string Op_LShr = ''lshr''"
| "opcode_to_string _ = ''''"

type_synonym block_ptr = nat
type_synonym function_ptr = nat

record IRInstruction =
  inst_opcode :: Opcode
  operands :: "IRValue list"
  inst_result :: "IRValue option"
  literal_type :: "IRType option"
  inst_predicate :: ICmpPredicate
  call_callee :: string
  branch_target :: "block_ptr option"
  true_target :: "block_ptr option"
  false_target :: "block_ptr option"

definition new_instruction :: "Opcode \<Rightarrow> IRValue list \<Rightarrow> IRValue option \<Rightarrow> IRInstruction" where
  "new_instruction OP ops res =
     \<lparr>inst_opcode = OP, operands = ops, inst_result = res, literal_type = None, inst_predicate = ICMP_EQ,
      call_callee = [], branch_target = None, true_target = None, false_target = None\<rparr>"

definition is_terminator :: "IRInstruction \<Rightarrow> bool" where
  "is_terminator inst \<longleftrightarrow> inst_opcode inst \<in> {Op_Br, Op_CondBr, Op_Ret}"

text \<open>
  Printing an instruction needs the labels of the blocks to which it refers. An operand that is
  not there, and a type or target that is null, has no meaning in C++.
\<close>

definition operand :: "IRInstruction \<Rightarrow> nat \<Rightarrow> IRValue res" where
  "operand inst i = (if i < length (operands inst) then Inr (operands inst ! i)
     else Inl (Undefined ''operand out of range''))"

definition target_label :: "(block_ptr \<Rightarrow> string option) \<Rightarrow> block_ptr option \<Rightarrow> string res" where
  "target_label labels b =
     (case b of
        None \<Rightarrow> Inl (Undefined ''null pointer'')
      | Some b \<Rightarrow> (case labels b of None \<Rightarrow> Inl (Undefined ''null pointer'') | Some l \<Rightarrow> Inr l))"

definition emit_result :: "IRInstruction \<Rightarrow> string" where
  "emit_result inst = (case inst_result inst of None \<Rightarrow> '''' | Some r \<Rightarrow> repr r @ '' = '')"

definition emit_binary :: "string \<Rightarrow> IRInstruction \<Rightarrow> string res" where
  "emit_binary mnemonic inst =
     bindr (operand inst 0) (\<lambda>a. bindr (operand inst 1) (\<lambda>b.
       Inr (mnemonic @ '' '' @ type_string (value_type a) @ '' '' @ repr a @ '', '' @ repr b)))"

definition emit_cast :: "string \<Rightarrow> IRInstruction \<Rightarrow> string res" where
  "emit_cast mnemonic inst =
     (case inst_result inst of
        None \<Rightarrow> Inl (RuntimeError ''Cast instruction missing result'')
      | Some r \<Rightarrow> bindr (operand inst 0) (\<lambda>a.
          Inr (repr r @ '' = '' @ mnemonic @ '' '' @ type_string (value_type a) @ '' '' @ repr a @ '' to ''
            @ type_string (value_type r))))"

definition instruction_string :: "(block_ptr \<Rightarrow> string option) \<Rightarrow> IRInstruction \<Rightarrow> string res" where
  "instruction_string labels inst =
     (case inst_opcode inst of
        Op_ZExt \<Rightarrow> emit_cast ''zext'' inst
      | Op_SExt \<Rightarrow> emit_cast ''sext'' inst
      | Op_Trunc \<Rightarrow> emit_cast ''trunc'' inst
      | Op_ICmp \<Rightarrow>
          bindr (emit_binary (predicate_to_string (inst_predicate inst)) inst) (\<lambda>s.
            Inr (emit_result inst @ ''icmp '' @ s))
      | Op_Call \<Rightarrow>
          (case literal_type inst of
             None \<Rightarrow> Inl (Undefined ''null pointer'')
           | Some t \<Rightarrow> Inr (emit_result inst @ ''call '' @ type_string t @ '' @'' @ call_callee inst @ ''(''
               @ join_commas (map typed_repr (operands inst)) @ '')''))
      | Op_Alloca \<Rightarrow>
          (case literal_type inst of
             None \<Rightarrow> Inl (RuntimeError ''alloca missing literal type'')
           | Some t \<Rightarrow> Inr (emit_result inst @ ''alloca '' @ type_string t))
      | Op_Load \<Rightarrow>
          (case inst_result inst of
             None \<Rightarrow> Inl (RuntimeError ''Error, load instruction must contain result.'')
           | Some r \<Rightarrow> bindr (operand inst 0) (\<lambda>a.
               Inr (repr r @ '' = load '' @ type_string (value_type r) @ '', '' @ typed_repr a)))
      | Op_Store \<Rightarrow>
          bindr (operand inst 0) (\<lambda>a. bindr (operand inst 1) (\<lambda>b.
            Inr (''store '' @ typed_repr a @ '', '' @ typed_repr b)))
      | Op_GEP \<Rightarrow>
          (case literal_type inst of
             None \<Rightarrow> Inl (RuntimeError ''getelementptr missing literal type'')
           | Some t \<Rightarrow> Inr (emit_result inst @ ''getelementptr '' @ type_string t
               @ concat (map (\<lambda>a. '', '' @ typed_repr a) (operands inst))))
      | Op_Br \<Rightarrow> bindr (target_label labels (branch_target inst)) (\<lambda>l. Inr (''br label %'' @ l))
      | Op_CondBr \<Rightarrow>
          bindr (operand inst 0) (\<lambda>c. bindr (target_label labels (true_target inst)) (\<lambda>t.
          bindr (target_label labels (false_target inst)) (\<lambda>f.
            Inr (''br '' @ typed_repr c @ '', label %'' @ t @ '', label %'' @ f))))
      | Op_Ret \<Rightarrow>
          Inr (case operands inst of [] \<Rightarrow> ''ret void'' | a # _ \<Rightarrow> ''ret '' @ typed_repr a)
      | OP \<Rightarrow> bindr (emit_binary (opcode_to_string OP) inst) (\<lambda>s. Inr (emit_result inst @ s)))"

subsection \<open>Basic blocks\<close>

record BasicBlock =
  block_label :: string
  instructions :: "IRInstruction list"

definition insert_before_terminator :: "IRInstruction \<Rightarrow> BasicBlock \<Rightarrow> BasicBlock" where
  "insert_before_terminator inst b =
     b\<lparr>instructions := takeWhile (\<lambda>i. \<not> is_terminator i) (instructions b) @ inst #
         dropWhile (\<lambda>i. \<not> is_terminator i) (instructions b)\<rparr>"

definition block_append :: "IRInstruction \<Rightarrow> BasicBlock \<Rightarrow> BasicBlock res" where
  "block_append inst b =
     (if instructions b \<noteq> [] \<and> is_terminator (last (instructions b)) then
        (if is_terminator inst
         then Inl (RuntimeError ''Cannot append a terminator after block terminator'')
         else Inr (insert_before_terminator inst b))
      else Inr (b\<lparr>instructions := instructions b @ [inst]\<rparr>))"

definition get_terminator :: "BasicBlock \<Rightarrow> IRInstruction option" where
  "get_terminator b = List.find is_terminator (rev (instructions b))"

definition block_string :: "(block_ptr \<Rightarrow> string option) \<Rightarrow> BasicBlock \<Rightarrow> string res" where
  "block_string labels b =
     bindr (mapr (instruction_string labels) (instructions b)) (\<lambda>ss.
       Inr (block_label b @ '':\<newline>'' @ concat (map (\<lambda>s. ''    '' @ s @ ''\<newline>'') ss)))"

subsection \<open>Functions\<close>

record IRFunction =
  function_name :: string
  fn_type :: IRType
  ir_params :: "(string \<times> IRType) list"
  blocks :: "block_ptr list"
  is_declaration :: bool
  block_name_counter :: "string \<Rightarrow> nat"

definition new_ir_function :: "string \<Rightarrow> IRType \<Rightarrow> bool \<Rightarrow> IRFunction" where
  "new_ir_function name t d =
     \<lparr>function_name = name, fn_type = t, ir_params = [], blocks = [], is_declaration = d,
      block_name_counter = \<lambda>_. 0\<rparr>"

definition signature_string :: "IRFunction \<Rightarrow> string res" where
  "signature_string f =
     (case fn_type f of
        FunctionType r ts \<Rightarrow>
          Inr (type_string r @ '' @'' @ function_name f @ ''(''
            @ join_commas
                (if ir_params f \<noteq> [] then map (\<lambda>(name, t). type_string t @ '' %'' @ name) (ir_params f)
                 else map type_string ts)
            @ '')'')
      | _ \<Rightarrow> Inl (RuntimeError ''IRFunction type was not a FunctionType''))"

text \<open>The blocks of a definition with an empty line between them.\<close>

fun separated :: "string list \<Rightarrow> string" where
  "separated [] = ''''"
| "separated [s] = s"
| "separated (s # ss) = s @ ''\<newline>'' @ separated ss"

definition block_at :: "BasicBlock list \<Rightarrow> block_ptr \<Rightarrow> BasicBlock res" where
  "block_at bs b = (if b < length bs then Inr (bs ! b) else Inl (Undefined ''null pointer''))"

definition label_at :: "BasicBlock list \<Rightarrow> block_ptr \<Rightarrow> string option" where
  "label_at bs b = (if b < length bs then Some (block_label (bs ! b)) else None)"

definition function_string :: "BasicBlock list \<Rightarrow> IRFunction \<Rightarrow> string res" where
  "function_string bs f =
     bindr (signature_string f) (\<lambda>sig.
       if is_declaration f then Inr (''declare '' @ sig @ ''\<newline>'')
       else
         bindr (mapr (\<lambda>b. bindr (block_at bs b) (block_string (label_at bs))) (blocks f)) (\<lambda>ss.
           Inr (''define '' @ sig @ '' {\<newline>'' @ separated ss @ ''}\<newline>'')))"

subsection \<open>The module\<close>

text \<open>
  \<open>block_store\<close> holds the basic blocks of all functions, \<open>struct_fields\<close> the fields of the
  structure types. The counter of the string literals is a static table with one entry for each
  module in the code.
\<close>

record IRModule =
  target_triple :: string
  data_layout :: string
  type_definitions :: "(string \<times> string list) list"
  module_comments :: "string list"
  ir_globals :: "IRValue list"
  ir_functions :: "IRFunction list"
  block_store :: "BasicBlock list"
  ir_fields :: "string \<rightharpoonup> IRType list"
  string_literal_counter :: nat

definition new_module :: "string \<Rightarrow> string \<Rightarrow> IRModule" where
  "new_module triple layout =
     \<lparr>target_triple = triple, data_layout = layout, type_definitions = [], module_comments = [],
      ir_globals = [], ir_functions = [], block_store = [], ir_fields = Map.empty, string_literal_counter = 0\<rparr>"

definition add_type_definition :: "string \<Rightarrow> string list \<Rightarrow> IRModule \<Rightarrow> IRModule" where
  "add_type_definition name fs m = m\<lparr>type_definitions := type_definitions m @ [(name, fs)]\<rparr>"

definition add_module_comment :: "string \<Rightarrow> IRModule \<Rightarrow> IRModule" where
  "add_module_comment c m = m\<lparr>module_comments := module_comments m @ [c]\<rparr>"

definition create_global :: "string \<Rightarrow> IRType \<Rightarrow> string \<Rightarrow> bool \<Rightarrow> string \<Rightarrow> (IRModule, IRValue) act" where
  "create_global name t init c linkage m =
     (if name \<in> set (map global_name (ir_globals m))
      then Inl (RuntimeError (''Global already exists: '' @ name))
      else let g = GlobalValue name t init c linkage in Inr (g, m\<lparr>ir_globals := ir_globals m @ [g]\<rparr>))"

text \<open>The position of the first function with this name.\<close>

fun find_function :: "string \<Rightarrow> IRFunction list \<Rightarrow> function_ptr option" where
  "find_function name [] = None"
| "find_function name (f # fs) =
     (if function_name f = name then Some 0 else map_option Suc (find_function name fs))"

definition declare_function :: "string \<Rightarrow> IRType \<Rightarrow> IRModule \<Rightarrow> function_ptr \<times> IRModule" where
  "declare_function name t m =
     (case find_function name (ir_functions m) of
        Some f \<Rightarrow> (f, m)
      | None \<Rightarrow> (length (ir_functions m), m\<lparr>ir_functions := ir_functions m @ [new_ir_function name t True]\<rparr>))"

definition define_function :: "string \<Rightarrow> IRType \<Rightarrow> IRModule \<Rightarrow> function_ptr \<times> IRModule" where
  "define_function name t m =
     (case find_function name (ir_functions m) of
        Some f \<Rightarrow> (f, m\<lparr>ir_functions := (ir_functions m)[f := (ir_functions m ! f)\<lparr>is_declaration := False\<rparr>]\<rparr>)
      | None \<Rightarrow> (length (ir_functions m), m\<lparr>ir_functions := ir_functions m @ [new_ir_function name t False]\<rparr>))"

definition module_string :: "IRModule \<Rightarrow> string res" where
  "module_string m =
     bindr (mapr (function_string (block_store m)) (filter is_declaration (ir_functions m))) (\<lambda>decls.
     bindr (mapr (function_string (block_store m)) (filter (\<lambda>f. \<not> is_declaration f) (ir_functions m))) (\<lambda>defs.
       Inr (concat (map (\<lambda>c. c @ ''\<newline>'') (module_comments m))
         @ ''target triple = \"'' @ target_triple m @ ''\"\<newline>''
         @ ''target datalayout = \"'' @ data_layout m @ ''\"\<newline>\<newline>''
         @ (if type_definitions m = [] then ''''
            else concat (map (\<lambda>(name, fs). ''%'' @ name @ '' = type { '' @ join_commas fs @ '' }\<newline>'')
                   (type_definitions m)) @ ''\<newline>'')
         @ (if ir_globals m = [] then ''''
            else concat (map (\<lambda>g. definition_string g @ ''\<newline>'') (ir_globals m)) @ ''\<newline>'')
         @ concat (map (\<lambda>s. s @ ''\<newline>'') decls)
         @ separated defs)))"

end
