(* ===== verification/IRBuilder.thy ===== *)
theory IRBuilder
  imports IR
begin

section \<open>The builder\<close>

text \<open>
  The class \<open>IRBuilder\<close> of \<open>src/ir/IRBuilder.cpp\<close>: it appends instructions to the block at the
  insertion point and makes names for the registers. \<open>IRFunction::create_block\<close> and
  \<open>add_param\<close>, which change a function that the module owns, are here as well.
\<close>

record IRBuilder =
  ir_module :: IRModule
  current_function :: "function_ptr option"
  insertion_block :: "block_ptr option"
  next_reg_index :: nat
  name_hint_counters :: "string \<Rightarrow> nat"
  memcpy_declared :: bool
  memset_declared :: bool

definition new_builder :: "IRModule \<Rightarrow> IRBuilder" where
  "new_builder m =
     \<lparr>ir_module = m, current_function = None, insertion_block = None, next_reg_index = 0,
      name_hint_counters = \<lambda>_. 0, memcpy_declared = False, memset_declared = False\<rparr>"

definition on_module :: "(IRModule, 'a) act \<Rightarrow> (IRBuilder, 'a) act" where
  "on_module f b = bindr (f (ir_module b)) (\<lambda>(x, m). Inr (x, b\<lparr>ir_module := m\<rparr>))"

subsection \<open>Functions of the module\<close>

definition update_function :: "function_ptr \<Rightarrow> (IRFunction \<Rightarrow> IRFunction) \<Rightarrow> IRModule \<Rightarrow> IRModule" where
  "update_function f g m = m\<lparr>ir_functions := (ir_functions m)[f := g (ir_functions m ! f)]\<rparr>"

definition function_create_block :: "function_ptr \<Rightarrow> string \<Rightarrow> (IRModule, block_ptr) act" where
  "function_create_block f l m =
     (if f < length (ir_functions m) then
        let n = block_name_counter (ir_functions m ! f) l;
            block = \<lparr>block_label = dotted l n, instructions = []\<rparr>;
            p = length (block_store m)
        in Inr (p, update_function f
             (\<lambda>fn. fn\<lparr>blocks := blocks fn @ [p], block_name_counter := (block_name_counter fn)(l := n + 1)\<rparr>)
             (m\<lparr>block_store := block_store m @ [block]\<rparr>))
      else Inl (Undefined ''null pointer''))"

definition add_param :: "function_ptr \<Rightarrow> string \<Rightarrow> IRType \<Rightarrow> IRModule \<Rightarrow> IRModule" where
  "add_param f name t = update_function f (\<lambda>fn. fn\<lparr>ir_params := ir_params fn @ [(name, t)]\<rparr>)"

definition set_type_of :: "function_ptr \<Rightarrow> IRType \<Rightarrow> IRModule \<Rightarrow> IRModule" where
  "set_type_of f t = update_function f (\<lambda>fn. fn\<lparr>fn_type := t\<rparr>)"

subsection \<open>The insertion point\<close>

fun function_of_block :: "block_ptr \<Rightarrow> IRFunction list \<Rightarrow> function_ptr option" where
  "function_of_block p [] = None"
| "function_of_block p (f # fs) =
     (if p \<in> set (blocks f) then Some 0 else map_option Suc (function_of_block p fs))"

definition set_insertion_point :: "block_ptr option \<Rightarrow> (IRBuilder, unit) act" where
  "set_insertion_point p b =
     (case p of
        None \<Rightarrow> Inr ((), b\<lparr>insertion_block := None, current_function := None\<rparr>)
      | Some q \<Rightarrow> (case function_of_block q (ir_functions (ir_module b)) of
          None \<Rightarrow> Inl (RuntimeError ''Insertion block does not belong to module'')
        | Some f \<Rightarrow> Inr ((), b\<lparr>insertion_block := Some q, current_function := Some f\<rparr>)))"

definition insert_instruction :: "IRInstruction \<Rightarrow> (IRBuilder, unit) act" where
  "insert_instruction inst b =
     (case insertion_block b of
        None \<Rightarrow> Inl (RuntimeError ''Insertion block is not set'')
      | Some p \<Rightarrow>
          bindr (block_at (block_store (ir_module b)) p) (\<lambda>block.
          bindr (block_append inst block) (\<lambda>block'.
            let m = ir_module b
            in Inr ((), b\<lparr>ir_module := m\<lparr>block_store := (block_store m)[p := block']\<rparr>\<rparr>))))"

definition create_block :: "string \<Rightarrow> (IRBuilder, block_ptr) act" where
  "create_block l =
     bind_act (get_act current_function) (\<lambda>f.
       case f of
         None \<Rightarrow> throw_act (RuntimeError ''No current function to attach block'')
       | Some f \<Rightarrow> on_module (function_create_block f l))"

definition create_temp :: "IRType \<Rightarrow> string \<Rightarrow> (IRBuilder, IRValue) act" where
  "create_temp t hint b =
     (if hint = []
      then Inr (RegisterValue (dotted ''tmp'' (next_reg_index b)) t, b\<lparr>next_reg_index := next_reg_index b + 1\<rparr>)
      else let n = name_hint_counters b hint
           in Inr (RegisterValue (dotted hint n) t, b\<lparr>name_hint_counters := (name_hint_counters b)(hint := n + 1)\<rparr>))"

text \<open>An instruction whose result is a new register of type \<open>t\<close>; \<open>f\<close> sets its other fields.\<close>

definition emit_new_value :: "Opcode \<Rightarrow> IRValue list \<Rightarrow> IRType \<Rightarrow> string \<Rightarrow> (IRInstruction \<Rightarrow> IRInstruction) \<Rightarrow>
    (IRBuilder, IRValue) act" where
  "emit_new_value OP ops t hint f =
     bind_act (create_temp t hint) (\<lambda>r.
     then_act (insert_instruction (f (new_instruction OP ops (Some r)))) (ret_act r))"

subsection \<open>Memory\<close>

definition create_alloca :: "IRType \<Rightarrow> string \<Rightarrow> (IRBuilder, IRValue) act" where
  "create_alloca t hint = emit_new_value Op_Alloca [] (PointerType t) hint (\<lambda>i. i\<lparr>literal_type := Some t\<rparr>)"

definition create_temp_alloca :: "IRType \<Rightarrow> string \<Rightarrow> (IRBuilder, IRValue) act" where
  "create_temp_alloca t hint =
     bind_act (get_act current_function) (\<lambda>f.
       case f of
         None \<Rightarrow> throw_act (RuntimeError ''Cannot allocate temporary without current function'')
       | Some f \<Rightarrow>
           bind_act (get_act (\<lambda>b. blocks (ir_functions (ir_module b) ! f))) (\<lambda>bs.
           bind_act (case bs of [] \<Rightarrow> on_module (function_create_block f ''entry'') | p # _ \<Rightarrow> ret_act p) (\<lambda>entry.
           bind_act (get_act insertion_block) (\<lambda>saved_block.
           then_act (set_insertion_point (Some entry))
             (bind_act (create_alloca t hint) (\<lambda>slot.
              then_act (set_insertion_point saved_block) (ret_act slot)))))))"

definition create_load :: "IRValue \<Rightarrow> string \<Rightarrow> (IRBuilder, IRValue) act" where
  "create_load address hint =
     (case value_type address of
        PointerType t \<Rightarrow> emit_new_value Op_Load [address] t hint id
      | _ \<Rightarrow> throw_act (RuntimeError ''Unknown pointee type for load''))"

definition create_store :: "IRValue \<Rightarrow> IRValue \<Rightarrow> (IRBuilder, unit) act" where
  "create_store v address = insert_instruction (new_instruction Op_Store [v, address] None)"

text \<open>The type of the element to which a list of indices leads; the first index steps over the pointer.\<close>

fun gep_element :: "(string \<rightharpoonup> IRType list) \<Rightarrow> IRType \<Rightarrow> IRValue list \<Rightarrow> IRType res" where
  "gep_element fs t [] = Inr t"
| "gep_element fs (IRArrayType t n) (i # is) = gep_element fs t is"
| "gep_element fs (IRStructType name) (i # is) =
     (case i of
        ConstantValue _ n \<Rightarrow>
          if n < 0 then Inl (RuntimeError ''GEP struct index cannot be negative'')
          else
            let ts = (case fs name of Some ts \<Rightarrow> ts | None \<Rightarrow> [])
            in if length ts \<le> nat n then Inl (RuntimeError ''GEP struct index out of range'')
               else gep_element fs (ts ! nat n) is
      | _ \<Rightarrow> Inl (RuntimeError ''GEP struct index must be a constant literal''))"
| "gep_element fs t (i # is) = gep_element fs t is"

definition deduce_gep_pointee :: "(string \<rightharpoonup> IRType list) \<Rightarrow> IRType \<Rightarrow> IRValue list \<Rightarrow> IRType res" where
  "deduce_gep_pointee fs root is = (case is of [] \<Rightarrow> Inr root | _ # is \<Rightarrow> gep_element fs root is)"

definition create_gep :: "IRValue \<Rightarrow> IRType \<Rightarrow> IRValue list \<Rightarrow> string \<Rightarrow> (IRBuilder, IRValue) act" where
  "create_gep base t indices hint =
     bind_act (get_act (\<lambda>b. ir_fields (ir_module b))) (\<lambda>fs.
     bind_act (lift_act (deduce_gep_pointee fs t indices)) (\<lambda>pointee.
       emit_new_value Op_GEP (base # indices) (PointerType pointee) hint (\<lambda>i. i\<lparr>literal_type := Some t\<rparr>)))"

subsection \<open>Arithmetic, casts and comparisons\<close>

definition create_simple_arith :: "Opcode \<Rightarrow> IRValue \<Rightarrow> IRValue \<Rightarrow> string \<Rightarrow> (IRBuilder, IRValue) act" where
  "create_simple_arith OP lhs rhs hint = emit_new_value OP [lhs, rhs] (value_type lhs) hint id"

definition create_add :: "IRValue \<Rightarrow> IRValue \<Rightarrow> string \<Rightarrow> (IRBuilder, IRValue) act" where
  "create_add = create_simple_arith Op_Add"
definition create_sub :: "IRValue \<Rightarrow> IRValue \<Rightarrow> string \<Rightarrow> (IRBuilder, IRValue) act" where
  "create_sub = create_simple_arith Op_Sub"
definition create_mul :: "IRValue \<Rightarrow> IRValue \<Rightarrow> string \<Rightarrow> (IRBuilder, IRValue) act" where
  "create_mul = create_simple_arith Op_Mul"
definition create_sdiv :: "IRValue \<Rightarrow> IRValue \<Rightarrow> string \<Rightarrow> (IRBuilder, IRValue) act" where
  "create_sdiv = create_simple_arith Op_SDiv"
definition create_udiv :: "IRValue \<Rightarrow> IRValue \<Rightarrow> string \<Rightarrow> (IRBuilder, IRValue) act" where
  "create_udiv = create_simple_arith Op_UDiv"
definition create_srem :: "IRValue \<Rightarrow> IRValue \<Rightarrow> string \<Rightarrow> (IRBuilder, IRValue) act" where
  "create_srem = create_simple_arith Op_SRem"
definition create_urem :: "IRValue \<Rightarrow> IRValue \<Rightarrow> string \<Rightarrow> (IRBuilder, IRValue) act" where
  "create_urem = create_simple_arith Op_URem"
definition create_and :: "IRValue \<Rightarrow> IRValue \<Rightarrow> string \<Rightarrow> (IRBuilder, IRValue) act" where
  "create_and = create_simple_arith Op_And"
definition create_or :: "IRValue \<Rightarrow> IRValue \<Rightarrow> string \<Rightarrow> (IRBuilder, IRValue) act" where
  "create_or = create_simple_arith Op_Or"
definition create_xor :: "IRValue \<Rightarrow> IRValue \<Rightarrow> string \<Rightarrow> (IRBuilder, IRValue) act" where
  "create_xor = create_simple_arith Op_Xor"
definition create_shl :: "IRValue \<Rightarrow> IRValue \<Rightarrow> string \<Rightarrow> (IRBuilder, IRValue) act" where
  "create_shl = create_simple_arith Op_Shl"
definition create_lshr :: "IRValue \<Rightarrow> IRValue \<Rightarrow> string \<Rightarrow> (IRBuilder, IRValue) act" where
  "create_lshr = create_simple_arith Op_LShr"
definition create_ashr :: "IRValue \<Rightarrow> IRValue \<Rightarrow> string \<Rightarrow> (IRBuilder, IRValue) act" where
  "create_ashr = create_simple_arith Op_AShr"

definition create_cast :: "Opcode \<Rightarrow> IRValue \<Rightarrow> IRType \<Rightarrow> string \<Rightarrow> (IRBuilder, IRValue) act" where
  "create_cast OP v t hint = emit_new_value OP [v] t hint id"

definition create_zext :: "IRValue \<Rightarrow> IRType \<Rightarrow> string \<Rightarrow> (IRBuilder, IRValue) act" where
  "create_zext = create_cast Op_ZExt"
definition create_sext :: "IRValue \<Rightarrow> IRType \<Rightarrow> string \<Rightarrow> (IRBuilder, IRValue) act" where
  "create_sext = create_cast Op_SExt"
definition create_trunc :: "IRValue \<Rightarrow> IRType \<Rightarrow> string \<Rightarrow> (IRBuilder, IRValue) act" where
  "create_trunc = create_cast Op_Trunc"

definition create_compare :: "ICmpPredicate \<Rightarrow> IRValue \<Rightarrow> IRValue \<Rightarrow> string \<Rightarrow> (IRBuilder, IRValue) act" where
  "create_compare p lhs rhs hint =
     emit_new_value Op_ICmp [lhs, rhs] (IntegerType 1) hint (\<lambda>i. i\<lparr>inst_predicate := p\<rparr>)"

definition create_icmp_eq :: "IRValue \<Rightarrow> IRValue \<Rightarrow> string \<Rightarrow> (IRBuilder, IRValue) act" where
  "create_icmp_eq = create_compare ICMP_EQ"
definition create_icmp_ne :: "IRValue \<Rightarrow> IRValue \<Rightarrow> string \<Rightarrow> (IRBuilder, IRValue) act" where
  "create_icmp_ne = create_compare ICMP_NE"
definition create_icmp_slt :: "IRValue \<Rightarrow> IRValue \<Rightarrow> string \<Rightarrow> (IRBuilder, IRValue) act" where
  "create_icmp_slt = create_compare ICMP_SLT"
definition create_icmp_sle :: "IRValue \<Rightarrow> IRValue \<Rightarrow> string \<Rightarrow> (IRBuilder, IRValue) act" where
  "create_icmp_sle = create_compare ICMP_SLE"
definition create_icmp_sgt :: "IRValue \<Rightarrow> IRValue \<Rightarrow> string \<Rightarrow> (IRBuilder, IRValue) act" where
  "create_icmp_sgt = create_compare ICMP_SGT"
definition create_icmp_sge :: "IRValue \<Rightarrow> IRValue \<Rightarrow> string \<Rightarrow> (IRBuilder, IRValue) act" where
  "create_icmp_sge = create_compare ICMP_SGE"
definition create_icmp_ult :: "IRValue \<Rightarrow> IRValue \<Rightarrow> string \<Rightarrow> (IRBuilder, IRValue) act" where
  "create_icmp_ult = create_compare ICMP_ULT"
definition create_icmp_ule :: "IRValue \<Rightarrow> IRValue \<Rightarrow> string \<Rightarrow> (IRBuilder, IRValue) act" where
  "create_icmp_ule = create_compare ICMP_ULE"
definition create_icmp_ugt :: "IRValue \<Rightarrow> IRValue \<Rightarrow> string \<Rightarrow> (IRBuilder, IRValue) act" where
  "create_icmp_ugt = create_compare ICMP_UGT"
definition create_icmp_uge :: "IRValue \<Rightarrow> IRValue \<Rightarrow> string \<Rightarrow> (IRBuilder, IRValue) act" where
  "create_icmp_uge = create_compare ICMP_UGE"

definition create_not :: "IRValue \<Rightarrow> string \<Rightarrow> (IRBuilder, IRValue) act" where
  "create_not v hint =
     (if is_integer (value_type v) 1
      then create_simple_arith Op_Xor v (ConstantValue (value_type v) 1) hint
      else throw_act (RuntimeError ''create_not expects an i1 operand''))"

subsection \<open>Control flow and calls\<close>

definition create_br :: "block_ptr \<Rightarrow> (IRBuilder, unit) act" where
  "create_br target = insert_instruction ((new_instruction Op_Br [] None)\<lparr>branch_target := Some target\<rparr>)"

definition create_cond_br :: "IRValue \<Rightarrow> block_ptr \<Rightarrow> block_ptr \<Rightarrow> (IRBuilder, unit) act" where
  "create_cond_br c t f =
     insert_instruction ((new_instruction Op_CondBr [c] None)\<lparr>true_target := Some t, false_target := Some f\<rparr>)"

definition create_ret :: "IRValue option \<Rightarrow> (IRBuilder, unit) act" where
  "create_ret v = insert_instruction (new_instruction Op_Ret (case v of None \<Rightarrow> [] | Some v \<Rightarrow> [v]) None)"

definition create_call :: "string \<Rightarrow> IRValue list \<Rightarrow> IRType \<Rightarrow> string \<Rightarrow> (IRBuilder, IRValue option) act" where
  "create_call callee args t name =
     (let f = \<lambda>i. i\<lparr>call_callee := callee, literal_type := Some t\<rparr>
      in if is_void t
         then then_act (insert_instruction (f (new_instruction Op_Call args None))) (ret_act None)
         else bind_act (emit_new_value Op_Call args t name f) (\<lambda>r. ret_act (Some r)))"

definition declare_in_module :: "string \<Rightarrow> IRType list \<Rightarrow> (IRBuilder, unit) act" where
  "declare_in_module name ps =
     put_act (\<lambda>b. b\<lparr>ir_module := snd (declare_function name (FunctionType VoidType ps) (ir_module b))\<rparr>)"

definition ensure_memcpy_declared :: "(IRBuilder, unit) act" where
  "ensure_memcpy_declared =
     bind_act (get_act memcpy_declared) (\<lambda>d.
       when_act (\<not> d)
         (then_act
           (declare_in_module ''llvm.memcpy.p0.p0.i32''
             [PointerType (IntegerType 8), PointerType (IntegerType 8), IntegerType 32, IntegerType 1])
           (put_act (\<lambda>b. b\<lparr>memcpy_declared := True\<rparr>))))"

definition ensure_memset_declared :: "(IRBuilder, unit) act" where
  "ensure_memset_declared =
     bind_act (get_act memset_declared) (\<lambda>d.
       when_act (\<not> d)
         (then_act
           (declare_in_module ''llvm.memset.p0.i32''
             [PointerType (IntegerType 8), IntegerType 8, IntegerType 32, IntegerType 1])
           (put_act (\<lambda>b. b\<lparr>memset_declared := True\<rparr>))))"

definition volatile_flag :: "bool \<Rightarrow> IRValue" where
  "volatile_flag v = ConstantValue (IntegerType 1) (if v then 1 else 0)"

definition create_memcpy :: "IRValue \<Rightarrow> IRValue \<Rightarrow> IRValue \<Rightarrow> bool \<Rightarrow> (IRBuilder, unit) act" where
  "create_memcpy dst src len is_volatile =
     then_act ensure_memcpy_declared
       (then_act (create_call ''llvm.memcpy.p0.p0.i32'' [dst, src, len, volatile_flag is_volatile] VoidType [])
         (ret_act ()))"

definition create_memset :: "IRValue \<Rightarrow> IRValue \<Rightarrow> IRValue \<Rightarrow> bool \<Rightarrow> (IRBuilder, unit) act" where
  "create_memset dst v len is_volatile =
     then_act ensure_memset_declared
       (then_act (create_call ''llvm.memset.p0.i32'' [dst, v, len, volatile_flag is_volatile] VoidType [])
         (ret_act ()))"

subsection \<open>Literals\<close>

text \<open>\<open>std::isprint\<close> in the C locale; other characters, quotes and backslashes become two hexadecimal digits.\<close>

definition is_print :: "char \<Rightarrow> bool" where
  "is_print c \<longleftrightarrow> (32::nat) \<le> of_char c \<and> of_char c \<le> (126::nat)"

definition hex_digit :: "nat \<Rightarrow> char" where
  "hex_digit d = (if d < 10 then char_of (48 + d) else char_of (55 + d))"

definition encode_char :: "char \<Rightarrow> string" where
  "encode_char c =
     (if is_print c \<and> c \<noteq> CHR 0x5C \<and> c \<noteq> CHR 0x22 then [c]
      else [CHR 0x5C, hex_digit (of_char c div 16), hex_digit (of_char c mod 16)])"

definition encode_string_literal :: "string \<Rightarrow> string" where
  "encode_string_literal s =
     ''c'' @ [CHR 0x22] @ concat (map encode_char s) @ [CHR 0x5C] @ ''00'' @ [CHR 0x22]"

definition create_string_literal :: "string \<Rightarrow> (IRBuilder, IRValue) act" where
  "create_string_literal s =
     on_module (\<lambda>m.
       create_global (dotted ''.str'' (string_literal_counter m)) (IRArrayType (IntegerType 8) (length s + 1))
         (encode_string_literal s) True ''private''
         (m\<lparr>string_literal_counter := string_literal_counter m + 1\<rparr>))"

definition create_i32_constant :: "int \<Rightarrow> IRValue" where
  "create_i32_constant n = ConstantValue (IntegerType 32) n"

end
