(* ===== verification/TypeLowering.thy ===== *)
theory TypeLowering
  imports IRBuilder Decls
begin

section \<open>Lowering types and constants\<close>

text \<open>
  The class \<open>TypeLowering\<close> of \<open>src/ir/type_lowering.cpp\<close>: the IR type of a type of the
  language, the signature of a function, scalar constants, the structure types of the module,
  and the sizes and alignments of the memory layout.
\<close>

record TypeLowering =
  struct_cache :: "string set"
  pending_struct_defs :: "string set"
  struct_size_cache :: "string \<rightharpoonup> nat"
  struct_align_cache :: "string \<rightharpoonup> nat"
  struct_size_in_progress :: "string set"

definition new_type_lowering :: TypeLowering where
  "new_type_lowering =
     \<lparr>struct_cache = {}, pending_struct_defs = {}, struct_size_cache = Map.empty,
      struct_align_cache = Map.empty, struct_size_in_progress = {}\<rparr>"

definition kPointerSizeBytes :: nat where
  "kPointerSizeBytes = 4"

definition receiver_to_ref :: "fn_reciever_type \<Rightarrow> ReferenceType" where
  "receiver_to_ref receiver =
     (case receiver of RECV_SELF \<Rightarrow> NO_REF | RECV_SELF_REF \<Rightarrow> REF | RECV_SELF_REF_MUT \<Rightarrow> REF_MUT | NO_RECEIVER \<Rightarrow> NO_REF)"

definition strip_reference :: "RealType \<Rightarrow> RealType" where
  "strip_reference t = with_ref NO_REF t"

definition clone_with_ref :: "RealType \<Rightarrow> ReferenceType \<Rightarrow> RealType" where
  "clone_with_ref t r = with_ref r (strip_reference t)"

definition is_aggregate_return :: "RealType \<Rightarrow> bool" where
  "is_aggregate_return t \<longleftrightarrow> is_ref t = NO_REF \<and> kind t \<in> {RTK_ARRAY, RTK_STRUCT, RTK_STRING, RTK_STR}"

subsection \<open>Types\<close>

text \<open>A reference is lowered to a pointer to what its base type is lowered to.\<close>

definition pointer_to :: "ReferenceType \<Rightarrow> IRType res \<Rightarrow> IRType res" where
  "pointer_to r t = (if r = NO_REF then t else bindr t (\<lambda>t. Inr (PointerType t)))"

definition cached_struct :: "string \<Rightarrow> string \<Rightarrow> TypeLowering \<Rightarrow> IRType res" where
  "cached_struct name message lw =
     (if name \<in> struct_cache lw then Inr (IRStructType name) else Inl (RuntimeError message))"

text \<open>
  \<open>lower\<close> and \<open>lower_function\<close> call each other through the declaration of a function type. The
  first definition takes what becomes of such a declaration as an argument; the nesting that
  \<open>lower\<close> allows is two, more than can occur, as no parameter or result has a function type.
\<close>

primrec lower_with :: "(address \<Rightarrow> IRType res) \<Rightarrow> Semantic_Checker \<Rightarrow> TypeLowering \<Rightarrow> RealType \<Rightarrow> IRType res" where
  "lower_with lf c lw (BoolRealType r) = pointer_to r (Inr (IntegerType 1))"
| "lower_with lf c lw (CharRealType r) = pointer_to r (Inr (IntegerType 8))"
| "lower_with lf c lw (UnitRealType r) = pointer_to r (Inr VoidType)"
| "lower_with lf c lw (NeverRealType r) = pointer_to r (Inr VoidType)"
| "lower_with lf c lw (I32RealType r) = pointer_to r (Inr (IntegerType 32))"
| "lower_with lf c lw (IsizeRealType r) = pointer_to r (Inr (IntegerType 32))"
| "lower_with lf c lw (U32RealType r) = pointer_to r (Inr (IntegerType 32))"
| "lower_with lf c lw (UsizeRealType r) = pointer_to r (Inr (IntegerType 32))"
| "lower_with lf c lw (AnyIntRealType r) = pointer_to r (Inr (IntegerType 32))"
| "lower_with lf c lw (EnumRealType r _ _) = pointer_to r (Inr (IntegerType 32))"
| "lower_with lf c lw (ArrayRealType r t _ n) =
     pointer_to r
       (if n = 0 then Inl (RuntimeError ''array size missing'')
        else bindr (lower_with lf c lw t) (\<lambda>t. Inr (IRArrayType t n)))"
| "lower_with lf c lw (StructRealType r _ d) =
     pointer_to r
       (case d of
          None \<Rightarrow> Inl (RuntimeError ''StructDecl missing'')
        | Some a \<Rightarrow> bindr (deref (struct_decls c) a) (\<lambda>sd. cached_struct (struct_name sd) ''struct not declared'' lw))"
| "lower_with lf c lw (StringRealType r) = pointer_to r (cached_struct ''String'' ''String type not declared'' lw)"
| "lower_with lf c lw (StrRealType r) = pointer_to r (cached_struct ''Str'' ''Str type not declared'' lw)"
| "lower_with lf c lw (FunctionRealType r d) =
     pointer_to r (case d of None \<Rightarrow> Inl (RuntimeError ''FnDecl missing'') | Some a \<Rightarrow> lf a)"

definition self_type :: "Semantic_Checker \<Rightarrow> FnDecl \<Rightarrow> RealType res" where
  "self_type c fd =
     (let r = receiver_to_ref (receiver_type fd)
      in case fn_self_struct fd of
           Some a \<Rightarrow> bindr (deref (struct_decls c) a) (\<lambda>sd. Inr (StructRealType r (struct_name sd) (Some a)))
         | None \<Rightarrow>
             (case builtin_method_self_type fd of
                Some t \<Rightarrow> if is_builtin fd then Inr (clone_with_ref t r)
                  else Inl (RuntimeError ''method missing self struct'')
              | None \<Rightarrow> Inl (RuntimeError ''method missing self struct'')))"

definition return_real_type :: "FnDecl \<Rightarrow> RealType" where
  "return_real_type fd = (case return_type fd of Some t \<Rightarrow> t | None \<Rightarrow> UnitRealType NO_REF)"

definition lower_function_with :: "(RealType \<Rightarrow> IRType res) \<Rightarrow> Semantic_Checker \<Rightarrow> address \<Rightarrow> IRType res" where
  "lower_function_with low c d =
     bindr (deref (fn_decls c) d) (\<lambda>fd.
     bindr (if receiver_type fd = NO_RECEIVER then Inr []
            else bindr (self_type c fd) (\<lambda>t. bindr (low t) (\<lambda>t. Inr [t]))) (\<lambda>self.
     bindr (mapr (low \<circ> snd) (parameters fd)) (\<lambda>ps.
     bindr (low (return_real_type fd)) (\<lambda>ret.
       Inr (if is_main fd then FunctionType (IntegerType 32) (self @ ps)
            else if is_aggregate_return (return_real_type fd)
            then FunctionType VoidType (self @ ps @ [PointerType ret])
            else FunctionType ret (self @ ps))))))"

fun lower_upto :: "nat \<Rightarrow> Semantic_Checker \<Rightarrow> TypeLowering \<Rightarrow> RealType \<Rightarrow> IRType res" where
  "lower_upto 0 c lw = lower_with (\<lambda>_. Inl OutOfFuel) c lw"
| "lower_upto (Suc n) c lw = lower_with (lower_function_with (lower_upto n c lw) c) c lw"

definition lower :: "Semantic_Checker \<Rightarrow> TypeLowering \<Rightarrow> RealType \<Rightarrow> IRType res" where
  "lower = lower_upto 2"

definition lower_function :: "Semantic_Checker \<Rightarrow> TypeLowering \<Rightarrow> address \<Rightarrow> IRType res" where
  "lower_function c lw = lower_function_with (lower c lw) c"

subsection \<open>Scalar constants\<close>

text \<open>The members \<open>value\<close> have 32 bits, a \<open>char\<close> is a signed byte; both become an \<open>int64_t\<close>.\<close>

definition read_signed :: "ConstValue \<Rightarrow> int res" where
  "read_signed v =
     (case v of
        I32_ConstValue w \<Rightarrow> Inr (sint w)
      | Isize_ConstValue w \<Rightarrow> Inr (sint w)
      | _ \<Rightarrow> Inl (RuntimeError ''ConstValue is not signed integer''))"

definition read_unsigned :: "ConstValue \<Rightarrow> int res" where
  "read_unsigned v =
     (case v of
        U32_ConstValue w \<Rightarrow> Inr (uint w)
      | Usize_ConstValue w \<Rightarrow> Inr (uint w)
      | _ \<Rightarrow> Inl (RuntimeError ''ConstValue is not unsigned integer''))"

definition char_value :: "char \<Rightarrow> int" where
  "char_value ch = sint (word_of_nat (of_char ch) :: 8 word)"

definition lower_const :: "ConstValue \<Rightarrow> RealType \<Rightarrow> IRValue option res" where
  "lower_const v t =
     (if is_ref t \<noteq> NO_REF then Inr None
      else if const_kind v = CVK_ANYINT then Inl (RuntimeError ''ConstValue ANYINT not concretized'')
      else if const_kind v = CVK_ARRAY \<or> const_kind v = CVK_UNIT then Inr None
      else
        (case t of
           BoolRealType _ \<Rightarrow>
             (case v of Bool_ConstValue b \<Rightarrow> Inr (Some (ConstantValue (IntegerType 1) (if b then 1 else 0)))
              | _ \<Rightarrow> Inl (RuntimeError ''const value/type mismatch (bool)''))
         | CharRealType _ \<Rightarrow>
             (case v of Char_ConstValue ch \<Rightarrow> Inr (Some (ConstantValue (IntegerType 8) (char_value ch)))
              | _ \<Rightarrow> Inl (RuntimeError ''const value/type mismatch (char)''))
         | I32RealType _ \<Rightarrow> bindr (read_signed v) (\<lambda>n. Inr (Some (ConstantValue (IntegerType 32) n)))
         | IsizeRealType _ \<Rightarrow> bindr (read_signed v) (\<lambda>n. Inr (Some (ConstantValue (IntegerType 32) n)))
         | AnyIntRealType _ \<Rightarrow> bindr (read_signed v) (\<lambda>n. Inr (Some (ConstantValue (IntegerType 32) n)))
         | U32RealType _ \<Rightarrow> bindr (read_unsigned v) (\<lambda>n. Inr (Some (ConstantValue (IntegerType 32) n)))
         | UsizeRealType _ \<Rightarrow> bindr (read_unsigned v) (\<lambda>n. Inr (Some (ConstantValue (IntegerType 32) n)))
         | _ \<Rightarrow> Inr None))"

subsection \<open>Structure types\<close>

text \<open>These operations change the tables and the module.\<close>

type_synonym 'a lowering = "(TypeLowering \<times> IRModule, 'a) act"

definition declare_struct_stub :: "StructDecl \<Rightarrow> unit lowering" where
  "declare_struct_stub sd =
     (if struct_name sd = [] then throw_act (RuntimeError ''StructDecl missing name'')
      else put_act (\<lambda>(lw, m).
        if struct_name sd \<in> struct_cache lw then (lw, m)
        else (lw\<lparr>struct_cache := insert (struct_name sd) (struct_cache lw),
                 pending_struct_defs := insert (struct_name sd) (pending_struct_defs lw)\<rparr>, m)))"

definition field_type_of :: "Semantic_Checker \<Rightarrow> TypeLowering \<Rightarrow> StructDecl \<Rightarrow> string \<Rightarrow> IRType res" where
  "field_type_of c lw sd f =
     (case map_of (struct_fields sd) f of
        None \<Rightarrow> Inl (RuntimeError ''struct field type missing'')
      | Some t \<Rightarrow> lower c lw t)"

definition set_fields :: "string \<Rightarrow> IRType list \<Rightarrow> IRModule \<Rightarrow> IRModule" where
  "set_fields name ts m = m\<lparr>ir_fields := (ir_fields m)(name \<mapsto> ts)\<rparr>"

definition define_struct_fields :: "Semantic_Checker \<Rightarrow> StructDecl \<Rightarrow> unit lowering" where
  "define_struct_fields c sd =
     (let name = struct_name sd in
      if name = [] then throw_act (RuntimeError ''StructDecl missing name'')
      else bind_act (get_act fst) (\<lambda>lw.
        if name \<notin> struct_cache lw then throw_act (RuntimeError ''struct stub missing for definition'')
        else if name \<notin> pending_struct_defs lw
        then throw_act (RuntimeError (''struct fields already defined: '' @ name))
        else bind_act (lift_act (mapr (field_type_of c lw sd) (field_order sd))) (\<lambda>ts.
          put_act (\<lambda>(lw, m).
            (lw\<lparr>pending_struct_defs := pending_struct_defs lw - {name}\<rparr>,
             add_type_definition name (map type_string ts) (set_fields name ts m))))))"

definition declare_builtin :: "string \<Rightarrow> IRType list \<Rightarrow> unit lowering" where
  "declare_builtin name ts =
     put_act (\<lambda>(lw, m).
       if name \<in> struct_cache lw then (lw, m)
       else (lw\<lparr>struct_cache := insert name (struct_cache lw)\<rparr>,
             add_type_definition name (map type_string ts) (set_fields name ts m)))"

definition declare_builtin_string_types :: "unit lowering" where
  "declare_builtin_string_types =
     then_act (declare_builtin ''Str'' [PointerType (IntegerType 8), IntegerType 32])
       (declare_builtin ''String'' [PointerType (IntegerType 8), IntegerType 32, IntegerType 32])"

subsection \<open>Sizes and alignments\<close>

text \<open>A \<open>size_t\<close> has 64 bits.\<close>

definition size_t :: "nat \<Rightarrow> nat" where
  "size_t n = n mod 2 ^ 64"

definition align_to :: "nat \<Rightarrow> nat \<Rightarrow> nat" where
  "align_to offset alignment =
     (if alignment = 0 then offset
      else if offset mod alignment = 0 then offset
      else size_t (offset + (alignment - offset mod alignment)))"

text \<open>One field after the others: the offset behind it and the greatest alignment so far.\<close>

definition place_field :: "nat \<Rightarrow> nat \<Rightarrow> nat \<times> nat \<Rightarrow> nat \<times> nat" where
  "place_field field_size field_align totals =
     (size_t (align_to (fst totals) field_align + field_size), max (snd totals) field_align)"

text \<open>
  The sizes of IR types are asked for only to lay out the built-in structures. Structures in
  structures are looked up again, up to a given nesting.
\<close>

definition remember :: "string \<Rightarrow> nat \<times> nat \<Rightarrow> TypeLowering \<Rightarrow> TypeLowering" where
  "remember name totals lw =
     lw\<lparr>struct_size_cache := (struct_size_cache lw)(name \<mapsto> align_to (fst totals) (snd totals)),
        struct_align_cache := (struct_align_cache lw)(name \<mapsto> snd totals)\<rparr>"

definition cached_or :: "(TypeLowering \<Rightarrow> string \<rightharpoonup> nat) \<Rightarrow> string \<Rightarrow> (TypeLowering, nat) act \<Rightarrow> (TypeLowering, nat) act" where
  "cached_or cache name m =
     bind_act (get_act (\<lambda>lw. cache lw name)) (\<lambda>hit. case hit of Some n \<Rightarrow> ret_act n | None \<Rightarrow> m)"

text \<open>The alignment after the size has been computed, which leaves it in the table.\<close>

definition alignment_after :: "string \<Rightarrow> string \<Rightarrow> (TypeLowering, nat) act \<Rightarrow> (TypeLowering, nat) act" where
  "alignment_after message name size_of =
     cached_or struct_align_cache name
       (then_act size_of
         (bind_act (get_act (\<lambda>lw. struct_align_cache lw name)) (\<lambda>hit.
           case hit of Some n \<Rightarrow> ret_act n | None \<Rightarrow> throw_act (RuntimeError (message @ name)))))"

primrec size_of_ir_type :: "(string \<Rightarrow> (TypeLowering, nat) act) \<Rightarrow> IRType \<Rightarrow> (TypeLowering, nat) act" where
  "size_of_ir_type builtin (PointerType _) = ret_act kPointerSizeBytes"
| "size_of_ir_type builtin (IntegerType n) = ret_act ((n + 7) div 8)"
| "size_of_ir_type builtin (IRArrayType t n) = bind_act (size_of_ir_type builtin t) (\<lambda>k. ret_act (size_t (k * n)))"
| "size_of_ir_type builtin (IRStructType name) = builtin name"
| "size_of_ir_type builtin VoidType = ret_act 0"
| "size_of_ir_type builtin (FunctionType _ _) = throw_act (RuntimeError ''unsupported IRType for size computation'')"

primrec alignment_of_ir_type :: "(string \<Rightarrow> (TypeLowering, nat) act) \<Rightarrow> IRType \<Rightarrow> (TypeLowering, nat) act" where
  "alignment_of_ir_type builtin (PointerType _) = ret_act kPointerSizeBytes"
| "alignment_of_ir_type builtin (IntegerType n) =
     ret_act (if n \<le> 8 then 1 else if n \<le> 32 then 4 else kPointerSizeBytes)"
| "alignment_of_ir_type builtin (IRArrayType t n) = alignment_of_ir_type builtin t"
| "alignment_of_ir_type builtin (IRStructType name) =
     alignment_after ''builtin struct alignment missing: '' name (builtin name)"
| "alignment_of_ir_type builtin VoidType = ret_act 1"
| "alignment_of_ir_type builtin (FunctionType _ _) =
     throw_act (RuntimeError ''unsupported IRType for alignment computation'')"

primrec place_ir_fields :: "(string \<Rightarrow> (TypeLowering, nat) act) \<Rightarrow> IRType list \<Rightarrow> nat \<times> nat \<Rightarrow> (TypeLowering, nat \<times> nat) act" where
  "place_ir_fields builtin [] totals = ret_act totals"
| "place_ir_fields builtin (t # ts) totals =
     bind_act (size_of_ir_type builtin t) (\<lambda>n. bind_act (alignment_of_ir_type builtin t) (\<lambda>a.
       place_ir_fields builtin ts (place_field n a totals)))"

fun size_of_builtin_struct :: "nat \<Rightarrow> IRModule \<Rightarrow> string \<Rightarrow> (TypeLowering, nat) act" where
  "size_of_builtin_struct 0 m name = throw_act OutOfFuel"
| "size_of_builtin_struct (Suc n) m name =
     cached_or struct_size_cache name
       (bind_act (get_act struct_cache) (\<lambda>known.
         if name \<notin> known then throw_act (RuntimeError (''builtin struct type missing: '' @ name))
         else bind_act
           (place_ir_fields (size_of_builtin_struct n m) (case ir_fields m name of Some ts \<Rightarrow> ts | None \<Rightarrow> []) (0, 1))
           (\<lambda>totals. then_act (put_act (remember name totals)) (ret_act (align_to (fst totals) (snd totals))))))"

definition builtin_size :: "IRModule \<Rightarrow> string \<Rightarrow> (TypeLowering, nat) act" where
  "builtin_size = size_of_builtin_struct 2"

definition builtin_alignment :: "IRModule \<Rightarrow> string \<Rightarrow> (TypeLowering, nat) act" where
  "builtin_alignment m name = alignment_after ''builtin struct alignment missing: '' name (builtin_size m name)"

text \<open>The size of a type, with that of a structure as an argument.\<close>

definition size_with_ref :: "ReferenceType \<Rightarrow> (TypeLowering, nat) act \<Rightarrow> (TypeLowering, nat) act" where
  "size_with_ref r m = (if r = NO_REF then m else ret_act kPointerSizeBytes)"

primrec size_with :: "(string \<Rightarrow> address \<Rightarrow> (TypeLowering, nat) act) \<Rightarrow> Semantic_Checker \<Rightarrow> IRModule \<Rightarrow> RealType \<Rightarrow>
    (TypeLowering, nat) act" where
  "size_with ss c m (BoolRealType r) = size_with_ref r (ret_act 1)"
| "size_with ss c m (CharRealType r) = size_with_ref r (ret_act 1)"
| "size_with ss c m (UnitRealType r) = size_with_ref r (ret_act 0)"
| "size_with ss c m (NeverRealType r) = size_with_ref r (ret_act 0)"
| "size_with ss c m (I32RealType r) = size_with_ref r (ret_act 4)"
| "size_with ss c m (IsizeRealType r) = size_with_ref r (ret_act 4)"
| "size_with ss c m (U32RealType r) = size_with_ref r (ret_act 4)"
| "size_with ss c m (UsizeRealType r) = size_with_ref r (ret_act 4)"
| "size_with ss c m (AnyIntRealType r) = size_with_ref r (ret_act 4)"
| "size_with ss c m (EnumRealType r _ _) = size_with_ref r (ret_act 4)"
| "size_with ss c m (ArrayRealType r t _ n) =
     size_with_ref r
       (if n = 0 then throw_act (RuntimeError ''array size missing'')
        else bind_act (size_with ss c m t) (\<lambda>k. ret_act (size_t (k * n))))"
| "size_with ss c m (StructRealType r _ d) =
     size_with_ref r
       (case d of
          None \<Rightarrow> throw_act (RuntimeError ''StructDecl missing for size'')
        | Some a \<Rightarrow>
            bind_act (lift_act (deref (struct_decls c) a)) (\<lambda>sd.
            bind_act (get_act pending_struct_defs) (\<lambda>pending.
              if struct_name sd \<in> pending
              then throw_act (RuntimeError (''struct fields not defined: '' @ struct_name sd))
              else ss (struct_name sd) a)))"
| "size_with ss c m (StrRealType r) = size_with_ref r (builtin_size m ''Str'')"
| "size_with ss c m (StringRealType r) = size_with_ref r (builtin_size m ''String'')"
| "size_with ss c m (FunctionRealType r _) =
     size_with_ref r (throw_act (RuntimeError ''unsupported RealType for size_in_bytes''))"

primrec align_with :: "(string \<Rightarrow> address \<Rightarrow> (TypeLowering, nat) act) \<Rightarrow> Semantic_Checker \<Rightarrow> IRModule \<Rightarrow> RealType \<Rightarrow>
    (TypeLowering, nat) act" where
  "align_with ss c m (BoolRealType r) = size_with_ref r (ret_act 1)"
| "align_with ss c m (CharRealType r) = size_with_ref r (ret_act 1)"
| "align_with ss c m (UnitRealType r) = size_with_ref r (ret_act 1)"
| "align_with ss c m (NeverRealType r) = size_with_ref r (ret_act 1)"
| "align_with ss c m (I32RealType r) = size_with_ref r (ret_act 4)"
| "align_with ss c m (IsizeRealType r) = size_with_ref r (ret_act 4)"
| "align_with ss c m (U32RealType r) = size_with_ref r (ret_act 4)"
| "align_with ss c m (UsizeRealType r) = size_with_ref r (ret_act 4)"
| "align_with ss c m (AnyIntRealType r) = size_with_ref r (ret_act 4)"
| "align_with ss c m (EnumRealType r _ _) = size_with_ref r (ret_act 4)"
| "align_with ss c m (ArrayRealType r t _ n) = size_with_ref r (align_with ss c m t)"
| "align_with ss c m (StructRealType r _ d) =
     size_with_ref r
       (case d of
          None \<Rightarrow> throw_act (RuntimeError ''StructDecl missing for alignment'')
        | Some a \<Rightarrow>
            bind_act (lift_act (deref (struct_decls c) a)) (\<lambda>sd.
              alignment_after ''struct alignment cache missing for '' (struct_name sd) (ss (struct_name sd) a)))"
| "align_with ss c m (StrRealType r) = size_with_ref r (builtin_alignment m ''Str'')"
| "align_with ss c m (StringRealType r) = size_with_ref r (builtin_alignment m ''String'')"
| "align_with ss c m (FunctionRealType r _) = size_with_ref r (ret_act 1)"

primrec place_fields :: "(string \<Rightarrow> address \<Rightarrow> (TypeLowering, nat) act) \<Rightarrow> Semantic_Checker \<Rightarrow> IRModule \<Rightarrow> StructDecl \<Rightarrow>
    string list \<Rightarrow> nat \<times> nat \<Rightarrow> (TypeLowering, nat \<times> nat) act" where
  "place_fields ss c m sd [] totals = ret_act totals"
| "place_fields ss c m sd (f # fs) totals =
     (case map_of (struct_fields sd) f of
        None \<Rightarrow> throw_act (RuntimeError (''struct field missing type: '' @ f))
      | Some t \<Rightarrow>
          bind_act (size_with ss c m t) (\<lambda>n. bind_act (align_with ss c m t) (\<lambda>a.
            place_fields ss c m sd fs (place_field n a totals))))"

definition enter_struct :: "string \<Rightarrow> TypeLowering \<Rightarrow> TypeLowering" where
  "enter_struct name lw = lw\<lparr>struct_size_in_progress := insert name (struct_size_in_progress lw)\<rparr>"

definition leave_struct :: "string \<Rightarrow> TypeLowering \<Rightarrow> TypeLowering" where
  "leave_struct name lw = lw\<lparr>struct_size_in_progress := struct_size_in_progress lw - {name}\<rparr>"

fun size_of_struct :: "nat \<Rightarrow> Semantic_Checker \<Rightarrow> IRModule \<Rightarrow> string \<Rightarrow> address \<Rightarrow> (TypeLowering, nat) act" where
  "size_of_struct 0 c m name a = throw_act OutOfFuel"
| "size_of_struct (Suc n) c m name a =
     cached_or struct_size_cache name
       (bind_act (get_act struct_size_in_progress) (\<lambda>busy.
         if name \<in> busy then throw_act (RuntimeError (''cyclic struct size dependency: '' @ name))
         else then_act (put_act (enter_struct name))
           (bind_act (lift_act (deref (struct_decls c) a)) (\<lambda>sd.
            bind_act (place_fields (size_of_struct n c m) c m sd (field_order sd) (0, 1)) (\<lambda>totals.
              then_act (put_act (remember name totals \<circ> leave_struct name))
                (ret_act (align_to (fst totals) (snd totals))))))))"

text \<open>
  A structure whose size is being computed is not entered again, so that the nesting is at most
  the number of structures.
\<close>

definition size_in_bytes :: "Semantic_Checker \<Rightarrow> RealType \<Rightarrow> nat lowering" where
  "size_in_bytes c t =
     bind_act (get_act snd) (\<lambda>m s.
       bindr (size_with (size_of_struct (next_address c + 1) c m) c m t (fst s)) (\<lambda>(n, lw). Inr (n, (lw, snd s))))"

definition alignment_of :: "Semantic_Checker \<Rightarrow> RealType \<Rightarrow> nat lowering" where
  "alignment_of c t =
     bind_act (get_act snd) (\<lambda>m s.
       bindr (align_with (size_of_struct (next_address c + 1) c m) c m t (fst s)) (\<lambda>(n, lw). Inr (n, (lw, snd s))))"

end
