(* ===== verification/GlobalLowering.thy ===== *)
theory GlobalLowering
  imports TypeLowering
begin

section \<open>Lowering the global declarations\<close>

text \<open>
  The class \<open>GlobalLoweringDriver\<close> of \<open>src/ir/global_lowering.cpp\<close>: it walks the tree of scopes,
  defines the structure types, declares the functions and emits the constant arrays. Functions
  and constant arrays of inner scopes get the path of the scope as a suffix of their name, which
  is written into the declaration. The table \<open>globals_\<close> is only written and left out.
\<close>

text \<open>
  The objects that the back end works on: the declarations and maps of the semantic check, the
  builder with the module, and the state of \<open>TypeLowering\<close>.
\<close>

record backend =
  sema :: Semantic_Checker
  ir_builder :: IRBuilder
  type_lowering :: TypeLowering

definition in_builder :: "(IRBuilder, 'a) act \<Rightarrow> (backend, 'a) act" where
  "in_builder m s = bindr (m (ir_builder s)) (\<lambda>(x, b). Inr (x, s\<lparr>ir_builder := b\<rparr>))"

definition in_module :: "(IRModule, 'a) act \<Rightarrow> (backend, 'a) act" where
  "in_module m = in_builder (on_module m)"

definition in_lowering :: "(Semantic_Checker \<Rightarrow> 'a lowering) \<Rightarrow> (backend, 'a) act" where
  "in_lowering m s =
     bindr (m (sema s) (type_lowering s, ir_module (ir_builder s))) (\<lambda>(x, (lw, im)).
       Inr (x, s\<lparr>type_lowering := lw, ir_builder := (ir_builder s)\<lparr>ir_module := im\<rparr>\<rparr>))"

definition sem_act :: "(Semantic_Checker \<Rightarrow> 'a res) \<Rightarrow> (backend, 'a) act" where
  "sem_act f s = bindr (f (sema s)) (\<lambda>x. Inr (x, s))"

definition lower_act :: "(Semantic_Checker \<Rightarrow> TypeLowering \<Rightarrow> 'a res) \<Rightarrow> (backend, 'a) act" where
  "lower_act f s = bindr (f (sema s) (type_lowering s)) (\<lambda>x. Inr (x, s))"

definition change_sema :: "(Semantic_Checker \<Rightarrow> Semantic_Checker) \<Rightarrow> (backend, unit) act" where
  "change_sema f = put_act (\<lambda>s. s\<lparr>sema := f (sema s)\<rparr>)"

subsection \<open>Constants and functions\<close>

text \<open>The initial value of a constant, as text.\<close>

definition emit_scalar :: "RealType \<Rightarrow> ConstValue \<Rightarrow> string res" where
  "emit_scalar t v =
     bindr (lower_const v t) (\<lambda>k.
       case k of
         None \<Rightarrow> Inl (RuntimeError ''Unsupported const scalar lowering'')
       | Some k \<Rightarrow> Inr (typed_repr k))"

definition array_prefix :: "bool \<Rightarrow> IRType \<Rightarrow> string res" where
  "array_prefix include_type t =
     (if include_type
      then (case t of
          IRArrayType _ _ \<Rightarrow> Inr (type_string t @ '' '')
        | _ \<Rightarrow> Inl (RuntimeError ''Expected IR array when lowering nested const''))
      else Inr [])"

fun emit_value :: "(RealType \<Rightarrow> IRType res) \<Rightarrow> RealType \<Rightarrow> bool \<Rightarrow> ConstValue \<Rightarrow> string res" where
  "emit_value low (ArrayRealType r t e n) include_type v =
     (case v of
        Array_ConstValue vs \<Rightarrow>
          bindr (if include_type then bindr (low (ArrayRealType r t e n)) (array_prefix True) else Inr []) (\<lambda>prefix.
          bindr (mapr (\<lambda>v. emit_value low t True v) vs) (\<lambda>ss.
            Inr (prefix @ ''[ '' @ join_commas ss @ '' ]'')))
      | _ \<Rightarrow> Inl (RuntimeError ''Array const mismatch between value and type''))"
| "emit_value low t include_type v = emit_scalar t v"

definition rename_const :: "address \<Rightarrow> string \<Rightarrow> Semantic_Checker \<Rightarrow> Semantic_Checker" where
  "rename_const d symbol c =
     c\<lparr>const_decls := (const_decls c)(d := map_option (\<lambda>cd. cd\<lparr>const_name := symbol\<rparr>) (const_decls c d))\<rparr>"

definition rename_fn :: "address \<Rightarrow> string \<Rightarrow> Semantic_Checker \<Rightarrow> Semantic_Checker" where
  "rename_fn d symbol c =
     c\<lparr>fn_decls := (fn_decls c)(d := map_option (\<lambda>fd. fd\<lparr>fn_name := symbol\<rparr>) (fn_decls c d))\<rparr>"

definition emit_array_const :: "address \<Rightarrow> ConstDecl \<Rightarrow> RealType \<Rightarrow> string \<Rightarrow> (backend, unit) act" where
  "emit_array_const d cd t suffix =
     bind_act (sem_act (\<lambda>c. case const_value_map c d of
         None \<Rightarrow> Inl (RuntimeError ''Const value missing for declaration'') | Some v \<Rightarrow> Inr v)) (\<lambda>v.
     bind_act (lower_act (\<lambda>c lw. lower c lw t)) (\<lambda>ir_type.
       case ir_type of
         IRArrayType _ _ \<Rightarrow>
           (let symbol = ''const.'' @ const_name cd @ suffix
            in then_act (change_sema (rename_const d symbol))
                 (bind_act (lower_act (\<lambda>c lw. emit_value (lower c lw) t False v)) (\<lambda>init.
                    then_act (in_module (create_global symbol ir_type init True ''private'')) (ret_act ()))))
       | _ \<Rightarrow> throw_act (RuntimeError ''Expected array IRType for const decl'')))"

definition emit_const :: "address \<Rightarrow> string \<Rightarrow> (backend, unit) act" where
  "emit_const d suffix =
     bind_act (sem_act (\<lambda>c. deref (const_decls c) d)) (\<lambda>cd.
       case const_type cd of
         Some (ArrayRealType r t e n) \<Rightarrow> emit_array_const d cd (ArrayRealType r t e n) suffix
       | _ \<Rightarrow> ret_act ())"

definition add_params :: "function_ptr \<Rightarrow> IRType list \<Rightarrow> IRModule \<Rightarrow> IRModule" where
  "add_params f ts m =
     (if ir_params (ir_functions m ! f) \<noteq> [] then m
      else fold (\<lambda>(i, t). add_param f (dotted ''arg'' i) t) (zip [0..<length ts] ts) m)"

definition param_types :: "IRType \<Rightarrow> IRType list" where
  "param_types t = (case t of FunctionType _ ts \<Rightarrow> ts | _ \<Rightarrow> [])"

definition emit_function_decl :: "address \<Rightarrow> string \<Rightarrow> bool \<Rightarrow> (backend, unit) act" where
  "emit_function_decl d suffix define_body =
     bind_act (sem_act (\<lambda>c. deref (fn_decls c) d)) (\<lambda>fd.
     let symbol = fn_name fd @ suffix
     in then_act (change_sema (rename_fn d symbol))
          (bind_act (lower_act (\<lambda>c lw. lower_function c lw d)) (\<lambda>t.
           bind_act (in_module (\<lambda>m. Inr (if define_body then define_function symbol t m else declare_function symbol t m)))
             (\<lambda>f. in_module (put_act (add_params f (param_types t)))))))"

subsection \<open>The tree of scopes\<close>

definition struct_decls_of :: "Scope \<Rightarrow> address list" where
  "struct_decls_of s =
     concat (map (\<lambda>(_, d). case d of Struct_decl a \<Rightarrow> [a] | Enum_decl _ \<Rightarrow> []) (type_namespace s))"

definition with_struct :: "address \<Rightarrow> (StructDecl \<Rightarrow> (backend, 'a) act) \<Rightarrow> (backend, 'a) act" where
  "with_struct a f = bind_act (sem_act (\<lambda>c. deref (struct_decls c) a)) f"

definition emit_structs :: "address list \<Rightarrow> (backend, unit) act" where
  "emit_structs ds =
     then_act (seq_act (map (\<lambda>a. with_struct a (\<lambda>sd. in_lowering (\<lambda>_. declare_struct_stub sd))) ds))
      (then_act (seq_act (map (\<lambda>a. with_struct a (\<lambda>sd. in_lowering (\<lambda>c. define_struct_fields c sd))) ds))
        (seq_act (map (\<lambda>a. with_struct a (\<lambda>sd.
           then_act (in_lowering (\<lambda>c. size_in_bytes c (StructRealType NO_REF (struct_name sd) (Some a))))
             (ret_act ()))) ds)))"

definition emit_value_decl :: "string \<Rightarrow> string \<times> ValueDecl \<Rightarrow> (backend, unit) act" where
  "emit_value_decl suffix entry =
     (case snd entry of
        Function_decl d \<Rightarrow>
          bind_act (sem_act (\<lambda>c. deref (fn_decls c) d)) (\<lambda>fd.
            when_act (fn_ast fd \<noteq> None) (emit_function_decl d suffix False))
      | Constant_decl d \<Rightarrow> emit_const d suffix
      | LetStmt_decl _ \<Rightarrow> ret_act ())"

text \<open>\<open>suffixes\<close> is \<open>scope_suffix_stack_\<close>. A child is newer than its parent, so that the depth is bounded.\<close>

fun visit_scope :: "nat \<Rightarrow> string list \<Rightarrow> address \<Rightarrow> (backend, unit) act" where
  "visit_scope 0 suffixes a = throw_act OutOfFuel"
| "visit_scope (Suc n) suffixes a =
     bind_act (sem_act (\<lambda>c. deref (scopes c) a)) (\<lambda>s.
       then_act (emit_structs (struct_decls_of s))
        (then_act (seq_act (map (emit_value_decl (concat suffixes)) (value_namespace s)))
          (seq_act (map (\<lambda>(i, child). visit_scope n (suffixes @ [dotted [] i]) child)
             (zip [0..<length (children s)] (children s))))))"

definition emit_scope_tree :: "(backend, unit) act" where
  "emit_scope_tree =
     bind_act (get_act sema) (\<lambda>c. visit_scope (next_address c) [] (root_scope c))"

end
