(* ===== verification/IRGenBase.thy ===== *)
theory IRGenBase
  imports GlobalLowering Checker
begin

section \<open>The state of the IR generator\<close>

text \<open>
  The classes \<open>LoopContext\<close>, \<open>FunctionContext\<close> and the state and helper functions of
  \<open>IRGenVisitor\<close> in \<open>include/ir/IRGen.h\<close> and \<open>src/ir/IRGen.cpp\<close>. The values of expressions are
  kept in one map and their addresses in another; a value may be a null pointer (after
  \<open>exit\<close>), and using it has no meaning. The semantic maps are those of the checker.
\<close>

record LoopContext =
  header_block :: block_ptr
  body_block :: block_ptr
  continue_target :: block_ptr
  break_target :: block_ptr
  break_slot :: "IRValue option"

record FunctionContext =
  ctx_decl :: address
  ir_function :: function_ptr
  entry_block :: block_ptr
  current_block :: "block_ptr option"
  return_block :: block_ptr
  return_slot :: "IRValue option"
  self_slot :: "IRValue option"
  block_sealed :: bool
  local_slots :: "address \<rightharpoonup> IRValue"
  loop_stack :: "LoopContext list"

record irgen =
  fn_ctx :: "FunctionContext option"
  expr_value_map :: "nat \<rightharpoonup> IRValue option"
  expr_address_map :: "nat \<rightharpoonup> IRValue"
  world :: backend

type_synonym 'a gen = "(irgen, 'a) act"

subsection \<open>Access to the parts of the state\<close>

definition in_back :: "(backend, 'a) act \<Rightarrow> 'a gen" where
  "in_back m s = bindr (m (world s)) (\<lambda>(x, b). Inr (x, s\<lparr>world := b\<rparr>))"

definition build :: "(IRBuilder, 'a) act \<Rightarrow> 'a gen" where
  "build m = in_back (in_builder m)"

definition get_sema :: "(Semantic_Checker \<Rightarrow> 'a) \<Rightarrow> 'a gen" where
  "get_sema f = get_act (\<lambda>s. f (sema (world s)))"

definition sema_res :: "(Semantic_Checker \<Rightarrow> 'a res) \<Rightarrow> 'a gen" where
  "sema_res f = in_back (sem_act f)"

definition insertion_point :: "block_ptr option gen" where
  "insertion_point = build (get_act insertion_block)"

definition lower_type :: "RealType \<Rightarrow> IRType gen" where
  "lower_type t = in_back (lower_act (\<lambda>c lw. lower c lw t))"

text \<open>\<open>lower\<close> on a pointer that may be null.\<close>

definition lower_ptr :: "RealType option \<Rightarrow> IRType gen" where
  "lower_ptr t = (case t of None \<Rightarrow> throw_act (RuntimeError ''invalid RealType'') | Some t \<Rightarrow> lower_type t)"

definition current_fn :: "FunctionContext gen" where
  "current_fn =
     bind_act (get_act fn_ctx) (\<lambda>c.
       case c of None \<Rightarrow> throw_act (RuntimeError ''IRGenVisitor missing active function'') | Some c \<Rightarrow> ret_act c)"

definition set_ctx :: "(FunctionContext \<Rightarrow> FunctionContext) \<Rightarrow> unit gen" where
  "set_ctx f = put_act (\<lambda>s. s\<lparr>fn_ctx := map_option f (fn_ctx s)\<rparr>)"

definition set_value :: "nat \<Rightarrow> IRValue option \<Rightarrow> unit gen" where
  "set_value k v = put_act (\<lambda>s. s\<lparr>expr_value_map := (expr_value_map s)(k \<mapsto> v)\<rparr>)"

definition set_address :: "nat \<Rightarrow> IRValue \<Rightarrow> unit gen" where
  "set_address k v = put_act (\<lambda>s. s\<lparr>expr_address_map := (expr_address_map s)(k \<mapsto> v)\<rparr>)"

text \<open>\<open>if (!fn_ctx_) throw\<close> and \<open>if (!fn_ctx_) return\<close>.\<close>

definition in_function :: "string \<Rightarrow> unit gen \<Rightarrow> unit gen" where
  "in_function message m =
     bind_act (get_act fn_ctx) (\<lambda>c. if c = None then throw_act (RuntimeError message) else m)"

definition when_in_function :: "unit gen \<Rightarrow> unit gen" where
  "when_in_function m = bind_act (get_act fn_ctx) (\<lambda>c. when_act (c \<noteq> None) m)"

definition set_point :: "block_ptr option \<Rightarrow> unit gen" where
  "set_point p = build (set_insertion_point p)"

text \<open>Continue in a block: the insertion point and the context.\<close>

definition enter_block :: "block_ptr \<Rightarrow> unit gen" where
  "enter_block p =
     then_act (set_point (Some p)) (set_ctx (\<lambda>c. c\<lparr>current_block := Some p, block_sealed := False\<rparr>))"

definition new_block :: "string \<Rightarrow> block_ptr gen" where
  "new_block l = bind_act current_fn (\<lambda>c. in_back (in_module (function_create_block (ir_function c) l)))"

subsection \<open>Types of nodes\<close>

definition expr_type :: "Semantic_Checker \<Rightarrow> nat \<Rightarrow> RealType option" where
  "expr_type c k = map_option fst (node_type_and_place_kind_map c k)"

definition node_type :: "Semantic_Checker \<Rightarrow> nat \<Rightarrow> RealType option" where
  "node_type c k = (case expr_type c k of Some t \<Rightarrow> Some t | None \<Rightarrow> type_map c k)"

definition kind_or_i32 :: "Semantic_Checker \<Rightarrow> nat \<Rightarrow> RealTypeKind" where
  "kind_or_i32 c k = (case expr_type c k of Some t \<Rightarrow> kind t | None \<Rightarrow> RTK_I32)"

definition is_aggregate_type :: "RealType option \<Rightarrow> bool" where
  "is_aggregate_type t =
     (case t of
        None \<Rightarrow> False
      | Some t \<Rightarrow> is_ref t = NO_REF \<and> kind t \<in> {RTK_ARRAY, RTK_STRUCT, RTK_STRING, RTK_STR})"

definition current_block_has_next :: "nat \<Rightarrow> bool gen" where
  "current_block_has_next k = get_sema (\<lambda>c. has_state (outcome_of c k) NEXT)"

definition type_decl_of :: "Semantic_Checker \<Rightarrow> nat \<Rightarrow> TypeDecl option" where
  "type_decl_of c k =
     (case type_map c k of
        Some (StructRealType _ _ d) \<Rightarrow> map_option Struct_decl d
      | Some (EnumRealType _ _ d) \<Rightarrow> map_option Enum_decl d
      | _ \<Rightarrow> None)"

subsection \<open>Blocks and values\<close>

definition ensure_current_insertion :: "unit gen" where
  "ensure_current_insertion =
     bind_act current_fn (\<lambda>c.
       case current_block c of
         Some p \<Rightarrow> set_point (Some p)
       | None \<Rightarrow>
           then_act (set_ctx (\<lambda>c. c\<lparr>current_block := Some (entry_block c)\<rparr>)) (set_point (Some (entry_block c))))"

definition branch_if_needed :: "block_ptr \<Rightarrow> unit gen" where
  "branch_if_needed target =
     bind_act (get_act fn_ctx) (\<lambda>c.
       case c of
         None \<Rightarrow> ret_act ()
       | Some c \<Rightarrow>
           (case current_block c of
              None \<Rightarrow> ret_act ()
            | Some p \<Rightarrow>
                when_act (\<not> block_sealed c)
                  (then_act (set_point (Some p))
                    (then_act (build (create_br target)) (set_ctx (\<lambda>c. c\<lparr>block_sealed := True\<rparr>))))))"

definition get_rvalue :: "nat \<Rightarrow> IRValue gen" where
  "get_rvalue k =
     bind_act (get_act (\<lambda>s. (expr_value_map s k, expr_address_map s k))) (\<lambda>(v, a).
       case v of
         Some p \<Rightarrow> lift_act (the_ptr p)
       | None \<Rightarrow>
           (case a of
              None \<Rightarrow> throw_act (RuntimeError (''IRGenVisitor::get_rvalue missing address for node '' @ nat_to_string k))
            | Some a \<Rightarrow> build (create_load a [])))"

definition get_lvalue :: "nat \<Rightarrow> IRValue gen" where
  "get_lvalue k =
     bind_act (get_act (\<lambda>s. (expr_value_map s k, expr_address_map s k))) (\<lambda>(v, a).
     bind_act current_fn (\<lambda>c.
       case a of
         Some a \<Rightarrow> ret_act a
       | None \<Rightarrow>
           (case v of
              None \<Rightarrow> throw_act (RuntimeError ''IRGenVisitor::get_lvalue missing value'')
            | Some p \<Rightarrow>
                bind_act insertion_point (\<lambda>previous.
                then_act (set_point (Some (entry_block c)))
                  (bind_act (lift_act (the_ptr p)) (\<lambda>v.
                   bind_act (build (create_alloca (value_type v) [])) (\<lambda>address.
                   then_act (set_point previous)
                     (then_act (build (create_store v address)) (ret_act address)))))))))"

definition ensure_slot_for_decl :: "address \<Rightarrow> IRValue gen" where
  "ensure_slot_for_decl d =
     bind_act current_fn (\<lambda>c.
       case local_slots c d of
         Some slot \<Rightarrow> ret_act slot
       | None \<Rightarrow>
           bind_act (sema_res (\<lambda>c. deref (let_decls c) d)) (\<lambda>ld.
           bind_act (lower_type (let_type ld)) (\<lambda>t.
           bind_act (build (create_temp_alloca t (let_name ld @ ''.slot''))) (\<lambda>slot.
             then_act (set_ctx (\<lambda>c. c\<lparr>local_slots := (local_slots c)(d \<mapsto> slot)\<rparr>)) (ret_act slot)))))"

subsection \<open>Memory\<close>

text \<open>\<open>static_cast<int64_t>\<close> and \<open>static_cast<int32_t>\<close> of a \<open>size_t\<close>.\<close>

definition to_int64 :: "nat \<Rightarrow> int" where
  "to_int64 n = sint (word_of_nat n :: 64 word)"

definition to_int32 :: "nat \<Rightarrow> int" where
  "to_int32 n = sint (word_of_nat n :: 32 word)"

definition emit_memcpy :: "IRValue \<Rightarrow> IRValue \<Rightarrow> RealType \<Rightarrow> unit gen" where
  "emit_memcpy dst src t =
     bind_act (in_back (in_lowering (\<lambda>c. size_in_bytes c t))) (\<lambda>bytes.
       when_act (bytes \<noteq> 0)
         (then_act ensure_current_insertion
           (build (create_memcpy dst src (create_i32_constant (to_int64 bytes)) False))))"

definition zero_initialize :: "IRValue \<Rightarrow> RealType \<Rightarrow> unit gen" where
  "zero_initialize address t =
     bind_act (in_back (in_lowering (\<lambda>c. size_in_bytes c t))) (\<lambda>bytes.
       when_act (bytes \<noteq> 0)
         (then_act ensure_current_insertion
           (build (create_memset address (ConstantValue (IntegerType 8) 0)
             (create_i32_constant (to_int64 bytes)) False))))"

definition store_expression_result :: "nat \<Rightarrow> IRValue \<Rightarrow> RealType option \<Rightarrow> unit gen" where
  "store_expression_result k address target_type =
     bind_act (get_sema (\<lambda>c. case target_type of Some t \<Rightarrow> Some t | None \<Rightarrow> node_type c k)) (\<lambda>t.
       if is_aggregate_type t
       then bind_act (get_lvalue k) (\<lambda>src. emit_memcpy address src (the t))
       else bind_act (get_rvalue k) (\<lambda>v. then_act ensure_current_insertion (build (create_store v address))))"

text \<open>An initialiser all of whose bytes are zero.\<close>

primrec is_zero_initializer_expr :: "expr \<Rightarrow> bool" where
  "is_zero_initializer_expr (LiteralExpr _ t v) =
     (case t of
        LIT_NUMBER \<Rightarrow> safe_stoll v = Inr 0
      | LIT_BOOL \<Rightarrow> v = ''false''
      | _ \<Rightarrow> False)"
| "is_zero_initializer_expr (RepeatArrayExpr _ e _) = is_zero_initializer_expr e"
| "is_zero_initializer_expr (ArrayExpr _ es) = list_all id (map is_zero_initializer_expr es)"
| "is_zero_initializer_expr (IdentifierExpr _ _) = False"
| "is_zero_initializer_expr (BinaryExpr _ _ _ _) = False"
| "is_zero_initializer_expr (UnaryExpr _ _ _) = False"
| "is_zero_initializer_expr (CallExpr _ _ _) = False"
| "is_zero_initializer_expr (FieldExpr _ _ _) = False"
| "is_zero_initializer_expr (StructExpr _ _ _) = False"
| "is_zero_initializer_expr (IndexExpr _ _ _) = False"
| "is_zero_initializer_expr (BlockExpr _ _ _ _) = False"
| "is_zero_initializer_expr (IfExpr _ _ _ _ _) = False"
| "is_zero_initializer_expr (WhileExpr _ _ _) = False"
| "is_zero_initializer_expr (LoopExpr _ _ _) = False"
| "is_zero_initializer_expr (ReturnExpr _ _) = False"
| "is_zero_initializer_expr (BreakExpr _ _) = False"
| "is_zero_initializer_expr (ContinueExpr _) = False"
| "is_zero_initializer_expr (CastExpr _ _ _) = False"
| "is_zero_initializer_expr (PathExpr _ _ _) = False"
| "is_zero_initializer_expr (SelfExpr _) = False"
| "is_zero_initializer_expr (UnitExpr _) = False"

end
