(* ===== verification/IRGen.thy ===== *)
theory IRGen
  imports IRGenBase
begin

section \<open>Generating the IR of function bodies\<close>

text \<open>
  The visitor \<open>IRGenVisitor\<close> of \<open>src/ir/IRGen.cpp\<close>. A definition for each kind of node takes the
  visits of the children as arguments, as in the type check; the visitor itself ties them together.
\<close>

subsection \<open>Operators\<close>

definition is_unsigned_kind :: "RealTypeKind \<Rightarrow> bool" where
  "is_unsigned_kind k \<longleftrightarrow> k = RTK_U32 \<or> k = RTK_USIZE"

text \<open>The instruction of an arithmetic operator, also as part of an assignment.\<close>

definition arith_op :: "Binary_Operator \<Rightarrow> bool \<Rightarrow> IRValue \<Rightarrow> IRValue \<Rightarrow> IRValue gen" where
  "arith_op OP is_unsigned l r =
     (if OP \<in> {BOP_ADD, BOP_ADD_ASSIGN} then build (create_add l r [])
      else if OP \<in> {BOP_SUB, BOP_SUB_ASSIGN} then build (create_sub l r [])
      else if OP \<in> {BOP_MUL, BOP_MUL_ASSIGN} then build (create_mul l r [])
      else if OP \<in> {BOP_DIV, BOP_DIV_ASSIGN}
      then build (if is_unsigned then create_udiv l r [] else create_sdiv l r [])
      else if OP \<in> {BOP_MOD, BOP_MOD_ASSIGN}
      then build (if is_unsigned then create_urem l r [] else create_srem l r [])
      else if OP \<in> {BOP_AND, BOP_AND_ASSIGN} then build (create_and l r [])
      else if OP \<in> {BOP_OR, BOP_OR_ASSIGN} then build (create_or l r [])
      else if OP \<in> {BOP_XOR, BOP_XOR_ASSIGN} then build (create_xor l r [])
      else if OP \<in> {BOP_SHL, BOP_SHL_ASSIGN} then build (create_shl l r [])
      else build (if is_unsigned then create_lshr l r [] else create_ashr l r []))"

definition compare_op :: "Binary_Operator \<Rightarrow> bool \<Rightarrow> IRValue \<Rightarrow> IRValue \<Rightarrow> IRValue gen" where
  "compare_op OP is_unsigned l r =
     build
       (if OP = BOP_EQ then create_icmp_eq l r []
        else if OP = BOP_NEQ then create_icmp_ne l r []
        else if OP = BOP_LT then (if is_unsigned then create_icmp_ult l r [] else create_icmp_slt l r [])
        else if OP = BOP_LEQ then (if is_unsigned then create_icmp_ule l r [] else create_icmp_sle l r [])
        else if OP = BOP_GT then (if is_unsigned then create_icmp_ugt l r [] else create_icmp_sgt l r [])
        else (if is_unsigned then create_icmp_uge l r [] else create_icmp_sge l r []))"

definition is_assignment :: "Binary_Operator \<Rightarrow> bool" where
  "is_assignment OP \<longleftrightarrow> OP \<in> {BOP_ASSIGN, BOP_ADD_ASSIGN, BOP_SUB_ASSIGN, BOP_MUL_ASSIGN, BOP_DIV_ASSIGN,
     BOP_MOD_ASSIGN, BOP_AND_ASSIGN, BOP_OR_ASSIGN, BOP_XOR_ASSIGN, BOP_SHL_ASSIGN, BOP_SHR_ASSIGN}"

definition is_arithmetic :: "Binary_Operator \<Rightarrow> bool" where
  "is_arithmetic OP \<longleftrightarrow> OP \<in> {BOP_ADD, BOP_SUB, BOP_MUL, BOP_DIV, BOP_MOD, BOP_AND, BOP_OR, BOP_XOR, BOP_SHL, BOP_SHR}"

definition is_comparison :: "Binary_Operator \<Rightarrow> bool" where
  "is_comparison OP \<longleftrightarrow> OP \<in> {BOP_EQ, BOP_NEQ, BOP_LT, BOP_LEQ, BOP_GT, BOP_GEQ}"

definition gen_assign :: "nat \<Rightarrow> Binary_Operator \<Rightarrow> nat \<Rightarrow> nat \<Rightarrow> unit gen" where
  "gen_assign k OP l r =
     bind_act (get_lvalue l) (\<lambda>addr.
     bind_act (get_sema (\<lambda>c. node_type c l)) (\<lambda>lhs_type.
       if is_aggregate_type lhs_type
       then (if OP \<noteq> BOP_ASSIGN
             then throw_act (RuntimeError ''compound assignment on aggregate is not supported'')
             else bind_act (get_lvalue l) (\<lambda>address. store_expression_result r address None))
       else
         bind_act (get_rvalue r) (\<lambda>rhs.
         then_act ensure_current_insertion
           (bind_act
             (if OP = BOP_ASSIGN then ret_act rhs
              else bind_act (build (create_load addr [])) (\<lambda>lhs.
                   bind_act (get_sema (\<lambda>c. kind_or_i32 c l)) (\<lambda>kd. arith_op OP (is_unsigned_kind kd) lhs rhs)))
             (\<lambda>res. then_act (build (create_store res addr)) (set_value k (Some res)))))))"

definition gen_operation :: "(Binary_Operator \<Rightarrow> bool \<Rightarrow> IRValue \<Rightarrow> IRValue \<Rightarrow> IRValue gen) \<Rightarrow>
    nat \<Rightarrow> Binary_Operator \<Rightarrow> nat \<Rightarrow> nat \<Rightarrow> unit gen" where
  "gen_operation f k OP l r =
     bind_act (get_rvalue l) (\<lambda>lhs.
     bind_act (get_rvalue r) (\<lambda>rhs.
     then_act ensure_current_insertion
       (bind_act (get_sema (\<lambda>c. kind_or_i32 c l)) (\<lambda>kd.
        bind_act (f OP (is_unsigned_kind kd) lhs rhs) (\<lambda>res. set_value k (Some res))))))"

text \<open>The short circuits: the result of the left side decides whether the right side is evaluated.\<close>

definition gen_logical :: "nat \<Rightarrow> Binary_Operator \<Rightarrow> nat \<Rightarrow> nat \<Rightarrow> unit gen \<Rightarrow> unit gen \<Rightarrow> unit gen" where
  "gen_logical k OP l r left right =
     bind_act (lower_type (BoolRealType NO_REF)) (\<lambda>bool_type.
     bind_act (build (create_temp_alloca bool_type [])) (\<lambda>slot.
     then_act left
       (bind_act (build (create_block ''logical.rhs'')) (\<lambda>right_block.
        bind_act (build (create_block ''logical.merge'')) (\<lambda>merge_block.
        then_act ensure_current_insertion
          (bind_act (get_rvalue l) (\<lambda>lhs.
           then_act (build (create_store (ConstantValue bool_type (if OP = BOP_AND_AND then 0 else 1)) slot))
            (then_act
              (build (if OP = BOP_AND_AND then create_cond_br lhs right_block merge_block
                      else create_cond_br lhs merge_block right_block))
              (then_act (enter_block right_block)
                (then_act right
                  (then_act ensure_current_insertion
                    (bind_act (get_rvalue r) (\<lambda>rhs.
                     then_act (build (create_store rhs slot))
                      (then_act (branch_if_needed merge_block)
                        (then_act (enter_block merge_block) (set_address k slot))))))))))))))))"

definition gen_binary :: "nat \<Rightarrow> Binary_Operator \<Rightarrow> nat \<Rightarrow> nat \<Rightarrow> unit gen \<Rightarrow> unit gen \<Rightarrow> unit gen" where
  "gen_binary k OP l r left right =
     when_in_function
      (if is_assignment OP then then_act left (then_act right (gen_assign k OP l r))
       else if is_arithmetic OP then then_act left (then_act right (gen_operation arith_op k OP l r))
       else if is_comparison OP then then_act left (then_act right (gen_operation compare_op k OP l r))
       else gen_logical k OP l r left right)"

definition gen_unary :: "nat \<Rightarrow> Unary_Operator \<Rightarrow> nat \<Rightarrow> unit gen" where
  "gen_unary k OP r =
     (case OP of
        UOP_NEG \<Rightarrow>
          bind_act (get_rvalue r) (\<lambda>rhs.
          then_act ensure_current_insertion
            (bind_act (get_sema (\<lambda>c. expr_type c r)) (\<lambda>t.
             bind_act (lower_ptr t) (\<lambda>t.
             bind_act (build (create_sub (ConstantValue t 0) rhs [])) (\<lambda>res. set_value k (Some res))))))
      | UOP_NOT \<Rightarrow>
          bind_act (get_rvalue r) (\<lambda>rhs.
          bind_act (get_sema (\<lambda>c. kind_or_i32 c r)) (\<lambda>kd.
          then_act ensure_current_insertion
            (if kd = RTK_BOOL then bind_act (build (create_not rhs [])) (\<lambda>res. set_value k (Some res))
             else if kd \<in> {RTK_I32, RTK_ISIZE, RTK_U32, RTK_USIZE, RTK_ANYINT} then
               bind_act (get_sema (\<lambda>c. expr_type c r)) (\<lambda>t.
               bind_act (lower_ptr t) (\<lambda>t.
               bind_act (build (create_xor rhs (ConstantValue t (-1)) [])) (\<lambda>res. set_value k (Some res))))
             else throw_act (RuntimeError ''Unary NOT only supports bool or integer operands''))))
      | UOP_REF \<Rightarrow> bind_act (get_lvalue r) (\<lambda>addr. set_value k (Some addr))
      | UOP_REF_MUT \<Rightarrow> bind_act (get_lvalue r) (\<lambda>addr. set_value k (Some addr))
      | UOP_DEREF \<Rightarrow> bind_act (get_rvalue r) (\<lambda>ptr. set_address k ptr))"

subsection \<open>Calls\<close>

definition field_base :: "expr \<Rightarrow> nat option" where
  "field_base e = (case e of FieldExpr _ b _ \<Rightarrow> Some (expr_id b) | _ \<Rightarrow> None)"

definition gen_exit :: "nat \<Rightarrow> expr list \<Rightarrow> unit gen list \<Rightarrow> unit gen" where
  "gen_exit k args arg_visits =
     (if length args \<noteq> 1 then throw_act (RuntimeError ''exit function requires one argument'')
      else then_act (seq_act arg_visits)
        (bind_act (get_rvalue (expr_id (hd args))) (\<lambda>exit_code.
         then_act ensure_current_insertion
          (bind_act current_fn (\<lambda>c.
           bind_act (lift_act (the_ptr (return_slot c))) (\<lambda>slot.
           then_act (build (create_store exit_code slot))
            (then_act (build (create_br (return_block c)))
              (then_act (set_value k None) (set_ctx (\<lambda>c. c\<lparr>block_sealed := True\<rparr>))))))))))"

definition gen_array_len :: "nat \<Rightarrow> expr \<Rightarrow> unit gen" where
  "gen_array_len k callee =
     (case field_base callee of
        None \<Rightarrow> throw_act (RuntimeError ''Array len callee is not FieldExpr'')
      | Some b \<Rightarrow>
          bind_act (get_sema (\<lambda>c. expr_type c b)) (\<lambda>t.
            case t of
              Some (ArrayRealType _ _ _ n) \<Rightarrow> set_value k (Some (create_i32_constant (to_int32 n)))
            | _ \<Rightarrow> throw_act (RuntimeError ''Array len callee base is not array type'')))"

definition self_argument :: "FnDecl \<Rightarrow> expr \<Rightarrow> IRValue gen" where
  "self_argument fd callee =
     (case field_base callee of
        None \<Rightarrow> throw_act (RuntimeError ''Method call missing base expression'')
      | Some b \<Rightarrow>
          bind_act (if receiver_type fd = RECV_SELF then get_rvalue b else get_lvalue b) (\<lambda>self.
          bind_act (get_sema (\<lambda>c. expr_type c b)) (\<lambda>t.
            case t of
              None \<Rightarrow> ret_act self
            | Some t \<Rightarrow>
                if is_ref t \<noteq> NO_REF then then_act ensure_current_insertion (build (create_load self []))
                else ret_act self)))"

definition finish_gen_call :: "nat \<Rightarrow> address \<Rightarrow> FnDecl \<Rightarrow> IRValue list \<Rightarrow> unit gen" where
  "finish_gen_call k d fd call_args =
     then_act ensure_current_insertion
      (bind_act (lower_type (return_real_type fd)) (\<lambda>t.
       then_act
        (when_act (is_builtin fd)
          (bind_act (in_back (lower_act (\<lambda>c lw. lower_function c lw d))) (\<lambda>ft.
             in_back (in_module (\<lambda>m. Inr ((), snd (declare_function (fn_name fd) ft m)))))))
        (if is_aggregate_type (Some (return_real_type fd))
         then bind_act (build (create_temp_alloca t ''call.ret.slot'')) (\<lambda>slot.
              then_act (build (create_call (fn_name fd) (call_args @ [slot]) VoidType [])) (set_address k slot))
         else bind_act (build (create_call (fn_name fd) call_args t ''call.tmp'')) (\<lambda>res.
              case res of None \<Rightarrow> ret_act () | Some r \<Rightarrow> set_value k (Some r)))))"

definition gen_call_of :: "nat \<Rightarrow> expr \<Rightarrow> expr list \<Rightarrow> unit gen \<Rightarrow> unit gen list \<Rightarrow> address \<Rightarrow> FnDecl \<Rightarrow> unit gen" where
  "gen_call_of k callee args callee_visit arg_visits d fd =
     (if is_exit fd then gen_exit k args arg_visits
      else
        then_act (when_act (receiver_type fd \<noteq> NO_RECEIVER) callee_visit)
         (then_act (seq_act arg_visits)
           (if is_array_len fd then gen_array_len k callee
            else
              bind_act
               (if receiver_type fd = NO_RECEIVER then ret_act []
                else bind_act (self_argument fd callee) (\<lambda>v. ret_act [v])) (\<lambda>self.
              bind_act (each_act (map (\<lambda>a. get_rvalue (expr_id a)) args)) (\<lambda>vs.
                finish_gen_call k d fd (self @ vs))))))"

definition gen_call :: "nat \<Rightarrow> expr \<Rightarrow> expr list \<Rightarrow> unit gen \<Rightarrow> unit gen list \<Rightarrow> unit gen" where
  "gen_call k callee args callee_visit arg_visits =
     in_function ''CallExpr outside of function''
      (bind_act current_fn (\<lambda>ctx.
         if current_block ctx = None then ret_act ()
         else bind_act (get_sema (\<lambda>c. call_expr_to_decl_map c k)) (\<lambda>d.
           case d of
             None \<Rightarrow> throw_act (RuntimeError ''CallExpr missing target FnDecl'')
           | Some d \<Rightarrow> bind_act (sema_res (\<lambda>c. deref (fn_decls c) d))
               (gen_call_of k callee args callee_visit arg_visits d))))"

subsection \<open>Branches and loops\<close>

text \<open>A branch that ends where it is visited stores its value and goes on with \<open>target\<close>.\<close>

definition finish_branch :: "nat \<Rightarrow> nat \<Rightarrow> IRValue option \<Rightarrow> block_ptr \<Rightarrow> unit gen" where
  "finish_branch k b slot merge =
     bind_act current_fn (\<lambda>c.
       when_act (current_block c \<noteq> None \<and> \<not> block_sealed c)
         (then_act
           (case slot of
              None \<Rightarrow> ret_act ()
            | Some slot \<Rightarrow> bind_act (get_sema (\<lambda>c. node_type c k)) (\<lambda>t. store_expression_result b slot t))
           (build (create_br merge))))"

definition if_result_slot :: "nat \<Rightarrow> IRValue option gen" where
  "if_result_slot k =
     bind_act (current_block_has_next k) (\<lambda>more.
       if \<not> more then ret_act None
       else bind_act (sema_res (\<lambda>c. the_ptr (expr_type c k))) (\<lambda>t.
         if kind t = RTK_UNIT then ret_act None
         else bind_act (lower_type t) (\<lambda>t.
              bind_act (build (create_temp_alloca t ''if.result.slot'')) (\<lambda>slot. ret_act (Some slot)))))"

definition gen_if :: "nat \<Rightarrow> nat \<Rightarrow> nat \<Rightarrow> nat option \<Rightarrow> unit gen \<Rightarrow> unit gen \<Rightarrow> unit gen option \<Rightarrow> unit gen" where
  "gen_if k g a b condition then_branch else_branch =
     in_function ''Invalid IfExpr: missing condition/then branch''
      (bind_act (new_block ''if.then'') (\<lambda>then_block.
       bind_act (new_block ''if.else'') (\<lambda>else_block.
       bind_act (new_block ''if.merge'') (\<lambda>merge_block.
       bind_act (if_result_slot k) (\<lambda>slot.
       then_act condition
        (bind_act (get_rvalue g) (\<lambda>cond_value.
         then_act ensure_current_insertion
          (then_act (build (create_cond_br cond_value then_block else_block))
           (then_act (enter_block then_block)
            (then_act then_branch
             (then_act (finish_branch k a slot merge_block)
              (then_act (set_point (Some else_block))
               (then_act (set_ctx (\<lambda>c. c\<lparr>block_sealed := False\<rparr>))
                (then_act
                  (case (b, else_branch) of
                     (Some b, Some visit) \<Rightarrow>
                       then_act (set_ctx (\<lambda>c. c\<lparr>current_block := Some else_block\<rparr>))
                         (then_act visit (finish_branch k b slot merge_block))
                   | _ \<Rightarrow> build (create_br merge_block))
                 (then_act (enter_block merge_block)
                   (case slot of None \<Rightarrow> ret_act () | Some slot \<Rightarrow> set_address k slot))))))))))))))))"

definition push_loop_ctx :: "LoopContext \<Rightarrow> unit gen" where
  "push_loop_ctx l = set_ctx (\<lambda>c. c\<lparr>loop_stack := l # loop_stack c\<rparr>)"

definition pop_loop_ctx :: "unit gen" where
  "pop_loop_ctx = set_ctx (\<lambda>c. c\<lparr>loop_stack := tl (loop_stack c)\<rparr>)"

definition gen_while :: "nat \<Rightarrow> unit gen \<Rightarrow> unit gen \<Rightarrow> unit gen" where
  "gen_while g condition body =
     in_function ''Invalid WhileExpr: missing condition/body''
      (bind_act (new_block ''while.cond'') (\<lambda>cond_block.
       bind_act (new_block ''while.body'') (\<lambda>body_blk.
       bind_act (new_block ''while.exit'') (\<lambda>exit_block.
       then_act (branch_if_needed cond_block)
        (then_act (enter_block cond_block)
         (then_act condition
          (bind_act (get_rvalue g) (\<lambda>cond_value.
           then_act (build (create_cond_br cond_value body_blk exit_block))
            (then_act (push_loop_ctx \<lparr>header_block = cond_block, body_block = body_blk,
                         continue_target = cond_block, break_target = exit_block, break_slot = None\<rparr>)
             (then_act (enter_block body_blk)
              (then_act body
               (then_act
                 (bind_act current_fn (\<lambda>c. when_act (current_block c \<noteq> None \<and> \<not> block_sealed c)
                    (build (create_br cond_block))))
                 (then_act pop_loop_ctx (enter_block exit_block))))))))))))))"

definition gen_loop :: "nat \<Rightarrow> unit gen \<Rightarrow> unit gen" where
  "gen_loop k body =
     in_function ''Invalid LoopExpr: missing body''
      (bind_act (new_block ''loop.body'') (\<lambda>body_blk.
       bind_act (new_block ''loop.break'') (\<lambda>break_block.
       then_act (branch_if_needed body_blk)
        (then_act (enter_block body_blk)
         (bind_act (get_sema (\<lambda>c. expr_type c k)) (\<lambda>t.
          case t of
            None \<Rightarrow> throw_act (RuntimeError ''LoopExpr has no associated type'')
          | Some t \<Rightarrow>
              bind_act (current_block_has_next k) (\<lambda>more.
              bind_act
               (if kind t \<noteq> RTK_UNIT \<and> more
                then bind_act (lower_type t) (\<lambda>t.
                     bind_act (build (create_temp_alloca t ''loop.break.slot'')) (\<lambda>slot. ret_act (Some slot)))
                else ret_act None) (\<lambda>slot.
              then_act (push_loop_ctx \<lparr>header_block = body_blk, body_block = body_blk,
                          continue_target = body_blk, break_target = break_block, break_slot = slot\<rparr>)
               (then_act body
                (then_act
                  (bind_act current_fn (\<lambda>c.
                     case current_block c of
                       None \<Rightarrow> ret_act ()
                     | Some p \<Rightarrow> when_act (\<not> block_sealed c)
                         (then_act (set_point (Some p)) (build (create_br body_blk)))))
                 (then_act (enter_block break_block)
                  (then_act (case slot of None \<Rightarrow> ret_act () | Some slot \<Rightarrow> set_address k slot)
                    pop_loop_ctx))))))))))))"

subsection \<open>Jumps\<close>

definition gen_return :: "nat option \<Rightarrow> unit gen option \<Rightarrow> unit gen" where
  "gen_return v visit =
     in_function ''ReturnExpr outside of function''
      (bind_act current_fn (\<lambda>c.
         if current_block c = None then ret_act ()
         else then_act
           (case (v, visit) of
              (Some k, Some visit) \<Rightarrow>
                then_act visit
                 (case return_slot c of
                    None \<Rightarrow> ret_act ()
                  | Some slot \<Rightarrow>
                      bind_act (sema_res (\<lambda>sem. deref (fn_decls sem) (ctx_decl c))) (\<lambda>fd.
                        store_expression_result k slot (return_type fd)))
            | _ \<Rightarrow> ret_act ())
           (then_act (branch_if_needed (return_block c)) (set_ctx (\<lambda>c. c\<lparr>current_block := None\<rparr>)))))"

definition current_loop :: "LoopContext option gen" where
  "current_loop =
     get_act (\<lambda>s. case fn_ctx s of
         None \<Rightarrow> None
       | Some c \<Rightarrow> (case loop_stack c of [] \<Rightarrow> None | l # _ \<Rightarrow> Some l))"

definition gen_break :: "nat option \<Rightarrow> unit gen option \<Rightarrow> unit gen" where
  "gen_break v visit =
     bind_act current_loop (\<lambda>l.
       case l of
         None \<Rightarrow> throw_act (RuntimeError ''BreakExpr outside of loop'')
       | Some l \<Rightarrow>
           bind_act current_fn (\<lambda>c.
           then_act
            (case (v, visit, break_slot l) of
               (Some k, Some visit, Some slot) \<Rightarrow>
                 when_act (current_block c \<noteq> None)
                  (then_act visit
                    (bind_act (get_sema (\<lambda>c. node_type c k)) (\<lambda>t. store_expression_result k slot t)))
             | _ \<Rightarrow> ret_act ())
            (then_act (branch_if_needed (break_target l)) (set_ctx (\<lambda>c. c\<lparr>current_block := None\<rparr>)))))"

definition gen_continue :: "unit gen" where
  "gen_continue =
     bind_act current_loop (\<lambda>l.
       case l of
         None \<Rightarrow> throw_act (RuntimeError ''ContinueExpr outside of loop'')
       | Some l \<Rightarrow>
           bind_act current_fn (\<lambda>c.
             if current_block c = None then ret_act ()
             else then_act (branch_if_needed (continue_target l)) (set_ctx (\<lambda>c. c\<lparr>current_block := None\<rparr>))))"

subsection \<open>Blocks\<close>

text \<open>The value of a statement without semicolon, or of the tail of a block, is that of its expression.\<close>

definition pass_result :: "nat \<Rightarrow> nat \<Rightarrow> RealType option \<Rightarrow> unit gen" where
  "pass_result k from_node t =
     (if is_aggregate_type t then bind_act (get_lvalue from_node) (set_address k)
      else bind_act (get_rvalue from_node) (\<lambda>v. set_value k (Some v)))"

primrec gen_stmts :: "(nat \<times> unit gen) list \<Rightarrow> unit gen" where
  "gen_stmts [] = ret_act ()"
| "gen_stmts (s # ss) =
     bind_act current_fn (\<lambda>c.
       if current_block c = None \<or> block_sealed c then ret_act ()
       else then_act (snd s)
         (bind_act (current_block_has_next (fst s)) (\<lambda>more.
            if more then gen_stmts ss else set_ctx (\<lambda>c. c\<lparr>current_block := None\<rparr>))))"

definition gen_tail :: "nat \<Rightarrow> nat \<Rightarrow> unit gen \<Rightarrow> unit gen" where
  "gen_tail k tail_id visit =
     then_act visit
      (bind_act (current_block_has_next tail_id) (\<lambda>more.
         when_act more
          (bind_act (sema_res (\<lambda>c. the_ptr (expr_type c tail_id))) (\<lambda>t.
             when_act (kind t \<noteq> RTK_UNIT) (pass_result k tail_id (Some t))))))"

definition gen_block :: "nat \<Rightarrow> (nat \<times> unit gen) list \<Rightarrow> (nat \<times> unit gen) option \<Rightarrow> unit gen" where
  "gen_block k ss tail_stmt =
     when_in_function
      (then_act (gen_stmts ss)
        (case tail_stmt of None \<Rightarrow> ret_act () | Some (t, visit) \<Rightarrow> gen_tail k t visit))"

definition gen_expr_stmt :: "nat \<Rightarrow> nat \<Rightarrow> bool \<Rightarrow> unit gen \<Rightarrow> unit gen" where
  "gen_expr_stmt k e is_semi visit =
     then_act visit
      (when_act (\<not> is_semi)
        (bind_act (get_sema (\<lambda>c. expr_type c e)) (\<lambda>t.
           case t of
             None \<Rightarrow> ret_act ()
           | Some t \<Rightarrow> when_act (kind t \<noteq> RTK_UNIT \<and> kind t \<noteq> RTK_NEVER) (pass_result k e (Some t)))))"

definition gen_let :: "nat \<Rightarrow> nat option \<Rightarrow> unit gen option \<Rightarrow> unit gen" where
  "gen_let k v visit =
     bind_act current_fn (\<lambda>c.
       if current_block c = None then ret_act ()
       else
         bind_act (get_sema (\<lambda>c. let_stmt_to_decl_map c k)) (\<lambda>d.
           case d of
             None \<Rightarrow> throw_act (RuntimeError ''LetStmt has no associated LetDecl'')
           | Some d \<Rightarrow>
               bind_act (ensure_slot_for_decl d) (\<lambda>slot.
                 case (v, visit) of
                   (Some e, Some visit) \<Rightarrow>
                     then_act visit
                      (bind_act current_fn (\<lambda>c.
                         if current_block c = None then ret_act ()
                         else bind_act (sema_res (\<lambda>c. deref (let_decls c) d)) (\<lambda>ld.
                           store_expression_result e slot (Some (let_type ld)))))
                 | _ \<Rightarrow> ret_act ())))"

subsection \<open>Structures and arrays\<close>

definition element_address :: "IRValue \<Rightarrow> IRType \<Rightarrow> IRValue \<Rightarrow> IRValue gen" where
  "element_address base t index = build (create_gep base t [create_i32_constant 0, index] [])"

definition gen_struct_field :: "IRValue \<Rightarrow> IRType \<Rightarrow> (string \<rightharpoonup> nat \<times> unit gen) \<Rightarrow> StructDecl \<Rightarrow> nat \<times> string \<Rightarrow> unit gen" where
  "gen_struct_field slot t field_exprs sd f =
     (case field_exprs (snd f) of
        None \<Rightarrow> throw_act (RuntimeError (''StructExpr missing field: '' @ snd f))
      | Some (e, visit) \<Rightarrow>
          (case map_of (struct_fields sd) (snd f) of
             None \<Rightarrow> throw_act (RuntimeError (''StructExpr field type missing: '' @ snd f))
           | Some ft \<Rightarrow>
               then_act visit
                (then_act ensure_current_insertion
                  (bind_act (element_address slot t (create_i32_constant (to_int64 (fst f)))) (\<lambda>address.
                     store_expression_result e address (Some ft))))))"

definition gen_struct :: "nat \<Rightarrow> (string \<times> nat) list \<Rightarrow> unit gen list \<Rightarrow> unit gen" where
  "gen_struct k fs visits =
     in_function ''StructExpr outside of function''
      (bind_act (get_sema (\<lambda>c. expr_type c k)) (\<lambda>t.
         case t of
           None \<Rightarrow> throw_act (RuntimeError ''StructExpr missing inferred type'')
         | Some (StructRealType r name d) \<Rightarrow>
             (case d of
                None \<Rightarrow> throw_act (RuntimeError ''StructExpr missing struct declaration'')
              | Some a \<Rightarrow>
                  bind_act (sema_res (\<lambda>c. deref (struct_decls c) a)) (\<lambda>sd.
                  bind_act (lower_type (StructRealType r name d)) (\<lambda>t.
                  bind_act (build (create_temp_alloca t ''struct.literal.slot'')) (\<lambda>slot.
                  let field_exprs = map_of (rev (zip (map fst fs) (zip (map snd fs) visits)))
                  in then_act
                      (seq_act (map (gen_struct_field slot t field_exprs sd)
                         (zip [0..<length (field_order sd)] (field_order sd))))
                      (set_address k slot)))))
         | Some _ \<Rightarrow> throw_act (RuntimeError ''StructExpr type is not a struct'')))"

definition gen_element :: "IRValue \<Rightarrow> IRType \<Rightarrow> RealType \<Rightarrow> nat \<times> nat \<times> unit gen \<Rightarrow> unit gen" where
  "gen_element slot t element_type e =
     then_act (snd (snd e))
      (then_act ensure_current_insertion
        (bind_act (element_address slot t (create_i32_constant (to_int64 (fst e)))) (\<lambda>address.
           store_expression_result (fst (snd e)) address (Some element_type))))"

definition gen_array :: "nat \<Rightarrow> nat list \<Rightarrow> unit gen list \<Rightarrow> unit gen" where
  "gen_array k es visits =
     in_function ''ArrayExpr outside of function''
      (bind_act (get_sema (\<lambda>c. expr_type c k)) (\<lambda>t.
         case t of
           None \<Rightarrow> throw_act (RuntimeError ''ArrayExpr missing inferred type'')
         | Some (ArrayRealType r et e n) \<Rightarrow>
             bind_act (lower_type (ArrayRealType r et e n)) (\<lambda>t.
             bind_act (build (create_temp_alloca t ''array.literal.slot'')) (\<lambda>slot.
             then_act (seq_act (map (gen_element slot t et) (zip [0..<length es] (zip es visits))))
               (set_address k slot)))
         | Some _ \<Rightarrow> throw_act (RuntimeError ''ArrayExpr type is not array'')))"

text \<open>A loop that stores the element at every index.\<close>

definition fill_loop :: "IRValue \<Rightarrow> IRType \<Rightarrow> nat \<Rightarrow> (IRValue \<Rightarrow> unit gen) \<Rightarrow> unit gen" where
  "fill_loop slot t n fill =
     bind_act (lower_type (UsizeRealType NO_REF)) (\<lambda>index_type.
     bind_act (build (create_temp_alloca index_type ''repeat.array.idx'')) (\<lambda>idx.
     then_act (build (create_store (create_i32_constant 0) idx))
      (bind_act (build (create_block ''repeatarray.while.cond'')) (\<lambda>cond_block.
       bind_act (build (create_block ''repeatarray.while.body'')) (\<lambda>body_blk.
       bind_act (build (create_block ''repeatarray.while.after'')) (\<lambda>after_block.
       then_act (build (create_br cond_block))
       (then_act (set_ctx (\<lambda>c. c\<lparr>current_block := Some cond_block\<rparr>))
       (then_act (set_point (Some cond_block))
        (bind_act (build (create_load idx [])) (\<lambda>i.
         bind_act (build (create_icmp_slt i (create_i32_constant (to_int64 n)) [])) (\<lambda>cmp.
         then_act (build (create_cond_br cmp body_blk after_block))
         (then_act (set_ctx (\<lambda>c. c\<lparr>current_block := Some body_blk\<rparr>))
         (then_act (set_point (Some body_blk))
          (bind_act (build (create_load idx [])) (\<lambda>i.
           bind_act (element_address slot t i) (\<lambda>address.
           then_act (fill address)
            (bind_act (build (create_add i (create_i32_constant 1) [])) (\<lambda>next_idx.
             then_act (build (create_store next_idx idx))
             (then_act (build (create_br cond_block))
             (then_act (set_ctx (\<lambda>c. c\<lparr>current_block := Some after_block\<rparr>))
               (set_point (Some after_block))))))))))))))))))))))"

definition gen_repeat :: "nat \<Rightarrow> expr \<Rightarrow> unit gen \<Rightarrow> unit gen" where
  "gen_repeat k e visit =
     in_function ''RepeatArrayExpr outside of function''
      (bind_act (get_sema (\<lambda>c. expr_type c k)) (\<lambda>ty.
         case ty of
           None \<Rightarrow> throw_act (RuntimeError ''RepeatArrayExpr missing inferred type'')
         | Some (ArrayRealType r et se n) \<Rightarrow>
             bind_act (lower_type (ArrayRealType r et se n)) (\<lambda>t.
             bind_act (build (create_temp_alloca t ''repeat.array.literal.slot'')) (\<lambda>slot.
               if is_zero_initializer_expr e
               then then_act (zero_initialize slot (ArrayRealType r et se n)) (set_address k slot)
               else
                 then_act visit
                  (bind_act
                    (if is_aggregate_type (Some et)
                     then bind_act (get_lvalue (expr_id e)) (\<lambda>src. ret_act (\<lambda>address. emit_memcpy address src et))
                     else bind_act (get_rvalue (expr_id e)) (\<lambda>v. ret_act (\<lambda>address. build (create_store v address))))
                    (\<lambda>fill. then_act (fill_loop slot t n fill) (set_address k slot)))))
         | Some _ \<Rightarrow> throw_act (RuntimeError ''RepeatArrayExpr type is not array'')))"

subsection \<open>Fields and indices\<close>

text \<open>A reference is followed first; the type is then what the pointer points to.\<close>

definition follow_reference :: "RealType \<Rightarrow> IRValue \<Rightarrow> IRType \<Rightarrow> (IRValue \<times> IRType) gen" where
  "follow_reference t address ir_type =
     (if is_ref t = NO_REF then ret_act (address, ir_type)
      else bind_act (build (create_load address [])) (\<lambda>base.
        case ir_type of
          PointerType pointee \<Rightarrow> ret_act (base, pointee)
        | _ \<Rightarrow> throw_act (RuntimeError ''Expected pointer type after dereferencing reference'')))"

fun index_of :: "string \<Rightarrow> string list \<Rightarrow> nat option" where
  "index_of name [] = None"
| "index_of name (f # fs) = (if f = name then Some 0 else map_option Suc (index_of name fs))"

definition gen_method_field :: "nat \<Rightarrow> nat \<Rightarrow> unit gen" where
  "gen_method_field k b =
     bind_act (get_act (\<lambda>s. (expr_value_map s b, expr_address_map s b))) (\<lambda>(v, a).
       case v of
         Some p \<Rightarrow> set_value k p
       | None \<Rightarrow>
           (case a of
              Some a \<Rightarrow> set_address k a
            | None \<Rightarrow> throw_act (RuntimeError ''FieldExpr function base has no value'')))"

definition gen_struct_access :: "nat \<Rightarrow> nat \<Rightarrow> string \<Rightarrow> unit gen" where
  "gen_struct_access k b name =
     bind_act (get_lvalue b) (\<lambda>base_addr.
     bind_act (get_sema (\<lambda>c. expr_type c b)) (\<lambda>t.
       case t of
         Some (StructRealType r sname d) \<Rightarrow>
           (case d of
              None \<Rightarrow> throw_act (RuntimeError ''FieldExpr base struct missing declaration'')
            | Some a \<Rightarrow>
                bind_act (sema_res (\<lambda>c. deref (struct_decls c) a)) (\<lambda>sd.
                  case index_of name (field_order sd) of
                    None \<Rightarrow> throw_act (RuntimeError (''FieldExpr field not found: '' @ name))
                  | Some i \<Rightarrow>
                      then_act ensure_current_insertion
                       (bind_act (lower_type (StructRealType r sname d)) (\<lambda>ir_type.
                        bind_act (follow_reference (StructRealType r sname d) base_addr ir_type) (\<lambda>(base, ir_type).
                        bind_act (element_address base ir_type (create_i32_constant (to_int64 i))) (set_address k))))))
       | _ \<Rightarrow> throw_act (RuntimeError ''FieldExpr base is not a struct'')))"

definition gen_field :: "nat \<Rightarrow> nat \<Rightarrow> string \<Rightarrow> unit gen \<Rightarrow> unit gen" where
  "gen_field k b name visit =
     in_function ''FieldExpr outside of function''
      (bind_act (get_sema (\<lambda>c. expr_type c k)) (\<lambda>t.
         case t of
           None \<Rightarrow> throw_act (RuntimeError ''FieldExpr missing inferred type'')
         | Some t \<Rightarrow>
             then_act visit
               (if kind t = RTK_FUNCTION then gen_method_field k b else gen_struct_access k b name)))"

definition gen_index :: "nat \<Rightarrow> nat \<Rightarrow> nat \<Rightarrow> unit gen \<Rightarrow> unit gen \<Rightarrow> unit gen" where
  "gen_index k b i base index =
     in_function ''IndexExpr outside of function''
      (bind_act (get_sema (\<lambda>c. expr_type c k)) (\<lambda>t.
         if t = None then throw_act (RuntimeError ''IndexExpr missing inferred type'')
         else
           then_act base
            (then_act index
              (bind_act (get_lvalue b) (\<lambda>base_addr.
               bind_act (get_sema (\<lambda>c. expr_type c b)) (\<lambda>bt.
               bind_act (lower_ptr bt) (\<lambda>ir_type.
               bind_act (follow_reference (the bt) base_addr ir_type) (\<lambda>(base, ir_type).
               then_act ensure_current_insertion
                (bind_act (get_rvalue i) (\<lambda>index.
                 bind_act (element_address base ir_type index) (set_address k)))))))))))"

subsection \<open>Literals, names and casts\<close>

definition gen_string :: "string \<Rightarrow> IRValue gen" where
  "gen_string v =
     bind_act current_fn (\<lambda>c.
     bind_act (lower_type (StrRealType NO_REF)) (\<lambda>t.
     bind_act insertion_point (\<lambda>previous.
     then_act (set_point (Some (entry_block c)))
      (bind_act (build (create_temp_alloca t ''str.literal.slot'')) (\<lambda>slot.
       then_act (set_point previous)
       (then_act ensure_current_insertion
        (bind_act (element_address slot t (create_i32_constant 0)) (\<lambda>ptr_field.
         bind_act (element_address slot t (create_i32_constant 1)) (\<lambda>len_field.
         bind_act (build (create_string_literal v)) (\<lambda>data.
         then_act (build (create_store data ptr_field))
          (then_act (build (create_store (create_i32_constant (to_int64 (length v))) len_field))
            (ret_act slot))))))))))))"

definition gen_literal :: "nat \<Rightarrow> LiteralType \<Rightarrow> string \<Rightarrow> unit gen" where
  "gen_literal k t v =
     then_act current_fn
      (bind_act
        (case t of
           LIT_NUMBER \<Rightarrow> bind_act (lift_act (safe_stoll v)) (\<lambda>n. ret_act (create_i32_constant n))
         | LIT_BOOL \<Rightarrow> bind_act (lower_type (BoolRealType NO_REF)) (\<lambda>t.
             ret_act (ConstantValue t (if v = ''true'' then 1 else 0)))
         | LIT_CHAR \<Rightarrow>
             (case v of
                [] \<Rightarrow> throw_act (RuntimeError ''empty char literal'')
              | ch # _ \<Rightarrow> bind_act (lower_type (CharRealType NO_REF)) (\<lambda>t.
                  ret_act (ConstantValue t (char_value ch))))
         | LIT_STRING \<Rightarrow> gen_string v)
        (\<lambda>c. set_value k (Some c)))"

text \<open>A constant array is a global variable; other constants are values.\<close>

definition gen_const :: "nat \<Rightarrow> ConstDecl \<Rightarrow> RealType \<Rightarrow> ConstValue option \<Rightarrow> string \<Rightarrow> err \<Rightarrow>
    (unit gen) \<Rightarrow> unit gen" where
  "gen_const k cd t v name missing fallback =
     (if kind t = RTK_ARRAY
      then bind_act (lower_type t) (\<lambda>ir_type. set_address k (GlobalValue (const_name cd) ir_type [] True ''private''))
      else
        (case v of
           None \<Rightarrow> throw_act missing
         | Some v \<Rightarrow> bind_act (lift_act (lower_const v t)) (\<lambda>res.
             case res of Some r \<Rightarrow> set_value k (Some r) | None \<Rightarrow> fallback)))"

definition gen_identifier :: "nat \<Rightarrow> unit gen" where
  "gen_identifier k =
     bind_act (get_sema (\<lambda>c. identifier_expr_to_decl_map c k)) (\<lambda>d.
       case d of
         None \<Rightarrow> ret_act ()
       | Some target \<Rightarrow>
           then_act current_fn
            (case target of
               LetStmt_decl a \<Rightarrow> bind_act (ensure_slot_for_decl a) (set_address k)
             | Constant_decl a \<Rightarrow>
                 bind_act (sema_res (\<lambda>c. deref (const_decls c) a)) (\<lambda>cd.
                   case const_type cd of
                     None \<Rightarrow> ret_act ()
                   | Some t \<Rightarrow>
                       bind_act (get_sema (\<lambda>c. const_value_map c a)) (\<lambda>v.
                         gen_const k cd t v (const_name cd) (RuntimeError ''ConstDecl has no associated ConstValue'')
                           (ret_act ())))
             | Function_decl _ \<Rightarrow> ret_act ()))"

definition is_signed_integer :: "RealTypeKind \<Rightarrow> bool" where
  "is_signed_integer k \<longleftrightarrow> k \<in> {RTK_I32, RTK_ISIZE, RTK_ANYINT}"

definition cast_value :: "RealTypeKind \<Rightarrow> nat \<Rightarrow> nat \<Rightarrow> IRValue \<Rightarrow> IRType \<Rightarrow> IRType \<Rightarrow> IRValue gen" where
  "cast_value src_kind src_bits dst_bits v src_ir dst_ir =
     (if dst_bits = 1 \<and> src_bits = 1 then ret_act v
      else if dst_bits = 1
      then then_act ensure_current_insertion (build (create_icmp_ne v (ConstantValue src_ir 0) ''cast.to.bool''))
      else if src_bits = dst_bits then ret_act v
      else if src_bits < dst_bits
      then then_act ensure_current_insertion
        (build (if is_signed_integer src_kind then create_sext v dst_ir ''cast.sext''
                else create_zext v dst_ir ''cast.zext''))
      else then_act ensure_current_insertion (build (create_trunc v dst_ir ''cast.trunc'')))"

definition gen_cast :: "nat \<Rightarrow> nat \<Rightarrow> unit gen \<Rightarrow> unit gen" where
  "gen_cast k e visit =
     in_function ''Invalid CastExpr''
      (then_act visit
        (bind_act (get_sema (\<lambda>c. (expr_type c e, expr_type c k))) (\<lambda>ts.
           case ts of
             (Some src, Some dst) \<Rightarrow>
               if is_ref src \<noteq> NO_REF \<or> is_ref dst \<noteq> NO_REF
               then throw_act (RuntimeError ''CastExpr does not support references'')
               else
                 bind_act (lower_type src) (\<lambda>src_ir.
                 bind_act (lower_type dst) (\<lambda>dst_ir.
                   case (src_ir, dst_ir) of
                     (IntegerType m, IntegerType n) \<Rightarrow>
                       bind_act (get_rvalue e) (\<lambda>v.
                       bind_act (cast_value (kind src) m n v src_ir dst_ir) (\<lambda>res. set_value k (Some res)))
                   | _ \<Rightarrow> throw_act (RuntimeError ''CastExpr requires integer-like types'')))
           | _ \<Rightarrow> throw_act (RuntimeError ''CastExpr missing type information''))))"

definition gen_associated_const :: "nat \<Rightarrow> address \<Rightarrow> string \<Rightarrow> unit gen" where
  "gen_associated_const k a name =
     bind_act (sema_res (\<lambda>c. deref (struct_decls c) a)) (\<lambda>sd.
       case map_of (associated_const sd) name of
         None \<Rightarrow> throw_act (RuntimeError (''Struct has no associated const: '' @ name))
       | Some d \<Rightarrow>
           bind_act (sema_res (\<lambda>c. deref (const_decls c) d)) (\<lambda>cd.
             case const_type cd of
               None \<Rightarrow> throw_act (RuntimeError ''Invalid associated const declaration'')
             | Some t \<Rightarrow>
                 bind_act (get_sema (\<lambda>c. const_value_map c d)) (\<lambda>v.
                   gen_const k cd t v name (RuntimeError ''Associated const has no evaluated value'')
                     (throw_act (RuntimeError ''Failed to lower associated const value'')))))"

definition gen_variant :: "nat \<Rightarrow> address \<Rightarrow> string \<Rightarrow> unit gen" where
  "gen_variant k a name =
     bind_act (sema_res (\<lambda>c. deref (enum_decls c) a)) (\<lambda>ed.
       case map_of (variants ed) name of
         None \<Rightarrow> throw_act (RuntimeError (''Enum has no variant named: '' @ name))
       | Some n \<Rightarrow>
           bind_act (get_sema (\<lambda>c. expr_type c k)) (\<lambda>t.
             case t of
               None \<Rightarrow> throw_act (RuntimeError ''Enum PathExpr missing type info'')
             | Some t \<Rightarrow> bind_act (lower_type t) (\<lambda>t. set_value k (Some (ConstantValue t (to_int32 n))))))"

definition gen_path :: "nat \<Rightarrow> nat \<Rightarrow> string \<Rightarrow> unit gen" where
  "gen_path k b name =
     in_function ''PathExpr outside of function''
      (bind_act (get_sema (\<lambda>c. type_decl_of c b)) (\<lambda>d.
         case d of
           None \<Rightarrow> throw_act (RuntimeError ''PathExpr base type not resolved'')
         | Some (Struct_decl a) \<Rightarrow> gen_associated_const k a name
         | Some (Enum_decl a) \<Rightarrow> gen_variant k a name))"

definition gen_self :: "nat \<Rightarrow> unit gen" where
  "gen_self k =
     in_function ''SelfExpr outside of function''
      (bind_act current_fn (\<lambda>c.
         case self_slot c of
           None \<Rightarrow> throw_act (RuntimeError ''SelfExpr missing self slot'')
         | Some slot \<Rightarrow> set_address k slot))"

subsection \<open>Functions\<close>

text \<open>
  A function with an aggregate result gets another parameter here, after the one that
  \<open>lower_function\<close> has added; the result is stored through the first of them.
\<close>

definition add_sret :: "function_ptr \<Rightarrow> IRType \<Rightarrow> IRModule \<Rightarrow> IRModule" where
  "add_sret f t m =
     (case t of
        FunctionType ret ps \<Rightarrow>
          add_param f ''sret'' (PointerType ret) (set_type_of f (FunctionType VoidType (ps @ [PointerType ret])) m)
      | _ \<Rightarrow> m)"

definition store_param :: "address \<times> string \<times> IRType \<Rightarrow> unit gen" where
  "store_param p =
     bind_act (ensure_slot_for_decl (fst p)) (\<lambda>slot.
       build (create_store (RegisterValue (fst (snd p)) (snd (snd p))) slot))"

definition store_self :: "(string \<times> IRType) list \<Rightarrow> unit gen" where
  "store_self params =
     (case params of
        [] \<Rightarrow> throw_act (Undefined ''params[0]'')
      | (name, t) # _ \<Rightarrow>
          bind_act (build (create_alloca t ''self.slot'')) (\<lambda>slot.
          then_act (build (create_store (RegisterValue name t) slot))
            (set_ctx (\<lambda>c. c\<lparr>self_slot := Some slot\<rparr>))))"

definition needs_return_slot :: "FnDecl \<Rightarrow> bool" where
  "needs_return_slot fd =
     (case return_type fd of None \<Rightarrow> False | Some t \<Rightarrow> kind t \<noteq> RTK_UNIT \<and> kind t \<noteq> RTK_NEVER)"

text \<open>\<open>rest\<close> are the parameters after those that have a declaration.\<close>

definition make_return_slot :: "FnDecl \<Rightarrow> (string \<times> IRType) list \<Rightarrow> IRValue option gen" where
  "make_return_slot fd rest =
     (if is_main fd
      then bind_act (lower_type (I32RealType NO_REF)) (\<lambda>t.
           bind_act (build (create_temp_alloca t ''ret.slot'')) (\<lambda>slot. ret_act (Some slot)))
      else if needs_return_slot fd
      then (if is_aggregate_type (return_type fd)
            then (case rest of
                    [] \<Rightarrow> throw_act AssertFail
                  | (name, t) # _ \<Rightarrow> ret_act (Some (RegisterValue name t)))
            else bind_act (lower_ptr (return_type fd)) (\<lambda>t.
                 bind_act (build (create_temp_alloca t ''ret.slot'')) (\<lambda>slot. ret_act (Some slot))))
      else ret_act None)"

definition new_context :: "address \<Rightarrow> function_ptr \<Rightarrow> block_ptr \<Rightarrow> block_ptr \<Rightarrow> FunctionContext" where
  "new_context d f entry ret =
     \<lparr>ctx_decl = d, ir_function = f, entry_block = entry, current_block = Some entry, return_block = ret,
      return_slot = None, self_slot = None, block_sealed = False, local_slots = Map.empty, loop_stack = []\<rparr>"

definition function_of :: "function_ptr \<Rightarrow> IRFunction gen" where
  "function_of f =
     bind_act (get_act (\<lambda>s. ir_functions (ir_module (ir_builder (world s))))) (\<lambda>fs.
       if f < length fs then ret_act (fs ! f) else throw_act (Undefined ''null pointer''))"

text \<open>The slots of the parameters and of the result, before the body.\<close>

definition open_fn :: "FnDecl \<Rightarrow> fn_reciever_type \<Rightarrow> (string \<times> IRType) list \<Rightarrow> unit gen" where
  "open_fn fd receiver params =
     (let ps = (if receiver = NO_RECEIVER then params else tl params);
          bound = zip (parameter_let_decls fd) ps
      in then_act (when_act (receiver \<noteq> NO_RECEIVER) (store_self params))
          (then_act (seq_act (map store_param bound))
            (bind_act (make_return_slot fd (drop (length bound) ps)) (\<lambda>slot.
               set_ctx (\<lambda>c. c\<lparr>return_slot := slot\<rparr>)))))"

text \<open>The result of the body and the return block.\<close>

definition store_body_result :: "FnDecl \<Rightarrow> nat \<Rightarrow> unit gen" where
  "store_body_result fd body =
     when_act (needs_return_slot fd \<and> \<not> is_main fd)
      (bind_act (current_block_has_next body) (\<lambda>more.
         when_act more
          (bind_act current_fn (\<lambda>c.
           bind_act (lift_act (the_ptr (return_slot c))) (\<lambda>slot.
             store_expression_result body slot (return_type fd))))))"

definition close_fn :: "FnDecl \<Rightarrow> nat \<Rightarrow> unit gen" where
  "close_fn fd body =
     then_act (store_body_result fd body)
      (bind_act current_fn (\<lambda>c.
       then_act (when_act (current_block c \<noteq> None \<and> \<not> block_sealed c) (branch_if_needed (return_block c)))
        (then_act (set_point (Some (return_block c)))
          (bind_act (in_back (in_module (\<lambda>m. bindr (block_at (block_store m) (return_block c)) (\<lambda>b. Inr (b, m))))) (\<lambda>b.
             when_act (get_terminator b = None)
              (case return_slot c of
                 Some slot \<Rightarrow>
                   if is_aggregate_type (return_type fd) then build (create_ret None)
                   else bind_act (build (create_load slot ''ret.val'')) (\<lambda>v. build (create_ret (Some v)))
               | None \<Rightarrow> build (create_ret None)))))))"

definition gen_body :: "FnDecl \<Rightarrow> address \<Rightarrow> fn_reciever_type \<Rightarrow> function_ptr \<Rightarrow> nat \<Rightarrow> unit gen \<Rightarrow> unit gen" where
  "gen_body fd d receiver f body visit =
     bind_act (in_back (in_module (function_create_block f ''entry''))) (\<lambda>entry.
     bind_act (in_back (in_module (function_create_block f ''return''))) (\<lambda>ret.
     then_act (put_act (\<lambda>s. s\<lparr>fn_ctx := Some (new_context d f entry ret)\<rparr>))
      (bind_act insertion_point (\<lambda>previous_insertion_point.
       then_act (set_point (Some entry))
        (bind_act (function_of f) (\<lambda>fn.
         then_act (open_fn fd receiver (ir_params fn))
          (then_act visit
            (then_act (close_fn fd body) (set_point previous_insertion_point)))))))))"

definition gen_fn_decl :: "address \<Rightarrow> FnDecl \<Rightarrow> fn_reciever_type \<Rightarrow> nat \<Rightarrow> unit gen \<Rightarrow> unit gen" where
  "gen_fn_decl d fd receiver body visit =
     bind_act (in_back (lower_act (\<lambda>c lw. lower_function c lw d))) (\<lambda>t.
     bind_act (in_back (in_module (\<lambda>m. Inr (define_function (fn_name fd) t m)))) (\<lambda>f.
     bind_act (function_of f) (\<lambda>fn.
       if blocks fn \<noteq> [] then throw_act (RuntimeError ''IR function already lowered'')
       else
         then_act (when_act (is_aggregate_type (return_type fd)) (in_back (in_module (put_act (add_sret f t)))))
          (bind_act (get_act fn_ctx) (\<lambda>previous_fn_ctx.
           then_act (gen_body fd d receiver f body visit)
             (put_act (\<lambda>s. s\<lparr>fn_ctx := previous_fn_ctx\<rparr>)))))))"

definition gen_fn :: "nat \<Rightarrow> fn_reciever_type \<Rightarrow> nat \<Rightarrow> unit gen \<Rightarrow> unit gen" where
  "gen_fn k receiver body visit =
     bind_act (get_sema (\<lambda>c. fn_item_to_decl_map c k)) (\<lambda>d.
       case d of
         None \<Rightarrow> ret_act ()
       | Some d \<Rightarrow>
           bind_act (sema_res (\<lambda>c. deref (fn_decls c) d)) (\<lambda>fd.
             when_act (fn_ast fd \<noteq> None) (gen_fn_decl d fd receiver body visit)))"

subsection \<open>The visitor\<close>

primrec gen_expr :: "expr \<Rightarrow> unit gen"
  and gen_stmt :: "stmt \<Rightarrow> unit gen"
  and gen_item :: "item \<Rightarrow> unit gen"
where
  "gen_expr (LiteralExpr k t v) = gen_literal k t v"
| "gen_expr (IdentifierExpr k name) = gen_identifier k"
| "gen_expr (BinaryExpr k OP l r) = gen_binary k OP (expr_id l) (expr_id r) (gen_expr l) (gen_expr r)"
| "gen_expr (UnaryExpr k OP r) = when_in_function (then_act (gen_expr r) (gen_unary k OP (expr_id r)))"
| "gen_expr (CallExpr k f args) = gen_call k f args (gen_expr f) (map gen_expr args)"
| "gen_expr (FieldExpr k b name) = gen_field k (expr_id b) name (gen_expr b)"
| "gen_expr (StructExpr k t fs) =
     gen_struct k (map (map_prod id expr_id) fs) (map snd (map (map_prod id gen_expr) fs))"
| "gen_expr (IndexExpr k b i) = gen_index k (expr_id b) (expr_id i) (gen_expr b) (gen_expr i)"
| "gen_expr (BlockExpr k ss t _) =
     gen_block k (zip (map stmt_id ss) (map gen_stmt ss))
       (case map_option gen_stmt t of None \<Rightarrow> None | Some visit \<Rightarrow> Some (stmt_id (the t), visit))"
| "gen_expr (IfExpr k g a b _) =
     gen_if k (expr_id g) (expr_id a) (map_option expr_id b) (gen_expr g) (gen_expr a) (map_option gen_expr b)"
| "gen_expr (WhileExpr k g b) = gen_while (expr_id g) (gen_expr g) (gen_expr b)"
| "gen_expr (LoopExpr k b _) = gen_loop k (gen_expr b)"
| "gen_expr (ReturnExpr k v) = gen_return (map_option expr_id v) (map_option gen_expr v)"
| "gen_expr (BreakExpr k v) = gen_break (map_option expr_id v) (map_option gen_expr v)"
| "gen_expr (ContinueExpr k) = gen_continue"
| "gen_expr (CastExpr k e t) = gen_cast k (expr_id e) (gen_expr e)"
| "gen_expr (PathExpr k t name) = gen_path k (type_id t) name"
| "gen_expr (SelfExpr k) = gen_self k"
| "gen_expr (UnitExpr k) = ret_act ()"
| "gen_expr (ArrayExpr k es) = gen_array k (map expr_id es) (map gen_expr es)"
| "gen_expr (RepeatArrayExpr k e s) = gen_repeat k e (gen_expr e)"
| "gen_stmt (LetStmt k p t e) = gen_let k (map_option expr_id e) (map_option gen_expr e)"
| "gen_stmt (ExprStmt k e semi) = gen_expr_stmt k (expr_id e) semi (gen_expr e)"
| "gen_stmt (ItemStmt _ i) = gen_item i"
| "gen_item (FnItem k name r ps t b) = gen_fn k r (expr_id b) (gen_expr b)"
| "gen_item (StructItem _ _ _) = ret_act ()"
| "gen_item (EnumItem _ _ _) = ret_act ()"
| "gen_item (ImplItem _ _ ms) = seq_act (map gen_item ms)"
| "gen_item (ConstItem _ _ _ _) = ret_act ()"

definition generate :: "item list \<Rightarrow> (backend, unit) act" where
  "generate items w =
     bindr (seq_act (map gen_item items)
        \<lparr>fn_ctx = None, expr_value_map = Map.empty, expr_address_map = Map.empty, world = w\<rparr>)
       (\<lambda>(_, s). Inr ((), world s))"

end
