(* ===== verification/Pipeline.thy ===== *)
theory Pipeline
  imports Parser IRGen
begin

section \<open>The compiler\<close>

text \<open>
  \<open>run_full_pipeline\<close> and \<open>main\<close> of \<open>main.cpp\<close>: the text of the program goes through the lexer, the
  parser, the semantic check, the lowering of the global declarations and the generation of the
  function bodies; the text of the module is printed.
\<close>

definition front_end :: "string \<Rightarrow> (item list \<times> Semantic_Checker) res" where
  "front_end input =
     bindr (read_and_get_tokens input) (\<lambda>ts.
     bindr (parse (mk_lexer ts)) (\<lambda>items.
     bindr (run_checker items) (\<lambda>c. Inr (items, c))))"

definition initial_backend :: "Semantic_Checker \<Rightarrow> backend" where
  "initial_backend c =
     \<lparr>sema = c, ir_builder = new_builder (new_module ''unknown-unknown-unknown'' []),
      type_lowering = new_type_lowering\<rparr>"

definition back_end :: "item list \<Rightarrow> (backend, unit) act" where
  "back_end items =
     then_act (in_lowering (\<lambda>_. declare_builtin_string_types))
       (then_act emit_scope_tree (generate items))"

definition run_full_pipeline :: "string \<Rightarrow> string res" where
  "run_full_pipeline input =
     bindr (front_end input) (\<lambda>(items, c).
     bindr (back_end items (initial_backend c)) (\<lambda>(_, w).
       module_string (ir_module (ir_builder w))))"

text \<open>
  The program ends with an exit code and its output, or it is aborted. \<open>runtime\<close> is the content
  of \<open>runtime/builtin.c\<close>, when it can be opened.
\<close>

datatype outcome =
    Exited (exit_code: nat) (standard_output: string) (standard_error: string)
  | Aborted err

definition main :: "string option \<Rightarrow> string \<Rightarrow> outcome" where
  "main runtime input =
     (case run_full_pipeline input of
        Inr out \<Rightarrow> Exited 0 out (case runtime of
            Some text \<Rightarrow> text
          | None \<Rightarrow> ''Error: failed to open runtime/runtime.c\<newline>'')
      | Inl (RuntimeError message) \<Rightarrow> Exited 1 [] (message @ ''\<newline>'')
      | Inl (Thrown message) \<Rightarrow> Exited 1 [] (message @ ''\<newline>'')
      | Inl e \<Rightarrow> Aborted e)"

end
