(* ===== verification/IRWellFormed.thy ===== *)
theory IRWellFormed
  imports IRBuilder "HOL-Library.Multiset"
begin

section \<open>Well-formed modules\<close>

text \<open>
  What the builder promises of the module: each register gets its value from one instruction, a
  terminator is the last instruction of its block, a jump stays in the function, labels and names
  are unique, and every instruction has the parts that its text needs. The operations of the
  builder keep this. The lemmas about them are the interface that the generator builds on.
\<close>

subsection \<open>The invariant of a module\<close>

definition result_name :: "IRInstruction \<Rightarrow> string list" where
  "result_name i = (case inst_result i of Some (RegisterValue n _) \<Rightarrow> [n] | _ \<Rightarrow> [])"

definition block_results :: "BasicBlock \<Rightarrow> string list" where
  "block_results b = concat (map result_name (instructions b))"

definition result_names :: "IRModule \<Rightarrow> string list" where
  "result_names m = concat (map block_results (block_store m))"

definition targets :: "IRInstruction \<Rightarrow> block_ptr set" where
  "targets i =
     (case inst_opcode i of
        Op_Br \<Rightarrow> set_option (branch_target i)
      | Op_CondBr \<Rightarrow> set_option (true_target i) \<union> set_option (false_target i)
      | _ \<Rightarrow> {})"

text \<open>The parts of an instruction that its text needs.\<close>

definition complete :: "IRInstruction \<Rightarrow> bool" where
  "complete i =
     (case inst_opcode i of
        Op_ZExt \<Rightarrow> inst_result i \<noteq> None \<and> operands i \<noteq> []
      | Op_SExt \<Rightarrow> inst_result i \<noteq> None \<and> operands i \<noteq> []
      | Op_Trunc \<Rightarrow> inst_result i \<noteq> None \<and> operands i \<noteq> []
      | Op_Load \<Rightarrow> inst_result i \<noteq> None \<and> operands i \<noteq> []
      | Op_Call \<Rightarrow> literal_type i \<noteq> None
      | Op_Alloca \<Rightarrow> literal_type i \<noteq> None
      | Op_GEP \<Rightarrow> literal_type i \<noteq> None
      | Op_Br \<Rightarrow> branch_target i \<noteq> None
      | Op_CondBr \<Rightarrow> operands i \<noteq> [] \<and> true_target i \<noteq> None \<and> false_target i \<noteq> None
      | Op_Ret \<Rightarrow> True
      | _ \<Rightarrow> 2 \<le> length (operands i))"

definition block_ok :: "block_ptr set \<Rightarrow> BasicBlock \<Rightarrow> bool" where
  "block_ok P b \<longleftrightarrow>
     list_all (\<lambda>i. complete i \<and> targets i \<subseteq> P) (instructions b) \<and>
     list_all (\<lambda>i. \<not> is_terminator i) (butlast (instructions b))"

definition param_name :: "string \<Rightarrow> bool" where
  "param_name n \<longleftrightarrow> n = ''sret'' \<or> (\<exists>i. n = dotted ''arg'' i)"

definition label_used :: "IRFunction \<Rightarrow> string \<Rightarrow> bool" where
  "label_used f n \<longleftrightarrow> (\<exists>l k. n = dotted l k \<and> k < block_name_counter f l)"

definition function_ok :: "BasicBlock list \<Rightarrow> IRFunction \<Rightarrow> bool" where
  "function_ok bs f \<longleftrightarrow>
     (\<exists>r ts. fn_type f = FunctionType r ts) \<and>
     list_all (\<lambda>p. param_name (fst p)) (ir_params f) \<and>
     (\<forall>p\<in>set (blocks f). p < length bs \<and> block_ok (set (blocks f)) (bs ! p) \<and> label_used f (block_label (bs ! p))) \<and>
     distinct (map (\<lambda>p. block_label (bs ! p)) (blocks f))"

definition module_ok :: "IRModule \<Rightarrow> bool" where
  "module_ok m \<longleftrightarrow>
     list_all (function_ok (block_store m)) (ir_functions m) \<and>
     distinct (concat (map blocks (ir_functions m))) \<and>
     distinct (result_names m) \<and>
     distinct (map function_name (ir_functions m)) \<and>
     distinct (map global_name (ir_globals m))"

subsection \<open>The invariant of the builder\<close>

definition fn_blocks :: "IRModule \<Rightarrow> function_ptr \<Rightarrow> block_ptr set" where
  "fn_blocks m f = (if f < length (ir_functions m) then set (blocks (ir_functions m ! f)) else {})"

text \<open>A hint for the name of a register; with the empty hint the name begins with \<open>tmp\<close>.\<close>

definition good_hint :: "string \<Rightarrow> bool" where
  "good_hint h \<longleftrightarrow> h \<noteq> ''tmp'' \<and> h \<noteq> ''arg''"

definition name_of :: "string \<Rightarrow> nat \<Rightarrow> string" where
  "name_of h k = dotted (if h = [] then ''tmp'' else h) k"

definition counter :: "IRBuilder \<Rightarrow> string \<Rightarrow> nat" where
  "counter b h = (if h = [] then next_reg_index b else name_hint_counters b h)"

definition name_used :: "IRBuilder \<Rightarrow> string \<Rightarrow> bool" where
  "name_used b n \<longleftrightarrow> (\<exists>h k. n = name_of h k \<and> good_hint h \<and> k < counter b h)"

definition point_ok :: "IRBuilder \<Rightarrow> bool" where
  "point_ok b =
     (case insertion_block b of
        None \<Rightarrow> current_function b = None
      | Some p \<Rightarrow> (case current_function b of None \<Rightarrow> False | Some f \<Rightarrow> p \<in> fn_blocks (ir_module b) f))"

definition builder_ok :: "IRBuilder \<Rightarrow> bool" where
  "builder_ok b \<longleftrightarrow> module_ok (ir_module b) \<and> list_all (name_used b) (result_names (ir_module b)) \<and> point_ok b"

definition grows :: "IRModule \<Rightarrow> IRModule \<Rightarrow> bool" where
  "grows m n \<longleftrightarrow> length (ir_functions m) \<le> length (ir_functions n) \<and> (\<forall>f. fn_blocks m f \<subseteq> fn_blocks n f)"

definition same_point :: "IRBuilder \<Rightarrow> IRBuilder \<Rightarrow> bool" where
  "same_point b c \<longleftrightarrow> insertion_block c = insertion_block b \<and> current_function c = current_function b"

definition builds :: "IRBuilder \<Rightarrow> IRBuilder \<Rightarrow> bool" where
  "builds b c \<longleftrightarrow> grows (ir_module b) (ir_module c) \<and> same_point b c"

lemma grows_refl [simp]: "grows m m"
  by (simp add: grows_def)

lemma grows_trans: "grows m n \<Longrightarrow> grows n k \<Longrightarrow> grows m k"
  unfolding grows_def by (meson le_trans subset_trans)

lemma builds_refl [simp]: "builds b b"
  by (simp add: builds_def same_point_def)

lemma builds_trans: "builds b c \<Longrightarrow> builds c d \<Longrightarrow> builds b d"
  unfolding builds_def same_point_def by (auto intro: grows_trans)

interpretation building: stepping builder_ok builds
  by unfold_locales (auto intro: builds_trans)

subsection \<open>Appending an instruction\<close>

lemma name_of_inj: "good_hint h \<Longrightarrow> good_hint k \<Longrightarrow> name_of h i = name_of k j \<longleftrightarrow> h = k \<and> i = j"
  by (auto simp: name_of_def good_hint_def)

lemma dotted_not_sret: "dotted h k \<noteq> ''sret''"
proof
  assume "dotted h k = ''sret''"
  then have "CHR ''.'' \<in> set ''sret''" by (metis dotted_def in_set_conv_decomp append_Cons)
  then show False by simp
qed

lemma name_not_param: "name_used b n \<Longrightarrow> \<not> param_name n"
  unfolding name_used_def param_name_def name_of_def good_hint_def by (auto simp: dotted_not_sret split: if_splits)

lemma takeWhile_until_last:
  "xs \<noteq> [] \<Longrightarrow> P (last xs) \<Longrightarrow> list_all (\<lambda>x. \<not> P x) (butlast xs) \<Longrightarrow>
    takeWhile (\<lambda>x. \<not> P x) xs = butlast xs \<and> dropWhile (\<lambda>x. \<not> P x) xs = [last xs]"
  by (induction xs) auto

text \<open>An instruction goes to the end of its block, or before its terminator.\<close>

lemma block_append_cases:
  assumes "block_append i b = Inr c" "block_ok P b"
  shows "block_label c = block_label b \<and>
    (\<exists>xs ys. instructions b = xs @ ys \<and> instructions c = xs @ i # ys \<and> list_all (\<lambda>i. \<not> is_terminator i) xs \<and>
       (ys = [] \<or> \<not> is_terminator i \<and> length ys = 1))"
proof (cases "instructions b \<noteq> [] \<and> is_terminator (last (instructions b))")
  case True
  have body: "list_all (\<lambda>i. \<not> is_terminator i) (butlast (instructions b))" using assms(2) by (simp add: block_ok_def)
  have c: "\<not> is_terminator i" "c = insert_before_terminator i b"
    using assms(1) True by (auto simp: block_append_def split: if_splits)
  have split: "takeWhile (\<lambda>i. \<not> is_terminator i) (instructions b) = butlast (instructions b)"
    "dropWhile (\<lambda>i. \<not> is_terminator i) (instructions b) = [last (instructions b)]"
    using takeWhile_until_last [of "instructions b" is_terminator] True body by auto
  have "instructions b = butlast (instructions b) @ [last (instructions b)]" using True by simp
  then show ?thesis using c body split unfolding insert_before_terminator_def
    by (intro conjI exI [of _ "butlast (instructions b)"] exI [of _ "[last (instructions b)]"]) simp_all
next
  case False
  have c: "c = b\<lparr>instructions := instructions b @ [i]\<rparr>" using assms(1) False by (auto simp: block_append_def)
  have "list_all (\<lambda>i. \<not> is_terminator i) (instructions b)"
    using assms(2) False by (cases "instructions b" rule: rev_cases) (auto simp: block_ok_def)
  then show ?thesis using c by (intro conjI exI [of _ "instructions b"] exI [of _ "[]"]) simp_all
qed

lemma block_append_ok:
  assumes "block_append i b = Inr c" "block_ok P b" "complete i" "targets i \<subseteq> P"
  shows "block_ok P c" "block_label c = block_label b"
    "mset (block_results c) = mset (result_name i) + mset (block_results b)"
proof -
  from block_append_cases [OF assms(1, 2)] obtain xs ys where l: "block_label c = block_label b"
    and b: "instructions b = xs @ ys" and c: "instructions c = xs @ i # ys"
    and xs: "list_all (\<lambda>i. \<not> is_terminator i) xs" and ys: "ys = [] \<or> \<not> is_terminator i \<and> length ys = 1" by blast
  show "block_label c = block_label b" by (rule l)
  have "list_all (\<lambda>i. \<not> is_terminator i) (butlast (instructions c))"
    using xs ys by (auto simp: c butlast_append length_Suc_conv)
  then show "block_ok P c" using assms(2, 3, 4) by (simp add: block_ok_def b c)
  show "mset (block_results c) = mset (result_name i) + mset (block_results b)"
    by (simp add: block_results_def b c)
qed

text \<open>A block belongs to one function.\<close>

lemma concat_disjoint:
  "distinct (concat xss) \<Longrightarrow> i < length xss \<Longrightarrow> j < length xss \<Longrightarrow> p \<in> set (xss ! i) \<Longrightarrow> p \<in> set (xss ! j) \<Longrightarrow> i = j"
proof (induction xss arbitrary: i j)
  case (Cons xs xss)
  have other: False if "p \<in> set xs" "q < length xss" "p \<in> set (xss ! q)" for q
    using Cons.prems(1) that by (auto dest: nth_mem)
  from Cons other show ?case by (cases i; cases j) auto
qed simp

lemma fn_blocks_unique: "module_ok m \<Longrightarrow> p \<in> fn_blocks m f \<Longrightarrow> p \<in> fn_blocks m g \<Longrightarrow> f = g"
  using concat_disjoint [of "map blocks (ir_functions m)" f g p]
  by (auto simp: module_ok_def fn_blocks_def split: if_splits)

lemma function_ok_at:
  "module_ok m \<Longrightarrow> f < length (ir_functions m) \<Longrightarrow> function_ok (block_store m) (ir_functions m ! f)"
  by (simp add: module_ok_def list_all_length)

lemma block_in_store: "module_ok m \<Longrightarrow> p \<in> fn_blocks m f \<Longrightarrow> p < length (block_store m)"
  using function_ok_at [of m f] by (auto simp: fn_blocks_def function_ok_def split: if_splits)

lemma result_name_distinct [simp]: "distinct (result_name i)"
  by (simp add: result_name_def split: option.split IRValue.split)

lemma mset_concat_update:
  "p < length bs \<Longrightarrow> mset (g c) = mset r + mset (g (bs ! p)) \<Longrightarrow>
    mset (concat (map g (bs[p := c]))) = mset (r @ concat (map g bs))"
proof (induction bs arbitrary: p)
  case (Cons b bs)
  then show ?case by (cases p) auto
qed simp

lemma module_append:
  assumes ok: "module_ok m" and p: "p \<in> fn_blocks m f" and run: "block_append i (block_store m ! p) = Inr c"
    and i: "complete i" "targets i \<subseteq> fn_blocks m f" and new: "set (result_name i) \<inter> set (result_names m) = {}"
  defines "n \<equiv> m\<lparr>block_store := (block_store m)[p := c]\<rparr>"
  shows "module_ok n \<and> set (result_names n) = set (result_name i) \<union> set (result_names m)"
proof -
  let ?bs = "block_store m"
  have len: "p < length ?bs" using block_in_store [OF ok p] .
  have f: "f < length (ir_functions m)" "p \<in> set (blocks (ir_functions m ! f))"
    using p by (auto simp: fn_blocks_def split: if_splits)
  have own: "fn_blocks m f = set (blocks (ir_functions m ! f))" using f by (simp add: fn_blocks_def)
  have b: "block_ok (fn_blocks m f) (?bs ! p)" using function_ok_at [OF ok f(1)] f by (auto simp: function_ok_def own)
  note c = block_append_ok [OF run b i]
  have names: "mset (result_names n) = mset (result_name i @ result_names m)"
    unfolding n_def result_names_def using mset_concat_update [OF len c(3)] by simp
  have labels: "block_label (?bs[p := c] ! q) = block_label (?bs ! q)" for q
    using c(2) len by (cases "q = p") auto
  have fns: "function_ok (?bs[p := c]) (ir_functions m ! g)" if g: "g < length (ir_functions m)" for g
  proof -
    have "block_ok (set (blocks (ir_functions m ! g))) (?bs[p := c] ! q)" if q: "q \<in> set (blocks (ir_functions m ! g))" for q
    proof (cases "q = p")
      case True
      then have "g = f" using fn_blocks_unique [OF ok, of p g f] q p g by (simp add: fn_blocks_def)
      then show ?thesis using c(1) len True by (simp add: own)
    next
      case False
      then show ?thesis using function_ok_at [OF ok g] q by (simp add: function_ok_def)
    qed
    then show ?thesis using function_ok_at [OF ok g] by (simp add: function_ok_def labels)
  qed
  have "distinct (result_names n)"
    using mset_eq_imp_distinct_iff [OF names] ok new by (simp add: module_ok_def)
  moreover have "list_all (function_ok (block_store n)) (ir_functions n)"
    using fns by (simp add: n_def list_all_length)
  ultimately have "module_ok n" using ok by (simp add: module_ok_def n_def)
  moreover have "set (result_names n) = set (result_name i) \<union> set (result_names m)"
    using mset_eq_setD [OF names] by simp
  ultimately show ?thesis by simp
qed

lemma grows_store [simp]: "grows m (m\<lparr>block_store := bs\<rparr>)"
  by (simp add: grows_def fn_blocks_def)

lemma point_ok_store [simp]:
  "ir_functions m = ir_functions (ir_module b) \<Longrightarrow> point_ok (b\<lparr>ir_module := m\<rparr>) = point_ok b"
  by (simp add: point_ok_def fn_blocks_def split: option.splits)

lemma name_used_module [simp]: "name_used (b\<lparr>ir_module := m\<rparr>) = name_used b"
  by (intro ext) (simp add: name_used_def counter_def)

text \<open>The blocks that a jump may name.\<close>

definition here :: "IRBuilder \<Rightarrow> block_ptr set" where
  "here b = (case current_function b of None \<Rightarrow> {} | Some f \<Rightarrow> fn_blocks (ir_module b) f)"

lemma insert_keeps:
  assumes ok: "builder_ok b" and run: "insert_instruction i b = Inr (u, c)"
    and i: "complete i" "targets i \<subseteq> here b"
    and new: "set (result_name i) \<inter> set (result_names (ir_module b)) = {}"
      "list_all (name_used b) (result_name i)"
  shows "builder_ok c \<and> builds b c"
proof -
  from run obtain p blk where p: "insertion_block b = Some p" and blk: "block_append i (block_store (ir_module b) ! p) = Inr blk"
    and c: "c = b\<lparr>ir_module := (ir_module b)\<lparr>block_store := (block_store (ir_module b))[p := blk]\<rparr>\<rparr>"
    by (auto simp: insert_instruction_def res_simps block_at_def Let_def split: option.splits if_splits)
  from ok p obtain f where f: "current_function b = Some f" "p \<in> fn_blocks (ir_module b) f"
    by (auto simp: builder_ok_def point_ok_def split: option.splits)
  have m: "module_ok (ir_module b)" using ok by (simp add: builder_ok_def)
  have t: "targets i \<subseteq> fn_blocks (ir_module b) f" using i(2) f(1) by (simp add: here_def)
  note n = module_append [OF m f(2) blk i(1) t new(1)]
  have "list_all (name_used b) (result_names (ir_module c))"
    using n ok new(2) by (auto simp: c builder_ok_def list_all_iff)
  then show ?thesis using n ok by (simp add: c builder_ok_def builds_def same_point_def)
qed

subsection \<open>New registers\<close>

lemma fresh_name:
  assumes "builder_ok b" "good_hint h"
  shows "name_of h (counter b h) \<notin> set (result_names (ir_module b))"
proof
  assume "name_of h (counter b h) \<in> set (result_names (ir_module b))"
  then have "name_used b (name_of h (counter b h))" using assms(1) by (auto simp: builder_ok_def list_all_iff)
  then show False using assms(2) by (auto simp: name_used_def name_of_inj)
qed

text \<open>The counters after a register with the hint \<open>h\<close> has been named.\<close>

definition count_up :: "string \<Rightarrow> IRBuilder \<Rightarrow> IRBuilder" where
  "count_up h b =
     (if h = [] then b\<lparr>next_reg_index := next_reg_index b + 1\<rparr>
      else b\<lparr>name_hint_counters := (name_hint_counters b)(h := name_hint_counters b h + 1)\<rparr>)"

lemma create_temp_eq: "create_temp t h b = Inr (RegisterValue (name_of h (counter b h)) t, count_up h b)"
  by (simp add: create_temp_def name_of_def counter_def count_up_def Let_def)

lemma count_up_simps [simp]:
  "ir_module (count_up h b) = ir_module b" "insertion_block (count_up h b) = insertion_block b"
  "current_function (count_up h b) = current_function b"
  by (simp_all add: count_up_def)

lemma count_up_here [simp]: "here (count_up h b) = here b" "builds b (count_up h b)" "point_ok (count_up h b) = point_ok b"
  by (simp_all add: here_def builds_def same_point_def point_ok_def split: option.split)

lemma count_up_counter: "counter b g \<le> counter (count_up h b) g" "counter b h < counter (count_up h b) h"
  by (simp_all add: counter_def count_up_def)

lemma count_up_used: "name_used b n \<Longrightarrow> name_used (count_up h b) n"
  unfolding name_used_def by (blast intro: order_less_le_trans [OF _ count_up_counter(1)])

lemma count_up_new: "good_hint h \<Longrightarrow> name_used (count_up h b) (name_of h (counter b h))"
  unfolding name_used_def using count_up_counter(2) by blast

lemma count_up_ok: "builder_ok b \<Longrightarrow> builder_ok (count_up h b)"
  by (auto simp: builder_ok_def list_all_iff count_up_used)

abbreviation keeps :: "(IRBuilder, 'a) act \<Rightarrow> bool" where
  "keeps \<equiv> building.holds (\<lambda>_. True)"

definition makes_value :: "(IRInstruction \<Rightarrow> IRInstruction) \<Rightarrow> Opcode \<Rightarrow> IRValue list \<Rightarrow> bool" where
  "makes_value f OP ops \<longleftrightarrow>
     (\<forall>r. complete (f (new_instruction OP ops (Some r))) \<and> targets (f (new_instruction OP ops (Some r))) = {} \<and>
        inst_result (f (new_instruction OP ops (Some r))) = Some r)"

lemma emit_keeps:
  assumes h: "good_hint h" and f: "makes_value f OP ops"
  shows "keeps (emit_new_value OP ops t h f)"
proof (rule building.holdsI)
  fix b x c assume ok: "builder_ok b" and run: "emit_new_value OP ops t h f b = Inr (x, c)"
  let ?n = "name_of h (counter b h)" and ?b = "count_up h b"
  let ?i = "f (new_instruction OP ops (Some (RegisterValue ?n t)))"
  have i: "complete ?i" "targets ?i = {}" "result_name ?i = [?n]"
    using f by (simp_all add: makes_value_def result_name_def)
  from run have "insert_instruction ?i ?b = Inr ((), c)"
    by (auto simp: emit_new_value_def res_simps create_temp_eq)
  from insert_keeps [OF count_up_ok [OF ok] this i(1)] have "builder_ok c \<and> builds ?b c"
    using i fresh_name [OF ok h] count_up_new [OF h, of b] by simp
  then show "builder_ok c \<and> builds b c \<and> True" using builds_trans [of b ?b c] by simp
qed

lemma insert_plain_keeps:
  "complete i \<Longrightarrow> targets i = {} \<Longrightarrow> inst_result i = None \<Longrightarrow> keeps (insert_instruction i)"
  by (rule building.holdsI, drule insert_keeps) (auto simp: result_name_def)

lemma insert_jump_keeps:
  "builder_ok b \<Longrightarrow> insert_instruction i b = Inr (u, c) \<Longrightarrow> complete i \<Longrightarrow> targets i \<subseteq> here b \<Longrightarrow> inst_result i = None \<Longrightarrow>
    builder_ok c \<and> builds b c"
  by (drule insert_keeps) (auto simp: result_name_def)

named_theorems keep_intros \<open>operations that keep the module well formed\<close>

lemma good_hints [simp]:
  "good_hint []" "good_hint (n @ ''.slot'')" "good_hint (''call.'' @ n)" "good_hint (''cast.'' @ n)"
  by (auto simp: good_hint_def append_eq_Cons_conv)

lemma arith_keeps [keep_intros]:
  assumes "good_hint h"
  shows "keeps (create_add l r h)" "keeps (create_sub l r h)" "keeps (create_mul l r h)" "keeps (create_sdiv l r h)"
    "keeps (create_udiv l r h)" "keeps (create_srem l r h)" "keeps (create_urem l r h)" "keeps (create_and l r h)"
    "keeps (create_or l r h)" "keeps (create_xor l r h)" "keeps (create_shl l r h)" "keeps (create_lshr l r h)"
    "keeps (create_ashr l r h)"
  unfolding create_add_def create_sub_def create_mul_def create_sdiv_def create_udiv_def create_srem_def create_urem_def
    create_and_def create_or_def create_xor_def create_shl_def create_lshr_def create_ashr_def create_simple_arith_def
  by (rule emit_keeps [OF assms], simp add: makes_value_def complete_def targets_def new_instruction_def)+

lemma compare_keeps [keep_intros]:
  assumes "good_hint h"
  shows "keeps (create_icmp_eq l r h)" "keeps (create_icmp_ne l r h)" "keeps (create_icmp_slt l r h)"
    "keeps (create_icmp_sle l r h)" "keeps (create_icmp_sgt l r h)" "keeps (create_icmp_sge l r h)"
    "keeps (create_icmp_ult l r h)" "keeps (create_icmp_ule l r h)" "keeps (create_icmp_ugt l r h)"
    "keeps (create_icmp_uge l r h)"
  unfolding create_icmp_eq_def create_icmp_ne_def create_icmp_slt_def create_icmp_sle_def create_icmp_sgt_def
    create_icmp_sge_def create_icmp_ult_def create_icmp_ule_def create_icmp_ugt_def create_icmp_uge_def create_compare_def
  by (rule emit_keeps [OF assms], simp add: makes_value_def complete_def targets_def new_instruction_def)+

lemma cast_keeps [keep_intros]:
  assumes "good_hint h"
  shows "keeps (create_zext v t h)" "keeps (create_sext v t h)" "keeps (create_trunc v t h)"
  unfolding create_zext_def create_sext_def create_trunc_def create_cast_def
  by (rule emit_keeps [OF assms], simp add: makes_value_def complete_def targets_def new_instruction_def)+

lemma not_keeps [keep_intros]: "good_hint h \<Longrightarrow> keeps (create_not v h)"
  unfolding create_not_def create_simple_arith_def
  by (intro building.holds_rules emit_keeps) (simp_all add: makes_value_def complete_def targets_def new_instruction_def)

lemma alloca_keeps [keep_intros]: "good_hint h \<Longrightarrow> keeps (create_alloca t h)"
  unfolding create_alloca_def
  by (rule emit_keeps) (simp_all add: makes_value_def complete_def targets_def new_instruction_def)

lemma load_keeps [keep_intros]: "good_hint h \<Longrightarrow> keeps (create_load a h)"
  unfolding create_load_def
  by (cases "value_type a") (auto intro!: building.holds_throw emit_keeps
      simp: makes_value_def complete_def targets_def new_instruction_def)

lemma store_keeps [keep_intros]: "keeps (create_store v a)"
  unfolding create_store_def
  by (rule insert_plain_keeps) (simp_all add: complete_def targets_def new_instruction_def)

lemma ret_keeps [keep_intros]: "keeps (create_ret v)"
  unfolding create_ret_def
  by (rule insert_plain_keeps) (simp_all add: complete_def targets_def new_instruction_def)

lemma gep_keeps [keep_intros]: "good_hint h \<Longrightarrow> keeps (create_gep base t is h)"
  unfolding create_gep_def
  by (intro building.holds_rules emit_keeps) (simp_all add: makes_value_def complete_def targets_def new_instruction_def)

lemma call_keeps [keep_intros]: "good_hint h \<Longrightarrow> keeps (create_call callee args t h)"
  unfolding create_call_def Let_def
  by (intro building.holds_rules emit_keeps insert_plain_keeps)
    (simp_all add: makes_value_def complete_def targets_def new_instruction_def)

lemma jumps_complete [simp]:
  "complete ((new_instruction Op_Br [] None)\<lparr>branch_target := Some p\<rparr>)"
  "targets ((new_instruction Op_Br [] None)\<lparr>branch_target := Some p\<rparr>) = {p}"
  "complete ((new_instruction Op_CondBr [v] None)\<lparr>true_target := Some p, false_target := Some q\<rparr>)"
  "targets ((new_instruction Op_CondBr [v] None)\<lparr>true_target := Some p, false_target := Some q\<rparr>) = {p, q}"
  "inst_result (new_instruction OP ops r) = r"
  by (auto simp: complete_def targets_def new_instruction_def)

lemma br_keeps:
  "builder_ok b \<Longrightarrow> create_br p b = Inr (u, c) \<Longrightarrow> p \<in> here b \<Longrightarrow> builder_ok c \<and> builds b c"
  unfolding create_br_def by (erule insert_jump_keeps) auto

lemma cond_br_keeps:
  "builder_ok b \<Longrightarrow> create_cond_br v p q b = Inr (u, c) \<Longrightarrow> p \<in> here b \<Longrightarrow> q \<in> here b \<Longrightarrow> builder_ok c \<and> builds b c"
  unfolding create_cond_br_def by (erule insert_jump_keeps) auto

subsection \<open>Functions, blocks and globals\<close>

text \<open>A change of the module that adds no result.\<close>

definition quiet :: "IRModule \<Rightarrow> IRModule \<Rightarrow> bool" where
  "quiet m n \<longleftrightarrow> module_ok n \<and> grows m n \<and> result_names n = result_names m"

lemma point_ok_grows:
  "point_ok b \<Longrightarrow> grows (ir_module b) m \<Longrightarrow> point_ok (b\<lparr>ir_module := m\<rparr>)"
  by (auto simp: point_ok_def grows_def split: option.splits)

lemma quiet_builds:
  "builder_ok b \<Longrightarrow> quiet (ir_module b) m \<Longrightarrow> builder_ok (b\<lparr>ir_module := m\<rparr>) \<and> builds b (b\<lparr>ir_module := m\<rparr>)"
  by (simp add: builder_ok_def quiet_def builds_def same_point_def point_ok_grows)

lemma on_module_keeps:
  assumes "\<And>m x n. module_ok m \<Longrightarrow> a m = Inr (x, n) \<Longrightarrow> quiet m n"
  shows "keeps (on_module a)"
proof (rule building.holdsI)
  fix b x c assume ok: "builder_ok b" and run: "on_module a b = Inr (x, c)"
  from run obtain m where m: "a (ir_module b) = Inr (x, m)" and c: "c = b\<lparr>ir_module := m\<rparr>"
    by (auto simp: on_module_def res_simps)
  have "quiet (ir_module b) m" using assms [OF _ m] ok by (simp add: builder_ok_def)
  then show "builder_ok c \<and> builds b c \<and> True" using quiet_builds [OF ok] by (simp add: c)
qed

lemma quiet_refl: "module_ok m \<Longrightarrow> quiet m m"
  by (simp add: quiet_def)

text \<open>A function changed in place, with the same name and blocks.\<close>

lemma quiet_update:
  assumes ok: "module_ok m"
    and g: "f < length (ir_functions m) \<Longrightarrow> function_ok (block_store m) (g (ir_functions m ! f))"
      "function_name (g (ir_functions m ! f)) = function_name (ir_functions m ! f)"
      "blocks (g (ir_functions m ! f)) = blocks (ir_functions m ! f)"
  shows "quiet m (update_function f g m)"
proof (cases "f < length (ir_functions m)")
  case True
  have names: "map function_name ((ir_functions m)[f := g (ir_functions m ! f)]) = map function_name (ir_functions m)"
    and bs: "map blocks ((ir_functions m)[f := g (ir_functions m ! f)]) = map blocks (ir_functions m)"
    using g(2, 3) by (simp_all add: map_update list_update_same_conv True)
  have "function_ok (block_store m) ((ir_functions m)[f := g (ir_functions m ! f)] ! h)" if "h < length (ir_functions m)" for h
    using g(1) [OF True] function_ok_at [OF ok that] that by (cases "h = f") auto
  moreover have "fn_blocks (update_function f g m) h = fn_blocks m h" for h
    using g(3) by (cases "h = f") (simp_all add: fn_blocks_def update_function_def)
  ultimately show ?thesis using ok
    by (simp add: quiet_def module_ok_def update_function_def names bs list_all_length grows_def result_names_def)
next
  case False
  then have "update_function f g m = m" by (simp add: update_function_def list_update_beyond not_less)
  then show ?thesis using ok by (simp add: quiet_refl)
qed

lemma quiet_add_function:
  assumes ok: "module_ok m" and new: "function_name f \<notin> set (map function_name (ir_functions m))"
    and f: "function_ok (block_store m) f" "blocks f = []"
  shows "quiet m (m\<lparr>ir_functions := ir_functions m @ [f]\<rparr>)"
  using ok new f by (auto simp: quiet_def module_ok_def grows_def fn_blocks_def nth_append result_names_def)

lemma find_function_Some:
  "find_function name fs = Some f \<Longrightarrow> f < length fs \<and> function_name (fs ! f) = name"
  by (induction fs arbitrary: f) (auto split: if_splits)

lemma find_function_None: "find_function name fs = None \<longleftrightarrow> name \<notin> set (map function_name fs)"
  by (induction fs) auto

lemma new_ir_function_simps [simp]:
  "function_name (new_ir_function name t d) = name" "blocks (new_ir_function name t d) = []"
  "function_ok bs (new_ir_function name (FunctionType r ts) d)"
  by (simp_all add: function_ok_def new_ir_function_def)

lemma quiet_declare: "module_ok m \<Longrightarrow> quiet m (snd (declare_function name (FunctionType r ts) m))"
  unfolding declare_function_def
  by (auto simp: find_function_None quiet_refl split: option.split intro!: quiet_add_function)

lemma quiet_define:
  assumes "module_ok m" "define_function name (FunctionType r ts) m = (f, n)"
  shows "quiet m n \<and> f < length (ir_functions n)"
proof (cases "find_function name (ir_functions m)")
  case None
  then have n: "n = m\<lparr>ir_functions := ir_functions m @ [new_ir_function name (FunctionType r ts) False]\<rparr>"
    "f = length (ir_functions m)" using assms(2) by (simp_all add: define_function_def)
  have "quiet m n" unfolding n(1) using None by (intro quiet_add_function assms(1)) (simp_all add: find_function_None)
  then show ?thesis by (simp add: n)
next
  case (Some h)
  then have h: "h < length (ir_functions m)" using find_function_Some by blast
  have "quiet m (update_function h (\<lambda>f. f\<lparr>is_declaration := False\<rparr>) m)"
    using function_ok_at [OF assms(1) h] by (intro quiet_update [OF assms(1)]) (auto simp: function_ok_def label_used_def)
  then show ?thesis using Some assms(2) h by (auto simp: define_function_def update_function_def)
qed

lemma quiet_add_param: "module_ok m \<Longrightarrow> param_name name \<Longrightarrow> quiet m (add_param f name t m)"
  unfolding add_param_def using function_ok_at [of m f]
  by (intro quiet_update) (auto simp: function_ok_def label_used_def)

lemma quiet_set_type: "module_ok m \<Longrightarrow> quiet m (set_type_of f (FunctionType r ts) m)"
  unfolding set_type_of_def using function_ok_at [of m f]
  by (intro quiet_update) (auto simp: function_ok_def label_used_def)

lemma quiet_trans: "quiet m n \<Longrightarrow> quiet n k \<Longrightarrow> quiet m k"
  unfolding quiet_def by (auto intro: grows_trans)

lemma quiet_global: "module_ok m \<Longrightarrow> create_global name t init c l m = Inr (g, n) \<Longrightarrow> quiet m n"
  by (auto simp: create_global_def Let_def quiet_def module_ok_def grows_def fn_blocks_def result_names_def split: if_splits)

lemma block_ok_mono: "block_ok P b \<Longrightarrow> P \<subseteq> Q \<Longrightarrow> block_ok Q b"
  by (auto simp: block_ok_def list_all_iff)

lemma quiet_block:
  assumes ok: "module_ok m" and run: "function_create_block f l m = Inr (p, n)"
  shows "quiet m n \<and> p \<in> fn_blocks n f"
proof -
  let ?fs = "ir_functions m" and ?bs = "block_store m"
  let ?g = "(?fs ! f)\<lparr>blocks := blocks (?fs ! f) @ [length ?bs], block_name_counter := (block_name_counter (?fs ! f))(l := block_name_counter (?fs ! f) l + 1)\<rparr>"
  let ?b = "\<lparr>block_label = dotted l (block_name_counter (?fs ! f) l), instructions = []\<rparr>"
  from run have f: "f < length ?fs" and p: "p = length ?bs" and n: "n = m\<lparr>block_store := ?bs @ [?b], ir_functions := ?fs[f := ?g]\<rparr>"
    by (auto simp: function_create_block_def update_function_def Let_def split: if_splits)
  have old: "q < length ?bs" if "h < length ?fs" "q \<in> set (blocks (?fs ! h))" for h q
    using function_ok_at [OF ok that(1)] that(2) by (simp add: function_ok_def)
  have same: "map (\<lambda>p. block_label ((?bs @ [?b]) ! p)) (blocks (?fs ! h)) = map (\<lambda>p. block_label (?bs ! p)) (blocks (?fs ! h))"
    if "h < length ?fs" for h
    using old [OF that] by (simp add: nth_append)
  have other: "function_ok (?bs @ [?b]) (?fs ! h)" if h: "h < length ?fs" for h
    using function_ok_at [OF ok h] old [OF h] unfolding function_ok_def same [OF h] by (simp add: nth_append_left less_SucI)
  have label: "dotted l (block_name_counter (?fs ! f) l) \<noteq> block_label (?bs ! q)" if "q \<in> set (blocks (?fs ! f))" for q
    using function_ok_at [OF ok f] that by (auto simp: function_ok_def label_used_def)
  have used: "label_used ?g x" if x: "label_used (?fs ! f) x" for x
  proof -
    from x obtain h k where "x = dotted h k" "k < block_name_counter (?fs ! f) h" by (auto simp: label_used_def)
    then show ?thesis unfolding label_used_def by (intro exI [of _ h] exI [of _ k]) auto
  qed
  have used_new: "label_used ?g (dotted l (block_name_counter (?fs ! f) l))" by (auto simp: label_used_def)
  have new: "function_ok (?bs @ [?b]) ?g"
    unfolding function_ok_def
  proof (intro conjI ballI)
    show "\<exists>r ts. fn_type ?g = FunctionType r ts" "list_all (\<lambda>p. param_name (fst p)) (ir_params ?g)"
      using other [OF f] by (simp_all add: function_ok_def)
    have "distinct (map (\<lambda>p. block_label ((?bs @ [?b]) ! p)) (blocks (?fs ! f)))"
      using other [OF f] by (simp add: function_ok_def)
    then show "distinct (map (\<lambda>p. block_label ((?bs @ [?b]) ! p)) (blocks ?g))"
      using label unfolding same [OF f] by (auto simp: same [OF f])
    fix p assume "p \<in> set (blocks ?g)"
    then consider "p \<in> set (blocks (?fs ! f))" | "p = length ?bs" by auto
    then have "p < length (?bs @ [?b]) \<and> block_ok (set (blocks ?g)) ((?bs @ [?b]) ! p) \<and>
        label_used ?g (block_label ((?bs @ [?b]) ! p))"
    proof cases
      case 1
      then have "block_ok (set (blocks (?fs ! f))) ((?bs @ [?b]) ! p)" "label_used (?fs ! f) (block_label ((?bs @ [?b]) ! p))"
        using other [OF f] by (simp_all add: function_ok_def)
      then show ?thesis using old [OF f 1] used block_ok_mono [of "set (blocks (?fs ! f))" _ "set (blocks ?g)"] by auto
    next
      case 2
      then show ?thesis using used_new by (simp add: block_ok_def)
    qed
    then show "p < length (?bs @ [?b])" "block_ok (set (blocks ?g)) ((?bs @ [?b]) ! p)"
      "label_used ?g (block_label ((?bs @ [?b]) ! p))" by blast+
  qed
  have fns: "function_ok (?bs @ [?b]) (?fs[f := ?g] ! h)" if "h < length ?fs" for h
    using other [OF that] new that by (cases "h = f") auto
  have all: "mset (concat (map blocks (?fs[f := ?g]))) = mset ([length ?bs] @ concat (map blocks ?fs))"
    by (rule mset_concat_update [OF f]) simp
  have "length ?bs \<notin> set (concat (map blocks ?fs))" using old by (fastforce simp: in_set_conv_nth)
  then have "distinct (concat (map blocks (?fs[f := ?g])))"
    using ok mset_eq_imp_distinct_iff [OF all] by (simp add: module_ok_def)
  moreover have "map function_name (?fs[f := ?g]) = map function_name ?fs"
    by (simp add: map_update list_update_same_conv f)
  moreover have res: "result_names n = result_names m" by (simp add: n result_names_def block_results_def)
  ultimately have "module_ok n" using ok fns by (simp add: module_ok_def n list_all_length)
  moreover have "fn_blocks m h \<subseteq> fn_blocks n h" for h
    by (cases "h = f") (auto simp: fn_blocks_def n f)
  then have "grows m n" by (simp add: grows_def n)
  ultimately show ?thesis using f by (simp add: quiet_def res) (simp add: n p fn_blocks_def)
qed

lemma new_block_keeps:
  assumes "builder_ok b" "on_module (function_create_block f l) b = Inr (p, c)"
  shows "builder_ok c \<and> builds b c \<and> p \<in> fn_blocks (ir_module c) f"
proof -
  from assms(2) obtain m where m: "function_create_block f l (ir_module b) = Inr (p, m)" and c: "c = b\<lparr>ir_module := m\<rparr>"
    by (auto simp: on_module_def res_simps)
  have "quiet (ir_module b) m \<and> p \<in> fn_blocks m f" using quiet_block [OF _ m] assms(1) by (simp add: builder_ok_def)
  then show ?thesis using quiet_builds [OF assms(1)] by (simp add: c)
qed

lemma function_create_block_keeps [keep_intros]: "keeps (on_module (function_create_block f l))"
  using quiet_block by (intro on_module_keeps) blast

text \<open>A block made by the builder belongs to the function at the insertion point.\<close>

lemma create_block_keeps:
  assumes "builder_ok b" "create_block l b = Inr (p, c)"
  shows "builder_ok c \<and> builds b c \<and> p \<in> here c"
proof -
  from assms(2) obtain f where f: "current_function b = Some f" "on_module (function_create_block f l) b = Inr (p, c)"
    by (auto simp: create_block_def res_simps split: option.splits)
  from new_block_keeps [OF assms(1) f(2)] f(1) show ?thesis by (simp add: here_def builds_def same_point_def)
qed

lemma function_of_block_Some:
  "function_of_block p fs = Some f \<Longrightarrow> f < length fs \<and> p \<in> set (blocks (fs ! f))"
  by (induction fs arbitrary: f) (auto split: if_splits)

lemma builder_ok_point:
  "builder_ok b \<Longrightarrow> point_ok (b\<lparr>insertion_block := p, current_function := f\<rparr>) \<Longrightarrow>
    builder_ok (b\<lparr>insertion_block := p, current_function := f\<rparr>)"
  by (simp add: builder_ok_def list_all_iff name_used_def counter_def cong: if_cong)

lemma set_insertion_point_keeps:
  assumes "builder_ok b" "set_insertion_point p b = Inr (u, c)"
  shows "builder_ok c \<and> ir_module c = ir_module b \<and> insertion_block c = p"
proof (cases p)
  case None
  then have c: "c = b\<lparr>insertion_block := None, current_function := None\<rparr>"
    using assms(2) by (simp add: set_insertion_point_def)
  show ?thesis using builder_ok_point [OF assms(1), of None None] None unfolding c by (simp add: point_ok_def)
next
  case (Some q)
  then obtain f where f: "function_of_block q (ir_functions (ir_module b)) = Some f"
    and c: "c = b\<lparr>insertion_block := Some q, current_function := Some f\<rparr>"
    using assms(2) by (auto simp: set_insertion_point_def split: option.splits)
  show ?thesis using builder_ok_point [OF assms(1), of "Some f" "Some q"] function_of_block_Some [OF f] Some
    unfolding c by (simp add: point_ok_def fn_blocks_def)
qed

lemma same_module_grows: "ir_module c = ir_module b \<Longrightarrow> grows (ir_module b) (ir_module c)"
  by simp

lemma insertion_determines_function:
  assumes "builder_ok b" "builder_ok c" "grows (ir_module b) (ir_module c)" "insertion_block c = insertion_block b"
  shows "current_function c = current_function b"
proof (cases "insertion_block b")
  case (Some p)
  then obtain f g where f: "current_function b = Some f" "p \<in> fn_blocks (ir_module b) f"
    and g: "current_function c = Some g" "p \<in> fn_blocks (ir_module c) g"
    using assms by (auto simp: builder_ok_def point_ok_def split: option.splits)
  have "p \<in> fn_blocks (ir_module c) f" using f(2) assms(3) by (auto simp: grows_def)
  then show ?thesis using f(1) g fn_blocks_unique assms(2) by (auto simp: builder_ok_def)
qed (use assms in \<open>auto simp: builder_ok_def point_ok_def\<close>)

text \<open>The insertion point is changed and put back.\<close>

lemma around_keeps:
  assumes ok: "builder_ok b" and away: "set_insertion_point p b = Inr (u, c)" and m: "keeps m" "m c = Inr (x, d)"
    and home: "set_insertion_point (insertion_block b) d = Inr (v, e)"
  shows "builder_ok e \<and> builds b e"
proof -
  have c: "builder_ok c" "ir_module c = ir_module b" using set_insertion_point_keeps [OF ok away] by auto
  have d: "builder_ok d" "builds c d" using building.holdsD [OF m(1) c(1) _ m(2)] by auto
  have e: "builder_ok e" "ir_module e = ir_module d" "insertion_block e = insertion_block b"
    using set_insertion_point_keeps [OF d(1) home] by auto
  have g: "grows (ir_module b) (ir_module e)" using c(2) d(2) e(2) by (simp add: builds_def)
  show ?thesis using e g insertion_determines_function [OF ok e(1) g e(3)] by (simp add: builds_def same_point_def)
qed

lemma temp_alloca_keeps [keep_intros]:
  assumes h: "good_hint h"
  shows "keeps (create_temp_alloca t h)"
proof (rule building.holdsI)
  fix b x e assume ok: "builder_ok b" and run: "create_temp_alloca t h b = Inr (x, e)"
  from run obtain f where "current_function b = Some f" and run: "bind_act (get_act (\<lambda>b. blocks (ir_functions (ir_module b) ! f))) (\<lambda>bs.
       bind_act (case bs of [] \<Rightarrow> on_module (function_create_block f ''entry'') | p # _ \<Rightarrow> ret_act p) (\<lambda>entry.
       bind_act (get_act insertion_block) (\<lambda>saved_block.
       then_act (set_insertion_point (Some entry))
         (bind_act (create_alloca t h) (\<lambda>slot. then_act (set_insertion_point saved_block) (ret_act slot)))))) b = Inr (x, e)"
    by (auto simp: create_temp_alloca_def res_simps split: option.splits)
  then obtain p c u1 c1 y d where start: "(case blocks (ir_functions (ir_module b) ! f) of [] \<Rightarrow> on_module (function_create_block f ''entry'')
      | p # _ \<Rightarrow> ret_act p) b = Inr (p, c)"
    and away: "set_insertion_point (Some p) c = Inr (u1, c1)" and slot: "create_alloca t h c1 = Inr (y, d)"
    and home: "set_insertion_point (insertion_block c) d = Inr ((), e)"
    by (auto simp: res_simps)
  from start have c: "builder_ok c \<and> builds b c"
    using ok building.holdsD [OF function_create_block_keeps ok] by (auto simp: res_simps split: list.splits)
  have "builder_ok e \<and> builds c e" using around_keeps [OF _ away alloca_keeps [OF h] slot home] c by blast
  then show "builder_ok e \<and> builds b e \<and> True" using c builds_trans by blast
qed

lemma string_literal_keeps [keep_intros]: "keeps (create_string_literal s)"
proof -
  have "quiet m n" if "module_ok m" "create_global name t init c l (m\<lparr>string_literal_counter := k\<rparr>) = Inr (g, n)" for m n k g name t init c l
  proof -
    have "quiet m (m\<lparr>string_literal_counter := k\<rparr>)"
      using that(1) by (simp add: quiet_def module_ok_def grows_def fn_blocks_def result_names_def)
    then show ?thesis using quiet_global [OF _ that(2)] quiet_trans by (auto simp: quiet_def)
  qed
  then show ?thesis unfolding create_string_literal_def by (intro on_module_keeps) blast
qed

lemma declare_keeps: "keeps (declare_in_module name ts)"
  unfolding declare_in_module_def
proof (rule building.holdsI, goal_cases)
  case (1 b x c)
  then have "quiet (ir_module b) (snd (declare_function name (FunctionType VoidType ts) (ir_module b)))"
    by (auto simp: builder_ok_def intro: quiet_declare)
  from quiet_builds [OF 1(1) this] 1(3) show ?case by (simp add: res_simps)
qed

lemma point_ok_flags [simp]:
  "point_ok (b\<lparr>memcpy_declared := x\<rparr>) = point_ok b" "point_ok (b\<lparr>memset_declared := x\<rparr>) = point_ok b"
  by (simp_all add: point_ok_def split: option.split)

lemma flags_keep [simp]:
  "builder_ok (b\<lparr>memcpy_declared := x\<rparr>) = builder_ok b" "builder_ok (b\<lparr>memset_declared := x\<rparr>) = builder_ok b"
  "builds b (b\<lparr>memcpy_declared := x\<rparr>)" "builds b (b\<lparr>memset_declared := x\<rparr>)"
  by (simp_all add: builder_ok_def name_used_def counter_def builds_def same_point_def list_all_iff cong: if_cong)

lemma memory_keeps [keep_intros]: "keeps (create_memcpy d s n v)" "keeps (create_memset d x n v)"
  unfolding create_memcpy_def create_memset_def ensure_memcpy_declared_def ensure_memset_declared_def
  by (intro building.holds_rules call_keeps declare_keeps good_hints; (rule building.holdsI; auto simp: res_simps))+

subsection \<open>A well-formed module has a text\<close>

lemma operands_2: "2 \<le> length xs \<Longrightarrow> \<exists>a b ys. xs = a # b # ys"
  by (cases xs; cases "tl xs") auto

lemma target_label_Some: "labels p \<noteq> None \<Longrightarrow> target_label labels (Some p) = Inr (the (labels p))"
  by (auto simp: target_label_def)

lemma instruction_prints:
  assumes "complete i" "\<And>p. p \<in> targets i \<Longrightarrow> labels p \<noteq> None"
  shows "\<exists>s. instruction_string labels i = Inr s"
  using assms operands_2 [of "operands i"]
  by (cases "inst_opcode i"; cases "operands i")
    (auto simp: complete_def targets_def instruction_string_def emit_binary_def emit_cast_def operand_def target_label_Some)

lemma mapr_total: "(\<And>x. x \<in> set xs \<Longrightarrow> \<exists>y. f x = Inr y) \<Longrightarrow> \<exists>ys. mapr f xs = Inr ys"
proof (induction xs)
  case (Cons x xs)
  then obtain y ys where "f x = Inr y" "mapr f xs = Inr ys" by (meson list.set_intros)
  then show ?case by simp
qed simp

lemma block_prints:
  assumes "block_ok P b" "\<And>p. p \<in> P \<Longrightarrow> labels p \<noteq> None"
  shows "\<exists>s. block_string labels b = Inr s"
proof -
  have "\<exists>ss. mapr (instruction_string labels) (instructions b) = Inr ss"
    using assms by (intro mapr_total instruction_prints) (auto simp: block_ok_def list_all_iff)
  then show ?thesis by (auto simp: block_string_def)
qed

lemma function_prints:
  assumes "function_ok bs f"
  shows "\<exists>s. function_string bs f = Inr s"
proof -
  have "\<exists>ss. mapr (\<lambda>b. bindr (block_at bs b) (block_string (label_at bs))) (blocks f) = Inr ss"
  proof (rule mapr_total)
    fix p assume "p \<in> set (blocks f)"
    then have p: "p < length bs" "block_ok (set (blocks f)) (bs ! p)" using assms by (simp_all add: function_ok_def)
    have "label_at bs q \<noteq> None" if "q \<in> set (blocks f)" for q
      using assms that by (simp add: function_ok_def label_at_def)
    from block_prints [OF p(2) this] p(1) show "\<exists>s. bindr (block_at bs p) (block_string (label_at bs)) = Inr s"
      by (simp add: block_at_def)
  qed
  moreover obtain sig where "signature_string f = Inr sig"
    using assms by (auto simp: function_ok_def signature_string_def)
  ultimately show ?thesis by (auto simp: function_string_def)
qed

lemma module_prints: "module_ok m \<Longrightarrow> \<exists>s. module_string m = Inr s"
proof -
  assume "module_ok m"
  then have "\<exists>ss. mapr (function_string (block_store m)) (filter P (ir_functions m)) = Inr ss" for P
    by (intro mapr_total function_prints) (auto simp: module_ok_def list_all_iff)
  then obtain ds fs where "mapr (function_string (block_store m)) (filter is_declaration (ir_functions m)) = Inr ds"
    "mapr (function_string (block_store m)) (filter (\<lambda>f. \<not> is_declaration f) (ir_functions m)) = Inr fs" by meson
  then show ?thesis by (simp add: module_string_def)
qed

end
