(* ===== verification/LoweringProps.thy ===== *)
theory LoweringProps
  imports GlobalLowering IRWellFormed
begin

section \<open>Lowering keeps the module well formed\<close>

text \<open>
  The lowering of types and of the global declarations works on the module through the steps of
  the builder, or adds type definitions, functions without blocks and globals.
\<close>

subsection \<open>Types\<close>

interpretation lowering: stepping "\<lambda>s. module_ok (snd s)" "\<lambda>s t. quiet (snd s) (snd t)"
  by unfold_locales (auto intro: quiet_refl quiet_trans)

abbreviation lowers :: "'a lowering \<Rightarrow> bool" where
  "lowers \<equiv> lowering.holds (\<lambda>_. True)"

lemma type_definition_quiet: "module_ok m \<Longrightarrow> quiet m (add_type_definition name ss (set_fields n ts m))"
  by (simp add: quiet_def add_type_definition_def set_fields_def module_ok_def grows_def fn_blocks_def result_names_def)

lemma declare_struct_stub_lowers: "lowers (declare_struct_stub sd)"
  unfolding declare_struct_stub_def
  by (intro lowering.holds_rules; rule lowering.holdsI) (auto simp: res_simps quiet_refl split: if_splits)

lemma define_struct_fields_lowers: "lowers (define_struct_fields c sd)"
  unfolding define_struct_fields_def Let_def
  by (intro lowering.holds_rules; rule lowering.holdsI)
    (auto simp: res_simps intro: type_definition_quiet dest: type_definition_quiet [unfolded quiet_def])

lemma declare_builtin_lowers: "lowers (declare_builtin name ts)"
  unfolding declare_builtin_def
  by (rule lowering.holdsI)
    (auto simp: res_simps quiet_refl split: if_splits intro: type_definition_quiet dest: type_definition_quiet [unfolded quiet_def])

lemma declare_builtin_string_types_lowers: "lowers declare_builtin_string_types"
  unfolding declare_builtin_string_types_def by (intro lowering.holds_rules declare_builtin_lowers)

lemma size_in_bytes_lowers: "lowers (size_in_bytes c t)"
  unfolding size_in_bytes_def
  by (rule lowering.holdsI) (auto simp: res_simps intro: quiet_refl)

lemma lower_function_type: "lower_function c lw d = Inr t \<Longrightarrow> \<exists>r ts. t = FunctionType r ts"
  by (auto simp: lower_function_def lower_function_with_def res_simps)

subsection \<open>Global declarations\<close>

definition back_ok :: "backend \<Rightarrow> bool" where
  "back_ok w \<longleftrightarrow> builder_ok (ir_builder w)"

definition back_step :: "backend \<Rightarrow> backend \<Rightarrow> bool" where
  "back_step w v \<longleftrightarrow> builds (ir_builder w) (ir_builder v)"

interpretation backing: stepping back_ok back_step
  by unfold_locales (auto simp: back_ok_def back_step_def intro: builds_trans)

abbreviation back_keeps :: "(backend, 'a) act \<Rightarrow> bool" where
  "back_keeps \<equiv> backing.holds (\<lambda>_. True)"

named_theorems back_intros \<open>actions of the back end that keep the module well formed\<close>

lemma in_builder_keeps [back_intros]: "keeps m \<Longrightarrow> back_keeps (in_builder m)"
  by (rule backing.holdsI) (auto simp: in_builder_def res_simps back_ok_def back_step_def dest: building.holdsD)

lemma in_module_keeps:
  "(\<And>m x n. module_ok m \<Longrightarrow> a m = Inr (x, n) \<Longrightarrow> quiet m n) \<Longrightarrow> back_keeps (in_module a)"
  unfolding in_module_def by (rule in_builder_keeps, rule on_module_keeps)

lemma in_lowering_keeps [back_intros]:
  assumes "\<And>c. lowers (m c)"
  shows "back_keeps (in_lowering m)"
proof (rule backing.holdsI)
  fix w x v assume ok: "back_ok w" and run: "in_lowering m w = Inr (x, v)"
  from run obtain lw im where m: "m (sema w) (type_lowering w, ir_module (ir_builder w)) = Inr (x, (lw, im))"
    and v: "v = w\<lparr>type_lowering := lw, ir_builder := (ir_builder w)\<lparr>ir_module := im\<rparr>\<rparr>"
    by (auto simp: in_lowering_def res_simps)
  have b: "builder_ok (ir_builder w)" using ok by (simp add: back_ok_def)
  have "quiet (ir_module (ir_builder w)) im"
    using lowering.holdsD [OF assms _ _ m] b by (simp add: builder_ok_def)
  from quiet_builds [OF b this] show "back_ok v \<and> back_step w v \<and> True" by (simp add: v back_ok_def back_step_def)
qed

lemma sem_act_keeps [back_intros]: "back_keeps (sem_act f)"
  by (rule backing.holdsI) (auto simp: sem_act_def res_simps back_step_def)

lemma lower_act_keeps [back_intros]: "back_keeps (lower_act f)"
  by (rule backing.holdsI) (auto simp: lower_act_def res_simps back_step_def)

lemma change_sema_keeps [back_intros]: "back_keeps (change_sema f)"
  unfolding change_sema_def by (rule backing.holdsI) (auto simp: res_simps back_ok_def back_step_def)

lemma create_global_keeps [back_intros]: "back_keeps (in_module (create_global name t init c l))"
  by (rule in_module_keeps) (rule quiet_global)

lemma emit_const_keeps [back_intros]: "back_keeps (emit_const d suffix)"
  unfolding emit_const_def emit_array_const_def Let_def
  by (intro conjI allI impI backing.holds_rules back_intros | split RealType.split IRType.split)+

lemma quiet_add_params: "module_ok m \<Longrightarrow> quiet m (add_params f ts m)"
proof -
  have "quiet m (fold (\<lambda>(i, t). add_param f (dotted ''arg'' i) t) ps m)" if "module_ok m" for ps m
    using that
  proof (induction ps arbitrary: m)
    case (Cons p ps)
    obtain i t where p: "p = (i, t)" by force
    have "quiet m (add_param f (dotted ''arg'' i) t m)" by (rule quiet_add_param) (auto simp: Cons.prems param_name_def)
    moreover from this have "quiet (add_param f (dotted ''arg'' i) t m)
        (fold (\<lambda>(i, t). add_param f (dotted ''arg'' i) t) ps (add_param f (dotted ''arg'' i) t m))"
      by (intro Cons.IH) (simp add: quiet_def)
    ultimately show ?case by (auto simp: p intro: quiet_trans)
  qed (simp add: quiet_refl)
  then show "module_ok m \<Longrightarrow> quiet m (add_params f ts m)" by (simp add: add_params_def quiet_refl)
qed

lemma bind_lower_function_keeps:
  "(\<And>r ts. back_keeps (k (FunctionType r ts))) \<Longrightarrow> back_keeps (bind_act (lower_act (\<lambda>c lw. lower_function c lw d)) k)"
  unfolding backing.holds_def
  by (rule backing.acts_bind [where mid = "\<lambda>t w. (\<exists>r ts. t = FunctionType r ts)"])
    (auto simp: backing.acts_def lower_act_def res_simps back_step_def dest: lower_function_type)

lemma declare_or_define_quiet:
  "module_ok m \<Longrightarrow> (if b then define_function name (FunctionType r ts) m else declare_function name (FunctionType r ts) m) = (f, n) \<Longrightarrow>
    quiet m n"
  using quiet_define [of m name r ts] quiet_declare [of m name r ts] by (auto split: if_splits)

lemma emit_function_decl_keeps [back_intros]: "back_keeps (emit_function_decl d suffix b)"
  unfolding emit_function_decl_def Let_def
  by (intro backing.holds_bind backing.holds_then bind_lower_function_keeps back_intros in_module_keeps)
    (auto simp: res_simps quiet_add_params elim: declare_or_define_quiet)

subsection \<open>The tree of scopes\<close>

lemma with_struct_keeps: "(\<And>sd. back_keeps (f sd)) \<Longrightarrow> back_keeps (with_struct a f)"
  unfolding with_struct_def by (intro backing.holds_rules back_intros)

lemma emit_structs_keeps [back_intros]: "back_keeps (emit_structs ds)"
  unfolding emit_structs_def
  by (intro backing.holds_rules backing.holds_seq)
    (auto intro!: with_struct_keeps backing.holds_rules in_lowering_keeps declare_struct_stub_lowers define_struct_fields_lowers
      size_in_bytes_lowers)

lemma emit_value_decl_keeps [back_intros]: "back_keeps (emit_value_decl suffix entry)"
  unfolding emit_value_decl_def
  by (cases "snd entry") (auto intro!: backing.holds_rules back_intros)

lemma visit_scope_keeps: "back_keeps (visit_scope n suffixes a)"
  by (induction n suffixes a rule: visit_scope.induct) (auto intro!: backing.holds_rules backing.holds_seq back_intros)

lemma emit_scope_tree_keeps: "back_keeps emit_scope_tree"
  unfolding emit_scope_tree_def by (intro backing.holds_rules visit_scope_keeps)

end
