(* ===== verification/IRGenProps.thy ===== *)
theory IRGenProps
  imports IRGen LoweringProps
begin

section \<open>The generator keeps the module well formed\<close>

text \<open>
  While the body of a function is visited the insertion point and all blocks that the context
  names belong to that function, so that every jump stays in it. The rules below follow the text
  of the visitor: \<open>visits P m\<close> states that \<open>m\<close> may be run where the blocks in \<open>P\<close> belong to the
  current function.
\<close>

subsection \<open>The invariant\<close>

definition gbuilder :: "irgen \<Rightarrow> IRBuilder" where
  "gbuilder s = ir_builder (world s)"

definition gmodule :: "irgen \<Rightarrow> IRModule" where
  "gmodule s = ir_module (gbuilder s)"

definition owner :: "irgen \<Rightarrow> function_ptr option" where
  "owner s = map_option ir_function (fn_ctx s)"

text \<open>The blocks of the function that is being generated.\<close>

definition own :: "irgen \<Rightarrow> block_ptr set" where
  "own s = (case owner s of None \<Rightarrow> {} | Some f \<Rightarrow> fn_blocks (gmodule s) f)"

definition loop_blocks :: "LoopContext \<Rightarrow> block_ptr set" where
  "loop_blocks l = {header_block l, body_block l, continue_target l, break_target l}"

definition ctx_blocks :: "FunctionContext \<Rightarrow> block_ptr set" where
  "ctx_blocks c = {entry_block c, return_block c} \<union> set_option (current_block c) \<union> \<Union>(loop_blocks ` set (loop_stack c))"

definition known :: "irgen \<Rightarrow> block_ptr set" where
  "known s = set_option (insertion_block (gbuilder s)) \<union> (case fn_ctx s of None \<Rightarrow> {} | Some c \<Rightarrow> ctx_blocks c)"

definition gen_ok :: "irgen \<Rightarrow> bool" where
  "gen_ok s \<longleftrightarrow> builder_ok (gbuilder s) \<and> known s \<subseteq> own s"

definition gen_step :: "irgen \<Rightarrow> irgen \<Rightarrow> bool" where
  "gen_step s t \<longleftrightarrow> grows (gmodule s) (gmodule t) \<and> owner t = owner s"

lemma own_grows: "gen_step s t \<Longrightarrow> own s \<subseteq> own t"
  by (auto simp: gen_step_def own_def grows_def split: option.split)

interpretation generating: stepping gen_ok gen_step
  by unfold_locales (auto simp: gen_step_def intro: grows_trans)

definition knows :: "block_ptr set \<Rightarrow> irgen \<Rightarrow> bool" where
  "knows P s \<longleftrightarrow> P \<subseteq> own s"

abbreviation visits :: "block_ptr set \<Rightarrow> 'a gen \<Rightarrow> bool" where
  "visits P \<equiv> generating.holds (knows P)"

lemma knows_step: "gen_step s t \<Longrightarrow> knows P s \<Longrightarrow> knows P t"
  using own_grows unfolding knows_def by blast

lemma visits_frame: "(\<And>s x t. gen_ok s \<Longrightarrow> m s = Inr (x, t) \<Longrightarrow> gen_ok t \<and> gen_step s t) \<Longrightarrow> visits P m"
  by (rule generating.holdsI) (auto intro: knows_step)

lemma visits_bind_more:
  assumes "generating.acts (knows P) m (\<lambda>x. knows (F x \<union> P))" and "\<And>x. visits (F x \<union> P) (k x)"
  shows "visits P (bind_act m k)"
  unfolding generating.holds_def
proof (rule generating.acts_bind [OF assms(1)])
  show "generating.acts (knows (F x \<union> P)) (k x) (\<lambda>_. knows P)" for x
    using assms(2) [of x] unfolding generating.holds_def by (rule generating.acts_weaken) (auto simp: knows_def)
qed

named_theorems visit_intros \<open>actions of the generator that keep the module well formed\<close>

subsection \<open>The parts of the state\<close>

lemma in_back_visits [visit_intros]:
  assumes m: "back_keeps m"
  shows "visits P (in_back m)"
proof (rule visits_frame)
  fix s x t assume ok: "gen_ok s" and run: "in_back m s = Inr (x, t)"
  from run obtain w where w: "m (world s) = Inr (x, w)" and t: "t = s\<lparr>world := w\<rparr>"
    by (auto simp: in_back_def res_simps)
  have b: "builder_ok (ir_builder w)" "builds (gbuilder s) (ir_builder w)"
    using backing.holdsD [OF m _ _ w] ok by (simp_all add: gen_ok_def gbuilder_def back_ok_def back_step_def)
  have step: "gen_step s t" using b by (simp add: gen_step_def t gmodule_def gbuilder_def owner_def builds_def)
  have "known t = known s" using b by (simp add: known_def t gbuilder_def builds_def same_point_def cong: option.case_cong)
  then have "gen_ok t" using ok b own_grows [OF step] by (auto simp: gen_ok_def t gbuilder_def)
  then show "gen_ok t \<and> gen_step s t" using step by simp
qed

lemma build_visits [visit_intros]: "keeps m \<Longrightarrow> visits P (build m)"
  unfolding build_def by (intro in_back_visits in_builder_keeps)

lemma get_sema_visits [visit_intros]: "visits P (get_sema f)"
  unfolding get_sema_def by (rule generating.holds_get)

lemma sema_res_visits [visit_intros]: "visits P (sema_res f)"
  unfolding sema_res_def by (intro in_back_visits sem_act_keeps)

lemma lower_type_visits [visit_intros]: "visits P (lower_type t)" "visits P (lower_ptr o_t)"
  unfolding lower_ptr_def lower_type_def
  by (intro in_back_visits lower_act_keeps generating.holds_rules)+

lemma size_in_bytes_visits [visit_intros]: "visits P (in_back (in_lowering (\<lambda>c. size_in_bytes c t)))"
  by (intro in_back_visits in_lowering_keeps size_in_bytes_lowers)

lemma set_value_visits [visit_intros]: "visits P (set_value k v)" "visits P (set_address k a)"
  unfolding set_value_def set_address_def
  by (rule visits_frame; simp add: res_simps gen_ok_def gen_step_def gbuilder_def gmodule_def known_def own_def owner_def
      cong: option.case_cong)+

lemma set_ctx_visits:
  assumes f: "\<And>c. ir_function (f c) = ir_function c \<and> ctx_blocks (f c) \<subseteq> P \<union> ctx_blocks c"
  shows "visits P (set_ctx f)"
proof (rule generating.holdsI)
  fix s x t assume ok: "gen_ok s" "knows P s" and run: "set_ctx f s = Inr (x, t)"
  have t: "t = s\<lparr>fn_ctx := map_option f (fn_ctx s)\<rparr>" using run by (simp add: set_ctx_def res_simps)
  have own: "owner t = owner s" "own t = own s" using f by (cases "fn_ctx s"; simp add: t owner_def own_def gmodule_def gbuilder_def)+
  have "known t \<subseteq> P \<union> known s" using f by (cases "fn_ctx s") (auto simp: t known_def gbuilder_def)
  then show "gen_ok t \<and> gen_step s t \<and> knows P t"
    using ok own by (auto simp: gen_ok_def gen_step_def knows_def t gmodule_def gbuilder_def)
qed

lemma bind_current_fn_visits:
  "(\<And>c. visits (ctx_blocks c \<union> P) (k c)) \<Longrightarrow> visits P (bind_act current_fn k)"
  by (erule visits_bind_more [rotated])
    (auto simp: generating.acts_def current_fn_def res_simps gen_ok_def known_def knows_def gen_step_def split: option.splits)

lemma bind_insertion_point_visits:
  "(\<And>p. visits (set_option p \<union> P) (k p)) \<Longrightarrow> visits P (bind_act insertion_point k)"
  by (erule visits_bind_more [rotated])
    (auto simp: generating.acts_def insertion_point_def build_def in_back_def in_builder_def res_simps gen_ok_def known_def
      knows_def gen_step_def gbuilder_def)

lemma bind_current_loop_visits:
  "(\<And>l. visits ((case l of None \<Rightarrow> {} | Some l \<Rightarrow> loop_blocks l) \<union> P) (k l)) \<Longrightarrow> visits P (bind_act current_loop k)"
  by (erule visits_bind_more [rotated])
    (auto simp: generating.acts_def current_loop_def res_simps gen_ok_def known_def ctx_blocks_def
      knows_def gen_step_def split: option.splits list.splits)

lemma bind_fn_ctx_visits:
  "(\<And>c. visits ((case c of None \<Rightarrow> {} | Some c \<Rightarrow> ctx_blocks c) \<union> P) (k c)) \<Longrightarrow> visits P (bind_act (get_act fn_ctx) k)"
  by (erule visits_bind_more [rotated])
    (auto simp: generating.acts_def res_simps gen_ok_def known_def knows_def gen_step_def split: option.splits)

subsection \<open>Jumps and blocks\<close>

lemma build_run: "build m s = Inr (x, t) \<Longrightarrow> \<exists>b. m (gbuilder s) = Inr (x, b) \<and> t = s\<lparr>world := (world s)\<lparr>ir_builder := b\<rparr>\<rparr>"
  by (auto simp: build_def in_back_def in_builder_def res_simps gbuilder_def)

text \<open>Where there is an insertion point, the builder is in the function of the context.\<close>

lemma here_own:
  assumes "gen_ok s" "insertion_block (gbuilder s) = Some p"
  shows "here (gbuilder s) = own s"
proof -
  from assms obtain f where f: "current_function (gbuilder s) = Some f" "p \<in> fn_blocks (gmodule s) f"
    by (auto simp: gen_ok_def builder_ok_def point_ok_def gmodule_def split: option.splits)
  have "p \<in> own s" using assms by (auto simp: gen_ok_def known_def)
  then obtain g where g: "owner s = Some g" "p \<in> fn_blocks (gmodule s) g" by (auto simp: own_def split: option.splits)
  have "f = g" using fn_blocks_unique f(2) g(2) assms(1) by (auto simp: gen_ok_def builder_ok_def gmodule_def)
  then show ?thesis using f(1) g(1) by (simp add: here_def own_def gmodule_def)
qed

lemma build_step:
  assumes ok: "gen_ok s" and t: "t = s\<lparr>world := (world s)\<lparr>ir_builder := b\<rparr>\<rparr>" and b: "builder_ok b" "builds (gbuilder s) b"
  shows "gen_ok t \<and> gen_step s t"
proof -
  have step: "gen_step s t" using b by (simp add: gen_step_def t gmodule_def gbuilder_def owner_def builds_def)
  have "known t = known s" using b by (simp add: known_def t gbuilder_def builds_def same_point_def cong: option.case_cong)
  then have "gen_ok t" using ok b own_grows [OF step] by (auto simp: gen_ok_def t gbuilder_def)
  then show ?thesis using step by simp
qed

lemma insert_here_own: "gen_ok s \<Longrightarrow> insert_instruction i (gbuilder s) = Inr z \<Longrightarrow> here (gbuilder s) = own s"
  by (cases "insertion_block (gbuilder s)") (simp_all add: insert_instruction_def here_own)

lemma br_visits:
  assumes p: "p \<in> P"
  shows "visits P (build (create_br p))"
proof (rule generating.holdsI)
  fix s x t assume s: "gen_ok s" "knows P s" and run: "build (create_br p) s = Inr (x, t)"
  from build_run [OF run] obtain b where b: "create_br p (gbuilder s) = Inr (x, b)"
    and t: "t = s\<lparr>world := (world s)\<lparr>ir_builder := b\<rparr>\<rparr>" by blast
  have "here (gbuilder s) = own s" using insert_here_own [OF s(1)] b unfolding create_br_def by blast
  then have "builder_ok b \<and> builds (gbuilder s) b" using br_keeps [OF _ b] s p by (auto simp: gen_ok_def knows_def)
  then show "gen_ok t \<and> gen_step s t \<and> knows P t" using build_step [OF s(1) t] s(2) knows_step by blast
qed

lemma cond_br_visits:
  assumes p: "p \<in> P" "q \<in> P"
  shows "visits P (build (create_cond_br v p q))"
proof (rule generating.holdsI)
  fix s x t assume s: "gen_ok s" "knows P s" and run: "build (create_cond_br v p q) s = Inr (x, t)"
  from build_run [OF run] obtain b where b: "create_cond_br v p q (gbuilder s) = Inr (x, b)"
    and t: "t = s\<lparr>world := (world s)\<lparr>ir_builder := b\<rparr>\<rparr>" by blast
  have "here (gbuilder s) = own s" using insert_here_own [OF s(1)] b unfolding create_cond_br_def by blast
  then have "builder_ok b \<and> builds (gbuilder s) b" using cond_br_keeps [OF _ b] s p by (auto simp: gen_ok_def knows_def)
  then show "gen_ok t \<and> gen_step s t \<and> knows P t" using build_step [OF s(1) t] s(2) knows_step by blast
qed

lemma set_point_visits:
  assumes p: "set_option p \<subseteq> P"
  shows "visits P (set_point p)"
proof (rule generating.holdsI)
  fix s x t assume s: "gen_ok s" "knows P s" and run: "set_point p s = Inr (x, t)"
  from build_run [OF run [unfolded set_point_def]] obtain b where b: "set_insertion_point p (gbuilder s) = Inr (x, b)"
    and t: "t = s\<lparr>world := (world s)\<lparr>ir_builder := b\<rparr>\<rparr>" by blast
  have ok: "builder_ok b" "ir_module b = gmodule s" "insertion_block b = p"
    using set_insertion_point_keeps [OF _ b] s(1) by (auto simp: gen_ok_def gmodule_def)
  have same: "owner t = owner s" "own t = own s" "gmodule t = gmodule s"
    using ok(2) by (simp_all add: t owner_def own_def gmodule_def gbuilder_def split: option.split)
  have "known t \<subseteq> P \<union> known s" using p ok(3) by (auto simp: t known_def gbuilder_def)
  then show "gen_ok t \<and> gen_step s t \<and> knows P t"
    using s same ok(1) by (auto simp: gen_ok_def gen_step_def knows_def t gbuilder_def)
qed

lemma create_block_acts:
  "generating.acts (knows P) (build (create_block l)) (\<lambda>p. knows ({p} \<union> P))"
proof (rule generating.actsI)
  fix s p t assume s: "gen_ok s" "knows P s" and run: "build (create_block l) s = Inr (p, t)"
  from build_run [OF run] obtain b where b: "create_block l (gbuilder s) = Inr (p, b)"
    and t: "t = s\<lparr>world := (world s)\<lparr>ir_builder := b\<rparr>\<rparr>" by blast
  have ok: "builder_ok b" "builds (gbuilder s) b" "p \<in> here b"
    using create_block_keeps [OF _ b] s(1) by (auto simp: gen_ok_def)
  note t_ok = build_step [OF s(1) t ok(1, 2)]
  have "current_function (gbuilder s) \<noteq> None" using b by (auto simp: create_block_def res_simps split: option.splits)
  then obtain q where "insertion_block (gbuilder s) = Some q"
    using s(1) by (auto simp: gen_ok_def builder_ok_def point_ok_def split: option.splits)
  then have "insertion_block (gbuilder t) = Some q" using ok(2) by (simp add: t gbuilder_def builds_def same_point_def)
  then have "here (gbuilder t) = own t" using here_own t_ok by blast
  then have "p \<in> own t" using ok(3) by (simp add: t gbuilder_def)
  then show "gen_ok t \<and> gen_step s t \<and> knows ({p} \<union> P) t"
    using t_ok knows_step [of s t P] s(2) by (auto simp: knows_def)
qed

lemma bind_create_block_visits:
  "(\<And>p. visits ({p} \<union> P) (k p)) \<Longrightarrow> visits P (bind_act (build (create_block l)) k)"
  by (rule visits_bind_more [OF create_block_acts])

lemma new_block_acts:
  "generating.acts (knows P) (new_block l) (\<lambda>p. knows ({p} \<union> P))"
proof (rule generating.actsI)
  fix s p t assume s: "gen_ok s" "knows P s" and run: "new_block l s = Inr (p, t)"
  from run obtain c where c: "fn_ctx s = Some c" and "build (on_module (function_create_block (ir_function c) l)) s = Inr (p, t)"
    by (auto simp: new_block_def current_fn_def build_def in_module_def res_simps split: option.splits)
  from build_run [OF this(2)] obtain b where b: "on_module (function_create_block (ir_function c) l) (gbuilder s) = Inr (p, b)"
    and t: "t = s\<lparr>world := (world s)\<lparr>ir_builder := b\<rparr>\<rparr>" by blast
  have ok: "builder_ok b" "builds (gbuilder s) b" "p \<in> fn_blocks (ir_module b) (ir_function c)"
    using new_block_keeps [OF _ b] s(1) by (auto simp: gen_ok_def)
  note t_ok = build_step [OF s(1) t ok(1, 2)]
  have "p \<in> own t" using ok(3) c by (simp add: t own_def owner_def gmodule_def gbuilder_def)
  then show "gen_ok t \<and> gen_step s t \<and> knows ({p} \<union> P) t"
    using t_ok knows_step [of s t P] s(2) by (auto simp: knows_def)
qed

lemma bind_new_block_visits:
  "(\<And>p. visits ({p} \<union> P) (k p)) \<Longrightarrow> visits P (bind_act (new_block l) k)"
  by (rule visits_bind_more [OF new_block_acts])

lemma enter_block_visits: "p \<in> P \<Longrightarrow> visits P (enter_block p)"
  unfolding enter_block_def
  by (intro generating.holds_then set_point_visits set_ctx_visits) (auto simp: ctx_blocks_def)

lemmas visit_binds = bind_current_fn_visits bind_insertion_point_visits bind_current_loop_visits bind_new_block_visits
  bind_create_block_visits bind_fn_ctx_visits

lemmas visit_jumps = br_visits cond_br_visits set_point_visits set_ctx_visits enter_block_visits

subsection \<open>The helper functions\<close>

lemma ensure_current_insertion_visits [visit_intros]: "visits P ensure_current_insertion"
  unfolding ensure_current_insertion_def
  by (rule visit_binds | rule visit_jumps generating.holds_rules | (auto simp: ctx_blocks_def; fail))+

lemma branch_if_needed_visits: "p \<in> P \<Longrightarrow> visits P (branch_if_needed p)"
  unfolding branch_if_needed_def
  by (rule visit_binds | rule visit_jumps generating.holds_rules | (auto simp: ctx_blocks_def; fail))+

lemma get_rvalue_visits [visit_intros]: "visits P (get_rvalue k)"
  unfolding get_rvalue_def
  by (rule generating.holds_rules visit_intros keep_intros | (simp; fail))+

lemma get_lvalue_visits [visit_intros]: "visits P (get_lvalue k)"
  unfolding get_lvalue_def
  by (rule visit_binds | rule visit_jumps generating.holds_rules visit_intros keep_intros | (auto simp: ctx_blocks_def; fail))+

lemma ensure_slot_for_decl_visits [visit_intros]: "visits P (ensure_slot_for_decl d)"
  unfolding ensure_slot_for_decl_def
  by (rule visit_binds | rule visit_jumps generating.holds_rules visit_intros keep_intros | (auto simp: ctx_blocks_def; fail))+

lemma memory_visits [visit_intros]: "visits P (emit_memcpy d v t)" "visits P (zero_initialize d t)"
  unfolding emit_memcpy_def zero_initialize_def
  by (rule generating.holds_rules visit_intros keep_intros)+

lemma store_expression_result_visits [visit_intros]: "visits P (store_expression_result k a t)"
  unfolding store_expression_result_def
  by (rule generating.holds_rules visit_intros keep_intros)+

lemma in_function_visits [visit_intros]: "visits P m \<Longrightarrow> visits P (in_function e m)" "visits P m \<Longrightarrow> visits P (when_in_function m)"
  unfolding in_function_def when_in_function_def by (rule generating.holds_rules | assumption)+

lemma has_next_visits [visit_intros]: "visits P (current_block_has_next k)"
  unfolding current_block_has_next_def by (rule visit_intros)

subsection \<open>Expressions\<close>

lemma operator_visits [visit_intros]: "visits P (arith_op OP u l r)" "visits P (compare_op OP u l r)"
  unfolding arith_op_def compare_op_def
  by (rule generating.holds_rules visit_intros building.holds_if keep_intros | (simp; fail))+

lemma gen_assign_visits [visit_intros]: "visits P (gen_assign k OP l r)"
  unfolding gen_assign_def by (rule generating.holds_rules visit_intros keep_intros | (simp; fail))+

lemma gen_operation_visits [visit_intros]:
  "(\<And>OP u a b. visits P (f OP u a b)) \<Longrightarrow> visits P (gen_operation f k OP l r)"
  unfolding gen_operation_def by (rule generating.holds_rules visit_intros | assumption)+

lemma build_if_visits: "visits P (build m) \<Longrightarrow> visits P (build n) \<Longrightarrow> visits P (build (if b then m else n))"
  by simp

lemma gen_logical_visits [visit_intros]:
  "(\<And>P. visits P left) \<Longrightarrow> (\<And>P. visits P right) \<Longrightarrow> visits P (gen_logical k OP l r left right)"
  unfolding gen_logical_def
  by (rule visit_binds build_if_visits | rule visit_jumps branch_if_needed_visits generating.holds_rules visit_intros keep_intros | assumption
     | (simp; fail))+

lemma gen_binary_visits:
  "(\<And>P. visits P left) \<Longrightarrow> (\<And>P. visits P right) \<Longrightarrow> visits P (gen_binary k OP l r left right)"
  unfolding gen_binary_def by (rule generating.holds_rules visit_intros | assumption)+

lemma gen_unary_visits: "visits P (gen_unary k OP r)"
  unfolding gen_unary_def
  by (cases OP; simp only: Unary_Operator.case;
      (rule generating.holds_rules visit_intros keep_intros | (simp; fail))+)

lemma seq_visits: "(\<And>P m. m \<in> set ms \<Longrightarrow> visits P m) \<Longrightarrow> visits P (seq_act ms)"
  by (rule generating.holds_seq)

lemma gen_exit_visits [visit_intros]:
  "(\<And>P m. m \<in> set arg_visits \<Longrightarrow> visits P m) \<Longrightarrow> visits P (gen_exit k args arg_visits)"
  unfolding gen_exit_def
  by (rule visit_binds | rule visit_jumps generating.holds_rules generating.holds_seq visit_intros keep_intros | assumption
     | (auto simp: ctx_blocks_def; fail))+

lemma gen_array_len_visits [visit_intros]: "visits P (gen_array_len k callee)"
  unfolding gen_array_len_def
  by (rule generating.holds_rules visit_intros | split RealType.split | (intro conjI allI impI))+

lemma self_argument_visits [visit_intros]: "visits P (self_argument fd callee)"
  unfolding self_argument_def
  by (rule generating.holds_rules visit_intros keep_intros | (simp; fail))+

lemma lower_act_run: "in_back (lower_act f) s = Inr (x, t) \<Longrightarrow> t = s \<and> f (sema (world s)) (type_lowering (world s)) = Inr x"
  by (auto simp: in_back_def lower_act_def res_simps)

lemma bind_lower_function_visits:
  assumes "\<And>r ts. visits P (k (FunctionType r ts))"
  shows "visits P (bind_act (in_back (lower_act (\<lambda>c lw. lower_function c lw d))) k)"
proof (rule generating.holdsI)
  fix s x u assume s: "gen_ok s" "knows P s" and "bind_act (in_back (lower_act (\<lambda>c lw. lower_function c lw d))) k s = Inr (x, u)"
  then obtain t where "lower_function (sema (world s)) (type_lowering (world s)) d = Inr t" and run: "k t s = Inr (x, u)"
    by (auto simp: res_simps dest!: lower_act_run)
  then obtain r ts where t: "t = FunctionType r ts" using lower_function_type by blast
  show "gen_ok u \<and> gen_step s u \<and> knows P u" using generating.holdsD [OF assms s run [unfolded t]] .
qed

lemma finish_gen_call_visits [visit_intros]: "visits P (finish_gen_call k d fd vs)"
  unfolding finish_gen_call_def
  by (rule bind_lower_function_visits | rule generating.holds_rules visit_intros keep_intros in_module_keeps
     | (simp add: good_hint_def; fail) | (clarsimp simp: res_simps, rule quiet_declare, assumption))+

lemma gen_call_of_visits [visit_intros]:
  "(\<And>P. visits P callee_visit) \<Longrightarrow> (\<And>P m. m \<in> set arg_visits \<Longrightarrow> visits P m) \<Longrightarrow>
    visits P (gen_call_of k callee args callee_visit arg_visits d fd)"
  unfolding gen_call_of_def
  by (rule generating.holds_rules generating.holds_seq generating.holds_each visit_intros | assumption
     | (clarsimp, rule visit_intros))+

lemma gen_call_visits:
  "(\<And>P. visits P callee_visit) \<Longrightarrow> (\<And>P m. m \<in> set arg_visits \<Longrightarrow> visits P m) \<Longrightarrow>
    visits P (gen_call k callee args callee_visit arg_visits)"
  unfolding gen_call_def
  by (rule visit_binds | rule generating.holds_rules visit_intros | assumption)+

subsection \<open>Branches, loops and jumps\<close>

lemma finish_branch_visits: "p \<in> P \<Longrightarrow> visits P (finish_branch k b slot p)"
  unfolding finish_branch_def
  by (rule visit_binds build_if_visits | rule visit_jumps branch_if_needed_visits generating.holds_rules visit_intros keep_intros | assumption
     | (auto simp: ctx_blocks_def loop_blocks_def good_hint_def; fail))+

lemma if_result_slot_visits [visit_intros]: "visits P (if_result_slot k)"
  unfolding if_result_slot_def
  by (rule visit_binds build_if_visits | rule visit_jumps branch_if_needed_visits generating.holds_rules visit_intros keep_intros | assumption
     | (auto simp: ctx_blocks_def loop_blocks_def good_hint_def; fail))+

lemma gen_if_visits:
  assumes "\<And>P. visits P condition" "\<And>P. visits P then_branch" "\<And>P m. else_branch = Some m \<Longrightarrow> visits P m"
  shows "visits P (gen_if k g a b condition then_branch else_branch)"
  unfolding gen_if_def
  by (rule finish_branch_visits assms(1, 2) | rule visit_binds | rule visit_jumps generating.holds_rules visit_intros keep_intros
     | (auto simp: ctx_blocks_def intro: assms(3); fail))+

lemma push_loop_visits: "loop_blocks l \<subseteq> P \<Longrightarrow> visits P (push_loop_ctx l)"
  unfolding push_loop_ctx_def
  by (rule visit_binds build_if_visits | rule visit_jumps branch_if_needed_visits generating.holds_rules visit_intros keep_intros | assumption
     | (auto simp: ctx_blocks_def loop_blocks_def good_hint_def; fail))+

lemma pop_loop_visits [visit_intros]: "visits P pop_loop_ctx"
  unfolding pop_loop_ctx_def
proof (rule set_ctx_visits)
  have tl: "set (tl ls) \<subseteq> set ls" for ls :: "LoopContext list" by (cases ls) auto
  show "ir_function (c\<lparr>loop_stack := tl (loop_stack c)\<rparr>) = ir_function c \<and>
      ctx_blocks (c\<lparr>loop_stack := tl (loop_stack c)\<rparr>) \<subseteq> P \<union> ctx_blocks c" for c
    using tl [of "loop_stack c"] by (auto simp: ctx_blocks_def)
qed

lemma gen_while_visits:
  assumes "\<And>P. visits P condition" "\<And>P. visits P body"
  shows "visits P (gen_while g condition body)"
  unfolding gen_while_def
  by (rule push_loop_visits assms | rule visit_binds | rule visit_jumps branch_if_needed_visits generating.holds_rules visit_intros keep_intros
     | (auto simp: ctx_blocks_def loop_blocks_def; fail))+

lemma gen_loop_visits:
  assumes "\<And>P. visits P body"
  shows "visits P (gen_loop k body)"
  unfolding gen_loop_def
  by (rule push_loop_visits assms | rule visit_binds | rule visit_jumps branch_if_needed_visits generating.holds_rules visit_intros keep_intros
     | (auto simp: ctx_blocks_def loop_blocks_def good_hint_def; fail))+

lemma gen_return_visits:
  assumes "\<And>P m. visit = Some m \<Longrightarrow> visits P m"
  shows "visits P (gen_return v visit)"
  unfolding gen_return_def
  by (rule visit_binds | rule visit_jumps branch_if_needed_visits generating.holds_rules visit_intros keep_intros
     | (auto simp: ctx_blocks_def intro: assms; fail))+

lemma gen_break_visits:
  assumes "\<And>P m. visit = Some m \<Longrightarrow> visits P m"
  shows "visits P (gen_break v visit)"
  unfolding gen_break_def
  by (rule visit_binds | rule visit_jumps branch_if_needed_visits generating.holds_rules visit_intros keep_intros
     | (auto simp: ctx_blocks_def loop_blocks_def intro: assms; fail))+

lemma gen_continue_visits: "visits P gen_continue"
  unfolding gen_continue_def
  by (rule visit_binds | rule visit_jumps branch_if_needed_visits generating.holds_rules visit_intros keep_intros
     | (auto simp: ctx_blocks_def loop_blocks_def; fail))+

subsection \<open>Blocks\<close>

lemma pass_result_visits [visit_intros]: "visits P (pass_result k j t)"
  unfolding pass_result_def
  by (rule visit_binds build_if_visits | rule visit_jumps branch_if_needed_visits generating.holds_rules visit_intros keep_intros | assumption
     | (auto simp: ctx_blocks_def loop_blocks_def good_hint_def; fail))+

lemma gen_stmts_visits: "(\<And>P x. x \<in> set ss \<Longrightarrow> visits P (snd x)) \<Longrightarrow> visits P (gen_stmts ss)"
proof (induction ss arbitrary: P)
  case Nil
  show ?case by (simp add: generating.holds_ret)
next
  case (Cons x ss)
  then have x: "\<And>P. visits P (snd x)" and ss: "\<And>P. visits P (gen_stmts ss)" by simp_all
  show ?case unfolding gen_stmts.simps
    by (rule x ss visit_binds | rule visit_jumps generating.holds_rules visit_intros | (auto simp: ctx_blocks_def; fail))+
qed

lemma gen_tail_visits [visit_intros]: "(\<And>P. visits P m) \<Longrightarrow> visits P (gen_tail k t m)"
  unfolding gen_tail_def
  by (rule visit_binds build_if_visits | rule visit_jumps branch_if_needed_visits generating.holds_rules visit_intros keep_intros | assumption
     | (auto simp: ctx_blocks_def loop_blocks_def good_hint_def; fail))+

lemma gen_block_visits:
  assumes "\<And>P x. x \<in> set ss \<Longrightarrow> visits P (snd x)" "\<And>P t m. tail_stmt = Some (t, m) \<Longrightarrow> visits P m"
  shows "visits P (gen_block k ss tail_stmt)"
  unfolding gen_block_def
  by (rule visit_intros generating.holds_rules gen_stmts_visits | (auto intro: assms; fail))+

lemma gen_expr_stmt_visits: "(\<And>P. visits P m) \<Longrightarrow> visits P (gen_expr_stmt k e semi m)"
  unfolding gen_expr_stmt_def
  by (rule visit_binds build_if_visits | rule visit_jumps branch_if_needed_visits generating.holds_rules visit_intros keep_intros | assumption
     | (auto simp: ctx_blocks_def loop_blocks_def good_hint_def; fail))+

lemma gen_let_visits:
  assumes "\<And>P m. visit = Some m \<Longrightarrow> visits P m"
  shows "visits P (gen_let k v visit)"
  unfolding gen_let_def
  by (rule visit_binds | rule generating.holds_rules visit_intros | (auto intro: assms; fail))+

subsection \<open>Structures, arrays and fields\<close>

lemma element_address_visits [visit_intros]: "visits P (element_address b t i)"
  unfolding element_address_def
  by (rule generating.holds_rules visit_intros keep_intros | assumption | (simp add: good_hint_def; fail))+

lemma gen_struct_field_visits:
  assumes "\<And>P e m. field_exprs (snd f) = Some (e, m) \<Longrightarrow> visits P m"
  shows "visits P (gen_struct_field slot t field_exprs sd f)"
  unfolding gen_struct_field_def
  by (rule generating.holds_rules visit_intros | (auto intro: assms; fail))+

lemma field_visit: "map_of (rev (zip ns (zip ks ms))) n = Some (e, m) \<Longrightarrow> m \<in> set ms"
  by (drule map_of_SomeD) (auto dest!: set_zip_rightD)

lemma gen_struct_visits:
  assumes "\<And>P m. m \<in> set ms \<Longrightarrow> visits P m"
  shows "visits P (gen_struct k fs ms)"
proof -
  have fields: "visits Q (gen_struct_field slot t (map_of (rev (zip (map fst fs) (zip (map snd fs) ms)))) sd f)" for Q slot t sd f
    by (rule gen_struct_field_visits, drule field_visit, rule assms)
  have all: "visits Q (seq_act (map (gen_struct_field slot t (map_of (rev (zip (map fst fs) (zip (map snd fs) ms)))) sd) l))"
    for Q slot t sd l
    by (rule generating.holds_seq) (auto intro: fields)
  show ?thesis unfolding gen_struct_def Let_def
    by (rule all generating.holds_rules visit_intros keep_intros | split RealType.split | (intro conjI allI impI)
       | (simp add: good_hint_def; fail))+
qed

lemma gen_element_visits: "(\<And>P. visits P (snd (snd e))) \<Longrightarrow> visits P (gen_element slot t et e)"
  unfolding gen_element_def
  by (rule generating.holds_rules visit_intros keep_intros | assumption | (simp add: good_hint_def; fail))+

lemma gen_array_visits:
  assumes "\<And>P m. m \<in> set ms \<Longrightarrow> visits P m"
  shows "visits P (gen_array k es ms)"
proof -
  have one: "m \<in> set ms \<Longrightarrow> visits Q (gen_element slot t et (i, j, m))" for Q slot t et i j m
    by (rule gen_element_visits) (simp add: assms)
  have all: "visits Q (seq_act (map (gen_element slot t et) (zip is (zip es ms))))" for Q slot t et "is"
    by (rule generating.holds_seq) (auto intro!: one dest!: set_zip_rightD)
  show ?thesis unfolding gen_array_def
    by (rule all generating.holds_rules visit_intros keep_intros | split RealType.split | (intro conjI allI impI)
       | (simp add: good_hint_def; fail))+
qed

lemma fill_loop_visits: "(\<And>P a. visits P (fill a)) \<Longrightarrow> visits P (fill_loop slot t n fill)"
  unfolding fill_loop_def
  by (rule visit_binds | rule visit_jumps generating.holds_rules visit_intros keep_intros | assumption
     | (auto simp: ctx_blocks_def good_hint_def; fail))+

lemma bind_ret_visits: "visits P m \<Longrightarrow> (\<And>x. visits P (k (f x))) \<Longrightarrow> visits P (bind_act (bind_act m (\<lambda>x. ret_act (f x))) k)"
proof (rule generating.holdsI)
  fix s y u assume m: "visits P m" and k: "\<And>x. visits P (k (f x))" and s: "gen_ok s" "knows P s"
    and "bind_act (bind_act m (\<lambda>x. ret_act (f x))) k s = Inr (y, u)"
  then obtain x t where "m s = Inr (x, t)" "k (f x) t = Inr (y, u)" by (auto simp: res_simps)
  then show "gen_ok u \<and> gen_step s u \<and> knows P u"
    using generating.holdsD [OF m s] generating.holdsD [OF k] by (meson generating.step_trans)
qed

lemma bind_if_visits:
  "visits P (bind_act m k) \<Longrightarrow> visits P (bind_act n k) \<Longrightarrow> visits P (bind_act (if b then m else n) k)"
  by simp

lemma gen_repeat_visits:
  assumes "\<And>P. visits P visit"
  shows "visits P (gen_repeat k e visit)"
  unfolding gen_repeat_def
  by (rule fill_loop_visits bind_if_visits bind_ret_visits assms | rule generating.holds_rules visit_intros keep_intros
     | split RealType.split | (intro conjI allI impI) | (simp add: good_hint_def; fail))+

lemma follow_reference_visits [visit_intros]: "visits P (follow_reference t a ty)"
  unfolding follow_reference_def
  by (rule generating.holds_rules visit_intros keep_intros | split IRType.split | (intro conjI allI impI) | (simp; fail))+

lemma gen_field_visits:
  assumes "\<And>P. visits P visit"
  shows "visits P (gen_field k b name visit)"
  unfolding gen_field_def gen_method_field_def gen_struct_access_def
  by (rule assms | rule generating.holds_rules visit_intros keep_intros | split RealType.split | (intro conjI allI impI) | (simp; fail))+

lemma gen_index_visits:
  assumes "\<And>P. visits P base" "\<And>P. visits P index"
  shows "visits P (gen_index k b i base index)"
  unfolding gen_index_def
  by (rule assms | rule generating.holds_rules visit_intros keep_intros | (simp; fail))+

subsection \<open>Literals, names and casts\<close>

lemma gen_string_visits [visit_intros]: "visits P (gen_string v)"
  unfolding gen_string_def
  by (rule visit_binds | rule visit_jumps generating.holds_rules visit_intros keep_intros | (auto simp: ctx_blocks_def good_hint_def; fail))+

lemma current_fn_visits [visit_intros]: "visits P current_fn"
  unfolding current_fn_def by (rule generating.holds_rules)+

lemma gen_literal_visits: "visits P (gen_literal k t v)"
  unfolding gen_literal_def
  by (cases t; simp only: LiteralType.case; (rule generating.holds_rules visit_intros | (simp; fail))+)

lemma gen_const_visits: "visits P fallback \<Longrightarrow> visits P (gen_const k cd t v name e fallback)"
  unfolding gen_const_def
  by (rule generating.holds_rules visit_intros keep_intros | assumption | (simp add: good_hint_def; fail))+

lemma gen_identifier_visits: "visits P (gen_identifier k)"
  unfolding gen_identifier_def
  by (rule gen_const_visits | rule generating.holds_rules visit_intros | split ValueDecl.split | (intro conjI allI impI))+

lemma cast_value_visits [visit_intros]: "visits P (cast_value sk m n v s t)"
  unfolding cast_value_def
  by (rule build_if_visits | rule generating.holds_rules visit_intros keep_intros | (simp add: good_hint_def; fail))+

lemma gen_cast_visits: "(\<And>P. visits P visit) \<Longrightarrow> visits P (gen_cast k e visit)"
  unfolding gen_cast_def
  by (rule generating.holds_rules visit_intros | assumption | split IRType.split | (intro conjI allI impI))+

lemma gen_path_visits: "visits P (gen_path k b name)"
  unfolding gen_path_def gen_associated_const_def gen_variant_def
  by (rule gen_const_visits | rule generating.holds_rules visit_intros | split TypeDecl.split | (intro conjI allI impI))+

lemma gen_self_visits: "visits P (gen_self k)"
  unfolding gen_self_def
  by (rule generating.holds_rules visit_intros)+

subsection \<open>Functions\<close>

lemma store_param_visits: "visits P (store_param p)"
  unfolding store_param_def by (rule generating.holds_rules visit_intros keep_intros)+

lemma set_ctx_plain_visits:
  "(\<And>c. ir_function (f c) = ir_function c \<and> ctx_blocks (f c) = ctx_blocks c) \<Longrightarrow> visits P (set_ctx f)"
  by (rule set_ctx_visits) auto

lemma store_self_visits [visit_intros]: "visits P (store_self ps)"
  unfolding store_self_def
  by (rule set_ctx_plain_visits generating.holds_rules visit_intros keep_intros | (simp add: ctx_blocks_def good_hint_def; fail))+

lemma make_return_slot_visits [visit_intros]: "visits P (make_return_slot fd rest)"
  unfolding make_return_slot_def
  by (rule generating.holds_rules visit_intros keep_intros | (simp add: good_hint_def; fail))+

lemma open_fn_visits: "visits P (open_fn fd r ps)"
  unfolding open_fn_def Let_def
  by (rule set_ctx_plain_visits generating.holds_rules visit_intros | (simp add: ctx_blocks_def; fail)
     | (rule generating.holds_seq, clarsimp, rule store_param_visits))+

lemma block_visits: "visits P (in_back (in_module (\<lambda>m. bindr (block_at (block_store m) p) (\<lambda>b. Inr (b, m)))))"
  by (intro in_back_visits in_module_keeps) (auto simp: res_simps quiet_refl)

lemma close_fn_visits: "visits P (close_fn fd body)"
  unfolding close_fn_def store_body_result_def
  by (rule block_visits visit_binds | rule visit_jumps branch_if_needed_visits generating.holds_rules visit_intros keep_intros
     | (auto simp: ctx_blocks_def good_hint_def; fail))+

text \<open>A block of a given function, as the first steps of a body make it.\<close>

lemma make_block_run:
  assumes ok: "gen_ok s" and run: "in_back (in_module (function_create_block f l)) s = Inr (p, t)"
  shows "gen_ok t \<and> gen_step s t \<and> p \<in> fn_blocks (gmodule t) f \<and> fn_ctx t = fn_ctx s \<and>
    insertion_block (gbuilder t) = insertion_block (gbuilder s)"
proof -
  from build_run [of "on_module (function_create_block f l)" s p t] run
  obtain b where b: "on_module (function_create_block f l) (gbuilder s) = Inr (p, b)"
    and t: "t = s\<lparr>world := (world s)\<lparr>ir_builder := b\<rparr>\<rparr>" by (auto simp: build_def in_module_def)
  have n: "builder_ok b" "builds (gbuilder s) b" "p \<in> fn_blocks (ir_module b) f"
    using new_block_keeps [OF _ b] ok by (auto simp: gen_ok_def)
  then show ?thesis using build_step [OF ok t n(1, 2)]
    by (simp add: t gmodule_def gbuilder_def builds_def same_point_def)
qed

lemma set_point_run:
  assumes "builder_ok (gbuilder s)" "set_point p s = Inr (u, t)"
  shows "builder_ok (gbuilder t) \<and> gmodule t = gmodule s \<and> insertion_block (gbuilder t) = p \<and> fn_ctx t = fn_ctx s"
proof -
  from build_run [OF assms(2) [unfolded set_point_def]] obtain b where b: "set_insertion_point p (gbuilder s) = Inr (u, b)"
    and t: "t = s\<lparr>world := (world s)\<lparr>ir_builder := b\<rparr>\<rparr>" by blast
  from set_insertion_point_keeps [OF assms(1) b] show ?thesis by (simp add: t gmodule_def gbuilder_def)
qed

lemma function_of_visits: "visits P (function_of f)"
  unfolding function_of_def by (rule generating.holds_rules)+

lemma body_visits:
  assumes visit: "\<And>P. visits P visit"
  shows "visits P (bind_act (function_of f) (\<lambda>fn. then_act (open_fn fd r (ir_params fn)) (then_act visit (close_fn fd body))))"
  by (rule function_of_visits open_fn_visits close_fn_visits visit generating.holds_rules)+

text \<open>The context and the insertion point are those of before when a function is done.\<close>

lemma gen_body_visits:
  assumes visit: "\<And>P. visits P visit"
  shows "visits P (bind_act (get_act fn_ctx) (\<lambda>previous. then_act (gen_body fd d r f body visit)
    (put_act (\<lambda>s. s\<lparr>fn_ctx := previous\<rparr>))))"
proof (rule visits_frame)
  fix s x t
  assume ok: "gen_ok s" and run: "bind_act (get_act fn_ctx) (\<lambda>previous. then_act (gen_body fd d r f body visit)
    (put_act (\<lambda>s. s\<lparr>fn_ctx := previous\<rparr>))) s = Inr (x, t)"
  from run obtain v e a ret b c z where
      entry: "in_back (in_module (function_create_block f ''entry'')) s = Inr (e, a)"
    and ret: "in_back (in_module (function_create_block f ''return'')) a = Inr (ret, b)"
    and start: "set_point (Some e) (b\<lparr>fn_ctx := Some (new_context d f e ret)\<rparr>) = Inr ((), c)"
    and body: "bind_act (function_of f) (\<lambda>fn. then_act (open_fn fd r (ir_params fn)) (then_act visit (close_fn fd body))) c = Inr ((), z)"
    and home: "set_point (insertion_block (gbuilder b)) z = Inr ((), v)"
    and t: "t = v\<lparr>fn_ctx := fn_ctx s\<rparr>"
    by (auto simp: gen_body_def res_simps insertion_point_def build_def in_back_def in_builder_def gbuilder_def)
  note a = make_block_run [OF ok entry]
  note b = make_block_run [OF conjunct1 [OF a] ret]
  have "builder_ok (gbuilder (b\<lparr>fn_ctx := Some (new_context d f e ret)\<rparr>))"
    using b by (simp add: gen_ok_def gbuilder_def)
  note c = set_point_run [OF this start]
  have mod: "gmodule c = gmodule b" using c by (simp add: gmodule_def gbuilder_def)
  have "e \<in> fn_blocks (gmodule b) f" using a b by (auto simp: gen_step_def grows_def)
  then have c_ok: "gen_ok c" using b c mod
    by (auto simp: gen_ok_def known_def own_def owner_def new_context_def ctx_blocks_def)
  have "visits {} (bind_act (function_of f) (\<lambda>fn. then_act (open_fn fd r (ir_params fn)) (then_act visit (close_fn fd body))))"
    by (rule body_visits [OF visit])
  from generating.holdsD [OF this c_ok _ body] have z: "gen_ok z" "gen_step c z" by (auto simp: knows_def)
  have "builder_ok (gbuilder z)" using z(1) by (simp add: gen_ok_def)
  note v = set_point_run [OF this home]
  have grow: "grows (gmodule s) (gmodule t)"
    using a b z(2) mod v by (auto simp: gen_step_def t gmodule_def gbuilder_def intro: grows_trans)
  then have step: "gen_step s t" by (simp add: gen_step_def owner_def t)
  have "known t = known s" using a b v by (simp add: known_def t gbuilder_def)
  then have "gen_ok t" using own_grows [OF step] ok v by (auto simp: gen_ok_def t gbuilder_def)
  then show "gen_ok t \<and> gen_step s t" using step by simp
qed

lemma quiet_add_sret: "module_ok m \<Longrightarrow> quiet m (add_sret f (FunctionType r ts) m)"
  unfolding add_sret_def IRType.case
  by (rule quiet_trans [OF quiet_set_type quiet_add_param]) (auto simp: quiet_def param_name_def dest: quiet_set_type [unfolded quiet_def])

lemma gen_fn_visits:
  assumes "\<And>P. visits P visit"
  shows "visits P (gen_fn k r body visit)"
proof -
  have defined: "visits Q (in_back (in_module (\<lambda>m. Inr (define_function n (FunctionType r ts) m))))" for Q n r ts
    by (intro in_back_visits in_module_keeps) (auto dest: quiet_define)
  have sret: "visits Q (in_back (in_module (put_act (add_sret f (FunctionType r ts)))))" for Q f r ts
    by (intro in_back_visits in_module_keeps) (auto simp: res_simps quiet_add_sret)
  show ?thesis unfolding gen_fn_def gen_fn_decl_def
    by (rule bind_lower_function_visits gen_body_visits [OF assms] | rule defined sret function_of_visits generating.holds_rules visit_intros)+
qed

subsection \<open>The visitor\<close>

lemmas gen_intros = gen_literal_visits gen_identifier_visits gen_binary_visits gen_unary_visits gen_call_visits gen_field_visits
  gen_struct_visits gen_index_visits gen_block_visits gen_if_visits gen_while_visits gen_loop_visits gen_return_visits
  gen_break_visits gen_continue_visits gen_cast_visits gen_path_visits gen_self_visits gen_array_visits gen_repeat_visits
  gen_let_visits gen_expr_stmt_visits gen_fn_visits

lemma visitor_visits:
  shows "t = (t :: type_node)"
  and "\<forall>P. visits P (gen_expr e)"
  and "\<forall>P. visits P (gen_stmt s)"
  and "\<forall>P. visits P (gen_item i)"
proof (induction t and e and s and i rule: type_node.induct expr.induct stmt.induct item.induct)
  case (StructExpr k t fs)
  then show ?case by (auto intro!: gen_struct_visits)
next
  case (BlockExpr k ss t m)
  have "visits P (snd x)" if "x \<in> set (zip (map stmt_id ss) (map gen_stmt ss))" for P x
  proof -
    obtain i act where x: "x = (i, act)" by (cases x)
    have "act \<in> set (map gen_stmt ss)" using that unfolding x by (rule set_zip_rightD)
    then show ?thesis using BlockExpr by (auto simp: x)
  qed
  then show ?case using BlockExpr by (auto intro!: gen_block_visits split: option.splits)
qed (auto intro!: gen_intros generating.holds_ret generating.holds_then generating.holds_seq visit_intros)

end
