(* ===== verification/PipelineProps.thy ===== *)
theory PipelineProps
  imports Pipeline IRGenProps
begin

section \<open>What the back end promises\<close>

text \<open>
  The invariants of the lowering and of the generator, from the empty module to the finished one, and what they
  give for its text.
\<close>

lemma generate_keeps:
  assumes w: "back_ok w" "insertion_block (ir_builder w) = None" and run: "generate items w = Inr (u, v)"
  shows "back_ok v"
proof -
  let ?s = "\<lparr>fn_ctx = None, expr_value_map = Map.empty, expr_address_map = Map.empty, world = w\<rparr>"
  from run obtain s where s: "seq_act (map gen_item items) ?s = Inr ((), s)" and v: "v = world s"
    by (auto simp: generate_def res_simps)
  have "visits {} (seq_act (map gen_item items))" using visitor_visits(4) by (intro generating.holds_seq) auto
  moreover have "gen_ok ?s" using w by (simp add: gen_ok_def back_ok_def gbuilder_def known_def)
  ultimately have "gen_ok s" using generating.holdsD s by (fastforce simp: knows_def)
  then show ?thesis by (simp add: v gen_ok_def back_ok_def gbuilder_def)
qed

lemma initial_backend_ok: "back_ok (initial_backend c)" "insertion_block (ir_builder (initial_backend c)) = None"
  by (simp_all add: initial_backend_def back_ok_def new_builder_def new_module_def builder_ok_def module_ok_def result_names_def
      point_ok_def)

lemma back_end_ok:
  assumes run: "back_end items (initial_backend c) = Inr (u, w)"
  shows "back_ok w"
proof -
  from run obtain v1 v2 where v1: "in_lowering (\<lambda>_. declare_builtin_string_types) (initial_backend c) = Inr ((), v1)"
    and v2: "emit_scope_tree v1 = Inr ((), v2)" and gen: "generate items v2 = Inr (u, w)"
    by (auto simp: back_end_def res_simps)
  have 1: "back_ok v1" "back_step (initial_backend c) v1"
    using backing.holdsD [OF in_lowering_keeps [OF declare_builtin_string_types_lowers] initial_backend_ok(1) _ v1] by auto
  have 2: "back_ok v2" "back_step v1 v2" using backing.holdsD [OF emit_scope_tree_keeps 1(1) _ v2] by auto
  have "insertion_block (ir_builder v2) = None"
    using initial_backend_ok(2) [of c] 1(2) 2(2) by (simp add: back_step_def builds_def same_point_def)
  from generate_keeps [OF 2(1) this gen] show ?thesis .
qed

text \<open>No parameter of a function has the name of a result.\<close>

definition params_apart :: "IRModule \<Rightarrow> bool" where
  "params_apart m \<longleftrightarrow>
     list_all (\<lambda>f. list_all (\<lambda>p. fst p \<notin> set (result_names m)) (ir_params f)) (ir_functions m)"

lemma back_ok_apart:
  assumes ok: "back_ok w"
  shows "params_apart (ir_module (ir_builder w))"
proof -
  let ?m = "ir_module (ir_builder w)"
  have "fst p \<notin> set (result_names ?m)" if f: "f \<in> set (ir_functions ?m)" and p: "p \<in> set (ir_params f)" for f p
  proof
    assume "fst p \<in> set (result_names ?m)"
    then have "name_used (ir_builder w) (fst p)" using ok by (simp add: back_ok_def builder_ok_def list_all_iff)
    moreover have "param_name (fst p)"
      using ok f p by (auto simp: back_ok_def builder_ok_def module_ok_def function_ok_def list_all_iff)
    ultimately show False using name_not_param by blast
  qed
  then show ?thesis by (simp add: params_apart_def list_all_iff)
qed

section \<open>Properties\<close>

text \<open>C5. Whatever program the back end accepts, the module it makes is well formed: every register
  gets its value from one instruction and has a name that no parameter has (single assignment), a
  terminator is only ever the last instruction of a block, every branch goes to a block of the same
  function, labels are unique in a function, the names of functions and globals are unique, and a block
  belongs to one function.\<close>

theorem generated_module_well_formed:
  "case back_end items (initial_backend c) of
     Inl _ \<Rightarrow> True
   | Inr (_, w) \<Rightarrow> module_ok (ir_module (ir_builder w)) \<and> params_apart (ir_module (ir_builder w))"
  by (auto simp: back_ok_apart builder_ok_def back_ok_def dest!: back_end_ok dest: back_end_ok [THEN back_ok_apart]
      split: sum.splits prod.splits)


end
