(* ===== verification/Returns.thy ===== *)
theory Returns
  imports Decls Effects
begin

section \<open>Computations that end\<close>

text \<open>
  A computation that returns a value with a property or stops with an error of the program, but
  is never cut off by its fuel. The rules of the collection \<open>returns_intros\<close> follow the text of
  a definition from the outside in.
\<close>

named_theorems returns_intros \<open>computations that are not cut off by their fuel\<close>

definition yields :: "(err \<Rightarrow> bool) \<Rightarrow> ('a \<Rightarrow> bool) \<Rightarrow> 'a res \<Rightarrow> bool" where
  "yields E P r \<longleftrightarrow> (case r of Inr x \<Rightarrow> P x | Inl e \<Rightarrow> E e)"

abbreviation returns :: "('a \<Rightarrow> bool) \<Rightarrow> 'a res \<Rightarrow> bool" where
  "returns \<equiv> yields (\<lambda>e. e \<noteq> OutOfFuel)"

abbreviation ends :: "'a res \<Rightarrow> bool" where
  "ends \<equiv> returns (\<lambda>_. True)"

lemma returnsD: "yields E P r \<Longrightarrow> r = Inr x \<Longrightarrow> P x"
  by (simp add: yields_def)

lemma returns_ne: "returns P r \<Longrightarrow> r \<noteq> Inl OutOfFuel"
  by (auto simp: yields_def)

lemma returns_mono: "yields E P r \<Longrightarrow> (\<And>x. P x \<Longrightarrow> Q x) \<Longrightarrow> yields E Q r"
  by (auto simp: yields_def split: sum.splits)

lemma ends_returns: "ends r \<Longrightarrow> (\<And>x. r = Inr x \<Longrightarrow> P x) \<Longrightarrow> returns P r"
  by (auto simp: yields_def split: sum.splits)

lemma returns_Inr: "P x \<Longrightarrow> yields E P (Inr x)"
  by (simp add: yields_def)

lemma returns_Inl: "E e \<Longrightarrow> yields E P (Inl e)"
  by (simp add: yields_def)

lemma returns_bind: "yields E P m \<Longrightarrow> (\<And>x. m = Inr x \<Longrightarrow> P x \<Longrightarrow> yields E Q (f x)) \<Longrightarrow> yields E Q (bindr m f)"
  by (cases m) (auto simp: yields_def)

lemma ends_bind: "yields E (\<lambda>_. True) m \<Longrightarrow> (\<And>x. m = Inr x \<Longrightarrow> yields E Q (f x)) \<Longrightarrow> yields E Q (bindr m f)"
  by (rule returns_bind)

lemma returns_guard: "E e \<Longrightarrow> (b \<Longrightarrow> P ()) \<Longrightarrow> yields E P (guardr b e)"
  by (simp add: yields_def guardr_def)

lemma returns_if: "(b \<Longrightarrow> yields E P m) \<Longrightarrow> (\<not> b \<Longrightarrow> yields E P n) \<Longrightarrow> yields E P (if b then m else n)"
  by simp

lemma returns_option:
  "(x = None \<Longrightarrow> yields E P m) \<Longrightarrow> (\<And>y. x = Some y \<Longrightarrow> yields E P (n y)) \<Longrightarrow> yields E P (case x of None \<Rightarrow> m | Some y \<Rightarrow> n y)"
  by (simp split: option.split)

lemma returns_pair: "(\<And>y z. x = (y, z) \<Longrightarrow> yields E P (m y z)) \<Longrightarrow> yields E P (case x of (y, z) \<Rightarrow> m y z)"
  by (cases x) simp

lemma returns_list:
  "(x = [] \<Longrightarrow> yields E P m) \<Longrightarrow> (\<And>y ys. x = y # ys \<Longrightarrow> yields E P (n y ys)) \<Longrightarrow> yields E P (case x of [] \<Rightarrow> m | y # ys \<Rightarrow> n y ys)"
  by (simp split: list.split)

text \<open>The rules for functions without a state, and with a property of the state that is passed on.\<close>

lemmas pure_rules = returns_Inr returns_Inl ends_bind returns_guard returns_if returns_option returns_pair returns_list
lemmas returns_rules = returns_Inr returns_Inl returns_bind returns_guard returns_if returns_option returns_pair returns_list

lemma deref_ends [returns_intros]: "ends (deref m k)"
  by (simp add: yields_def deref_def split: option.split)

lemma the_ptr_ends [returns_intros]: "ends (the_ptr x)"
  by (simp add: yields_def the_ptr_def split: option.split)

lemma returns_bind_pair:
  "yields E (\<lambda>(x, s). P s) m \<Longrightarrow> (\<And>x s. m = Inr (x, s) \<Longrightarrow> P s \<Longrightarrow> yields E Q (f x s)) \<Longrightarrow>
    yields E Q (bindr m (\<lambda>(x, s). f x s))"
  by (cases m) (auto simp: yields_def)

lemma returns_Inr_pair: "P s \<Longrightarrow> yields E (\<lambda>(x, s). P s) (Inr (x, s))"
  by (simp add: yields_def)

text \<open>Any computation, when the errors do not matter.\<close>

lemma any_yields: "yields (\<lambda>_. True) (\<lambda>_. True) r"
  by (simp add: yields_def split: sum.split)

subsection \<open>Steps on a state, loops over lists and optional children\<close>

definition passes_in :: "(err \<Rightarrow> bool) \<Rightarrow> ('s \<Rightarrow> bool) \<Rightarrow> ('s \<Rightarrow> 's res) \<Rightarrow> bool" where
  "passes_in E P f \<longleftrightarrow> (\<forall>s. P s \<longrightarrow> yields E P (f s))"

text \<open>The steps that keep a property and stop with no other error than those of the program, or with any.\<close>

abbreviation passes :: "('s \<Rightarrow> bool) \<Rightarrow> ('s \<Rightarrow> 's res) \<Rightarrow> bool" where
  "passes \<equiv> passes_in (\<lambda>e. e \<noteq> OutOfFuel)"

abbreviation preserves :: "('s \<Rightarrow> bool) \<Rightarrow> ('s \<Rightarrow> 's res) \<Rightarrow> bool" where
  "preserves \<equiv> passes_in (\<lambda>_. True)"

lemma passes_inI: "(\<And>s. P s \<Longrightarrow> yields E P (f s)) \<Longrightarrow> passes_in E P f"
  by (simp add: passes_in_def)

lemma passes_inD: "passes_in E P f \<Longrightarrow> P s \<Longrightarrow> yields E P (f s)"
  by (simp add: passes_in_def)

lemma passes_in_Inr: "passes_in E P Inr"
  by (simp add: passes_in_def returns_Inr)

lemma passes_in_bind: "passes_in E P f \<Longrightarrow> passes_in E P g \<Longrightarrow> passes_in E P (\<lambda>s. bindr (f s) g)"
  by (auto intro!: passes_inI returns_bind dest: passes_inD)

lemma passes_in_pre: "passes_in E P f \<Longrightarrow> (\<And>s. P s \<Longrightarrow> P (h s)) \<Longrightarrow> passes_in E P (\<lambda>s. f (h s))"
  by (simp add: passes_in_def)

lemma passes_in_eta: "(\<And>s. f s = g s) \<Longrightarrow> passes_in E P g \<Longrightarrow> passes_in E P f"
  by (simp add: passes_in_def)

lemma passes_in_all: "(\<And>f. f \<in> set fs \<Longrightarrow> passes_in E P f) \<Longrightarrow> passes_in E P (visit_all fs)"
proof (induction fs)
  case (Cons f fs)
  then have "passes_in E P f" "passes_in E P (visit_all fs)" by simp_all
  then show ?case by (auto intro!: passes_inI returns_bind dest: passes_inD)
qed (simp add: passes_in_def returns_Inr)

lemma passes_in_opt: "(\<And>f. x = Some f \<Longrightarrow> passes_in E P f) \<Longrightarrow> passes_in E P (visit_opt x)"
  by (cases x) (auto simp: passes_in_def returns_Inr)

lemma passes_in_foldr: "(\<And>x. x \<in> set xs \<Longrightarrow> passes_in E P (f x)) \<Longrightarrow> passes_in E P (foldr_res f xs)"
proof (induction xs)
  case (Cons x xs)
  then have "passes_in E P (f x)" "passes_in E P (foldr_res f xs)" by simp_all
  then show ?case by (auto intro!: passes_inI returns_bind dest: passes_inD)
qed (simp add: passes_in_def returns_Inr)

lemma mapr_returns: "(\<And>x. x \<in> set xs \<Longrightarrow> ends (f x)) \<Longrightarrow> ends (mapr f xs)"
  by (induction xs) (auto intro!: returns_rules)

subsection \<open>Actions\<close>

definition ending :: "('s \<Rightarrow> bool) \<Rightarrow> ('s, 'a) act \<Rightarrow> ('a \<Rightarrow> 's \<Rightarrow> bool) \<Rightarrow> bool" where
  "ending I m J \<longleftrightarrow> (\<forall>s. I s \<longrightarrow> returns (\<lambda>(x, t). J x t) (m s))"

abbreviation ends_act :: "('s \<Rightarrow> bool) \<Rightarrow> ('s, 'a) act \<Rightarrow> bool" where
  "ends_act I m \<equiv> ending I m (\<lambda>_. I)"

lemma endingI: "(\<And>s. I s \<Longrightarrow> returns (\<lambda>(x, t). J x t) (m s)) \<Longrightarrow> ending I m J"
  by (simp add: ending_def)

lemma endingD: "ending I m J \<Longrightarrow> I s \<Longrightarrow> returns (\<lambda>(x, t). J x t) (m s)"
  by (simp add: ending_def)

lemma ending_bind: "ending I m J \<Longrightarrow> (\<And>x. ending (J x) (k x) L) \<Longrightarrow> ending I (bind_act m k) L"
proof (rule endingI)
  fix s assume m: "ending I m J" and k: "\<And>x. ending (J x) (k x) L" and s: "I s"
  show "returns (\<lambda>(y, u). L y u) (bind_act m k s)"
    unfolding bind_act_def using endingD [OF m s] by (rule returns_bind) (auto intro: endingD [OF k])
qed

lemma ending_then: "ending I m (\<lambda>_. J) \<Longrightarrow> ending J k L \<Longrightarrow> ending I (then_act m k) L"
  unfolding then_act_def by (rule ending_bind)

lemma ending_put: "(\<And>s. I s \<Longrightarrow> J (f s)) \<Longrightarrow> ending I (put_act f) (\<lambda>_. J)"
  by (rule endingI) (simp add: put_act_def returns_Inr)

lemma ends_ret: "ends_act I (ret_act x)"
  by (rule endingI) (simp add: ret_act_def returns_Inr)

lemma ends_throw: "e \<noteq> OutOfFuel \<Longrightarrow> ending I (throw_act e) J"
  by (rule endingI) (simp add: throw_act_def returns_Inl)

lemma ends_lift: "ends r \<Longrightarrow> ends_act I (lift_act r)"
  unfolding lift_act_def by (rule endingI, erule returns_bind) (simp add: returns_Inr)

lemma ends_get: "ends_act I (get_act f)"
  by (rule endingI) (simp add: get_act_def returns_Inr)

lemma ends_guard: "e \<noteq> OutOfFuel \<Longrightarrow> ends_act I (guard_act b e)"
  by (rule endingI) (simp add: guard_act_def returns_Inr returns_Inl)

lemma ends_when: "(b \<Longrightarrow> ends_act I m) \<Longrightarrow> ends_act I (when_act b m)"
  by (simp add: when_act_def ends_ret)

lemma ends_if: "(b \<Longrightarrow> ending I m J) \<Longrightarrow> (\<not> b \<Longrightarrow> ending I n J) \<Longrightarrow> ending I (if b then m else n) J"
  by simp

lemma ends_option:
  "(x = None \<Longrightarrow> ending I m J) \<Longrightarrow> (\<And>y. x = Some y \<Longrightarrow> ending I (n y) J) \<Longrightarrow> ending I (case x of None \<Rightarrow> m | Some y \<Rightarrow> n y) J"
  by (simp split: option.split)

lemma ends_pair: "(\<And>y z. x = (y, z) \<Longrightarrow> ending I (m y z) J) \<Longrightarrow> ending I (case x of (y, z) \<Rightarrow> m y z) J"
  by (cases x) simp

lemma ends_list:
  "(x = [] \<Longrightarrow> ending I m J) \<Longrightarrow> (\<And>y ys. x = y # ys \<Longrightarrow> ending I (n y ys) J) \<Longrightarrow>
    ending I (case x of [] \<Rightarrow> m | y # ys \<Rightarrow> n y ys) J"
  by (simp split: list.split)

lemmas ends_rules = ends_ret ends_throw ends_lift ends_get ends_guard ends_when ends_if ends_option ends_pair ends_list
  ending_bind ending_then

lemma ends_each: "(\<And>m. m \<in> set ms \<Longrightarrow> ends_act I m) \<Longrightarrow> ends_act I (each_act ms)"
  by (induction ms) (auto intro!: ends_ret ending_bind)

lemma ends_seq: "(\<And>m. m \<in> set ms \<Longrightarrow> ends_act I m) \<Longrightarrow> ends_act I (seq_act ms)"
  by (induction ms) (auto intro!: ends_ret ending_then)

end
