(* ===== verification/ValueEnds.thy ===== *)
theory ValueEnds
  imports Checker Returns
begin

section \<open>Literals, types and values: computations that end\<close>

text \<open>
  The functions on literals, types and constant values recurse on their arguments, and all their
  errors are those of the program.
\<close>

lemma stoll_loop_ends [returns_intros]: "ends (stoll_loop s m b cs n)"
  by (induction s m b cs n rule: stoll_loop.induct) (auto simp: Let_def intro!: pure_rules)

lemma apply_suffix_ends [returns_intros]: "ends (apply_suffix s suffix m)"
  unfolding apply_suffix_def by (intro pure_rules) simp_all

lemma split_suffix_ends [returns_intros]: "ends (split_suffix s)"
  unfolding split_suffix_def by (intro pure_rules returns_intros) simp

lemma safe_stoll_ends [returns_intros]: "ends (safe_stoll s)"
  unfolding safe_stoll_def Let_def
  by (intro pure_rules returns_intros) simp_all

lemma type_of_literal_ends [returns_intros]: "ends (type_of_literal t v)"
  unfolding type_of_literal_def by (cases t) (auto intro!: pure_rules returns_intros)

lemma merge_kinds_ends [returns_intros]: "ends (merge_kinds t u)"
  unfolding merge_kinds_def merge_error_def by (intro pure_rules) simp_all

lemma merge_refs_ends [returns_intros]: "ends (merge_refs b t u)"
  unfolding merge_refs_def merge_error_def by (intro pure_rules) simp_all

lemma type_merge_ends [returns_intros]: "ends (type_merge b t u)"
proof (induction t arbitrary: u)
  case (ArrayRealType r t e n)
  then show ?case
    by (subst type_merge.simps) (auto simp: merge_error_def intro!: pure_rules returns_intros split: RealType.split)
qed (subst type_merge.simps; auto intro!: pure_rules returns_intros)+

lemma check_cast_refs_ends [returns_intros]: "ends (check_cast_refs a b)"
  unfolding check_cast_refs_def by (cases a) (auto intro!: pure_rules)

lemma check_cast_ends [returns_intros]: "ends (check_cast t u)"
proof (induction u arbitrary: t)
  case (ArrayRealType r u e n)
  then show ?case
    by (subst check_cast.simps) (auto simp: cannot_cast_def intro!: pure_rules returns_intros split: RealType.split)
qed (subst check_cast.simps; auto simp: cannot_cast_def intro!: pure_rules returns_intros)+

lemma check_literal_range_ends [returns_intros]: "ends (check_literal_range t e)"
  unfolding check_literal_range_def by (cases e) (auto intro!: pure_rules returns_intros)

lemma check_let_stmt_ends [returns_intros]: "ends (check_let_stmt p t u e)"
  unfolding check_let_stmt_def
  by (cases "pattern_mut p"; cases "pattern_ref p") (auto intro!: pure_rules returns_intros)

subsection \<open>Constant values\<close>

lemma parse_literal_ends [returns_intros]: "ends (parse_literal_token_to_const_value t v)"
  unfolding parse_literal_token_to_const_value_def by (cases t) (auto intro!: pure_rules returns_intros)

lemma signed_word_ends [returns_intros]: "ends (signed_word i)"
  unfolding signed_word_def by (intro pure_rules) simp_all

lemma calc_unary_ends [returns_intros]: "ends (calc_const_unary_expr OP v)"
  unfolding calc_const_unary_expr_def by (cases v) (auto intro!: pure_rules returns_intros)

lemma calc_signed_ends [returns_intros]: "ends (calc_signed OP a b)"
  unfolding calc_signed_def div_by_zero_def mod_by_zero_def
  by (cases OP) (auto intro!: pure_rules returns_intros)

lemma calc_unsigned_ends [returns_intros]: "ends (calc_unsigned OP a b)"
  unfolding calc_unsigned_def div_by_zero_def mod_by_zero_def by (cases OP) (auto intro!: pure_rules)

lemma calc_bool_ends [returns_intros]: "ends (calc_bool OP a b)"
  unfolding calc_bool_def by (cases OP) (auto intro!: pure_rules)

lemma cmp_result_ends [returns_intros]: "ends (cmp_result OP a b)"
  unfolding cmp_result_def by (cases OP) (auto intro!: pure_rules)

lemma cast_anyint_ends [returns_intros]: "ends (cast_anyint_const_to_target_type v k)"
  unfolding cast_anyint_const_to_target_type_def Let_def by (intro pure_rules) simp_all

lemma unify_operands_ends [returns_intros]: "ends (unify_operands a b)"
  unfolding unify_operands_def by (cases a; cases b) (auto intro!: pure_rules returns_intros)

lemma same_kinds_ends [returns_intros]: "ends (same_kinds p)"
  unfolding same_kinds_def by (intro pure_rules) simp_all

lemma operand_cases:
  assumes "\<And>a b. ends (f (a, b))"
  shows "ends (bindr (bindr (unify_operands l r) same_kinds) f)"
  using assms by (intro pure_rules returns_intros) (metis prod.collapse)

lemma calc_arith_ends [returns_intros]: "ends (calc_arith OP l r)"
  unfolding calc_arith_def unsupported_def
  by (rule operand_cases) (auto intro!: pure_rules returns_intros split: ConstValue.split)

lemma calc_compare_ends [returns_intros]: "ends (calc_compare OP l r)"
  unfolding calc_compare_def unsupported_def
  by (rule operand_cases) (auto intro!: pure_rules returns_intros split: ConstValue.split)

lemma shift_count_ends [returns_intros]: "ends (shift_count v)"
  unfolding shift_count_def negative_shift_def by (cases v) (auto intro!: pure_rules)

lemma shift_result_ends [returns_intros]: "ends (shift_result f OP l n)"
  unfolding shift_result_def by (cases OP) (auto intro!: pure_rules)

lemma calc_shift_ends [returns_intros]: "ends (calc_shift OP l r)"
  unfolding calc_shift_def by (cases l) (auto intro!: pure_rules returns_intros)

lemma calc_binary_ends [returns_intros]: "ends (calc_const_binary_expr OP l r)"
  unfolding calc_const_binary_expr_def by (intro pure_rules returns_intros) (auto intro!: pure_rules split: ConstValue.split)

lemma const_number_ends [returns_intros]: "ends (const_number t v)"
  unfolding const_number_def by (cases v) (auto intro!: pure_rules)

lemma number_to_const_ends [returns_intros]: "ends (number_to_const t n)"
  unfolding number_to_const_def by (intro pure_rules) simp_all

lemma cast_scalar_ends [returns_intros]: "ends (cast_scalar t v m)"
  unfolding cast_scalar_def by (cases "kind t") (auto intro!: pure_rules returns_intros)

lemma cast_all_ends: "(\<And>f m. f \<in> set fs \<Longrightarrow> ends (f m)) \<Longrightarrow> ends (cast_all fs m)"
  by (induction fs arbitrary: m) (auto intro!: pure_rules)

lemma const_cast_ends [returns_intros]: "ends (const_cast_to_realtype t v m)"
  by (induction t v m rule: const_cast_to_realtype.induct)
    (auto intro!: pure_rules returns_intros cast_all_ends split: ConstValue.split simp: size_at_def)

lemma calc_size_ends [returns_intros]: "ends (calc_const_array_size v)"
  unfolding calc_const_array_size_def by (cases v) (auto intro!: pure_rules)

end
