(* ===== verification/PlainTypes.thy ===== *)
theory PlainTypes
  imports Returns ScopeProps Resolve
begin

section \<open>Declared types have values\<close>

text \<open>
  A type that the syntax can denote has no function type in it. The first two steps leave only such
  types in the map of types and in the declarations of functions, so that the lowering of a function
  type does not meet another one below.
\<close>

primrec plain :: "RealType \<Rightarrow> bool" where
  "plain (FunctionRealType r d) = False"
| "plain (ArrayRealType r t e n) = plain t"
| "plain (UnitRealType r) = True"
| "plain (NeverRealType r) = True"
| "plain (StructRealType r s d) = True"
| "plain (EnumRealType r s d) = True"
| "plain (BoolRealType r) = True"
| "plain (I32RealType r) = True"
| "plain (IsizeRealType r) = True"
| "plain (U32RealType r) = True"
| "plain (UsizeRealType r) = True"
| "plain (AnyIntRealType r) = True"
| "plain (CharRealType r) = True"
| "plain (StrRealType r) = True"
| "plain (StringRealType r) = True"

definition fn_plain :: "FnDecl \<Rightarrow> bool" where
  "fn_plain fd \<longleftrightarrow>
     list_all (\<lambda>p. plain (snd p)) (parameters fd) \<and> pred_option plain (return_type fd)
     \<and> pred_option plain (builtin_method_self_type fd)"

definition plain_types :: "Semantic_Checker \<Rightarrow> bool" where
  "plain_types c \<longleftrightarrow>
     (\<forall>k. pred_option plain (type_map c k)) \<and> (\<forall>d. pred_option fn_plain (fn_decls c d))
     \<and> (\<forall>a. pred_option (\<lambda>s. pred_option plain (self_struct s)) (scopes c a))"

lemma plain_types_same [simp]:
  "plain_types (c\<lparr>next_address := m0\<rparr>) = plain_types c"
  "plain_types (c\<lparr>node_scope_map := m1\<rparr>) = plain_types c"
  "plain_types (c\<lparr>struct_decls := m2\<rparr>) = plain_types c"
  "plain_types (c\<lparr>enum_decls := m3\<rparr>) = plain_types c"
  "plain_types (c\<lparr>const_decls := m4\<rparr>) = plain_types c"
  "plain_types (c\<lparr>const_expr_queue := m5\<rparr>) = plain_types c"
  "plain_types (c\<lparr>fn_item_to_decl_map := m6\<rparr>) = plain_types c"
  "plain_types (put_struct d sd c) = plain_types c"
  "plain_types (queue_expr e c) = plain_types c"
  by (simp_all add: plain_types_def put_struct_def queue_expr_def)

lemma plain_types_alloc: "alloc c = (d, c') \<Longrightarrow> plain_types c' = plain_types c"
  by (auto simp: alloc_def)

lemma plain_types_put:
  "plain_types c \<Longrightarrow> pred_option plain (self_struct s) \<Longrightarrow> plain_types (put_scope a s c)"
  "plain_types c \<Longrightarrow> fn_plain fd \<Longrightarrow> plain_types (put_fn d fd c)"
  "plain_types c \<Longrightarrow> plain t \<Longrightarrow> plain_types (set_type k t c)"
  by (simp_all add: plain_types_def put_scope_def put_fn_def set_type_def)

lemma plain_scope: "plain_types c \<Longrightarrow> deref (scopes c) a = Inr s \<Longrightarrow> pred_option plain (self_struct s)"
  by (auto simp: plain_types_def deref_eq dest: spec [of _ a])

lemma plain_fn: "plain_types c \<Longrightarrow> deref (fn_decls c) d = Inr fd \<Longrightarrow> fn_plain fd"
  by (auto simp: plain_types_def deref_eq dest: spec [of _ d])

lemma new_plain [simp]: "fn_plain (new_fn_decl i a r name)" "self_struct (new_scope p k s) = None"
  by (simp_all add: fn_plain_def new_fn_decl_def new_scope_def)

subsection \<open>Building the scopes\<close>

abbreviation plain_builder :: "scope_builder \<Rightarrow> bool" where
  "plain_builder st \<equiv> plain_types (checker st)"

lemma enter_plain: "preserves plain_builder (enter k)"
  unfolding enter_def by (rule passes_inI) (auto intro!: ends_bind any_yields returns_Inr)

lemma make_scope_plain: "plain_builder st \<Longrightarrow> yields (\<lambda>_. True) (\<lambda>(a, st). plain_builder st) (make_scope k impl st)"
  unfolding make_scope_def Let_def
  by (rule ends_bind, rule any_yields) (auto intro!: returns_Inr plain_types_put simp: plain_types_alloc split: prod.split)

lemma put_plain:
  "preserves plain_builder (push_scope a)"
  "preserves plain_builder (define_value e name vd)"
  "preserves plain_builder (define_type e name td)"
proof -
  have 1: "plain_types (put_scope b t c)" if "plain_types c" "deref (scopes c) b = Inr s" "self_struct t = self_struct s" for b c s t
    using plain_scope [OF that(1, 2)] that by (simp add: plain_types_put)
  show "preserves plain_builder (push_scope a)" unfolding push_scope_def
    by (rule passes_inI, rule ends_bind, rule any_yields, rule ends_bind, rule any_yields, rule returns_Inr) (simp add: 1)
  show "preserves plain_builder (define_value e name vd)" unfolding define_value_def
    by (rule passes_inI, (rule ends_bind, rule any_yields)+, rule returns_Inr) (simp add: 1)
  show "preserves plain_builder (define_type e name td)" unfolding define_type_def
    by (rule passes_inI, (rule ends_bind, rule any_yields)+, rule returns_Inr) (simp add: 1)
qed

lemma new_decl_plain:
  "preserves plain_builder (new_function i r name a)"
  "preserves plain_builder (new_struct name fs)"
  "preserves plain_builder (new_enum name vs)"
  "preserves plain_builder (new_const name t)"
  by (rule passes_inI; unfold new_function_def new_struct_def new_enum_def new_const_def Let_def;
      auto intro!: passes_inD [OF put_plain(2)] passes_inD [OF put_plain(3)] plain_types_put simp: plain_types_alloc split: prod.split)+

lemma open_block_plain: "plain_builder st \<Longrightarrow> yields (\<lambda>_. True) (\<lambda>(b, st). plain_builder st) (open_block st)"
  unfolding open_block_def
  by (rule returns_if, simp add: returns_Inr, rule returns_bind_pair, erule make_scope_plain, rule returns_bind,
      erule passes_inD [OF put_plain(1)]) (simp add: returns_Inr)

lemma pop_scope_plain [simp]: "plain_builder (pop_scope st) = plain_builder st"
  by (simp add: pop_scope_def)

lemma in_block_plain: "preserves plain_builder f \<Longrightarrow> preserves plain_builder (in_block f)"
  unfolding in_block_def
  by (rule passes_inI, rule returns_bind_pair, erule open_block_plain, rule returns_bind, erule (1) passes_inD) (simp add: returns_Inr)

lemma in_scope_plain: "preserves plain_builder f \<Longrightarrow> preserves plain_builder (in_scope f)"
  unfolding in_scope_def by (rule passes_inI, rule returns_bind, erule (1) passes_inD) (simp add: returns_Inr)

lemma declare_plain:
  "preserves plain_builder (declare_fn k i r name)"
  "preserves plain_builder (declare_impl k name)"
  unfolding declare_fn_def declare_impl_def
  by (rule passes_inI, rule returns_bind, erule passes_inD [OF enter_plain], rule returns_bind_pair, erule make_scope_plain,
      (rule returns_bind, erule passes_inD [OF new_decl_plain(1)])?, (rule returns_bind)?, erule passes_inD [OF put_plain(1)],
      (simp add: returns_Inr)?)+

lemma build_param_plain: "preserves plain_builder (snd p) \<Longrightarrow> preserves plain_builder (build_param p)"
  unfolding build_param_def build_pattern_def by (rule passes_in_bind [OF enter_plain])

lemma build_pattern_plain: "preserves plain_builder (build_pattern p)"
  unfolding build_pattern_def by (rule enter_plain)

lemma build_plain:
  shows "preserves plain_builder (build_type t)"
  and "preserves plain_builder (build_expr e)"
  and "preserves plain_builder (build_stmt s)"
  and "preserves plain_builder (build_item i)"
proof (induction t and e and s and i rule: type_node.induct expr.induct stmt.induct item.induct)
qed (assumption
    | (rule passes_in_eta, rule build_type.simps build_expr.simps build_stmt.simps build_item.simps)
    | rule enter_plain in_block_plain in_scope_plain declare_plain new_decl_plain build_pattern_plain
        passes_in_bind passes_in_all passes_in_opt
    | (auto intro!: build_param_plain; fail))+

lemma step1_plain: "step1_build_scopes_and_collect_symbols items new_checker = Inr c \<Longrightarrow> plain_types c"
proof -
  have "plain_types new_checker" by (simp add: plain_types_def new_checker_def)
  moreover have "preserves plain_builder (visit_all (map build_item items))" using build_plain(4) by (intro passes_in_all) auto
  ultimately have "yields (\<lambda>_. True) plain_types (step1_build_scopes_and_collect_symbols items new_checker)"
    unfolding step1_build_scopes_and_collect_symbols_def by (auto intro!: returns_bind [OF passes_inD] returns_Inr)
  then show "step1_build_scopes_and_collect_symbols items new_checker = Inr c \<Longrightarrow> plain_types c" by (rule returnsD)
qed

subsection \<open>Resolving types\<close>

lemma builtin_type_plain: "yields (\<lambda>_. True) plain (builtin_type r name)"
  unfolding builtin_type_def by (rule returns_if | rule returns_Inr, simp | rule returns_Inl, simp)+

lemma find_path_type_plain: "yields (\<lambda>_. True) plain (find_path_type c sc r name)"
  unfolding find_path_type_def
  by (rule ends_bind, rule any_yields, rule returns_option, rule builtin_type_plain, split TypeDecl.split)
    (simp add: returns_Inr)

lemma search_scopes_finds:
  "search_scopes n sc f a = Inr (Some x) \<Longrightarrow> \<exists>b s. sc b = Some s \<and> f b s = Some x"
  by (induction n sc f a rule: search_scopes.induct) (auto simp: res_simps split: option.splits)

lemma find_self_type_plain: "plain_types c \<Longrightarrow> yields (\<lambda>_. True) plain (find_self_type c sc)"
proof -
  assume c: "plain_types c"
  have "pred_option plain (self_struct s)"
    if "search c (\<lambda>_ s. if scope_kind s = Impl_scope then Some s else None) sc = Inr (Some s)" for s
  proof -
    from that obtain b t where "scopes c b = Some t" "(if scope_kind t = Impl_scope then Some t else None) = Some s"
      unfolding search_def by (blast dest: search_scopes_finds)
    then have "scopes c b = Some s" by (auto split: if_splits)
    with c show ?thesis unfolding plain_types_def by (metis option.pred_inject(2))
  qed
  then show ?thesis unfolding find_self_type_def
    by - (rule ends_bind, rule any_yields, auto intro!: returns_Inr returns_Inl split: option.split)
qed

abbreviation gives_plain :: "(RealType \<times> Semantic_Checker) res \<Rightarrow> bool" where
  "gives_plain \<equiv> yields (\<lambda>_. True) (\<lambda>(t, c). plain t \<and> plain_types c)"

lemma memo_type_plain:
  assumes f: "gives_plain (f c)" and c: "plain_types c"
  shows "gives_plain (memo_type k f c)"
proof (cases "type_map c k")
  case None
  have "gives_plain (bindr (f c) (\<lambda>(t, c). Inr (t, set_type k t c)))"
    using f by (rule returns_bind) (auto intro!: returns_Inr plain_types_put)
  then show ?thesis using None by (simp add: memo_type_def)
next
  case (Some u)
  have "pred_option plain (type_map c k)" using c unfolding plain_types_def by blast
  then show ?thesis using Some c by (simp add: memo_type_def returns_Inr)
qed

lemma find_real_type_yields: "plain_types c \<Longrightarrow> gives_plain (find_real_type sc t c)"
proof (induction sc t arbitrary: c rule: find_real_type.induct)
  case (1 sc' k r name)
  have "gives_plain (bindr (find_path_type c sc' r name) (\<lambda>t. Inr (t, c)))"
    by (rule returns_bind, rule find_path_type_plain) (simp add: returns_Inr 1)
  then show ?case using 1 by (simp add: memo_type_plain)
next
  case (2 sc' k r t e)
  have "gives_plain (bindr (find_real_type sc' t c) (\<lambda>(t, c). Inr (ArrayRealType r t (Some e) 0, queue_expr e c)))"
    by (rule returns_bind, rule 2(1), rule 2(2)) (auto simp: returns_Inr)
  then show ?case using 2(2) by (simp add: memo_type_plain)
next
  case (3 sc' k r)
  then show ?case by (simp add: memo_type_plain returns_Inr)
next
  case (4 sc' k r)
  have "gives_plain (bindr (find_self_type c sc') (\<lambda>t. Inr (t, c)))"
    by (rule returns_bind, rule find_self_type_plain, rule 4) (simp add: returns_Inr 4)
  then show ?case using 4 by (simp add: memo_type_plain)
qed

lemma find_real_type_bind:
  "plain_types c \<Longrightarrow> (\<And>u d. plain u \<Longrightarrow> plain_types d \<Longrightarrow> yields (\<lambda>_. True) P (f u d)) \<Longrightarrow>
    yields (\<lambda>_. True) P (bindr (find_real_type sc t c) (\<lambda>(u, d). f u d))"
  by (rule returns_bind, erule find_real_type_yields) auto

lemma deref_fn_bind:
  "plain_types c \<Longrightarrow> (\<And>fd. fn_plain fd \<Longrightarrow> yields (\<lambda>_. True) P (f fd)) \<Longrightarrow> yields (\<lambda>_. True) P (bindr (deref (fn_decls c) d) f)"
  by (rule ends_bind, rule any_yields) (auto dest: plain_fn)

lemma fn_plain_add:
  "fn_plain fd \<Longrightarrow> plain t \<Longrightarrow> fn_plain (fd\<lparr>parameters := parameters fd @ [(p, t)]\<rparr>)"
  "fn_plain fd \<Longrightarrow> plain t \<Longrightarrow> fn_plain (fd\<lparr>return_type := Some t\<rparr>)"
  "fn_plain fd \<Longrightarrow> fn_plain (fd\<lparr>fn_self_struct := sa\<rparr>)"
  "fn_plain fd \<Longrightarrow> fn_plain (fd\<lparr>is_main := b\<rparr>)"
  by (simp_all add: fn_plain_def)

lemma resolve_impl_plain: "plain_types c \<Longrightarrow> yields (\<lambda>_. True) (\<lambda>(i, c). plain_types c) (resolve_impl a c)"
  unfolding resolve_impl_def
  by (rule ends_bind, rule any_yields, rule returns_if, rule ends_bind, rule any_yields) (auto intro!: returns_Inr plain_types_put)

lemma resolve_field_plain: "preserves plain_types (resolve_field a d f)"
  unfolding resolve_field_def
  by (rule passes_inI, rule ends_bind, rule any_yields, rule returns_if, simp add: returns_Inl, erule find_real_type_bind)
    (simp add: returns_Inr)

lemma resolve_variant_plain: "preserves plain_types (resolve_variant d v)"
  unfolding resolve_variant_def by (rule passes_inI) (auto intro!: ends_bind any_yields returns_Inr)

lemma resolve_type_decl_plain: "preserves plain_types (resolve_type_decl a p)"
  unfolding resolve_type_decl_def
  by (rule passes_inI, cases "snd p")
    (auto intro!: ends_bind [OF any_yields] passes_inD [OF passes_in_foldr] resolve_field_plain resolve_variant_plain)

lemma resolve_param_plain: "preserves plain_types (resolve_param a d p)"
  unfolding resolve_param_def
  by (rule passes_inI, erule find_real_type_bind, rule deref_fn_bind, assumption) (simp add: returns_Inr plain_types_put fn_plain_add)

lemma resolve_return_plain: "preserves plain_types (resolve_return a d rt)"
proof (rule passes_inI)
  fix c assume c: "plain_types c"
  have rest: "yields (\<lambda>_. True) plain_types (bindr (deref (fn_decls e) d) (\<lambda>fd. Inr (put_fn d (fd\<lparr>return_type := Some t\<rparr>) e)))"
    if "plain t" "plain_types e" for t e
    by (rule deref_fn_bind [OF that(2)]) (simp add: returns_Inr plain_types_put fn_plain_add that)
  show "yields (\<lambda>_. True) plain_types (resolve_return a d rt c)"
  proof (cases rt)
    case None
    then show ?thesis using rest c by (simp add: resolve_return_def)
  next
    case (Some t)
    then show ?thesis unfolding resolve_return_def option.case by (auto intro!: find_real_type_bind c rest)
  qed
qed

lemma resolve_fn_plain: "preserves plain_types (resolve_fn a d)"
proof (rule passes_inI)
  fix c assume c: "plain_types c"
  have "preserves plain_types (\<lambda>c. bindr (foldr_res (resolve_param a d) ps c) (\<lambda>c. bindr (resolve_return a d rt c) (\<lambda>c.
      Inr (c\<lparr>fn_item_to_decl_map := (fn_item_to_decl_map c)(k \<mapsto> d)\<rparr>))))" for ps rt k
    by (intro passes_in_bind passes_in_foldr resolve_param_plain resolve_return_plain) (simp add: passes_in_def returns_Inr)
  from passes_inD [OF this c] show "yields (\<lambda>_. True) plain_types (resolve_fn a d c)"
    unfolding resolve_fn_def
    by (rule_tac ends_bind [OF any_yields]) (auto simp: returns_Inl split: option.split item.split)
qed

lemma resolve_value_decl_plain: "preserves plain_types (resolve_value_decl a p)"
  unfolding resolve_value_decl_def
  by (rule passes_inI, cases "snd p")
    (auto intro!: passes_inD [OF resolve_fn_plain] ends_bind [OF any_yields, of "deref m k" for m k] find_real_type_bind returns_Inr)

lemma add_member_plain: "preserves plain_types (add_member sa p)"
  unfolding add_member_def Let_def
  by (rule passes_inI, rule ends_bind, rule any_yields, rule returns_if, simp add: returns_Inl, cases "snd p")
    (auto intro!: deref_fn_bind returns_Inr plain_types_put fn_plain_add)

lemma mark_main_plain: "preserves plain_types (mark_main d)"
  unfolding mark_main_def
  by (rule passes_inI, rule deref_fn_bind, assumption, rule ends_bind, rule any_yields, rule ends_bind, rule any_yields)
    (auto intro!: returns_Inr plain_types_put fn_plain_add dest: plain_scope)

lemma check_free_fn_plain: "preserves (\<lambda>(b, c). plain_types c) (check_free_fn k p)"
proof (rule passes_inI, clarify)
  fix b c assume c: "plain_types c"
  have "yields (\<lambda>_. True) (\<lambda>(b, c). plain_types c) (bindr (mark_main d c) (\<lambda>c. Inr (True, c)))" for d
    by (rule returns_bind [OF passes_inD [OF mark_main_plain c]]) (simp add: returns_Inr)
  then show "yields (\<lambda>_. True) (\<lambda>(b, c). plain_types c) (check_free_fn k p (b, c))"
    unfolding check_free_fn_def using c
    by (cases "snd p") (auto intro!: ends_bind [OF any_yields] returns_Inr returns_Inl)
qed

lemma check_members_plain: "preserves plain_types (check_members a impl)"
  unfolding check_members_def
  by (rule passes_inI, rule ends_bind, rule any_yields, rule returns_if, rule ends_bind, rule any_yields,
      erule passes_inD [OF passes_in_foldr, OF add_member_plain], rule returns_bind_pair,
      rule passes_inD [OF passes_in_foldr, OF check_free_fn_plain])
    (auto intro!: returns_Inr returns_Inl)

lemma resolve_scope_plain: "preserves plain_types (resolve_scope a)"
  unfolding resolve_scope_def
  by (rule passes_inI, rule returns_bind_pair, erule resolve_impl_plain, rule ends_bind, rule any_yields,
      rule returns_bind, erule passes_inD [OF passes_in_foldr, OF resolve_type_decl_plain],
      rule returns_bind, erule passes_inD [OF passes_in_foldr, OF resolve_value_decl_plain],
      erule passes_inD [OF check_members_plain])

lemma Scope_dfs_plain: "preserves plain_types (Scope_dfs_and_build_type n a)"
proof (induction n arbitrary: a)
  case (Suc n)
  then show ?case
    by - (rule passes_inI, simp, rule returns_bind, erule passes_inD [OF resolve_scope_plain], rule ends_bind, rule any_yields,
        erule passes_inD [OF passes_in_foldr, rotated])
qed (simp add: passes_in_def returns_Inl)

lemma step2_plain: "plain_types c \<Longrightarrow> step2_resolve_types_and_check c = Inr d \<Longrightarrow> plain_types d"
  unfolding step2_resolve_types_and_check_def by (erule returnsD [OF passes_inD [OF Scope_dfs_plain]])

end
