(* ===== verification/CheckerEnds.thy ===== *)
theory CheckerEnds
  imports ValueEnds PlainTypes ResolveTree
begin

section \<open>The semantic check ends\<close>

text \<open>
  No step of the checker is cut off by its fuel. The first two steps leave a tree of scopes
  (\<open>step2_resolves\<close>); the later steps keep what the lookups along the scopes, the walk over the
  scopes, the lowering of types and the layout of structures rely on.
\<close>

definition searchable :: "Semantic_Checker \<Rightarrow> bool" where
  "searchable c \<longleftrightarrow>
     0 < next_address c \<and> dom (struct_decls c) \<subseteq> {..<next_address c} \<and> root_scope c < next_address c
     \<and> (\<forall>a s. scopes c a = Some s \<longrightarrow>
          a < next_address c \<and> pred_option (\<lambda>p. p < a) (parent s) \<and> (\<forall>b \<in> set (children s). a < b \<and> b < next_address c))
     \<and> plain_types c"

lemma store_ok_searchable: "store_ok c \<Longrightarrow> plain_types c \<Longrightarrow> searchable c"
proof -
  assume ok: "store_ok c" and plain: "plain_types c"
  then have root: "root_scope c < next_address c" by (auto simp: store_ok_def scope_ok_def)
  have "a < b \<and> b < next_address c" if "scopes c a = Some s" "b \<in> set (children s)" for a s b
  proof -
    have "child_of c a b" using ok that by (auto simp: store_ok_def scope_ok_def)
    then obtain t where "scopes c b = Some t" "parent t = Some a" by (auto simp: child_of_def)
    then show ?thesis using ok by (auto simp: store_ok_def scope_ok_def)
  qed
  with ok root plain show ?thesis by (auto simp: searchable_def store_ok_def scope_ok_def option.pred_set)
qed

lemma search_scopes_returns:
  assumes parents: "\<And>a s. sc a = Some s \<Longrightarrow> pred_option (\<lambda>p. p < a) (parent s)"
    and bound: "sc a \<noteq> None \<Longrightarrow> a < n" and "0 < n"
  shows "ends (search_scopes n sc f (Some a))"
  using bound \<open>0 < n\<close>
proof (induction n arbitrary: a)
  case (Suc n)
  show ?case
  proof (cases "sc a")
    case None
    then show ?thesis by (simp add: deref_def returns_Inl)
  next
    case (Some s)
    have "ends (search_scopes n sc f (Some p))" if "parent s = Some p" for p
    proof -
      have "p < a" using parents [OF Some] that by simp
      moreover have "a < Suc n" using Suc.prems Some by simp
      ultimately show ?thesis using Suc.IH [of p] by linarith
    qed
    then have "ends (search_scopes n sc f (parent s))" by (cases "parent s") (auto intro!: returns_Inr)
    then show ?thesis using Some by (auto intro!: pure_rules)
  qed
qed simp

lemma search_returns: "searchable c \<Longrightarrow> ends (search c f a)"
proof (cases a)
  case (Some p)
  assume "searchable c"
  then have "ends (search_scopes (next_address c) (scopes c) f (Some p))"
    by (intro search_scopes_returns) (auto simp: searchable_def)
  then show ?thesis by (simp add: search_def Some)
qed (simp add: search_def returns_Inr)

text \<open>What the later steps change.\<close>

lemma searchable_same [simp]:
  "searchable (c\<lparr>const_expr_queue := m2\<rparr>) = searchable c"
  "searchable (c\<lparr>const_expr_to_size_map := m3\<rparr>) = searchable c"
  "searchable (c\<lparr>const_value_map := m4\<rparr>) = searchable c"
  "searchable (c\<lparr>checker_outcome_map := m5\<rparr>) = searchable c"
  "searchable (c\<lparr>node_type_and_place_kind_map := m6\<rparr>) = searchable c"
  "searchable (c\<lparr>identifier_expr_to_decl_map := m7\<rparr>) = searchable c"
  "searchable (c\<lparr>call_expr_to_decl_map := m8\<rparr>) = searchable c"
  "searchable (c\<lparr>let_stmt_to_decl_map := m9\<rparr>) = searchable c"
  "searchable (c\<lparr>let_decls := m10\<rparr>) = searchable c"
  "searchable (c\<lparr>scope_local_variable_map := m11\<rparr>) = searchable c"
  "searchable (c\<lparr>const_decls := m13\<rparr>) = searchable c"
  "searchable (c\<lparr>builtin_method_funcs := m14\<rparr>) = searchable c"
  "searchable (c\<lparr>builtin_associated_funcs := m15\<rparr>) = searchable c"
  "searchable (queue_expr e c) = searchable c"
  "searchable (set_size_of k n c) = searchable c"
  by (simp_all add: searchable_def plain_types_def queue_expr_def set_size_of_def)

lemma searchable_alloc: "searchable c \<Longrightarrow> alloc c = (d, c') \<Longrightarrow> searchable c'"
  by (fastforce simp: searchable_def alloc_def)

lemma searchable_plain: "searchable c \<Longrightarrow> plain_types c"
  by (simp add: searchable_def)

lemma searchable_put:
  "searchable c \<Longrightarrow> fn_plain fd \<Longrightarrow> searchable (put_fn d fd c)"
  "searchable c \<Longrightarrow> plain t \<Longrightarrow> searchable (set_type k t c)"
  using plain_types_put [of c] by (simp_all add: searchable_def put_fn_def set_type_def)

lemma searchable_put_scope:
  assumes c: "searchable c" and s: "scopes c a = Some s"
    and t: "parent t = parent s" "children t = children s" "self_struct t = self_struct s"
  shows "searchable (put_scope a t c)"
proof -
  have "pred_option plain (self_struct s)" using plain_scope [OF searchable_plain [OF c] deref_Some [of "scopes c", OF s]] .
  then have "plain_types (put_scope a t c)" using searchable_plain [OF c] t by (simp add: plain_types_put)
  then show ?thesis using c s t by (auto simp: searchable_def put_scope_def)
qed

subsection \<open>Built-in functions\<close>

lemma add_root_fn_passes: "fn_plain fd \<Longrightarrow> passes searchable (add_root_fn fd)"
proof (rule passes_inI)
  fix c assume "fn_plain fd" "searchable c"
  then have c: "searchable (put_fn (fst (alloc c)) fd (snd (alloc c)))"
    by (simp add: searchable_put searchable_alloc [OF _ prod.collapse [symmetric]])
  show "returns searchable (add_root_fn fd c)"
    unfolding add_root_fn_def Let_def case_prod_unfold define_name_def deref_def
    using c by (auto intro!: pure_rules searchable_put_scope split: option.split)
qed

lemma searchable_add_method:
  "searchable c \<Longrightarrow> fn_plain fd \<Longrightarrow> plain self \<Longrightarrow> searchable (add_method k name self fd c)"
  by (auto simp: add_method_def Let_def fn_plain_def split: prod.split intro!: searchable_put intro: searchable_alloc)

lemma searchable_add_associated: "searchable c \<Longrightarrow> fn_plain fd \<Longrightarrow> searchable (add_associated k name fd c)"
  by (auto simp: add_associated_def Let_def split: prod.split intro!: searchable_put intro: searchable_alloc)

lemma builtin_fn_plain: "list_all (\<lambda>p. plain (snd p)) ps \<Longrightarrow> plain t \<Longrightarrow> fn_plain (builtin_fn name r ps t)"
  by (auto simp: builtin_fn_def fn_plain_def new_fn_decl_def str_param_def list_all_iff)

lemma fn_plain_flags [simp]:
  "fn_plain (fd\<lparr>is_exit := b\<rparr>) = fn_plain fd" "fn_plain (fd\<lparr>is_array_len := b\<rparr>) = fn_plain fd"
  "fn_plain (fd\<lparr>parameter_let_decls := ds\<rparr>) = fn_plain fd"
  by (simp_all add: fn_plain_def)

lemma add_builtins_passes: "passes searchable add_builtin_methods_and_associated_funcs"
proof (rule passes_inI)
  fix c assume "searchable c"
  moreover have "fn_plain fd" if "fd \<in> set root_fns" for fd using that by (auto simp: root_fns_def builtin_fn_plain)
  ultimately have "returns searchable (foldr_res add_root_fn root_fns c)"
    by (intro passes_inD [OF passes_in_foldr] add_root_fn_passes)
  then show "returns searchable (add_builtin_methods_and_associated_funcs c)"
    unfolding add_builtin_methods_and_associated_funcs_def
    by (rule returns_bind)
      (simp add: add_builtin_methods_def Let_def returns_Inr searchable_add_method searchable_add_associated builtin_fn_plain
        to_string_fn_def)
qed

subsection \<open>The third step\<close>

abbreviation resolves_type :: "(RealType \<times> Semantic_Checker) res \<Rightarrow> bool" where
  "resolves_type \<equiv> returns (\<lambda>(t, c). plain t \<and> searchable c)"

lemma memo_type_returns:
  assumes f: "resolves_type (f c)" and c: "searchable c"
  shows "resolves_type (memo_type k f c)"
proof (cases "type_map c k")
  case None
  have "resolves_type (bindr (f c) (\<lambda>(t, c). Inr (t, set_type k t c)))"
    using f by (rule returns_bind) (auto intro!: returns_Inr searchable_put)
  then show ?thesis using None by (simp add: memo_type_def)
next
  case (Some u)
  have "pred_option plain (type_map c k)" using searchable_plain [OF c] unfolding plain_types_def by blast
  then show ?thesis using Some c by (simp add: memo_type_def returns_Inr)
qed

lemma ends_plain: "ends r \<Longrightarrow> yields (\<lambda>_. True) P r \<Longrightarrow> returns P r"
  by (auto simp: yields_def split: sum.splits)

lemma find_path_type_returns: "searchable c \<Longrightarrow> returns plain (find_path_type c sc r name)"
proof (rule ends_plain [OF _ find_path_type_plain])
  have "ends (builtin_type r name)" unfolding builtin_type_def by (intro pure_rules) simp_all
  then show "searchable c \<Longrightarrow> ends (find_path_type c sc r name)" unfolding find_path_type_def
    by (intro pure_rules search_returns) (simp_all add: returns_Inr split: TypeDecl.split)
qed

lemma find_self_type_returns: "searchable c \<Longrightarrow> returns plain (find_self_type c sc)"
proof (rule ends_plain [OF _ find_self_type_plain])
  show "searchable c \<Longrightarrow> ends (find_self_type c sc)"
    unfolding find_self_type_def by (intro pure_rules search_returns) simp_all
qed (rule searchable_plain)

lemma find_real_type_returns: "searchable c \<Longrightarrow> resolves_type (find_real_type sc t c)"
proof (induction sc t arbitrary: c rule: find_real_type.induct)
  case (1 sc' k r name)
  have "resolves_type (bindr (find_path_type c sc' r name) (\<lambda>t. Inr (t, c)))"
    by (rule returns_bind, rule find_path_type_returns) (simp_all add: returns_Inr 1)
  then show ?case using 1 by (simp add: memo_type_returns)
next
  case (2 sc' k r t e)
  have "resolves_type (bindr (find_real_type sc' t c) (\<lambda>(t, c). Inr (ArrayRealType r t (Some e) 0, queue_expr e c)))"
    by (rule returns_bind, rule 2(1), rule 2(2)) (auto simp: returns_Inr)
  then show ?case using 2(2) by (simp add: memo_type_returns)
next
  case (3 sc' k r)
  then show ?case by (simp add: memo_type_returns returns_Inr)
next
  case (4 sc' k r)
  have "resolves_type (bindr (find_self_type c sc') (\<lambda>t. Inr (t, c)))"
    by (rule returns_bind, rule find_self_type_returns, rule 4) (simp add: returns_Inr 4)
  then show ?case using 4 by (simp add: memo_type_returns)
qed

lemma resolve_node_passes: "passes searchable (resolve_node k t)"
  unfolding resolve_node_def
  by (rule passes_inI, rule returns_bind, erule find_real_type_returns) (auto intro!: returns_Inr)

lemma other_passes:
  shows "passes searchable (other_type t)"
  and "passes searchable (other_expr e)"
  and "passes searchable (other_stmt s)"
  and "passes searchable (other_item i)"
proof (induction t and e and s and i rule: type_node.induct expr.induct stmt.induct item.induct)
  case (RepeatArrayExpr k e s)
  have "passes searchable (\<lambda>c. bindr (other_expr e (queue_expr s c)) (other_expr s))"
    by (rule passes_in_bind [OF passes_in_pre]) (simp_all add: RepeatArrayExpr)
  then show ?case by (rule passes_in_eta [rotated]) simp
qed (assumption | (rule passes_in_eta, rule other_type.simps other_expr.simps other_stmt.simps other_item.simps)
    | rule passes_in_bind passes_in_all passes_in_opt passes_in_Inr resolve_node_passes | (auto; fail))+

text \<open>The visitor of constant items.\<close>

abbreviation const_ok :: "const_visitor \<Rightarrow> bool" where
  "const_ok st \<equiv> searchable (sem st)"

lemma find_const_decl_ends: "searchable c \<Longrightarrow> ends (find_const_decl c a name)"
  unfolding find_const_decl_def by (intro pure_rules search_returns) simp_all

lemma const_of_name_ends: "searchable c \<Longrightarrow> ends (const_of_name c k name)"
  unfolding const_of_name_def by (intro pure_rules find_const_decl_ends) simp_all

lemma give_returns: "const_ok st \<Longrightarrow> returns const_ok (give v st)"
  by (simp add: give_def returns_Inr)

lemma calc_returns: "passes const_ok f \<Longrightarrow> const_ok st \<Longrightarrow> returns (\<lambda>(v, st). const_ok st) (calc f st)"
  unfolding calc_def
  by (rule returns_bind, erule passes_inD, simp add: need_def, rule ends_bind, rule the_ptr_ends) (simp add: returns_Inr)

lemma calc_all_returns:
  "(\<And>f. f \<in> set fs \<Longrightarrow> passes const_ok f) \<Longrightarrow> const_ok st \<Longrightarrow> returns (\<lambda>(v, st). const_ok st) (calc_all fs st)"
proof (induction fs arbitrary: st)
  case (Cons f fs)
  have "returns (\<lambda>(v, st). const_ok st) (calc f st)" using Cons.prems by (intro calc_returns) auto
  moreover have "returns (\<lambda>(v, st). const_ok st) (calc_all fs st)" if "const_ok st" for st
    using Cons that by auto
  ultimately show ?case by (auto intro!: returns_bind_pair [where P = const_ok] simp: returns_Inr)
qed (simp add: returns_Inr)

lemma forbid_passes: "passes const_ok f \<Longrightarrow> passes const_ok (forbid what f)"
  by (auto simp: forbid_def returns_Inl intro!: passes_inI dest: passes_inD)

lemma index_const_ends: "ends (index_const v i)"
  unfolding index_const_def by (cases v) (auto intro!: pure_rules returns_intros)

lemma repeat_const_ends: "ends (repeat_const v n)"
  unfolding repeat_const_def by (intro pure_rules returns_intros) simp

lemma cast_to_type_of_returns: "searchable c \<Longrightarrow> returns (\<lambda>(v, c). searchable c) (cast_to_type_of k v c)"
  unfolding cast_to_type_of_def
  by (rule ends_bind, rule the_ptr_ends, rule ends_bind, rule const_cast_ends) (simp add: returns_Inr split: prod.split)

lemma store_const_passes: "passes const_ok (store_const name k d)"
  unfolding store_const_def
  by (rule passes_inI, rule returns_option, rule returns_Inl, simp, rule returns_bind_pair, erule cast_to_type_of_returns)
    (simp add: returns_Inr)

lemma const_item_passes: "passes const_ok f \<Longrightarrow> passes const_ok g \<Longrightarrow> passes const_ok (const_item k name t f g)"
  unfolding const_item_def
  by (rule passes_inI, rule returns_bind, erule passes_inD, simp add: need_def, rule ends_bind, erule find_const_decl_ends,
      rule returns_option, simp add: returns_Inl, rule returns_bind, erule passes_inD, simp add: need_def)
    (erule passes_inD [OF store_const_passes])

lemma const_param_passes: "passes const_ok (snd p) \<Longrightarrow> passes const_ok (const_param p)"
  unfolding const_param_def const_pattern_def
  by (rule passes_in_bind) (auto intro: forbid_passes passes_in_Inr)

lemma passes_flag: "passes const_ok (\<lambda>st. Inr (st\<lparr>is_need_to_calculate := b\<rparr>))"
  by (simp add: passes_inI returns_Inr)

lemma passes_if: "passes P f \<Longrightarrow> passes P g \<Longrightarrow> passes P (\<lambda>st. if b st then f st else g st)"
  by (simp add: passes_in_def)

lemma passes_calc:
  "passes const_ok f \<Longrightarrow> (\<And>v. passes const_ok (g v)) \<Longrightarrow> passes const_ok (\<lambda>st. bindr (calc f st) (\<lambda>(v, st). g v st))"
  by (rule passes_inI, rule returns_bind_pair, erule (1) calc_returns) (auto dest: passes_inD)

lemma passes_calc_all:
  "(\<And>f. f \<in> set fs \<Longrightarrow> passes const_ok f) \<Longrightarrow> (\<And>v. passes const_ok (g v)) \<Longrightarrow>
    passes const_ok (\<lambda>st. bindr (calc_all fs st) (\<lambda>(v, st). g v st))"
  by (rule passes_inI, rule returns_bind_pair, erule calc_all_returns) (auto dest: passes_inD)

lemma give_passes: "passes const_ok (give v)"
  by (simp add: passes_in_def give_returns)

lemma passes_give: "ends r \<Longrightarrow> passes const_ok (\<lambda>st. bindr r (\<lambda>v. give v st))"
  by (rule passes_inI, erule ends_bind, erule give_returns)

lemma const_passes:
  shows "passes const_ok (const_visit_type t)"
  and "passes const_ok (const_visit_expr e)"
  and "passes const_ok (const_visit_stmt s)"
  and "passes const_ok (const_visit_item i)"
proof (induction t and e and s and i rule: type_node.induct expr.induct stmt.induct item.induct)
  case (IdentifierExpr k name)
  have "passes const_ok (\<lambda>st. bindr (const_of_name (sem st) k name) (\<lambda>v. give v st))"
    by (rule passes_inI, rule ends_bind, erule const_of_name_ends, erule give_returns)
  then show ?case by (simp add: passes_in_def returns_Inr)
next
  case (CastExpr k e t)
  have "passes const_ok (\<lambda>st. bindr (cast_to_type_of j v (sem st)) (\<lambda>(v, c). give v (st\<lparr>sem := c\<rparr>)))" for j v
    by (rule passes_inI, rule returns_bind_pair, erule cast_to_type_of_returns, rule give_returns) simp
  then show ?case
    by - (rule passes_in_eta, rule const_visit_expr.simps, rule passes_if, rule passes_calc, rule CastExpr, assumption,
        rule passes_in_bind, rule CastExpr, rule CastExpr)
next
  case (ArrayType k r t e)
  have "passes const_ok (\<lambda>st. bindr (calc_const_array_size v) (\<lambda>n.
      Inr (st\<lparr>is_need_to_calculate := False, sem := set_size_of j n (sem st)\<rparr>)))" for v j
    by (rule passes_inI, rule ends_bind, rule calc_size_ends, rule returns_Inr) simp
  then show ?case
    by - (rule passes_in_eta, rule const_visit_type.simps,
        (rule passes_if passes_in_bind passes_calc ArrayType | assumption)+)
next
  case (UnitExpr k)
  then show ?case by (auto intro!: passes_inI give_returns returns_Inr)
qed (assumption
    | (rule passes_in_eta, rule const_visit_type.simps const_visit_expr.simps const_visit_stmt.simps const_visit_item.simps)
    | rule forbid_passes const_item_passes passes_flag passes_if passes_calc passes_calc_all passes_give give_passes
        returns_intros index_const_ends repeat_const_ends passes_in_bind passes_in_all passes_in_opt passes_in_Inr
    | (auto intro!: const_param_passes simp: const_pattern_def passes_give [of "Inr v" for v, simplified]
        intro: forbid_passes passes_in_Inr; fail))+

lemma eval_queued_passes: "passes searchable (eval_queued e)"
proof (rule passes_inI)
  fix c assume c: "searchable c"
  have "returns const_ok (const_visit_expr e \<lparr>is_need_to_calculate = True, const_value = None, sem = c\<rparr>)"
    using c by (intro passes_inD [OF const_passes(2)]) simp
  then show "returns searchable (eval_queued e c)"
    unfolding eval_queued_def
    by - (rule returns_if, rule returns_bind, assumption, rule ends_bind, rule the_ptr_ends, rule ends_bind, rule calc_size_ends,
        simp_all add: returns_Inr c)
qed

lemma eval_consts_passes: "passes searchable (eval_consts items)"
proof (rule passes_inI)
  fix c assume c: "searchable c"
  have "returns const_ok (visit_all (map const_visit_item items) \<lparr>is_need_to_calculate = False, const_value = None, sem = c\<rparr>)"
    using c by (intro passes_inD [OF passes_in_all]) (auto intro: const_passes)
  then show "returns searchable (eval_consts items c)"
    unfolding eval_consts_def by (rule returns_bind) (simp add: returns_Inr)
qed

text \<open>The pass for the control flow has an error of its own only for misplaced jumps.\<close>

lemma passes_any: "passes (\<lambda>_. True) (\<lambda>s. Inr (f s))"
  by (simp add: passes_inI returns_Inr)

lemma passes_test: "passes (\<lambda>_. True) f \<Longrightarrow> e \<noteq> OutOfFuel \<Longrightarrow> passes (\<lambda>_. True) (\<lambda>s. if b s then Inl e else f s)"
  by (simp add: passes_in_def returns_Inl)

lemma visit_pattern_passes: "passes (\<lambda>_. True) (visit_pattern p)"
  by (cases p) (simp add: passes_in_def returns_Inr)

lemma visit_param_passes: "passes (\<lambda>_. True) (snd p) \<Longrightarrow> passes (\<lambda>_. True) (visit_param p)"
  unfolding visit_param_def by (rule passes_in_bind [OF visit_pattern_passes])

lemma flow_passes:
  shows "passes (\<lambda>_. True) (visit_type t)"
  and "passes (\<lambda>_. True) (visit_expr e)"
  and "passes (\<lambda>_. True) (visit_stmt s)"
  and "passes (\<lambda>_. True) (visit_item i)"
proof (induction t and e and s and i rule: type_node.induct expr.induct stmt.induct item.induct)
  case (FnItem k g n ps rt b)
  have "passes (\<lambda>_. True) (visit_all (map visit_param (map (map_prod id visit_type) ps)))"
    using FnItem(1) by (intro passes_in_all) (auto intro!: visit_param_passes)
  moreover have "passes (\<lambda>_. True) (visit_opt (map_option visit_type rt))"
    using FnItem(2) by (intro passes_in_opt) auto
  ultimately show ?case using FnItem(3) by (auto simp: passes_in_def intro!: ends_bind returns_Inr)
qed (assumption
    | (rule passes_in_eta, rule visit_type.simps visit_expr.simps visit_stmt.simps visit_item.simps)
    | rule passes_any passes_test passes_in_bind passes_in_all passes_in_opt visit_pattern_passes | (auto simp: Let_def intro!: passes_any; fail)
    | (rule passes_in_pre [where P = "\<lambda>_. True" and h = "\<lambda>st. st\<lparr>loop_depth := loop_depth st + 1\<rparr>"]))+

lemma control_flow_ends: "ends (control_flow items)"
  unfolding control_flow_def
  by (rule ends_bind, rule passes_inD [OF passes_in_all]) (auto intro: flow_passes returns_Inr)

lemma step3_passes: "passes searchable (step3_constant_evaluation_and_control_flow_analysis items)"
  unfolding step3_constant_evaluation_and_control_flow_analysis_def
proof (intro passes_in_bind passes_in_all eval_consts_passes)
  show "passes searchable f" if "f \<in> set (map other_item items)" for f using that other_passes(4) by auto
  show "passes searchable (\<lambda>c. foldr_res eval_queued (const_expr_queue c) c)"
    by (rule passes_inI, rule passes_inD [OF passes_in_foldr], rule eval_queued_passes)
  show "passes searchable (\<lambda>c. bindr (control_flow items) (\<lambda>outcomes. Inr (c\<lparr>checker_outcome_map := outcomes\<rparr>)))"
    by (rule passes_inI, rule ends_bind, rule control_flow_ends, rule returns_Inr) simp
qed

subsection \<open>The fourth step\<close>

lemma plain_fill_size [simp]: "plain (fill_size k n t) = plain t"
  by (induction t) simp_all

lemma plain_types_fill_sizes [simp]: "plain_types (fill_sizes k n c) = plain_types c"
proof -
  have "fn_plain (fd\<lparr>parameters := map (apsnd (fill_size k n)) (parameters fd),
      return_type := map_option (fill_size k n) (return_type fd)\<rparr>) = fn_plain fd" for fd
    by (simp add: fn_plain_def list_all_iff option.pred_map comp_def)
  then show ?thesis by (simp add: plain_types_def fill_sizes_def Let_def option.pred_map comp_def)
qed

lemma searchable_fill_sizes [simp]: "searchable (fill_sizes k n c) = searchable c"
proof -
  have "next_address (fill_sizes k n c) = next_address c" "dom (struct_decls (fill_sizes k n c)) = dom (struct_decls c)"
    "root_scope (fill_sizes k n c) = root_scope c" "scopes (fill_sizes k n c) = scopes c"
    by (simp_all add: fill_sizes_def Let_def dom_map_option_comp)
  then show ?thesis by (simp add: searchable_def)
qed

lemma set_array_size_passes: "passes searchable (set_array_size k e)"
  by (rule passes_inI) (auto simp: set_array_size_def returns_Inr returns_Inl split: option.split RealType.split)

lemma array_passes:
  shows "passes searchable (array_type t)"
  and "passes searchable (array_expr e)"
  and "passes searchable (array_stmt s)"
  and "passes searchable (array_item i)"
proof (induction t and e and s and i rule: type_node.induct expr.induct stmt.induct item.induct)
qed (assumption | (rule passes_in_eta, rule array_type.simps array_expr.simps array_stmt.simps array_item.simps)
    | rule passes_in_bind passes_in_all passes_in_opt passes_in_Inr set_array_size_passes | (auto; fail))+

text \<open>The visitor of expressions.\<close>

abbreviation check_ok :: "type_checker \<Rightarrow> bool" where
  "check_ok st \<equiv> searchable (ck st)"

lemma type_at_ends [returns_intros]: "ends (type_at st k)"
  unfolding type_at_def by (rule deref_ends)

lemma check_ok_typed [simp]: "check_ok (typed_as k t p st) = check_ok st"
  by (simp add: typed_as_def)

lemma no_function_passes: "passes check_ok f \<Longrightarrow> passes check_ok (no_function what f)"
  by (simp add: no_function_def passes_in_def returns_Inl)

lemma find_value_decl_ends: "searchable c \<Longrightarrow> ends (find_value_decl c a name)"
  unfolding find_value_decl_def by (rule search_returns)

lemma identifier_type_ends [returns_intros]: "ends (identifier_type b c name d)"
  unfolding identifier_type_def by (cases d) (auto intro!: pure_rules returns_intros)

lemma binary_type_ends [returns_intros]: "ends (binary_type OP t p u)"
  unfolding binary_type_def op_requires_def mutable_place_def by (intro pure_rules returns_intros) simp_all

lemma unary_type_ends [returns_intros]: "ends (unary_type OP t p)"
  unfolding unary_type_def by (cases OP) (auto intro!: pure_rules)

lemma check_receiver_ends [returns_intros]: "ends (check_receiver r t p name)"
  unfolding check_receiver_def by (cases r) (auto intro!: pure_rules)

lemma get_method_func_ends [returns_intros]: "ends (get_method_func c t p name)"
  unfolding get_method_func_def by (intro pure_rules returns_intros) simp_all

lemma get_associated_func_ends [returns_intros]: "ends (get_associated_func c t name)"
  unfolding get_associated_func_def by (intro pure_rules returns_intros) simp_all

lemma check_args_ends [returns_intros]: "ends (check_args ps ts args)"
proof -
  have "passes (\<lambda>_. True) (foldr_res (\<lambda>((p, target), (t, _), arg) _. check_let_stmt p target t arg) xs)" for xs
    by (rule passes_in_foldr) (auto simp: passes_in_def intro: check_let_stmt_ends)
  then show ?thesis unfolding check_args_def by (auto intro!: pure_rules dest: passes_inD)
qed

lemma field_type_ends [returns_intros]: "ends (field_type c t name)"
  unfolding field_type_def by (intro pure_rules returns_intros) simp_all

lemma path_type_ends [returns_intros]: "ends (path_type c t name)"
  unfolding path_type_def by (cases t) (auto intro!: pure_rules returns_intros)

lemma check_struct_field_ends [returns_intros]: "ends (check_struct_field c name fs f)"
  unfolding check_struct_field_def by (intro pure_rules returns_intros) simp_all

lemma check_struct_fields_ends [returns_intros]: "ends (foldr_res (\<lambda>f _. check_struct_field c name sfs f) fs ())"
  by (rule passes_inD [OF passes_in_foldr]) (auto simp: passes_in_def intro: check_struct_field_ends)

lemma check_literal_index_ends [returns_intros]: "ends (check_literal_index e n)"
proof (cases e)
  case (LiteralExpr k t v)
  then show ?thesis by (cases t) (auto simp: check_literal_index_def intro!: pure_rules returns_intros)
qed (auto simp: check_literal_index_def intro: returns_Inr)

lemma block_type_ends [returns_intros]: "ends (block_type k t st)"
  unfolding block_type_def by (intro pure_rules returns_intros) simp_all

lemma bool_condition_ends [returns_intros]: "ends (bool_condition what g st)"
  unfolding bool_condition_def by (intro pure_rules returns_intros) simp_all

lemma jump_type_ends [returns_intros]: "ends (jump_type v st)"
  unfolding jump_type_def by (intro pure_rules returns_intros) simp_all

lemma find_fn_decl_ends [returns_intros]: "ends (find_fn_decl k name c)"
  unfolding find_fn_decl_def by (intro pure_rules returns_intros) (auto intro!: pure_rules split: ValueDecl.split)

lemma check_identifier_passes: "passes check_ok (check_identifier k name)"
  unfolding check_identifier_def
  by (rule passes_inI, rule ends_bind, erule find_value_decl_ends) (auto intro!: pure_rules returns_intros)

lemma finish_passes:
  "passes check_ok (finish_binary k OP l r)"
  "passes check_ok (finish_unary k UOP r)"
  "passes check_ok (finish_if k g a el)"
  "passes check_ok (finish_cast k e ty)"
  "passes check_ok (check_block_type k sc tail must)"
  "passes check_ok (check_continue k)"
  "passes check_ok (check_path k b name)"
  "passes check_ok (finish_struct k ty fs)"
  "passes check_ok (check_self k)"
  "passes check_ok (finish_loop k)"
  by (rule passes_inI; unfold finish_binary_def finish_unary_def finish_if_def finish_cast_def check_block_type_def
        check_continue_def check_path_def finish_struct_def check_self_def finish_loop_def;
      auto intro!: pure_rules returns_intros split: RealType.split fn_reciever_type.split)+

lemma finish_index_passes: "passes check_ok (finish_index k b i)"
  unfolding finish_index_def
  by (rule passes_inI, (rule ends_bind, rule type_at_ends, rule returns_pair)+, rule returns_if, simp add: returns_Inl)
    (split RealType.split, auto intro!: pure_rules returns_intros)

lemma finish_while_passes: "passes check_ok (finish_while k g)"
  unfolding finish_while_def
  by (rule passes_inI, rule ends_bind, rule bool_condition_ends, erule passes_inD [OF finish_passes(10)])

lemma finish_array_passes: "passes check_ok (finish_array k es)"
proof (rule passes_inI)
  fix st assume "check_ok st"
  moreover have "ends (foldr_res (\<lambda>e t. bindr (type_at st e) (\<lambda>(u, _). type_merge False t u)) es (NeverRealType NO_REF))"
    by (rule passes_inD [OF passes_in_foldr]) (auto simp: passes_in_def intro!: pure_rules returns_intros)
  ultimately show "returns check_ok (finish_array k es st)" unfolding finish_array_def by (auto intro!: pure_rules)
qed

lemma finish_repeat_passes: "passes check_ok (finish_repeat k e n)"
  unfolding finish_repeat_def
  by (rule passes_inI) (auto intro!: pure_rules returns_intros)

lemma visit_args_returns:
  "(\<And>f. f \<in> set fs \<Longrightarrow> passes check_ok (snd f)) \<Longrightarrow> check_ok st \<Longrightarrow> returns (\<lambda>(ts, st). check_ok st) (visit_args fs st)"
proof (induction fs arbitrary: st)
  case (Cons f fs)
  have "returns check_ok (snd f st)" using passes_inD [OF Cons.prems(1) [of f]] Cons.prems(2) by simp
  moreover have "returns (\<lambda>(ts, st). check_ok st) (visit_args fs st)" if "check_ok st" for st
    using Cons that by auto
  ultimately show ?case
    by (auto intro!: returns_bind [where P = check_ok] ends_bind [OF type_at_ends] returns_bind_pair [where P = check_ok] simp: returns_Inr)
qed (simp add: returns_Inr)

lemma note_exit_passes: "passes check_ok note_exit"
  unfolding note_exit_def
  by (rule passes_inI) (auto intro!: pure_rules returns_intros searchable_put_scope simp: deref_def split: option.splits)

lemma finish_call_passes: "passes check_ok (finish_call k args callee ts)"
proof -
  have "returns check_ok (if b then note_exit st else Inr st)" if "check_ok st" for b st
    using that by (auto intro: passes_inD [OF note_exit_passes] returns_Inr)
  then show ?thesis unfolding finish_call_def
    by (auto intro!: passes_inI pure_rules(2, 6) ends_bind [OF deref_ends] ends_bind [OF check_args_ends] returns_bind [where P = check_ok]
        ends_bind [OF the_ptr_ends] returns_Inr)
qed

lemma check_call_passes:
  "passes check_ok f \<Longrightarrow> (\<And>g. g \<in> set fs \<Longrightarrow> passes check_ok g) \<Longrightarrow> passes check_ok (check_call k callee args f fs)"
  unfolding check_call_def Let_def
  by (rule passes_inI, rule returns_bind, erule passes_inD, simp, rule ends_bind, rule type_at_ends, rule returns_pair,
      rule returns_if, simp add: returns_Inl, rule returns_bind_pair, rule visit_args_returns)
    (auto dest: set_zip_rightD passes_inD [OF finish_call_passes])

lemma check_field_passes: "passes check_ok f \<Longrightarrow> passes check_ok (check_field k b name f)"
  unfolding check_field_def
  by (rule passes_inI, rule returns_bind, erule passes_inD, simp) (auto intro!: pure_rules returns_intros)

subsection \<open>Blocks, local variables and functions\<close>

lemma before_exit_passes: "passes check_ok f \<Longrightarrow> passes check_ok (before_exit a f)"
  unfolding before_exit_def
  by (rule passes_inI, rule ends_bind, rule deref_ends) (auto intro!: pure_rules dest: passes_inD)

lemma check_block_passes:
  assumes "\<And>f. f \<in> set fs \<Longrightarrow> passes check_ok f" and "\<And>f. g = Some f \<Longrightarrow> passes check_ok f"
  shows "passes check_ok (check_block k fs tail g must)"
proof -
  have "passes check_ok (\<lambda>st. bindr (visit_all (map (before_exit a) fs) st) (\<lambda>st.
      bindr (visit_opt (map_option (before_exit a) g) st) (check_block_type k a tail must)))" for a
    by (intro passes_in_bind passes_in_all passes_in_opt finish_passes) (auto intro: before_exit_passes assms)
  then show ?thesis unfolding check_block_def
    by (auto intro!: passes_inI ends_bind [OF the_ptr_ends] dest: passes_inD)
qed

lemma jump_passes:
  assumes "\<And>f. g = Some f \<Longrightarrow> passes check_ok f"
  shows "passes check_ok (check_return k v g)" and "passes check_ok (check_break k v g)"
proof -
  have g: "passes check_ok (visit_opt g)" using assms by (rule passes_in_opt)
  show "passes check_ok (check_return k v g)" unfolding check_return_def
    by (rule passes_inI, rule returns_if, simp add: returns_Inl, rule returns_bind, erule passes_inD [OF g])
      (auto intro!: pure_rules returns_intros)
  show "passes check_ok (check_break k v g)" unfolding check_break_def
    by (rule passes_inI, rule returns_if, simp add: returns_Inl, rule returns_bind, erule passes_inD [OF g])
      (auto intro!: pure_rules returns_intros)
qed

lemma intro_let_searchable: "searchable c \<Longrightarrow> intro_let_stmt a p t c = (d, c') \<Longrightarrow> searchable c'"
  by (auto simp: intro_let_stmt_def Let_def split: prod.splits intro: searchable_alloc)

lemma finish_let_passes: "passes check_ok (finish_let k p t e)"
  unfolding finish_let_def Let_def
  by (rule passes_inI, (rule ends_bind, rule returns_intros | rule returns_pair | rule returns_Inr)+)
    (auto dest: intro_let_searchable)

lemma check_let_passes: "(\<And>f. g = Some f \<Longrightarrow> passes check_ok f) \<Longrightarrow> passes check_ok (check_let k p t e g)"
  unfolding check_let_def
  by (rule passes_inI, rule returns_option, simp add: returns_Inl, rule returns_bind, erule passes_inD [OF passes_in_opt, rotated])
    (auto intro: passes_inD [OF finish_let_passes])

lemma intro_params_passes: "passes searchable (intro_params d)"
proof -
  have "passes searchable (intro_param d a p)" for a p
    unfolding intro_param_def Let_def
    by (rule passes_inI, rule returns_pair, rule ends_bind, rule deref_ends, rule returns_Inr, rule searchable_put)
      (auto dest: intro_let_searchable plain_fn [OF searchable_plain [OF intro_let_searchable]])
  then have fold: "passes searchable (foldr_res (intro_param d a) ps)" for a ps by (rule passes_in_foldr)
  show ?thesis unfolding intro_params_def
    by (auto intro!: passes_inI ends_bind [OF deref_ends] ends_bind [OF the_ptr_ends] returns_Inr passes_inD [OF fold])
qed

lemma check_fn_passes: "passes check_ok f \<Longrightarrow> passes check_ok (check_fn k name b f)"
  unfolding check_fn_def
  by (rule passes_inI, rule ends_bind, rule find_fn_decl_ends, rule returns_bind, erule passes_inD [OF intro_params_passes],
      rule returns_bind, erule passes_inD, simp)
    (auto intro!: pure_rules returns_intros)

lemma passes_push: "passes check_ok f \<Longrightarrow> passes check_ok (\<lambda>s. f (push_loop t s))"
  by (simp add: passes_in_def push_loop_def)

lemma check_passes:
  shows "t = (t :: type_node)"
  and "passes check_ok (check_expr e)"
  and "passes check_ok (check_stmt s)"
  and "passes check_ok (check_item i)"
proof (induction t and e and s and i rule: type_node.induct expr.induct stmt.induct item.induct)
qed (assumption | rule refl
    | (rule passes_in_eta, rule check_expr.simps check_stmt.simps check_item.simps)
    | rule no_function_passes check_identifier_passes finish_passes finish_index_passes finish_while_passes
        finish_array_passes finish_repeat_passes check_call_passes check_field_passes check_block_passes jump_passes
        check_let_passes check_fn_passes passes_push passes_in_bind passes_in_all passes_in_opt passes_in_Inr
    | (auto; fail) | (auto intro!: passes_inI pure_rules returns_intros; fail))+

subsection \<open>All steps\<close>

lemma step4_passes: "passes searchable (step4_expr_type_and_let_stmt_analysis items)"
  unfolding step4_expr_type_and_let_stmt_analysis_def
proof (intro passes_in_bind passes_in_all)
  show "passes searchable f" if "f \<in> set (map array_item items)" for f using that array_passes(4) by auto
  have "passes check_ok (visit_all (map check_item items))" using check_passes(4) by (intro passes_in_all) auto
  from passes_inD [OF this]
  show "passes searchable (\<lambda>c. bindr (visit_all (map check_item items)
         \<lparr>require_function = False, now_func_decl = None, loop_type_stack = [], ck = c\<rparr>) (\<lambda>st. Inr (ck st)))"
    by (intro passes_inI, rule returns_bind) (auto intro: returns_Inr)
qed

lemma run_checker_returns: "returns searchable (run_checker items)"
proof -
  let ?steps = "bindr (step1_build_scopes_and_collect_symbols items new_checker) step2_resolve_types_and_check"
  have "returns searchable ?steps"
  proof (cases "step1_build_scopes_and_collect_symbols items new_checker")
    case (Inl e)
    then show ?thesis using step1_cases [of items] by (auto simp: thrown_def returns_Inl)
  next
    case (Inr c)
    then show ?thesis using step2_cases [OF Inr]
      by (cases "step2_resolve_types_and_check c") (auto simp: thrown_def returns_Inl returns_Inr store_ok_searchable step2_plain [OF step1_plain [OF Inr]])
  qed
  moreover have "passes searchable (\<lambda>c. bindr (add_builtin_methods_and_associated_funcs c) (\<lambda>c.
      bindr (step3_constant_evaluation_and_control_flow_analysis items c) (step4_expr_type_and_let_stmt_analysis items)))"
    by (intro passes_in_bind add_builtins_passes step3_passes step4_passes)
  ultimately show ?thesis
    unfolding run_checker_def by (subst bindr_assoc [symmetric]) (auto intro: returns_bind dest: passes_inD)
qed

end
