(* ===== verification/BackEnds.thy ===== *)
theory BackEnds
  imports LoweringProps CheckerEnds
begin

section \<open>Lowering ends\<close>

text \<open>
  The lowering of types, the layout of structures and the walk over the tree of scopes are not cut
  off by their fuel: function types are not nested, a structure is not entered while its size is
  being computed, and a child scope is newer than its parent.
\<close>

lemma ends_then_act: "ends_act I m \<Longrightarrow> ends_act I k \<Longrightarrow> ends_act I (then_act m k)"
  by (rule ending_then)

lemma ends_bind_act: "ends_act I m \<Longrightarrow> (\<And>x. ends_act I (k x)) \<Longrightarrow> ends_act I (bind_act m k)"
  by (rule ending_bind)

lemma ends_bind_get: "(\<And>x. ending (\<lambda>s. I s \<and> f s = x) (k x) J) \<Longrightarrow> ending I (bind_act (get_act f) k) J"
  by (auto simp: ending_def bind_act_def get_act_def)

lemmas act_rules = ends_bind_act ends_then_act ends_ret ends_throw ends_get ends_guard ends_when ends_if ends_option ends_pair ends_list

named_theorems ends_intros \<open>actions of the back end that are not cut off by their fuel\<close>

subsection \<open>Types\<close>

lemma pointer_to_ends: "ends m \<Longrightarrow> ends (pointer_to r m)"
  unfolding pointer_to_def by (intro pure_rules) simp_all

lemma cached_struct_ends: "ends (cached_struct name message lw)"
  unfolding cached_struct_def by (intro pure_rules) simp_all

lemma lower_with_ends: "plain t \<or> (\<forall>d. ends (lf d)) \<Longrightarrow> ends (lower_with lf c lw t)"
proof (induction t)
  case (ArrayRealType r t e n)
  then have "ends (lower_with lf c lw t)" by simp
  then show ?case by (auto intro!: pointer_to_ends pure_rules)
qed (auto intro!: pointer_to_ends cached_struct_ends pure_rules deref_ends)

lemma plain_with_ref [simp]: "plain (with_ref r t) = plain t"
  by (cases t) simp_all

lemma plain_clone: "plain t \<Longrightarrow> plain (clone_with_ref t r)"
  by (cases t) (simp_all add: clone_with_ref_def strip_reference_def)

lemma self_type_plain: "fn_plain fd \<Longrightarrow> returns plain (self_type c fd)"
  unfolding self_type_def Let_def
  by (cases "fn_self_struct fd"; cases "builtin_method_self_type fd")
    (auto simp: fn_plain_def intro!: pure_rules deref_ends plain_clone)

lemma lower_function_with_ends:
  assumes "searchable c" and low: "\<And>t. plain t \<Longrightarrow> ends (low t)"
  shows "ends (lower_function_with low c d)"
  unfolding lower_function_with_def
proof (rule ends_bind [OF deref_ends])
  fix fd assume "deref (fn_decls c) d = Inr fd"
  then have fd: "fn_plain fd" using plain_fn searchable_plain assms(1) by blast
  have "ends (bindr (self_type c fd) (\<lambda>t. bindr (low t) (\<lambda>t. Inr [t])))"
    by (rule returns_bind, rule self_type_plain, rule fd, rule ends_bind, rule low) (simp_all add: returns_Inr)
  moreover have "ends (mapr (low \<circ> snd) (parameters fd))"
    using fd by (intro mapr_returns) (auto simp: fn_plain_def list_all_iff intro: low)
  moreover have "plain (return_real_type fd)" using fd by (auto simp: fn_plain_def return_real_type_def split: option.split)
  ultimately show "ends (bindr (if receiver_type fd = NO_RECEIVER then Inr []
            else bindr (self_type c fd) (\<lambda>t. bindr (low t) (\<lambda>t. Inr [t]))) (\<lambda>self.
     bindr (mapr (low \<circ> snd) (parameters fd)) (\<lambda>ps.
     bindr (low (return_real_type fd)) (\<lambda>ret.
       Inr (if is_main fd then FunctionType (IntegerType 32) (self @ ps)
            else if is_aggregate_return (return_real_type fd)
            then FunctionType VoidType (self @ ps @ [PointerType ret])
            else FunctionType ret (self @ ps))))))"
    by - (rule ends_bind, simp add: returns_Inr, rule ends_bind, assumption, rule ends_bind, erule low, rule returns_Inr, rule TrueI)
qed

lemma lower_upto_ends: "plain t \<Longrightarrow> ends (lower_upto n c lw t)"
  by (cases n) (simp_all add: lower_with_ends)

lemma lower_ends: "searchable c \<Longrightarrow> ends (lower c lw t)"
  unfolding lower_def numeral_2_eq_2 lower_upto.simps
  by (rule lower_with_ends) (auto intro: lower_function_with_ends lower_with_ends)

lemma lower_function_ends: "searchable c \<Longrightarrow> ends (lower_function c lw d)"
  unfolding lower_function_def by (intro lower_function_with_ends lower_ends)

lemma lower_const_ends: "ends (lower_const v t)"
  unfolding lower_const_def read_signed_def read_unsigned_def
  by (cases t; cases v) (auto intro!: pure_rules)

lemma emit_value_ends: "(\<And>t. ends (low t)) \<Longrightarrow> ends (emit_value low t b v)"
proof (induction t arbitrary: b v)
  case (ArrayRealType r t e n)
  then show ?case
    by (cases v) (auto simp: array_prefix_def intro!: pure_rules mapr_returns split: IRType.split)
qed (auto simp: emit_scalar_def intro!: pure_rules lower_const_ends)

subsection \<open>Sizes\<close>

text \<open>The type of a field of the built-in structures does not ask for another structure.\<close>

primrec flat :: "IRType \<Rightarrow> bool" where
  "flat VoidType = True"
| "flat (IntegerType n) = True"
| "flat (PointerType t) = True"
| "flat (IRArrayType t n) = flat t"
| "flat (IRStructType name) = False"
| "flat (FunctionType r ts) = True"

definition builtins_flat :: "(string \<rightharpoonup> IRType list) \<Rightarrow> bool" where
  "builtins_flat fs \<longleftrightarrow> pred_option (list_all flat) (fs ''Str'') \<and> pred_option (list_all flat) (fs ''String'')"

text \<open>The state of the lowering with these structures under way, the tables of structures as given.\<close>

definition layout_ok :: "string set \<Rightarrow> string set \<Rightarrow> string set \<Rightarrow> TypeLowering \<Rightarrow> bool" where
  "layout_ok B K P lw \<longleftrightarrow> struct_size_in_progress lw = B \<and> struct_cache lw = K \<and> pending_struct_defs lw = P"

lemma remember_layout [simp]: "layout_ok B K P (remember name totals lw) = layout_ok B K P lw"
  by (simp add: layout_ok_def remember_def)

lemma cached_or_ends: "ends_act I m \<Longrightarrow> ends_act I (cached_or cache name m)"
  unfolding cached_or_def by (intro act_rules)

lemma alignment_after_ends: "ends_act I m \<Longrightarrow> ends_act I (alignment_after message name m)"
  unfolding alignment_after_def by (intro act_rules cached_or_ends) simp_all

lemma size_of_flat: "flat t \<Longrightarrow> ends_act I (size_of_ir_type b t) \<and> ends_act I (alignment_of_ir_type b t)"
  by (induction t) (auto intro!: act_rules)

lemma place_ir_fields_ends: "list_all flat ts \<Longrightarrow> ends_act I (place_ir_fields b ts totals)"
proof (induction ts arbitrary: totals)
  case (Cons t ts)
  then have "ends_act I (place_ir_fields b ts totals)" for totals by simp
  with Cons.prems show ?case unfolding place_ir_fields.simps
    by (intro ends_bind_act) (simp_all add: size_of_flat)
qed (simp add: ends_ret)

lemma builtin_size_ends:
  assumes "builtins_flat (ir_fields m)" and "name = ''Str'' \<or> name = ''String''"
  shows "ends_act (layout_ok B K P) (builtin_size m name)"
proof -
  have "list_all flat (case ir_fields m name of Some ts \<Rightarrow> ts | None \<Rightarrow> [])"
    using assms by (auto simp: builtins_flat_def split: option.split)
  then show ?thesis unfolding builtin_size_def numeral_2_eq_2 size_of_builtin_struct.simps
    by (intro cached_or_ends act_rules place_ir_fields_ends) (auto intro!: ending_put)
qed

lemma builtin_alignment_ends:
  "builtins_flat (ir_fields m) \<Longrightarrow> name = ''Str'' \<or> name = ''String'' \<Longrightarrow>
    ends_act (layout_ok B K P) (builtin_alignment m name)"
  unfolding builtin_alignment_def by (intro alignment_after_ends builtin_size_ends)

lemma size_with_ref_ends: "ends_act I m \<Longrightarrow> ends_act I (size_with_ref r m)"
  unfolding size_with_ref_def by (intro act_rules)

text \<open>The names of the structures: there are no more of them than addresses.\<close>

definition struct_names :: "Semantic_Checker \<Rightarrow> string set" where
  "struct_names c = struct_name ` ran (struct_decls c)"

lemma struct_names_card:
  assumes "searchable c"
  shows "finite (struct_names c)" and "card (struct_names c) \<le> next_address c"
proof -
  have dom: "dom (struct_decls c) \<subseteq> {..<next_address c}" using assms by (simp add: searchable_def)
  have eq: "struct_names c = (struct_name \<circ> the \<circ> struct_decls c) ` dom (struct_decls c)"
    by (force simp: struct_names_def ran_def image_iff)
  have fin: "finite (dom (struct_decls c))" using dom finite_subset by blast
  then show "finite (struct_names c)" by (simp add: eq)
  have "card (struct_names c) \<le> card (dom (struct_decls c))" unfolding eq by (rule card_image_le [OF fin])
  also have "\<dots> \<le> next_address c" using card_mono [OF _ dom] by simp
  finally show "card (struct_names c) \<le> next_address c" .
qed

lemma struct_decl_bind:
  "(\<And>sd. struct_decls c a = Some sd \<Longrightarrow> ends_act I (k sd)) \<Longrightarrow> ends_act I (bind_act (lift_act (deref (struct_decls c) a)) k)"
  unfolding bind_act_def lift_act_def
  by (rule endingI) (auto simp: deref_def bindr.simps returns_Inl dest: endingD split: option.split)

lemma types_end:
  assumes m: "builtins_flat (ir_fields m)"
    and ss: "\<And>a sd. struct_decls c a = Some sd \<Longrightarrow> ends_act (layout_ok B K P) (ss (struct_name sd) a)"
  shows "ends_act (layout_ok B K P) (size_with ss c m t)" and "ends_act (layout_ok B K P) (align_with ss c m t)"
proof -
  show "ends_act (layout_ok B K P) (size_with ss c m t)"
    by (induction t) (auto intro!: size_with_ref_ends act_rules struct_decl_bind ss builtin_size_ends m)
  show "ends_act (layout_ok B K P) (align_with ss c m t)"
    by (induction t) (auto intro!: size_with_ref_ends act_rules struct_decl_bind ss builtin_alignment_ends alignment_after_ends m)
qed

lemma place_fields_ends:
  assumes "builtins_flat (ir_fields m)"
    and "\<And>a sd. struct_decls c a = Some sd \<Longrightarrow> ends_act (layout_ok B K P) (ss (struct_name sd) a)"
  shows "ends_act (layout_ok B K P) (place_fields ss c m sd fs totals)"
proof (induction fs arbitrary: totals)
  case (Cons f fs)
  then show ?case unfolding place_fields.simps
    by (intro act_rules types_end assms) simp_all
qed (simp add: ends_ret)

text \<open>Every structure that is entered is one more of the names under way.\<close>

lemma size_of_struct_ends:
  assumes c: "searchable c" and m: "builtins_flat (ir_fields m)"
  shows "card (struct_names c - B) < n \<Longrightarrow> struct_decls c a = Some sd \<Longrightarrow>
    ends_act (layout_ok B K P) (size_of_struct n c m (struct_name sd) a)"
proof (induction n arbitrary: B a sd)
  case (Suc n)
  let ?name = "struct_name sd"
  have name: "?name \<in> struct_names c" using Suc.prems(2) by (force simp: struct_names_def ran_def)
  have leave: "ending (layout_ok (insert ?name B) K P) (put_act (remember ?name totals \<circ> leave_struct ?name)) (\<lambda>_. layout_ok B K P)"
    if "?name \<notin> B" for totals
    using that by (intro ending_put) (auto simp: layout_ok_def leave_struct_def remember_def)
  have inner: "ends_act (layout_ok (insert ?name B) K P) (size_of_struct n c m (struct_name sd') a')"
    if "?name \<notin> B" "struct_decls c a' = Some sd'" for a' sd'
  proof (rule Suc.IH [OF _ that(2)])
    have "struct_names c - insert ?name B \<subset> struct_names c - B" using name that(1) by blast
    then have "card (struct_names c - insert ?name B) < card (struct_names c - B)"
      using struct_names_card(1) [OF c] by (simp add: psubset_card_mono)
    then show "card (struct_names c - insert ?name B) < n" using Suc.prems(1) by simp
  qed
  have start: "ending (\<lambda>s. layout_ok B K P s \<and> struct_size_in_progress s = busy) (then_act (put_act (enter_struct ?name)) w)
      (\<lambda>_. layout_ok B K P)"
    if w: "?name \<notin> B \<Longrightarrow> ending (layout_ok (insert ?name B) K P) w (\<lambda>_. layout_ok B K P)" and busy: "?name \<notin> busy"
    for w :: "(TypeLowering, nat) act" and busy
  proof (cases "busy = B")
    case True
    then show ?thesis using w busy
      by (intro ending_then [OF ending_put]) (auto simp: layout_ok_def enter_struct_def)
  qed (auto simp: ending_def layout_ok_def)
  show ?case unfolding size_of_struct.simps
    by (intro cached_or_ends ends_bind_get ends_if ends_throw start) 
      (simp_all, rule ending_bind [OF ends_lift [OF deref_ends]], rule ending_bind, rule place_fields_ends [OF m], rule inner,
        assumption, assumption, rule ending_then [OF leave ends_ret], assumption)
qed simp

lemma size_in_bytes_ends:
  assumes "searchable c" and "builtins_flat (ir_fields (snd s))" and "layout_ok {} K P (fst s)"
  shows "returns (\<lambda>(n, t). layout_ok {} K P (fst t) \<and> snd t = snd s) (size_in_bytes c t s)"
proof -
  have "ends_act (layout_ok {} K P) (size_with (size_of_struct (next_address c + 1) c (snd s)) c (snd s) t)"
    using struct_names_card [OF assms(1)] by (intro types_end(1) size_of_struct_ends assms) simp_all
  from endingD [OF this assms(3)] show ?thesis
    unfolding size_in_bytes_def bind_act_def get_act_def bindr.simps prod.case
    by (rule returns_bind) (auto intro: returns_Inr)
qed

subsection \<open>The tables and the module\<close>

definition lowering_inv :: "TypeLowering \<times> IRModule \<Rightarrow> bool" where
  "lowering_inv s \<longleftrightarrow>
     struct_size_in_progress (fst s) = {} \<and> {''Str'', ''String''} \<subseteq> struct_cache (fst s)
     \<and> {''Str'', ''String''} \<inter> pending_struct_defs (fst s) = {} \<and> builtins_flat (ir_fields (snd s))"

lemma size_ends [ends_intros]: "searchable c \<Longrightarrow> ends_act lowering_inv (size_in_bytes c t)"
proof (rule endingI)
  fix s assume c: "searchable c" and s: "lowering_inv s"
  have "returns (\<lambda>(n, t). layout_ok {} (struct_cache (fst s)) (pending_struct_defs (fst s)) (fst t) \<and> snd t = snd s)
      (size_in_bytes c t s)"
    using s by (intro size_in_bytes_ends c) (simp_all add: lowering_inv_def layout_ok_def)
  then show "returns (\<lambda>(n, t). lowering_inv t) (size_in_bytes c t s)"
    by (rule returns_mono) (use s in \<open>auto simp: lowering_inv_def layout_ok_def\<close>)
qed

lemma stub_ends [ends_intros]: "ends_act lowering_inv (declare_struct_stub sd)"
  unfolding declare_struct_stub_def
  by (intro act_rules ending_put) (auto simp: lowering_inv_def split: prod.split)

lemma set_fields_flat: "name \<noteq> ''Str'' \<Longrightarrow> name \<noteq> ''String'' \<Longrightarrow>
    builtins_flat (ir_fields (add_type_definition name ss (set_fields name ts m))) = builtins_flat (ir_fields m)"
  by (simp add: builtins_flat_def add_type_definition_def set_fields_def)

lemma define_ends [ends_intros]:
  assumes c: "searchable c"
  shows "ends_act lowering_inv (define_struct_fields c sd)"
proof -
  have fields: "ends (mapr (field_type_of c lw sd) fs)" for lw fs
    by (rule mapr_returns) (auto simp: field_type_of_def intro!: pure_rules lower_ends c)
  have put: "ending (\<lambda>s. lowering_inv s \<and> fst s = lw)
      (put_act (\<lambda>(lw, m). (lw\<lparr>pending_struct_defs := pending_struct_defs lw - {name}\<rparr>,
        add_type_definition name (map type_string ts) (set_fields name ts m)))) (\<lambda>_. lowering_inv)"
    if "name \<in> pending_struct_defs lw" for lw name ts
  proof -
    have "lowering_inv (lw\<lparr>pending_struct_defs := pending_struct_defs lw - {name}\<rparr>,
        add_type_definition name (map type_string ts) (set_fields name ts m))" if inv: "lowering_inv (lw, m)" for m
    proof -
      have "name \<noteq> ''Str''" "name \<noteq> ''String''" using inv \<open>name \<in> pending_struct_defs lw\<close> by (auto simp: lowering_inv_def)
      with inv show ?thesis by (auto simp: lowering_inv_def set_fields_flat)
    qed
    then show ?thesis by (intro ending_put) auto
  qed
  show ?thesis unfolding define_struct_fields_def Let_def
    by (rule ends_if, rule ends_throw, simp, rule ends_bind_get, rule ends_if, rule ends_throw, simp, rule ends_if, rule ends_throw,
        simp, rule ending_bind [OF ends_lift [OF fields]], rule put) simp
qed

definition back_inv :: "address \<Rightarrow> backend \<Rightarrow> bool" where
  "back_inv N w \<longleftrightarrow> next_address (sema w) = N \<and> searchable (sema w) \<and> lowering_inv (type_lowering w, ir_module (ir_builder w))"

abbreviation back_ends :: "address \<Rightarrow> (backend, 'a) act \<Rightarrow> bool" where
  "back_ends N \<equiv> ends_act (back_inv N)"

text \<open>What leaves the fields of the structures alone.\<close>

abbreviation module_ends :: "(IRModule, 'a) act \<Rightarrow> bool" where
  "module_ends m \<equiv> \<forall>F. ends_act (\<lambda>m. ir_fields m = F) m"

abbreviation builder_ends :: "(IRBuilder, 'a) act \<Rightarrow> bool" where
  "builder_ends m \<equiv> \<forall>F. ends_act (\<lambda>b. ir_fields (ir_module b) = F) m"

lemma in_builder_ends: "builder_ends m \<Longrightarrow> back_ends N (in_builder m)"
proof (rule endingI)
  fix w assume m: "builder_ends m" and w: "back_inv N w"
  let ?F = "ir_fields (ir_module (ir_builder w))"
  have "returns (\<lambda>(x, b). ir_fields (ir_module b) = ?F) (m (ir_builder w))"
    using endingD [OF m [THEN spec, of ?F]] by simp
  then show "returns (\<lambda>(x, w). back_inv N w) (in_builder m w)"
    unfolding in_builder_def
    by (rule returns_bind) (use w in \<open>auto intro!: returns_Inr simp: back_inv_def lowering_inv_def\<close>)
qed

lemma on_module_ends: "module_ends m \<Longrightarrow> builder_ends (on_module m)"
proof (intro allI endingI)
  fix F and b :: IRBuilder assume m: "module_ends m" and b: "ir_fields (ir_module b) = F"
  show "returns (\<lambda>(x, b). ir_fields (ir_module b) = F) (on_module m b)"
    unfolding on_module_def
    by (rule returns_bind [OF endingD [OF m [THEN spec, of F] b]]) (auto intro!: returns_Inr)
qed

lemma in_module_ends: "module_ends m \<Longrightarrow> back_ends N (in_module m)"
  unfolding in_module_def by (intro in_builder_ends on_module_ends)

lemma in_lowering_ends: "(\<And>c. searchable c \<Longrightarrow> ends_act lowering_inv (m c)) \<Longrightarrow> back_ends N (in_lowering m)"
proof (rule endingI)
  fix w assume m: "\<And>c. searchable c \<Longrightarrow> ends_act lowering_inv (m c)" and w: "back_inv N w"
  have "returns (\<lambda>(x, t). lowering_inv t) (m (sema w) (type_lowering w, ir_module (ir_builder w)))"
    using w by (intro endingD [OF m]) (simp_all add: back_inv_def)
  then show "returns (\<lambda>(x, w). back_inv N w) (in_lowering m w)"
    unfolding in_lowering_def
    by (rule returns_bind) (use w in \<open>auto intro!: returns_Inr simp: back_inv_def\<close>)
qed

lemma sem_act_ends: "(\<And>c. searchable c \<Longrightarrow> ends (f c)) \<Longrightarrow> back_ends N (sem_act f)"
  unfolding sem_act_def by (rule endingI, rule ends_bind) (auto simp: back_inv_def returns_Inr)

lemma lower_act_ends: "(\<And>c lw. searchable c \<Longrightarrow> ends (f c lw)) \<Longrightarrow> back_ends N (lower_act f)"
  unfolding lower_act_def by (rule endingI, rule ends_bind) (auto simp: back_inv_def returns_Inr)

lemma rename_const_searchable:
  "searchable c \<Longrightarrow> searchable (rename_const d name c) \<and> next_address (rename_const d name c) = next_address c"
  by (simp add: rename_const_def)

lemma rename_fn_searchable:
  "searchable c \<Longrightarrow> searchable (rename_fn d name c) \<and> next_address (rename_fn d name c) = next_address c"
proof -
  assume c: "searchable c"
  have "pred_option fn_plain (fn_decls c d)" using searchable_plain [OF c] by (simp add: plain_types_def)
  then have "pred_option fn_plain (map_option (\<lambda>fd. fd\<lparr>fn_name := name\<rparr>) (fn_decls c d))"
    by (cases "fn_decls c d") (simp_all add: fn_plain_def)
  then have "plain_types (rename_fn d name c)"
    using searchable_plain [OF c] by (simp add: plain_types_def rename_fn_def)
  then show ?thesis using c by (simp add: searchable_def rename_fn_def)
qed

lemma change_sema_ends: "(\<And>c. searchable c \<Longrightarrow> searchable (f c) \<and> next_address (f c) = next_address c) \<Longrightarrow> back_ends N (change_sema f)"
  unfolding change_sema_def by (rule ending_put) (simp add: back_inv_def)

subsection \<open>Global declarations\<close>

lemma create_global_ends: "module_ends (create_global name t init c l)"
  unfolding create_global_def by (intro allI endingI returns_if returns_Inl) (simp_all add: Let_def returns_Inr)

lemma emit_const_ends: "back_ends N (emit_const d suffix)"
proof -
  have "back_ends N (emit_array_const d cd t suffix)" for cd t
    unfolding emit_array_const_def Let_def
    by (intro act_rules sem_act_ends lower_act_ends lower_ends emit_value_ends change_sema_ends rename_const_searchable rename_fn_searchable in_module_ends
        create_global_ends pure_rules; simp split: IRType.split; intro conjI allI impI act_rules sem_act_ends lower_act_ends
        lower_ends emit_value_ends change_sema_ends rename_const_searchable rename_fn_searchable in_module_ends create_global_ends; simp)
  then show ?thesis unfolding emit_const_def
    by (intro act_rules sem_act_ends deref_ends; simp split: RealType.split; intro conjI allI impI; simp add: ends_ret)
qed

lemma function_ends:
  "module_ends (\<lambda>m. Inr (define_function name t m))"
  "module_ends (\<lambda>m. Inr (declare_function name t m))"
  "module_ends (put_act (add_params f ts))"
  "module_ends (put_act (set_type_of f t))"
  "module_ends (put_act (add_param f name t))"
proof -
  have fold: "ir_fields (fold (\<lambda>(i, t). add_param f (dotted ''arg'' i) t) ps m) = ir_fields m" for ps m
    by (induction ps arbitrary: m) (auto simp: add_param_def update_function_def)
  show "module_ends (put_act (add_params f ts))"
    by (intro allI ending_put) (simp add: add_params_def fold)
  show "module_ends (\<lambda>m. Inr (define_function name t m))"
    by (intro allI endingI returns_Inr) (auto simp: define_function_def split: option.split)
  show "module_ends (\<lambda>m. Inr (declare_function name t m))"
    by (intro allI endingI returns_Inr) (auto simp: declare_function_def split: option.split)
  show "module_ends (put_act (set_type_of f t))" "module_ends (put_act (add_param f name t))"
    by (auto intro!: ending_put simp: set_type_of_def add_param_def update_function_def)
qed

lemma emit_function_decl_ends: "back_ends N (emit_function_decl d suffix b)"
proof -
  have "module_ends (\<lambda>m. Inr (if b then define_function name t m else declare_function name t m))" for name t
    using function_ends(1, 2) by (cases b) simp_all
  then show ?thesis unfolding emit_function_decl_def Let_def
    by (intro act_rules sem_act_ends deref_ends change_sema_ends rename_const_searchable rename_fn_searchable lower_act_ends lower_function_ends
        in_module_ends function_ends(3))
qed

lemma with_struct_ends: "(\<And>sd. back_ends N (f sd)) \<Longrightarrow> back_ends N (with_struct a f)"
  unfolding with_struct_def by (intro act_rules sem_act_ends deref_ends)

lemma emit_structs_ends: "back_ends N (emit_structs ds)"
  unfolding emit_structs_def
  by (intro act_rules ends_seq) (auto intro!: with_struct_ends act_rules in_lowering_ends ends_intros)

lemma emit_value_decl_ends: "back_ends N (emit_value_decl suffix entry)"
  unfolding emit_value_decl_def
  by (cases "snd entry") (auto intro!: act_rules sem_act_ends deref_ends emit_function_decl_ends emit_const_ends)

text \<open>The children of a scope are newer, so that the fuel lasts to the leaves.\<close>

lemma scope_bind:
  "(\<And>s. \<forall>b \<in> set (children s). a < b \<and> b < N \<Longrightarrow> back_ends N (k s)) \<Longrightarrow>
    back_ends N (bind_act (sem_act (\<lambda>c. deref (scopes c) a)) k)"
proof (rule endingI)
  fix w assume k: "\<And>s. \<forall>b \<in> set (children s). a < b \<and> b < N \<Longrightarrow> back_ends N (k s)" and w: "back_inv N w"
  show "returns (\<lambda>(x, w). back_inv N w) (bind_act (sem_act (\<lambda>c. deref (scopes c) a)) k w)"
  proof (cases "scopes (sema w) a")
    case (Some s)
    then have "\<forall>b \<in> set (children s). a < b \<and> b < N" using w by (auto simp: back_inv_def searchable_def)
    from endingD [OF k [OF this] w] show ?thesis using Some by (simp add: bind_act_def sem_act_def)
  qed (simp add: bind_act_def sem_act_def deref_def returns_Inl)
qed

lemma visit_scope_ends: "N \<le> a + n \<Longrightarrow> a < N \<Longrightarrow> back_ends N (visit_scope n suffixes a)"
proof (induction n arbitrary: a suffixes)
  case (Suc n)
  have child: "back_ends N (visit_scope n (suffixes @ [dotted [] i]) b)" if "a < b" "b < N" for i b
    using Suc.prems that by (intro Suc.IH) simp_all
  show ?case unfolding visit_scope.simps
    by (intro scope_bind act_rules ends_seq emit_structs_ends)
      (auto intro!: emit_value_decl_ends child dest: set_zip_rightD)
qed simp

lemma emit_scope_tree_ends: "back_ends N emit_scope_tree"
proof (rule endingI)
  fix w assume w: "back_inv N w"
  then have "back_ends N (visit_scope (next_address (sema w)) [] (root_scope (sema w)))"
    by (intro visit_scope_ends) (auto simp: back_inv_def searchable_def)
  from endingD [OF this w] show "returns (\<lambda>(x, w). back_inv N w) (emit_scope_tree w)"
    by (simp add: emit_scope_tree_def bind_act_def get_act_def)
qed

text \<open>The built-in structures are declared first.\<close>

lemma builtins_declared:
  "searchable c \<Longrightarrow> in_lowering (\<lambda>_. declare_builtin_string_types) \<lparr>sema = c, ir_builder = new_builder (new_module t l),
      type_lowering = new_type_lowering\<rparr> = Inr (u, w) \<Longrightarrow> back_inv (next_address c) w"
  by (auto simp: in_lowering_def declare_builtin_string_types_def declare_builtin_def res_simps new_type_lowering_def
      back_inv_def lowering_inv_def builtins_flat_def add_type_definition_def set_fields_def new_builder_def new_module_def)

end
