(* ===== verification/GenEnds.thy ===== *)
theory GenEnds
  imports BackEnds IRGen
begin

section \<open>The generation of function bodies ends\<close>

text \<open>
  The visitor \<open>IRGenVisitor\<close> follows the syntax tree, and what it calls in the lowering ends: every
  operation of the builder leaves the fields of the structures as they are, so that the sizes of
  types can be computed at any time.
\<close>

subsection \<open>The builder\<close>

abbreviation build_ends :: "(string \<rightharpoonup> IRType list) \<Rightarrow> (IRBuilder, 'a) act \<Rightarrow> bool" where
  "build_ends F \<equiv> ends_act (\<lambda>b. ir_fields (ir_module b) = F)"

abbreviation on_fields :: "(string \<rightharpoonup> IRType list) \<Rightarrow> (IRModule, 'a) act \<Rightarrow> bool" where
  "on_fields F \<equiv> ends_act (\<lambda>m. ir_fields m = F)"

named_theorems builder_intros \<open>operations of the builder that end\<close>

lemma module_part_ends: "on_fields F m \<Longrightarrow> build_ends F (on_module m)"
proof (rule endingI)
  fix b :: IRBuilder assume m: "on_fields F m" and b: "ir_fields (ir_module b) = F"
  show "returns (\<lambda>(x, b). ir_fields (ir_module b) = F) (on_module m b)"
    unfolding on_module_def by (rule returns_bind [OF endingD [OF m b]]) (auto intro!: returns_Inr)
qed

lemma function_create_block_ends [builder_intros]: "on_fields F (function_create_block f l)"
  by (rule endingI) (simp add: function_create_block_def Let_def update_function_def returns_Inl returns_Inr)

lemma set_insertion_point_ends [builder_intros]: "build_ends F (set_insertion_point p)"
  by (rule endingI) (auto simp: set_insertion_point_def returns_Inl returns_Inr split: option.split)

lemma block_ends: "ends (block_at bs p)" "ends (block_append i b)"
  by (simp_all add: block_at_def block_append_def returns_Inl returns_Inr)

lemma insert_instruction_ends [builder_intros]: "build_ends F (insert_instruction i)"
  unfolding insert_instruction_def
  by (rule endingI, rule returns_option, simp add: returns_Inl)
    (rule ends_bind [OF block_ends(1)], rule ends_bind [OF block_ends(2)], simp add: Let_def returns_Inr)

lemma create_temp_ends [builder_intros]: "build_ends F (create_temp t hint)"
  by (rule endingI) (simp add: create_temp_def Let_def returns_Inr)

lemma create_block_ends [builder_intros]: "build_ends F (create_block l)"
  unfolding create_block_def by (rule act_rules module_part_ends builder_intros | (simp; fail))+

lemma emit_new_value_ends [builder_intros]: "build_ends F (emit_new_value OP ops t hint f)"
  unfolding emit_new_value_def by (rule act_rules builder_intros)+

lemma create_alloca_ends [builder_intros]: "build_ends F (create_alloca t hint)"
  unfolding create_alloca_def by (rule builder_intros)

lemma create_temp_alloca_ends [builder_intros]: "build_ends F (create_temp_alloca t hint)"
  unfolding create_temp_alloca_def by (rule act_rules module_part_ends builder_intros | (simp; fail))+

lemma create_load_ends [builder_intros]: "build_ends F (create_load a hint)"
  unfolding create_load_def
  by (cases "value_type a"; simp only: IRType.case; (rule act_rules builder_intros | (simp; fail))+)

lemma gep_element_ends: "ends (gep_element fs t is)"
  by (induction fs t "is" rule: gep_element.induct)
    (auto simp: Let_def returns_Inr returns_Inl split: IRValue.split option.splits)

lemma create_gep_ends [builder_intros]: "build_ends F (create_gep base t is hint)"
proof -
  have "ends (deduce_gep_pointee fs t is)" for fs
    by (cases "is") (simp_all add: deduce_gep_pointee_def gep_element_ends returns_Inr)
  then show ?thesis unfolding create_gep_def by - (rule act_rules ends_lift builder_intros | assumption)+
qed

lemma create_arith_ends [builder_intros]:
  "build_ends F (create_add a b h)" "build_ends F (create_sub a b h)" "build_ends F (create_mul a b h)"
  "build_ends F (create_sdiv a b h)" "build_ends F (create_udiv a b h)" "build_ends F (create_srem a b h)"
  "build_ends F (create_urem a b h)" "build_ends F (create_and a b h)" "build_ends F (create_or a b h)"
  "build_ends F (create_xor a b h)" "build_ends F (create_shl a b h)" "build_ends F (create_lshr a b h)"
  "build_ends F (create_ashr a b h)"
  by (simp_all add: create_add_def create_sub_def create_mul_def create_sdiv_def create_udiv_def create_srem_def
      create_urem_def create_and_def create_or_def create_xor_def create_shl_def create_lshr_def create_ashr_def
      create_simple_arith_def emit_new_value_ends)

lemma create_cast_ends [builder_intros]:
  "build_ends F (create_zext a t h)" "build_ends F (create_sext a t h)" "build_ends F (create_trunc a t h)"
  by (simp_all add: create_zext_def create_sext_def create_trunc_def create_cast_def emit_new_value_ends)

lemma create_compare_ends [builder_intros]:
  "build_ends F (create_icmp_eq a b h)" "build_ends F (create_icmp_ne a b h)" "build_ends F (create_icmp_slt a b h)"
  "build_ends F (create_icmp_sle a b h)" "build_ends F (create_icmp_sgt a b h)" "build_ends F (create_icmp_sge a b h)"
  "build_ends F (create_icmp_ult a b h)" "build_ends F (create_icmp_ule a b h)" "build_ends F (create_icmp_ugt a b h)"
  "build_ends F (create_icmp_uge a b h)"
  by (simp_all add: create_icmp_eq_def create_icmp_ne_def create_icmp_slt_def create_icmp_sle_def create_icmp_sgt_def
      create_icmp_sge_def create_icmp_ult_def create_icmp_ule_def create_icmp_ugt_def create_icmp_uge_def
      create_compare_def emit_new_value_ends)

lemma create_not_ends [builder_intros]: "build_ends F (create_not v hint)"
  unfolding create_not_def create_simple_arith_def by (rule act_rules builder_intros | (simp; fail))+

lemma control_ends [builder_intros]:
  "build_ends F (create_br p)" "build_ends F (create_cond_br v p q)" "build_ends F (create_ret r)" "build_ends F (create_store v a)"
  unfolding create_br_def create_cond_br_def create_ret_def create_store_def by (rule builder_intros)+

lemma create_call_ends [builder_intros]: "build_ends F (create_call callee args t name)"
  unfolding create_call_def Let_def by (rule act_rules builder_intros)+

lemma declare_in_module_ends [builder_intros]: "build_ends F (declare_in_module name ps)"
  unfolding declare_in_module_def by (rule ending_put) (auto simp: declare_function_def split: option.split)

lemma memory_call_ends [builder_intros]: "build_ends F (create_memcpy d s n v)" "build_ends F (create_memset d s n v)"
  unfolding create_memcpy_def create_memset_def ensure_memcpy_declared_def ensure_memset_declared_def
  by (rule act_rules builder_intros ending_put | (simp; fail))+

lemma create_string_literal_ends [builder_intros]: "build_ends F (create_string_literal v)"
  unfolding create_string_literal_def create_global_def
  by (rule module_part_ends, rule endingI) (simp add: Let_def returns_Inl returns_Inr)

subsection \<open>The state of the generator\<close>

definition gen_inv :: "address \<Rightarrow> irgen \<Rightarrow> bool" where
  "gen_inv N s \<longleftrightarrow> back_inv N (world s)"

abbreviation gen_ends :: "address \<Rightarrow> 'a gen \<Rightarrow> bool" where
  "gen_ends N \<equiv> ends_act (gen_inv N)"

named_theorems gen_intros \<open>actions of the generator that end\<close>

lemma in_back_ends: "back_ends N m \<Longrightarrow> gen_ends N (in_back m)"
proof (rule endingI)
  fix s assume m: "back_ends N m" and s: "gen_inv N s"
  then have "returns (\<lambda>(x, w). back_inv N w) (m (world s))" by (intro endingD [OF m]) (simp add: gen_inv_def)
  then show "returns (\<lambda>(x, s). gen_inv N s) (in_back m s)"
    unfolding in_back_def by (rule returns_bind) (auto intro!: returns_Inr simp: gen_inv_def)
qed

lemma build_gen_ends [gen_intros]: "(\<And>F. build_ends F m) \<Longrightarrow> gen_ends N (build m)"
  unfolding build_def by (intro in_back_ends in_builder_ends) blast

lemma module_gen_ends: "(\<And>F. on_fields F m) \<Longrightarrow> gen_ends N (in_back (in_module m))"
  by (intro in_back_ends in_module_ends) blast

lemma get_sema_ends [gen_intros]: "gen_ends N (get_sema f)"
  unfolding get_sema_def by (rule ends_get)

lemma sema_res_ends: "(\<And>c. searchable c \<Longrightarrow> ends (f c)) \<Longrightarrow> gen_ends N (sema_res f)"
  unfolding sema_res_def by (intro in_back_ends sem_act_ends)

lemma lookup_ends [gen_intros]: "gen_ends N (sema_res (\<lambda>c. deref (f c) a))" "gen_ends N (sema_res (\<lambda>c. the_ptr (g c)))"
  by (intro sema_res_ends deref_ends the_ptr_ends)+

lemma lower_type_ends [gen_intros]: "gen_ends N (lower_type t)" "gen_ends N (lower_ptr o_t)"
  unfolding lower_ptr_def lower_type_def
  by (rule act_rules in_back_ends lower_act_ends lower_ends | assumption | (simp; fail))+

lemma lower_function_gen_ends [gen_intros]: "gen_ends N (in_back (lower_act (\<lambda>c lw. lower_function c lw d)))"
  by (intro in_back_ends lower_act_ends lower_function_ends)

lemma size_gen_ends [gen_intros]: "gen_ends N (in_back (in_lowering (\<lambda>c. size_in_bytes c t)))"
  by (intro in_back_ends in_lowering_ends size_ends)

lemma put_gen_ends: "(\<And>s. world (f s) = world s) \<Longrightarrow> gen_ends N (put_act f)"
  by (rule ending_put) (simp add: gen_inv_def)

lemma set_ends [gen_intros]: "gen_ends N (set_value k v)" "gen_ends N (set_address k a)" "gen_ends N (set_ctx f)"
  unfolding set_value_def set_address_def set_ctx_def by (rule put_gen_ends, simp)+

lemma current_fn_ends [gen_intros]: "gen_ends N current_fn"
  unfolding current_fn_def by (rule act_rules | (simp; fail))+

lemma current_loop_ends [gen_intros]: "gen_ends N current_loop"
  unfolding current_loop_def by (rule ends_get)

lemma insertion_point_ends [gen_intros]: "gen_ends N insertion_point"
  unfolding insertion_point_def by (rule gen_intros act_rules)+

lemma set_point_ends [gen_intros]: "gen_ends N (set_point p)"
  unfolding set_point_def by (rule gen_intros builder_intros)+

lemma block_gen_ends [gen_intros]: "gen_ends N (new_block l)" "gen_ends N (enter_block p)"
    "gen_ends N (in_back (in_module (function_create_block f l)))"
  unfolding new_block_def enter_block_def by (rule act_rules gen_intros module_gen_ends builder_intros)+

lemma in_function_ends [gen_intros]: "gen_ends N m \<Longrightarrow> gen_ends N (in_function e m)" "gen_ends N m \<Longrightarrow> gen_ends N (when_in_function m)"
  unfolding in_function_def when_in_function_def by (rule act_rules | assumption | (simp; fail))+

lemma has_next_ends [gen_intros]: "gen_ends N (current_block_has_next k)"
  unfolding current_block_has_next_def by (rule gen_intros)

lemma the_ptr_gen_ends [gen_intros]: "gen_ends N (lift_act (the_ptr p))"
  by (intro ends_lift the_ptr_ends)

text \<open>The proof of every operation goes through its text with these rules.\<close>

lemmas [gen_intros] = act_rules builder_intros

subsection \<open>The helper functions\<close>

lemma helper_ends [gen_intros]:
  "gen_ends N ensure_current_insertion" "gen_ends N (branch_if_needed p)" "gen_ends N (get_rvalue k)" "gen_ends N (get_lvalue k)"
  "gen_ends N (ensure_slot_for_decl d)"
  unfolding ensure_current_insertion_def branch_if_needed_def get_rvalue_def get_lvalue_def ensure_slot_for_decl_def
  by (rule gen_intros | (simp; fail))+

lemma memory_ends [gen_intros]: "gen_ends N (emit_memcpy d v t)" "gen_ends N (zero_initialize d t)"
  unfolding emit_memcpy_def zero_initialize_def by (rule gen_intros)+

lemma store_expression_result_ends [gen_intros]: "gen_ends N (store_expression_result k a t)"
  unfolding store_expression_result_def by (rule gen_intros)+

lemma seq_gen_ends: "(\<And>m. m \<in> set ms \<Longrightarrow> gen_ends N m) \<Longrightarrow> gen_ends N (seq_act ms)"
  by (rule ends_seq)

subsection \<open>Operators and calls\<close>

lemma build_if_ends: "gen_ends N (build m) \<Longrightarrow> gen_ends N (build n) \<Longrightarrow> gen_ends N (build (if b then m else n))"
  by simp

lemma operator_ends [gen_intros]: "gen_ends N (arith_op OP u l r)" "gen_ends N (compare_op OP u l r)"
  unfolding arith_op_def compare_op_def by (rule build_if_ends | rule gen_intros)+

lemma gen_assign_ends [gen_intros]: "gen_ends N (gen_assign k OP l r)"
  unfolding gen_assign_def by (rule gen_intros | (simp; fail))+

lemma gen_operation_ends: "(\<And>OP u a b. gen_ends N (f OP u a b)) \<Longrightarrow> gen_ends N (gen_operation f k OP l r)"
  unfolding gen_operation_def by (rule gen_intros | assumption)+

lemma gen_logical_ends [gen_intros]: "gen_ends N left \<Longrightarrow> gen_ends N right \<Longrightarrow> gen_ends N (gen_logical k OP l r left right)"
  unfolding gen_logical_def by (rule build_if_ends | rule gen_intros | assumption)+

lemma gen_binary_ends [gen_intros]: "gen_ends N left \<Longrightarrow> gen_ends N right \<Longrightarrow> gen_ends N (gen_binary k OP l r left right)"
  unfolding gen_binary_def by (rule gen_operation_ends | rule gen_intros | assumption)+

lemma gen_unary_ends [gen_intros]: "gen_ends N (gen_unary k OP r)"
  unfolding gen_unary_def by (cases OP; simp only: Unary_Operator.case; (rule gen_intros | (simp; fail))+)

lemma gen_exit_ends [gen_intros]: "(\<And>m. m \<in> set arg_visits \<Longrightarrow> gen_ends N m) \<Longrightarrow> gen_ends N (gen_exit k args arg_visits)"
  unfolding gen_exit_def by (rule seq_gen_ends gen_intros | assumption | (simp; fail))+

lemma gen_array_len_ends [gen_intros]: "gen_ends N (gen_array_len k callee)"
  unfolding gen_array_len_def
  by (rule gen_intros | split RealType.split | (intro conjI allI impI) | (simp; fail))+

lemma self_argument_ends [gen_intros]: "gen_ends N (self_argument fd callee)"
  unfolding self_argument_def by (rule gen_intros | (simp; fail))+

lemma declared_ends: "gen_ends N (in_back (in_module (\<lambda>m. Inr ((), snd (declare_function n t m)))))"
  by (rule module_gen_ends, rule endingI) (auto simp: returns_Inr declare_function_def split: option.split)

lemma finish_gen_call_ends [gen_intros]: "gen_ends N (finish_gen_call k d fd vs)"
  unfolding finish_gen_call_def by (rule declared_ends gen_intros | (simp; fail))+

lemma each_gen_ends: "(\<And>m. m \<in> set ms \<Longrightarrow> gen_ends N m) \<Longrightarrow> gen_ends N (each_act ms)"
  by (rule ends_each)

lemma gen_call_of_ends:
  "gen_ends N callee_visit \<Longrightarrow> (\<And>m. m \<in> set arg_visits \<Longrightarrow> gen_ends N m) \<Longrightarrow>
    gen_ends N (gen_call_of k callee args callee_visit arg_visits d fd)"
  unfolding gen_call_of_def
  by (rule seq_gen_ends each_gen_ends gen_intros | assumption | (clarsimp, rule gen_intros))+

lemma gen_call_ends:
  "gen_ends N callee_visit \<Longrightarrow> (\<And>m. m \<in> set arg_visits \<Longrightarrow> gen_ends N m) \<Longrightarrow>
    gen_ends N (gen_call k callee args callee_visit arg_visits)"
  unfolding gen_call_def by (rule gen_call_of_ends | rule gen_intros | assumption | (simp; fail))+

subsection \<open>Branches, loops, jumps and blocks\<close>

lemma finish_branch_ends [gen_intros]: "gen_ends N (finish_branch k b slot p)" "gen_ends N (if_result_slot k)"
  unfolding finish_branch_def if_result_slot_def by (rule gen_intros)+

lemma gen_if_ends:
  assumes "gen_ends N condition" "gen_ends N then_branch" "\<And>m. else_branch = Some m \<Longrightarrow> gen_ends N m"
  shows "gen_ends N (gen_if k g a b condition then_branch else_branch)"
  unfolding gen_if_def by (rule assms(1, 2) | rule gen_intros | (simp add: assms(3); fail))+

lemma loop_ctx_ends [gen_intros]: "gen_ends N (push_loop_ctx l)" "gen_ends N pop_loop_ctx"
  unfolding push_loop_ctx_def pop_loop_ctx_def by (rule gen_intros)+

lemma gen_while_ends: "gen_ends N condition \<Longrightarrow> gen_ends N body \<Longrightarrow> gen_ends N (gen_while g condition body)"
  unfolding gen_while_def by (rule gen_intros | assumption)+

lemma gen_loop_ends: "gen_ends N body \<Longrightarrow> gen_ends N (gen_loop k body)"
  unfolding gen_loop_def by (rule gen_intros | assumption | (simp; fail))+

lemma gen_return_ends: "(\<And>m. visit = Some m \<Longrightarrow> gen_ends N m) \<Longrightarrow> gen_ends N (gen_return v visit)"
  unfolding gen_return_def by (rule gen_intros | assumption | (simp; fail))+

lemma gen_break_ends: "(\<And>m. visit = Some m \<Longrightarrow> gen_ends N m) \<Longrightarrow> gen_ends N (gen_break v visit)"
  unfolding gen_break_def by (rule gen_intros | assumption | (simp; fail))+

lemma gen_continue_ends: "gen_ends N gen_continue"
  unfolding gen_continue_def by (rule gen_intros | (simp; fail))+

lemma pass_result_ends [gen_intros]: "gen_ends N (pass_result k j t)"
  unfolding pass_result_def by (rule gen_intros)+

lemma gen_stmts_ends: "(\<And>x. x \<in> set ss \<Longrightarrow> gen_ends N (snd x)) \<Longrightarrow> gen_ends N (gen_stmts ss)"
proof (induction ss)
  case (Cons x ss)
  then have x: "gen_ends N (snd x)" and ss: "gen_ends N (gen_stmts ss)" by simp_all
  show ?case unfolding gen_stmts.simps by (rule x ss gen_intros)+
qed (simp add: ends_ret)

lemma gen_tail_ends [gen_intros]: "gen_ends N m \<Longrightarrow> gen_ends N (gen_tail k t m)"
  unfolding gen_tail_def by (rule gen_intros | assumption)+

lemma gen_block_ends:
  assumes "\<And>x. x \<in> set ss \<Longrightarrow> gen_ends N (snd x)" "\<And>t m. tail_stmt = Some (t, m) \<Longrightarrow> gen_ends N m"
  shows "gen_ends N (gen_block k ss tail_stmt)"
  unfolding gen_block_def by (rule gen_stmts_ends gen_intros | (auto intro: assms; fail))+

lemma gen_expr_stmt_ends: "gen_ends N m \<Longrightarrow> gen_ends N (gen_expr_stmt k e semi m)"
  unfolding gen_expr_stmt_def by (rule gen_intros | assumption)+

lemma gen_let_ends: "(\<And>m. visit = Some m \<Longrightarrow> gen_ends N m) \<Longrightarrow> gen_ends N (gen_let k v visit)"
  unfolding gen_let_def by (rule gen_intros | assumption | (simp; fail))+

subsection \<open>Structures, arrays and fields\<close>

lemma element_address_ends [gen_intros]: "gen_ends N (element_address b t i)"
  unfolding element_address_def by (rule gen_intros)+

lemma gen_struct_field_ends:
  assumes "\<And>e m. field_exprs (snd f) = Some (e, m) \<Longrightarrow> gen_ends N m"
  shows "gen_ends N (gen_struct_field slot t field_exprs sd f)"
  unfolding gen_struct_field_def by (rule gen_intros | (simp add: assms; fail))+

lemma field_of_visits: "map_of (rev (zip ns (zip ks ms))) n = Some (e, m) \<Longrightarrow> m \<in> set ms"
  by (drule map_of_SomeD) (auto dest!: set_zip_rightD)

lemma gen_struct_ends:
  assumes "\<And>m. m \<in> set ms \<Longrightarrow> gen_ends N m"
  shows "gen_ends N (gen_struct k fs ms)"
proof -
  have fields: "gen_ends N (gen_struct_field slot t (map_of (rev (zip (map fst fs) (zip (map snd fs) ms)))) sd f)" for slot t sd f
    by (rule gen_struct_field_ends, drule field_of_visits, rule assms)
  have all: "gen_ends N (seq_act (map (gen_struct_field slot t (map_of (rev (zip (map fst fs) (zip (map snd fs) ms)))) sd) l))"
    for slot t sd l
    by (rule seq_gen_ends) (auto intro: fields)
  show ?thesis unfolding gen_struct_def Let_def
    by (rule all gen_intros | split RealType.split | (intro conjI allI impI) | (simp; fail))+
qed

lemma gen_element_ends: "gen_ends N (snd (snd e)) \<Longrightarrow> gen_ends N (gen_element slot t et e)"
  unfolding gen_element_def by (rule gen_intros | assumption)+

lemma gen_array_ends:
  assumes "\<And>m. m \<in> set ms \<Longrightarrow> gen_ends N m"
  shows "gen_ends N (gen_array k es ms)"
proof -
  have one: "m \<in> set ms \<Longrightarrow> gen_ends N (gen_element slot t et (i, j, m))" for slot t et i j m
    by (rule gen_element_ends) (simp add: assms)
  have all: "gen_ends N (seq_act (map (gen_element slot t et) (zip is (zip es ms))))" for slot t et "is"
    by (rule seq_gen_ends) (auto intro!: one dest!: set_zip_rightD)
  show ?thesis unfolding gen_array_def
    by (rule all gen_intros | split RealType.split | (intro conjI allI impI) | (simp; fail))+
qed

lemma fill_loop_ends: "(\<And>a. gen_ends N (fill a)) \<Longrightarrow> gen_ends N (fill_loop slot t n fill)"
  unfolding fill_loop_def by (rule gen_intros | assumption)+

lemma bind_ret_ends: "gen_ends N m \<Longrightarrow> (\<And>x. gen_ends N (k (f x))) \<Longrightarrow> gen_ends N (bind_act (bind_act m (\<lambda>x. ret_act (f x))) k)"
proof (rule endingI)
  fix s assume m: "gen_ends N m" and k: "\<And>x. gen_ends N (k (f x))" and s: "gen_inv N s"
  from endingD [OF m s] show "returns (\<lambda>(y, u). gen_inv N u) (bind_act (bind_act m (\<lambda>x. ret_act (f x))) k s)"
    using endingD [OF k] by (cases "m s") (auto simp: bind_act_def ret_act_def yields_def)
qed

lemma bind_if_ends: "gen_ends N (bind_act m k) \<Longrightarrow> gen_ends N (bind_act n k) \<Longrightarrow> gen_ends N (bind_act (if b then m else n) k)"
  by simp

lemma gen_repeat_ends: "gen_ends N visit \<Longrightarrow> gen_ends N (gen_repeat k e visit)"
  unfolding gen_repeat_def
  by (rule fill_loop_ends bind_if_ends bind_ret_ends | rule gen_intros | assumption | split RealType.split
     | (intro conjI allI impI) | (simp; fail))+

lemma follow_reference_ends [gen_intros]: "gen_ends N (follow_reference t a ty)"
  unfolding follow_reference_def
  by (rule gen_intros | split IRType.split | (intro conjI allI impI) | (simp; fail))+

lemma gen_field_ends: "gen_ends N visit \<Longrightarrow> gen_ends N (gen_field k b name visit)"
  unfolding gen_field_def gen_method_field_def gen_struct_access_def
  by (rule gen_intros | assumption | split RealType.split | (intro conjI allI impI) | (simp; fail))+

lemma gen_index_ends: "gen_ends N base \<Longrightarrow> gen_ends N index \<Longrightarrow> gen_ends N (gen_index k b i base index)"
  unfolding gen_index_def by (rule gen_intros | assumption | (simp; fail))+

subsection \<open>Literals, names and casts\<close>

lemma gen_string_ends [gen_intros]: "gen_ends N (gen_string v)"
  unfolding gen_string_def by (rule gen_intros)+

lemma stoll_gen_ends [gen_intros]: "gen_ends N (lift_act (safe_stoll v))"
  by (intro ends_lift returns_intros)

lemma lower_const_gen_ends [gen_intros]: "gen_ends N (lift_act (lower_const v t))"
  by (intro ends_lift lower_const_ends)

lemma gen_literal_ends: "gen_ends N (gen_literal k t v)"
  unfolding gen_literal_def
  by (cases t; simp only: LiteralType.case; (rule gen_intros | (simp; fail))+)

lemma gen_const_ends: "e \<noteq> OutOfFuel \<Longrightarrow> gen_ends N fallback \<Longrightarrow> gen_ends N (gen_const k cd t v name e fallback)"
  unfolding gen_const_def by (rule gen_intros | assumption)+

lemma gen_identifier_ends: "gen_ends N (gen_identifier k)"
  unfolding gen_identifier_def
  by (rule gen_const_ends | rule gen_intros | split ValueDecl.split | (intro conjI allI impI) | (simp; fail))+

lemma cast_value_ends [gen_intros]: "gen_ends N (cast_value sk m n v s t)"
  unfolding cast_value_def by (rule build_if_ends | rule gen_intros)+

lemma gen_cast_ends: "gen_ends N visit \<Longrightarrow> gen_ends N (gen_cast k e visit)"
  unfolding gen_cast_def
  by (rule gen_intros | assumption | split IRType.split | (intro conjI allI impI) | (simp; fail))+

lemma gen_path_ends: "gen_ends N (gen_path k b name)"
  unfolding gen_path_def gen_associated_const_def gen_variant_def
  by (rule gen_const_ends | rule gen_intros | split TypeDecl.split | (intro conjI allI impI) | (simp; fail))+

lemma gen_self_ends: "gen_ends N (gen_self k)"
  unfolding gen_self_def by (rule gen_intros | (simp; fail))+

subsection \<open>Functions and the visitor\<close>

lemma store_ends [gen_intros]: "gen_ends N (store_param p)" "gen_ends N (store_self ps)" "gen_ends N (make_return_slot fd rest)"
  unfolding store_param_def store_self_def make_return_slot_def by (rule gen_intros | (simp; fail))+

lemma function_of_ends [gen_intros]: "gen_ends N (function_of f)"
  unfolding function_of_def by (rule gen_intros | (simp; fail))+

lemma open_fn_ends [gen_intros]: "gen_ends N (open_fn fd r ps)"
  unfolding open_fn_def Let_def by (rule gen_intros | (rule seq_gen_ends, clarsimp, rule gen_intros))+

lemma block_read_ends: "gen_ends N (in_back (in_module (\<lambda>m. bindr (block_at (block_store m) p) (\<lambda>b. Inr (b, m)))))"
  by (rule module_gen_ends, rule endingI, rule ends_bind [OF block_ends(1)]) (simp add: returns_Inr)

lemma close_fn_ends [gen_intros]: "gen_ends N (close_fn fd body)"
  unfolding close_fn_def store_body_result_def by (rule block_read_ends gen_intros)+

lemma gen_body_ends: "gen_ends N visit \<Longrightarrow> gen_ends N (gen_body fd d r f body visit)"
  unfolding gen_body_def by (rule gen_intros put_gen_ends | assumption | (simp; fail))+

lemma sret_ends: "gen_ends N (in_back (in_module (put_act (add_sret f t))))"
  by (rule module_gen_ends, rule ending_put) (auto simp: add_sret_def add_param_def set_type_of_def update_function_def split: IRType.split)

lemma defined_ends: "gen_ends N (in_back (in_module (\<lambda>m. Inr (define_function n t m))))"
  by (intro in_back_ends in_module_ends function_ends)

lemma gen_fn_ends: "gen_ends N visit \<Longrightarrow> gen_ends N (gen_fn k r body visit)"
  unfolding gen_fn_def gen_fn_decl_def
  by (rule gen_body_ends defined_ends sret_ends put_gen_ends gen_intros | assumption | (simp; fail))+

lemmas visitor_intros = gen_literal_ends gen_identifier_ends gen_binary_ends gen_unary_ends gen_call_ends gen_field_ends
  gen_struct_ends gen_index_ends gen_block_ends gen_if_ends gen_while_ends gen_loop_ends gen_return_ends
  gen_break_ends gen_continue_ends gen_cast_ends gen_path_ends gen_self_ends gen_array_ends gen_repeat_ends
  gen_let_ends gen_expr_stmt_ends gen_fn_ends

lemma visitor_ends:
  shows "t = (t :: type_node)"
  and "gen_ends N (gen_expr e)"
  and "gen_ends N (gen_stmt s)"
  and "gen_ends N (gen_item i)"
proof (induction t and e and s and i rule: type_node.induct expr.induct stmt.induct item.induct)
  case (StructExpr k t fs)
  then show ?case by (auto intro!: gen_struct_ends)
next
  case (BlockExpr k ss t m)
  have "gen_ends N (snd x)" if "x \<in> set (zip (map stmt_id ss) (map gen_stmt ss))" for x
  proof -
    obtain i act where x: "x = (i, act)" by (cases x)
    have "act \<in> set (map gen_stmt ss)" using that unfolding x by (rule set_zip_rightD)
    then show ?thesis using BlockExpr by (auto simp: x)
  qed
  then show ?case using BlockExpr by (auto intro!: gen_block_ends split: option.splits)
qed (auto intro!: visitor_intros ends_ret ends_then_act seq_gen_ends in_function_ends gen_unary_ends)

lemma generate_ends: "back_ends N (generate items)"
proof (rule endingI)
  fix w assume w: "back_inv N w"
  have "gen_ends N (seq_act (map gen_item items))" using visitor_ends(4) by (auto intro!: seq_gen_ends)
  from endingD [OF this] w show "returns (\<lambda>(u, w). back_inv N w) (generate items w)"
    unfolding generate_def by (intro returns_bind_pair [where P = "gen_inv N"]) (auto simp: gen_inv_def intro!: returns_Inr)
qed

end
