(* ===== verification/CompilerEnds.thy ===== *)
theory CompilerEnds
  imports PipelineProps GenEnds LexerProps ParserProps
begin

section \<open>The compiler ends\<close>

text \<open>
  The parts put together: what each of them needs so that its fuel is enough is what the part before it
  promises. The errors of the lexer and the parser are known from their own theories, the checker leaves a store
  in which the lookups end (\<open>searchable\<close>), and the back end keeps \<open>back_inv\<close>.
\<close>

lemma lexer_ends: "ends (read_and_get_tokens input)"
  using read_and_get_tokens_InlD by (fastforce simp: yields_def split: sum.split)

lemma parser_ends: "ends (parse lx)"
  using parse_errors by (fastforce simp: yields_def split: sum.split)

lemma front_end_returns: "returns (\<lambda>(items, c). searchable c) (front_end input)"
  unfolding front_end_def
  by (rule ends_bind [OF lexer_ends], rule ends_bind [OF parser_ends], rule returns_bind [OF run_checker_returns])
    (simp add: returns_Inr)

lemma back_end_ends:
  assumes "searchable c"
  shows "ends (back_end items (initial_backend c))"
proof -
  have start: "ends (in_lowering (\<lambda>_. declare_builtin_string_types) (initial_backend c))"
    unfolding in_lowering_def declare_builtin_string_types_def then_act_def bind_act_def declare_builtin_def put_act_def
    by (auto simp: returns_Inr intro!: pure_rules)
  show ?thesis unfolding back_end_def then_act_def bind_act_def
  proof (rule ends_bind [OF start], clarify)
    fix u w assume "in_lowering (\<lambda>_. declare_builtin_string_types) (initial_backend c) = Inr (u, w)"
    then have w: "back_inv (next_address c) w"
      unfolding initial_backend_def by (rule builtins_declared [OF assms])
    have "returns (\<lambda>(x, w). back_inv (next_address c) w) (emit_scope_tree w)"
      by (rule endingD [OF emit_scope_tree_ends w])
    then show "ends (bindr (emit_scope_tree w) (\<lambda>(_, w). generate items w))"
      by (rule returns_bind) (auto intro: returns_mono [OF endingD [OF generate_ends]])
  qed
qed

section \<open>Properties\<close>

text \<open>C4. The compiler ends on every input: none of the recursions of the lexer, the parser, the type
  resolution, the constant evaluation, the layout of structures, the walks over the scopes and the
  generation of code is cut off, so that the program exits with an output or an error message, or is aborted by an error
  of its own.\<close>

theorem compiler_ends:
  "run_full_pipeline input \<noteq> Inl OutOfFuel \<and> main runtime input \<noteq> Aborted OutOfFuel"
proof -
  have "ends (run_full_pipeline input)"
    unfolding run_full_pipeline_def
  proof (rule returns_bind [OF front_end_returns], clarify)
    fix items c assume c: "searchable c"
    show "ends (bindr (back_end items (initial_backend c)) (\<lambda>(_, w). module_string (ir_module (ir_builder w))))"
    proof (rule ends_bind [OF back_end_ends [OF c]], clarify)
      fix u w assume "back_end items (initial_backend c) = Inr (u, w)"
      then have "module_ok (ir_module (ir_builder w))"
        by (auto simp: IRWellFormed.builder_ok_def back_ok_def dest!: back_end_ok)
      then obtain s where "module_string (ir_module (ir_builder w)) = Inr s" using module_prints by blast
      then show "ends (module_string (ir_module (ir_builder w)))" by (simp add: returns_Inr)
    qed
  qed
  then show ?thesis
    by (auto simp: main_def yields_def split: sum.splits err.splits option.splits)
qed

end
