(* ===== verification/ExprMeaning.thy ===== *)
theory ExprMeaning
  imports IRGenBase "HOL-Library.Signed_Division"
begin

unbundle bit_operations_syntax

section \<open>What expressions and instructions mean\<close>

text \<open>
  Two evaluators to which the generator is compared. The first gives the value of an expression of the
  language as a mathematical integer; it has no value where the language panics (an overflow, a division
  by zero) and for the expressions that it leaves out: calls, branches and loops, references and places other
  than local variables. The second runs a list of instructions as the reference of LLVM describes it,
  on registers that hold the bits of an integer; it has no value where the behaviour is undefined.
\<close>

subsection \<open>Expressions\<close>

definition int_kinds :: "RealTypeKind set" where
  "int_kinds = {RTK_I32, RTK_ISIZE, RTK_U32, RTK_USIZE, RTK_ANYINT}"

definition unsigned_kinds :: "RealTypeKind set" where
  "unsigned_kinds = {RTK_U32, RTK_USIZE}"

text \<open>The values of a kind; an integer whose type is open is an \<open>i32\<close>.\<close>

definition fits :: "RealTypeKind \<Rightarrow> int \<Rightarrow> bool" where
  "fits kd n =
     (if kd \<in> unsigned_kinds then 0 \<le> n \<and> n < 2 ^ 32
      else if kd \<in> int_kinds then - (2 ^ 31) \<le> n \<and> n < 2 ^ 31
      else kd = RTK_BOOL \<and> (n = 0 \<or> n = 1))"

definition checked :: "RealTypeKind \<Rightarrow> int \<Rightarrow> int option" where
  "checked kd n = (if fits kd n then Some n else None)"

definition wrap :: "RealTypeKind \<Rightarrow> int \<Rightarrow> int" where
  "wrap kd n = (if kd \<in> unsigned_kinds then take_bit 32 n else signed_take_bit 31 n)"

text \<open>The kind that two operands share.\<close>

definition join_kinds :: "RealTypeKind \<Rightarrow> RealTypeKind \<Rightarrow> RealTypeKind option" where
  "join_kinds a b =
     (if a = b \<or> b = RTK_ANYINT \<and> a \<in> int_kinds then Some a
      else if a = RTK_ANYINT \<and> b \<in> int_kinds then Some b
      else None)"

definition scalar_kind :: "Semantic_Checker \<Rightarrow> nat \<Rightarrow> RealTypeKind option" where
  "scalar_kind c k =
     (case expr_type c k of
        Some t \<Rightarrow> if is_ref t = NO_REF \<and> kind t \<in> insert RTK_BOOL int_kinds then Some (kind t) else None
      | None \<Rightarrow> None)"

text \<open>The operators on operands of a common kind. Division truncates.\<close>

definition arith_value :: "Binary_Operator \<Rightarrow> RealTypeKind \<Rightarrow> int \<Rightarrow> int \<Rightarrow> int option" where
  "arith_value OP m a b =
     (if OP = BOP_AND then Some (a AND b)
      else if OP = BOP_OR then Some (a OR b)
      else if OP = BOP_XOR then Some (a XOR b)
      else if m = RTK_BOOL then None
      else if OP = BOP_ADD then checked m (a + b)
      else if OP = BOP_SUB then checked m (a - b)
      else if OP = BOP_MUL then checked m (a * b)
      else if OP = BOP_DIV then (if b = 0 then None else checked m (a sdiv b))
      else if OP = BOP_MOD then (if b = 0 \<or> \<not> fits m (a sdiv b) then None else Some (a smod b))
      else None)"

definition compare_value :: "Binary_Operator \<Rightarrow> int \<Rightarrow> int \<Rightarrow> bool" where
  "compare_value OP a b =
     (if OP = BOP_EQ then a = b
      else if OP = BOP_NEQ then a \<noteq> b
      else if OP = BOP_LT then a < b
      else if OP = BOP_LEQ then a \<le> b
      else if OP = BOP_GT then a > b
      else a \<ge> b)"

definition shift_value :: "Binary_Operator \<Rightarrow> RealTypeKind \<Rightarrow> int \<Rightarrow> int \<Rightarrow> int option" where
  "shift_value OP kd a b =
     (if kd \<in> int_kinds \<and> fits kd a \<and> 0 \<le> b \<and> b < 32
      then Some (if OP = BOP_SHL then wrap kd (push_bit (nat b) a) else drop_bit (nat b) a)
      else None)"

definition binary_value :: "Binary_Operator \<Rightarrow> RealTypeKind \<Rightarrow> RealTypeKind \<Rightarrow> int \<Rightarrow> int \<Rightarrow> int option" where
  "binary_value OP ka kb a b =
     (if OP \<in> {BOP_SHL, BOP_SHR} then shift_value OP ka a b
      else
        (case join_kinds ka kb of
           None \<Rightarrow> None
         | Some m \<Rightarrow>
             if \<not> (fits m a \<and> fits m b) then None
             else if OP \<in> {BOP_EQ, BOP_NEQ, BOP_LT, BOP_LEQ, BOP_GT, BOP_GEQ}
             then Some (of_bool (compare_value OP a b))
             else arith_value OP m a b))"

definition unary_value :: "Unary_Operator \<Rightarrow> RealTypeKind \<Rightarrow> int \<Rightarrow> int option" where
  "unary_value OP kd n =
     (case OP of
        UOP_NEG \<Rightarrow> if kd = RTK_BOOL then None else checked kd (- n)
      | UOP_NOT \<Rightarrow> if kd = RTK_BOOL then checked kd (1 - n) else Some (wrap kd (NOT n))
      | _ \<Rightarrow> None)"

text \<open>
  The values of the local variables are given by their declarations. The right side of \<open>&&\<close> and \<open>||\<close> is
  evaluated only when the left side does not decide.
\<close>

primrec expr_value :: "Semantic_Checker \<Rightarrow> (address \<rightharpoonup> int) \<Rightarrow> expr \<Rightarrow> int option" where
  "expr_value c vs (LiteralExpr k t v) =
     (case t of
        LIT_NUMBER \<Rightarrow> (case safe_stoll v of Inr n \<Rightarrow> Some n | Inl _ \<Rightarrow> None)
      | LIT_BOOL \<Rightarrow> Some (of_bool (v = ''true''))
      | _ \<Rightarrow> None)"
| "expr_value c vs (IdentifierExpr k name) =
     (case identifier_expr_to_decl_map c k of
        Some d \<Rightarrow> (case d of LetStmt_decl a \<Rightarrow> vs a | _ \<Rightarrow> None)
      | None \<Rightarrow> None)"
| "expr_value c vs (BinaryExpr k OP l r) =
     (if OP \<in> {BOP_AND_AND, BOP_OR_OR} then
        (case expr_value c vs l of
           Some a \<Rightarrow>
             if a = of_bool (OP = BOP_OR_OR) then Some a
             else if a = of_bool (OP = BOP_AND_AND) then expr_value c vs r
             else None
         | None \<Rightarrow> None)
      else
        (case (scalar_kind c (expr_id l), scalar_kind c (expr_id r), expr_value c vs l, expr_value c vs r) of
           (Some ka, Some kb, Some a, Some b) \<Rightarrow> binary_value OP ka kb a b
         | _ \<Rightarrow> None))"
| "expr_value c vs (UnaryExpr k OP r) =
     (case (scalar_kind c (expr_id r), expr_value c vs r) of
        (Some kd, Some n) \<Rightarrow> unary_value OP kd n
      | _ \<Rightarrow> None)"
| "expr_value c vs (CastExpr k e t) =
     (case (scalar_kind c (expr_id e), scalar_kind c k, expr_value c vs e) of
        (Some kd, Some kr, Some n) \<Rightarrow> if kr \<in> int_kinds \<and> (kd = RTK_BOOL \<longrightarrow> fits kd n) then Some (wrap kr n) else None
      | _ \<Rightarrow> None)"
| "expr_value c vs (CallExpr _ _ _) = None"
| "expr_value c vs (FieldExpr _ _ _) = None"
| "expr_value c vs (StructExpr _ _ _) = None"
| "expr_value c vs (IndexExpr _ _ _) = None"
| "expr_value c vs (BlockExpr _ _ _ _) = None"
| "expr_value c vs (IfExpr _ _ _ _ _) = None"
| "expr_value c vs (WhileExpr _ _ _) = None"
| "expr_value c vs (LoopExpr _ _ _) = None"
| "expr_value c vs (ReturnExpr _ _) = None"
| "expr_value c vs (BreakExpr _ _) = None"
| "expr_value c vs (ContinueExpr _) = None"
| "expr_value c vs (PathExpr _ _ _) = None"
| "expr_value c vs (SelfExpr _) = None"
| "expr_value c vs (UnitExpr _) = None"
| "expr_value c vs (ArrayExpr _ _) = None"
| "expr_value c vs (RepeatArrayExpr _ _ _) = None"

subsection \<open>Instructions\<close>

type_synonym registers = "string \<rightharpoonup> int"

text \<open>The bits of an operand, as a number below \<open>2 ^ n\<close>.\<close>

definition operand_value :: "registers \<Rightarrow> IRValue \<Rightarrow> int option" where
  "operand_value regs v =
     (case v of
        RegisterValue name _ \<Rightarrow> regs name
      | ConstantValue t n \<Rightarrow> (case t of IntegerType bits \<Rightarrow> Some (take_bit bits n) | _ \<Rightarrow> None)
      | GlobalValue _ _ _ _ _ \<Rightarrow> None)"

text \<open>The number that \<open>n\<close> bits stand for when they have a sign.\<close>

definition signed :: "nat \<Rightarrow> int \<Rightarrow> int" where
  "signed n a = signed_take_bit (n - 1) a"

definition arith_bits :: "Opcode \<Rightarrow> nat \<Rightarrow> int \<Rightarrow> int \<Rightarrow> int option" where
  "arith_bits OP n a b =
     (case OP of
        Op_Add \<Rightarrow> Some (take_bit n (a + b))
      | Op_Sub \<Rightarrow> Some (take_bit n (a - b))
      | Op_Mul \<Rightarrow> Some (take_bit n (a * b))
      | Op_UDiv \<Rightarrow> if b = 0 then None else Some (a div b)
      | Op_URem \<Rightarrow> if b = 0 then None else Some (a mod b)
      | Op_SDiv \<Rightarrow>
          if b = 0 \<or> signed n a = - (2 ^ (n - 1)) \<and> signed n b = -1 then None
          else Some (take_bit n (signed n a sdiv signed n b))
      | Op_SRem \<Rightarrow>
          if b = 0 \<or> signed n a = - (2 ^ (n - 1)) \<and> signed n b = -1 then None
          else Some (take_bit n (signed n a smod signed n b))
      | Op_And \<Rightarrow> Some (a AND b)
      | Op_Or \<Rightarrow> Some (a OR b)
      | Op_Xor \<Rightarrow> Some (a XOR b)
      | Op_Shl \<Rightarrow> if b < int n then Some (take_bit n (push_bit (nat b) a)) else None
      | Op_LShr \<Rightarrow> if b < int n then Some (drop_bit (nat b) a) else None
      | Op_AShr \<Rightarrow> if b < int n then Some (take_bit n (drop_bit (nat b) (signed n a))) else None
      | _ \<Rightarrow> None)"

definition compare_bits :: "ICmpPredicate \<Rightarrow> nat \<Rightarrow> int \<Rightarrow> int \<Rightarrow> bool" where
  "compare_bits p n a b =
     (case p of
        ICMP_EQ \<Rightarrow> a = b
      | ICMP_NE \<Rightarrow> a \<noteq> b
      | ICMP_SLT \<Rightarrow> signed n a < signed n b
      | ICMP_SLE \<Rightarrow> signed n a \<le> signed n b
      | ICMP_SGT \<Rightarrow> signed n a > signed n b
      | ICMP_SGE \<Rightarrow> signed n a \<ge> signed n b
      | ICMP_ULT \<Rightarrow> a < b
      | ICMP_ULE \<Rightarrow> a \<le> b
      | ICMP_UGT \<Rightarrow> a > b
      | ICMP_UGE \<Rightarrow> a \<ge> b)"

definition cast_bits :: "Opcode \<Rightarrow> nat \<Rightarrow> nat \<Rightarrow> int \<Rightarrow> int option" where
  "cast_bits OP m n a =
     (case OP of
        Op_ZExt \<Rightarrow> Some a
      | Op_SExt \<Rightarrow> Some (take_bit n (signed m a))
      | Op_Trunc \<Rightarrow> Some (take_bit n a)
      | _ \<Rightarrow> None)"

text \<open>The result of an instruction; a load reads the memory at the slot that a register names.\<close>

definition result_bits :: "(string \<rightharpoonup> int) \<Rightarrow> IRInstruction \<Rightarrow> IRType \<Rightarrow> registers \<Rightarrow> int option" where
  "result_bits mem i t regs =
     (case operands i of
        [a, b] \<Rightarrow>
          (case (value_type a, operand_value regs a, operand_value regs b) of
             (IntegerType n, Some x, Some y) \<Rightarrow>
               if inst_opcode i = Op_ICmp then Some (of_bool (compare_bits (inst_predicate i) n x y))
               else arith_bits (inst_opcode i) n x y
           | _ \<Rightarrow> None)
      | [a] \<Rightarrow>
          if inst_opcode i = Op_Load then (case a of RegisterValue slot _ \<Rightarrow> mem slot | _ \<Rightarrow> None)
          else
            (case (value_type a, t, operand_value regs a) of
               (IntegerType m, IntegerType n, Some x) \<Rightarrow> cast_bits (inst_opcode i) m n x
             | _ \<Rightarrow> None)
      | _ \<Rightarrow> None)"

definition run_instruction :: "(string \<rightharpoonup> int) \<Rightarrow> IRInstruction \<Rightarrow> registers \<Rightarrow> registers option" where
  "run_instruction mem i regs =
     (case inst_result i of
        Some (RegisterValue r t) \<Rightarrow> map_option (\<lambda>x. regs(r \<mapsto> x)) (result_bits mem i t regs)
      | _ \<Rightarrow> None)"

primrec run_code :: "(string \<rightharpoonup> int) \<Rightarrow> IRInstruction list \<Rightarrow> registers \<Rightarrow> registers option" where
  "run_code mem [] regs = Some regs"
| "run_code mem (i # is) regs = Option.bind (run_instruction mem i regs) (run_code mem is)"

lemma run_code_append: "run_code mem (is @ js) regs = Option.bind (run_code mem is regs) (run_code mem js)"
proof (induction "is" arbitrary: regs)
  case (Cons i "is")
  then show ?case by (cases "run_instruction mem i regs") simp_all
qed simp

subsection \<open>Bits and numbers\<close>

text \<open>The operators on bits compute the operators on numbers, on 32 bits.\<close>

lemma signed_bits: "signed 32 (take_bit 32 n) = signed_take_bit 31 n"
  by (simp add: signed_def signed_take_bit_take_bit)

lemma fits_signed: "kd \<in> int_kinds - unsigned_kinds \<Longrightarrow> fits kd n \<Longrightarrow> signed 32 (take_bit 32 n) = n"
  unfolding signed_bits by (rule signed_take_bit_int_eq_self) (auto simp: fits_def)

lemma fits_unsigned: "kd \<in> unsigned_kinds \<Longrightarrow> fits kd n \<Longrightarrow> take_bit 32 n = n"
  by (simp add: fits_def take_bit_int_eq_self)

lemma take_bit_wrap [simp]: "take_bit 32 (wrap kd n) = take_bit 32 n"
  by (simp add: wrap_def take_bit_signed_take_bit)

lemma fits_bool: "fits RTK_BOOL n \<longleftrightarrow> n = 0 \<or> n = 1"
  by (simp add: fits_def unsigned_kinds_def int_kinds_def)

definition width :: "RealTypeKind \<Rightarrow> nat" where
  "width kd = (if kd = RTK_BOOL then 1 else 32)"

text \<open>The instruction that the generator takes for an operator, by the sign of the left operand.\<close>

definition arith_opcode :: "Binary_Operator \<Rightarrow> bool \<Rightarrow> Opcode" where
  "arith_opcode OP u =
     (if OP = BOP_ADD then Op_Add else if OP = BOP_SUB then Op_Sub else if OP = BOP_MUL then Op_Mul
      else if OP = BOP_DIV then (if u then Op_UDiv else Op_SDiv)
      else if OP = BOP_MOD then (if u then Op_URem else Op_SRem)
      else if OP = BOP_AND then Op_And else if OP = BOP_OR then Op_Or else if OP = BOP_XOR then Op_Xor
      else if OP = BOP_SHL then Op_Shl else (if u then Op_LShr else Op_AShr))"

definition compare_code :: "Binary_Operator \<Rightarrow> bool \<Rightarrow> ICmpPredicate" where
  "compare_code OP u =
     (if OP = BOP_EQ then ICMP_EQ else if OP = BOP_NEQ then ICMP_NE
      else if OP = BOP_LT then (if u then ICMP_ULT else ICMP_SLT)
      else if OP = BOP_LEQ then (if u then ICMP_ULE else ICMP_SLE)
      else if OP = BOP_GT then (if u then ICMP_UGT else ICMP_SGT)
      else (if u then ICMP_UGE else ICMP_SGE))"

lemma bits_eq_iff: "m \<in> insert RTK_BOOL int_kinds \<Longrightarrow> fits m a \<Longrightarrow> fits m b \<Longrightarrow>
    take_bit (width m) a = take_bit (width m) b \<longleftrightarrow> a = b"
proof -
  assume m: "m \<in> insert RTK_BOOL int_kinds" and f: "fits m a" "fits m b"
  show ?thesis
  proof (cases "m = RTK_BOOL")
    case True
    then show ?thesis using f by (auto simp: width_def fits_bool)
  next
    case False
    then have "m \<in> int_kinds" using m by simp
    have "width m = 32" using False by (simp add: width_def)
    moreover have "a = b" if "take_bit 32 a = take_bit 32 b"
    proof (cases "m \<in> unsigned_kinds")
      case True
      then show ?thesis using f that fits_unsigned by metis
    next
      case False
      then show ?thesis using f that fits_signed \<open>m \<in> int_kinds\<close> by (metis Diff_iff)
    qed
    ultimately show ?thesis by auto
  qed
qed

lemma sdiv_nonneg: "0 \<le> a \<Longrightarrow> 0 \<le> b \<Longrightarrow> a sdiv b = a div (b :: int)" "0 \<le> a \<Longrightarrow> 0 \<le> b \<Longrightarrow> a smod b = a mod b"
  by (simp_all add: signed_divide_int_def smod_mod_positive sgn_if)

lemma unsigned_division:
  assumes m: "m \<in> unsigned_kinds" and f: "fits m a" "fits m b" and b: "b \<noteq> 0"
  shows "take_bit 32 a div take_bit 32 b = take_bit 32 (a sdiv b)" "take_bit 32 a mod take_bit 32 b = take_bit 32 (a smod b)"
    "take_bit 32 b \<noteq> 0"
proof -
  have r: "0 \<le> a" "a < 2 ^ 32" "0 \<le> b" "b < 2 ^ 32" using m f by (simp_all add: fits_def)
  have "a div b \<le> a" using zdiv_mono2 [of a 1 b] r b by simp
  then have "a div b < 2 ^ 32" using r by simp
  moreover have "0 \<le> a div b" using r b by (intro pos_imp_zdiv_nonneg_iff [THEN iffD2]) simp_all
  ultimately show "take_bit 32 a div take_bit 32 b = take_bit 32 (a sdiv b)"
    using m f r by (simp add: fits_unsigned sdiv_nonneg take_bit_int_eq_self)
  have "0 \<le> a mod b" "a mod b < 2 ^ 32" using r b by (smt (verit) pos_mod_bound pos_mod_sign)+
  then show "take_bit 32 a mod take_bit 32 b = take_bit 32 (a smod b)"
    using m f r by (simp add: fits_unsigned sdiv_nonneg take_bit_int_eq_self)
  show "take_bit 32 b \<noteq> 0" using m f b by (simp add: fits_unsigned)
qed

lemma signed_division:
  assumes m: "m \<in> int_kinds - unsigned_kinds" and f: "fits m a" "fits m b" "fits m (a sdiv b)" and b: "b \<noteq> 0"
  shows "signed 32 (take_bit 32 a) = a" "signed 32 (take_bit 32 b) = b" "take_bit 32 b \<noteq> 0"
    "\<not> (a = - (2 ^ 31) \<and> b = -1)"
proof -
  show s: "signed 32 (take_bit 32 a) = a" "signed 32 (take_bit 32 b) = b" using m f by (simp_all add: fits_signed)
  show "take_bit 32 b \<noteq> 0" using s(2) b by (auto simp: signed_def)
  show "\<not> (a = - (2 ^ 31) \<and> b = -1)" using f(3) m by (auto simp: fits_def)
qed

text \<open>Where the sign matters, it has to be the one of the left operand.\<close>

definition sign_from_left :: "Binary_Operator \<Rightarrow> RealTypeKind \<Rightarrow> RealTypeKind \<Rightarrow> bool" where
  "sign_from_left OP ka kb \<longleftrightarrow>
     OP \<notin> {BOP_DIV, BOP_MOD, BOP_LT, BOP_LEQ, BOP_GT, BOP_GEQ}
     \<or> ka \<noteq> RTK_BOOL \<and> \<not> (ka = RTK_ANYINT \<and> kb \<in> unsigned_kinds)"

lemma join_kinds_cases:
  assumes "join_kinds ka kb = Some m" "ka \<in> insert RTK_BOOL int_kinds"
  shows "m \<in> insert RTK_BOOL int_kinds" "width ka = width m" "width kb = width m"
    "ka = m \<or> ka = RTK_ANYINT \<and> kb = m" "m = RTK_BOOL \<longleftrightarrow> ka = RTK_BOOL"
  using assms by (auto simp: join_kinds_def width_def int_kinds_def split: if_splits)

lemma sign_of_join:
  assumes "join_kinds ka kb = Some m" "sign_from_left OP ka kb" "OP \<in> {BOP_DIV, BOP_MOD, BOP_LT, BOP_LEQ, BOP_GT, BOP_GEQ}"
    "ka \<in> insert RTK_BOOL int_kinds"
  shows "m \<in> int_kinds" "(ka \<in> unsigned_kinds) = (m \<in> unsigned_kinds)"
  using assms by (auto simp: join_kinds_def sign_from_left_def unsigned_kinds_def int_kinds_def split: if_splits)

lemma arith_bits_value:
  assumes m: "join_kinds ka kb = Some m" "ka \<in> insert RTK_BOOL int_kinds" and s: "sign_from_left OP ka kb"
    and f: "fits m a" "fits m b" and n: "arith_value OP m a b = Some n"
  shows "arith_bits (arith_opcode OP (ka \<in> unsigned_kinds)) (width m) (take_bit (width m) a) (take_bit (width m) b)
    = Some (take_bit (width m) n)"
proof (cases "OP \<in> {BOP_AND, BOP_OR, BOP_XOR}")
  case True
  then show ?thesis using n by (auto simp: arith_value_def arith_bits_def arith_opcode_def)
next
  case False
  with n have b: "m \<noteq> RTK_BOOL" by (auto simp: arith_value_def)
  then have w: "width m = 32" and i: "m \<in> int_kinds" using join_kinds_cases [OF m] by (auto simp: width_def)
  show ?thesis
  proof (cases "OP \<in> {BOP_DIV, BOP_MOD}")
    case True
    then have u: "(ka \<in> unsigned_kinds) = (m \<in> unsigned_kinds)" using sign_of_join [OF m(1) s _ m(2)] by blast
    have nz: "b \<noteq> 0" and fd: "fits m (a sdiv b)" using True n b
      by (auto simp: arith_value_def checked_def split: if_splits)
    have n': "n = (if OP = BOP_DIV then a sdiv b else a smod b)" using True n b
      by (auto simp: arith_value_def checked_def split: if_splits)
    show ?thesis
    proof (cases "m \<in> unsigned_kinds")
      case uns: True
      then show ?thesis using True unsigned_division [OF uns f nz]
        by (auto simp: arith_bits_def arith_opcode_def u w n')
    next
      case False
      then have "m \<in> int_kinds - unsigned_kinds" using i by simp
      note d = signed_division [OF this f fd nz]
      show ?thesis using True False d by (auto simp: arith_bits_def arith_opcode_def u w n')
    qed
  next
    case other: False
    then show ?thesis using n b False w
      by (auto simp: arith_value_def arith_bits_def arith_opcode_def checked_def take_bit_add take_bit_diff take_bit_mult
          split: if_splits)
  qed
qed

lemma shift_bits_value:
  assumes "ka \<in> int_kinds" "kb \<in> int_kinds" "OP \<in> {BOP_SHL, BOP_SHR}" and n: "shift_value OP ka a b = Some n"
  shows "arith_bits (arith_opcode OP (ka \<in> unsigned_kinds)) 32 (take_bit 32 a) (take_bit 32 b) = Some (take_bit 32 n)"
proof -
  have b: "0 \<le> b" "b < 32" "take_bit 32 b = b" and a: "fits ka a"
    using n by (auto simp: shift_value_def take_bit_int_eq_self split: if_splits)
  show ?thesis
  proof (cases "OP = BOP_SHL")
    case True
    then show ?thesis using n b
      by (auto simp: shift_value_def arith_bits_def arith_opcode_def take_bit_push_bit split: if_splits)
  next
    case False
    then have n': "n = drop_bit (nat b) a" using n by (auto simp: shift_value_def split: if_splits)
    show ?thesis
    proof (cases "ka \<in> unsigned_kinds")
      case True
      then have "0 \<le> a" "a < 2 ^ 32" using a by (simp_all add: fits_def)
      moreover have "a div 2 ^ nat b \<le> a" using zdiv_mono2 [of a 1 "2 ^ nat b"] \<open>0 \<le> a\<close> by simp
      ultimately have "0 \<le> drop_bit (nat b) a" "drop_bit (nat b) a < 2 ^ 32"
        by (simp_all add: drop_bit_eq_div pos_imp_zdiv_nonneg_iff)
      then have "take_bit 32 (drop_bit (nat b) a) = drop_bit (nat b) a" by (simp add: take_bit_int_eq_self)
      then show ?thesis using True False assms(3) a b by (simp add: arith_bits_def arith_opcode_def n' fits_unsigned)
    next
      case s: False
      then have "signed 32 (take_bit 32 a) = a" using a assms(1) by (intro fits_signed) auto
      then show ?thesis using s False assms(3) b by (simp add: arith_bits_def arith_opcode_def n')
    qed
  qed
qed

lemma compare_bits_value:
  assumes m: "join_kinds ka kb = Some m" "ka \<in> insert RTK_BOOL int_kinds" and s: "sign_from_left OP ka kb"
    and f: "fits m a" "fits m b" and OP: "OP \<in> {BOP_EQ, BOP_NEQ, BOP_LT, BOP_LEQ, BOP_GT, BOP_GEQ}"
  shows "compare_bits (compare_code OP (ka \<in> unsigned_kinds)) (width m) (take_bit (width m) a) (take_bit (width m) b)
    = compare_value OP a b"
proof (cases "OP \<in> {BOP_EQ, BOP_NEQ}")
  case True
  have "take_bit (width m) a = take_bit (width m) b \<longleftrightarrow> a = b"
    using join_kinds_cases(1) [OF m] f by (rule bits_eq_iff)
  then show ?thesis using True by (auto simp: compare_bits_def compare_code_def compare_value_def)
next
  case False
  then have ord: "OP \<in> {BOP_DIV, BOP_MOD, BOP_LT, BOP_LEQ, BOP_GT, BOP_GEQ}" using OP by blast
  note i = sign_of_join [OF m(1) s ord m(2)]
  then have w: "width m = 32" by (auto simp: width_def int_kinds_def)
  show ?thesis
  proof (cases "m \<in> unsigned_kinds")
    case True
    then show ?thesis using False OP f i by (auto simp: w compare_bits_def compare_code_def compare_value_def fits_unsigned)
  next
    case False
    then have "signed 32 (take_bit 32 a) = a" "signed 32 (take_bit 32 b) = b" using i f by (auto intro: fits_signed)
    then show ?thesis using False \<open>OP \<notin> {BOP_EQ, BOP_NEQ}\<close> OP i
      by (auto simp: w compare_bits_def compare_code_def compare_value_def)
  qed
qed

lemma negated_bits: "take_bit 32 (take_bit 32 0 - take_bit 32 n) = take_bit 32 (- n :: int)"
  by (metis diff_0 take_bit_diff)

lemma inverted_bits: "take_bit 32 n XOR take_bit 32 (-1) = take_bit 32 (NOT n :: int)"
  by (rule bit_eqI) (auto simp: bit_simps)

lemma inverted_bool: "n = 0 \<or> n = 1 \<Longrightarrow> take_bit 1 n XOR take_bit 1 1 = take_bit 1 (1 - n :: int)"
  by auto

text \<open>A conversion from \<open>bool\<close> keeps the number, one between integers the bits.\<close>

lemma bool_bits: "n = 0 \<or> n = 1 \<Longrightarrow> take_bit 1 n = take_bit 32 (n :: int)"
  by auto

end
