(* ===== verification/ExprCodegen.thy ===== *)
theory ExprCodegen
  imports ExprMeaning IRGenProps
begin

section \<open>The code of an expression computes its value\<close>

text \<open>
  The visits of the operands of an expression append instructions to the current block. Running these
  leaves the value of every visited node in a register or behind the address of a slot, and changes no
  register that was in use.
\<close>

subsection \<open>The place where code is added\<close>

definition code :: "block_ptr \<Rightarrow> irgen \<Rightarrow> IRInstruction list" where
  "code p s = instructions (block_store (gmodule s) ! p)"

text \<open>The insertion point is the block \<open>p\<close> of the current function, and that block is not finished.\<close>

definition ready :: "block_ptr \<Rightarrow> irgen \<Rightarrow> bool" where
  "ready p s \<longleftrightarrow>
     pred_option (\<lambda>ctx. current_block ctx = Some p) (fn_ctx s) \<and> fn_ctx s \<noteq> None
     \<and> insertion_block (gbuilder s) = Some p
     \<and> current_function (gbuilder s) \<noteq> None
     \<and> function_of_block p (ir_functions (gmodule s)) = current_function (gbuilder s)
     \<and> p < length (block_store (gmodule s))
     \<and> list_all (\<lambda>i. \<not> is_terminator i) (code p s)"

text \<open>
  The state \<open>t\<close> comes from \<open>s\<close> by adding code that takes the registers from \<open>regs\<close> to
  \<open>regs'\<close>; only the nodes in \<open>K\<close> have got a new value or address.
\<close>

definition extends :: "block_ptr \<Rightarrow> (string \<rightharpoonup> int) \<Rightarrow> nat set \<Rightarrow> irgen \<Rightarrow> registers \<Rightarrow> irgen \<Rightarrow> registers \<Rightarrow> bool" where
  "extends p mem K s regs t regs' \<longleftrightarrow>
     ready p t \<and> fn_ctx t = fn_ctx s \<and> sema (world t) = sema (world s)
     \<and> (\<forall>k. k \<notin> K \<longrightarrow> expr_value_map t k = expr_value_map s k \<and> expr_address_map t k = expr_address_map s k)
     \<and> (\<forall>x. name_used (gbuilder s) x \<longrightarrow> name_used (gbuilder t) x \<and> regs' x = regs x)
     \<and> (\<exists>is. code p t = code p s @ is \<and> run_code mem is regs = Some regs')"

definition computes :: "block_ptr \<Rightarrow> (string \<rightharpoonup> int) \<Rightarrow> nat set \<Rightarrow> 'a gen \<Rightarrow> irgen \<Rightarrow> registers \<Rightarrow>
    ('a \<Rightarrow> irgen \<Rightarrow> registers \<Rightarrow> bool) \<Rightarrow> bool" where
  "computes p mem K m s regs Q \<longleftrightarrow>
     (\<exists>x t regs'. m s = Inr (x, t) \<and> extends p mem K s regs t regs' \<and> Q x t regs')"

lemma extends_refl: "ready p s \<Longrightarrow> extends p mem K s regs s regs"
  by (auto simp: extends_def intro: exI [of _ "[]"])

lemma extends_trans:
  assumes a: "extends p mem K s regs t regs'" and b: "extends p mem L t regs' u regs''" and K: "K \<subseteq> M" "L \<subseteq> M"
  shows "extends p mem M s regs u regs''"
proof -
  obtain "is" js where "code p t = code p s @ is" "run_code mem is regs = Some regs'"
    "code p u = code p t @ js" "run_code mem js regs' = Some regs''"
    using a b by (auto simp: extends_def)
  then have "code p u = code p s @ (is @ js) \<and> run_code mem (is @ js) regs = Some regs''"
    by (simp add: run_code_append)
  moreover have "k \<notin> M \<Longrightarrow> k \<notin> K \<and> k \<notin> L" for k using K by blast
  ultimately show ?thesis using a b unfolding extends_def by simp
qed

lemma computes_bind:
  assumes "computes p mem K m s regs P" "K \<subseteq> M"
    and "\<And>x t regs'. extends p mem K s regs t regs' \<Longrightarrow> P x t regs' \<Longrightarrow> computes p mem M (k x) t regs' Q"
  shows "computes p mem M (bind_act m k) s regs Q"
proof -
  obtain x t regs' where 1: "m s = Inr (x, t)" "extends p mem K s regs t regs'" "P x t regs'"
    using assms(1) by (auto simp: computes_def)
  from assms(3) [OF 1(2, 3)] obtain y u regs'' where 2: "k x t = Inr (y, u)" "extends p mem M t regs' u regs''" "Q y u regs''"
    by (auto simp: computes_def)
  have "extends p mem M s regs u regs''" using extends_trans [OF 1(2) 2(2)] assms(2) by blast
  then show ?thesis using 1 2 by (auto simp: computes_def bind_act_def)
qed

lemma computes_then:
  assumes "computes p mem K m s regs P" "K \<subseteq> M"
    and "\<And>x t regs'. extends p mem K s regs t regs' \<Longrightarrow> P x t regs' \<Longrightarrow> computes p mem M k t regs' Q"
  shows "computes p mem M (then_act m k) s regs Q"
  unfolding then_act_def using assms by (rule computes_bind)

text \<open>Actions that only read.\<close>

lemma computes_read:
  "m s = Inr (x, s) \<Longrightarrow> computes p mem M (k x) s regs Q \<Longrightarrow> computes p mem M (bind_act m k) s regs Q"
  by (auto simp: computes_def bind_act_def)

lemma computes_skip:
  "m s = Inr (x, s) \<Longrightarrow> computes p mem M k s regs Q \<Longrightarrow> computes p mem M (then_act m k) s regs Q"
  unfolding then_act_def by (rule computes_read)

lemma computes_ret: "ready p s \<Longrightarrow> Q x s regs \<Longrightarrow> computes p mem K (ret_act x) s regs Q"
  by (auto simp: computes_def ret_act_def intro: extends_refl)

lemma computes_mono: "computes p mem K m s regs P \<Longrightarrow> K \<subseteq> M \<Longrightarrow>
    (\<And>x t regs'. extends p mem K s regs t regs' \<Longrightarrow> P x t regs' \<Longrightarrow> Q x t regs') \<Longrightarrow> computes p mem M m s regs Q"
  unfolding computes_def extends_def by blast

lemma extends_ready: "extends p mem K s regs t regs' \<Longrightarrow> ready p t"
  by (simp add: extends_def)

text \<open>What is read.\<close>

lemma ready_reads:
  assumes "ready p s"
  shows "ensure_current_insertion s = Inr ((), s)" "current_fn s = Inr (the (fn_ctx s), s)"
    "get_sema f s = Inr (f (sema (world s)), s)" "get_act g s = Inr (g s, s)"
proof -
  obtain ctx fp where "fn_ctx s = Some ctx" "current_block ctx = Some p" "insertion_block (gbuilder s) = Some p"
    "current_function (gbuilder s) = Some fp" "function_of_block p (ir_functions (gmodule s)) = Some fp"
    using assms by (auto simp: ready_def)
  then show "ensure_current_insertion s = Inr ((), s)" "current_fn s = Inr (the (fn_ctx s), s)"
    by (simp_all add: ensure_current_insertion_def current_fn_def bind_act_def get_act_def ret_act_def set_point_def build_def
        in_back_def in_builder_def set_insertion_point_def gbuilder_def gmodule_def)
  show "get_sema f s = Inr (f (sema (world s)), s)" "get_act g s = Inr (g s, s)"
    by (simp_all add: get_sema_def get_act_def)
qed

subsection \<open>Values\<close>

text \<open>An operand with the number \<open>n\<close> on \<open>w\<close> bits; its register is in use.\<close>

definition has_value :: "irgen \<Rightarrow> registers \<Rightarrow> IRValue \<Rightarrow> nat \<Rightarrow> int \<Rightarrow> bool" where
  "has_value s regs v w n \<longleftrightarrow>
     value_type v = IntegerType w \<and> operand_value regs v = Some (take_bit w n)
     \<and> (case v of RegisterValue x _ \<Rightarrow> name_used (gbuilder s) x | _ \<Rightarrow> True)"

text \<open>A visited node has a value, or an address behind which its value lies.\<close>

definition node_value :: "(string \<rightharpoonup> int) \<Rightarrow> irgen \<Rightarrow> registers \<Rightarrow> nat \<Rightarrow> nat \<Rightarrow> int \<Rightarrow> bool" where
  "node_value mem s regs k w n \<longleftrightarrow>
     (case expr_value_map s k of
        Some v \<Rightarrow> pred_option (\<lambda>v. has_value s regs v w n) v \<and> v \<noteq> None
      | None \<Rightarrow> (\<exists>x. expr_address_map s k = Some (RegisterValue x (PointerType (IntegerType w))) \<and> mem x = Some (take_bit w n)))"

lemma has_value_extends: "extends p mem K s regs t regs' \<Longrightarrow> has_value s regs v w n \<Longrightarrow> has_value t regs' v w n"
  by (cases v) (simp_all add: has_value_def extends_def operand_value_def)

lemma node_value_extends:
  assumes "extends p mem K s regs t regs'" "k \<notin> K" "node_value mem s regs k w n"
  shows "node_value mem t regs' k w n"
  using assms has_value_extends [OF assms(1)]
  by (auto simp: node_value_def extends_def split: option.splits)

lemma has_constant: "has_value s regs (ConstantValue (IntegerType w) n) w n"
  by (simp add: has_value_def operand_value_def)

lemma name_not_used: "good_hint h \<Longrightarrow> \<not> name_used b (name_of h (counter b h))"
  by (auto simp: name_used_def name_of_inj)

text \<open>A new instruction whose result is a register.\<close>

lemma computes_new:
  assumes s: "ready p s" and h: "good_hint h"
    and i: "\<And>r. \<not> is_terminator (f (new_instruction OP ops (Some r)))" "\<And>r. inst_result (f (new_instruction OP ops (Some r))) = Some r"
    and x: "\<And>r. result_bits mem (f (new_instruction OP ops (Some r))) (IntegerType w) regs = Some (take_bit w n)"
  shows "computes p mem {} (build (emit_new_value OP ops (IntegerType w) h f)) s regs (\<lambda>v t regs'. has_value t regs' v w n)"
proof -
  let ?b = "gbuilder s"
  let ?y = "name_of h (counter ?b h)"
  let ?r = "RegisterValue ?y (IntegerType w)"
  let ?i = "f (new_instruction OP ops (Some ?r))"
  let ?m = "gmodule s"
  let ?blk = "block_store ?m ! p"
  let ?bs = "(block_store ?m)[p := ?blk\<lparr>instructions := instructions ?blk @ [?i]\<rparr>]"
  let ?c = "(count_up h ?b)\<lparr>ir_module := ?m\<lparr>block_store := ?bs\<rparr>\<rparr>"
  let ?t = "s\<lparr>world := (world s)\<lparr>ir_builder := ?c\<rparr>\<rparr>"
  have p: "p < length (block_store ?m)" "insertion_block ?b = Some p" "list_all (\<lambda>i. \<not> is_terminator i) (instructions ?blk)"
    using s by (simp_all add: ready_def code_def)
  then have "\<not> (instructions ?blk \<noteq> [] \<and> is_terminator (last (instructions ?blk)))" by (auto simp: list_all_iff)
  then have "block_append ?i ?blk = Inr (?blk\<lparr>instructions := instructions ?blk @ [?i]\<rparr>)"
    unfolding block_append_def by (rule if_not_P)
  then have run: "build (emit_new_value OP ops (IntegerType w) h f) s = Inr (?r, ?t)"
    using p by (simp add: build_def in_back_def in_builder_def emit_new_value_def bind_act_def then_act_def ret_act_def create_temp_eq
        insert_instruction_def block_at_def Let_def gbuilder_def gmodule_def)
  have code: "code p ?t = code p s @ [?i]" using p(1) by (simp add: code_def gmodule_def gbuilder_def)
  have used: "name_used (gbuilder ?t) = name_used (count_up h ?b)" by (simp add: gbuilder_def)
  have "ready p ?t" using s i(1) code by (simp add: ready_def gmodule_def gbuilder_def)
  moreover have "run_code mem [?i] regs = Some (regs(?y \<mapsto> take_bit w n))"
    using i(2) x [of ?r] by (simp add: run_instruction_def)
  moreover have "name_used ?b z \<Longrightarrow> (regs(?y \<mapsto> take_bit w n)) z = regs z" for z
    using name_not_used [OF h, of ?b] by auto
  ultimately have "extends p mem {} s regs ?t (regs(?y \<mapsto> take_bit w n))"
    unfolding extends_def used using code count_up_used [of ?b _ h] by (auto simp del: run_code.simps)
  moreover have "has_value ?t (regs(?y \<mapsto> take_bit w n)) ?r w n"
    using count_up_new [OF h] by (simp add: has_value_def operand_value_def used)
  ultimately show ?thesis using run unfolding computes_def by blast
qed

subsection \<open>Operations\<close>

lemma binary_bits:
  assumes l: "has_value s regs l w a" and r: "has_value s regs r w b"
  shows "inst_opcode i \<noteq> Op_ICmp \<Longrightarrow> operands i = [l, r] \<Longrightarrow>
      result_bits mem i t regs = arith_bits (inst_opcode i) w (take_bit w a) (take_bit w b)"
    "inst_opcode i = Op_ICmp \<Longrightarrow> operands i = [l, r] \<Longrightarrow>
      result_bits mem i t regs = Some (of_bool (compare_bits (inst_predicate i) w (take_bit w a) (take_bit w b)))"
  using assms by (simp_all add: result_bits_def has_value_def)

lemma computes_simple_arith:
  assumes s: "ready p s" and l: "has_value s regs l w a" and r: "has_value s regs r w b"
    and OP: "OP \<in> {Op_Add, Op_Sub, Op_Mul, Op_SDiv, Op_UDiv, Op_SRem, Op_URem, Op_And, Op_Or, Op_Xor, Op_Shl, Op_AShr, Op_LShr}"
    and n: "arith_bits OP w (take_bit w a) (take_bit w b) = Some (take_bit w n)"
  shows "computes p mem {} (build (create_simple_arith OP l r [])) s regs (\<lambda>v t regs'. has_value t regs' v w n)"
proof -
  have t: "value_type l = IntegerType w" using l by (simp add: has_value_def)
  show ?thesis unfolding create_simple_arith_def t
    using OP n by (intro computes_new s) (auto simp: is_terminator_def new_instruction_def binary_bits [OF l r])
qed

lemma arith_op_build:
  assumes "is_arithmetic OP"
  shows "arith_op OP u l r = build (create_simple_arith (arith_opcode OP u) l r [])"
  using assms unfolding is_arithmetic_def
  by (auto simp: arith_op_def arith_opcode_def create_add_def create_sub_def create_mul_def create_sdiv_def create_udiv_def
      create_srem_def create_urem_def create_and_def create_or_def create_xor_def create_shl_def create_lshr_def create_ashr_def)

lemma compare_op_build:
  assumes "is_comparison OP"
  shows "compare_op OP u l r = build (create_compare (compare_code OP u) l r [])"
  using assms unfolding is_comparison_def
  by (auto simp: compare_op_def compare_code_def create_icmp_eq_def create_icmp_ne_def create_icmp_slt_def create_icmp_sle_def
      create_icmp_sgt_def create_icmp_sge_def create_icmp_ult_def create_icmp_ule_def create_icmp_ugt_def create_icmp_uge_def)

lemma computes_arith_op:
  assumes "ready p s" "is_arithmetic OP" "has_value s regs l w a" "has_value s regs r w b"
    and n: "arith_bits (arith_opcode OP u) w (take_bit w a) (take_bit w b) = Some (take_bit w n)"
  shows "computes p mem {} (arith_op OP u l r) s regs (\<lambda>v t regs'. has_value t regs' v w n)"
  unfolding arith_op_build [OF assms(2)]
  by (rule computes_simple_arith [OF assms(1, 3, 4) _ n]) (use assms(2) in \<open>auto simp: is_arithmetic_def arith_opcode_def\<close>)

lemma computes_compare_op:
  assumes s: "ready p s" and OP: "is_comparison OP" and l: "has_value s regs l w a" and r: "has_value s regs r w b"
    and n: "compare_bits (compare_code OP u) w (take_bit w a) (take_bit w b) = z"
  shows "computes p mem {} (compare_op OP u l r) s regs (\<lambda>v t regs'. has_value t regs' v 1 (of_bool z))"
  unfolding compare_op_build [OF OP] create_compare_def
  using n by (intro computes_new s) (auto simp: is_terminator_def new_instruction_def binary_bits [OF l r])

lemma computes_load:
  assumes "ready p s" "mem x = Some (take_bit w n)"
  shows "computes p mem {} (build (create_load (RegisterValue x (PointerType (IntegerType w))) [])) s regs
    (\<lambda>v t regs'. has_value t regs' v w n)"
  unfolding create_load_def value_type.simps IRType.case
  using assms(2) by (intro computes_new assms(1)) (auto simp: is_terminator_def new_instruction_def result_bits_def)

lemma computes_zext:
  assumes s: "ready p s" and v: "has_value s regs v m a" and n: "take_bit m a = take_bit w n"
  shows "computes p mem {} (build (create_zext v (IntegerType w) ''cast.zext'')) s regs (\<lambda>v t regs'. has_value t regs' v w n)"
  unfolding create_zext_def create_cast_def
  using v n by (intro computes_new s) (auto simp: is_terminator_def new_instruction_def result_bits_def has_value_def cast_bits_def good_hint_def)

lemma computes_get_rvalue:
  assumes s: "ready p s" and k: "node_value mem s regs k w n"
  shows "computes p mem {} (get_rvalue k) s regs (\<lambda>v t regs'. has_value t regs' v w n)"
proof (cases "expr_value_map s k")
  case None
  then obtain x where "expr_address_map s k = Some (RegisterValue x (PointerType (IntegerType w)))" "mem x = Some (take_bit w n)"
    using k by (auto simp: node_value_def)
  note x = this
  show ?thesis unfolding get_rvalue_def
    by (rule computes_read, rule ready_reads(4) [OF s]) (use x None computes_load [OF s] in simp)
next
  case (Some v)
  then obtain r where "v = Some r" "has_value s regs r w n" using k by (cases v) (auto simp: node_value_def)
  note r = this
  show ?thesis unfolding get_rvalue_def
    by (rule computes_read, rule ready_reads(4) [OF s])
      (use r Some s in \<open>auto simp: computes_def lift_act_def the_ptr_def intro: extends_refl\<close>)
qed

lemma computes_set_value:
  assumes "ready p s" "has_value s regs v w n"
  shows "computes p mem {k} (set_value k (Some v)) s regs (\<lambda>_ t regs'. node_value mem t regs' k w n)"
proof -
  let ?t = "s\<lparr>expr_value_map := (expr_value_map s)(k \<mapsto> Some v)\<rparr>"
  have "extends p mem {k} s regs ?t regs" using extends_refl [OF assms(1), of mem "{k}" regs]
    by (auto simp: extends_def ready_def code_def gmodule_def gbuilder_def)
  moreover have "node_value mem ?t regs k w n"
    using assms(2) by (auto simp: node_value_def has_value_def gbuilder_def split: IRValue.split)
  ultimately show ?thesis by (auto simp: computes_def set_value_def put_act_def)
qed

lemma computes_set_address:
  assumes "ready p s" "expr_value_map s k = None" "mem x = Some (take_bit w n)"
  shows "computes p mem {k} (set_address k (RegisterValue x (PointerType (IntegerType w)))) s regs
    (\<lambda>_ t regs'. node_value mem t regs' k w n)"
proof -
  let ?t = "s\<lparr>expr_address_map := (expr_address_map s)(k \<mapsto> RegisterValue x (PointerType (IntegerType w)))\<rparr>"
  have "extends p mem {k} s regs ?t regs" using extends_refl [OF assms(1), of mem "{k}" regs]
    by (auto simp: extends_def ready_def code_def gmodule_def gbuilder_def)
  moreover have "node_value mem ?t regs k w n" using assms(2, 3) by (simp add: node_value_def)
  ultimately show ?thesis by (auto simp: computes_def set_address_def put_act_def)
qed

lemma lower_scalar:
  assumes "is_ref t = NO_REF" "kind t \<in> insert RTK_BOOL int_kinds"
  shows "lower_type t s = Inr (IntegerType (width (kind t)), s)" "lower_ptr (Some t) s = Inr (IntegerType (width (kind t)), s)"
  using assms by (cases t; simp add: lower_ptr_def lower_type_def in_back_def lower_act_def lower_def numeral_2_eq_2 pointer_to_def
      width_def int_kinds_def)+

lemma scalar_kindD:
  assumes "scalar_kind c k = Some kd"
  obtains t where "expr_type c k = Some t" "is_ref t = NO_REF" "kind t = kd" "kd \<in> insert RTK_BOOL int_kinds"
  using assms by (auto simp: scalar_kind_def split: option.splits if_splits)

subsection \<open>The expressions that are covered\<close>

definition node_width :: "Semantic_Checker \<Rightarrow> nat \<Rightarrow> nat" where
  "node_width c k = (case scalar_kind c k of Some kd \<Rightarrow> width kd | None \<Rightarrow> 0)"

text \<open>
  Literals, local variables with a slot, arithmetic, comparisons and conversions, with the types that the
  checker has recorded; the sign of a division or of an ordering is that of the left operand.
\<close>

primrec scalar_expr :: "Semantic_Checker \<Rightarrow> (address \<rightharpoonup> IRValue) \<Rightarrow> expr \<Rightarrow> bool" where
  "scalar_expr c slots (LiteralExpr k t v) =
     (case t of
        LIT_NUMBER \<Rightarrow> node_width c k = 32
      | LIT_BOOL \<Rightarrow> node_width c k = 1
      | _ \<Rightarrow> False)"
| "scalar_expr c slots (IdentifierExpr k name) =
     (case identifier_expr_to_decl_map c k of
        Some d \<Rightarrow>
          (case d of
             LetStmt_decl a \<Rightarrow>
               (case slots a of
                  Some slot \<Rightarrow>
                    (case slot of
                       RegisterValue x t \<Rightarrow> t = PointerType (IntegerType (node_width c k)) \<and> scalar_kind c k \<noteq> None
                     | _ \<Rightarrow> False)
                | None \<Rightarrow> False)
           | _ \<Rightarrow> False)
      | None \<Rightarrow> False)"
| "scalar_expr c slots (BinaryExpr k OP l r) =
     (scalar_expr c slots l \<and> scalar_expr c slots r
      \<and> (case (scalar_kind c (expr_id l), scalar_kind c (expr_id r)) of
           (Some ka, Some kb) \<Rightarrow> sign_from_left OP ka kb \<and> (OP \<in> {BOP_SHL, BOP_SHR} \<longrightarrow> kb \<in> int_kinds)
         | _ \<Rightarrow> False)
      \<and> (is_arithmetic OP \<and> node_width c k = node_width c (expr_id l) \<or> is_comparison OP \<and> node_width c k = 1))"
| "scalar_expr c slots (UnaryExpr k OP r) =
     (scalar_expr c slots r \<and> OP \<in> {UOP_NEG, UOP_NOT} \<and> node_width c k = node_width c (expr_id r))"
| "scalar_expr c slots (CastExpr k e t) = scalar_expr c slots e"
| "scalar_expr c slots (CallExpr _ _ _) = False"
| "scalar_expr c slots (FieldExpr _ _ _) = False"
| "scalar_expr c slots (StructExpr _ _ _) = False"
| "scalar_expr c slots (IndexExpr _ _ _) = False"
| "scalar_expr c slots (BlockExpr _ _ _ _) = False"
| "scalar_expr c slots (IfExpr _ _ _ _ _) = False"
| "scalar_expr c slots (WhileExpr _ _ _) = False"
| "scalar_expr c slots (LoopExpr _ _ _) = False"
| "scalar_expr c slots (ReturnExpr _ _) = False"
| "scalar_expr c slots (BreakExpr _ _) = False"
| "scalar_expr c slots (ContinueExpr _) = False"
| "scalar_expr c slots (PathExpr _ _ _) = False"
| "scalar_expr c slots (SelfExpr _) = False"
| "scalar_expr c slots (UnitExpr _) = False"
| "scalar_expr c slots (ArrayExpr _ _) = False"
| "scalar_expr c slots (RepeatArrayExpr _ _ _) = False"

text \<open>The memory holds the bits of the variables at their slots.\<close>

definition holds_variables :: "(address \<rightharpoonup> IRValue) \<Rightarrow> (string \<rightharpoonup> int) \<Rightarrow> (address \<rightharpoonup> int) \<Rightarrow> bool" where
  "holds_variables slots mem vs \<longleftrightarrow>
     (\<forall>a n x w. vs a = Some n \<longrightarrow> slots a = Some (RegisterValue x (PointerType (IntegerType w))) \<longrightarrow> mem x = Some (take_bit w n))"

definition slots_of :: "irgen \<Rightarrow> address \<rightharpoonup> IRValue" where
  "slots_of s = (case fn_ctx s of Some ctx \<Rightarrow> local_slots ctx | None \<Rightarrow> Map.empty)"

text \<open>The nodes of an expression before it is visited.\<close>

definition unvisited :: "irgen \<Rightarrow> expr \<Rightarrow> bool" where
  "unvisited s e \<longleftrightarrow> list_all (\<lambda>k. expr_value_map s k = None) (ids_expr e)"

text \<open>What is known before the visit of an expression of the value \<open>n\<close>.\<close>

definition before :: "block_ptr \<Rightarrow> (string \<rightharpoonup> int) \<Rightarrow> (address \<rightharpoonup> int) \<Rightarrow> irgen \<Rightarrow> expr \<Rightarrow> int \<Rightarrow> bool" where
  "before p mem vs s e n \<longleftrightarrow>
     ready p s \<and> scalar_expr (sema (world s)) (slots_of s) e \<and> distinct (ids_expr e) \<and> unvisited s e
     \<and> holds_variables (slots_of s) mem vs \<and> expr_value (sema (world s)) vs e = Some n"

lemma binary_partsD:
  assumes "scalar_expr c slots (BinaryExpr k OP l r)" "expr_value c vs (BinaryExpr k OP l r) = Some n"
  obtains ka kb a b where "scalar_kind c (expr_id l) = Some ka" "scalar_kind c (expr_id r) = Some kb"
    "expr_value c vs l = Some a" "expr_value c vs r = Some b" "binary_value OP ka kb a b = Some n"
  using assms by (auto simp: is_arithmetic_def is_comparison_def split: option.splits if_splits)

lemma width_kinds: "kd \<in> int_kinds \<Longrightarrow> width kd = 32" "width kd = 1 \<longleftrightarrow> kd = RTK_BOOL" "kd \<in> int_kinds \<Longrightarrow> kd \<noteq> RTK_BOOL"
  by (auto simp: width_def int_kinds_def)

lemma kind_or_i32_scalar: "scalar_kind c k = Some kd \<Longrightarrow> kind_or_i32 c k = kd"
  by (auto simp: scalar_kind_def kind_or_i32_def split: option.splits if_splits)

lemma is_unsigned_kind_set: "is_unsigned_kind kd \<longleftrightarrow> kd \<in> unsigned_kinds"
  by (simp add: is_unsigned_kind_def unsigned_kinds_def)

text \<open>The operator of a binary expression after both operands.\<close>

lemma computes_binary_op:
  assumes s: "ready p s" and l: "has_value s regs lhs (width ka) a" and r: "has_value s regs rhs (width kb) b"
    and ka: "ka \<in> insert RTK_BOOL int_kinds" and sign: "sign_from_left OP ka kb" and kb: "OP \<in> {BOP_SHL, BOP_SHR} \<Longrightarrow> kb \<in> int_kinds"
    and n: "binary_value OP ka kb a b = Some n"
  shows "is_arithmetic OP \<Longrightarrow>
      computes p mem {} (arith_op OP (ka \<in> unsigned_kinds) lhs rhs) s regs (\<lambda>v t regs'. has_value t regs' v (width ka) n)"
    "is_comparison OP \<Longrightarrow>
      computes p mem {} (compare_op OP (ka \<in> unsigned_kinds) lhs rhs) s regs (\<lambda>v t regs'. has_value t regs' v 1 n)"
proof -
  show "computes p mem {} (arith_op OP (ka \<in> unsigned_kinds) lhs rhs) s regs (\<lambda>v t regs'. has_value t regs' v (width ka) n)"
    if OP: "is_arithmetic OP"
  proof (cases "OP \<in> {BOP_SHL, BOP_SHR}")
    case True
    then have sh: "shift_value OP ka a b = Some n" using n by (simp add: binary_value_def)
    then have "ka \<in> int_kinds" by (simp add: shift_value_def split: if_splits)
    note w = width_kinds(1) [OF this] width_kinds(1) [OF kb [OF True]]
    show ?thesis
      using l r shift_bits_value [OF \<open>ka \<in> int_kinds\<close> kb [OF True] True sh] by (intro computes_arith_op s OP) (simp_all add: w)
  next
    case False
    then obtain m where m: "join_kinds ka kb = Some m" "fits m a" "fits m b" "arith_value OP m a b = Some n"
      using n OP by (auto simp: binary_value_def is_arithmetic_def split: option.splits if_splits)
    note j = join_kinds_cases [OF m(1) ka]
    show ?thesis
      using l r arith_bits_value [OF m(1) ka sign m(2-4)] by (intro computes_arith_op s OP) (simp_all add: j)
  qed
  show "computes p mem {} (compare_op OP (ka \<in> unsigned_kinds) lhs rhs) s regs (\<lambda>v t regs'. has_value t regs' v 1 n)"
    if OP: "is_comparison OP"
  proof -
    have set: "OP \<in> {BOP_EQ, BOP_NEQ, BOP_LT, BOP_LEQ, BOP_GT, BOP_GEQ}" using OP by (simp add: is_comparison_def)
    then obtain m where m: "join_kinds ka kb = Some m" "fits m a" "fits m b" and n': "n = of_bool (compare_value OP a b)"
      using n by (auto simp: binary_value_def split: option.splits if_splits)
    note j = join_kinds_cases [OF m(1) ka]
    show ?thesis unfolding n'
      using l r compare_bits_value [OF m(1) ka sign m(2, 3) set] by (intro computes_compare_op s OP) (simp_all add: j)
  qed
qed

text \<open>A visit in a function.\<close>

lemma ready_function: "ready p s \<Longrightarrow> fn_ctx s \<noteq> None"
  by (simp add: ready_def)

text \<open>The reads at the place where code is added.\<close>

lemma computes_reads:
  assumes s: "ready p s"
  shows "computes p mem M k s regs Q \<Longrightarrow> computes p mem M (then_act current_fn k) s regs Q"
    "computes p mem M k s regs Q \<Longrightarrow> computes p mem M (then_act ensure_current_insertion k) s regs Q"
    "computes p mem M (h (f (sema (world s)))) s regs Q \<Longrightarrow> computes p mem M (bind_act (get_sema f) h) s regs Q"
  by (rule computes_skip, rule ready_reads(2) [OF s], assumption)
    (rule computes_skip, rule ready_reads(1) [OF s], assumption, rule computes_read, rule ready_reads(3) [OF s], assumption)

lemma computes_in_function:
  assumes s: "ready p s" and m: "computes p mem K m s regs Q"
  shows "computes p mem K (in_function e m) s regs Q" "computes p mem K (when_in_function m) s regs Q"
proof -
  obtain ctx where "fn_ctx s = Some ctx" using ready_function [OF s] by blast
  then show "computes p mem K (in_function e m) s regs Q" "computes p mem K (when_in_function m) s regs Q"
    unfolding in_function_def when_in_function_def
    by - ((rule computes_read, rule ready_reads(4) [OF s], simp add: m when_act_def)+)
qed

text \<open>What an extension keeps of the assumptions on another expression.\<close>

lemma before_extends:
  assumes "extends p mem K s regs t regs'" "before p mem vs s e n" "K \<inter> set (ids_expr e) = {}"
  shows "before p mem vs t e n"
proof -
  have "slots_of t = slots_of s" "sema (world t) = sema (world s)" "ready p t"
    using assms(1) by (simp_all add: extends_def slots_of_def)
  moreover have "unvisited t e"
    using assms unfolding before_def unvisited_def extends_def list_all_iff by (metis IntI empty_iff)
  ultimately show ?thesis using assms(2) by (simp add: before_def)
qed

lemma expr_id_in_ids: "expr_id e \<in> set (ids_expr e)"
  by (cases e) simp_all

lemma computes_literal:
  assumes "before p mem vs s (LiteralExpr k t v) n"
  shows "computes p mem {k} (gen_literal k t v) s regs (\<lambda>_ u regs'. node_value mem u regs' k (node_width (sema (world s)) k) n)"
proof -
  have s: "ready p s" using assms by (simp add: before_def)
  have set: "computes p mem {k} (set_value k (Some (ConstantValue (IntegerType w) n))) s regs
      (\<lambda>_ u regs'. node_value mem u regs' k w n)" for w n
    by (rule computes_set_value [OF s has_constant])
  show ?thesis
  proof (cases t)
    case LIT_NUMBER
    then have "safe_stoll v = Inr n" "node_width (sema (world s)) k = 32"
      using assms by (auto simp: before_def split: sum.splits)
    then show ?thesis unfolding gen_literal_def create_i32_constant_def
      by (intro computes_reads(1) [OF s] computes_read [of _ s "ConstantValue (IntegerType 32) n"])
        (simp_all add: LIT_NUMBER bind_act_def lift_act_def ret_act_def bindr.simps set)
  next
    case LIT_BOOL
    then have "n = of_bool (v = ''true'')" "node_width (sema (world s)) k = 1"
      using assms by (auto simp: before_def)
    moreover have "lower_type (BoolRealType NO_REF) s = Inr (IntegerType 1, s)"
      using lower_scalar(1) [of "BoolRealType NO_REF" s] by (simp add: width_def)
    ultimately show ?thesis unfolding gen_literal_def
      by (intro computes_reads(1) [OF s] computes_read [of _ s "ConstantValue (IntegerType 1) n"])
        (simp_all add: LIT_BOOL bind_act_def ret_act_def set)
  qed (use assms in \<open>simp_all add: before_def\<close>)
qed

lemma computes_identifier:
  assumes "before p mem vs s (IdentifierExpr k name) n"
  shows "computes p mem {k} (gen_identifier k) s regs (\<lambda>_ u regs'. node_value mem u regs' k (node_width (sema (world s)) k) n)"
proof -
  let ?c = "sema (world s)"
  have s: "ready p s" and k: "expr_value_map s k = None" using assms by (simp_all add: before_def unvisited_def)
  obtain a x where a: "identifier_expr_to_decl_map ?c k = Some (LetStmt_decl a)" "vs a = Some n"
    and x: "slots_of s a = Some (RegisterValue x (PointerType (IntegerType (node_width ?c k))))"
  proof -
    have sc: "scalar_expr ?c (slots_of s) (IdentifierExpr k name)" and ev: "expr_value ?c vs (IdentifierExpr k name) = Some n"
      using assms by (simp_all add: before_def)
    then obtain a where a: "identifier_expr_to_decl_map ?c k = Some (LetStmt_decl a)" "vs a = Some n"
      by (auto split: option.splits ValueDecl.splits)
    then obtain v where "slots_of s a = Some v" using sc by (cases "slots_of s a") simp_all
    then show thesis using that a sc by (cases v) simp_all
  qed
  have mem: "mem x = Some (take_bit (node_width ?c k) n)" using assms a x by (simp add: before_def holds_variables_def)
  obtain ctx where ctx: "fn_ctx s = Some ctx" using ready_function [OF s] by blast
  have slot: "ensure_slot_for_decl a s = Inr (RegisterValue x (PointerType (IntegerType (node_width ?c k))), s)"
    using x ready_reads(2) [OF s] by (simp add: ensure_slot_for_decl_def bind_act_def ctx slots_of_def ret_act_def)
  show ?thesis unfolding gen_identifier_def
    by (rule computes_reads(3) [OF s], simp add: a(1), rule computes_reads(1) [OF s], rule computes_read, rule slot,
        rule computes_set_address, rule s, rule k, rule mem)
qed

lemma computes_binary:
  assumes b: "before p mem vs s (BinaryExpr k OP l r) n"
    and left: "\<And>s regs n. before p mem vs s l n \<Longrightarrow>
      computes p mem (set (ids_expr l)) gl s regs (\<lambda>_ u regs'. node_value mem u regs' (expr_id l) (node_width (sema (world s)) (expr_id l)) n)"
    and right: "\<And>s regs n. before p mem vs s r n \<Longrightarrow>
      computes p mem (set (ids_expr r)) gr s regs (\<lambda>_ u regs'. node_value mem u regs' (expr_id r) (node_width (sema (world s)) (expr_id r)) n)"
  shows "computes p mem (set (ids_expr (BinaryExpr k OP l r))) (gen_binary k OP (expr_id l) (expr_id r) gl gr) s regs
    (\<lambda>_ u regs'. node_value mem u regs' k (node_width (sema (world s)) k) n)"
proof -
  let ?c = "sema (world s)"
  let ?M = "set (ids_expr (BinaryExpr k OP l r))"
  have s: "ready p s" and sc: "scalar_expr ?c (slots_of s) (BinaryExpr k OP l r)"
    and ev: "expr_value ?c vs (BinaryExpr k OP l r) = Some n" using b by (simp_all add: before_def)
  from binary_partsD [OF sc ev] obtain ka kb a b' where ka: "scalar_kind ?c (expr_id l) = Some ka"
    and kb: "scalar_kind ?c (expr_id r) = Some kb" and a: "expr_value ?c vs l = Some a" and b': "expr_value ?c vs r = Some b'"
    and n: "binary_value OP ka kb a b' = Some n" .
  have w: "node_width ?c (expr_id l) = width ka" "node_width ?c (expr_id r) = width kb" using ka kb by (simp_all add: node_width_def)
  have kinds: "ka \<in> insert RTK_BOOL int_kinds" using ka by (rule scalar_kindD)
  have sign: "sign_from_left OP ka kb" and sh: "OP \<in> {BOP_SHL, BOP_SHR} \<Longrightarrow> kb \<in> int_kinds" using sc ka kb by auto
  have bl: "before p mem vs s l a" and br: "before p mem vs s r b'" using b a b' by (auto simp: before_def unvisited_def)
  have disj: "set (ids_expr l) \<inter> set (ids_expr r) = {}" using b by (auto simp: before_def)
  have operation: "computes p mem ?M (gen_operation f k OP (expr_id l) (expr_id r)) t regs1 Q"
    if t: "ready p t" "sema (world t) = ?c" "node_value mem t regs1 (expr_id l) (width ka) a"
      "node_value mem t regs1 (expr_id r) (width kb) b'"
      and f: "\<And>u regs lhs rhs. ready p u \<Longrightarrow> has_value u regs lhs (width ka) a \<Longrightarrow> has_value u regs rhs (width kb) b' \<Longrightarrow>
        computes p mem {} (f OP (ka \<in> unsigned_kinds) lhs rhs) u regs (\<lambda>v t regs'. has_value t regs' v (node_width ?c k) n)"
      and Q: "Q = (\<lambda>_ u regs'. node_value mem u regs' k (node_width ?c k) n)" for f t regs1 Q
    unfolding gen_operation_def
  proof (rule computes_bind [OF computes_get_rvalue [OF t(1, 3)]], simp)
    fix lhs u regs2 assume u: "extends p mem {} t regs1 u regs2" "has_value u regs2 lhs (width ka) a"
    have ru: "node_value mem u regs2 (expr_id r) (width kb) b'" using node_value_extends [OF u(1) _ t(4)] by simp
    show "computes p mem ?M (bind_act (get_rvalue (expr_id r)) (\<lambda>rhs. then_act ensure_current_insertion
        (bind_act (get_sema (\<lambda>c. kind_or_i32 c (expr_id l))) (\<lambda>kd.
         bind_act (f OP (is_unsigned_kind kd) lhs rhs) (\<lambda>res. set_value k (Some res)))))) u regs2 Q"
    proof (rule computes_bind [OF computes_get_rvalue [OF extends_ready [OF u(1)] ru]], simp)
      fix rhs z regs3 assume z: "extends p mem {} u regs2 z regs3" "has_value z regs3 rhs (width kb) b'"
      note zr = extends_ready [OF z(1)]
      have "sema (world z) = ?c" using z(1) u(1) t(2) by (simp add: extends_def)
      then have kd: "is_unsigned_kind (kind_or_i32 (sema (world z)) (expr_id l)) = (ka \<in> unsigned_kinds)"
        using kind_or_i32_scalar [OF ka] by (simp add: is_unsigned_kind_set)
      have lv: "has_value z regs3 lhs (width ka) a" by (rule has_value_extends [OF z(1) u(2)])
      show "computes p mem ?M (then_act ensure_current_insertion
          (bind_act (get_sema (\<lambda>c. kind_or_i32 c (expr_id l))) (\<lambda>kd.
           bind_act (f OP (is_unsigned_kind kd) lhs rhs) (\<lambda>res. set_value k (Some res))))) z regs3 Q"
        unfolding Q
        by (rule computes_reads(2) [OF zr], rule computes_reads(3) [OF zr], unfold kd, rule computes_bind [OF f [OF zr lv z(2)]], simp, rule computes_mono, rule computes_set_value)
          (auto dest: extends_ready)
    qed
  qed
  have operands: "computes p mem ?M (then_act gl (then_act gr (gen_operation f k OP (expr_id l) (expr_id r)))) s regs Q"
    if f: "\<And>u regs lhs rhs. ready p u \<Longrightarrow> has_value u regs lhs (width ka) a \<Longrightarrow> has_value u regs rhs (width kb) b' \<Longrightarrow>
        computes p mem {} (f OP (ka \<in> unsigned_kinds) lhs rhs) u regs (\<lambda>v t regs'. has_value t regs' v (node_width ?c k) n)"
      and Q: "Q = (\<lambda>_ u regs'. node_value mem u regs' k (node_width ?c k) n)" for f Q
  proof (rule computes_then [OF left [OF bl]], force)
    fix t regs1 assume t: "extends p mem (set (ids_expr l)) s regs t regs1"
      "node_value mem t regs1 (expr_id l) (node_width ?c (expr_id l)) a"
    have brt: "before p mem vs t r b'" using before_extends [OF t(1) br disj] .
    have ct: "sema (world t) = ?c" using t(1) by (simp add: extends_def)
    show "computes p mem ?M (then_act gr (gen_operation f k OP (expr_id l) (expr_id r))) t regs1 Q"
    proof (rule computes_then [OF right [OF brt]], force)
      fix u regs2 assume u: "extends p mem (set (ids_expr r)) t regs1 u regs2"
        "node_value mem u regs2 (expr_id r) (node_width (sema (world t)) (expr_id r)) b'"
      have "node_value mem u regs2 (expr_id l) (width ka) a"
        using node_value_extends [OF u(1) _ t(2)] expr_id_in_ids disj w by auto
      moreover have "sema (world u) = ?c" using u(1) ct by (simp add: extends_def)
      ultimately show "computes p mem ?M (gen_operation f k OP (expr_id l) (expr_id r)) u regs2 Q"
        using u f Q w ct by (intro operation extends_ready [OF u(1)]) auto
    qed
  qed
  consider (arith) "is_arithmetic OP" "node_width ?c k = width ka" | (compare) "is_comparison OP" "node_width ?c k = 1"
    using sc w by auto
  then show ?thesis
  proof cases
    case arith
    then have "\<not> is_assignment OP" by (auto simp: is_arithmetic_def is_assignment_def)
    then show ?thesis unfolding gen_binary_def
      using arith operands [of arith_op, OF _ refl] computes_binary_op(1) [OF _ _ _ kinds sign sh n]
      by (intro computes_in_function s) simp
  next
    case compare
    then have "\<not> is_assignment OP" "\<not> is_arithmetic OP" by (auto simp: is_comparison_def is_arithmetic_def is_assignment_def)
    then show ?thesis unfolding gen_binary_def
      using compare operands [of compare_op, OF _ refl] computes_binary_op(2) [OF _ _ _ kinds sign sh n]
      by (intro computes_in_function s) simp
  qed
qed

text \<open>An operation on one operand.\<close>

lemma computes_operand:
  assumes e: "computes p mem K g s regs (\<lambda>_ u regs'. node_value mem u regs' j w m)" "K \<subseteq> M"
    and k: "\<And>t regs1 v u regs2. extends p mem K s regs t regs1 \<Longrightarrow> extends p mem {} t regs1 u regs2 \<Longrightarrow> has_value u regs2 v w m \<Longrightarrow>
      sema (world u) = sema (world s) \<Longrightarrow> ready p u \<Longrightarrow> computes p mem M (k v) u regs2 Q"
  shows "computes p mem M (then_act g (bind_act (get_rvalue j) k)) s regs Q"
proof (rule computes_then [OF e(1) e(2)])
  fix t regs1 assume t: "extends p mem K s regs t regs1" "node_value mem t regs1 j w m"
  show "computes p mem M (bind_act (get_rvalue j) k) t regs1 Q"
  proof (rule computes_bind [OF computes_get_rvalue [OF extends_ready [OF t(1)] t(2)]], simp)
    fix v u regs2 assume u: "extends p mem {} t regs1 u regs2" "has_value u regs2 v w m"
    have "sema (world u) = sema (world s)" using t(1) u(1) by (simp add: extends_def)
    then show "computes p mem M (k v) u regs2 Q" using k t(1) u extends_ready [OF u(1)] by blast
  qed
qed

text \<open>The result of an instruction becomes the value of the node.\<close>

lemma computes_result:
  assumes "computes p mem {} m s regs (\<lambda>v t regs'. has_value t regs' v w n)" "k \<in> M"
  shows "computes p mem M (bind_act m (\<lambda>res. set_value k (Some res))) s regs (\<lambda>_ u regs'. node_value mem u regs' k w n)"
proof (rule computes_bind [OF assms(1)], simp)
  fix v t regs1 assume "extends p mem {} s regs t regs1" "has_value t regs1 v w n"
  then have "computes p mem {k} (set_value k (Some v)) t regs1 (\<lambda>_ u regs'. node_value mem u regs' k w n)"
    by (intro computes_set_value extends_ready)
  then show "computes p mem M (set_value k (Some v)) t regs1 (\<lambda>_ u regs'. node_value mem u regs' k w n)"
    by (rule computes_mono) (use assms(2) in auto)
qed

lemma create_not_xor: "value_type v = IntegerType 1 \<Longrightarrow>
    create_not v h = create_simple_arith Op_Xor v (ConstantValue (IntegerType 1) 1) h"
  by (simp add: create_not_def is_integer_def)

lemma computes_unary:
  assumes b: "before p mem vs s (UnaryExpr k OP r) n"
    and visit: "\<And>s regs n. before p mem vs s r n \<Longrightarrow>
      computes p mem (set (ids_expr r)) g s regs (\<lambda>_ u regs'. node_value mem u regs' (expr_id r) (node_width (sema (world s)) (expr_id r)) n)"
  shows "computes p mem (set (ids_expr (UnaryExpr k OP r))) (when_in_function (then_act g (gen_unary k OP (expr_id r)))) s regs
    (\<lambda>_ u regs'. node_value mem u regs' k (node_width (sema (world s)) k) n)"
proof -
  let ?c = "sema (world s)"
  let ?M = "insert k (set (ids_expr r))"
  have s: "ready p s" and OP: "OP = UOP_NEG \<or> OP = UOP_NOT" using b by (auto simp: before_def)
  obtain kd m where kd: "scalar_kind ?c (expr_id r) = Some kd" and m: "expr_value ?c vs r = Some m" and n: "unary_value OP kd m = Some n"
    using b by (auto simp: before_def split: option.splits)
  obtain t where t: "expr_type ?c (expr_id r) = Some t" "is_ref t = NO_REF" "kind t = kd" and kinds: "kd \<in> insert RTK_BOOL int_kinds"
    using kd by (rule scalar_kindD)
  have w: "node_width ?c (expr_id r) = width kd" "node_width ?c k = width kd" using b kd by (simp_all add: before_def node_width_def)
  have br: "before p mem vs s r m" using b m by (auto simp: before_def unvisited_def)
  have lower: "lower_ptr (expr_type ?c (expr_id r)) u = Inr (IntegerType (width kd), u)" for u
    using lower_scalar(2) [OF t(2), of u] kinds t by simp
  have int_op: "computes p mem {} (build (create_simple_arith Op x y [])) u regs2 (\<lambda>v t regs'. has_value t regs' v (width kd) n)"
    if "ready p u" "has_value u regs2 x (width kd) a" "has_value u regs2 y (width kd) b"
      "Op = Op_Sub \<or> Op = Op_Xor" "arith_bits Op (width kd) (take_bit (width kd) a) (take_bit (width kd) b) = Some (take_bit (width kd) n)"
    for u regs2 x y Op a b
    using that by (intro computes_simple_arith [of p u regs2 x "width kd" a y b Op]) auto
  have "computes p mem ?M (then_act g (gen_unary k OP (expr_id r))) s regs (\<lambda>_ u regs'. node_value mem u regs' k (width kd) n)"
  proof (cases OP)
    case UOP_NEG
    then have i: "kd \<in> int_kinds" and n': "n = - m" using n kinds by (auto simp: unary_value_def checked_def split: if_splits)
    note w32 = width_kinds(1) [OF i]
    show ?thesis unfolding gen_unary_def UOP_NEG Unary_Operator.case
    proof (rule computes_operand [OF visit [OF br]], force)
      fix v u regs2 assume v: "has_value u regs2 v (node_width ?c (expr_id r)) m" and cu: "sema (world u) = ?c" and u: "ready p u"
      have "computes p mem {} (build (create_sub (ConstantValue (IntegerType (width kd)) 0) v [])) u regs2
          (\<lambda>v t regs'. has_value t regs' v (width kd) n)"
        unfolding create_sub_def by (rule int_op [OF u has_constant v [unfolded w]])
          (simp_all add: arith_bits_def w32 n' negated_bits [simplified])
      from computes_result [OF this, of k ?M]
      show "computes p mem ?M (then_act ensure_current_insertion (bind_act (get_sema (\<lambda>c. expr_type c (expr_id r))) (\<lambda>t.
          bind_act (lower_ptr t) (\<lambda>t. bind_act (build (create_sub (ConstantValue t 0) v [])) (\<lambda>res. set_value k (Some res))))))
          u regs2 (\<lambda>_ u regs'. node_value mem u regs' k (width kd) n)"
        by - (rule computes_reads(2) [OF u], rule computes_reads(3) [OF u], unfold cu, rule computes_read, rule lower, simp)
    qed
  next
    case UOP_NOT
    show ?thesis unfolding gen_unary_def UOP_NOT Unary_Operator.case
    proof (rule computes_operand [OF visit [OF br]], force)
      fix v u regs2 assume v: "has_value u regs2 v (node_width ?c (expr_id r)) m" and cu: "sema (world u) = ?c" and u: "ready p u"
      have kind: "kind_or_i32 (sema (world u)) (expr_id r) = kd" using kind_or_i32_scalar [OF kd] cu by simp
      have *: "computes p mem ?M
          (if kd = RTK_BOOL then bind_act (build (create_not v [])) (\<lambda>res. set_value k (Some res))
           else if kd \<in> {RTK_I32, RTK_ISIZE, RTK_U32, RTK_USIZE, RTK_ANYINT} then
             bind_act (get_sema (\<lambda>c. expr_type c (expr_id r))) (\<lambda>t. bind_act (lower_ptr t) (\<lambda>t.
             bind_act (build (create_xor v (ConstantValue t (-1)) [])) (\<lambda>res. set_value k (Some res))))
           else throw_act (RuntimeError ''Unary NOT only supports bool or integer operands''))
          u regs2 (\<lambda>_ u regs'. node_value mem u regs' k (width kd) n)"
      proof (cases "kd = RTK_BOOL")
        case True
        then have w1: "width kd = 1" and n': "n = 1 - m" "m = 0 \<or> m = 1"
          using n by (auto simp: UOP_NOT unary_value_def checked_def fits_bool width_def split: if_splits)
        have one: "has_value u regs2 (ConstantValue (IntegerType 1) 1) (width kd) 1"
          using has_constant [of u regs2 1 1] by (simp add: w1)
        have v1: "value_type v = IntegerType 1" using v by (simp add: has_value_def w w1)
        have "computes p mem {} (build (create_not v [])) u regs2 (\<lambda>v t regs'. has_value t regs' v (width kd) n)"
          unfolding create_not_xor [OF v1]
          by (rule int_op [OF u v [unfolded w] one])
            (use n' in \<open>auto simp: arith_bits_def w1\<close>)
        from computes_result [OF this, of k ?M] True show ?thesis by simp
      next
        case False
        then have i: "kd \<in> int_kinds" and n': "n = wrap kd (NOT m)" using n kinds by (auto simp: UOP_NOT unary_value_def)
        note w32 = width_kinds(1) [OF i]
        have "computes p mem {} (build (create_xor v (ConstantValue (IntegerType (width kd)) (-1)) [])) u regs2
            (\<lambda>v t regs'. has_value t regs' v (width kd) n)"
          unfolding create_xor_def by (rule int_op [OF u v [unfolded w] has_constant])
            (simp_all add: arith_bits_def w32 n' inverted_bits del: take_bit_minus_one_eq_mask)
        from computes_result [OF this, of k ?M]
        have "computes p mem ?M (bind_act (get_sema (\<lambda>c. expr_type c (expr_id r))) (\<lambda>t. bind_act (lower_ptr t) (\<lambda>t.
             bind_act (build (create_xor v (ConstantValue t (-1)) [])) (\<lambda>res. set_value k (Some res))))) u regs2
            (\<lambda>_ u regs'. node_value mem u regs' k (width kd) n)"
          by - (rule computes_reads(3) [OF u], unfold cu, rule computes_read, rule lower, simp)
        then show ?thesis using False i by (auto simp: int_kinds_def)
      qed
      show "computes p mem ?M (bind_act (get_sema (\<lambda>c. kind_or_i32 c (expr_id r))) (\<lambda>kd. then_act ensure_current_insertion
          (if kd = RTK_BOOL then bind_act (build (create_not v [])) (\<lambda>res. set_value k (Some res))
           else if kd \<in> {RTK_I32, RTK_ISIZE, RTK_U32, RTK_USIZE, RTK_ANYINT} then
             bind_act (get_sema (\<lambda>c. expr_type c (expr_id r))) (\<lambda>t. bind_act (lower_ptr t) (\<lambda>t.
             bind_act (build (create_xor v (ConstantValue t (-1)) [])) (\<lambda>res. set_value k (Some res))))
           else throw_act (RuntimeError ''Unary NOT only supports bool or integer operands''))))
          u regs2 (\<lambda>_ u regs'. node_value mem u regs' k (width kd) n)"
        by (rule computes_reads(3) [OF u], unfold kind, rule computes_reads(2) [OF u], rule *)
    qed
  qed (use OP in auto)
  then show ?thesis unfolding w ids_expr.simps list.set by (rule computes_in_function(2) [OF s])
qed

lemma computes_cast:
  assumes b: "before p mem vs s (CastExpr k e ty) n"
    and visit: "\<And>s regs n. before p mem vs s e n \<Longrightarrow>
      computes p mem (set (ids_expr e)) g s regs (\<lambda>_ u regs'. node_value mem u regs' (expr_id e) (node_width (sema (world s)) (expr_id e)) n)"
  shows "computes p mem (set (ids_expr (CastExpr k e ty))) (gen_cast k (expr_id e) g) s regs
    (\<lambda>_ u regs'. node_value mem u regs' k (node_width (sema (world s)) k) n)"
proof -
  let ?c = "sema (world s)"
  let ?M = "set (ids_expr (CastExpr k e ty))"
  have s: "ready p s" using b by (simp add: before_def)
  obtain kd kr m where kd: "scalar_kind ?c (expr_id e) = Some kd" and kr: "scalar_kind ?c k = Some kr" and i: "kr \<in> int_kinds"
    and m: "expr_value ?c vs e = Some m" and n: "n = wrap kr m" "kd = RTK_BOOL \<Longrightarrow> fits kd m"
    using b by (auto simp: before_def split: option.splits if_splits)
  obtain t where t: "expr_type ?c (expr_id e) = Some t" "is_ref t = NO_REF" "kind t = kd" and kinds: "kd \<in> insert RTK_BOOL int_kinds"
    using kd by (rule scalar_kindD)
  obtain tr where tr: "expr_type ?c k = Some tr" "is_ref tr = NO_REF" "kind tr = kr" using kr by (rule scalar_kindD)
  have w: "node_width ?c (expr_id e) = width kd" "node_width ?c k = 32" using kd kr i by (simp_all add: node_width_def width_kinds)
  have be: "before p mem vs s e m" using b m by (auto simp: before_def unvisited_def)
  have lower: "lower_type t u = Inr (IntegerType (width kd), u)" "lower_type tr u = Inr (IntegerType 32, u)" for u
    using lower_scalar(1) [OF t(2), of u] lower_scalar(1) [OF tr(2), of u] kinds t tr i by (simp_all add: width_kinds)
  have cast: "computes p mem {} (cast_value kd (width kd) 32 v (IntegerType (width kd)) (IntegerType 32)) u regs1
      (\<lambda>v t regs'. has_value t regs' v 32 n)"
    if u: "ready p u" and v: "has_value u regs1 v (width kd) m" for u regs1 v
  proof (cases "kd = RTK_BOOL")
    case True
    then have "m = 0 \<or> m = 1" "width kd = 1" using n(2) by (simp_all add: fits_bool width_def)
    then have "take_bit (width kd) m = take_bit 32 n" by (auto simp: n(1))
    from computes_zext [OF u v this] True \<open>width kd = 1\<close> show ?thesis unfolding cast_value_def
      by (simp add: is_signed_integer_def computes_reads(2) [OF u])
  next
    case False
    then have "width kd = 32" using kinds width_kinds(1) by blast
    moreover have "has_value u regs1 v 32 n" using v calculation by (simp add: has_value_def n(1))
    ultimately show ?thesis unfolding cast_value_def by (simp add: computes_ret [OF u])
  qed
  have visited: "computes p mem ?M (then_act g (bind_act (get_sema (\<lambda>c. (expr_type c (expr_id e), expr_type c k))) h)) s regs Q"
    if h: "\<And>u regs1. ready p u \<Longrightarrow> node_value mem u regs1 (expr_id e) (width kd) m \<Longrightarrow>
      computes p mem ?M (h (Some t, Some tr)) u regs1 Q" for h Q
  proof (rule computes_then [OF visit [OF be]], force)
    fix u regs1 assume u: "extends p mem (set (ids_expr e)) s regs u regs1"
      "node_value mem u regs1 (expr_id e) (node_width ?c (expr_id e)) m"
    have "sema (world u) = ?c" using u(1) by (simp add: extends_def)
    then show "computes p mem ?M (bind_act (get_sema (\<lambda>c. (expr_type c (expr_id e), expr_type c k))) h) u regs1 Q"
      using h [OF extends_ready [OF u(1)] u(2) [unfolded w]] t(1) tr(1)
      by (intro computes_reads(3) [OF extends_ready [OF u(1)]]) simp
  qed
  have result: "computes p mem ?M (bind_act (get_rvalue (expr_id e)) (\<lambda>v.
      bind_act (cast_value kd (width kd) 32 v (IntegerType (width kd)) (IntegerType 32)) (\<lambda>res. set_value k (Some res)))) u regs1
      (\<lambda>_ u regs'. node_value mem u regs' k 32 n)"
    if u: "ready p u" "node_value mem u regs1 (expr_id e) (width kd) m" for u regs1
    by (rule computes_bind [OF computes_get_rvalue [OF u]], simp, rule computes_result, rule cast, erule extends_ready, assumption) simp
  show ?thesis unfolding gen_cast_def w
    by (rule computes_in_function(1) [OF s], rule visited, simp add: t(2, 3) tr(2), rule computes_read, rule lower(1),
        rule computes_read, rule lower(2), simp add: t(3) result [simplified])
qed

text \<open>Every expression that is covered.\<close>

lemma computes_expr:
  shows "t = (t :: type_node)"
  and "\<forall>s regs n. before p mem vs s e n \<longrightarrow>
    computes p mem (set (ids_expr e)) (gen_expr e) s regs
      (\<lambda>_ u regs'. node_value mem u regs' (expr_id e) (node_width (sema (world s)) (expr_id e)) n)"
  and "st = (st :: stmt)"
  and "i = (i :: item)"
proof (induction t and e and st and i rule: type_node.induct expr.induct stmt.induct item.induct)
  case (LiteralExpr k t v)
  then show ?case using computes_literal by simp
next
  case (IdentifierExpr k name)
  then show ?case using computes_identifier by simp
next
  case (BinaryExpr k OP l r)
  then show ?case using computes_binary [of p mem vs _ k OP l r _ "gen_expr l" "gen_expr r"] by simp
next
  case (UnaryExpr k OP r)
  then show ?case using computes_unary [of p mem vs _ k OP r _ "gen_expr r"] by simp
next
  case (CastExpr k e ty)
  then show ?case using computes_cast [of p mem vs _ k e ty _ "gen_expr e"] by simp
qed (simp_all add: before_def)

text \<open>The operand for an expression that has been visited.\<close>

lemma computes_rvalue:
  assumes "before p mem vs s e n"
  shows "computes p mem (set (ids_expr e)) (then_act (gen_expr e) (get_rvalue (expr_id e))) s regs
    (\<lambda>v t regs'. has_value t regs' v (node_width (sema (world s)) (expr_id e)) n)"
proof -
  let ?w = "node_width (sema (world s)) (expr_id e)"
  have e: "computes p mem (set (ids_expr e)) (gen_expr e) s regs (\<lambda>_ u regs'. node_value mem u regs' (expr_id e) ?w n)"
    using computes_expr(2) assms by blast
  show ?thesis
    by (rule computes_then [OF e subset_refl], rule computes_mono, rule computes_get_rvalue) (auto dest: extends_ready)
qed

section \<open>Properties\<close>


text \<open>The expression \<open>x / 2 < 7\<close> with \<open>x\<close> of type \<open>u32\<close>, at the beginning of a function.\<close>

definition example_expr :: expr where
  "example_expr = BinaryExpr 0 BOP_LT (BinaryExpr 1 BOP_DIV (IdentifierExpr 2 ''x'') (LiteralExpr 3 LIT_NUMBER ''2''))
     (LiteralExpr 4 LIT_NUMBER ''7'')"

definition example_state :: irgen where
  "example_state =
     \<lparr>fn_ctx = Some ((new_context 0 0 0 1)\<lparr>local_slots := [9 \<mapsto> RegisterValue ''x.slot.0'' (PointerType (IntegerType 32))]\<rparr>),
      expr_value_map = Map.empty, expr_address_map = Map.empty,
      world =
        \<lparr>sema = new_checker
           \<lparr>identifier_expr_to_decl_map := [2 \<mapsto> LetStmt_decl 9],
            node_type_and_place_kind_map :=
              [0 \<mapsto> (BoolRealType NO_REF, NotPlace), 1 \<mapsto> (U32RealType NO_REF, NotPlace),
               2 \<mapsto> (U32RealType NO_REF, ReadOnlyPlace), 3 \<mapsto> (AnyIntRealType NO_REF, NotPlace),
               4 \<mapsto> (AnyIntRealType NO_REF, NotPlace)]\<rparr>,
         ir_builder = (new_builder ((new_module [] [])
           \<lparr>ir_functions := [(new_ir_function ''f'' (FunctionType VoidType []) False)\<lparr>blocks := [0, 1]\<rparr>],
            block_store := [\<lparr>block_label = ''entry.0'', instructions = []\<rparr>, \<lparr>block_label = ''return.0'', instructions = []\<rparr>]\<rparr>))
           \<lparr>insertion_block := Some 0, current_function := Some 0\<rparr>,
         type_lowering = new_type_lowering\<rparr>\<rparr>"


end
