(* ===== verification/LineCode.thy ===== *)
theory LineCode
  imports ExprCodegen
begin

section \<open>The code of an expression stays in its block\<close>

text \<open>
  What a visit of an expression without control flow does to the module, whether or not the expression has a value:
  it appends instructions to the current block, none of them a terminator, and changes nothing
  else but the maps at the nodes of the expression. This is needed of code that no
  execution reaches.
\<close>

definition line_step :: "block_ptr \<Rightarrow> nat set \<Rightarrow> irgen \<Rightarrow> irgen \<Rightarrow> bool" where
  "line_step p K s t \<longleftrightarrow>
     fn_ctx t = fn_ctx s \<and> sema (world t) = sema (world s)
     \<and> insertion_block (gbuilder t) = insertion_block (gbuilder s)
     \<and> (\<forall>k. k \<notin> K \<longrightarrow> expr_value_map t k = expr_value_map s k \<and> expr_address_map t k = expr_address_map s k)
     \<and> (\<forall>x. name_used (gbuilder s) x \<longrightarrow> name_used (gbuilder t) x)
     \<and> ir_functions (gmodule t) = ir_functions (gmodule s)
     \<and> length (block_store (gmodule t)) = length (block_store (gmodule s))
     \<and> (\<forall>q. q \<noteq> p \<longrightarrow> block_store (gmodule t) ! q = block_store (gmodule s) ! q)
     \<and> (\<exists>is. code p t = code p s @ is)"

lemma line_step_refl: "line_step p K s s"
  by (simp add: line_step_def)

lemma line_step_trans: "line_step p K s t \<Longrightarrow> line_step p K t u \<Longrightarrow> line_step p K s u"
  unfolding line_step_def by (elim conjE exE) (intro conjI; simp)

interpretation line: stepping "ready p" "line_step p K" for p K
  by unfold_locales (auto intro: line_step_refl line_step_trans)

abbreviation stays :: "block_ptr \<Rightarrow> nat set \<Rightarrow> 'a gen \<Rightarrow> bool" where
  "stays p K \<equiv> line.holds p K (\<lambda>_. True)"

lemma stays_reads: "(\<And>s x t. ready p s \<Longrightarrow> m s = Inr (x, t) \<Longrightarrow> t = s) \<Longrightarrow> stays p K m"
  by (rule line.holdsI) (auto intro: line_step_refl)

named_theorems stay_intros \<open>actions that append to the current block\<close>

lemma stays_reading [stay_intros]:
  "stays p K ensure_current_insertion" "stays p K current_fn" "stays p K (get_sema f)" "stays p K (lower_type ty)"
  "stays p K (lower_ptr o_t)" "stays p K (sema_res g)"
  by (rule stays_reads; auto simp: ready_reads lower_ptr_def lower_type_def sema_res_def in_back_def lower_act_def sem_act_def res_simps
      split: option.splits)+

text \<open>An instruction at the end of the current block.\<close>

lemma insert_run:
  assumes p: "insertion_block (gbuilder s) = Some p" "p < length (block_store (gmodule s))" "list_all (\<lambda>i. \<not> is_terminator i) (code p s)"
    and run: "build (insert_instruction i) s = Inr (x, t)"
  shows "t = s\<lparr>world := (world s)\<lparr>ir_builder := (gbuilder s)\<lparr>ir_module := (gmodule s)
      \<lparr>block_store := (block_store (gmodule s))[p := (block_store (gmodule s) ! p)\<lparr>instructions := code p s @ [i]\<rparr>]\<rparr>\<rparr>\<rparr>\<rparr>"
proof -
  let ?blk = "block_store (gmodule s) ! p"
  have "\<not> (instructions ?blk \<noteq> [] \<and> is_terminator (last (instructions ?blk)))" using p(3) by (auto simp: list_all_iff code_def)
  then have "block_append i ?blk = Inr (?blk\<lparr>instructions := instructions ?blk @ [i]\<rparr>)"
    unfolding block_append_def by (rule if_not_P)
  then show ?thesis using run p
    by (auto simp: build_def in_back_def in_builder_def insert_instruction_def block_at_def Let_def gbuilder_def gmodule_def code_def res_simps)
qed

lemma insert_stays [stay_intros]: "\<not> is_terminator i \<Longrightarrow> stays p K (build (insert_instruction i))"
proof (rule line.holdsI)
  fix s x t assume i: "\<not> is_terminator i" and s: "ready p s" and run: "build (insert_instruction i) s = Inr (x, t)"
  have p: "insertion_block (gbuilder s) = Some p" "p < length (block_store (gmodule s))" "list_all (\<lambda>i. \<not> is_terminator i) (code p s)"
    using s by (simp_all add: ready_def)
  note t = insert_run [OF p run]
  have len: "p < length (block_store (gmodule s))" using s by (simp add: ready_def)
  have code: "code p t = code p s @ [i]" using len by (simp add: t code_def gmodule_def gbuilder_def)
  have "line_step p K s t" unfolding line_step_def
    using code by (auto simp: t gmodule_def gbuilder_def)
  moreover have "ready p t" using s i code by (simp add: ready_def) (simp add: t gmodule_def gbuilder_def)
  ultimately show "ready p t \<and> line_step p K s t \<and> True" by simp
qed

lemma new_value_stays [stay_intros]:
  assumes i: "\<And>r. \<not> is_terminator (f (new_instruction OP ops (Some r)))"
  shows "stays p K (build (emit_new_value OP ops ty h f))"
proof (rule line.holdsI)
  fix s x t assume s: "ready p s" and run: "build (emit_new_value OP ops ty h f) s = Inr (x, t)"
  let ?r = "RegisterValue (name_of h (counter (gbuilder s) h)) ty"
  let ?s = "s\<lparr>world := (world s)\<lparr>ir_builder := count_up h (gbuilder s)\<rparr>\<rparr>"
  have ins: "build (insert_instruction (f (new_instruction OP ops (Some ?r)))) ?s = Inr ((), t)"
    using run by (auto simp: emit_new_value_def build_def in_back_def in_builder_def create_temp_eq res_simps gbuilder_def)
  have s': "ready p ?s" using s by (simp add: ready_def gmodule_def gbuilder_def code_def)
  have names: "name_used (gbuilder s) x \<Longrightarrow> name_used (gbuilder ?s) x" for x
    using count_up_used [of "gbuilder s"] by (simp add: gbuilder_def)
  have "ready p t \<and> line_step p K ?s t" using line.holdsD [OF insert_stays [OF i] s' _ ins] by simp
  moreover have "line_step p K s ?s" using names by (simp add: line_step_def gmodule_def gbuilder_def code_def)
  ultimately show "ready p t \<and> line_step p K s t \<and> True" using line_step_trans by blast
qed

lemma stays_build_if: "stays p K (build m) \<Longrightarrow> stays p K (build n) \<Longrightarrow> stays p K (build (if b then m else n))"
  by simp

lemma stays_throw [stay_intros]: "stays p K (build (throw_act e))"
  by (rule line.holdsI) (simp add: build_def in_back_def in_builder_def res_simps)

lemmas builder_defs = create_simple_arith_def create_add_def create_sub_def create_mul_def create_sdiv_def create_udiv_def
  create_srem_def create_urem_def create_and_def create_or_def create_xor_def create_shl_def create_lshr_def create_ashr_def
  create_cast_def create_zext_def create_sext_def create_trunc_def create_compare_def create_icmp_eq_def create_icmp_ne_def
  create_icmp_slt_def create_icmp_sle_def create_icmp_sgt_def create_icmp_sge_def create_icmp_ult_def create_icmp_ule_def
  create_icmp_ugt_def create_icmp_uge_def create_not_def

lemma operators_stay [stay_intros]:
  "stays p K (arith_op OP u l r)" "stays p K (compare_op OP u l r)" "stays p K (build (create_not v h))"
  "stays p K (build (create_sub v w h))" "stays p K (build (create_xor v w h))" "stays p K (build (create_zext v ty h))"
  "stays p K (build (create_icmp_ne v w h))"
  "stays p K (build (create_sext v ty h))" "stays p K (build (create_trunc v ty h))"
  unfolding arith_op_def compare_op_def builder_defs
  by (rule line.holds_if stays_build_if stay_intros | (simp add: is_terminator_def new_instruction_def; fail))+

lemma load_stays [stay_intros]: "stays p K (build (create_load a h))"
  unfolding create_load_def
  by (cases "value_type a"; simp; (rule stay_intros | (simp add: is_terminator_def new_instruction_def; fail))+)

lemma store_stays [stay_intros]: "stays p K (build (create_store v a))"
  unfolding create_store_def by (rule stay_intros) (simp add: is_terminator_def new_instruction_def)

lemma get_rvalue_stays [stay_intros]: "stays p K (get_rvalue k)"
  unfolding get_rvalue_def by (rule line.holds_rules stay_intros)+

lemma set_value_stays: "k \<in> K \<Longrightarrow> stays p K (set_value k v)" "k \<in> K \<Longrightarrow> stays p K (set_address k a)"
  by (rule line.holdsI; auto simp: set_value_def set_address_def res_simps line_step_def ready_def gmodule_def gbuilder_def code_def)+

lemma in_function_stays:
  "line.holds p K A m \<Longrightarrow> line.holds p K A (in_function e m)" "line.holds p K A m \<Longrightarrow> line.holds p K A (when_in_function m)"
  unfolding in_function_def when_in_function_def by (rule line.holds_rules | assumption)+

text \<open>In a function with the slots \<open>S\<close>.\<close>

definition inside :: "Semantic_Checker \<Rightarrow> (address \<rightharpoonup> IRValue) \<Rightarrow> irgen \<Rightarrow> bool" where
  "inside c S s \<longleftrightarrow> sema (world s) = c \<and> slots_of s = S"

lemma stays_inside: "stays p K m \<Longrightarrow> line.holds p K (inside c S) m"
  by (rule line.holds_frame) (auto simp: line_step_def inside_def slots_of_def)

lemma bind_sema_stays:
  "line.holds p K (inside c S) (k (f c)) \<Longrightarrow> line.holds p K (inside c S) (bind_act (get_sema f) k)"
  by (rule line.holdsI) (auto simp: get_sema_def res_simps inside_def dest: line.holdsD)

lemma slot_stays: "S d \<noteq> None \<Longrightarrow> line.holds p K (inside c S) (ensure_slot_for_decl d)"
  by (rule line.holdsI) (auto simp: ensure_slot_for_decl_def res_simps ready_reads inside_def slots_of_def ready_def
      intro: line_step_refl split: option.splits)

subsection \<open>Expressions\<close>

lemma gen_operation_stays:
  "k \<in> K \<Longrightarrow> (\<And>OP u a b. stays p K (f OP u a b)) \<Longrightarrow> stays p K (gen_operation f k OP l r)"
  unfolding gen_operation_def by (rule line.holds_rules stay_intros set_value_stays | assumption)+

lemma gen_unary_stays: "k \<in> K \<Longrightarrow> OP \<in> {UOP_NEG, UOP_NOT} \<Longrightarrow> stays p K (gen_unary k OP r)"
  unfolding gen_unary_def
  by (cases OP; simp only: Unary_Operator.case; (rule line.holds_rules stay_intros set_value_stays | assumption | (simp; fail))+)

lemma cast_value_stays [stay_intros]: "stays p K (cast_value sk m n v s_type t_type)"
  unfolding cast_value_def by (rule line.holds_rules stays_build_if stay_intros)+

lemma gen_cast_stays:
  assumes "line.holds p K (inside c S) visit" "k \<in> K"
  shows "line.holds p K (inside c S) (gen_cast k e visit)"
  unfolding gen_cast_def
  by (rule in_function_stays line.holds_rules assms(1) | (rule stays_inside, rule stay_intros) | (rule stays_inside, rule set_value_stays, rule assms(2))
     | split IRType.split prod.split option.split | (intro conjI allI impI))+

lemma gen_literal_stays:
  assumes "k \<in> K" "t \<in> {LIT_NUMBER, LIT_BOOL}"
  shows "stays p K (gen_literal k t v)"
proof -
  have number: "stays p K (gen_literal k LIT_NUMBER v)" and bool: "stays p K (gen_literal k LIT_BOOL v)"
    unfolding gen_literal_def LiteralType.case by (rule line.holds_rules stay_intros set_value_stays assms(1))+
  show ?thesis using number bool assms(2) by auto
qed

text \<open>Every expression that is covered.\<close>

lemma expr_stays:
  shows "t = (t :: type_node)"
  and "\<forall>K. scalar_expr c S e \<longrightarrow> set (ids_expr e) \<subseteq> K \<longrightarrow> line.holds p K (inside c S) (gen_expr e)"
  and "st = (st :: stmt)"
  and "i = (i :: item)"
proof (induction t and e and st and i rule: type_node.induct expr.induct stmt.induct item.induct)
  case (LiteralExpr k t v)
  then show ?case by (auto intro!: stays_inside gen_literal_stays split: LiteralType.splits)
next
  case (IdentifierExpr k name)
  show ?case
  proof (intro allI impI)
    fix K assume sc: "scalar_expr c S (IdentifierExpr k name)" and K: "set (ids_expr (IdentifierExpr k name)) \<subseteq> K"
    then obtain a where a: "identifier_expr_to_decl_map c k = Some (LetStmt_decl a)" "S a \<noteq> None"
      by (auto split: option.splits ValueDecl.splits)
    show "line.holds p K (inside c S) (gen_expr (IdentifierExpr k name))"
      unfolding gen_expr.simps gen_identifier_def
      by (rule bind_sema_stays, simp add: a(1),
          rule line.holds_then, rule stays_inside, rule stay_intros, rule line.holds_bind, rule slot_stays, rule a(2),
          rule stays_inside, rule set_value_stays) (use K in auto)
  qed
next
  case (BinaryExpr k OP l r)
  show ?case
  proof (intro allI impI)
    fix K assume sc: "scalar_expr c S (BinaryExpr k OP l r)" and K: "set (ids_expr (BinaryExpr k OP l r)) \<subseteq> K"
    have l: "line.holds p K (inside c S) (gen_expr l)" and r: "line.holds p K (inside c S) (gen_expr r)"
      using BinaryExpr sc K by auto
    have k: "k \<in> K" using K by simp
    have operation: "line.holds p K (inside c S)
        (when_in_function (then_act (gen_expr l) (then_act (gen_expr r) (gen_operation f k OP (expr_id l) (expr_id r)))))"
      if "\<And>OP u a b. stays p K (f OP u a b)" for f
      by (rule in_function_stays, rule line.holds_then, rule l, rule line.holds_then, rule r, rule stays_inside,
          rule gen_operation_stays, rule k, rule that)
    have "is_arithmetic OP \<or> is_comparison OP" using sc by auto
    then have "\<not> is_assignment OP" "is_arithmetic OP \<or> is_comparison OP"
      by (auto simp: is_arithmetic_def is_comparison_def is_assignment_def)
    then show "line.holds p K (inside c S) (gen_expr (BinaryExpr k OP l r))"
      unfolding gen_expr.simps gen_binary_def using operation [OF operators_stay(1)] operation [OF operators_stay(2)]
      by (elim disjE) simp_all
  qed
next
  case (UnaryExpr k OP r)
  then show ?case
    by (auto intro!: in_function_stays line.holds_then stays_inside [OF gen_unary_stays])
next
  case (CastExpr k e ty)
  then show ?case by (auto intro!: gen_cast_stays)
qed simp_all

end
