(* ===== verification/StmtMeaning.thy ===== *)
theory StmtMeaning
  imports ExprMeaning
begin

section \<open>What statements and blocks of instructions mean\<close>

text \<open>
  The semantics to which the code of statements is compared. On the side of the language, a relation between the
  values of the variables before and after: \<open>let\<close>, assignments, branches, loops and blocks over the
  expressions of \<open>expr_value\<close>. A statement that panics or runs forever relates to nothing. On the side of LLVM, the
  steps of a machine that jumps between the blocks of a module.
\<close>

subsection \<open>Statements\<close>

text \<open>The kind of a local variable of a scalar type.\<close>

definition var_kind :: "Semantic_Checker \<Rightarrow> address \<Rightarrow> RealTypeKind option" where
  "var_kind c a =
     (case let_decls c a of
        Some ld \<Rightarrow>
          if is_ref (let_type ld) = NO_REF \<and> kind (let_type ld) \<in> insert RTK_BOOL int_kinds
          then Some (kind (let_type ld)) else None
      | None \<Rightarrow> None)"

text \<open>The operator of a compound assignment.\<close>

definition assigned_op :: "Binary_Operator \<Rightarrow> Binary_Operator option" where
  "assigned_op OP =
     (case OP of
        BOP_ADD_ASSIGN \<Rightarrow> Some BOP_ADD
      | BOP_SUB_ASSIGN \<Rightarrow> Some BOP_SUB
      | BOP_MUL_ASSIGN \<Rightarrow> Some BOP_MUL
      | BOP_DIV_ASSIGN \<Rightarrow> Some BOP_DIV
      | BOP_MOD_ASSIGN \<Rightarrow> Some BOP_MOD
      | BOP_AND_ASSIGN \<Rightarrow> Some BOP_AND
      | BOP_OR_ASSIGN \<Rightarrow> Some BOP_OR
      | BOP_XOR_ASSIGN \<Rightarrow> Some BOP_XOR
      | BOP_SHL_ASSIGN \<Rightarrow> Some BOP_SHL
      | BOP_SHR_ASSIGN \<Rightarrow> Some BOP_SHR
      | _ \<Rightarrow> None)"

type_synonym variables = "address \<rightharpoonup> int"

inductive runs_expr :: "Semantic_Checker \<Rightarrow> expr \<Rightarrow> variables \<Rightarrow> variables \<Rightarrow> bool"
  and runs_stmt :: "Semantic_Checker \<Rightarrow> stmt \<Rightarrow> variables \<Rightarrow> variables \<Rightarrow> bool"
  and runs_stmts :: "Semantic_Checker \<Rightarrow> stmt list \<Rightarrow> variables \<Rightarrow> variables \<Rightarrow> bool"
  for c :: Semantic_Checker
where
  runs_assign: "identifier_expr_to_decl_map c j = Some (LetStmt_decl a) \<Longrightarrow> var_kind c a = Some kd \<Longrightarrow>
    expr_value c vs r = Some n \<Longrightarrow> fits kd n \<Longrightarrow>
    runs_expr c (BinaryExpr k BOP_ASSIGN (IdentifierExpr j x) r) vs (vs(a \<mapsto> n))"
| runs_compound: "assigned_op OP = Some OP' \<Longrightarrow> identifier_expr_to_decl_map c j = Some (LetStmt_decl a) \<Longrightarrow> vs a = Some m \<Longrightarrow>
    scalar_kind c j = Some ka \<Longrightarrow> scalar_kind c (expr_id r) = Some kb \<Longrightarrow> expr_value c vs r = Some n \<Longrightarrow>
    binary_value OP' ka kb m n = Some z \<Longrightarrow>
    runs_expr c (BinaryExpr k OP (IdentifierExpr j x) r) vs (vs(a \<mapsto> z))"
| runs_if_true: "expr_value c vs g = Some 1 \<Longrightarrow> runs_expr c a vs vs' \<Longrightarrow> runs_expr c (IfExpr k g a b u) vs vs'"
| runs_if_false: "expr_value c vs g = Some 0 \<Longrightarrow> runs_expr c b vs vs' \<Longrightarrow> runs_expr c (IfExpr k g a (Some b) u) vs vs'"
| runs_if_skip: "expr_value c vs g = Some 0 \<Longrightarrow> runs_expr c (IfExpr k g a None u) vs vs"
| runs_while_end: "expr_value c vs g = Some 0 \<Longrightarrow> runs_expr c (WhileExpr k g b) vs vs"
| runs_while_again: "expr_value c vs g = Some 1 \<Longrightarrow> runs_expr c b vs vs1 \<Longrightarrow> runs_expr c (WhileExpr k g b) vs1 vs2 \<Longrightarrow>
    runs_expr c (WhileExpr k g b) vs vs2"
| runs_block: "runs_stmts c ss vs vs' \<Longrightarrow> runs_expr c (BlockExpr k ss None u) vs vs'"
| runs_block_tail: "runs_stmts c ss vs vs1 \<Longrightarrow> runs_stmt c t vs1 vs2 \<Longrightarrow> runs_expr c (BlockExpr k ss (Some t) u) vs vs2"
| runs_effect: "runs_expr c e vs vs' \<Longrightarrow> runs_stmt c (ExprStmt k e semi) vs vs'"
| runs_value: "expr_value c vs e = Some n \<Longrightarrow> runs_stmt c (ExprStmt k e semi) vs vs"
| runs_let: "let_stmt_to_decl_map c k = Some a \<Longrightarrow> var_kind c a = Some kd \<Longrightarrow> expr_value c vs e = Some n \<Longrightarrow> fits kd n \<Longrightarrow>
    runs_stmt c (LetStmt k p t (Some e)) vs (vs(a \<mapsto> n))"
| runs_declare: "let_stmt_to_decl_map c k = Some a \<Longrightarrow> runs_stmt c (LetStmt k p t None) vs (vs(a := None))"
| runs_nothing: "runs_stmts c [] vs vs"
| runs_one: "runs_stmt c s vs vs1 \<Longrightarrow> runs_stmts c ss vs1 vs2 \<Longrightarrow> runs_stmts c (s # ss) vs vs2"

inductive_cases runs_binaryE: "runs_expr c (BinaryExpr k OP l r) vs vs'"
inductive_cases runs_ifE: "runs_expr c (IfExpr k g a b u) vs vs'"
inductive_cases runs_blockE: "runs_expr c (BlockExpr k ss t u) vs vs'"
inductive_cases runs_expr_stmtE: "runs_stmt c (ExprStmt k e semi) vs vs'"
inductive_cases runs_letE: "runs_stmt c (LetStmt k p t e) vs vs'"
inductive_cases runs_nilE: "runs_stmts c [] vs vs'"
inductive_cases runs_consE: "runs_stmts c (s # ss) vs vs'"

subsection \<open>Blocks\<close>

text \<open>
  A configuration has a block, a position in it, the registers and the memory. The memory is named by the registers
  that hold the addresses of the slots; reserving a slot changes nothing, so that the code of a block
  is read without its \<open>alloca\<close> instructions.
\<close>

type_synonym config = "block_ptr \<times> nat \<times> registers \<times> (string \<rightharpoonup> int)"

definition body :: "IRModule \<Rightarrow> block_ptr \<Rightarrow> IRInstruction list" where
  "body m p = filter (\<lambda>i. inst_opcode i \<noteq> Op_Alloca) (instructions (block_store m ! p))"

definition store_bits :: "IRInstruction \<Rightarrow> registers \<Rightarrow> (string \<rightharpoonup> int) \<Rightarrow> (string \<rightharpoonup> int) option" where
  "store_bits i regs mem =
     (case operands i of
        [v, a] \<Rightarrow>
          (case (operand_value regs v, a) of
             (Some x, RegisterValue slot _) \<Rightarrow> Some (mem(slot \<mapsto> x))
           | _ \<Rightarrow> None)
      | _ \<Rightarrow> None)"

definition jump_target :: "IRInstruction \<Rightarrow> registers \<Rightarrow> block_ptr option" where
  "jump_target i regs =
     (case operands i of
        [v] \<Rightarrow>
          (case operand_value regs v of
             Some x \<Rightarrow> if x = 0 then false_target i else true_target i
           | None \<Rightarrow> None)
      | _ \<Rightarrow> None)"

definition machine_step :: "IRModule \<Rightarrow> config \<Rightarrow> config option" where
  "machine_step m =
     (\<lambda>(p, k, regs, mem).
        if p < length (block_store m) \<and> k < length (body m p) then
          (let i = body m p ! k
           in case inst_opcode i of
                Op_Br \<Rightarrow> map_option (\<lambda>q. (q, 0, regs, mem)) (branch_target i)
              | Op_CondBr \<Rightarrow> map_option (\<lambda>q. (q, 0, regs, mem)) (jump_target i regs)
              | Op_Store \<Rightarrow> map_option (\<lambda>mem. (p, Suc k, regs, mem)) (store_bits i regs mem)
              | _ \<Rightarrow> map_option (\<lambda>regs. (p, Suc k, regs, mem)) (run_instruction mem i regs))
        else None)"

inductive reaches :: "IRModule \<Rightarrow> config \<Rightarrow> config \<Rightarrow> bool" for m where
  reaches_here: "reaches m x x"
| reaches_step: "machine_step m x = Some y \<Longrightarrow> reaches m y z \<Longrightarrow> reaches m x z"

lemma reaches_trans: "reaches m x y \<Longrightarrow> reaches m y z \<Longrightarrow> reaches m x z"
  by (induction rule: reaches.induct) (auto intro: reaches.intros)

lemma reaches_one: "machine_step m x = Some y \<Longrightarrow> reaches m x y"
  by (rule reaches_step [OF _ reaches_here])

text \<open>The machine is a function of its configuration, so that a configuration without a successor is reached at most once.\<close>

lemma reaches_final: "reaches m x y \<Longrightarrow> reaches m x z \<Longrightarrow> machine_step m y = None \<Longrightarrow> machine_step m z = None \<Longrightarrow> y = z"
proof (induction rule: reaches.induct)
  case (reaches_here x)
  then show ?case by (cases rule: reaches.cases) simp_all
next
  case (reaches_step x y w)
  from reaches_step.prems(1) show ?case
  proof (cases rule: reaches.cases)
    case reaches_here
    then show ?thesis using reaches_step by simp
  next
    case (reaches_step y')
    then show ?thesis using \<open>machine_step m x = Some y\<close> reaches_step.prems reaches_step.IH by simp
  qed
qed

subsection \<open>Code that is part of a block\<close>

text \<open>A module in which every block of \<open>m\<close> goes on at least as far.\<close>

definition continues :: "IRModule \<Rightarrow> IRModule \<Rightarrow> bool" where
  "continues m n \<longleftrightarrow>
     length (block_store m) \<le> length (block_store n) \<and> (\<forall>p<length (block_store m). \<exists>ys. body n p = body m p @ ys)"

lemma continues_refl: "continues m m"
  by (simp add: continues_def)

lemma continues_trans: "continues m n \<Longrightarrow> continues n k \<Longrightarrow> continues m k"
  unfolding continues_def by (metis append_assoc order_less_le_trans le_trans)

lemma continues_nth: "continues m n \<Longrightarrow> p < length (block_store m) \<Longrightarrow> k < length (body m p) \<Longrightarrow>
    p < length (block_store n) \<and> k < length (body n p) \<and> body n p ! k = body m p ! k"
  unfolding continues_def by (metis nth_append length_append trans_less_add1 order_less_le_trans)

text \<open>An instruction with a result, at its place.\<close>

lemma result_opcode: "run_instruction mem i regs = Some regs' \<Longrightarrow>
    inst_opcode i \<notin> {Op_Br, Op_CondBr, Op_Store, Op_Alloca}"
  by (auto simp: run_instruction_def result_bits_def arith_bits_def cast_bits_def split: option.splits IRValue.splits
      list.splits IRType.splits if_splits)

lemma machine_instruction:
  assumes "p < length (block_store m)" "k < length (body m p)" "run_instruction mem (body m p ! k) regs = Some regs'"
  shows "machine_step m (p, k, regs, mem) = Some (p, Suc k, regs', mem)"
  using assms result_opcode [OF assms(3)] by (simp add: machine_step_def Let_def split: Opcode.split)

lemma reaches_code:
  "run_code mem is regs = Some regs' \<Longrightarrow> p < length (block_store m) \<Longrightarrow> body m p = pre @ is @ post \<Longrightarrow>
    reaches m (p, length pre, regs, mem) (p, length pre + length is, regs', mem)"
proof (induction "is" arbitrary: regs pre)
  case Nil
  then show ?case by (simp add: reaches_here)
next
  case (Cons i "is")
  from Cons.prems(1) obtain regs1 where i: "run_instruction mem i regs = Some regs1" and rest: "run_code mem is regs1 = Some regs'"
    by (cases "run_instruction mem i regs") auto
  have "machine_step m (p, length pre, regs, mem) = Some (p, Suc (length pre), regs1, mem)"
    using Cons.prems(2, 3) i by (intro machine_instruction) simp_all
  moreover have "reaches m (p, length (pre @ [i]), regs1, mem) (p, length (pre @ [i]) + length is, regs', mem)"
    using Cons.prems(2, 3) rest by (intro Cons.IH) simp_all
  ultimately show ?case by (auto intro: reaches_step)
qed

text \<open>The instructions of \<open>run_code\<close> reserve no slots.\<close>

lemma run_code_body: "run_code mem is regs = Some regs' \<Longrightarrow> filter (\<lambda>i. inst_opcode i \<noteq> Op_Alloca) is = is"
proof (induction "is" arbitrary: regs)
  case (Cons i "is")
  then show ?case using result_opcode by (cases "run_instruction mem i regs") auto
qed simp

end
