(* ===== verification/BlockCode.thy ===== *)
theory BlockCode
  imports LineCode StmtMeaning
begin

section \<open>Adding code to the blocks of a function\<close>

text \<open>
  The visits of statements append to the current block and make new blocks. A state in which code can be added
  is \<open>open_at\<close> a block; what a visit does to the state is \<open>changes\<close>, with the set of old
  blocks that may have grown.
\<close>

subsection \<open>States between two statements\<close>

definition slot_name :: "(address \<rightharpoonup> IRValue) \<Rightarrow> address \<Rightarrow> string option" where
  "slot_name S a = (case S a of Some v \<Rightarrow> (case v of RegisterValue x _ \<Rightarrow> Some x | _ \<Rightarrow> None) | None \<Rightarrow> None)"

text \<open>The slots of values that have no variable are named without a hint.\<close>

definition temporary :: "string \<Rightarrow> bool" where
  "temporary x \<longleftrightarrow> (\<exists>n. x = name_of [] n)"

text \<open>Every slot is for a scalar variable, and no two variables share one.\<close>

definition good_slots :: "Semantic_Checker \<Rightarrow> (address \<rightharpoonup> IRValue) \<Rightarrow> bool" where
  "good_slots c S \<longleftrightarrow>
     (\<forall>a v. S a = Some v \<longrightarrow> (\<exists>kd x. var_kind c a = Some kd \<and> v = RegisterValue x (PointerType (IntegerType (width kd)))))
     \<and> (\<forall>a b x. slot_name S a = Some x \<longrightarrow> slot_name S b = Some x \<longrightarrow> a = b)
     \<and> (\<forall>a x. slot_name S a = Some x \<longrightarrow> \<not> temporary x)"

definition steady :: "irgen \<Rightarrow> bool" where
  "steady s \<longleftrightarrow>
     gen_ok s \<and> fn_ctx s \<noteq> None \<and> good_slots (sema (world s)) (slots_of s)
     \<and> (\<forall>a x. slot_name (slots_of s) a = Some x \<longrightarrow> name_used (gbuilder s) x)"

definition at_point :: "block_ptr \<Rightarrow> irgen \<Rightarrow> bool" where
  "at_point p s \<longleftrightarrow>
     steady s \<and> insertion_block (gbuilder s) = Some p \<and> list_all (\<lambda>i. \<not> is_terminator i) (body (gmodule s) p)"

definition open_at :: "block_ptr \<Rightarrow> irgen \<Rightarrow> bool" where
  "open_at p s \<longleftrightarrow>
     at_point p s \<and> pred_option (\<lambda>ctx. current_block ctx = Some p \<and> \<not> block_sealed ctx) (fn_ctx s)"

definition changes :: "block_ptr set \<Rightarrow> nat set \<Rightarrow> irgen \<Rightarrow> irgen \<Rightarrow> bool" where
  "changes Q K s t \<longleftrightarrow>
     gen_step s t \<and> sema (world t) = sema (world s)
     \<and> (\<forall>k. k \<notin> K \<longrightarrow> expr_value_map t k = expr_value_map s k \<and> expr_address_map t k = expr_address_map s k)
     \<and> map_le (slots_of s) (slots_of t)
     \<and> continues (gmodule s) (gmodule t)
     \<and> (\<forall>q<length (block_store (gmodule s)). q \<notin> Q \<longrightarrow> body (gmodule t) q = body (gmodule s) q)"

lemma changes_refl: "gen_ok s \<Longrightarrow> changes Q K s s"
  using generating.step_refl by (simp add: changes_def continues_refl)

lemma changes_trans:
  assumes a: "changes Q K s t" and b: "changes R L t u" and K: "K \<subseteq> M" "L \<subseteq> M"
    and Q: "Q \<subseteq> P" "\<And>q. q \<in> R \<Longrightarrow> q < length (block_store (gmodule s)) \<Longrightarrow> q \<in> P"
  shows "changes P M s u"
proof -
  have "length (block_store (gmodule s)) \<le> length (block_store (gmodule t))" using a by (simp add: changes_def continues_def)
  then have "\<forall>q<length (block_store (gmodule s)). q \<notin> P \<longrightarrow> body (gmodule u) q = body (gmodule s) q"
    using a b Q unfolding changes_def by (metis in_mono order_less_le_trans)
  moreover have "\<forall>k. k \<notin> M \<longrightarrow> expr_value_map u k = expr_value_map s k \<and> expr_address_map u k = expr_address_map s k"
    using a b K unfolding changes_def by (metis in_mono)
  moreover have "gen_step s u" "continues (gmodule s) (gmodule u)" "map_le (slots_of s) (slots_of u)" "sema (world u) = sema (world s)"
    using a b by (auto simp: changes_def intro: generating.step_trans continues_trans map_le_trans)
  ultimately show ?thesis by (simp add: changes_def)
qed

lemma changes_mono: "changes Q K s t \<Longrightarrow> Q \<subseteq> P \<Longrightarrow> K \<subseteq> M \<Longrightarrow> changes P M s t"
  unfolding changes_def by blast

lemma changesD:
  assumes "changes Q K s t"
  shows "sema (world t) = sema (world s)" "map_le (slots_of s) (slots_of t)" "continues (gmodule s) (gmodule t)"
    "length (block_store (gmodule s)) \<le> length (block_store (gmodule t))" "own s \<subseteq> own t"
    "q < length (block_store (gmodule s)) \<Longrightarrow> q \<notin> Q \<Longrightarrow> body (gmodule t) q = body (gmodule s) q"
    "k \<notin> K \<Longrightarrow> expr_value_map t k = expr_value_map s k"
  using assms own_grows [of s t] by (auto simp: changes_def continues_def)

lemma changes_unvisited: "changes Q K s t \<Longrightarrow> K \<inter> set (ids_expr e) = {} \<Longrightarrow> unvisited s e \<Longrightarrow> unvisited t e"
  unfolding changes_def unvisited_def list_all_iff by (metis IntI empty_iff)

text \<open>The terminators of a block are in its body.\<close>

lemma body_terminators: "list_all (\<lambda>i. \<not> is_terminator i) (body (gmodule s) p) = list_all (\<lambda>i. \<not> is_terminator i) (code p s)"
  by (auto simp: body_def code_def list_all_iff is_terminator_def)

lemma function_of_own:
  "distinct (concat (map blocks fs)) \<Longrightarrow> f < length fs \<Longrightarrow> p \<in> set (blocks (fs ! f)) \<Longrightarrow> function_of_block p fs = Some f"
proof (induction fs arbitrary: f)
  case (Cons g fs)
  then show ?case by (cases f) (auto dest: nth_mem)
qed simp

lemma open_block:
  assumes "gen_ok s" "insertion_block (gbuilder s) = Some p"
  shows "p < length (block_store (gmodule s))" "current_function (gbuilder s) \<noteq> None"
    "function_of_block p (ir_functions (gmodule s)) = current_function (gbuilder s)"
proof -
  have m: "module_ok (gmodule s)" using assms(1) by (simp add: gen_ok_def builder_ok_def gmodule_def)
  obtain f where f: "current_function (gbuilder s) = Some f" "p \<in> fn_blocks (gmodule s) f"
    using assms by (auto simp: gen_ok_def builder_ok_def point_ok_def gmodule_def split: option.splits)
  show "p < length (block_store (gmodule s))" by (rule block_in_store [OF m f(2)])
  show "current_function (gbuilder s) \<noteq> None" using f(1) by simp
  show "function_of_block p (ir_functions (gmodule s)) = current_function (gbuilder s)"
    using f m by (auto simp: fn_blocks_def module_ok_def intro!: function_of_own split: if_splits)
qed

lemma open_ready: "open_at p s \<Longrightarrow> ready p s"
  using open_block [of s p] unfolding open_at_def at_point_def steady_def ready_def body_terminators
  by (auto simp: pred_option_def)

lemma pointD:
  assumes "at_point p s"
  shows "gen_ok s" "steady s" "insertion_block (gbuilder s) = Some p" "p < length (block_store (gmodule s))" "p \<in> own s"
proof -
  show ok: "gen_ok s" and "steady s" and p: "insertion_block (gbuilder s) = Some p"
    using assms by (simp_all add: at_point_def steady_def)
  show "p < length (block_store (gmodule s))" using open_block [OF ok p] by simp
  show "p \<in> own s" using ok p by (auto simp: gen_ok_def known_def)
qed

lemma open_point: "open_at p s \<Longrightarrow> at_point p s"
  by (simp add: open_at_def)

lemmas openD = pointD [OF open_point]

subsection \<open>Straight code\<close>

lemma line_changes:
  assumes s: "open_at p s" and step: "line_step p K s t" and t: "gen_ok t" "gen_step s t" "ready p t"
  shows "open_at p t" "changes {p} K s t"
proof -
  have same: "slots_of t = slots_of s" "fn_ctx t = fn_ctx s" using step by (simp_all add: line_step_def slots_of_def)
  have "steady t" using s t(1) step same by (simp add: open_at_def at_point_def steady_def line_step_def)
  then show "open_at p t" using s same t(3) step unfolding open_at_def at_point_def body_terminators by (simp add: ready_def line_step_def)
  have other: "body (gmodule t) q = body (gmodule s) q" if "q \<noteq> p" for q
    using step that by (simp add: line_step_def body_def)
  have "\<exists>ys. body (gmodule t) p = body (gmodule s) p @ ys" using step by (auto simp: line_step_def body_def code_def)
  then have "continues (gmodule s) (gmodule t)" using other step
    unfolding continues_def line_step_def by (metis append_Nil2 order_refl)
  then show "changes {p} K s t" using t(2) step other same by (simp add: changes_def line_step_def)
qed

lemma line_code:
  assumes s: "open_at p s" and run: "m s = Inr (x, t)"
    and line: "line.holds p K (inside (sema (world s)) (slots_of s)) m" and ok: "visits {} m"
  shows "open_at p t" "changes {p} K s t"
    "computes p mem L m s regs Q \<Longrightarrow> continues (gmodule t) n \<Longrightarrow>
      \<exists>regs'. reaches n (p, length (body (gmodule s) p), regs, mem) (p, length (body (gmodule t) p), regs', mem) \<and> Q x t regs'"
proof -
  have t: "ready p t" "line_step p K s t"
    using line.holdsD [OF line open_ready [OF s] _ run] by (simp_all add: inside_def)
  have g: "gen_ok t" "gen_step s t" using generating.holdsD [OF ok openD(1) [OF s] _ run] by (simp_all add: knows_def)
  show "open_at p t" and ch: "changes {p} K s t" using line_changes [OF s t(2) g t(1)] by simp_all
  assume c: "computes p mem L m s regs Q" and n: "continues (gmodule t) n"
  from c run obtain regs' "is" where code: "code p t = code p s @ is" and rc: "run_code mem is regs = Some regs'" and Q: "Q x t regs'"
    by (auto simp: computes_def extends_def)
  have b: "body (gmodule t) p = body (gmodule s) p @ is" using code run_code_body [OF rc] by (simp add: body_def code_def)
  have p: "p < length (block_store (gmodule t))" using t(1) by (simp add: ready_def)
  then obtain ys where ys: "body n p = body (gmodule t) p @ ys" using n by (auto simp: continues_def)
  have "p < length (block_store n)" using p n by (simp add: continues_def)
  from reaches_code [OF rc this, of "body (gmodule s) p" ys] Q
  show "\<exists>regs'. reaches n (p, length (body (gmodule s) p), regs, mem) (p, length (body (gmodule t) p), regs', mem) \<and> Q x t regs'"
    by (auto simp: ys b)
qed

subsection \<open>Single instructions\<close>

text \<open>The states that an instruction leaves: nothing but its block has changed.\<close>

lemma append_code:
  assumes s: "at_point p s" and run: "build (insert_instruction i) s = Inr (x, t)" and i: "inst_opcode i \<noteq> Op_Alloca"
    and t: "gen_ok t" "gen_step s t"
  shows "steady t" "changes {p} {} s t" "body (gmodule t) p = body (gmodule s) p @ [i]" "fn_ctx t = fn_ctx s"
    "insertion_block (gbuilder t) = Some p" "\<not> is_terminator i \<Longrightarrow> at_point p t"
proof -
  have p: "p < length (block_store (gmodule s))" using pointD [OF s] by simp
  have "list_all (\<lambda>i. \<not> is_terminator i) (code p s)" using s by (simp add: at_point_def body_terminators)
  note t_def = insert_run [OF pointD(3) [OF s] p this run]
  show b: "body (gmodule t) p = body (gmodule s) p @ [i]" using p i by (simp add: t_def body_def code_def gmodule_def gbuilder_def)
  have other: "q \<noteq> p \<Longrightarrow> body (gmodule t) q = body (gmodule s) q" for q
    by (simp add: t_def body_def gmodule_def gbuilder_def)
  show c: "fn_ctx t = fn_ctx s" by (simp add: t_def)
  have same: "slots_of t = slots_of s" "sema (world t) = sema (world s)" "name_used (gbuilder t) = name_used (gbuilder s)"
    "insertion_block (gbuilder t) = insertion_block (gbuilder s)" "expr_value_map t = expr_value_map s"
    "expr_address_map t = expr_address_map s" "length (block_store (gmodule t)) = length (block_store (gmodule s))"
    by (simp_all add: t_def slots_of_def gbuilder_def gmodule_def)
  show "insertion_block (gbuilder t) = Some p" using same s by (simp add: at_point_def)
  show st: "steady t" using s t(1) same c by (simp add: at_point_def steady_def)
  have "continues (gmodule s) (gmodule t)" using other b same(7) unfolding continues_def by (metis append_Nil2 order_refl)
  then show "changes {p} {} s t" using t(2) other same by (simp add: changes_def)
  show "at_point p t" if "\<not> is_terminator i" using s st b c same that by (simp add: at_point_def)
qed

lemma code_at:
  assumes "body (gmodule t) p = body (gmodule s) p @ [i]" "p < length (block_store (gmodule t))" "continues (gmodule t) n"
  shows "p < length (block_store n)" "length (body (gmodule s) p) < length (body n p)" "body n p ! length (body (gmodule s) p) = i"
  using continues_nth [OF assms(3, 2), of "length (body (gmodule s) p)"] assms(1) by simp_all

lemma store_code:
  assumes s: "open_at p s" and run: "build (create_store v (RegisterValue x ty)) s = Inr (u, t)"
  shows "open_at p t" "changes {p} {} s t"
    "continues (gmodule t) n \<Longrightarrow> operand_value regs v = Some z \<Longrightarrow>
      reaches n (p, length (body (gmodule s) p), regs, mem) (p, length (body (gmodule t) p), regs, mem(x \<mapsto> z))"
proof -
  let ?i = "new_instruction Op_Store [v, RegisterValue x ty] None"
  have g: "gen_ok t" "gen_step s t"
    using generating.holdsD [OF build_visits [OF store_keeps] openD(1) [OF s] _ run, of "{}"] by (simp_all add: knows_def)
  have i: "inst_opcode ?i \<noteq> Op_Alloca" "\<not> is_terminator ?i" by (simp_all add: new_instruction_def is_terminator_def)
  note a = append_code [OF open_point [OF s] run [unfolded create_store_def] i(1) g]
  show "open_at p t" using a(4, 6) i(2) s by (simp add: open_at_def)
  show "changes {p} {} s t" using a(2) .
  assume n: "continues (gmodule t) n" and v: "operand_value regs v = Some z"
  have "p < length (block_store (gmodule t))" using openD(4) [OF \<open>open_at p t\<close>] .
  note at = code_at [OF a(3) this n]
  have "machine_step n (p, length (body (gmodule s) p), regs, mem) = Some (p, Suc (length (body (gmodule s) p)), regs, mem(x \<mapsto> z))"
    using at v by (simp add: machine_step_def new_instruction_def store_bits_def)
  then show "reaches n (p, length (body (gmodule s) p), regs, mem) (p, length (body (gmodule t) p), regs, mem(x \<mapsto> z))"
    using a(3) by (simp add: reaches_one)
qed

lemma br_code:
  assumes s: "at_point p s" and q: "q \<in> own s" and run: "build (create_br q) s = Inr (u, t)"
  shows "steady t" "changes {p} {} s t" "fn_ctx t = fn_ctx s"
    "continues (gmodule t) n \<Longrightarrow> reaches n (p, length (body (gmodule s) p), regs, mem) (q, 0, regs, mem)"
proof -
  let ?i = "(new_instruction Op_Br [] None)\<lparr>branch_target := Some q\<rparr>"
  have g: "gen_ok t" "gen_step s t"
    using generating.holdsD [OF br_visits [of q "{q}"] pointD(1) [OF s] _ run] q by (simp_all add: knows_def)
  have i: "inst_opcode ?i \<noteq> Op_Alloca" by (simp add: new_instruction_def)
  note a = append_code [OF s run [unfolded create_br_def] i g]
  show "steady t" "changes {p} {} s t" "fn_ctx t = fn_ctx s" using a by simp_all
  assume n: "continues (gmodule t) n"
  have "p < length (block_store (gmodule t))" using open_block [OF g(1) a(5)] by simp
  note at = code_at [OF a(3) this n]
  have "machine_step n (p, length (body (gmodule s) p), regs, mem) = Some (q, 0, regs, mem)"
    using at by (simp add: machine_step_def new_instruction_def)
  then show "reaches n (p, length (body (gmodule s) p), regs, mem) (q, 0, regs, mem)" by (rule reaches_one)
qed

lemma cond_br_code:
  assumes s: "open_at p s" and q: "q \<in> own s" "r \<in> own s" and run: "build (create_cond_br v q r) s = Inr (u, t)"
  shows "steady t" "changes {p} {} s t" "fn_ctx t = fn_ctx s"
    "continues (gmodule t) n \<Longrightarrow> operand_value regs v = Some z \<Longrightarrow>
      reaches n (p, length (body (gmodule s) p), regs, mem) (if z = 0 then r else q, 0, regs, mem)"
proof -
  let ?i = "(new_instruction Op_CondBr [v] None)\<lparr>true_target := Some q, false_target := Some r\<rparr>"
  have g: "gen_ok t" "gen_step s t"
    using generating.holdsD [OF cond_br_visits [of q "{q, r}" r] openD(1) [OF s] _ run] q by (simp_all add: knows_def)
  have i: "inst_opcode ?i \<noteq> Op_Alloca" by (simp add: new_instruction_def)
  note a = append_code [OF open_point [OF s] run [unfolded create_cond_br_def] i g]
  show "steady t" "changes {p} {} s t" "fn_ctx t = fn_ctx s" using a by simp_all
  assume n: "continues (gmodule t) n" and v: "operand_value regs v = Some z"
  have "p < length (block_store (gmodule t))" using open_block [OF g(1) a(5)] by simp
  note at = code_at [OF a(3) this n]
  have "machine_step n (p, length (body (gmodule s) p), regs, mem) = Some (if z = 0 then r else q, 0, regs, mem)"
    using at v by (simp add: machine_step_def new_instruction_def jump_target_def)
  then show "reaches n (p, length (body (gmodule s) p), regs, mem) (if z = 0 then r else q, 0, regs, mem)" by (rule reaches_one)
qed

subsection \<open>Blocks\<close>

lemma set_point_code:
  assumes s: "steady s" and q: "q \<in> own s" and run: "set_point (Some q) s = Inr (u, t)"
  shows "steady t" "changes {} {} s t" "gmodule t = gmodule s" "fn_ctx t = fn_ctx s" "insertion_block (gbuilder t) = Some q"
proof -
  have g: "gen_ok t" "gen_step s t"
    using generating.holdsD [OF set_point_visits [of "Some q" "{q}"] _ _ run] s q by (simp_all add: knows_def steady_def)
  from build_run [OF run [unfolded set_point_def]] obtain b where b: "set_insertion_point (Some q) (gbuilder s) = Inr (u, b)"
    and t: "t = s\<lparr>world := (world s)\<lparr>ir_builder := b\<rparr>\<rparr>" by blast
  then obtain f where f: "b = (gbuilder s)\<lparr>insertion_block := Some q, current_function := Some f\<rparr>"
    by (auto simp: set_insertion_point_def split: option.splits)
  show m: "gmodule t = gmodule s" and "fn_ctx t = fn_ctx s" and "insertion_block (gbuilder t) = Some q"
    by (simp_all add: t f gmodule_def gbuilder_def)
  have names: "name_used (gbuilder t) = name_used (gbuilder s)"
    by (intro ext) (simp add: t f gbuilder_def name_used_def counter_def)
  have same: "slots_of t = slots_of s" "sema (world t) = sema (world s)" by (simp_all add: t slots_of_def)
  show "steady t" using s g(1) names same by (simp add: steady_def t)
  show "changes {} {} s t" using g(2) m same by (simp add: changes_def continues_refl t)
qed

lemma set_ctx_code:
  assumes s: "steady s" and f: "\<And>c. ir_function (f c) = ir_function c \<and> local_slots (f c) = local_slots c \<and> ctx_blocks (f c) \<subseteq> own s \<union> ctx_blocks c"
    and run: "set_ctx f s = Inr (u, t)"
  shows "steady t" "changes {} {} s t" "gmodule t = gmodule s" "fn_ctx t = map_option f (fn_ctx s)"
    "insertion_block (gbuilder t) = insertion_block (gbuilder s)"
proof -
  have g: "gen_ok t" "gen_step s t"
    using generating.holdsD [OF set_ctx_visits [of f "own s"] _ _ run] s f by (simp_all add: knows_def steady_def)
  have t: "t = s\<lparr>fn_ctx := map_option f (fn_ctx s)\<rparr>" using run by (simp add: set_ctx_def res_simps)
  have slots: "slots_of t = slots_of s" using f by (simp add: t slots_of_def split: option.split)
  show "gmodule t = gmodule s" "fn_ctx t = map_option f (fn_ctx s)" "insertion_block (gbuilder t) = insertion_block (gbuilder s)"
    by (simp_all add: t gmodule_def gbuilder_def)
  show "steady t" using s g(1) slots by (simp add: steady_def t gbuilder_def)
  show "changes {} {} s t" using g(2) slots by (simp add: changes_def t gmodule_def gbuilder_def continues_refl)
qed

lemma enter_block_code:
  assumes s: "steady s" and q: "q \<in> own s" "body (gmodule s) q = []" and run: "enter_block q s = Inr (u, t)"
  shows "open_at q t" "changes {} {} s t" "gmodule t = gmodule s"
    "fn_ctx t = map_option (\<lambda>c. c\<lparr>current_block := Some q, block_sealed := False\<rparr>) (fn_ctx s)"
proof -
  from run obtain t1 where 1: "set_point (Some q) s = Inr ((), t1)"
    and 2: "set_ctx (\<lambda>c. c\<lparr>current_block := Some q, block_sealed := False\<rparr>) t1 = Inr (u, t)"
    by (auto simp: enter_block_def res_simps)
  note a = set_point_code [OF s q(1) 1]
  have "q \<in> own t1" using q(1) changesD(5) [OF a(2)] by blast
  then have ctx: "ir_function (c\<lparr>current_block := Some q, block_sealed := False\<rparr>) = ir_function c
      \<and> local_slots (c\<lparr>current_block := Some q, block_sealed := False\<rparr>) = local_slots c
      \<and> ctx_blocks (c\<lparr>current_block := Some q, block_sealed := False\<rparr>) \<subseteq> own t1 \<union> ctx_blocks c" for c
    by (auto simp: ctx_blocks_def)
  note b = set_ctx_code [OF a(1) ctx 2]
  show "gmodule t = gmodule s" and c: "fn_ctx t = map_option (\<lambda>c. c\<lparr>current_block := Some q, block_sealed := False\<rparr>) (fn_ctx s)"
    using a b by simp_all
  show "changes {} {} s t" by (rule changes_trans [OF a(2) b(2)]) auto
  show "open_at q t" using b a q(2) c s by (auto simp: open_at_def at_point_def steady_def)
qed

lemma added_block_code:
  assumes s: "open_at p s" and m: "function_create_block f l (gmodule s) = Inr (q, m)"
    and t: "t = s\<lparr>world := (world s)\<lparr>ir_builder := (gbuilder s)\<lparr>ir_module := m\<rparr>\<rparr>\<rparr>" and g: "gen_ok t" "gen_step s t"
  shows "open_at p t" "changes {} {} s t" "q = length (block_store (gmodule s))" "length (block_store (gmodule t)) = Suc q"
    "body (gmodule t) q = []" "fn_ctx t = fn_ctx s"
    "name_used (gbuilder t) = name_used (gbuilder s)" "expr_value_map t = expr_value_map s" "expr_address_map t = expr_address_map s"
proof -
  have q: "q = length (block_store (gmodule s))"
    and store: "\<exists>lbl. block_store m = block_store (gmodule s) @ [\<lparr>block_label = lbl, instructions = []\<rparr>]"
    using m by (auto simp: function_create_block_def Let_def update_function_def split: if_splits)
  show "q = length (block_store (gmodule s))" by (rule q)
  have gm: "gmodule t = m" by (simp add: t gmodule_def gbuilder_def)
  show "length (block_store (gmodule t)) = Suc q" using store q by (auto simp: gm)
  have old: "r < length (block_store (gmodule s)) \<Longrightarrow> body (gmodule t) r = body (gmodule s) r" for r
    using store by (auto simp: gm body_def nth_append)
  show "body (gmodule t) q = []" using store q by (auto simp: gm body_def)
  have "counter (gbuilder t) h = counter (gbuilder s) h" for h by (simp add: t gbuilder_def counter_def)
  then show names: "name_used (gbuilder t) = name_used (gbuilder s)" by (intro ext) (simp add: name_used_def)
  show "fn_ctx t = fn_ctx s" "expr_value_map t = expr_value_map s" "expr_address_map t = expr_address_map s" by (simp_all add: t)
  have same: "slots_of t = slots_of s" "sema (world t) = sema (world s)" "insertion_block (gbuilder t) = insertion_block (gbuilder s)"
    by (simp_all add: t slots_of_def gbuilder_def)
  have "continues (gmodule s) (gmodule t)" using old store unfolding continues_def by (auto simp: gm)
  then show "changes {} {} s t" using g(2) old same by (simp add: changes_def t)
  have "steady t" using s g(1) same names by (simp add: open_at_def at_point_def steady_def t)
  then show "open_at p t" using s same old [OF openD(4) [OF s]] by (simp add: open_at_def at_point_def t)
qed

lemma new_block_code:
  assumes s: "open_at p s" and run: "new_block l s = Inr (q, t)"
  shows "open_at p t" "changes {} {} s t" "q = length (block_store (gmodule s))" "length (block_store (gmodule t)) = Suc q"
    "body (gmodule t) q = []" "q \<in> own t" "fn_ctx t = fn_ctx s"
proof -
  have "gen_ok t \<and> gen_step s t \<and> knows {q} t"
    using generating.actsD [OF new_block_acts [of "{}" l] openD(1) [OF s] _ run] by (simp add: knows_def)
  then have g: "gen_ok t" "gen_step s t" and own: "q \<in> own t" by (simp_all add: knows_def)
  from run obtain c where c: "fn_ctx s = Some c" and "build (on_module (function_create_block (ir_function c) l)) s = Inr (q, t)"
    by (auto simp: new_block_def current_fn_def build_def in_module_def res_simps split: option.splits)
  from build_run [OF this(2)] obtain b where b: "on_module (function_create_block (ir_function c) l) (gbuilder s) = Inr (q, b)"
    and t: "t = s\<lparr>world := (world s)\<lparr>ir_builder := b\<rparr>\<rparr>" by blast
  then obtain m where m: "function_create_block (ir_function c) l (gmodule s) = Inr (q, m)" and bm: "b = (gbuilder s)\<lparr>ir_module := m\<rparr>"
    by (auto simp: on_module_def res_simps gmodule_def)
  note a = added_block_code [OF s m t [unfolded bm] g]
  show "open_at p t" "changes {} {} s t" "q = length (block_store (gmodule s))" "length (block_store (gmodule t)) = Suc q"
    "body (gmodule t) q = []" "q \<in> own t" "fn_ctx t = fn_ctx s" using a own by simp_all
qed

text \<open>A block for the function at the insertion point.\<close>

lemma create_block_code:
  assumes s: "open_at p s" and run: "build (create_block l) s = Inr (q, t)"
  shows "open_at p t" "changes {} {} s t" "q = length (block_store (gmodule s))" "length (block_store (gmodule t)) = Suc q"
    "body (gmodule t) q = []" "q \<in> own t"
    "name_used (gbuilder t) = name_used (gbuilder s)" "expr_value_map t = expr_value_map s" "expr_address_map t = expr_address_map s"
proof -
  have "gen_ok t \<and> gen_step s t \<and> knows {q} t"
    using generating.actsD [OF create_block_acts [of "{}" l] openD(1) [OF s] _ run] by (simp add: knows_def)
  then have g: "gen_ok t" "gen_step s t" and own: "q \<in> own t" by (simp_all add: knows_def)
  from build_run [OF run] obtain b where b: "create_block l (gbuilder s) = Inr (q, b)"
    and t: "t = s\<lparr>world := (world s)\<lparr>ir_builder := b\<rparr>\<rparr>" by blast
  then obtain f m where m: "function_create_block f l (gmodule s) = Inr (q, m)" and bm: "b = (gbuilder s)\<lparr>ir_module := m\<rparr>"
    by (auto simp: create_block_def on_module_def res_simps gmodule_def split: option.splits)
  note a = added_block_code [OF s m t [unfolded bm] g]
  show "open_at p t" "changes {} {} s t" "q = length (block_store (gmodule s))" "length (block_store (gmodule t)) = Suc q"
    "body (gmodule t) q = []" "q \<in> own t"
    "name_used (gbuilder t) = name_used (gbuilder s)" "expr_value_map t = expr_value_map s" "expr_address_map t = expr_address_map s"
    using a own by simp_all
qed

subsection \<open>Slots\<close>

lemma point_names: "set_insertion_point r b = Inr (u, c) \<Longrightarrow>
    name_used c = name_used b \<and> ir_module c = ir_module b \<and> insertion_block c = r \<and> (\<forall>h. counter c h = counter b h)"
proof -
  assume "set_insertion_point r b = Inr (u, c)"
  then obtain o_f where c: "c = b\<lparr>insertion_block := r, current_function := o_f\<rparr>"
    by (cases r) (auto simp: set_insertion_point_def split: option.splits)
  have k: "counter c h = counter b h" for h by (simp add: c counter_def)
  then have "name_used c = name_used b" by (intro ext) (simp add: name_used_def)
  then show ?thesis using k by (simp add: c)
qed

lemma body_alloca:
  assumes "block_append i blk = Inr blk'" "inst_opcode i = Op_Alloca"
  shows "filter (\<lambda>i. inst_opcode i \<noteq> Op_Alloca) (instructions blk') = filter (\<lambda>i. inst_opcode i \<noteq> Op_Alloca) (instructions blk)"
proof -
  have "filter (\<lambda>i. inst_opcode i \<noteq> Op_Alloca) (takeWhile P xs @ i # dropWhile P xs) = filter (\<lambda>i. inst_opcode i \<noteq> Op_Alloca) xs" for P xs
  proof -
    have "filter (\<lambda>i. inst_opcode i \<noteq> Op_Alloca) (takeWhile P xs @ dropWhile P xs) = filter (\<lambda>i. inst_opcode i \<noteq> Op_Alloca) (takeWhile P xs)
        @ filter (\<lambda>i. inst_opcode i \<noteq> Op_Alloca) (dropWhile P xs)"
      by (rule filter_append)
    then show ?thesis unfolding takeWhile_dropWhile_id using assms(2) by simp
  qed
  then show ?thesis using assms by (auto simp: block_append_def insert_before_terminator_def split: if_splits)
qed

lemma alloca_run:
  assumes run: "create_temp_alloca ty h b = Inr (slot, c)" and f: "current_function b = Some f" and e: "blocks (ir_functions (ir_module b) ! f) = e # es"
  shows "slot = RegisterValue (name_of h (counter b h)) (PointerType ty)" "insertion_block c = insertion_block b"
    "name_used b x \<Longrightarrow> name_used c x" "good_hint h \<Longrightarrow> name_used c (name_of h (counter b h))"
    "length (block_store (ir_module c)) = length (block_store (ir_module b))" "body (ir_module c) q = body (ir_module b) q"
proof -
  from run f e obtain b1 b2 where 1: "set_insertion_point (Some e) b = Inr ((), b1)" and 2: "create_alloca ty h b1 = Inr (slot, b2)"
    and 3: "set_insertion_point (insertion_block b) b2 = Inr ((), c)"
    by (auto simp: create_temp_alloca_def res_simps)
  note p = point_names [OF 1] point_names [OF 3]
  let ?r = "RegisterValue (name_of h (counter b h)) (PointerType ty)"
  let ?i = "(new_instruction Op_Alloca [] (Some ?r))\<lparr>literal_type := Some ty\<rparr>"
  have i: "inst_opcode ?i = Op_Alloca" by (simp add: new_instruction_def)
  have ins: "insert_instruction ?i (count_up h b1) = Inr ((), b2)" and slot: "slot = ?r"
    using 2 p by (auto simp: create_alloca_def emit_new_value_def res_simps create_temp_eq)
  show "slot = ?r" by (rule slot)
  show "insertion_block c = insertion_block b" using p by simp
  from ins obtain q' blk where blk: "block_append ?i (block_store (ir_module b1) ! q') = Inr blk" "q' < length (block_store (ir_module b1))"
    and b2: "b2 = (count_up h b1)\<lparr>ir_module := (ir_module b1)\<lparr>block_store := (block_store (ir_module b1))[q' := blk]\<rparr>\<rparr>"
    by (auto simp: insert_instruction_def block_at_def res_simps Let_def split: option.splits if_splits)
  have names: "name_used c = name_used (count_up h b1)" "name_used b1 = name_used b" "counter b1 h = counter b h"
    using p by (simp_all add: b2)
  show "name_used b x \<Longrightarrow> name_used c x" using count_up_used names by simp
  show "good_hint h \<Longrightarrow> name_used c (name_of h (counter b h))" using count_up_new [of h b1] names by simp
  show "length (block_store (ir_module c)) = length (block_store (ir_module b))" using p by (simp add: b2)
  show "body (ir_module c) q = body (ir_module b) q"
    using p blk body_alloca [OF blk(1) i] by (cases "q = q'") (simp_all add: b2 body_def)
qed

text \<open>A new slot in the state of the generator.\<close>

lemma alloca_code:
  assumes s: "open_at p s" and h: "good_hint h" and run: "build (create_temp_alloca ty h) s = Inr (slot, t)"
  shows "open_at p t" "changes {} {} s t" "slot = RegisterValue (name_of h (counter (gbuilder s) h)) (PointerType ty)"
    "slots_of t = slots_of s" "fn_ctx t = fn_ctx s" "body (gmodule t) q = body (gmodule s) q"
    "name_used (gbuilder s) x \<Longrightarrow> name_used (gbuilder t) x" "name_used (gbuilder t) (name_of h (counter (gbuilder s) h))"
proof -
  have g: "gen_ok t" "gen_step s t"
    using generating.holdsD [OF build_visits [OF temp_alloca_keeps [OF h]] openD(1) [OF s] _ run, of "{}"] by (simp_all add: knows_def)
  from build_run [OF run] obtain b where b: "create_temp_alloca ty h (gbuilder s) = Inr (slot, b)"
    and t: "t = s\<lparr>world := (world s)\<lparr>ir_builder := b\<rparr>\<rparr>" by blast
  obtain f where f: "current_function (gbuilder s) = Some f" "p \<in> fn_blocks (gmodule s) f"
    using s by (auto simp: open_at_def at_point_def steady_def gen_ok_def builder_ok_def point_ok_def gmodule_def split: option.splits)
  then obtain e es where e: "blocks (ir_functions (ir_module (gbuilder s)) ! f) = e # es"
    by (cases "blocks (ir_functions (ir_module (gbuilder s)) ! f)") (auto simp: fn_blocks_def gmodule_def split: if_splits)
  note a = alloca_run [OF b f(1) e]
  have same: "sema (world t) = sema (world s)" "gbuilder t = b" "gmodule t = ir_module b"
    "expr_value_map t = expr_value_map s" "expr_address_map t = expr_address_map s"
    by (simp_all add: t gbuilder_def gmodule_def)
  show "slot = RegisterValue (name_of h (counter (gbuilder s) h)) (PointerType ty)" by (rule a(1))
  show slots: "slots_of t = slots_of s" and fn: "fn_ctx t = fn_ctx s" by (simp_all add: t slots_of_def)
  show body: "body (gmodule t) q = body (gmodule s) q" for q using a(6) by (simp add: same(3)) (simp add: gmodule_def)
  show used: "name_used (gbuilder s) x \<Longrightarrow> name_used (gbuilder t) x" for x using a(3) by (simp add: same(2))
  show "name_used (gbuilder t) (name_of h (counter (gbuilder s) h))" using a(4) [OF h] by (simp add: same(2))
  show "changes {} {} s t"
    using g(2) same body a(5) slots by (auto simp: changes_def continues_def gmodule_def)
  have "steady t" using s g(1) same(1) slots fn used by (simp add: open_at_def at_point_def steady_def)
  then show "open_at p t" using s same body a(2) fn by (simp add: open_at_def at_point_def)
qed

lemma slot_hint:
  "good_hint (x @ ''.slot'')" "\<not> temporary (name_of (x @ ''.slot'') n)"
proof -
  have d: "CHR ''.'' \<in> set (x @ ''.slot'')" "CHR ''.'' \<notin> set ''tmp''" "CHR ''.'' \<notin> set ''arg''" by simp_all
  then show h: "good_hint (x @ ''.slot'')" unfolding good_hint_def by metis
  have "good_hint []" by (simp add: good_hint_def)
  from name_of_inj [OF h this] show "\<not> temporary (name_of (x @ ''.slot'') n)" by (simp add: temporary_def)
qed

text \<open>The slot of a variable.\<close>

lemma new_slot_code:
  assumes s: "open_at p s" and d: "let_decls (sema (world s)) d = Some ld" "var_kind (sema (world s)) d = Some kd" "slots_of s d = None"
    and al: "build (create_temp_alloca (IntegerType (width kd)) (let_name ld @ ''.slot'')) s = Inr (slot, t1)"
    and t: "t = t1\<lparr>fn_ctx := map_option (\<lambda>c. c\<lparr>local_slots := (local_slots c)(d \<mapsto> slot)\<rparr>) (fn_ctx t1)\<rparr>" and g: "gen_ok t" "gen_step s t"
  shows "open_at p t" "changes {} {} s t" "\<exists>x. slot = RegisterValue x (PointerType (IntegerType (width kd)))" "slots_of t d = Some slot"
proof -
  let ?h = "let_name ld @ ''.slot''"
  let ?x = "name_of ?h (counter (gbuilder s) ?h)"
  obtain ctx where ctx: "fn_ctx s = Some ctx" using s by (auto simp: open_at_def at_point_def steady_def)
  have good: "good_slots (sema (world s)) (slots_of s)" using s by (simp add: open_at_def at_point_def steady_def)
  note a = alloca_code [OF s slot_hint(1) al]
  have same: "sema (world t) = sema (world s)" "gbuilder t = gbuilder t1" "gmodule t = gmodule t1" "slots_of t = (slots_of s)(d \<mapsto> slot)"
    "fn_ctx t = Some (ctx\<lparr>local_slots := (local_slots ctx)(d \<mapsto> slot)\<rparr>)"
    "expr_value_map t = expr_value_map s" "expr_address_map t = expr_address_map s"
    using a(5) changesD(1) [OF a(2)] a(2) ctx by (auto simp: t gbuilder_def gmodule_def slots_of_def changes_def)
  then show "\<exists>x. slot = RegisterValue x (PointerType (IntegerType (width kd)))" "slots_of t d = Some slot" using a(3) by simp_all
  have "map_le (slots_of s) (slots_of t)" using d(3) by (auto simp: same map_le_def)
  then show "changes {} {} s t" using a(2) g(2) same by (simp add: changes_def)
  have used: "name_used (gbuilder s) x" if "slot_name (slots_of s) c = Some x" for c x
    using s that by (auto simp: open_at_def at_point_def steady_def)
  have new: "slot_name (slots_of s) c \<noteq> Some ?x" for c using used name_not_used [OF slot_hint(1)] by blast
  have sn: "slot_name (slots_of t) c = (if c = d then Some ?x else slot_name (slots_of s) c)" for c
    by (simp add: same slot_name_def a(3))
  have "good_slots (sema (world t)) (slots_of t)"
    unfolding good_slots_def sn using good new d(2) slot_hint(2) by (auto simp: same a(3) good_slots_def split: if_splits)
  moreover have "slot_name (slots_of t) c = Some x \<Longrightarrow> name_used (gbuilder t) x" for c x
    unfolding sn using used a(7, 8) by (auto simp: same split: if_splits)
  ultimately have "steady t" using g(1) same by (simp add: steady_def)
  then show "open_at p t" using s a(1) same ctx a(6) by (simp add: open_at_def at_point_def)
qed

lemma slot_code:
  assumes s: "open_at p s" and kd: "var_kind (sema (world s)) d = Some kd" and run: "ensure_slot_for_decl d s = Inr (slot, t)"
  shows "open_at p t" "changes {} {} s t" "\<exists>x. slot = RegisterValue x (PointerType (IntegerType (width kd))) \<and> slots_of t d = Some slot"
proof -
  have g: "gen_ok t" "gen_step s t"
    using generating.holdsD [OF ensure_slot_for_decl_visits openD(1) [OF s] _ run, of "{}"] by (simp_all add: knows_def)
  obtain ctx where ctx: "fn_ctx s = Some ctx" using s by (auto simp: open_at_def at_point_def steady_def)
  have good: "good_slots (sema (world s)) (slots_of s)" using s by (simp add: open_at_def at_point_def steady_def)
  have "open_at p t \<and> changes {} {} s t \<and> (\<exists>x. slot = RegisterValue x (PointerType (IntegerType (width kd))) \<and> slots_of t d = Some slot)"
  proof (cases "local_slots ctx d")
    case (Some v)
    then have "t = s" "slot = v" "slots_of s d = Some v"
      using run ctx by (auto simp: ensure_slot_for_decl_def current_fn_def res_simps slots_of_def)
    note here = this
    moreover from this obtain kd' x where "var_kind (sema (world s)) d = Some kd'"
      "v = RegisterValue x (PointerType (IntegerType (width kd')))"
      using good unfolding good_slots_def by blast
    moreover have "changes {} {} s s" using changes_refl openD(1) [OF s] .
    ultimately show ?thesis using s kd by simp
  next
    case None
    obtain ld where ld: "let_decls (sema (world s)) d = Some ld" "is_ref (let_type ld) = NO_REF" "kind (let_type ld) = kd"
      "kd \<in> insert RTK_BOOL int_kinds"
      using kd by (auto simp: var_kind_def split: option.splits if_splits)
    have "lower_type (let_type ld) u = Inr (IntegerType (width kd), u)" for u using lower_scalar(1) [OF ld(2)] ld by simp
    with run obtain t1 where al: "build (create_temp_alloca (IntegerType (width kd)) (let_name ld @ ''.slot'')) s = Inr (slot, t1)"
      and t: "t = t1\<lparr>fn_ctx := map_option (\<lambda>c. c\<lparr>local_slots := (local_slots c)(d \<mapsto> slot)\<rparr>) (fn_ctx t1)\<rparr>"
      using None ctx ld(1)
      by (auto simp: ensure_slot_for_decl_def current_fn_def res_simps sema_res_def sem_act_def in_back_def deref_def set_ctx_def)
    have "slots_of s d = None" using None ctx by (simp add: slots_of_def)
    from new_slot_code [OF s ld(1) kd this al t g] show ?thesis by blast
  qed
  then show "open_at p t" "changes {} {} s t" "\<exists>x. slot = RegisterValue x (PointerType (IntegerType (width kd))) \<and> slots_of t d = Some slot"
    by simp_all
qed

end
