(* ===== verification/StmtCodegen.thy ===== *)
theory StmtCodegen
  imports BlockCode
begin

section \<open>The code of statements runs as they do\<close>

text \<open>
  Running the code that the visit of a statement has added, from the place where it begins to the place where the
  generator goes on, does to the memory what the statement does to the variables.
\<close>

subsection \<open>Code that does what a relation says\<close>

text \<open>In every module that continues the one at hand and with every way to go on with the slots.\<close>

definition runs_to :: "block_ptr \<Rightarrow> irgen \<Rightarrow> block_ptr \<Rightarrow> irgen \<Rightarrow> (variables \<Rightarrow> variables \<Rightarrow> bool) \<Rightarrow> bool" where
  "runs_to p s q t R \<longleftrightarrow>
     (\<forall>m S vs vs' regs mem. continues (gmodule t) m \<longrightarrow> map_le (slots_of t) S \<longrightarrow> good_slots (sema (world t)) S \<longrightarrow>
        holds_variables S mem vs \<longrightarrow> R vs vs' \<longrightarrow>
        (\<exists>regs' mem'. reaches m (p, length (body (gmodule s) p), regs, mem) (q, length (body (gmodule t) q), regs', mem')
           \<and> holds_variables S mem' vs'))"

definition code_for :: "nat set \<Rightarrow> block_ptr \<Rightarrow> irgen \<Rightarrow> block_ptr \<Rightarrow> irgen \<Rightarrow> (variables \<Rightarrow> variables \<Rightarrow> bool) \<Rightarrow> bool" where
  "code_for K p s q t R \<longleftrightarrow>
     open_at q t \<and> changes {p} K s t \<and> (q = p \<or> length (block_store (gmodule s)) \<le> q) \<and> runs_to p s q t R"

lemma runs_toI:
  "(\<And>m S vs vs' regs mem. continues (gmodule t) m \<Longrightarrow> map_le (slots_of t) S \<Longrightarrow> good_slots (sema (world t)) S \<Longrightarrow>
      holds_variables S mem vs \<Longrightarrow> R vs vs' \<Longrightarrow>
      \<exists>regs' mem'. reaches m (p, length (body (gmodule s) p), regs, mem) (q, length (body (gmodule t) q), regs', mem')
        \<and> holds_variables S mem' vs') \<Longrightarrow> runs_to p s q t R"
  unfolding runs_to_def by blast

lemma runs_toD:
  assumes "runs_to p s q t R" "continues (gmodule t) m" "map_le (slots_of t) S" "good_slots (sema (world t)) S"
    "holds_variables S mem vs" "R vs vs'"
  obtains regs' mem' where "reaches m (p, length (body (gmodule s) p), regs, mem) (q, length (body (gmodule t) q), regs', mem')"
    "holds_variables S mem' vs'"
  using assms unfolding runs_to_def by blast

text \<open>Later changes do not disturb code that is there.\<close>

lemma later:
  assumes "changes Q K t u" "continues (gmodule u) m" "map_le (slots_of u) S" "good_slots (sema (world u)) S"
  shows "continues (gmodule t) m" "map_le (slots_of t) S" "good_slots (sema (world t)) S"
  using assms changesD(1-3) [OF assms(1)] continues_trans map_le_trans by auto

lemma code_for_trans:
  assumes a: "code_for K p s q t R" and b: "code_for L q t r u R'"
  shows "code_for (K \<union> L) p s r u (R OO R')"
proof -
  have at: "open_at q t" "changes {p} K s t" "q = p \<or> length (block_store (gmodule s)) \<le> q" "runs_to p s q t R"
    using a by (simp_all add: code_for_def)
  have bt: "open_at r u" "changes {q} L t u" "r = q \<or> length (block_store (gmodule t)) \<le> r" "runs_to q t r u R'"
    using b by (simp_all add: code_for_def)
  have "changes {p} (K \<union> L) s u" by (rule changes_trans [OF at(2) bt(2)]) (use at(3) in auto)
  moreover have "r = p \<or> length (block_store (gmodule s)) \<le> r" using at(3) bt(3) changesD(4) [OF at(2)] by auto
  moreover have "runs_to p s r u (R OO R')"
  proof (rule runs_toI, elim relcomppE)
    fix m S vs vs' regs mem vs1
    assume m: "continues (gmodule u) m" and S: "map_le (slots_of u) S" "good_slots (sema (world u)) S"
      and h: "holds_variables S mem vs" and R: "R vs vs1" "R' vs1 vs'"
    from later [OF bt(2) m S] have "continues (gmodule t) m" "map_le (slots_of t) S" "good_slots (sema (world t)) S" by simp_all
    from runs_toD [OF at(4) this h R(1)] obtain regs1 mem1 where
      1: "reaches m (p, length (body (gmodule s) p), regs, mem) (q, length (body (gmodule t) q), regs1, mem1)" "holds_variables S mem1 vs1" .
    from runs_toD [OF bt(4) m S 1(2) R(2)] obtain regs2 mem2 where
      2: "reaches m (q, length (body (gmodule t) q), regs1, mem1) (r, length (body (gmodule u) r), regs2, mem2)" "holds_variables S mem2 vs'" .
    show "\<exists>regs' mem'. reaches m (p, length (body (gmodule s) p), regs, mem) (r, length (body (gmodule u) r), regs', mem')
        \<and> holds_variables S mem' vs'"
      using reaches_trans [OF 1(1) 2(1)] 2(2) by blast
  qed
  ultimately show ?thesis using bt(1) by (simp add: code_for_def)
qed

lemma code_for_mono: "code_for K p s q t R \<Longrightarrow> K \<subseteq> L \<Longrightarrow> (\<And>vs vs'. R' vs vs' \<Longrightarrow> R vs vs') \<Longrightarrow> code_for L p s q t R'"
  unfolding code_for_def runs_to_def using changes_mono [of "{p}" K s t "{p}" L] by blast

lemma code_for_nothing: "open_at p s \<Longrightarrow> code_for K p s p s (=)"
  using changes_refl openD(1) reaches_here unfolding code_for_def runs_to_def by blast

text \<open>Changes of the maps after the code.\<close>

lemma code_for_after:
  assumes a: "code_for K p s q t R" and b: "open_at q u" "changes {} L t u" "gmodule u = gmodule t"
  shows "code_for (K \<union> L) p s q u R"
proof -
  have "code_for L q t q u (=)"
    using b reaches_here changes_mono [OF b(2), of "{q}" L] unfolding code_for_def runs_to_def by fastforce
  from code_for_trans [OF a this] show ?thesis by (simp add: eq_OO OO_eq)
qed

lemma set_value_code:
  assumes s: "open_at p s" and run: "set_value k v s = Inr (u, t)"
  shows "open_at p t" "changes {} {k} s t" "gmodule t = gmodule s"
proof -
  have t: "t = s\<lparr>expr_value_map := (expr_value_map s)(k \<mapsto> v)\<rparr>" using run by (simp add: set_value_def res_simps)
  show m: "gmodule t = gmodule s" by (simp add: t gmodule_def gbuilder_def)
  have g: "gen_ok t" "gen_step s t"
    using generating.holdsD [OF set_value_visits(1) openD(1) [OF s] _ run, of "{}"] by (simp_all add: knows_def)
  show "open_at p t" using s g(1) unfolding open_at_def at_point_def steady_def m by (simp add: t slots_of_def gbuilder_def)
  show "changes {} {k} s t" using g(2) by (simp add: changes_def m continues_refl) (simp add: t slots_of_def)
qed

lemma set_address_code:
  assumes s: "open_at p s" and run: "set_address k v s = Inr (u, t)"
  shows "open_at p t" "changes {} {k} s t" "gmodule t = gmodule s" "expr_address_map t k = Some v" "expr_value_map t = expr_value_map s"
proof -
  have t: "t = s\<lparr>expr_address_map := (expr_address_map s)(k \<mapsto> v)\<rparr>" using run by (simp add: set_address_def res_simps)
  show m: "gmodule t = gmodule s" and "expr_address_map t k = Some v" "expr_value_map t = expr_value_map s"
    by (simp_all add: t gmodule_def gbuilder_def)
  have g: "gen_ok t" "gen_step s t"
    using generating.holdsD [OF set_value_visits(2) openD(1) [OF s] _ run, of "{}"] by (simp_all add: knows_def)
  show "open_at p t" using s g(1) unfolding open_at_def at_point_def steady_def m by (simp add: t slots_of_def gbuilder_def)
  show "changes {} {k} s t" using g(2) by (simp add: changes_def m continues_refl) (simp add: t slots_of_def)
qed

lemma in_open:
  assumes "open_at p s"
  obtains ctx where "fn_ctx s = Some ctx" "current_block ctx = Some p" "\<not> block_sealed ctx"
  using assms by (auto simp: open_at_def at_point_def steady_def)

subsection \<open>Values and variables\<close>

lemma holds_smaller: "holds_variables S mem vs \<Longrightarrow> map_le S' S \<Longrightarrow> holds_variables S' mem vs"
  unfolding holds_variables_def map_le_def by (metis domI)

lemma store_holds:
  assumes h: "holds_variables S mem vs" and S: "good_slots c S" "S a = Some (RegisterValue x (PointerType (IntegerType w)))"
  shows "holds_variables S (mem(x \<mapsto> take_bit w n)) (vs(a \<mapsto> n))"
proof -
  have x: "slot_name S a = Some x" using S(2) by (simp add: slot_name_def)
  have other: "b = a" if "S b = Some (RegisterValue x (PointerType (IntegerType v)))" for b v
  proof -
    have "slot_name S b = Some x" using that by (simp add: slot_name_def)
    then show ?thesis using S(1) x unfolding good_slots_def by blast
  qed
  show ?thesis unfolding holds_variables_def
  proof (intro allI impI)
    fix b m y v assume b: "(vs(a \<mapsto> n)) b = Some m" "S b = Some (RegisterValue y (PointerType (IntegerType v)))"
    show "(mem(x \<mapsto> take_bit w n)) y = Some (take_bit v m)"
    proof (cases "b = a")
      case True
      then show ?thesis using b S(2) by auto
    next
      case False
      then have "y \<noteq> x" using other b(2) by blast
      then show ?thesis using False b h by (simp add: holds_variables_def)
    qed
  qed
qed

text \<open>Storing a value in the slot of a variable.\<close>

lemma store_variable_code:
  assumes s: "open_at p s" and run: "build (create_store v (RegisterValue x (PointerType (IntegerType w)))) s = Inr (u, t)"
    and m: "continues (gmodule t) m" and v: "has_value s regs v w n"
    and S: "good_slots c S" "S a = Some (RegisterValue x (PointerType (IntegerType w)))" and h: "holds_variables S mem vs"
  obtains mem' where "reaches m (p, length (body (gmodule s) p), regs, mem) (p, length (body (gmodule t) p), regs, mem')"
    "holds_variables S mem' (vs(a \<mapsto> n))"
proof -
  have "operand_value regs v = Some (take_bit w n)" using v by (simp add: has_value_def)
  from store_code(3) [OF s run m this] store_holds [OF h S] show thesis by (rule that)
qed

lemma undefined_holds: "holds_variables S mem vs \<Longrightarrow> holds_variables S mem (vs(a := None))"
  by (auto simp: holds_variables_def)

text \<open>A visited expression stays in its block.\<close>

lemma expr_line:
  assumes s: "open_at p s" and c: "sema (world s) = c" and e: "scalar_expr c (slots_of s) e" and run: "gen_expr e s = Inr (u, t)"
  shows "open_at p t" "changes {p} (set (ids_expr e)) s t"
proof -
  have "line.holds p (set (ids_expr e)) (inside (sema (world s)) (slots_of s)) (gen_expr e)"
    using expr_stays(2) e c by blast
  from line_code(1, 2) [OF s run this visitor_visits(2) [rule_format]]
  show "open_at p t" "changes {p} (set (ids_expr e)) s t" .
qed

subsection \<open>Blocks that wait and jumps\<close>

text \<open>A block of the function that has no code yet.\<close>

definition waiting :: "block_ptr \<Rightarrow> irgen \<Rightarrow> bool" where
  "waiting q s \<longleftrightarrow> q \<in> own s \<and> body (gmodule s) q = []"

lemma own_in_store: "steady s \<Longrightarrow> q \<in> own s \<Longrightarrow> q < length (block_store (gmodule s))"
  by (auto simp: steady_def gen_ok_def builder_ok_def own_def gmodule_def split: option.splits intro: block_in_store)

lemma waiting_later: "steady s \<Longrightarrow> changes Q K s t \<Longrightarrow> waiting q s \<Longrightarrow> q \<notin> Q \<Longrightarrow> waiting q t"
  using changesD(5, 6) [of Q K s t] own_in_store [of s q] by (auto simp: waiting_def)

text \<open>The jump from an open block.\<close>

lemma branch_if_needed_code:
  assumes s: "open_at p s" and q: "q \<in> own s" and run: "branch_if_needed q s = Inr ((), t)"
  shows "steady t" "changes {p} {} s t"
    "continues (gmodule t) m \<Longrightarrow> reaches m (p, length (body (gmodule s) p), regs, mem) (q, 0, regs, mem)"
proof -
  obtain ctx where "fn_ctx s = Some ctx" "current_block ctx = Some p" "\<not> block_sealed ctx" using in_open [OF s] .
  with run obtain s1 s2 where 1: "set_point (Some p) s = Inr ((), s1)" and 2: "build (create_br q) s1 = Inr ((), s2)"
    and 3: "set_ctx (\<lambda>c. c\<lparr>block_sealed := True\<rparr>) s2 = Inr ((), t)"
    by (auto simp: branch_if_needed_def res_simps when_act_def)
  note a1 = set_point_code [OF openD(2, 5) [OF s] 1]
  have at: "at_point p s1" using a1(1, 3, 5) open_point [OF s] by (simp add: at_point_def)
  have "q \<in> own s1" using q changesD(5) [OF a1(2)] by blast
  note a2 = br_code [OF at this 2]
  have "ir_function (x\<lparr>block_sealed := True\<rparr>) = ir_function x \<and> local_slots (x\<lparr>block_sealed := True\<rparr>) = local_slots x
      \<and> ctx_blocks (x\<lparr>block_sealed := True\<rparr>) \<subseteq> own s2 \<union> ctx_blocks x" for x
    by (auto simp: ctx_blocks_def)
  note a3 = set_ctx_code [OF a2(1) this 3]
  have ch: "changes {p} {} s s2" by (rule changes_trans [OF a1(2) a2(2)]) auto
  show "steady t" by (rule a3(1))
  show "changes {p} {} s t" by (rule changes_trans [OF ch a3(2)]) auto
  assume "continues (gmodule t) m"
  then have "continues (gmodule s2) m" by (simp add: a3(3))
  from a2(4) [OF this] show "reaches m (p, length (body (gmodule s) p), regs, mem) (q, 0, regs, mem)" by (simp add: a1(3))
qed

end
