(* ===== verification/LazyCode.thy ===== *)
theory LazyCode
  imports StmtCodegen
begin

section \<open>The code of a value\<close>

text \<open>
  The expressions that stand in a statement: those of \<open>scalar_expr\<close>, and \<open>&&\<close> and \<open>||\<close> over them, whose code
  has blocks of its own and leaves the result in a slot. The code begins in one block and ends in
  another one; what it stores does not touch the variables.
\<close>

subsection \<open>The expressions that are covered\<close>

text \<open>The slots of the variables that have been declared; their names do not matter.\<close>

definition declared :: "Semantic_Checker \<Rightarrow> address list \<Rightarrow> address \<rightharpoonup> IRValue" where
  "declared c D a =
     (if a \<in> set D then map_option (\<lambda>kd. RegisterValue [] (PointerType (IntegerType (width kd)))) (var_kind c a) else None)"

fun lazy_expr :: "Semantic_Checker \<Rightarrow> (address \<rightharpoonup> IRValue) \<Rightarrow> expr \<Rightarrow> bool" where
  "lazy_expr c slots (BinaryExpr k OP l r) =
     (scalar_expr c slots (BinaryExpr k OP l r)
      \<or> OP \<in> {BOP_AND_AND, BOP_OR_OR} \<and> lazy_expr c slots l \<and> lazy_expr c slots r
        \<and> node_width c (expr_id l) = 1 \<and> node_width c (expr_id r) = 1 \<and> node_width c k = 1)"
| "lazy_expr c slots e = scalar_expr c slots e"

lemma scalar_declared:
  assumes S: "good_slots c S" "set D \<subseteq> dom S"
  shows "t = (t :: type_node)"
    and "scalar_expr c (declared c D) e \<longrightarrow> scalar_expr c S e"
    and "st = (st :: stmt)"
    and "i = (i :: item)"
proof (induction t and e and st and i rule: type_node.induct expr.induct stmt.induct item.induct)
  case (IdentifierExpr k name)
  show ?case
  proof
    assume sc: "scalar_expr c (declared c D) (IdentifierExpr k name)"
    then obtain a v where a: "identifier_expr_to_decl_map c k = Some (LetStmt_decl a)" and v: "declared c D a = Some v"
      by (auto split: option.splits ValueDecl.splits)
    then obtain kd where kd: "a \<in> set D" "var_kind c a = Some kd" "v = RegisterValue [] (PointerType (IntegerType (width kd)))"
      by (auto simp: declared_def split: if_splits)
    have w: "width kd = node_width c k" "scalar_kind c k \<noteq> None" using sc a v kd by auto
    obtain y where "S a = Some (RegisterValue y (PointerType (IntegerType (width kd))))"
      using S kd unfolding good_slots_def by (metis domD in_mono option.inject)
    then show "scalar_expr c S (IdentifierExpr k name)" using a w by simp
  qed
qed (auto split: option.splits LiteralType.splits)

definition fresh :: "irgen \<Rightarrow> nat list \<Rightarrow> bool" where
  "fresh s ks \<longleftrightarrow> list_all (\<lambda>k. expr_value_map s k = None) ks"

definition starts :: "Semantic_Checker \<Rightarrow> address list \<Rightarrow> nat list \<Rightarrow> block_ptr \<Rightarrow> irgen \<Rightarrow> bool" where
  "starts c D ks p s \<longleftrightarrow> open_at p s \<and> sema (world s) = c \<and> set D \<subseteq> dom (slots_of s) \<and> distinct ks \<and> fresh s ks"

lemma fresh_changes: "changes Q K s t \<Longrightarrow> K \<inter> set ks = {} \<Longrightarrow> fresh s ks \<Longrightarrow> fresh t ks"
  unfolding changes_def fresh_def list_all_iff by (metis IntI empty_iff)

lemma starts_later:
  assumes "starts c D js p s" "open_at q t" "changes Q K s t" "K \<inter> set ks = {}" "distinct ks" "set ks \<subseteq> set js"
  shows "starts c D ks q t"
proof -
  have "fresh s ks" using assms(1, 6) by (auto simp: starts_def fresh_def list_all_iff)
  then have "fresh t ks" by (rule fresh_changes [OF assms(3, 4)])
  moreover have "set D \<subseteq> dom (slots_of t)"
    using assms(1) map_le_implies_dom_le [OF changesD(2) [OF assms(3)]] unfolding starts_def by blast
  ultimately show ?thesis using assms(1, 2, 5) changesD(1) [OF assms(3)] by (simp add: starts_def)
qed

lemma starts_scalar:
  assumes "starts c D ks p s" "scalar_expr c (declared c D) e"
  shows "scalar_expr c (slots_of s) e"
proof (rule scalar_declared(2) [rule_format, OF _ _ assms(2)])
  show "good_slots c (slots_of s)" "set D \<subseteq> dom (slots_of s)" using assms(1) by (auto simp: starts_def open_at_def at_point_def steady_def)
qed

lemma unvisited_fresh: "unvisited s e = fresh s (ids_expr e)"
  by (simp add: unvisited_def fresh_def)

subsection \<open>What the code of a value does\<close>

text \<open>After the visit the node has its value; after \<open>get_rvalue\<close> the operand has it.\<close>

definition evaluates :: "Semantic_Checker \<Rightarrow> expr \<Rightarrow> block_ptr \<Rightarrow> irgen \<Rightarrow> block_ptr \<Rightarrow> irgen \<Rightarrow>
    ((string \<rightharpoonup> int) \<Rightarrow> registers \<Rightarrow> int \<Rightarrow> bool) \<Rightarrow> bool" where
  "evaluates c e p s q t Q \<longleftrightarrow>
     (\<forall>m S vs regs mem n. continues (gmodule t) m \<longrightarrow> map_le (slots_of t) S \<longrightarrow> good_slots (sema (world t)) S \<longrightarrow>
        holds_variables S mem vs \<longrightarrow> expr_value c vs e = Some n \<longrightarrow>
        (\<exists>regs' mem'. reaches m (p, length (body (gmodule s) p), regs, mem) (q, length (body (gmodule t) q), regs', mem')
           \<and> holds_variables S mem' vs \<and> Q mem' regs' n))"

definition goes_on :: "nat set \<Rightarrow> block_ptr \<Rightarrow> irgen \<Rightarrow> block_ptr \<Rightarrow> irgen \<Rightarrow> bool" where
  "goes_on K p s q t \<longleftrightarrow> open_at q t \<and> changes {p} K s t \<and> (q = p \<or> length (block_store (gmodule s)) \<le> q)"

definition visited_for :: "Semantic_Checker \<Rightarrow> expr \<Rightarrow> block_ptr \<Rightarrow> irgen \<Rightarrow> block_ptr \<Rightarrow> irgen \<Rightarrow> bool" where
  "visited_for c e p s q t \<longleftrightarrow>
     goes_on (set (ids_expr e)) p s q t
     \<and> evaluates c e p s q t (\<lambda>mem regs n. node_value mem t regs (expr_id e) (node_width c (expr_id e)) n)"

definition operand_for :: "Semantic_Checker \<Rightarrow> expr \<Rightarrow> block_ptr \<Rightarrow> irgen \<Rightarrow> block_ptr \<Rightarrow> irgen \<Rightarrow> IRValue \<Rightarrow> bool" where
  "operand_for c e p s q t v \<longleftrightarrow>
     goes_on (set (ids_expr e)) p s q t
     \<and> evaluates c e p s q t (\<lambda>mem regs n. has_value t regs v (node_width c (expr_id e)) n)"

lemma evaluated_value:
  assumes "evaluates c e p s q t Q" "continues (gmodule t) m" "map_le (slots_of t) S" "good_slots (sema (world t)) S"
    "holds_variables S mem vs" "expr_value c vs e = Some n"
  obtains regs' mem' where "reaches m (p, length (body (gmodule s) p), regs, mem) (q, length (body (gmodule t) q), regs', mem')"
    "holds_variables S mem' vs" "Q mem' regs' n"
  using assms unfolding evaluates_def by blast

lemma goes_onD:
  assumes "goes_on K p s q t"
  shows "open_at q t" "changes {p} K s t" "q = p \<or> length (block_store (gmodule s)) \<le> q"
  using assms by (simp_all add: goes_on_def)

lemma goes_on_trans:
  assumes a: "goes_on K p s q t" and b: "goes_on L q t r u"
  shows "goes_on (K \<union> L) p s r u"
proof -
  note a = goes_onD [OF a] and b = goes_onD [OF b]
  have "changes {p} (K \<union> L) s u" by (rule changes_trans [OF a(2) b(2)]) (use a(3) in auto)
  then show ?thesis using a(3) b(1, 3) changesD(4) [OF a(2)] by (auto simp: goes_on_def)
qed

text \<open>The operand of a visited node.\<close>

lemma node_operand:
  assumes s: "open_at q s" and run: "get_rvalue k s = Inr (v, t)"
  shows "open_at q t" "changes {q} {} s t"
    "continues (gmodule t) m \<Longrightarrow> node_value mem s regs k w n \<Longrightarrow>
      \<exists>regs'. reaches m (q, length (body (gmodule s) q), regs, mem) (q, length (body (gmodule t) q), regs', mem) \<and> has_value t regs' v w n"
proof -
  note c = line_code [OF s run stays_inside [OF get_rvalue_stays] get_rvalue_visits]
  show "open_at q t" "changes {q} {} s t" by (rule c)+
  show "\<exists>regs'. reaches m (q, length (body (gmodule s) q), regs, mem) (q, length (body (gmodule t) q), regs', mem) \<and> has_value t regs' v w n"
    if "continues (gmodule t) m" "node_value mem s regs k w n"
    using c(3) [OF computes_get_rvalue [OF open_ready [OF s] that(2)] that(1)] by blast
qed

lemma visited_operand:
  assumes e: "visited_for c e p s q u" and run: "get_rvalue (expr_id e) u = Inr (v, t)"
  shows "operand_for c e p s q t v"
proof -
  have g: "goes_on (set (ids_expr e)) p s q u"
    and ev: "evaluates c e p s q u (\<lambda>mem regs n. node_value mem u regs (expr_id e) (node_width c (expr_id e)) n)"
    using e by (simp_all add: visited_for_def)
  note o = node_operand [OF goes_onD(1) [OF g] run]
  have "goes_on {} q u q t" using o(1, 2) by (simp add: goes_on_def)
  then have "goes_on (set (ids_expr e)) p s q t" using goes_on_trans [OF g] by force
  moreover have "evaluates c e p s q t (\<lambda>mem regs n. has_value t regs v (node_width c (expr_id e)) n)"
    unfolding evaluates_def
  proof (intro allI impI)
    fix m S vs regs mem n
    assume m: "continues (gmodule t) m" and S: "map_le (slots_of t) S" "good_slots (sema (world t)) S"
      and h: "holds_variables S mem vs" and n: "expr_value c vs e = Some n"
    from evaluated_value [OF ev later [OF o(2) m S] h n, of regs] obtain regs1 mem1 where
      1: "reaches m (p, length (body (gmodule s) p), regs, mem) (q, length (body (gmodule u) q), regs1, mem1)" "holds_variables S mem1 vs"
        "node_value mem1 u regs1 (expr_id e) (node_width c (expr_id e)) n" .
    from o(3) [OF m 1(3)] obtain regs2 where
      "reaches m (q, length (body (gmodule u) q), regs1, mem1) (q, length (body (gmodule t) q), regs2, mem1)"
      "has_value t regs2 v (node_width c (expr_id e)) n" by blast
    then show "\<exists>regs' mem'. reaches m (p, length (body (gmodule s) p), regs, mem) (q, length (body (gmodule t) q), regs', mem')
        \<and> holds_variables S mem' vs \<and> has_value t regs' v (node_width c (expr_id e)) n"
      using reaches_trans [OF 1(1)] 1(2) by blast
  qed
  ultimately show ?thesis by (simp add: operand_for_def)
qed

text \<open>An expression without blocks of its own.\<close>

lemma straight_visit:
  assumes s: "starts c D (ids_expr e) p s" and e: "scalar_expr c (declared c D) e" and run: "gen_expr e s = Inr (u, t)"
  shows "visited_for c e p s p t"
proof -
  have o: "open_at p s" and c: "sema (world s) = c" and ids: "distinct (ids_expr e)" "unvisited s e"
    using s by (simp_all add: starts_def unvisited_fresh)
  have sc: "scalar_expr c (slots_of s) e" by (rule starts_scalar [OF s e])
  have line: "line.holds p (set (ids_expr e)) (inside (sema (world s)) (slots_of s)) (gen_expr e)"
    using expr_stays(2) sc c by blast
  note code = line_code [OF o run line visitor_visits(2) [rule_format]]
  have "evaluates c e p s p t (\<lambda>mem regs n. node_value mem t regs (expr_id e) (node_width c (expr_id e)) n)"
    unfolding evaluates_def
  proof (intro allI impI)
    fix m S vs regs mem n
    assume m: "continues (gmodule t) m" and S: "map_le (slots_of t) S" and h: "holds_variables S mem vs" and n: "expr_value c vs e = Some n"
    have "holds_variables (slots_of s) mem vs" using h S changesD(2) [OF code(2)] holds_smaller map_le_trans by blast
    then have "before p mem vs s e n" using open_ready [OF o] sc ids n c by (simp add: before_def)
    from code(3) [OF computes_expr(2) [rule_format, OF this] m] h
    show "\<exists>regs' mem'. reaches m (p, length (body (gmodule s) p), regs, mem) (p, length (body (gmodule t) p), regs', mem')
        \<and> holds_variables S mem' vs \<and> node_value mem' t regs' (expr_id e) (node_width c (expr_id e)) n"
      unfolding c by blast
  qed
  then show ?thesis using code(1, 2) by (simp add: visited_for_def goes_on_def)
qed

subsection \<open>Short circuits\<close>

lemma temporary_holds:
  assumes "holds_variables S mem vs" "good_slots c S" "temporary x"
  shows "holds_variables S (mem(x \<mapsto> z)) vs"
proof -
  have "y \<noteq> x" if "S a = Some (RegisterValue y ty)" for a y ty
  proof -
    have "slot_name S a = Some y" using that by (simp add: slot_name_def)
    then have "\<not> temporary y" using assms(2) unfolding good_slots_def by blast
    then show ?thesis using assms(3) by blast
  qed
  then show ?thesis using assms(1) by (auto simp: holds_variables_def)
qed

lemma enter_starts:
  assumes "starts c D js p s" "changes Q K s t" "steady t" "waiting q t" "enter_block q t = Inr ((), t')"
    "K \<inter> set ks = {}" "distinct ks" "set ks \<subseteq> set js"
  shows "starts c D ks q t'" "changes Q K s t'" "body (gmodule t') q = []" "changes {} {} t t'"
proof -
  have q: "q \<in> own t" "body (gmodule t) q = []" using assms(4) by (simp_all add: waiting_def)
  note e = enter_block_code [OF assms(3) q assms(5)]
  show "changes {} {} t t'" by (rule e(2))
  show "changes Q K s t'" by (rule changes_trans [OF assms(2) e(2)]) auto
  from starts_later [OF assms(1) e(1) this assms(6-8)] show "starts c D ks q t'" .
  show "body (gmodule t') q = []" using q(2) by (simp add: e(3))
qed

lemma node_value_frame:
  assumes "name_used (gbuilder t) = name_used (gbuilder s)" "expr_value_map t = expr_value_map s" "expr_address_map t = expr_address_map s"
  shows "node_value mem t regs k w n = node_value mem s regs k w n"
proof -
  have "has_value t regs = has_value s regs" using assms(1) by (intro ext) (simp add: has_value_def split: IRValue.split)
  then show ?thesis using assms(2, 3) by (simp add: node_value_def split: option.split)
qed

text \<open>The left side, and the jump that it decides; the value that skips the right side is stored before.\<close>

lemma logical_left:
  assumes s: "open_at p s" and l: "visited_for c l p s q u" and x: "temporary x" and w: "node_width c (expr_id l) = 1"
    and run: "build (create_block l1) u = Inr (b1, u1)" "build (create_block l2) u1 = Inr (b2, u2)" "get_rvalue (expr_id l) u2 = Inr (v, u3)"
      "build (create_store (ConstantValue (IntegerType 1) (of_bool d)) (RegisterValue x ty)) u3 = Inr ((), u4)"
      "build (if d then create_cond_br v b2 b1 else create_cond_br v b1 b2) u4 = Inr ((), t)"
  shows "steady t" "changes {p} (set (ids_expr l)) s t" "waiting b1 t" "waiting b2 t" "distinct [p, b1, b2]"
    "list_all ((\<le>) (length (block_store (gmodule s)))) [b1, b2]"
    "\<And>m S vs a regs mem. continues (gmodule t) m \<Longrightarrow> map_le (slots_of t) S \<Longrightarrow> good_slots (sema (world t)) S \<Longrightarrow>
      holds_variables S mem vs \<Longrightarrow> expr_value c vs l = Some a \<Longrightarrow> a = 0 \<or> a = 1 \<Longrightarrow>
      \<exists>regs' mem'. reaches m (p, length (body (gmodule s) p), regs, mem) (if a = of_bool d then b2 else b1, 0, regs', mem')
        \<and> holds_variables S mem' vs \<and> mem' x = Some (of_bool d)"
proof -
  have g: "goes_on (set (ids_expr l)) p s q u"
    and ev: "evaluates c l p s q u (\<lambda>mem regs n. node_value mem u regs (expr_id l) 1 n)"
    using l by (simp_all add: visited_for_def w)
  note g = goes_onD [OF g]
  note n1 = create_block_code [OF g(1) run(1)]
  note n2 = create_block_code [OF n1(1) run(2)]
  have "waiting b1 u1" using n1(5, 6) by (simp add: waiting_def)
  then have w2: "waiting b1 u2" "waiting b2 u2"
    using waiting_later [OF openD(2) [OF n1(1)] n2(2)] n2(5, 6) by (simp_all add: waiting_def)
  note o = node_operand [OF n2(1) run(3)]
  note st = store_code [OF o(1) run(4)]
  have chb: "changes {} {} u u2" by (rule changes_trans [OF n1(2) n2(2)]) auto
  have ch4: "changes {q} {} u2 u4" by (rule changes_trans [OF o(2) st(2)]) auto
  have q: "q < b1" "b2 = Suc b1" "p < b1" "length (block_store (gmodule s)) \<le> b1"
    using openD(4) [OF g(1)] openD(4) [OF s] n1(3, 4) n2(3) changesD(4) [OF g(2)] by auto
  then have w4: "waiting b1 u4" "waiting b2 u4" using waiting_later [OF openD(2) [OF n2(1)] ch4] w2 by auto
  let ?B = "if d then b2 else b1" and ?C = "if d then b1 else b2"
  have own: "?B \<in> own u4" "?C \<in> own u4" using w4 by (auto simp: waiting_def)
  have "build (create_cond_br v ?B ?C) u4 = Inr ((), t)" using run(5) by (simp split: if_splits)
  note cb = cond_br_code [OF st(1) own this]
  have later2: "changes {q} {} u2 t" by (rule changes_trans [OF ch4 cb(2)]) auto
  have lateru: "changes {q} {} u t" by (rule changes_trans [OF chb later2]) auto
  show "steady t" by (rule cb(1))
  show "changes {p} (set (ids_expr l)) s t" by (rule changes_trans [OF g(2) lateru]) (use g(3) in auto)
  show "waiting b1 t" "waiting b2 t" using waiting_later [OF openD(2) [OF st(1)] cb(2)] w4 q by auto
  show "distinct [p, b1, b2]" "list_all ((\<le>) (length (block_store (gmodule s)))) [b1, b2]" using q by auto
  fix m S vs a regs mem
  assume m: "continues (gmodule t) m" and S: "map_le (slots_of t) S" "good_slots (sema (world t)) S"
    and h: "holds_variables S mem vs" and a: "expr_value c vs l = Some a" "a = 0 \<or> a = 1"
  note l4 = later [OF cb(2) m S]
  note l3 = later [OF st(2) l4]
  from evaluated_value [OF ev later [OF lateru m S] h a(1), of regs] obtain regs1 mem1 where
    1: "reaches m (p, length (body (gmodule s) p), regs, mem) (q, length (body (gmodule u) q), regs1, mem1)" "holds_variables S mem1 vs"
      "node_value mem1 u regs1 (expr_id l) 1 a" .
  have "node_value mem1 u2 regs1 (expr_id l) 1 a"
    using 1(3) node_value_frame [OF n1(7-9)] node_value_frame [OF n2(7-9)] by blast
  from o(3) [OF l3(1) this] obtain regs2 where
    2: "reaches m (q, length (body (gmodule u2) q), regs1, mem1) (q, length (body (gmodule u3) q), regs2, mem1)" "has_value u3 regs2 v 1 a"
    by blast
  have b: "body (gmodule u2) q = body (gmodule u) q" using changesD(6) [OF chb openD(4) [OF g(1)]] by simp
  have 3: "reaches m (q, length (body (gmodule u3) q), regs2, mem1) (q, length (body (gmodule u4) q), regs2, mem1(x \<mapsto> of_bool d))"
    by (rule st(3) [OF l4(1)]) (simp add: operand_value_def)
  have "operand_value regs2 v = Some a" using 2(2) a(2) by (auto simp: has_value_def)
  from cb(4) [OF m this] have
    4: "reaches m (q, length (body (gmodule u4) q), regs2, mem1(x \<mapsto> of_bool d))
      (if a = of_bool d then b2 else b1, 0, regs2, mem1(x \<mapsto> of_bool d))"
    using a(2) by (auto split: if_splits)
  have "reaches m (p, length (body (gmodule s) p), regs, mem) (if a = of_bool d then b2 else b1, 0, regs2, mem1(x \<mapsto> of_bool d))"
    by (rule reaches_trans [OF 1(1) reaches_trans [OF 2(1) [unfolded b] reaches_trans [OF 3 4]]])
  moreover have "holds_variables S (mem1(x \<mapsto> of_bool d)) vs" by (rule temporary_holds [OF 1(2) S(2) x])
  ultimately show "\<exists>regs' mem'. reaches m (p, length (body (gmodule s) p), regs, mem) (if a = of_bool d then b2 else b1, 0, regs', mem')
      \<and> holds_variables S mem' vs \<and> mem' x = Some (of_bool d)"
    by (intro exI [of _ regs2] exI [of _ "mem1(x \<mapsto> of_bool d)"]) simp
qed

text \<open>The right side in its block: its value is stored, and the code goes on behind.\<close>

lemma logical_right:
  assumes s: "body (gmodule s) b1 = []" "b2 \<in> own s" and r: "visited_for c r b1 s q u" and x: "temporary x" and w: "node_width c (expr_id r) = 1"
    and run: "get_rvalue (expr_id r) u = Inr (v, u1)" "build (create_store v (RegisterValue x ty)) u1 = Inr ((), u2)"
      "branch_if_needed b2 u2 = Inr ((), t)"
  shows "steady t" "changes {b1} (set (ids_expr r)) s t"
    "\<And>m S vs n regs mem. continues (gmodule t) m \<Longrightarrow> map_le (slots_of t) S \<Longrightarrow> good_slots (sema (world t)) S \<Longrightarrow>
      holds_variables S mem vs \<Longrightarrow> expr_value c vs r = Some n \<Longrightarrow>
      \<exists>regs' mem'. reaches m (b1, 0, regs, mem) (b2, 0, regs', mem') \<and> holds_variables S mem' vs \<and> mem' x = Some (take_bit 1 n)"
proof -
  have o: "operand_for c r b1 s q u1 v" by (rule visited_operand [OF r run(1)])
  then have g: "goes_on (set (ids_expr r)) b1 s q u1" and ev: "evaluates c r b1 s q u1 (\<lambda>mem regs n. has_value u1 regs v 1 n)"
    by (simp_all add: operand_for_def w)
  note g = goes_onD [OF g]
  note st = store_code [OF g(1) run(2)]
  have ch2: "changes {b1} (set (ids_expr r)) s u2" by (rule changes_trans [OF g(2) st(2)]) (use g(3) in auto)
  have "b2 \<in> own u2" using s(2) changesD(5) [OF ch2] by blast
  note br = branch_if_needed_code [OF st(1) this run(3)]
  show "steady t" by (rule br(1))
  show "changes {b1} (set (ids_expr r)) s t" by (rule changes_trans [OF ch2 br(2)]) (use g(3) in auto)
  fix m S vs n regs mem
  assume m: "continues (gmodule t) m" and S: "map_le (slots_of t) S" "good_slots (sema (world t)) S"
    and h: "holds_variables S mem vs" and n: "expr_value c vs r = Some n"
  note l2 = later [OF br(2) m S]
  from evaluated_value [OF ev later [OF st(2) l2] h n, of regs] obtain regs1 mem1 where
    1: "reaches m (b1, 0, regs, mem) (q, length (body (gmodule u1) q), regs1, mem1)" "holds_variables S mem1 vs" "has_value u1 regs1 v 1 n"
    by (auto simp: s(1))
  have "operand_value regs1 v = Some (take_bit 1 n)" using 1(3) by (simp add: has_value_def)
  from reaches_trans [OF 1(1) reaches_trans [OF st(3) [OF l2(1) this] br(3) [OF m]]]
  have "reaches m (b1, 0, regs, mem) (b2, 0, regs1, mem1(x \<mapsto> take_bit 1 n))" .
  moreover have "holds_variables S (mem1(x \<mapsto> take_bit 1 n)) vs" by (rule temporary_holds [OF 1(2) S(2) x])
  ultimately show "\<exists>regs' mem'. reaches m (b1, 0, regs, mem) (b2, 0, regs', mem') \<and> holds_variables S mem' vs \<and> mem' x = Some (take_bit 1 n)"
    by (intro exI [of _ regs1] exI [of _ "mem1(x \<mapsto> take_bit 1 n)"]) simp
qed

text \<open>Both sides together, in the state at the end.\<close>

lemma logical_evaluates:
  assumes OP: "OP \<in> {BOP_AND_AND, BOP_OR_OR}"
    and l: "\<And>m S vs a regs mem. continues (gmodule t) m \<Longrightarrow> map_le (slots_of t) S \<Longrightarrow> good_slots (sema (world t)) S \<Longrightarrow>
      holds_variables S mem vs \<Longrightarrow> expr_value c vs l = Some a \<Longrightarrow> a = 0 \<or> a = 1 \<Longrightarrow>
      \<exists>regs' mem'. reaches m (p, length (body (gmodule s) p), regs, mem) (if a = of_bool (OP = BOP_OR_OR) then b2 else b1, 0, regs', mem')
        \<and> holds_variables S mem' vs \<and> mem' x = Some (of_bool (OP = BOP_OR_OR))"
    and r: "\<And>m S vs n regs mem. continues (gmodule t) m \<Longrightarrow> map_le (slots_of t) S \<Longrightarrow> good_slots (sema (world t)) S \<Longrightarrow>
      holds_variables S mem vs \<Longrightarrow> expr_value c vs r = Some n \<Longrightarrow>
      \<exists>regs' mem'. reaches m (b1, 0, regs, mem) (b2, 0, regs', mem') \<and> holds_variables S mem' vs \<and> mem' x = Some (take_bit 1 n)"
    and k: "body (gmodule t) b2 = []" "expr_value_map t k = None" "expr_address_map t k = Some (RegisterValue x (PointerType (IntegerType 1)))"
  shows "evaluates c (BinaryExpr k OP l r) p s b2 t (\<lambda>mem regs n. node_value mem t regs k 1 n)"
  unfolding evaluates_def
proof (intro allI impI)
  fix m S vs regs mem n
  assume m: "continues (gmodule t) m" and S: "map_le (slots_of t) S" "good_slots (sema (world t)) S"
    and h: "holds_variables S mem vs" and n: "expr_value c vs (BinaryExpr k OP l r) = Some n"
  have "\<exists>regs' mem'. reaches m (p, length (body (gmodule s) p), regs, mem) (b2, 0, regs', mem')
      \<and> holds_variables S mem' vs \<and> mem' x = Some (take_bit 1 n)"
  proof -
    let ?d = "of_bool (OP = BOP_OR_OR) :: int"
    obtain a where a: "expr_value c vs l = Some a" "a = 0 \<or> a = 1" and n': "if a = ?d then n = a else expr_value c vs r = Some n"
      using n OP by (auto split: option.splits if_splits)
    from l [OF m S h a, of regs] obtain regs1 mem1 where
      1: "reaches m (p, length (body (gmodule s) p), regs, mem) (if a = ?d then b2 else b1, 0, regs1, mem1)" "holds_variables S mem1 vs"
        "mem1 x = Some ?d" by blast
    show ?thesis
    proof (cases "a = ?d")
      case True
      then have "n = ?d" using n' by simp
      then have "mem1 x = Some (take_bit 1 n)" using 1(3) by simp
      then show ?thesis using 1(1, 2) True by auto
    next
      case False
      from r [OF m S 1(2), of n regs1] n' False obtain regs2 mem2 where
        "reaches m (b1, 0, regs1, mem1) (b2, 0, regs2, mem2)" "holds_variables S mem2 vs" "mem2 x = Some (take_bit 1 n)" by auto
      moreover have "reaches m (p, length (body (gmodule s) p), regs, mem) (b1, 0, regs1, mem1)" using 1(1) False by simp
      ultimately show ?thesis using reaches_trans by blast
    qed
  qed
  then show "\<exists>regs' mem'. reaches m (p, length (body (gmodule s) p), regs, mem) (b2, length (body (gmodule t) b2), regs', mem')
      \<and> holds_variables S mem' vs \<and> node_value mem' t regs' k 1 n"
    using k by (simp add: node_value_def)
qed

text \<open>The parts of the visit.\<close>

lemma logical_run:
  assumes s: "open_at p s" and OP: "OP \<in> {BOP_AND_AND, BOP_OR_OR}" and run: "gen_expr (BinaryExpr k OP l r) s = Inr (u, t)"
  obtains slot s1 s2 b1 s3 b2 s4 s5 v s6 s7 s8 s9 s10 s11 v' s12 s13 s14 s15 where
    "build (create_temp_alloca (IntegerType 1) []) s = Inr (slot, s1)" "gen_expr l s1 = Inr ((), s2)"
    "build (create_block ''logical.rhs'') s2 = Inr (b1, s3)" "build (create_block ''logical.merge'') s3 = Inr (b2, s4)"
    "ensure_current_insertion s4 = Inr ((), s5)" "get_rvalue (expr_id l) s5 = Inr (v, s6)"
    "build (create_store (ConstantValue (IntegerType 1) (of_bool (OP = BOP_OR_OR))) slot) s6 = Inr ((), s7)"
    "build (if OP = BOP_OR_OR then create_cond_br v b2 b1 else create_cond_br v b1 b2) s7 = Inr ((), s8)"
    "enter_block b1 s8 = Inr ((), s9)" "gen_expr r s9 = Inr ((), s10)" "ensure_current_insertion s10 = Inr ((), s11)"
    "get_rvalue (expr_id r) s11 = Inr (v', s12)" "build (create_store v' slot) s12 = Inr ((), s13)"
    "branch_if_needed b2 s13 = Inr ((), s14)" "enter_block b2 s14 = Inr ((), s15)" "set_address k slot s15 = Inr (u, t)"
proof -
  obtain ctx where ctx: "fn_ctx s = Some ctx" using in_open [OF s] .
  have lower: "lower_type (BoolRealType NO_REF) s = Inr (IntegerType 1, s)"
    using lower_scalar(1) [of "BoolRealType NO_REF" s] by (simp add: width_def)
  have ops: "\<not> is_assignment OP" "\<not> is_arithmetic OP" "\<not> is_comparison OP"
    using OP by (auto simp: is_assignment_def is_arithmetic_def is_comparison_def)
  from run ctx ops have "gen_logical k OP (expr_id l) (expr_id r) (gen_expr l) (gen_expr r) s = Inr (u, t)"
    by (auto simp: gen_binary_def when_in_function_def when_act_def res_simps)
  moreover have "(if OP = BOP_AND_AND then 0 else 1) = (of_bool (OP = BOP_OR_OR) :: int)"
    "(if OP = BOP_AND_AND then create_cond_br v a b else create_cond_br v b a)
      = (if OP = BOP_OR_OR then create_cond_br v b a else create_cond_br v a b)" for v a b
    using OP by auto
  ultimately show thesis using lower by (auto simp: gen_logical_def res_simps intro: that)
qed

lemma logical_visit:
  assumes s: "starts c D (ids_expr (BinaryExpr k OP l r)) p s" and OP: "OP \<in> {BOP_AND_AND, BOP_OR_OR}"
    and w: "node_width c (expr_id l) = 1" "node_width c (expr_id r) = 1" "node_width c k = 1"
    and l: "\<And>p s u t. starts c D (ids_expr l) p s \<Longrightarrow> gen_expr l s = Inr (u, t) \<Longrightarrow> \<exists>q. visited_for c l p s q t"
    and r: "\<And>p s u t. starts c D (ids_expr r) p s \<Longrightarrow> gen_expr r s = Inr (u, t) \<Longrightarrow> \<exists>q. visited_for c r p s q t"
    and run: "gen_expr (BinaryExpr k OP l r) s = Inr (u, t)"
  shows "\<exists>q. visited_for c (BinaryExpr k OP l r) p s q t"
proof -
  let ?K = "set (ids_expr (BinaryExpr k OP l r))" and ?d = "OP = BOP_OR_OR"
  have o: "open_at p s" and ids: "distinct (ids_expr (BinaryExpr k OP l r))" "expr_value_map s k = None"
    using s by (auto simp: starts_def fresh_def)
  from logical_run [OF o OP run] obtain slot s1 s2 b1 s3 b2 s4 s5 v s6 s7 s8 s9 s10 s11 v' s12 s13 s14 s15 where
    al: "build (create_temp_alloca (IntegerType 1) []) s = Inr (slot, s1)" and le: "gen_expr l s1 = Inr ((), s2)"
    and bl: "build (create_block ''logical.rhs'') s2 = Inr (b1, s3)" "build (create_block ''logical.merge'') s3 = Inr (b2, s4)"
    and en: "ensure_current_insertion s4 = Inr ((), s5)" and rl: "get_rvalue (expr_id l) s5 = Inr (v, s6)"
      "build (create_store (ConstantValue (IntegerType 1) (of_bool ?d)) slot) s6 = Inr ((), s7)"
      "build (if ?d then create_cond_br v b2 b1 else create_cond_br v b1 b2) s7 = Inr ((), s8)"
    and e1: "enter_block b1 s8 = Inr ((), s9)" and ri: "gen_expr r s9 = Inr ((), s10)" and en': "ensure_current_insertion s10 = Inr ((), s11)"
    and rr: "get_rvalue (expr_id r) s11 = Inr (v', s12)" "build (create_store v' slot) s12 = Inr ((), s13)"
      "branch_if_needed b2 s13 = Inr ((), s14)" and e2: "enter_block b2 s14 = Inr ((), s15)" and sa: "set_address k slot s15 = Inr (u, t)" .
  have hint: "good_hint []" by (simp add: good_hint_def)
  let ?x = "name_of [] (counter (gbuilder s) [])"
  note a = alloca_code [OF o hint al]
  note slot = a(3)
  have x: "temporary ?x" by (auto simp: temporary_def)
  have sl: "starts c D (ids_expr l) p s1" by (rule starts_later [OF s a(1, 2)]) (use ids in auto)
  from l [OF sl le] obtain q where vl: "visited_for c l p s1 q s2" by blast
  have "open_at q s4" using vl create_block_code(1) [OF create_block_code(1) [OF _ bl(1)] bl(2)] by (simp add: visited_for_def goes_on_def)
  then have "s5 = s4" using en ready_reads(1) [OF open_ready] by simp
  note h = logical_left [OF a(1) vl x w(1) bl rl [unfolded this slot]]
  have ch8: "changes {p} (set (ids_expr l)) s s8" by (rule changes_trans [OF a(2) h(2)]) auto
  have en9: "starts c D (ids_expr r) b1 s9" "body (gmodule s9) b1 = []" "changes {} {} s8 s9"
    using enter_starts [OF s ch8 h(1, 3) e1, of "ids_expr r"] ids by auto
  from r [OF en9(1) ri] obtain q' where vr: "visited_for c r b1 s9 q' s10" by blast
  then have "s11 = s10" using en' ready_reads(1) [OF open_ready] by (auto simp: visited_for_def goes_on_def)
  note rr = rr [unfolded this slot]
  have w9: "waiting b2 s9" using waiting_later [OF h(1) en9(3)] h(4) by auto
  then have own9: "b2 \<in> own s9" by (simp add: waiting_def)
  note g = logical_right [OF en9(2) own9 vr x w(2) rr]
  have b: "p \<noteq> b1" "b1 \<noteq> b2" and len: "length (block_store (gmodule s)) \<le> b1" using h(5, 6) changesD(4) [OF a(2)] by auto
  have "steady s9" using en9(1) openD(2) by (auto simp: starts_def)
  from waiting_later [OF this g(2) w9] b have w14: "b2 \<in> own s14" "body (gmodule s14) b2 = []" by (auto simp: waiting_def)
  note en15 = enter_block_code [OF g(1) w14 e2]
  note fin = set_address_code [OF en15(1) sa]
  have ch: "changes {b1} (set (ids_expr r)) s8 s14" by (rule changes_trans [OF en9(3) g(2)]) auto
  have ch15: "changes {b1} (set (ids_expr r)) s8 s15" by (rule changes_trans [OF ch en15(2)]) auto
  have ch14: "changes {p} (set (ids_expr l) \<union> set (ids_expr r)) s s15" by (rule changes_trans [OF ch8 ch15]) (use len in auto)
  have chp: "changes {p} ?K s t" by (rule changes_trans [OF ch14 fin(2)]) auto
  have later14: "changes {} ?K s14 t" by (rule changes_trans [OF en15(2) fin(2)]) auto
  have later8: "changes {b1} ?K s8 t" by (rule changes_trans [OF ch15 fin(2)]) auto
  have "expr_value_map s15 k = expr_value_map s k" by (rule changesD(7) [OF ch14]) (use ids in auto)
  then have "evaluates c (BinaryExpr k OP l r) p s b2 t (\<lambda>mem regs n. node_value mem t regs k 1 n)"
  proof (intro logical_evaluates [where ?b1.0 = b1 and x = ?x])
    fix m S vs a regs mem
    assume "continues (gmodule t) m" "map_le (slots_of t) S" "good_slots (sema (world t)) S"
    note l8 = later [OF later8 this] and l14 = later [OF later14 this]
    show "\<exists>regs' mem'. reaches m (p, length (body (gmodule s) p), regs, mem) (if a = of_bool ?d then b2 else b1, 0, regs', mem')
        \<and> holds_variables S mem' vs \<and> mem' ?x = Some (of_bool ?d)"
      if "holds_variables S mem vs" "expr_value c vs l = Some a" "a = 0 \<or> a = 1"
      using h(7) [OF l8 that] unfolding a(6) .
    show "\<exists>regs' mem'. reaches m (b1, 0, regs, mem) (b2, 0, regs', mem') \<and> holds_variables S mem' vs \<and> mem' ?x = Some (take_bit 1 a)"
      if "holds_variables S mem vs" "expr_value c vs r = Some a"
      using g(3) [OF l14 that, of regs] by (simp add: en9(2))
  qed (use OP ids fin en15(3) w14(2) slot in auto)
  moreover have "length (block_store (gmodule s)) \<le> b2" using h(6) changesD(4) [OF a(2)] by simp
  ultimately show ?thesis using fin(1) chp w(3) by (auto simp: visited_for_def goes_on_def)
qed

text \<open>Every expression that is covered.\<close>

lemma lazy_visit:
  "lazy_expr c S e \<Longrightarrow> S = declared c D \<Longrightarrow> starts c D (ids_expr e) p s \<Longrightarrow> gen_expr e s = Inr (u, t) \<Longrightarrow> \<exists>q. visited_for c e p s q t"
proof (induction c S e arbitrary: p s u t rule: lazy_expr.induct)
  case (1 c S k OP l r)
  show ?case
  proof (cases "scalar_expr c S (BinaryExpr k OP l r)")
    case True
    then show ?thesis using straight_visit 1 by blast
  next
    case False
    then show ?thesis using 1 by (intro logical_visit [OF 1(5) _ _ _ _ _ _ 1(6)]) auto
  qed
qed (simp_all only: lazy_expr.simps, (blast intro: straight_visit)+)

text \<open>The operand of an expression, and an expression whose value is not used.\<close>

lemma operand_code:
  assumes "lazy_expr c (declared c D) e" "starts c D (ids_expr e) p s" "gen_expr e s = Inr (u, t1)" "get_rvalue (expr_id e) t1 = Inr (v, t)"
  obtains q where "operand_for c e p s q t v"
  using lazy_visit [OF assms(1) refl assms(2, 3)] visited_operand [OF _ assms(4)] by blast

lemma unused_code:
  assumes "lazy_expr c (declared c D) e" "starts c D (ids_expr e) p s" "gen_expr e s = Inr (u, t)"
  obtains q where "code_for (set (ids_expr e)) p s q t (\<lambda>vs vs'. vs' = vs \<and> expr_value c vs e \<noteq> None)"
proof -
  obtain q where v: "visited_for c e p s q t" using lazy_visit [OF assms(1) refl assms(2, 3)] by blast
  have "runs_to p s q t (\<lambda>vs vs'. vs' = vs \<and> expr_value c vs e \<noteq> None)"
    using v unfolding runs_to_def visited_for_def evaluates_def by blast
  then show thesis using v that by (auto simp: code_for_def visited_for_def goes_on_def)
qed

end
