(* ===== verification/StmtCorrect.thy ===== *)
theory StmtCorrect
  imports LazyCode
begin

section \<open>Statements that are covered\<close>

text \<open>
  Assignments, branches, loops and blocks with local variables, over the expressions of \<open>lazy_expr\<close>. The predicates
  follow the declarations of the variables, so that an identifier refers to a variable that has been
  declared before.
\<close>

fun chain :: "('d \<Rightarrow> 'd option) list \<Rightarrow> 'd \<Rightarrow> 'd option" where
  "chain [] d = Some d"
| "chain (f # fs) d = (case f d of Some d' \<Rightarrow> chain fs d' | None \<Rightarrow> None)"

definition unit_node :: "Semantic_Checker \<Rightarrow> nat \<Rightarrow> bool" where
  "unit_node c k \<longleftrightarrow> has_state (outcome_of c k) NEXT \<and> (case expr_type c k of Some t \<Rightarrow> kind t = RTK_UNIT | None \<Rightarrow> False)"

definition condition_ok :: "Semantic_Checker \<Rightarrow> address list \<Rightarrow> expr \<Rightarrow> bool" where
  "condition_ok c D g \<longleftrightarrow> lazy_expr c (declared c D) g \<and> node_width c (expr_id g) = 1"

definition assignment_ok :: "Semantic_Checker \<Rightarrow> address list \<Rightarrow> Binary_Operator \<Rightarrow> expr \<Rightarrow> expr \<Rightarrow> bool" where
  "assignment_ok c D OP l r \<longleftrightarrow>
     scalar_expr c (declared c D) l \<and> lazy_expr c (declared c D) r
     \<and> (case l of IdentifierExpr _ _ \<Rightarrow> True | _ \<Rightarrow> False)
     \<and> (if OP = BOP_ASSIGN then node_width c (expr_id r) = node_width c (expr_id l)
        else
          (case (assigned_op OP, scalar_kind c (expr_id l), scalar_kind c (expr_id r)) of
             (Some OP', Some ka, Some kb) \<Rightarrow> sign_from_left OP' ka kb \<and> (OP' \<in> {BOP_SHL, BOP_SHR} \<longrightarrow> kb \<in> int_kinds)
           | _ \<Rightarrow> False))"

text \<open>For a statement, the variables that are declared after it.\<close>

primrec effect_expr :: "Semantic_Checker \<Rightarrow> expr \<Rightarrow> address list \<Rightarrow> bool"
  and effect_stmt :: "Semantic_Checker \<Rightarrow> stmt \<Rightarrow> address list \<Rightarrow> address list option"
where
  "effect_expr c (BinaryExpr k OP l r) = (\<lambda>D. assignment_ok c D OP l r)"
| "effect_expr c (BlockExpr k ss t u) =
     (\<lambda>D. case chain (map (effect_stmt c) ss) D of
            None \<Rightarrow> False
          | Some D' \<Rightarrow>
              (case map_option (effect_stmt c) t of
                 None \<Rightarrow> True
               | Some f \<Rightarrow> f D' \<noteq> None \<and> unit_node c (stmt_id (the t))))"
| "effect_expr c (IfExpr k g a b u) =
     (\<lambda>D. condition_ok c D g \<and> unit_node c k \<and> effect_expr c a D
        \<and> (case map_option (effect_expr c) b of None \<Rightarrow> True | Some f \<Rightarrow> f D))"
| "effect_expr c (WhileExpr k g b) = (\<lambda>D. condition_ok c D g \<and> effect_expr c b D)"
| "effect_expr c (LiteralExpr _ _ _) = (\<lambda>D. False)"
| "effect_expr c (IdentifierExpr _ _) = (\<lambda>D. False)"
| "effect_expr c (UnaryExpr _ _ _) = (\<lambda>D. False)"
| "effect_expr c (CallExpr _ _ _) = (\<lambda>D. False)"
| "effect_expr c (FieldExpr _ _ _) = (\<lambda>D. False)"
| "effect_expr c (StructExpr _ _ _) = (\<lambda>D. False)"
| "effect_expr c (IndexExpr _ _ _) = (\<lambda>D. False)"
| "effect_expr c (LoopExpr _ _ _) = (\<lambda>D. False)"
| "effect_expr c (ReturnExpr _ _) = (\<lambda>D. False)"
| "effect_expr c (BreakExpr _ _) = (\<lambda>D. False)"
| "effect_expr c (ContinueExpr _) = (\<lambda>D. False)"
| "effect_expr c (CastExpr _ _ _) = (\<lambda>D. False)"
| "effect_expr c (PathExpr _ _ _) = (\<lambda>D. False)"
| "effect_expr c (SelfExpr _) = (\<lambda>D. False)"
| "effect_expr c (UnitExpr _) = (\<lambda>D. False)"
| "effect_expr c (ArrayExpr _ _) = (\<lambda>D. False)"
| "effect_expr c (RepeatArrayExpr _ _ _) = (\<lambda>D. False)"
| "effect_stmt c (ExprStmt k e semi) =
     (\<lambda>D. if has_state (outcome_of c k) NEXT
            \<and> (if semi then effect_expr c e D \<or> lazy_expr c (declared c D) e
               else effect_expr c e D \<and>
                 (case expr_type c (expr_id e) of Some t \<Rightarrow> kind t = RTK_UNIT | None \<Rightarrow> True))
          then Some D else None)"
| "effect_stmt c (LetStmt k p t e) =
     (\<lambda>D. case let_stmt_to_decl_map c k of
            None \<Rightarrow> None
          | Some a \<Rightarrow>
              (case var_kind c a of
                 None \<Rightarrow> None
               | Some kd \<Rightarrow>
                   if has_state (outcome_of c k) NEXT
                     \<and> (case e of
                          None \<Rightarrow> True
                        | Some e \<Rightarrow> lazy_expr c (declared c D) e \<and> node_width c (expr_id e) = width kd)
                   then Some (a # D) else None))"
| "effect_stmt c (ItemStmt _ _) = (\<lambda>D. None)"

lemma lazy_no_effect: "lazy_expr c S e \<Longrightarrow> \<not> runs_expr c e vs vs'"
proof
  assume sc: "lazy_expr c S e" and "runs_expr c e vs vs'"
  from this(2) show False
  proof (cases rule: runs_expr.cases)
    case (runs_compound OP OP' j a m ka r kb n z k x)
    then show ?thesis using sc
      by (auto simp: assigned_op_def is_arithmetic_def is_comparison_def split: Binary_Operator.splits)
  qed (use sc in \<open>auto simp: is_arithmetic_def is_comparison_def\<close>)
qed

lemma assignment_no_value:
  assumes "OP = BOP_ASSIGN \<or> assigned_op OP \<noteq> None"
  shows "binary_value OP ka kb m n = None" "OP \<notin> {BOP_AND_AND, BOP_OR_OR}"
  using assms by (auto simp: binary_value_def arith_value_def assigned_op_def split: option.splits Binary_Operator.splits)

lemma assignment_ops:
  assumes "assignment_ok c D OP l r"
  shows "OP = BOP_ASSIGN \<or> assigned_op OP \<noteq> None" "is_assignment OP"
proof -
  show *: "OP = BOP_ASSIGN \<or> assigned_op OP \<noteq> None" using assms by (auto simp: assignment_ok_def split: if_splits option.splits)
  then show "is_assignment OP" by (auto simp: is_assignment_def assigned_op_def split: Binary_Operator.splits)
qed

lemma effect_no_value: "effect_expr c e D \<Longrightarrow> expr_value c vs e = None"
proof (cases e)
  case (BinaryExpr k OP l r)
  assume "effect_expr c e D"
  then have "OP = BOP_ASSIGN \<or> assigned_op OP \<noteq> None" using assignment_ops(1) by (simp add: BinaryExpr)
  from assignment_no_value [OF this] show ?thesis by (simp add: BinaryExpr split: option.split)
qed simp_all

section \<open>Assignments\<close>

lemma assigned_arith: "assigned_op OP = Some OP' \<Longrightarrow> arith_op OP = arith_op OP' \<and> is_arithmetic OP' \<and> OP \<noteq> BOP_ASSIGN"
  by (cases OP) (auto simp: assigned_op_def arith_op_def fun_eq_iff is_arithmetic_def)

text \<open>The value that is stored, once the right side has been visited.\<close>

definition new_value :: "Binary_Operator \<Rightarrow> nat \<Rightarrow> IRValue \<Rightarrow> IRValue \<Rightarrow> IRValue gen" where
  "new_value OP l addr rhs =
     (if OP = BOP_ASSIGN then ret_act rhs
      else bind_act (build (create_load addr [])) (\<lambda>lhs.
           bind_act (get_sema (\<lambda>c. kind_or_i32 c l)) (\<lambda>kd. arith_op OP (is_unsigned_kind kd) lhs rhs)))"

lemma made_value_stays: "stays p K (new_value OP l addr rhs)"
  unfolding new_value_def by (rule line.holds_rules stay_intros)+

lemma new_value_visits: "visits P (new_value OP l addr rhs)"
  unfolding new_value_def by (rule generating.holds_rules visit_intros keep_intros | (simp; fail))+

lemma computes_new_value:
  assumes s: "ready p s" and r: "has_value s regs rhs wr n" and c: "sema (world s) = c"
    and x: "mem x = Some (take_bit w m)"
    and OP: "OP = BOP_ASSIGN \<and> wr = w \<and> z = n \<or>
      assigned_op OP = Some OP' \<and> scalar_kind c l = Some ka \<and> ka \<in> insert RTK_BOOL int_kinds \<and> w = width ka \<and> wr = width kb \<and>
      sign_from_left OP' ka kb \<and> (OP' \<in> {BOP_SHL, BOP_SHR} \<longrightarrow> kb \<in> int_kinds) \<and> binary_value OP' ka kb m n = Some z"
  shows "computes p mem {} (new_value OP l (RegisterValue x (PointerType (IntegerType w))) rhs) s regs (\<lambda>v t regs'. has_value t regs' v w z)"
proof (cases "OP = BOP_ASSIGN")
  case True
  then have "wr = w" "z = n" using OP by (auto simp: assigned_op_def)
  then show ?thesis unfolding new_value_def using computes_ret [OF s] r True by simp
next
  case False
  then have a: "assigned_op OP = Some OP'" "scalar_kind c l = Some ka" "ka \<in> insert RTK_BOOL int_kinds" "w = width ka" "wr = width kb"
    "sign_from_left OP' ka kb" "OP' \<in> {BOP_SHL, BOP_SHR} \<Longrightarrow> kb \<in> int_kinds" "binary_value OP' ka kb m n = Some z"
    using OP by blast+
  note op = assigned_arith [OF a(1)]
  let ?addr = "RegisterValue x (PointerType (IntegerType w))"
  have "computes p mem {} (bind_act (build (create_load ?addr [])) (\<lambda>lhs.
      bind_act (get_sema (\<lambda>c. kind_or_i32 c l)) (\<lambda>kd. arith_op OP (is_unsigned_kind kd) lhs rhs))) s regs
      (\<lambda>v t regs'. has_value t regs' v w z)"
  proof (rule computes_bind [OF computes_load [where x = x and w = w and n = m and mem = mem, OF s x]], simp)
    fix lhs u regs1 assume u: "extends p mem {} s regs u regs1" "has_value u regs1 lhs w m"
    have cu: "sema (world u) = c" using u(1) c by (simp add: extends_def)
    have rv: "has_value u regs1 rhs wr n" by (rule has_value_extends [OF u(1) r])
    have kd: "is_unsigned_kind (kind_or_i32 (sema (world u)) l) = (ka \<in> unsigned_kinds)"
      using kind_or_i32_scalar [OF a(2)] by (simp add: cu is_unsigned_kind_set)
    have "computes p mem {} (arith_op OP' (ka \<in> unsigned_kinds) lhs rhs) u regs1 (\<lambda>v t regs'. has_value t regs' v w z)"
      unfolding a(4)
      by (rule computes_binary_op(1) [OF extends_ready [OF u(1)] u(2) [unfolded a(4)] rv [unfolded a(5)] a(3, 6, 7, 8)]) (use op in auto)
    then show "computes p mem {} (bind_act (get_sema (\<lambda>c. kind_or_i32 c l)) (\<lambda>kd. arith_op OP (is_unsigned_kind kd) lhs rhs)) u regs1
        (\<lambda>v t regs'. has_value t regs' v w z)"
      using op by (intro computes_reads(3) [OF extends_ready [OF u(1)]]) (simp add: kd)
  qed
  then show ?thesis using False by (simp add: new_value_def)
qed

text \<open>The parts of the visit of an assignment.\<close>

lemma scalar_identifier:
  assumes "scalar_expr c S (IdentifierExpr j x)"
  obtains a y ka where "identifier_expr_to_decl_map c j = Some (LetStmt_decl a)"
    "S a = Some (RegisterValue y (PointerType (IntegerType (width ka))))" "scalar_kind c j = Some ka" "ka \<in> insert RTK_BOOL int_kinds"
proof -
  from assms obtain a v where a: "identifier_expr_to_decl_map c j = Some (LetStmt_decl a)" and v: "S a = Some v"
    by (auto split: option.splits ValueDecl.splits)
  have "\<exists>y ka. v = RegisterValue y (PointerType (IntegerType (width ka))) \<and> scalar_kind c j = Some ka"
    using assms a v by (cases v) (auto simp: node_width_def)
  then obtain y ka where y: "v = RegisterValue y (PointerType (IntegerType (width ka)))" "scalar_kind c j = Some ka" by blast
  moreover have "ka \<in> insert RTK_BOOL int_kinds" using scalar_kindD [OF y(2)] by blast
  ultimately show thesis using that a v by blast
qed

lemma identifier_code:
  assumes s: "open_at p s" and c: "sema (world s) = c" and j: "identifier_expr_to_decl_map c j = Some (LetStmt_decl a)"
    and a: "slots_of s a = Some slot" and run: "gen_identifier j s = Inr (u, t)"
  shows "open_at p t" "changes {} {j} s t" "gmodule t = gmodule s" "expr_address_map t j = Some slot"
proof -
  obtain ctx where ctx: "fn_ctx s = Some ctx" using s by (auto simp: open_at_def at_point_def steady_def)
  have "ensure_slot_for_decl a s = Inr (slot, s)"
    using a ready_reads(2) [OF open_ready [OF s]] by (simp add: ensure_slot_for_decl_def bind_act_def ctx slots_of_def ret_act_def)
  then have "set_address j slot s = Inr (u, t)"
    using run j c by (simp add: gen_identifier_def bind_act_def then_act_def ready_reads [OF open_ready [OF s]])
  from set_address_code [OF s this] show "open_at p t" "changes {} {j} s t" "gmodule t = gmodule s" "expr_address_map t j = Some slot"
    by simp_all
qed

lemma assign_run:
  assumes s: "open_at p s" and c: "sema (world s) = c" and addr: "expr_address_map s j = Some addr" and ka: "scalar_kind c j = Some ka"
    and run: "gen_assign k OP j r s = Inr (u, t)"
  obtains rhs s3 res s4 s5 where "get_rvalue r s = Inr (rhs, s3)"
    "open_at p s3 \<longrightarrow> new_value OP j addr rhs s3 = Inr (res, s4) \<and> build (create_store res addr) s4 = Inr ((), s5)
      \<and> set_value k (Some res) s5 = Inr (u, t)"
proof -
  note rd = ready_reads [OF open_ready [OF s]]
  have lv: "get_lvalue j s = Inr (addr, s)"
    using addr rd by (auto simp: get_lvalue_def bind_act_def ret_act_def get_act_def split: option.split)
  obtain ty where ty: "expr_type c j = Some ty" "is_ref ty = NO_REF" "kind ty \<in> insert RTK_BOOL int_kinds"
    using scalar_kindD [OF ka] by metis
  have na: "\<not> is_aggregate_type (node_type c j)" using ty by (auto simp: node_type_def is_aggregate_type_def int_kinds_def)
  from run lv c na obtain rhs s3 where r: "get_rvalue r s = Inr (rhs, s3)"
    and rest: "then_act ensure_current_insertion (bind_act (new_value OP j addr rhs)
      (\<lambda>res. then_act (build (create_store res addr)) (set_value k (Some res)))) s3 = Inr (u, t)"
    by (auto simp: gen_assign_def new_value_def res_simps rd(3))
  show thesis
  proof (cases "open_at p s3")
    case True
    then show thesis using rest r that ready_reads(1) [OF open_ready [OF True]] by (auto simp: res_simps)
  next
    case False
    then show thesis using that r by blast
  qed
qed

text \<open>The states between the parts.\<close>

lemma assign_states:
  assumes s: "starts c D (ids_expr (BinaryExpr k OP (IdentifierExpr j x) r)) p s" and ok: "assignment_ok c D OP (IdentifierExpr j x) r"
    and a: "identifier_expr_to_decl_map c j = Some (LetStmt_decl a)" "slots_of s a = Some slot" "scalar_kind c j = Some ka"
    and run: "gen_expr (BinaryExpr k OP (IdentifierExpr j x) r) s = Inr (u, t)"
  obtains s1 q rhs s3 res s4 s5 where "changes {} {j} s s1" "gmodule s1 = gmodule s" "operand_for c r p s1 q s3 rhs"
    "new_value OP j slot rhs s3 = Inr (res, s4)" "build (create_store res slot) s4 = Inr ((), s5)" "set_value k (Some res) s5 = Inr (u, t)"
proof -
  have o: "open_at p s" and c: "sema (world s) = c" and ids: "j \<notin> set (ids_expr r)" "distinct (ids_expr r)"
    using s by (auto simp: starts_def)
  have "is_assignment OP" using assignment_ops(2) [OF ok(1)] .
  then obtain s1 s2 where 1: "gen_identifier j s = Inr ((), s1)" and 2: "gen_expr r s1 = Inr ((), s2)"
    and 3: "gen_assign k OP j (expr_id r) s2 = Inr (u, t)"
    using run o by (auto simp: gen_binary_def when_in_function_def when_act_def res_simps open_at_def at_point_def steady_def)
  note i = identifier_code [OF o c a(1, 2) 1]
  have r: "starts c D (ids_expr r) p s1" by (rule starts_later [OF s i(1, 2)]) (use ids in auto)
  have "lazy_expr c (declared c D) r" using ok by (simp add: assignment_ok_def)
  from lazy_visit [OF this refl r 2] obtain q where v: "visited_for c r p s1 q s2" by blast
  then have v2: "open_at q s2" "changes {p} (set (ids_expr r)) s1 s2" by (simp_all add: visited_for_def goes_on_def)
  have c2: "sema (world s2) = c" using changesD(1) [OF v2(2)] r by (simp add: starts_def)
  have addr: "expr_address_map s2 j = Some slot" using v2(2) i(4) ids(1) by (simp add: changes_def)
  from assign_run [OF v2(1) c2 addr a(3) 3] obtain rhs s3 res s4 s5 where rv: "get_rvalue (expr_id r) s2 = Inr (rhs, s3)"
    and rest: "open_at q s3 \<longrightarrow> new_value OP j slot rhs s3 = Inr (res, s4) \<and> build (create_store res slot) s4 = Inr ((), s5)
      \<and> set_value k (Some res) s5 = Inr (u, t)" .
  note v3 = visited_operand [OF v rv]
  then have "open_at q s3" by (simp add: operand_for_def goes_on_def)
  with rest show thesis using that [OF i(2, 3) v3] by blast
qed

text \<open>An assignment gives the variable the value that \<open>new_value\<close> computes.\<close>

lemma assigned_value:
  assumes R: "runs_expr c (BinaryExpr k OP (IdentifierExpr j x) r) vs vs'" and ok: "assignment_ok c D OP (IdentifierExpr j x) r"
    and a: "identifier_expr_to_decl_map c j = Some (LetStmt_decl a)" and ka: "scalar_kind c j = Some ka" "ka \<in> insert RTK_BOOL int_kinds"
    and slot: "S a = Some (RegisterValue y (PointerType (IntegerType (width ka))))" and h: "holds_variables S mem vs"
  obtains z n where "vs' = vs(a \<mapsto> z)" "expr_value c vs r = Some n"
    "\<And>p s regs rhs. ready p s \<Longrightarrow> sema (world s) = c \<Longrightarrow> has_value s regs rhs (node_width c (expr_id r)) n \<Longrightarrow>
      computes p mem {} (new_value OP j (RegisterValue y (PointerType (IntegerType (width ka)))) rhs) s regs
        (\<lambda>v t regs'. has_value t regs' v (width ka) z)"
proof -
  let ?w = "node_width c (expr_id r)"
  consider (plain) a' n where "OP = BOP_ASSIGN" "identifier_expr_to_decl_map c j = Some (LetStmt_decl a')" "vs' = vs(a' \<mapsto> n)"
      "expr_value c vs r = Some n"
    | (compound) OP' a' mm ka' kb n z where "assigned_op OP = Some OP'" "identifier_expr_to_decl_map c j = Some (LetStmt_decl a')"
      "vs a' = Some mm" "scalar_kind c j = Some ka'" "scalar_kind c (expr_id r) = Some kb" "expr_value c vs r = Some n"
      "binary_value OP' ka' kb mm n = Some z" "vs' = vs(a' \<mapsto> z)"
    using R by (auto elim: runs_binaryE)
  then show thesis
  proof cases
    case (plain a' n)
    then have *: "a' = a" "?w = width ka" using a ok ka(1) by (auto simp: assignment_ok_def node_width_def)
    show thesis
      by (rule that [of n n]) (use plain * in \<open>simp_all add: new_value_def computes_ret\<close>)
  next
    case (compound OP' a' mm ka' kb n z)
    then have a': "a' = a" "ka' = ka" using a ka(1) by simp_all
    have mem: "mem y = Some (take_bit (width ka) mm)" using h slot compound(3) a'(1) by (simp add: holds_variables_def)
    have sign: "sign_from_left OP' ka kb" "OP' \<in> {BOP_SHL, BOP_SHR} \<longrightarrow> kb \<in> int_kinds" "?w = width kb"
      using ok compound ka(1) assigned_arith [OF compound(1)] by (auto simp: assignment_ok_def node_width_def split: if_splits)
    show thesis
    proof (rule that [of z n])
      show "computes p mem {} (new_value OP j (RegisterValue y (PointerType (IntegerType (width ka)))) rhs) s regs
          (\<lambda>v t regs'. has_value t regs' v (width ka) z)"
        if "ready p s" "sema (world s) = c" "has_value s regs rhs ?w n" for p s regs rhs
        using compound a' sign ka that mem
        by (intro computes_new_value [where mem = mem and x = y and w = "width ka" and m = mm and c = c and wr = "width kb"
              and n = n and OP' = OP' and ka = ka and kb = kb]) simp_all
    qed (use compound a' in simp_all)
  qed
qed

lemma assign_code:
  assumes s: "starts c D (ids_expr (BinaryExpr k OP l r)) p s" and ok: "assignment_ok c D OP l r"
    and run: "gen_expr (BinaryExpr k OP l r) s = Inr (u, t)"
  shows "\<exists>q. code_for (set (ids_expr (BinaryExpr k OP l r))) p s q t (runs_expr c (BinaryExpr k OP l r))"
proof -
  have c: "sema (world s) = c" using s by (simp add: starts_def)
  obtain j x where l: "l = IdentifierExpr j x" using ok by (cases l) (simp_all add: assignment_ok_def)
  have sl: "scalar_expr c (slots_of s) l" using starts_scalar [OF s] ok by (simp add: assignment_ok_def)
  obtain a y ka where a: "identifier_expr_to_decl_map c j = Some (LetStmt_decl a)"
    and slot: "slots_of s a = Some (RegisterValue y (PointerType (IntegerType (width ka))))"
    and ka: "scalar_kind c j = Some ka" "ka \<in> insert RTK_BOOL int_kinds"
    using scalar_identifier [OF sl [unfolded l]] .
  let ?slot = "RegisterValue y (PointerType (IntegerType (width ka)))" and ?K = "set (ids_expr (BinaryExpr k OP l r))"
  obtain s1 q rhs s3 res s4 s5 where 1: "changes {} {j} s s1" "gmodule s1 = gmodule s" and v: "operand_for c r p s1 q s3 rhs"
    and 4: "new_value OP j ?slot rhs s3 = Inr (res, s4)" and 5: "build (create_store res ?slot) s4 = Inr ((), s5)"
    and 6: "set_value k (Some res) s5 = Inr (u, t)"
    using assign_states [OF s [unfolded l] ok [unfolded l] a slot ka(1) run [unfolded l]] .
  have g: "goes_on (set (ids_expr r)) p s1 q s3" and ev: "evaluates c r p s1 q s3 (\<lambda>mem regs n. has_value s3 regs rhs (node_width c (expr_id r)) n)"
    using v by (simp_all add: operand_for_def)
  note g = goes_onD [OF g]
  note n = line_code [OF g(1) 4 stays_inside [OF made_value_stays] new_value_visits]
  note st = store_code [OF n(1) 5]
  note sv = set_value_code [OF st(1) 6]
  have c3: "sema (world s3) = c" using changesD(1) [OF g(2)] changesD(1) [OF 1(1)] c by simp
  have ch1: "changes {p} ?K s s3" by (rule changes_trans [OF 1(1) g(2)]) (auto simp: l)
  have ch2: "changes {q} ?K s3 s5" by (rule changes_trans [OF n(2) st(2), where K = "{}"]) auto
  have ch3: "changes {p} ?K s s5" by (rule changes_trans [OF ch1 ch2]) (use g(3) in \<open>auto simp: 1(2)\<close>)
  have ch: "changes {p} ?K s t" by (rule changes_trans [OF ch3 sv(2)]) auto
  have "runs_to p s q t (runs_expr c (BinaryExpr k OP l r))"
  proof (rule runs_toI)
    fix m S vs vs' regs mem
    assume m: "continues (gmodule t) m" and S: "map_le (slots_of t) S" "good_slots (sema (world t)) S"
      and h: "holds_variables S mem vs" and R: "runs_expr c (BinaryExpr k OP l r) vs vs'"
    note l5 = later [OF sv(2) m S]
    note l4 = later [OF st(2) l5]
    note l3 = later [OF n(2) l4]
    note l1 = later [OF g(2) l3]
    have Sa: "S a = Some ?slot" using slot changesD(2) [OF 1(1)] l1(2) unfolding map_le_def by (metis domI)
    have gS: "good_slots c S" using S(2) changesD(1) [OF ch] c by simp
    obtain nn where nn: "expr_value c vs r = Some nn" using assigned_value [OF R [unfolded l] ok [unfolded l] a ka Sa h] by blast
    from evaluated_value [OF ev l3 h nn] obtain regs1 mem1 where
      r1: "reaches m (p, length (body (gmodule s1) p), regs, mem) (q, length (body (gmodule s3) q), regs1, mem1)" "holds_variables S mem1 vs"
        "has_value s3 regs1 rhs (node_width c (expr_id r)) nn" .
    obtain z where vs': "vs' = vs(a \<mapsto> z)" and
      comp: "computes q mem1 {} (new_value OP j ?slot rhs) s3 regs1 (\<lambda>v t regs'. has_value t regs' v (width ka) z)"
      using assigned_value [OF R [unfolded l] ok [unfolded l] a ka Sa r1(2)] open_ready [OF g(1)] c3 r1(3) nn by (metis option.inject)
    from n(3) [OF comp l4(1)] obtain regs2 where
      r2: "reaches m (q, length (body (gmodule s3) q), regs1, mem1) (q, length (body (gmodule s4) q), regs2, mem1)"
        "has_value s4 regs2 res (width ka) z" by blast
    obtain mem' where "reaches m (q, length (body (gmodule s4) q), regs2, mem1) (q, length (body (gmodule s5) q), regs2, mem')"
      and h': "holds_variables S mem' vs'" unfolding vs' using store_variable_code [OF n(1) 5 l5(1) r2(2) gS Sa r1(2)] .
    from reaches_trans [OF r1(1) reaches_trans [OF r2(1) this(1)]] h'
    show "\<exists>regs' mem'. reaches m (p, length (body (gmodule s) p), regs, mem) (q, length (body (gmodule t) q), regs', mem')
        \<and> holds_variables S mem' vs'" unfolding 1(2) sv(3) by blast
  qed
  moreover have "q = p \<or> length (block_store (gmodule s)) \<le> q" using g(3) by (simp add: 1(2))
  ultimately show ?thesis using sv(1) ch by (auto simp: code_for_def)
qed

section \<open>Statements\<close>

text \<open>What is shown of every expression and statement that is covered.\<close>

definition expr_works :: "Semantic_Checker \<Rightarrow> expr \<Rightarrow> bool" where
  "expr_works c e \<longleftrightarrow>
     (\<forall>D p s u t. effect_expr c e D \<longrightarrow> starts c D (ids_expr e) p s \<longrightarrow> gen_expr e s = Inr (u, t) \<longrightarrow>
        (\<exists>q. code_for (set (ids_expr e)) p s q t (runs_expr c e)))"

definition stmt_works :: "Semantic_Checker \<Rightarrow> stmt \<Rightarrow> bool" where
  "stmt_works c st \<longleftrightarrow>
     (\<forall>D D' p s u t. effect_stmt c st D = Some D' \<longrightarrow> starts c D (ids_stmt st) p s \<longrightarrow> gen_stmt st s = Inr (u, t) \<longrightarrow>
        (\<exists>q. code_for (set (ids_stmt st)) p s q t (runs_stmt c st)) \<and> set D' \<subseteq> dom (slots_of t))"

subsection \<open>Expressions as statements\<close>

lemma expr_stmt_works:
  assumes "expr_works c e"
  shows "stmt_works c (ExprStmt k e semi)"
  unfolding stmt_works_def
proof (intro allI impI)
  fix D D' p s u t
  let ?K = "set (ids_stmt (ExprStmt k e semi))"
  assume ok: "effect_stmt c (ExprStmt k e semi) D = Some D'" and s: "starts c D (ids_stmt (ExprStmt k e semi)) p s"
    and run: "gen_stmt (ExprStmt k e semi) s = Inr (u, t)"
  have o: "open_at p s" "sema (world s) = c" "set D \<subseteq> dom (slots_of s)" using s by (simp_all add: starts_def)
  have se: "starts c D (ids_expr e) p s"
    by (rule starts_later [OF s o(1) changes_refl [OF openD(1) [OF o(1)], of _ "{}"]]) (use s in \<open>auto simp: starts_def\<close>)
  have D: "D' = D" using ok by (simp split: if_splits)
  from run obtain t1 where e: "gen_expr e s = Inr ((), t1)"
    and rest: "when_act (\<not> semi) (bind_act (get_sema (\<lambda>c. expr_type c (expr_id e))) (\<lambda>t. case t of None \<Rightarrow> ret_act ()
      | Some t \<Rightarrow> when_act (kind t \<noteq> RTK_UNIT \<and> kind t \<noteq> RTK_NEVER) (pass_result k (expr_id e) (Some t)))) t1 = Inr (u, t)"
    by (auto simp: gen_expr_stmt_def res_simps)
  have ex: "\<exists>q. code_for ?K p s q t (runs_stmt c (ExprStmt k e semi))"
  proof (cases "effect_expr c e D")
    case True
    from assms True se e obtain q where code: "code_for (set (ids_expr e)) p s q t1 (runs_expr c e)"
      unfolding expr_works_def by blast
    have "sema (world t1) = c" using code o(2) changesD(1) by (auto simp: code_for_def)
    then have "t = t1" using rest ok
      by (auto simp: when_act_def res_simps get_sema_def split: if_splits option.splits)
    moreover have "runs_stmt c (ExprStmt k e semi) vs vs' \<Longrightarrow> runs_expr c e vs vs'" for vs vs'
      using effect_no_value [OF True] by (auto elim: runs_expr_stmtE)
    ultimately show ?thesis using code_for_mono [OF code, of ?K] by auto
  next
    case False
    then have sc: "semi" "lazy_expr c (declared c D) e" using ok by (auto split: if_splits)
    then have "t = t1" using rest by (auto simp: when_act_def res_simps)
    obtain q where code: "code_for (set (ids_expr e)) p s q t1 (\<lambda>vs vs'. vs' = vs \<and> expr_value c vs e \<noteq> None)"
      using unused_code [OF sc(2) se e] .
    have "runs_stmt c (ExprStmt k e semi) vs vs' \<Longrightarrow> vs' = vs \<and> expr_value c vs e \<noteq> None" for vs vs'
      using lazy_no_effect [OF sc(2)] by (auto elim: runs_expr_stmtE)
    then show ?thesis using code_for_mono [OF code, of ?K] \<open>t = t1\<close> by auto
  qed
  then have "map_le (slots_of s) (slots_of t)" using changesD(2) by (auto simp: code_for_def)
  from map_le_implies_dom_le [OF this] have "set D' \<subseteq> dom (slots_of t)" using D o(3) by blast
  then show "(\<exists>q. code_for ?K p s q t (runs_stmt c (ExprStmt k e semi))) \<and> set D' \<subseteq> dom (slots_of t)"
    using ex by blast
qed

subsection \<open>Declarations\<close>

text \<open>A declaration without a value: its slot is reserved and the variable has no value.\<close>

lemma declare_code:
  assumes s: "open_at p s" and a: "let_stmt_to_decl_map (sema (world s)) k = Some a" and s1: "open_at p s1" "changes {} {} s s1"
  shows "code_for K p s p s1 (runs_stmt (sema (world s)) (LetStmt k pt ty None))"
proof -
  have b: "body (gmodule s1) p = body (gmodule s) p" using changesD(6) [OF s1(2) openD(4) [OF s]] by simp
  have "runs_to p s p s1 (runs_stmt (sema (world s)) (LetStmt k pt ty None))"
  proof (rule runs_toI)
    fix m S vs vs' regs mem assume h: "holds_variables S mem vs" and R: "runs_stmt (sema (world s)) (LetStmt k pt ty None) vs vs'"
    have "vs' = vs(a := None)" using R a by (auto elim: runs_letE)
    then have "holds_variables S mem vs'" using undefined_holds [OF h] by simp
    then show "\<exists>regs' mem'. reaches m (p, length (body (gmodule s) p), regs, mem) (p, length (body (gmodule s1) p), regs', mem')
        \<and> holds_variables S mem' vs'" unfolding b using reaches_here by blast
  qed
  moreover have "changes {p} K s s1" by (rule changes_mono [OF s1(2)]) auto
  ultimately show ?thesis using s1(1) by (simp add: code_for_def)
qed

text \<open>The value of a variable.\<close>

lemma init_run:
  assumes t1: "open_at p t1" and c: "var_kind (sema (world t1)) a = Some kd"
    and run: "bind_act current_fn (\<lambda>c. if current_block c = None then ret_act ()
          else bind_act (sema_res (\<lambda>c. deref (let_decls c) a)) (\<lambda>ld. store_expression_result i slot (Some (let_type ld)))) t1 = Inr (u, t)"
  obtains v t2 where "get_rvalue i t1 = Inr (v, t2)" "open_at p t2 \<longrightarrow> build (create_store v slot) t2 = Inr (u, t)"
proof -
  obtain ctx where ctx: "fn_ctx t1 = Some ctx" "current_block ctx = Some p"
    using t1 by (auto simp: open_at_def at_point_def steady_def)
  obtain ld where ld: "let_decls (sema (world t1)) a = Some ld" "is_ref (let_type ld) = NO_REF"
    "kind (let_type ld) \<in> insert RTK_BOOL int_kinds"
    using c by (auto simp: var_kind_def split: option.splits if_splits)
  have "\<not> is_aggregate_type (Some (let_type ld))" using ld by (auto simp: is_aggregate_type_def int_kinds_def)
  from run ctx ld(1) this obtain v t2 where "get_rvalue i t1 = Inr (v, t2)"
    "then_act ensure_current_insertion (build (create_store v slot)) t2 = Inr (u, t)"
    by (auto simp: store_expression_result_def current_fn_def res_simps sema_res_def sem_act_def in_back_def deref_def get_sema_def)
  moreover from this have "open_at p t2 \<longrightarrow> build (create_store v slot) t2 = Inr (u, t)"
    using ready_reads(1) [OF open_ready] by (auto simp: then_act_def bind_act_def)
  ultimately show thesis using that by blast
qed

lemma init_code:
  assumes s: "open_at p s" and c: "sema (world s) = c" and a: "let_stmt_to_decl_map c k = Some a"
    and s1: "changes {} {} s s1" "slots_of s1 a = Some (RegisterValue x (PointerType (IntegerType w)))"
    and i: "operand_for c i p s1 q t2 v" "node_width c (expr_id i) = w"
    and run: "build (create_store v (RegisterValue x (PointerType (IntegerType w)))) t2 = Inr (u, t)"
  shows "code_for (set (ids_expr i)) p s q t (runs_stmt c (LetStmt k pt ty (Some i)))"
    "map_le (slots_of s1) (slots_of t)"
proof -
  have g: "goes_on (set (ids_expr i)) p s1 q t2" and ev: "evaluates c i p s1 q t2 (\<lambda>mem regs n. has_value t2 regs v w n)"
    using i by (simp_all add: operand_for_def)
  note g = goes_onD [OF g]
  have b1: "body (gmodule s1) p = body (gmodule s) p" using changesD(6) [OF s1(1) openD(4) [OF s]] by simp
  have q: "q = p \<or> length (block_store (gmodule s)) \<le> q" using g(3) changesD(4) [OF s1(1)] by auto
  note st = store_code [OF g(1) run]
  have ch1: "changes {p} (set (ids_expr i)) s t2" by (rule changes_trans [OF s1(1) g(2)]) auto
  have ch: "changes {p} (set (ids_expr i)) s t" by (rule changes_trans [OF ch1 st(2)]) (use q in auto)
  have "runs_to p s q t (runs_stmt c (LetStmt k pt ty (Some i)))"
  proof (rule runs_toI)
    fix m S vs vs' regs mem
    assume m: "continues (gmodule t) m" and S: "map_le (slots_of t) S" "good_slots (sema (world t)) S"
      and h: "holds_variables S mem vs" and R: "runs_stmt c (LetStmt k pt ty (Some i)) vs vs'"
    obtain n where n: "expr_value c vs i = Some n" "vs' = vs(a \<mapsto> n)" using R a by (auto elim: runs_letE)
    note l3 = later [OF st(2) m S]
    note l1 = later [OF g(2) l3]
    have Sa: "S a = Some (RegisterValue x (PointerType (IntegerType w)))" using s1(2) l1(2) unfolding map_le_def by (metis domI)
    have gS: "good_slots c S" using S(2) changesD(1) [OF ch] c by simp
    from evaluated_value [OF ev l3 h n(1)] obtain regs1 mem1 where
      r1: "reaches m (p, length (body (gmodule s1) p), regs, mem) (q, length (body (gmodule t2) q), regs1, mem1)" "holds_variables S mem1 vs"
        "has_value t2 regs1 v w n" .
    obtain mem' where "reaches m (q, length (body (gmodule t2) q), regs1, mem1) (q, length (body (gmodule t) q), regs1, mem')"
      and h': "holds_variables S mem' vs'" unfolding n(2) using store_variable_code [OF g(1) run m r1(3) gS Sa r1(2)] .
    from reaches_trans [OF r1(1) this(1)] h'
    show "\<exists>regs' mem'. reaches m (p, length (body (gmodule s) p), regs, mem) (q, length (body (gmodule t) q), regs', mem')
        \<and> holds_variables S mem' vs'" unfolding b1 by blast
  qed
  then show "code_for (set (ids_expr i)) p s q t (runs_stmt c (LetStmt k pt ty (Some i)))" using st(1) ch q by (simp add: code_for_def)
  show "map_le (slots_of s1) (slots_of t)" by (rule map_le_trans [OF changesD(2) [OF g(2)] changesD(2) [OF st(2)]])
qed

lemma let_works: "stmt_works c (LetStmt k pt ty e)"
  unfolding stmt_works_def
proof (intro allI impI)
  fix D D' p s u t
  let ?K = "set (ids_stmt (LetStmt k pt ty e))"
  assume ok: "effect_stmt c (LetStmt k pt ty e) D = Some D'" and s: "starts c D (ids_stmt (LetStmt k pt ty e)) p s"
    and run: "gen_stmt (LetStmt k pt ty e) s = Inr (u, t)"
  have o: "open_at p s" "sema (world s) = c" "set D \<subseteq> dom (slots_of s)" using s by (simp_all add: starts_def)
  obtain a kd where a: "let_stmt_to_decl_map c k = Some a" "var_kind c a = Some kd" and D: "D' = a # D"
    using ok by (auto split: option.splits if_splits)
  obtain ctx where ctx: "fn_ctx s = Some ctx" "current_block ctx = Some p" using in_open [OF o(1)] .
  from run a ctx o(2) obtain slot s1 where 1: "ensure_slot_for_decl a s = Inr (slot, s1)"
    and rest: "(case (map_option expr_id e, map_option gen_expr e) of
        (Some e, Some visit) \<Rightarrow> then_act visit (bind_act current_fn (\<lambda>c. if current_block c = None then ret_act ()
          else bind_act (sema_res (\<lambda>c. deref (let_decls c) a)) (\<lambda>ld. store_expression_result e slot (Some (let_type ld)))))
      | _ \<Rightarrow> ret_act ()) s1 = Inr (u, t)"
    by (auto simp: gen_let_def current_fn_def res_simps get_sema_def)
  note sl = slot_code [OF o(1) a(2) [folded o(2)] 1]
  have "set D' \<subseteq> dom (slots_of s1)" using o(3) D sl(3) map_le_implies_dom_le [OF changesD(2) [OF sl(2)]] by auto
  show "(\<exists>q. code_for ?K p s q t (runs_stmt c (LetStmt k pt ty e))) \<and> set D' \<subseteq> dom (slots_of t)"
  proof (cases e)
    case None
    then have "t = s1" using rest by (simp add: res_simps)
    then show ?thesis using declare_code [OF o(1) a(1) [folded o(2)] sl(1, 2), of ?K] None o(2) \<open>set D' \<subseteq> dom (slots_of s1)\<close> by auto
  next
    case (Some i)
    have i: "lazy_expr c (declared c D) i" "node_width c (expr_id i) = width kd" using ok a Some by (auto split: if_splits)
    have si: "starts c D (ids_expr i) p s1"
      by (rule starts_later [OF s sl(1, 2)]) (use s Some in \<open>auto simp: starts_def\<close>)
    obtain x where slot: "slot = RegisterValue x (PointerType (IntegerType (width kd)))" "slots_of s1 a = Some slot" using sl(3) by blast
    from rest Some obtain t1 where 2: "gen_expr i s1 = Inr ((), t1)"
      and rest2: "bind_act current_fn (\<lambda>c. if current_block c = None then ret_act ()
          else bind_act (sema_res (\<lambda>c. deref (let_decls c) a)) (\<lambda>ld. store_expression_result (expr_id i) slot (Some (let_type ld)))) t1 = Inr (u, t)"
      by (auto simp: res_simps)
    from lazy_visit [OF i(1) refl si 2] obtain q where vi: "visited_for c i p s1 q t1" by blast
    then have t1: "open_at q t1" "changes {p} (set (ids_expr i)) s1 t1" by (simp_all add: visited_for_def goes_on_def)
    have "var_kind (sema (world t1)) a = Some kd" using a(2) changesD(1) [OF t1(2)] si by (simp add: starts_def)
    from init_run [OF t1(1) this rest2] obtain v t2 where 3: "get_rvalue (expr_id i) t1 = Inr (v, t2)"
      "open_at q t2 \<longrightarrow> build (create_store v slot) t2 = Inr (u, t)" .
    note vo = visited_operand [OF vi 3(1)]
    then have st: "build (create_store v slot) t2 = Inr (u, t)" using 3(2) by (simp add: operand_for_def goes_on_def)
    note code = init_code [OF o(1, 2) a(1) sl(2) slot(2) [unfolded slot(1)] vo i(2) st [unfolded slot(1)]]
    have "code_for ?K p s q t (runs_stmt c (LetStmt k pt ty e))" unfolding Some by (rule code_for_mono [OF code(1)]) auto
    then show ?thesis using \<open>set D' \<subseteq> dom (slots_of s1)\<close> map_le_implies_dom_le [OF code(2)] by blast
  qed
qed

end
