(* ===== verification/BranchCorrect.thy ===== *)
theory BranchCorrect
  imports StmtCorrect
begin

section \<open>Blocks of statements\<close>

lemma effect_has_next: "effect_stmt c st D = Some D' \<Longrightarrow> has_state (outcome_of c (stmt_id st)) NEXT"
  by (cases st) (auto split: option.splits if_splits)

lemma code_opens: "code_for K p s q t R \<Longrightarrow> open_at q t \<and> changes {p} K s t"
  by (simp add: code_for_def)

lemma code_starts:
  assumes "starts c D js p s" "code_for K p s q t R" "K \<inter> set ks = {}" "distinct ks" "set ks \<subseteq> set js"
  shows "starts c D ks q t"
  using starts_later [OF assms(1) _ _ assms(3-5)] code_opens [OF assms(2)] by blast

lemma stmts_work:
  assumes "\<And>st. st \<in> set ss \<Longrightarrow> stmt_works c st"
  shows "chain (map (effect_stmt c) ss) D = Some D' \<Longrightarrow> starts c D (concat (map ids_stmt ss)) p s \<Longrightarrow>
    gen_stmts (zip (map stmt_id ss) (map gen_stmt ss)) s = Inr (u, t) \<Longrightarrow>
    (\<exists>q. code_for (set (concat (map ids_stmt ss))) p s q t (runs_stmts c ss)) \<and> set D' \<subseteq> dom (slots_of t)"
  using assms
proof (induction ss arbitrary: D p s)
  case Nil
  then have o: "open_at p s" and t: "t = s" by (simp_all add: starts_def res_simps)
  have "code_for {} p s p s (runs_stmts c [])"
    by (rule code_for_mono [OF code_for_nothing [OF o, of "{}"]]) (auto elim: runs_nilE)
  then show ?case using Nil t by (auto simp: starts_def)
next
  case (Cons st ss)
  let ?I = "set (concat (map ids_stmt ss))"
  obtain D1 where D1: "effect_stmt c st D = Some D1" and D': "chain (map (effect_stmt c) ss) D1 = Some D'"
    using Cons.prems(1) by (auto split: option.splits)
  have o: "open_at p s" "sema (world s) = c" using Cons.prems(2) by (simp_all add: starts_def)
  obtain ctx where ctx: "fn_ctx s = Some ctx" "current_block ctx = Some p" "\<not> block_sealed ctx" using in_open [OF o(1)] .
  from Cons.prems(3) ctx obtain s1 where 1: "gen_stmt st s = Inr ((), s1)"
    and rest: "bind_act (current_block_has_next (stmt_id st)) (\<lambda>more. if more then gen_stmts (zip (map stmt_id ss) (map gen_stmt ss))
      else set_ctx (\<lambda>c. c\<lparr>current_block := None\<rparr>)) s1 = Inr (u, t)"
    by (auto simp: current_fn_def res_simps)
  have st: "starts c D (ids_stmt st) p s"
    by (rule starts_later [OF Cons.prems(2) o(1) changes_refl [OF openD(1) [OF o(1)], of _ "{}"]]) (use Cons.prems(2) in \<open>auto simp: starts_def\<close>)
  have "stmt_works c st" using Cons.prems(4) by simp
  then obtain q where code1: "code_for (set (ids_stmt st)) p s q s1 (runs_stmt c st)" and d1: "set D1 \<subseteq> dom (slots_of s1)"
    using D1 st 1 unfolding stmt_works_def by blast
  have "starts c D (concat (map ids_stmt ss)) q s1"
    by (rule code_starts [OF Cons.prems(2) code1]) (use Cons.prems(2) in \<open>auto simp: starts_def\<close>)
  then have st1: "starts c D1 (concat (map ids_stmt ss)) q s1" using d1 by (simp add: starts_def)
  have c1: "sema (world s1) = c" using st1 by (simp add: starts_def)
  have "gen_stmts (zip (map stmt_id ss) (map gen_stmt ss)) s1 = Inr (u, t)"
    using rest c1 effect_has_next [OF D1] by (auto simp: current_block_has_next_def get_sema_def res_simps)
  with Cons.IH [OF D' st1] Cons.prems(4) obtain r where
    code2: "code_for ?I q s1 r t (runs_stmts c ss)" and d: "set D' \<subseteq> dom (slots_of t)" by auto
  have "code_for (set (concat (map ids_stmt (st # ss)))) p s r t (runs_stmts c (st # ss))"
    by (rule code_for_mono [OF code_for_trans [OF code1 code2]]) (auto elim: runs_consE)
  then show ?case using d by blast
qed

lemma block_works:
  assumes "\<And>st. st \<in> set ss \<Longrightarrow> stmt_works c st" "\<And>st. tail_stmt = Some st \<Longrightarrow> stmt_works c st"
  shows "expr_works c (BlockExpr k ss tail_stmt m)"
  unfolding expr_works_def
proof (intro allI impI)
  fix D p s u t
  let ?K = "set (ids_expr (BlockExpr k ss tail_stmt m))"
  let ?I = "concat (map ids_stmt ss)"
  assume ok: "effect_expr c (BlockExpr k ss tail_stmt m) D" and s: "starts c D (ids_expr (BlockExpr k ss tail_stmt m)) p s"
    and run: "gen_expr (BlockExpr k ss tail_stmt m) s = Inr (u, t)"
  have o: "open_at p s" "sema (world s) = c" using s by (simp_all add: starts_def)
  obtain ctx where ctx: "fn_ctx s = Some ctx" using in_open [OF o(1)] .
  obtain D' where D': "chain (map (effect_stmt c) ss) D = Some D'" using ok by (auto split: option.splits)
  from run ctx obtain s1 where 1: "gen_stmts (zip (map stmt_id ss) (map gen_stmt ss)) s = Inr ((), s1)"
    and rest: "(case (case map_option gen_stmt tail_stmt of None \<Rightarrow> None | Some visit \<Rightarrow> Some (stmt_id (the tail_stmt), visit)) of
      None \<Rightarrow> ret_act () | Some (t, visit) \<Rightarrow> gen_tail k t visit) s1 = Inr (u, t)"
    by (auto simp: gen_block_def when_in_function_def when_act_def res_simps)
  have ss: "starts c D ?I p s"
    by (rule starts_later [OF s o(1) changes_refl [OF openD(1) [OF o(1)], of _ "{}"]]) (use s in \<open>auto simp: starts_def\<close>)
  from stmts_work [OF assms(1) D' ss 1] obtain q where
    code1: "code_for (set ?I) p s q s1 (runs_stmts c ss)" and d1: "set D' \<subseteq> dom (slots_of s1)" by blast
  show "\<exists>q. code_for ?K p s q t (runs_expr c (BlockExpr k ss tail_stmt m))"
  proof (cases tail_stmt)
    case None
    then have "t = s1" using rest by (simp add: res_simps)
    moreover have "code_for ?K p s q s1 (runs_expr c (BlockExpr k ss tail_stmt m))"
      by (rule code_for_mono [OF code1]) (auto simp: None elim: runs_blockE)
    ultimately show ?thesis by blast
  next
    case (Some st)
    then obtain D2 where D2: "effect_stmt c st D' = Some D2" and unit: "unit_node c (stmt_id st)"
      using ok D' by auto
    from rest Some obtain s2 where 2: "gen_stmt st s1 = Inr ((), s2)"
      and rest2: "bind_act (current_block_has_next (stmt_id st)) (\<lambda>more. when_act more
          (bind_act (sema_res (\<lambda>c. the_ptr (expr_type c (stmt_id st)))) (\<lambda>t.
             when_act (kind t \<noteq> RTK_UNIT) (pass_result k (stmt_id st) (Some t))))) s2 = Inr (u, t)"
      by (auto simp: gen_tail_def res_simps)
    have "starts c D (ids_stmt st) q s1"
      by (rule code_starts [OF s code1]) (use s Some in \<open>auto simp: starts_def\<close>)
    then have s1: "starts c D' (ids_stmt st) q s1" using d1 by (simp add: starts_def)
    from assms(2) [OF Some] D2 s1 2 obtain r where code2: "code_for (set (ids_stmt st)) q s1 r s2 (runs_stmt c st)"
      unfolding stmt_works_def by blast
    have "sema (world s2) = c" using code_opens [OF code2] changesD(1) s1 by (auto simp: starts_def)
    then have "t = s2" using rest2 unit
      by (auto simp: unit_node_def current_block_has_next_def get_sema_def sema_res_def sem_act_def in_back_def the_ptr_def when_act_def
          res_simps split: option.splits)
    moreover have "code_for ?K p s r s2 (runs_expr c (BlockExpr k ss tail_stmt m))"
      by (rule code_for_mono [OF code_for_trans [OF code1 code2]]) (auto simp: Some elim: runs_blockE)
    ultimately show ?thesis by blast
  qed
qed

section \<open>Branches\<close>

text \<open>A condition is one bit.\<close>

lemma condition_bit: "take_bit 1 (0 :: int) = 0" "take_bit 1 (1 :: int) = 1"
  by simp_all

lemma finish_run:
  assumes "open_at p s" "finish_branch k b None q s = Inr (u, t)"
  shows "build (create_br q) s = Inr (u, t)"
  using assms by (auto simp: finish_branch_def current_fn_def res_simps when_act_def elim: in_open)

lemma no_slot_run: "unit_node (sema (world s)) k \<Longrightarrow> if_result_slot k s = Inr (x, t) \<Longrightarrow> x = None \<and> t = s"
  by (auto simp: unit_node_def if_result_slot_def current_block_has_next_def get_sema_def sema_res_def sem_act_def in_back_def
      the_ptr_def res_simps split: option.splits if_splits)

text \<open>The code between the beginnings of two blocks.\<close>

definition jumps :: "irgen \<Rightarrow> block_ptr \<Rightarrow> block_ptr \<Rightarrow> (variables \<Rightarrow> variables \<Rightarrow> bool) \<Rightarrow> bool" where
  "jumps t q r R \<longleftrightarrow>
     (\<forall>m S vs vs' regs mem. continues (gmodule t) m \<longrightarrow> map_le (slots_of t) S \<longrightarrow> good_slots (sema (world t)) S \<longrightarrow>
        holds_variables S mem vs \<longrightarrow> R vs vs' \<longrightarrow>
        (\<exists>regs' mem'. reaches m (q, 0, regs, mem) (r, 0, regs', mem') \<and> holds_variables S mem' vs'))"

lemma jumpsD:
  assumes "jumps t q r R" "continues (gmodule t) m" "map_le (slots_of t) S" "good_slots (sema (world t)) S"
    "holds_variables S mem vs" "R vs vs'"
  obtains regs' mem' where "reaches m (q, 0, regs, mem) (r, 0, regs', mem')" "holds_variables S mem' vs'"
  using assms unfolding jumps_def by blast

lemma jumps_later: "changes Q K t u \<Longrightarrow> jumps t q r R \<Longrightarrow> jumps u q r R"
  unfolding jumps_def using later [of Q K t u] by blast

text \<open>The way from a place to a block, without conditions and with one.\<close>

definition goes :: "irgen \<Rightarrow> block_ptr \<Rightarrow> nat \<Rightarrow> block_ptr \<Rightarrow> bool" where
  "goes t p i q \<longleftrightarrow> (\<forall>m regs mem. continues (gmodule t) m \<longrightarrow> reaches m (p, i, regs, mem) (q, 0, regs, mem))"

definition tests :: "irgen \<Rightarrow> Semantic_Checker \<Rightarrow> expr \<Rightarrow> block_ptr \<Rightarrow> nat \<Rightarrow> block_ptr \<Rightarrow> block_ptr \<Rightarrow> bool" where
  "tests t c g p i q r \<longleftrightarrow>
     (\<forall>m S vs z regs mem. continues (gmodule t) m \<longrightarrow> map_le (slots_of t) S \<longrightarrow> good_slots (sema (world t)) S \<longrightarrow>
        holds_variables S mem vs \<longrightarrow> expr_value c vs g = Some z \<longrightarrow> z = 0 \<or> z = 1 \<longrightarrow>
        (\<exists>regs' mem'. reaches m (p, i, regs, mem) (if z = 0 then r else q, 0, regs', mem') \<and> holds_variables S mem' vs))"

lemma goes_later: "changes Q K t u \<Longrightarrow> goes t p i q \<Longrightarrow> goes u p i q"
  unfolding goes_def using continues_trans [OF changesD(3) [of Q K t u]] by blast

lemma testsD:
  assumes "tests t c g p i q r" "continues (gmodule t) m" "map_le (slots_of t) S" "good_slots (sema (world t)) S"
    "holds_variables S mem vs" "expr_value c vs g = Some z" "z = 0 \<or> z = 1"
  obtains regs' mem' where "reaches m (p, i, regs, mem) (if z = 0 then r else q, 0, regs', mem')" "holds_variables S mem' vs"
  using assms unfolding tests_def by blast

lemma tests_later:
  assumes ch: "changes Q K t u" and g: "tests t c g p i q r"
  shows "tests u c g p i q r"
  unfolding tests_def
proof (intro allI impI)
  fix m S vs z regs mem
  assume "continues (gmodule u) m" "map_le (slots_of u) S" "good_slots (sema (world u)) S"
    and h: "holds_variables S mem vs" "expr_value c vs g = Some z" "z = 0 \<or> z = 1"
  from testsD [OF g later [OF ch this(1-3)] h, of regs]
  show "\<exists>regs' mem'. reaches m (p, i, regs, mem) (if z = 0 then r else q, 0, regs', mem') \<and> holds_variables S mem' vs" by blast
qed

text \<open>A branch: an expression in its own block, and the jump behind it.\<close>

lemma branch_code:
  assumes e: "expr_works c e" "effect_expr c e D" and s: "starts c D (ids_expr e) q s" "body (gmodule s) q = []" and r: "r \<in> own s"
    and run: "gen_expr e s = Inr ((), s1)" "\<forall>p. open_at p s1 \<longrightarrow> build (create_br r) s1 = Inr ((), t)"
  shows "steady t" "changes {q} (set (ids_expr e)) s t" "jumps t q r (runs_expr c e)"
proof -
  obtain q1 where code: "code_for (set (ids_expr e)) q s q1 s1 (runs_expr c e)"
    using e s(1) run(1) unfolding expr_works_def by blast
  then have a: "open_at q1 s1" "changes {q} (set (ids_expr e)) s s1" "q1 = q \<or> length (block_store (gmodule s)) \<le> q1"
    "runs_to q s q1 s1 (runs_expr c e)" by (simp_all add: code_for_def)
  have "r \<in> own s1" using r changesD(5) [OF a(2)] by blast
  note b = br_code [OF open_point [OF a(1)] this run(2) [rule_format, OF a(1)]]
  show "steady t" by (rule b(1))
  show "changes {q} (set (ids_expr e)) s t" by (rule changes_trans [OF a(2) b(2)]) (use a(3) in auto)
  show "jumps t q r (runs_expr c e)" unfolding jumps_def
  proof (intro allI impI)
    fix m S vs vs' regs mem
    assume m: "continues (gmodule t) m" and S: "map_le (slots_of t) S" "good_slots (sema (world t)) S"
      and h: "holds_variables S mem vs" and R: "runs_expr c e vs vs'"
    from runs_toD [OF a(4) later [OF b(2) m S] h R, of regs] obtain regs1 mem1 where
      1: "reaches m (q, 0, regs, mem) (q1, length (body (gmodule s1) q1), regs1, mem1)" "holds_variables S mem1 vs'"
      by (auto simp: s(2))
    from reaches_trans [OF 1(1) b(4) [OF m]] 1(2)
    show "\<exists>regs' mem'. reaches m (q, 0, regs, mem) (r, 0, regs', mem') \<and> holds_variables S mem' vs'" by blast
  qed
qed

text \<open>A condition and the jump that depends on it.\<close>

lemma condition_code:
  assumes s: "starts c D (ids_expr g) p s" and g: "condition_ok c D g"
    and run: "gen_expr g s = Inr ((), s1)" "get_rvalue (expr_id g) s1 = Inr (v, s2)"
      "\<forall>p. open_at p s2 \<longrightarrow> build (create_cond_br v q r) s2 = Inr ((), t)"
    and q: "q \<in> own s" "r \<in> own s"
  shows "steady t" "changes {p} (set (ids_expr g)) s t" "tests t c g p (length (body (gmodule s) p)) q r"
proof -
  have lz: "lazy_expr c (declared c D) g" and w: "node_width c (expr_id g) = 1" using g by (simp_all add: condition_ok_def)
  obtain p' where "operand_for c g p s p' s2 v" using operand_code [OF lz s run(1, 2)] .
  then have g: "goes_on (set (ids_expr g)) p s p' s2" and ev: "evaluates c g p s p' s2 (\<lambda>mem regs n. has_value s2 regs v 1 n)"
    by (simp_all add: operand_for_def w)
  note g = goes_onD [OF g]
  have "q \<in> own s2" "r \<in> own s2" using q changesD(5) [OF g(2)] by auto
  note b = cond_br_code [OF g(1) this run(3) [rule_format, OF g(1)]]
  show "steady t" by (rule b(1))
  show ch: "changes {p} (set (ids_expr g)) s t" by (rule changes_trans [OF g(2) b(2)]) (use g(3) in auto)
  show "tests t c g p (length (body (gmodule s) p)) q r" unfolding tests_def
  proof (intro allI impI)
    fix m S vs z regs mem
    assume m: "continues (gmodule t) m" and S: "map_le (slots_of t) S" "good_slots (sema (world t)) S"
      and h: "holds_variables S mem vs" and z: "expr_value c vs g = Some z" "z = 0 \<or> z = 1"
    from evaluated_value [OF ev later [OF b(2) m S] h z(1), of regs] obtain regs1 mem1 where
      1: "reaches m (p, length (body (gmodule s) p), regs, mem) (p', length (body (gmodule s2) p'), regs1, mem1)" "holds_variables S mem1 vs"
        "has_value s2 regs1 v 1 z" .
    have "operand_value regs1 v = Some z" using 1(3) z(2) by (auto simp: has_value_def)
    from reaches_trans [OF 1(1) b(4) [OF m this]] 1(2)
    show "\<exists>regs' mem'. reaches m (p, length (body (gmodule s) p), regs, mem) (if z = 0 then r else q, 0, regs', mem')
        \<and> holds_variables S mem' vs" by blast
  qed
qed

lemma branch_entered:
  assumes e: "expr_works c e" "effect_expr c e D" and s: "starts c D js p s0" "changes Q K s0 s" "steady s" "waiting q s" and r: "r \<in> own s"
    and ids: "K \<inter> set (ids_expr e) = {}" "distinct (ids_expr e)" "set (ids_expr e) \<subseteq> set js"
    and run: "enter_block q s = Inr ((), s1)" "gen_expr e s1 = Inr ((), s2)" "\<forall>p. open_at p s2 \<longrightarrow> build (create_br r) s2 = Inr ((), t)"
  shows "steady t" "changes {q} (set (ids_expr e)) s t" "jumps t q r (runs_expr c e)"
proof -
  note en = enter_starts [OF s(1-4) run(1) ids]
  have "r \<in> own s1" using r changesD(5) [OF en(4)] by blast
  note b = branch_code [OF e en(1, 3) this run(2, 3)]
  show "steady t" "jumps t q r (runs_expr c e)" by (rule b)+
  show "changes {q} (set (ids_expr e)) s t" by (rule changes_trans [OF en(4) b(2)]) auto
qed

text \<open>Three new blocks.\<close>

lemma new_blocks_code:
  assumes s: "open_at p s" and run: "new_block l1 s = Inr (b1, s1)" "new_block l2 s1 = Inr (b2, s2)" "new_block l3 s2 = Inr (b3, s3)"
  shows "open_at p s3" "changes {} {} s s3" "waiting b1 s3" "waiting b2 s3" "waiting b3 s3" "distinct [p, b1, b2, b3]"
    "list_all ((\<le>) (length (block_store (gmodule s)))) [b1, b2, b3]" "body (gmodule s3) p = body (gmodule s) p"
proof -
  note n1 = new_block_code [OF s run(1)]
  note n2 = new_block_code [OF n1(1) run(2)]
  note n3 = new_block_code [OF n2(1) run(3)]
  show "open_at p s3" by (rule n3(1))
  have ch12: "changes {} {} s s2" by (rule changes_trans [OF n1(2) n2(2)]) auto
  show ch: "changes {} {} s s3" by (rule changes_trans [OF ch12 n3(2)]) auto
  show "distinct [p, b1, b2, b3]" "list_all ((\<le>) (length (block_store (gmodule s)))) [b1, b2, b3]"
    using n1(3, 4) n2(3, 4) n3(3, 4) openD(4) [OF s] by simp_all
  have "waiting b1 s1" "waiting b2 s2" using n1(5, 6) n2(5, 6) by (simp_all add: waiting_def)
  then show "waiting b1 s3" "waiting b2 s3" "waiting b3 s3"
    using waiting_later [OF openD(2) [OF n1(1)] n2(2)] waiting_later [OF openD(2) [OF n2(1)] n3(2)] n3(5, 6)
    by (simp_all add: waiting_def)
  show "body (gmodule s3) p = body (gmodule s) p" using changesD(6) [OF ch] openD(4) [OF s] by simp
qed

lemma steady_fn: "steady s \<Longrightarrow> fn_ctx s \<noteq> None"
  by (simp add: steady_def)

text \<open>The side that is not taken when there is no \<open>else\<close>.\<close>

lemma skip_code:
  assumes s: "at_point q s" "body (gmodule s) q = []" and r: "r \<in> own s" and run: "build (create_br r) s = Inr ((), t)"
  shows "steady t" "changes {q} {} s t" "jumps t q r (=)"
proof -
  note b = br_code [OF s(1) r run]
  show "steady t" "changes {q} {} s t" by (rule b)+
  show "jumps t q r (=)" unfolding jumps_def using b(4) s(2) by fastforce
qed

lemma else_code:
  assumes s: "starts c D js p s0" "changes Q K s0 s" and st: "steady s" "waiting q s" "r \<in> own s"
    and ids: "K \<inter> set (opt_list (map_option ids_expr b)) = {}" "distinct (opt_list (map_option ids_expr b))"
      "set (opt_list (map_option ids_expr b)) \<subseteq> set js"
    and b: "\<And>e. b = Some e \<Longrightarrow> expr_works c e \<and> effect_expr c e D"
    and run: "set_point (Some q) s = Inr ((), s1)" "set_ctx (\<lambda>c. c\<lparr>block_sealed := False\<rparr>) s1 = Inr ((), s2)"
      "(case (map_option expr_id b, map_option gen_expr b) of
          (Some i, Some visit) \<Rightarrow>
            then_act (set_ctx (\<lambda>c. c\<lparr>current_block := Some q\<rparr>)) (then_act visit (finish_branch k i None r))
        | _ \<Rightarrow> build (create_br r)) s2 = Inr ((), t)"
  shows "steady t" "changes {q} (set (opt_list (map_option ids_expr b))) s t"
    "jumps t q r (\<lambda>vs vs'. case b of None \<Rightarrow> vs' = vs | Some e \<Rightarrow> runs_expr c e vs vs')"
proof -
  have q: "steady s" "q \<in> own s" "body (gmodule s) q = []" "r \<in> own s" using st by (simp_all add: waiting_def)
  note a1 = set_point_code [OF q(1, 2) run(1)]
  have "ir_function (x\<lparr>block_sealed := False\<rparr>) = ir_function x \<and> local_slots (x\<lparr>block_sealed := False\<rparr>) = local_slots x
      \<and> ctx_blocks (x\<lparr>block_sealed := False\<rparr>) \<subseteq> own s1 \<union> ctx_blocks x" for x
    by (auto simp: ctx_blocks_def)
  note a2 = set_ctx_code [OF a1(1) this run(2)]
  have ch2: "changes {} {} s s2" by (rule changes_trans [OF a1(2) a2(2)]) auto
  have m2: "gmodule s2 = gmodule s" using a1(3) a2(3) by simp
  have own2: "own s \<subseteq> own s2" using changesD(5) [OF ch2] .
  have body2: "body (gmodule s2) q = []" using q(3) by (simp add: m2)
  have "steady t \<and> changes {q} (set (opt_list (map_option ids_expr b))) s t \<and>
      jumps t q r (\<lambda>vs vs'. case b of None \<Rightarrow> vs' = vs | Some e \<Rightarrow> runs_expr c e vs vs')"
  proof (cases b)
    case None
    have "at_point q s2" using a2(1, 5) a1(5) body2 by (simp add: at_point_def)
    from skip_code [OF this body2 _ run(3) [unfolded None, simplified]] own2 q(4)
    have t: "steady t" "changes {q} {} s2 t" "jumps t q r (=)" by auto
    have "changes {q} {} s t" by (rule changes_trans [OF ch2 t(2)]) auto
    moreover have "jumps t q r (\<lambda>vs vs'. vs' = vs)" using t(3) by (simp add: eq_commute [of "_ :: variables"] fun_eq_iff jumps_def)
    ultimately show ?thesis using t(1) by (simp add: None)
  next
    case (Some e)
    from run(3) Some obtain s3 s4 where 3: "set_ctx (\<lambda>c. c\<lparr>current_block := Some q\<rparr>) s2 = Inr ((), s3)"
      and 4: "gen_expr e s3 = Inr ((), s4)" and 5: "finish_branch k (expr_id e) None r s4 = Inr ((), t)"
      by (auto simp: res_simps)
    have "ir_function (x\<lparr>current_block := Some q\<rparr>) = ir_function x \<and> local_slots (x\<lparr>current_block := Some q\<rparr>) = local_slots x
        \<and> ctx_blocks (x\<lparr>current_block := Some q\<rparr>) \<subseteq> own s2 \<union> ctx_blocks x" for x
      using q(2) own2 by (auto simp: ctx_blocks_def)
    note a3 = set_ctx_code [OF a2(1) this 3]
    have ch3: "changes {} {} s s3" by (rule changes_trans [OF ch2 a3(2)]) auto
    have body3: "body (gmodule s3) q = []" using body2 a3(3) by simp
    have "open_at q s3"
      using a3(1, 4, 5) a2(4, 5) a1(5) body3 steady_fn [OF a3(1)] unfolding open_at_def at_point_def by (cases "fn_ctx s1") auto
    moreover have "changes Q K s0 s3" by (rule changes_trans [OF s(2) ch3]) auto
    ultimately have "starts c D (ids_expr e) q s3" using ids Some by (intro starts_later [OF s(1)]) auto
    moreover have "r \<in> own s3" using q(4) own2 changesD(5) [OF a3(2)] by blast
    moreover have "expr_works c e" "effect_expr c e D" using b [OF Some] by simp_all
    ultimately have t: "steady t" "changes {q} (set (ids_expr e)) s3 t" "jumps t q r (runs_expr c e)"
      using branch_code [of c e D q s3 r s4 t] body3 4 finish_run [OF _ 5] by auto
    have "changes {q} (set (ids_expr e)) s t" by (rule changes_trans [OF ch3 t(2)]) auto
    then show ?thesis using t by (simp add: Some)
  qed
  then show "steady t" "changes {q} (set (opt_list (map_option ids_expr b))) s t"
    "jumps t q r (\<lambda>vs vs'. case b of None \<Rightarrow> vs' = vs | Some e \<Rightarrow> runs_expr c e vs vs')" by simp_all
qed

text \<open>The new blocks and the condition.\<close>

lemma if_head:
  assumes s: "starts c D js p s" and ids: "distinct (ids_expr g)" "set (ids_expr g) \<subseteq> set js" and g: "condition_ok c D g" and k: "unit_node c k"
    and n: "new_block l1 s = Inr (b1, s1)" "new_block l2 s1 = Inr (b2, s2)" "new_block l3 s2 = Inr (b3, s3)"
    and sl: "if_result_slot k s3 = Inr (slot, s4)" and co: "gen_expr g s4 = Inr ((), s5)" "get_rvalue (expr_id g) s5 = Inr (v, s6)"
    and en: "ensure_current_insertion s6 = Inr ((), s7)" and br: "build (create_cond_br v b1 b2) s7 = Inr ((), t)"
  shows "slot = None" "steady t" "changes {p} (set (ids_expr g)) s t" "waiting b1 t" "waiting b2 t" "waiting b3 t"
    "distinct [p, b1, b2, b3]" "list_all ((\<le>) (length (block_store (gmodule s)))) [b1, b2, b3]"
    "tests t c g p (length (body (gmodule s) p)) b1 b2"
proof -
  have o: "open_at p s" "sema (world s) = c" using s by (simp_all add: starts_def)
  note nb = new_blocks_code [OF o(1) n]
  have "sema (world s3) = c" using changesD(1) [OF nb(2)] o(2) by simp
  then have s4: "slot = None \<and> s4 = s3" using no_slot_run [OF _ sl] k by auto
  have st3: "starts c D (ids_expr g) p s3"
    by (rule starts_later [OF s nb(1, 2)]) (use ids in auto)
  have co3: "gen_expr g s3 = Inr ((), s5)" using co(1) s4 by simp
  have br6: "\<forall>q. open_at q s6 \<longrightarrow> build (create_cond_br v b1 b2) s6 = Inr ((), t)"
    using ready_reads(1) [OF open_ready] en br by fastforce
  have own: "b1 \<in> own s3" "b2 \<in> own s3" using nb(3, 4) by (simp_all add: waiting_def)
  note cc = condition_code [OF st3 g co3 co(2) br6 own]
  show "slot = None" "steady t" using s4 cc(1) by simp_all
  show "changes {p} (set (ids_expr g)) s t" by (rule changes_trans [OF nb(2) cc(2)]) auto
  show "distinct [p, b1, b2, b3]" "list_all ((\<le>) (length (block_store (gmodule s)))) [b1, b2, b3]" by (rule nb)+
  then show "waiting b1 t" "waiting b2 t" "waiting b3 t" using waiting_later [OF openD(2) [OF nb(1)] cc(2)] nb(3-5) by auto
  show "tests t c g p (length (body (gmodule s) p)) b1 b2" using cc(3) by (simp add: nb(8))
qed

text \<open>What the blocks do together.\<close>

lemma if_runs:
  assumes g: "tests t c g p (length (body (gmodule s) p)) b1 b2" and a: "jumps t b1 b3 (runs_expr c a)"
    and b: "jumps t b2 b3 (\<lambda>vs vs'. case b of None \<Rightarrow> vs' = vs | Some e \<Rightarrow> runs_expr c e vs vs')" and e: "body (gmodule t) b3 = []"
  shows "runs_to p s b3 t (runs_expr c (IfExpr k g a b m))"
proof (rule runs_toI)
  fix im S vs vs' regs mem
  assume im: "continues (gmodule t) im" and S: "map_le (slots_of t) S" "good_slots (sema (world t)) S"
    and h: "holds_variables S mem vs" and R: "runs_expr c (IfExpr k g a b m) vs vs'"
  consider (true) "expr_value c vs g = Some 1" "runs_expr c a vs vs'"
    | (false) "expr_value c vs g = Some 0" "case b of None \<Rightarrow> vs' = vs | Some e \<Rightarrow> runs_expr c e vs vs'"
    using R by (auto elim: runs_ifE)
  then show "\<exists>regs' mem'. reaches im (p, length (body (gmodule s) p), regs, mem) (b3, length (body (gmodule t) b3), regs', mem')
      \<and> holds_variables S mem' vs'" unfolding e list.size
  proof cases
    case true
    from testsD [OF g im S h true(1), of regs] obtain regs1 mem1 where
      1: "reaches im (p, length (body (gmodule s) p), regs, mem) (b1, 0, regs1, mem1)" and h1: "holds_variables S mem1 vs" by auto
    from jumpsD [OF a im S h1 true(2)] obtain regs2 mem2 where
      "reaches im (b1, 0, regs1, mem1) (b3, 0, regs2, mem2)" "holds_variables S mem2 vs'" .
    then show "\<exists>regs' mem'. reaches im (p, length (body (gmodule s) p), regs, mem) (b3, 0, regs', mem') \<and> holds_variables S mem' vs'"
      using reaches_trans [OF 1] by blast
  next
    case false
    from testsD [OF g im S h false(1), of regs] obtain regs1 mem1 where
      1: "reaches im (p, length (body (gmodule s) p), regs, mem) (b2, 0, regs1, mem1)" and h1: "holds_variables S mem1 vs" by auto
    from jumpsD [OF b im S h1 false(2)] obtain regs2 mem2 where
      "reaches im (b2, 0, regs1, mem1) (b3, 0, regs2, mem2)" "holds_variables S mem2 vs'" .
    then show "\<exists>regs' mem'. reaches im (p, length (body (gmodule s) p), regs, mem) (b3, 0, regs', mem') \<and> holds_variables S mem' vs'"
      using reaches_trans [OF 1] by blast
  qed
qed

lemma if_works:
  assumes a: "expr_works c a" and b: "\<And>e. b = Some e \<Longrightarrow> expr_works c e"
  shows "expr_works c (IfExpr k g a b m)"
  unfolding expr_works_def
proof (intro allI impI)
  fix D p s u t
  let ?J = "ids_expr (IfExpr k g a b m)"
  let ?B = "set (opt_list (map_option ids_expr b))"
  assume ok: "effect_expr c (IfExpr k g a b m) D" and s: "starts c D ?J p s" and run: "gen_expr (IfExpr k g a b m) s = Inr (u, t)"
  have g: "condition_ok c D g" "unit_node c k" "effect_expr c a D" and eb: "\<And>e. b = Some e \<Longrightarrow> effect_expr c e D"
    using ok by (auto split: option.splits)
  have ids: "distinct ?J" and "fn_ctx s \<noteq> None" using s by (auto simp: starts_def elim: in_open)
  with run obtain b1 s1 b2 s2 b3 s3 slot s4 s5 v s6 s7 s8 s9 s10 s11 s12 s13 s14 s15 where
    n: "new_block ''if.then'' s = Inr (b1, s1)" "new_block ''if.else'' s1 = Inr (b2, s2)" "new_block ''if.merge'' s2 = Inr (b3, s3)"
    and co: "if_result_slot k s3 = Inr (slot, s4)" "gen_expr g s4 = Inr ((), s5)" "get_rvalue (expr_id g) s5 = Inr (v, s6)"
      "ensure_current_insertion s6 = Inr ((), s7)" "build (create_cond_br v b1 b2) s7 = Inr ((), s8)"
    and th: "enter_block b1 s8 = Inr ((), s9)" "gen_expr a s9 = Inr ((), s10)" "finish_branch k (expr_id a) slot b3 s10 = Inr ((), s11)"
    and el: "set_point (Some b2) s11 = Inr ((), s12)" "set_ctx (\<lambda>c. c\<lparr>block_sealed := False\<rparr>) s12 = Inr ((), s13)"
      "(case (map_option expr_id b, map_option gen_expr b) of
          (Some i, Some visit) \<Rightarrow>
            then_act (set_ctx (\<lambda>c. c\<lparr>current_block := Some b2\<rparr>)) (then_act visit (finish_branch k i slot b3))
        | _ \<Rightarrow> build (create_br b3)) s13 = Inr ((), s14)"
    and e3: "enter_block b3 s14 = Inr ((), s15)" "(case slot of None \<Rightarrow> ret_act () | Some slot \<Rightarrow> set_address k slot) s15 = Inr (u, t)"
    by (auto simp: gen_if_def in_function_def res_simps split: if_splits)
  have idg: "distinct (ids_expr g)" "set (ids_expr g) \<subseteq> set ?J" using ids by auto
  note h = if_head [OF s idg g(1, 2) n co]
  have d: "p \<noteq> b1" "p \<noteq> b2" "b1 \<noteq> b2" "b1 \<noteq> b3" "b2 \<noteq> b3" using h(7) by auto
  have fr: "\<forall>q. open_at q s10 \<longrightarrow> build (create_br b3) s10 = Inr ((), s11)" using finish_run th(3) h(1) by blast
  have "b3 \<in> own s8" using h(6) by (simp add: waiting_def)
  from branch_entered [OF a g(3) s h(3, 2, 4) this _ _ _ th(1, 2) fr] ids
  have bc: "steady s11" "changes {b1} (set (ids_expr a)) s8 s11" "jumps s11 b1 b3 (runs_expr c a)" by auto
  have w: "waiting b2 s11" "waiting b3 s11" using waiting_later [OF h(2) bc(2)] h(5, 6) d by auto
  have ch11: "changes {p} (set (ids_expr g) \<union> set (ids_expr a)) s s11"
    by (rule changes_trans [OF h(3) bc(2)]) (use h(8) in auto)
  have "b3 \<in> own s11" using w by (simp add: waiting_def)
  from else_code [OF s ch11 bc(1) w(1) this _ _ _ _ el(1, 2) el(3) [unfolded h(1)]] ids b eb
  have ec: "steady s14" "changes {b2} ?B s11 s14" "jumps s14 b2 b3 (\<lambda>vs vs'. case b of None \<Rightarrow> vs' = vs | Some e \<Rightarrow> runs_expr c e vs vs')"
    by auto
  have w3: "b3 \<in> own s14" "body (gmodule s14) b3 = []" using waiting_later [OF bc(1) ec(2) w(2)] d by (simp_all add: waiting_def)
  have "enter_block b3 s14 = Inr ((), t)" using e3 h(1) by (simp add: res_simps)
  note en3 = enter_block_code [OF ec(1) w3 this]
  have fin: "open_at b3 t" "changes {} {} s14 t" "body (gmodule t) b3 = []" using en3(1, 2) w3(2) by (simp_all add: en3(3))
  have ch14: "changes {p} (set ?J) s s14" by (rule changes_trans [OF ch11 ec(2)]) (use h(8) in auto)
  have ch: "changes {p} (set ?J) s t" by (rule changes_trans [OF ch14 fin(2)]) auto
  have later: "changes {b2} ?B s11 t" by (rule changes_trans [OF ec(2) fin(2)]) auto
  have "changes {b1, b2} (set ?J) s8 t" by (rule changes_trans [OF bc(2) later]) auto
  from if_runs [OF tests_later [OF this h(9)] jumps_later [OF later bc(3)] jumps_later [OF fin(2) ec(3)] fin(3)]
  show "\<exists>q. code_for (set ?J) p s q t (runs_expr c (IfExpr k g a b m))"
    using fin(1) ch h(8) by (auto simp: code_for_def)
qed

section \<open>Loops\<close>

text \<open>The iterations of a loop.\<close>

inductive iterates :: "Semantic_Checker \<Rightarrow> expr \<Rightarrow> expr \<Rightarrow> variables \<Rightarrow> variables \<Rightarrow> bool" for c g b where
  iterates_end: "expr_value c vs g = Some 0 \<Longrightarrow> iterates c g b vs vs"
| iterates_again: "expr_value c vs g = Some 1 \<Longrightarrow> runs_expr c b vs vs1 \<Longrightarrow> iterates c g b vs1 vs2 \<Longrightarrow> iterates c g b vs vs2"

lemma runs_iterates:
  "runs_expr c e vs vs' \<Longrightarrow> e = WhileExpr k g b \<longrightarrow> iterates c g b vs vs'"
  "runs_stmt c st vs vs' \<Longrightarrow> True"
  "runs_stmts c ss vs vs' \<Longrightarrow> True"
  by (induction rule: runs_expr_runs_stmt_runs_stmts.inducts) (auto intro: iterates.intros)

lemma loop_reaches:
  assumes cond: "\<And>vs z regs mem thesis. expr_value c vs g = Some z \<Longrightarrow> z = 0 \<or> z = 1 \<Longrightarrow> holds_variables S mem vs \<Longrightarrow>
      (\<And>regs' mem'. reaches m (q, 0, regs, mem) (if z = 0 then r else b2, 0, regs', mem') \<Longrightarrow> holds_variables S mem' vs \<Longrightarrow> thesis) \<Longrightarrow> thesis"
    and body: "\<And>vs vs' regs mem thesis. holds_variables S mem vs \<Longrightarrow> runs_expr c b vs vs' \<Longrightarrow>
      (\<And>regs' mem'. reaches m (b2, 0, regs, mem) (q, 0, regs', mem') \<Longrightarrow> holds_variables S mem' vs' \<Longrightarrow> thesis) \<Longrightarrow> thesis"
  shows "iterates c g b vs vs' \<Longrightarrow> holds_variables S mem vs \<Longrightarrow>
    \<exists>regs' mem'. reaches m (q, 0, regs, mem) (r, 0, regs', mem') \<and> holds_variables S mem' vs'"
proof (induction arbitrary: regs mem rule: iterates.induct)
  case (iterates_end vs)
  from cond [OF iterates_end(1) _ iterates_end(2), of regs] obtain regs1 mem1 where
    "reaches m (q, 0, regs, mem) (r, 0, regs1, mem1)" "holds_variables S mem1 vs" by auto
  then show ?case by blast
next
  case (iterates_again vs vs1 vs2)
  from cond [OF iterates_again(1) _ iterates_again(5), of regs] obtain regs1 mem1 where
    1: "reaches m (q, 0, regs, mem) (b2, 0, regs1, mem1)" and h: "holds_variables S mem1 vs" by auto
  from body [OF h iterates_again(2)] obtain regs2 mem2 where
    2: "reaches m (b2, 0, regs1, mem1) (q, 0, regs2, mem2)" "holds_variables S mem2 vs1" .
  from iterates_again.IH [OF 2(2)] obtain regs3 mem3 where
    "reaches m (q, 0, regs2, mem2) (r, 0, regs3, mem3)" "holds_variables S mem3 vs2" by blast
  then show ?case using reaches_trans [OF 1 reaches_trans [OF 2(1)]] by blast
qed

text \<open>The stack of loops.\<close>

lemma push_loop_code:
  assumes "steady s" "loop_blocks l \<subseteq> own s" "push_loop_ctx l s = Inr ((), t)"
  shows "steady t" "changes {} {} s t" "gmodule t = gmodule s"
proof -
  have "ir_function (x\<lparr>loop_stack := l # loop_stack x\<rparr>) = ir_function x
      \<and> local_slots (x\<lparr>loop_stack := l # loop_stack x\<rparr>) = local_slots x
      \<and> ctx_blocks (x\<lparr>loop_stack := l # loop_stack x\<rparr>) \<subseteq> own s \<union> ctx_blocks x" for x
    using assms(2) by (auto simp: ctx_blocks_def)
  from set_ctx_code [OF assms(1) this assms(3) [unfolded push_loop_ctx_def]]
  show "steady t" "changes {} {} s t" "gmodule t = gmodule s" by simp_all
qed

lemma pop_loop_code:
  assumes "steady s" "pop_loop_ctx s = Inr ((), t)"
  shows "steady t" "changes {} {} s t" "gmodule t = gmodule s"
proof -
  have tl: "set (tl ls) \<subseteq> set ls" for ls :: "LoopContext list" by (cases ls) auto
  have "ir_function (x\<lparr>loop_stack := tl (loop_stack x)\<rparr>) = ir_function x \<and> local_slots (x\<lparr>loop_stack := tl (loop_stack x)\<rparr>) = local_slots x
      \<and> ctx_blocks (x\<lparr>loop_stack := tl (loop_stack x)\<rparr>) \<subseteq> own s \<union> ctx_blocks x" for x
    using tl [of "loop_stack x"] by (auto simp: ctx_blocks_def)
  from set_ctx_code [OF assms(1) this assms(2) [unfolded pop_loop_ctx_def]]
  show "steady t" "changes {} {} s t" "gmodule t = gmodule s" by simp_all
qed

text \<open>The head: the new blocks, the jump to the condition, the condition.\<close>

lemma while_head:
  assumes s: "starts c D js p s" and ids: "distinct (ids_expr g)" "set (ids_expr g) \<subseteq> set js" and g: "condition_ok c D g"
    and n: "new_block l1 s = Inr (b1, s1)" "new_block l2 s1 = Inr (b2, s2)" "new_block l3 s2 = Inr (b3, s3)"
    and be: "branch_if_needed b1 s3 = Inr ((), s4)" and e1: "enter_block b1 s4 = Inr ((), s5)"
    and co: "gen_expr g s5 = Inr ((), s6)" "get_rvalue (expr_id g) s6 = Inr (v, s7)" "build (create_cond_br v b2 b3) s7 = Inr ((), t)"
  shows "steady t" "changes {p} (set (ids_expr g)) s t" "b1 \<in> own t" "waiting b2 t" "waiting b3 t" "distinct [p, b1, b2, b3]"
    "list_all ((\<le>) (length (block_store (gmodule s)))) [b1, b2, b3]"
    "goes t p (length (body (gmodule s) p)) b1" "tests t c g b1 0 b2 b3"
proof -
  have o: "open_at p s" "sema (world s) = c" using s by (simp_all add: starts_def)
  note nb = new_blocks_code [OF o(1) n]
  show "distinct [p, b1, b2, b3]" and l: "list_all ((\<le>) (length (block_store (gmodule s)))) [b1, b2, b3]" by (rule nb)+
  then have d: "p \<noteq> b1" "p \<noteq> b2" "p \<noteq> b3" "b1 \<noteq> b2" "b1 \<noteq> b3" by auto
  have "b1 \<in> own s3" using nb(3) by (simp add: waiting_def)
  note j = branch_if_needed_code [OF nb(1) this be]
  have ch4: "changes {p} {} s s4" by (rule changes_trans [OF nb(2) j(2)]) auto
  have w4: "waiting b1 s4" "waiting b2 s4" "waiting b3 s4" using waiting_later [OF openD(2) [OF nb(1)] j(2)] nb(3-5) d by auto
  have en: "starts c D (ids_expr g) b1 s5" "changes {p} {} s s5" "body (gmodule s5) b1 = []" "changes {} {} s4 s5"
    using enter_starts [OF s ch4 j(1) w4(1) e1, of "ids_expr g"] ids by auto
  have w5: "waiting b1 s5" "waiting b2 s5" "waiting b3 s5" using waiting_later [OF j(1) en(4)] w4 by auto
  have st5: "steady s5" and own5: "b2 \<in> own s5" "b3 \<in> own s5" using en(1) w5 openD(2) by (auto simp: starts_def waiting_def)
  have "\<forall>p. open_at p s7 \<longrightarrow> build (create_cond_br v b2 b3) s7 = Inr ((), t)" using co(3) by blast
  note cc = condition_code [OF en(1) g co(1, 2) this own5]
  show "steady t" by (rule cc(1))
  show "changes {p} (set (ids_expr g)) s t" by (rule changes_trans [OF en(2) cc(2)]) (use l in auto)
  show "b1 \<in> own t" using w5(1) changesD(5) [OF cc(2)] by (auto simp: waiting_def)
  show "waiting b2 t" "waiting b3 t" using waiting_later [OF st5 cc(2)] w5 d by auto
  show "tests t c g b1 0 b2 b3" using cc(3) by (simp add: en(3))
  have "goes s4 p (length (body (gmodule s) p)) b1" using j(3) by (simp add: goes_def nb(8))
  then show "goes t p (length (body (gmodule s) p)) b1" by (rule goes_later [OF cc(2) goes_later [OF en(4)]])
qed

lemma while_runs:
  assumes p: "goes t p (length (body (gmodule s) p)) b1" and g: "tests t c g b1 0 b2 b3" and b: "jumps t b2 b1 (runs_expr c b)"
    and e: "body (gmodule t) b3 = []"
  shows "runs_to p s b3 t (runs_expr c (WhileExpr k g b))"
proof (rule runs_toI)
  fix m S vs vs' regs mem
  assume m: "continues (gmodule t) m" and S: "map_le (slots_of t) S" "good_slots (sema (world t)) S"
    and h: "holds_variables S mem vs" and R: "runs_expr c (WhileExpr k g b) vs vs'"
  have it: "iterates c g b vs vs'" using runs_iterates(1) [OF R] by simp
  have "\<exists>regs' mem'. reaches m (b1, 0, regs, mem) (b3, 0, regs', mem') \<and> holds_variables S mem' vs'"
    by (rule loop_reaches [OF _ _ it h, where ?b2.0 = b2]) (rule testsD [OF g m S], assumption+, rule jumpsD [OF b m S])
  moreover have "reaches m (p, length (body (gmodule s) p), regs, mem) (b1, 0, regs, mem)" using p m by (simp add: goes_def)
  ultimately show "\<exists>regs' mem'. reaches m (p, length (body (gmodule s) p), regs, mem) (b3, length (body (gmodule t) b3), regs', mem')
      \<and> holds_variables S mem' vs'"
    unfolding e list.size using reaches_trans by blast
qed

lemma while_works:
  assumes b: "expr_works c b"
  shows "expr_works c (WhileExpr k g b)"
  unfolding expr_works_def
proof (intro allI impI)
  fix D p s u t
  let ?J = "ids_expr (WhileExpr k g b)"
  assume ok: "effect_expr c (WhileExpr k g b) D" and s: "starts c D ?J p s" and run: "gen_expr (WhileExpr k g b) s = Inr (u, t)"
  have g: "condition_ok c D g" and eb: "effect_expr c b D" using ok by auto
  have ids: "distinct ?J" and "fn_ctx s \<noteq> None" using s by (auto simp: starts_def elim: in_open)
  let ?l = "\<lambda>b1 b2 b3. \<lparr>header_block = b1, body_block = b2, continue_target = b1, break_target = b3, break_slot = None\<rparr> :: LoopContext"
  from run obtain b1 s1 b2 s2 b3 s3 s4 s5 s6 v s7 s8 s9 s10 s11 s12 s13 where
    n: "new_block ''while.cond'' s = Inr (b1, s1)" "new_block ''while.body'' s1 = Inr (b2, s2)" "new_block ''while.exit'' s2 = Inr (b3, s3)"
    and co: "branch_if_needed b1 s3 = Inr ((), s4)" "enter_block b1 s4 = Inr ((), s5)" "gen_expr g s5 = Inr ((), s6)"
      "get_rvalue (expr_id g) s6 = Inr (v, s7)" "build (create_cond_br v b2 b3) s7 = Inr ((), s8)"
    and pu: "push_loop_ctx (?l b1 b2 b3) s8 = Inr ((), s9)" and bo: "enter_block b2 s9 = Inr ((), s10)" "gen_expr b s10 = Inr ((), s11)"
    and ba: "bind_act current_fn (\<lambda>c. when_act (current_block c \<noteq> None \<and> \<not> block_sealed c) (build (create_br b1))) s11 = Inr ((), s12)"
    and po: "pop_loop_ctx s12 = Inr ((), s13)" and e3: "enter_block b3 s13 = Inr (u, t)"
    by (auto simp: gen_while_def in_function_def res_simps split: if_splits)
  have idg: "distinct (ids_expr g)" "set (ids_expr g) \<subseteq> set ?J" using ids by auto
  note h = while_head [OF s idg g n co]
  have d: "p \<noteq> b2" "b1 \<noteq> b2" "b2 \<noteq> b3" using h(6) by auto
  have "loop_blocks (?l b1 b2 b3) \<subseteq> own s8" using h(3-5) by (auto simp: loop_blocks_def waiting_def)
  note l = push_loop_code [OF h(1) this pu]
  have ch9: "changes {p} (set (ids_expr g)) s s9" by (rule changes_trans [OF h(2) l(2)]) auto
  have w9: "waiting b2 s9" "waiting b3 s9" "b1 \<in> own s9" using waiting_later [OF h(1) l(2)] h(3-5) changesD(5) [OF l(2)] by auto
  have jump: "\<forall>q. open_at q s11 \<longrightarrow> build (create_br b1) s11 = Inr ((), s12)"
    using ba by (auto simp: current_fn_def res_simps when_act_def elim!: in_open)
  from branch_entered [OF b eb s ch9 l(1) w9(1, 3) _ _ _ bo jump] ids
  have bc: "steady s12" "changes {b2} (set (ids_expr b)) s9 s12" "jumps s12 b2 b1 (runs_expr c b)" by auto
  note q = pop_loop_code [OF bc(1) po]
  have w12: "waiting b3 s12" using waiting_later [OF l(1) bc(2) w9(2)] d by auto
  have w13: "b3 \<in> own s13" "body (gmodule s13) b3 = []" using waiting_later [OF bc(1) q(2) w12] by (simp_all add: waiting_def)
  note en3 = enter_block_code [OF q(1) w13 e3]
  have later12: "changes {} {} s12 t" by (rule changes_trans [OF q(2) en3(2)]) auto
  have later9: "changes {b2} (set (ids_expr b)) s9 t" by (rule changes_trans [OF bc(2) later12]) auto
  have later8: "changes {b2} (set (ids_expr b)) s8 t" by (rule changes_trans [OF l(2) later9]) auto
  have ch: "changes {p} (set ?J) s t" by (rule changes_trans [OF h(2) later8]) (use h(7) in auto)
  have e: "body (gmodule t) b3 = []" using w13(2) by (simp add: en3(3))
  from while_runs [OF goes_later [OF later8 h(8)] tests_later [OF later8 h(9)] jumps_later [OF later12 bc(3)] e]
  show "\<exists>q. code_for (set ?J) p s q t (runs_expr c (WhileExpr k g b))"
    using en3(1) ch h(7) by (auto simp: code_for_def)
qed

section \<open>Properties\<close>

lemma binary_works: "expr_works c (BinaryExpr k OP l r)"
  unfolding expr_works_def using assign_code by simp

lemma all_work:
  shows "t = (t :: type_node)"
  and "expr_works c e"
  and "stmt_works c st"
  and "i = (i :: item)"
proof (induction t and e and st and i rule: type_node.induct expr.induct stmt.induct item.induct)
  case (BinaryExpr k OP l r)
  show ?case by (rule binary_works)
next
  case (BlockExpr k ss t m)
  then show ?case by (intro block_works) auto
next
  case (IfExpr k g a b m)
  then show ?case by (intro if_works) auto
next
  case (WhileExpr k g b)
  then show ?case by (intro while_works)
next
  case (ExprStmt k e semi)
  then show ?case by (intro expr_stmt_works)
next
  case (LetStmt k p t e)
  show ?case by (rule let_works)
qed (simp_all add: expr_works_def stmt_works_def)


text \<open>The block \<open>{ let x: i32 = 5; while x > 2 && x < 9 { x -= 2; } }\<close> at the beginning of a function.\<close>

definition loop_example :: expr where
  "loop_example =
     BlockExpr 0
       [LetStmt 1 (IdentifierPattern 2 ''x'' MUTABLE NO_REF) (PathType 3 NO_REF ''i32'') (Some (LiteralExpr 4 LIT_NUMBER ''5'')),
        ExprStmt 5
          (WhileExpr 6
            (BinaryExpr 7 BOP_AND_AND
              (BinaryExpr 15 BOP_GT (IdentifierExpr 8 ''x'') (LiteralExpr 9 LIT_NUMBER ''2''))
              (BinaryExpr 16 BOP_LT (IdentifierExpr 17 ''x'') (LiteralExpr 18 LIT_NUMBER ''9'')))
            (BlockExpr 10
              [ExprStmt 11 (BinaryExpr 12 BOP_SUB_ASSIGN (IdentifierExpr 13 ''x'') (LiteralExpr 14 LIT_NUMBER ''2'')) True]
              None True)) False]
       None True"

definition loop_state :: irgen where
  "loop_state =
     \<lparr>fn_ctx = Some (new_context 0 0 0 1), expr_value_map = Map.empty, expr_address_map = Map.empty,
      world =
        \<lparr>sema = new_checker
           \<lparr>let_decls := [9 \<mapsto> \<lparr>let_name = ''x'', let_type = I32RealType NO_REF, let_is_mut = MUTABLE\<rparr>],
            let_stmt_to_decl_map := [1 \<mapsto> 9],
            identifier_expr_to_decl_map := [8 \<mapsto> LetStmt_decl 9, 13 \<mapsto> LetStmt_decl 9, 17 \<mapsto> LetStmt_decl 9],
            checker_outcome_map := [1 \<mapsto> 1, 5 \<mapsto> 1, 11 \<mapsto> 1],
            node_type_and_place_kind_map :=
              [4 \<mapsto> (AnyIntRealType NO_REF, NotPlace), 7 \<mapsto> (BoolRealType NO_REF, NotPlace),
               8 \<mapsto> (I32RealType NO_REF, ReadOnlyPlace), 9 \<mapsto> (AnyIntRealType NO_REF, NotPlace),
               13 \<mapsto> (I32RealType NO_REF, ReadOnlyPlace), 14 \<mapsto> (AnyIntRealType NO_REF, NotPlace),
               15 \<mapsto> (BoolRealType NO_REF, NotPlace), 16 \<mapsto> (BoolRealType NO_REF, NotPlace),
               17 \<mapsto> (I32RealType NO_REF, ReadOnlyPlace), 18 \<mapsto> (AnyIntRealType NO_REF, NotPlace)]\<rparr>,
         ir_builder = (new_builder ((new_module [] [])
           \<lparr>ir_functions := [(new_ir_function ''f'' (FunctionType VoidType []) False)
              \<lparr>blocks := [0, 1], block_name_counter := (\<lambda>_. 0)(''entry'' := 1, ''return'' := 1)\<rparr>],
            block_store := [\<lparr>block_label = ''entry.0'', instructions = []\<rparr>, \<lparr>block_label = ''return.0'', instructions = []\<rparr>]\<rparr>))
           \<lparr>insertion_block := Some 0, current_function := Some 0\<rparr>,
         type_lowering = new_type_lowering\<rparr>\<rparr>"

lemma loop_state_open: "open_at 0 loop_state"
proof -
  let ?f = "(new_ir_function ''f'' (FunctionType VoidType []) False)
    \<lparr>blocks := [0, 1], block_name_counter := (\<lambda>_. 0)(''entry'' := 1, ''return'' := 1)\<rparr>"
  let ?bs = "[\<lparr>block_label = ''entry.0'', instructions = []\<rparr>, \<lparr>block_label = ''return.0'', instructions = []\<rparr>]"
  have "dotted ''entry'' 0 = ''entry.0''" "dotted ''return'' 0 = ''return.0''" by code_simp+
  then have "label_used ?f ''entry.0''" "label_used ?f ''return.0''"
    unfolding label_used_def by (intro exI [of _ "''entry''"] exI [of _ 0] exI [of _ "''return''"]; simp add: new_ir_function_def)+
  then have "function_ok ?bs ?f" by (simp add: function_ok_def block_ok_def new_ir_function_def)
  then show ?thesis
    by (simp add: open_at_def at_point_def steady_def gen_ok_def builder_ok_def module_ok_def point_ok_def result_names_def block_results_def
        known_def own_def owner_def ctx_blocks_def fn_blocks_def loop_state_def new_context_def new_builder_def new_module_def new_ir_function_def
        gbuilder_def gmodule_def good_slots_def slot_name_def slots_of_def body_def)
qed

lemma loop_example_runs: "runs_expr (sema (world loop_state)) loop_example Map.empty [9 \<mapsto> 1]"
proof -
  let ?c = "sema (world loop_state)"
  let ?g = "BinaryExpr 7 BOP_AND_AND (BinaryExpr 15 BOP_GT (IdentifierExpr 8 ''x'') (LiteralExpr 9 LIT_NUMBER ''2''))
      (BinaryExpr 16 BOP_LT (IdentifierExpr 17 ''x'') (LiteralExpr 18 LIT_NUMBER ''9''))"
  let ?a = "BinaryExpr 12 BOP_SUB_ASSIGN (IdentifierExpr 13 ''x'') (LiteralExpr 14 LIT_NUMBER ''2'')"
  let ?b = "BlockExpr 10 [ExprStmt 11 ?a True] None True"
  have init: "runs_stmt ?c (LetStmt 1 (IdentifierPattern 2 ''x'' MUTABLE NO_REF) (PathType 3 NO_REF ''i32'')
      (Some (LiteralExpr 4 LIT_NUMBER ''5''))) Map.empty [9 \<mapsto> 5]"
    by (rule runs_let [where kd = RTK_I32]) code_simp+
  have once: "runs_expr ?c ?b vs vs'" if "runs_expr ?c ?a vs vs'" for vs vs'
    using that by (intro runs_block runs_one [OF runs_effect runs_nothing])
  have "runs_expr ?c ?a [9 \<mapsto> 5] ([9 \<mapsto> 5](9 \<mapsto> 3))"
    by (rule runs_compound [where OP' = BOP_SUB and ka = RTK_I32 and kb = RTK_ANYINT and m = 5 and n = 2]) code_simp+
  then have first: "runs_expr ?c ?b [9 \<mapsto> 5] [9 \<mapsto> 3]" using once by simp
  have "runs_expr ?c ?a [9 \<mapsto> 3] ([9 \<mapsto> 3](9 \<mapsto> 1))"
    by (rule runs_compound [where OP' = BOP_SUB and ka = RTK_I32 and kb = RTK_ANYINT and m = 3 and n = 2]) code_simp+
  then have second: "runs_expr ?c ?b [9 \<mapsto> 3] [9 \<mapsto> 1]" using once by simp
  have "expr_value ?c [9 \<mapsto> 5] ?g = Some 1" "expr_value ?c [9 \<mapsto> 3] ?g = Some 1" "expr_value ?c [9 \<mapsto> 1] ?g = Some 0" by code_simp+
  then have "runs_expr ?c (WhileExpr 6 ?g ?b) [9 \<mapsto> 5] [9 \<mapsto> 1]"
    using first second by (meson runs_while_again runs_while_end)
  then show ?thesis unfolding loop_example_def
    using init by (intro runs_block runs_one [OF init] runs_one [OF runs_effect runs_nothing])
qed


end
