(* ===== verification/StringLiterals.thy ===== *)
theory StringLiterals
  imports IRBuilder
begin

section \<open>String literals in the text of the module\<close>

text \<open>
  The reader of LLVM takes a backslash with two hexadecimal digits for one byte and every other character
  for itself, up to the next quote. What \<open>encode_string_literal\<close> of \<open>src/ir/IRBuilder.cpp\<close> writes is
  compared to it.
\<close>

definition hex_value :: "char \<Rightarrow> nat option" where
  "hex_value c =
     (let n = (of_char c :: nat)
      in if 48 \<le> n \<and> n \<le> 57 then Some (n - 48) else if 65 \<le> n \<and> n \<le> 70 then Some (n - 55) else None)"

text \<open>The bytes of the literal that begins here, and what comes after its closing quote.\<close>

fun read_literal :: "string \<Rightarrow> (string \<times> string) option" where
  "read_literal [] = None"
| "read_literal (c # cs) =
     (if c = CHR 0x22 then Some ([], cs)
      else if c = CHR 0x5C then
        (case cs of
           h # l # rest \<Rightarrow>
             (case (hex_value h, hex_value l) of
                (Some x, Some y) \<Rightarrow> map_option (map_prod ((#) (char_of (16 * x + y))) id) (read_literal rest)
              | _ \<Rightarrow> None)
         | _ \<Rightarrow> None)
      else map_option (map_prod ((#) c) id) (read_literal cs))"

lemma hex_value_digit: "d < 16 \<Longrightarrow> hex_value (hex_digit d) = Some d"
  by (auto simp: hex_value_def hex_digit_def Let_def)

lemma read_encoded: "read_literal (encode_char c @ rest) = map_option (map_prod ((#) c) id) (read_literal rest)"
proof (cases "is_print c \<and> c \<noteq> CHR 0x5C \<and> c \<noteq> CHR 0x22")
  case True
  then show ?thesis by (simp add: encode_char_def)
next
  case False
  have lt: "(of_char c :: nat) < 256" by simp
  have "(of_char c :: nat) div 16 < 16" using lt by (simp add: less_mult_imp_div_less)
  moreover have "16 * ((of_char c :: nat) div 16) + of_char c mod 16 = of_char c" by (rule mult_div_mod_eq)
  ultimately show ?thesis using False by (auto simp: encode_char_def hex_value_digit)
qed

lemma read_all: "read_literal (concat (map encode_char s) @ rest) = map_option (map_prod ((@) s) id) (read_literal rest)"
  by (induction s) (simp_all add: read_encoded option.map_comp comp_def prod.map_comp option.map_id [unfolded id_def] map_prod_def split_def)

section \<open>Properties\<close>

text \<open>C18. The text of a string literal stands for its characters: read as LLVM reads it, it gives back
  the string with a zero byte behind it, whatever characters the string has, and nothing is left over; the array that is
  declared for it has one element for each of these bytes.\<close>

theorem string_literal_roundtrip:
  "\<exists>body. encode_string_literal s = CHR 0x63 # CHR 0x22 # body \<and> read_literal body = Some (s @ [CHR 0x00], [])
    \<and> (case create_string_literal s b of
         Inl _ \<Rightarrow> True
       | Inr (g, _) \<Rightarrow> (\<exists>name. g = GlobalValue name (IRArrayType (IntegerType 8) (length (s @ [CHR 0x00])))
           (encode_string_literal s) True ''private''))"
proof -
  have zero: "read_literal (CHR 0x5C # CHR ''0'' # CHR ''0'' # [CHR 0x22]) = Some ([CHR 0x00], [])"
    by code_simp
  have "read_literal (concat (map encode_char s) @ CHR 0x5C # CHR ''0'' # CHR ''0'' # [CHR 0x22]) = Some (s @ [CHR 0x00], [])"
    unfolding read_all zero by simp
  moreover have "case create_string_literal s b of
         Inl _ \<Rightarrow> True
       | Inr (g, _) \<Rightarrow> (\<exists>name. g = GlobalValue name (IRArrayType (IntegerType 8) (length (s @ [CHR 0x00])))
           (encode_string_literal s) True ''private'')"
    by (auto simp: create_string_literal_def on_module_def create_global_def Let_def bindr.simps split: sum.splits if_splits)
  ultimately show ?thesis by (simp add: encode_string_literal_def)
qed

end
