(* ===== verification/Spec2Isabelle.thy ===== *)
theory Spec2Isabelle
  imports AstPrinter BlockProps ControlflowProps ConstProps ScopeProps ResolveTree ConstVisitorProps TypeCheckProps CompilerEnds BranchCorrect StringLiterals
begin

text \<open>
  A compiler for a subset of Rust, written in C++, that reads a program from the standard
  input, checks it and prints LLVM IR. This development models the compiler itself, from the
  characters of the program to the characters of the module, as functions of HOL, and proves what
  its parts promise each other.

  \<^bold>\<open>The pipeline.\<close> \<open>run_full_pipeline\<close> of \<open>main.cpp\<close> calls the parts in this order. The lexer
  turns text into tokens. A recursive-descent parser with a Pratt parser for operators turns
  tokens into a syntax tree, whose nodes \<open>ASTIdGenerator\<close> numbers in preorder; later passes
  keep what they find in maps from these numbers. The control-flow pass records how each expression may
  complete. \<open>Semantic_Checker\<close> then works in four steps: it builds the tree of scopes with the
  declarations of every name space, resolves the types in the declarations, evaluates constants
  and array sizes, and gives every expression a type and every local variable a declaration. The
  back end lowers types and global declarations, and a last visitor writes the
  functions with an IR builder into a module, which is printed. An exception of any part ends the
  compiler with exit code 1.

  \<^bold>\<open>How C++ is read.\<close> A thrown exception, a failed assertion and a use of a null or missing object are values of
  \<open>err\<close> (theory \<open>Prelude\<close>), a result is a value of \<open>err + 'a\<close>. Objects that are shared
  through \<open>shared_ptr\<close> and changed in place (scopes, declarations, blocks) live in stores and are named
  by addresses. The back end, whose functions read, change and return, is written with actions
  (theory \<open>Effects\<close>): functions of the state to an error or a value with the new state. A
  \<open>std::map\<close> over names is a sorted association list (\<open>Smap\<close>) where its order shows, otherwise a function. Machine integers
  keep their width where a result depends on it (constants, literals, sizes); counters of nodes
  and blocks are natural numbers. A recursion that is not structural carries fuel, and
  the value \<open>OutOfFuel\<close> that stands for its exhaustion is proved not to occur.

  \<^bold>\<open>Theories and sources.\<close>
  \<^item> Shared: \<open>Prelude\<close>, \<open>Effects\<close>, \<open>Smap\<close>, and \<open>Traversal\<close> with the contract of a visitor.
  \<^item> \<open>lexer/lexer.cpp\<close>: \<open>Token\<close> (the tokens and their texts), \<open>Lexer\<close> (the state machine
    \<open>read_and_get_tokens\<close>), \<open>LexerProps\<close>.
  \<^item> \<open>ast/ast.h\<close>, \<open>ast/visitor.cpp\<close>: \<open>Ast\<close> (one constructor per node class), \<open>NodeIds\<close> (the
    numbering), \<open>AstPrinter\<close>.
  \<^item> \<open>parser/parser.cpp\<close>: \<open>Parser\<close>; \<open>ParserProps\<close> (progress and totality), \<open>ExprPrint\<close> and
    \<open>ExprRoundtrip\<close> (the grammar of expressions as a printer), \<open>BlockProps\<close>.
  \<^item> \<open>semantic/controlflow.cpp\<close>: \<open>Controlflow\<close>, \<open>ControlflowProps\<close>.
  \<^item> \<open>tools/tools.cpp\<close>: \<open>Tools\<close> (the literals). \<open>semantic/type.h\<close> and \<open>type_merge\<close>: \<open>Types\<close>,
    \<open>TypesProps\<close>. \<open>semantic/consteval.cpp\<close>: \<open>ConstValues\<close>, \<open>ConstProps\<close>, \<open>ConstVisitor\<close>,
    \<open>ConstVisitorProps\<close>.
  \<^item> \<open>semantic/scope.cpp\<close>: \<open>Decls\<close>, \<open>ScopeBuilder\<close>, \<open>ScopeProps\<close>. \<open>semantic/type.cpp\<close> and the second
    step of \<open>semantic_checker.cpp\<close>: \<open>Resolve\<close>, \<open>ResolveProps\<close>, \<open>ResolveTree\<close>.
    \<open>semantic/typecheck.cpp\<close>: \<open>TypeCheck\<close>, \<open>TypeCheckProps\<close>. The four steps together: \<open>Checker\<close>.
  \<^item> \<open>ir/IRBuilder.cpp\<close>: \<open>IR\<close> (values, instructions, blocks, functions, the module and their
    text), \<open>IRBuilder\<close>, \<open>IRWellFormed\<close>, \<open>StringLiterals\<close>. \<open>ir/type_lowering.cpp\<close>: \<open>TypeLowering\<close>.
    \<open>ir/global_lowering.cpp\<close>: \<open>GlobalLowering\<close>, \<open>LoweringProps\<close>. \<open>ir/IRGen.cpp\<close>: \<open>IRGenBase\<close> (state and
    helpers), \<open>IRGen\<close> (one definition per \<open>visit\<close>), \<open>IRGenProps\<close>. What its code
    does: \<open>ExprMeaning\<close> and \<open>StmtMeaning\<close> (semantics of the source and of blocks of instructions), \<open>ExprCodegen\<close>,
    \<open>LineCode\<close>, \<open>BlockCode\<close>, \<open>StmtCodegen\<close>, \<open>LazyCode\<close> (short circuits), \<open>StmtCorrect\<close>, \<open>BranchCorrect\<close>.
  \<^item> \<open>main.cpp\<close>: \<open>Pipeline\<close>, \<open>PipelineProps\<close>.
  \<^item> Termination: \<open>Returns\<close>, \<open>ValueEnds\<close>, \<open>PlainTypes\<close>, \<open>CheckerEnds\<close>, \<open>BackEnds\<close>, \<open>GenEnds\<close>, \<open>CompilerEnds\<close>.

  \<^bold>\<open>What is shown.\<close>
  \<^item> The lexer: every token list it returns is well-formed; printing well-formed tokens and scanning them
    gives them back; scanning what was scanned changes nothing.
  \<^item> The parser: it ends on every token list, each recursive function consumes a token; the printed
    form of an expression, with parentheses only where binding powers ask for them,
    parses back to it, also from the text; statements in a block carry the marks the checker relies on.
    Node numbers are consecutive in preorder.
  \<^item> The control-flow pass refines a function of each node, the set it computes contains every way
    an evaluation can complete, and jumps do not leave functions.
  \<^item> Literals and constants: acceptance and value of every literal, the operators and conversions of
    constants against the integers, the visitor against a recursive evaluator, the types of constants.
  \<^item> Types: \<open>type_merge\<close> is the least upper bound of the coercion order, an assignment is
    accepted exactly when the value coerces.
  \<^item> The checker: the scopes form a tree with a scope for every node, all lookups end, the second step
    resolves every declaration, an accepted program has a type at each expression, a visit restores the
    state of the visitor, immutable variables are not assigned.
  \<^item> The back end: every module it makes is in single assignment form, has terminators only at
    ends of blocks, branches inside the function and unique names, and can be printed; the
    text of a string literal denotes its characters; the code of an expression computes its value; the
    blocks generated for declarations, assignments, conditionals, loops and blocks of statements run, on
    a machine over the finished function, from the point where their generation began to the point
    where it ended, and leave the slots of the variables as the statements leave the variables.
  \<^item> The compiler ends on every input.

  \<^bold>\<open>Interfaces.\<close> Six locales state what one part needs of another, each interpreted on the code's own
  definitions: \<open>name_table\<close> (a name space; \<open>smap\<close>), \<open>token_stream\<close> (what the parser asks of the lexer;
  \<open>cursor\<close>), \<open>walker\<close> and \<open>node_walker\<close> (a traversal keeps an invariant and sees its nodes; \<open>resolving\<close>,
  \<open>scoping\<close>, \<open>typing\<close>, \<open>keeping\<close>), \<open>sequencing\<close> (composition of outcomes; \<open>outcome\<close>) and \<open>stepping\<close> (actions that
  make reflexive and transitive steps under an invariant; \<open>building\<close>, \<open>lowering\<close>, \<open>backing\<close>, \<open>generating\<close>,
  \<open>line\<close>).

  \<^bold>\<open>Bounds and fuel.\<close> \<open>compiler_ends\<close> shows that all of the following suffice on every input.
  \<^item> \<open>parsers_upto\<close>: one level per token, because each recursive call of the parser follows a consumed token.
  \<^item> The searches along scopes and the walks over the tree of scopes: \<open>next_address\<close>, because a parent is older
    than its children.
  \<^item> \<open>lower\<close>: 2, because declared types have no function types in them. The sizes of
    built-in structures: 2, because their fields are scalars.
  \<^item> \<open>size_of_struct\<close>: \<open>next_address + 1\<close>, because the names whose size is being computed are
    distinct structures; a name that is met again is an error of the program.

  \<^bold>\<open>Not modelled.\<close>
  \<^item> The runtime \<open>builtin.c\<close>, C functions that compiled programs are linked with and that the compiler
    does not contain.
  \<^item> The exhaustion of memory and of the stack, and the wrap-around of counters of type \<open>size_t\<close>.
  \<^item> The memory behind a dangling pointer: \<open>visit(BreakExpr)\<close> keeps a pointer into the stack of loops while the
    value is visited, which may move the stack; the model reads it as the loop that it pointed to.
  \<^item> The free function \<open>Scope_dfs_and_build_type\<close> of \<open>type.cpp\<close>, an older copy of the method of
    \<open>Semantic_Checker\<close> that nothing calls, and accessors and constructors that only copy fields.
  \<^item> The meaning of generated code outside scalar expressions (literals, local variables, operators
    with \<open>&&\<close> and \<open>||\<close>, conversions) and the statements \<open>let\<close>, assignment, \<open>if\<close>, \<open>while\<close> and blocks: calls, references,
    structures, arrays, \<open>loop\<close>, \<open>break\<close>, \<open>continue\<close> and \<open>return\<close> are generated in full, but
    are not compared with a semantics of the source.
\<close>

end
